(* ===== verification/Prelude.thy ===== *)
theory Prelude
  imports Main "HOL-Library.Word" "HOL-Library.Multiset"
begin

text \<open>
  What the component theories share: names for Rust's machine integers, the result type of a
  fallible Rust function, checked arithmetic, the \<open>Vec\<close> and slice operations the sources use
  (\<open>swap_remove\<close>, \<open>copy_from_slice\<close>, \<open>binary_search_by\<close>), the page-size
  constants of \<open>sysdeps/unix.rs\<close> and \<open>lib.rs\<close>, and the generic lemmas on them.
  \<open>usize\<close> is 64 bits wide (the sources support x86-64 only). Unchecked \<open>+\<close>, \<open>-\<close> and
  \<open>*\<close> wrap around, as they do in a release build.
\<close>

unbundle bit_operations_syntax

section \<open>Types\<close>

type_synonym u8 = "8 word"
type_synonym u16 = "16 word"
type_synonym u32 = "32 word"
type_synonym u64 = "64 word"
type_synonym usize = "64 word"
type_synonym i64 = "64 word"

text \<open>
  A Rust function that returns \<open>Result<T, E>\<close> ends in one of three ways: \<open>Ok\<close>,
  \<open>Err\<close>, or a panic. The last argument of \<open>Panic\<close> is the message.
\<close>

datatype ('e, 'a) rresult = Ok 'a | Err 'e | Panic string

text \<open>The question mark operator, and \<open>map_err\<close>.\<close>

fun rbind :: "('e, 'a) rresult \<Rightarrow> ('a \<Rightarrow> ('e, 'b) rresult) \<Rightarrow> ('e, 'b) rresult" where
  "rbind (Ok x) f = f x"
| "rbind (Err e) f = Err e"
| "rbind (Panic m) f = Panic m"

fun map_err :: "('e \<Rightarrow> 'f) \<Rightarrow> ('e, 'a) rresult \<Rightarrow> ('f, 'a) rresult" where
  "map_err g (Ok x) = Ok x"
| "map_err g (Err e) = Err (g e)"
| "map_err g (Panic m) = Panic m"

fun map_res :: "('a \<Rightarrow> 'b) \<Rightarrow> ('e, 'a) rresult \<Rightarrow> ('e, 'b) rresult" where
  "map_res g (Ok x) = Ok (g x)"
| "map_res g (Err e) = Err e"
| "map_res g (Panic m) = Panic m"

fun is_ok :: "('e, 'a) rresult \<Rightarrow> bool" where
  "is_ok (Ok x) = True"
| "is_ok (Err e) = False"
| "is_ok (Panic m) = False"

fun rresult_of_option :: "'e \<Rightarrow> 'a option \<Rightarrow> ('e, 'a) rresult" where
  "rresult_of_option e None = Err e"
| "rresult_of_option e (Some x) = Ok x"

section \<open>Constants of the host\<close>

text \<open>
  \<open>host_page_size()\<close> asks \<open>sysconf\<close> once and panics unless the answer is
  \<open>HOST_PAGE_SIZE_EXPECTED\<close>; every call that returns gives this value.
\<close>

definition host_page_size :: usize where
  "host_page_size = 4096"

definition WASM_PAGE_SIZE :: u32 where
  "WASM_PAGE_SIZE = 64 * 1024"

section \<open>Checked arithmetic\<close>

definition checked_add :: "'w::len word \<Rightarrow> 'w word \<Rightarrow> 'w word option" where
  "checked_add a b = (if unat a + unat b < 2 ^ LENGTH('w) then Some (a + b) else None)"

definition checked_mul :: "'w::len word \<Rightarrow> 'w word \<Rightarrow> 'w word option" where
  "checked_mul a b = (if unat a * unat b < 2 ^ LENGTH('w) then Some (a * b) else None)"

definition checked_sub :: "'w::len word \<Rightarrow> 'w word \<Rightarrow> 'w word option" where
  "checked_sub a b = (if b \<le> a then Some (a - b) else None)"

definition checked_div :: "'w::len word \<Rightarrow> 'w word \<Rightarrow> 'w word option" where
  "checked_div a b = (if b = 0 then None else Some (a div b))"

section \<open>Vectors and slices\<close>

text \<open>\<open>Vec::swap_remove(i)\<close>: takes element \<open>i\<close> out and moves the last element into its
  place; panics when \<open>i\<close> is out of range.\<close>

definition swap_remove :: "nat \<Rightarrow> 'a list \<Rightarrow> ('e, 'a \<times> 'a list) rresult" where
  "swap_remove i xs =
     (if i < length xs then Ok (xs ! i, butlast (xs[i := last xs]))
      else Panic ''swap_remove index out of bounds'')"

text \<open>\<open>xs[i..i + ys.len()].copy_from_slice(ys)\<close> where the range is known to be inside.\<close>

definition write_slice :: "nat \<Rightarrow> 'a list \<Rightarrow> 'a list \<Rightarrow> 'a list" where
  "write_slice i ys xs = take i xs @ ys @ drop (i + length ys) xs"

text \<open>\<open>xs[i..j]\<close> where the range is known to be inside.\<close>

definition slice_range :: "nat \<Rightarrow> nat \<Rightarrow> 'a list \<Rightarrow> 'a list" where
  "slice_range i j xs = take (j - i) (drop i xs)"

text \<open>Integers as little-endian bytes.\<close>

definition word_bytes :: "nat \<Rightarrow> 'w::len word \<Rightarrow> u8 list" where
  "word_bytes n v = map (\<lambda>k. ucast (drop_bit (8 * k) v)) [0..<n]"

definition word_of_bytes :: "u8 list \<Rightarrow> u64" where
  "word_of_bytes bs = foldr (\<lambda>b acc. ucast b OR push_bit 8 acc) bs 0"

text \<open>
  \<open>slice::binary_search_by\<close> for a comparison with a key: the half-open window
  \<open>[lo, hi)\<close> is halved until the probe compares equal or the window is empty.
\<close>

function bsearch_loop :: "('a \<Rightarrow> 'k::linorder) \<Rightarrow> 'a list \<Rightarrow> 'k \<Rightarrow> nat \<Rightarrow> nat \<Rightarrow> nat option" where
  "bsearch_loop key xs k lo hi =
     (if lo < hi then
        (let mid = lo + (hi - lo) div 2 in
         if key (xs ! mid) = k then Some mid
         else if key (xs ! mid) < k then bsearch_loop key xs k (Suc mid) hi
         else bsearch_loop key xs k lo mid)
      else None)"
  by pat_completeness auto
termination
  by (relation "measure (\<lambda>(key, xs, k, lo, hi). hi - lo)") auto

definition binary_search_by :: "('a \<Rightarrow> 'k::linorder) \<Rightarrow> 'a list \<Rightarrow> 'k \<Rightarrow> nat option" where
  "binary_search_by key xs k = bsearch_loop key xs k 0 (length xs)"

declare bsearch_loop.simps [simp del]

section \<open>Lemmas\<close>

named_theorems word_nat "word orders and operations read as natural numbers"

lemma rbind_Ok_iff [simp]: "rbind r f = Ok y \<longleftrightarrow> (\<exists>x. r = Ok x \<and> f x = Ok y)"
  by (cases r) auto

lemma rbind_Ok_right [simp]: "rbind r Ok = r"
  by (cases r) auto

lemma rbind_assoc: "rbind (rbind r f) g = rbind r (\<lambda>x. rbind (f x) g)"
  by (cases r) auto

lemma map_err_Ok_iff [simp]: "map_err g r = Ok x \<longleftrightarrow> r = Ok x"
  by (cases r) auto

lemma map_res_Ok_iff [simp]: "map_res g r = Ok y \<longleftrightarrow> (\<exists>x. r = Ok x \<and> y = g x)"
  by (cases r) auto

lemma is_ok_iff: "is_ok r \<longleftrightarrow> (\<exists>x. r = Ok x)"
  by (cases r) auto

lemma unat_host_page_size [simp, word_nat]: "unat host_page_size = 4096"
  by (simp add: host_page_size_def)

lemma unat_WASM_PAGE_SIZE [simp, word_nat]: "unat WASM_PAGE_SIZE = 65536"
  by (simp add: WASM_PAGE_SIZE_def)

lemma checked_add_Some: "checked_add a b = Some c \<Longrightarrow> unat c = unat a + unat b"
  for a b c :: "'w::len word"
  by (auto simp: checked_add_def unat_word_ariths split: if_splits)

lemma checked_mul_Some: "checked_mul a b = Some c \<Longrightarrow> unat c = unat a * unat b"
  for a b c :: "'w::len word"
  by (auto simp: checked_mul_def unat_word_ariths split: if_splits)

lemma checked_sub_Some: "checked_sub a b = Some c \<Longrightarrow> unat c = unat a - unat b \<and> b \<le> a"
  for a b c :: "'w::len word"
  by (auto simp: checked_sub_def unat_sub split: if_splits)

lemma unat_add_small:
  fixes a b :: "'w::len word"
  assumes "unat a + unat b < 2 ^ LENGTH('w)"
  shows "unat (a + b) = unat a + unat b"
  using assms by (simp add: unat_word_ariths)

lemma unat_mult_small:
  fixes a b :: "'w::len word"
  assumes "unat a * unat b < 2 ^ LENGTH('w)"
  shows "unat (a * b) = unat a * unat b"
  using assms by (simp add: unat_word_ariths)

lemmas unat_of_order [word_nat] = word_le_nat_alt word_less_nat_alt

lemma unat_eqI: "unat a = unat b \<Longrightarrow> a = b"
  by (simp add: word_unat_eq_iff)

lemma unat_lt64 [simp]: "unat (a :: 64 word) < 18446744073709551616"
  using unsigned_less [of a, where 'a = nat] by simp

lemma unat_lt32 [simp]: "unat (a :: 32 word) < 4294967296"
  using unsigned_less [of a, where 'a = nat] by simp

lemma unat_ucast_32_64 [simp]: "unat (ucast (a :: 32 word) :: 64 word) = unat a"
  by (simp add: unsigned_ucast_eq take_bit_nat_eq_self_iff less_trans [OF unat_lt32])

lemma unat_ucast_64_32: "unat (ucast (a :: 64 word) :: 32 word) = unat a mod 4294967296"
  by (simp add: unsigned_ucast_eq take_bit_eq_mod)

subsection \<open>Page alignment\<close>

definition page_aligned :: "usize \<Rightarrow> bool" where
  "page_aligned a = (a mod 4096 = 0)"

lemma page_aligned_unat: "page_aligned a \<longleftrightarrow> unat a mod 4096 = 0"
  by (simp add: page_aligned_def word_unat_eq_iff unat_mod)

lemma page_aligned_add [simp]:
  assumes "page_aligned a" and "page_aligned b"
  shows "page_aligned (a + b)"
proof -
  have "4096 dvd unat a + unat b" using assms by (simp add: page_aligned_unat mod_eq_0_iff_dvd)
  then show ?thesis by (simp add: page_aligned_unat unat_word_ariths mod_mod_cancel mod_eq_0_iff_dvd)
qed

lemma page_aligned_4096 [simp]: "page_aligned 4096" "page_aligned host_page_size" "page_aligned 0"
  "page_aligned 8192" "page_aligned 12288"
  by (simp_all add: page_aligned_def host_page_size_def)

lemma mod_host_page_size: "a mod host_page_size = 0 \<longleftrightarrow> page_aligned a"
  by (simp add: page_aligned_def host_page_size_def)

subsection \<open>Vectors\<close>

lemma swap_remove_mset:
  assumes "swap_remove i xs = Ok (x, ys)"
  shows "mset xs = add_mset x (mset ys)"
proof -
  from assms have i: "i < length xs" and x: "x = xs ! i" and ys: "ys = butlast (xs[i := last xs])"
    by (auto simp: swap_remove_def split: if_splits)
  from i have ne: "xs \<noteq> []" by auto
  let ?u = "xs[i := last xs]"
  have "?u \<noteq> []" using ne by simp
  then have "mset ?u = add_mset (last ?u) (mset (butlast ?u))"
    by (metis add_mset_add_single append_butlast_last_id mset_append mset_single_iff_right
        mset.simps(1) mset.simps(2))
  moreover have "last ?u = last xs"
    using ne i by (simp add: last_list_update)
  moreover have "mset ?u = add_mset (last xs) (mset xs - {#xs ! i#})"
    by (rule mset_update [OF i])
  ultimately have "mset ys = mset xs - {#x#}"
    using x ys by simp
  moreover have "x \<in># mset xs" using i x by simp
  ultimately show ?thesis by simp
qed

lemma swap_remove_length: "swap_remove i xs = Ok (x, ys) \<Longrightarrow> length xs = Suc (length ys)"
  using swap_remove_mset [of i xs x ys] by (metis size_add_mset size_mset)

lemma length_write_slice [simp]:
  "i + length ys \<le> length xs \<Longrightarrow> length (write_slice i ys xs) = length xs"
  by (simp add: write_slice_def)

lemma nth_write_slice:
  assumes "i + length ys \<le> length xs" and "j < length xs"
  shows "write_slice i ys xs ! j =
    (if i \<le> j \<and> j < i + length ys then ys ! (j - i) else xs ! j)"
  using assms by (auto simp: write_slice_def nth_append min_def)

lemma length_slice_range [simp]:
  "j \<le> length xs \<Longrightarrow> length (slice_range i j xs) = j - i"
  by (simp add: slice_range_def)

lemma nth_slice_range: "i + k < j \<Longrightarrow> j \<le> length xs \<Longrightarrow> slice_range i j xs ! k = xs ! (i + k)"
  by (simp add: slice_range_def)

subsection \<open>Bytes and indices\<close>

lemma length_word_bytes [simp]: "length (word_bytes n v) = n"
  by (simp add: word_bytes_def)

lemma bit_word_of_bytes: "bit (word_of_bytes bs) n \<longleftrightarrow> n < 64 \<and> n div 8 < length bs \<and> bit (bs ! (n div 8)) (n mod 8)"
proof (induction bs arbitrary: n)
  case (Cons b bs)
  show ?case
  proof (cases "n < 8")
    case True
    then show ?thesis by (auto simp: word_of_bytes_def bit_or_iff bit_unsigned_iff bit_push_bit_iff)
  next
    case False
    then have "n div 8 = Suc ((n - 8) div 8)" "n mod 8 = (n - 8) mod 8" by (simp_all add: le_div_geq le_mod_geq)
    with Cons.IH [of "n - 8"] False show ?thesis
      by (auto simp: word_of_bytes_def bit_or_iff bit_unsigned_iff bit_push_bit_iff dest: bit_imp_le_length)
  qed
qed (simp add: word_of_bytes_def)

lemma word_of_word_bytes [simp]: "word_of_bytes (word_bytes 8 v) = v"
proof (rule bit_word_eqI)
  fix n assume "n < LENGTH(64)"
  then have "n div 8 < 8" by (simp add: div_less_iff_less_mult)
  with \<open>n < LENGTH(64)\<close> show "bit (word_of_bytes (word_bytes 8 v)) n = bit v n"
    by (simp add: bit_word_of_bytes word_bytes_def bit_unsigned_iff bit_drop_bit_eq)
qed

lemma of_nat_u64_inj: "k < 2 ^ 64 \<Longrightarrow> k' < 2 ^ 64 \<Longrightarrow> (of_nat k :: u64) = of_nat k' \<longleftrightarrow> k = k'"
  by (simp add: word_unat_eq_iff unsigned_of_nat take_bit_nat_eq_self)

lemma uint_scast_index: "uint (scast (c :: u32) :: u64) = (if uint c < 2 ^ 31 then uint c else uint c + (2 ^ 64 - 2 ^ 32))"
proof -
  have c: "0 \<le> uint c" "uint c < 2 ^ 32" using uint_lt2p [of c] by simp_all
  have "sint c = signed_take_bit 31 (uint c)" by (simp add: sint_uint)
  also have "\<dots> = (uint c + 2 ^ 31) mod 2 ^ 32 - 2 ^ 31" by (simp add: signed_take_bit_eq_take_bit_shift take_bit_eq_mod)
  also have "\<dots> = (if uint c < 2 ^ 31 then uint c else uint c - 2 ^ 32)"
  proof (cases "uint c < 2 ^ 31")
    case False
    have "(uint c + 2 ^ 31) mod 2 ^ 32 = ((uint c - 2 ^ 31) + 2 ^ 32) mod (2 ^ 32 :: int)" by (simp add: algebra_simps)
    also have "\<dots> = uint c - 2 ^ 31" unfolding mod_add_self2 using False c by (intro mod_pos_pos_trivial) simp_all
    finally show ?thesis using False by simp
  qed (use c in simp)
  finally have s: "sint c = (if uint c < 2 ^ 31 then uint c else uint c - 2 ^ 32)" .
  have "uint (scast c :: u64) = sint c mod 2 ^ 64" by (simp only: scast_eq uint_word_of_int_eq take_bit_eq_mod) simp
  also have "\<dots> = (if uint c < 2 ^ 31 then uint c else uint c + (2 ^ 64 - 2 ^ 32))"
  proof (cases "uint c < 2 ^ 31")
    case False
    have "(uint c - 2 ^ 32) mod 2 ^ 64 = (uint c - 2 ^ 32 + 2 ^ 64) mod (2 ^ 64 :: int)" unfolding mod_add_self2 ..
    also have "\<dots> = uint c - 2 ^ 32 + 2 ^ 64" using c False by (intro mod_pos_pos_trivial) simp_all
    finally show ?thesis using False s by simp
  qed (use c s in simp)
  finally show ?thesis .
qed

lemma scast_index_bound:
  assumes "n < 2 ^ 31"
  shows "(scast (c :: u32) :: u64) < of_nat n \<longleftrightarrow> unat c < n" and "unat c < n \<Longrightarrow> unat (scast c :: u64) = unat c"
proof -
  have i: "unat c < n \<longleftrightarrow> uint c < int n" by (metis of_nat_less_iff uint_nat)
  have "uint (of_nat n :: u64) = int n" using assms by (simp add: unsigned_of_nat take_bit_nat_eq_self)
  then show "(scast c :: u64) < of_nat n \<longleftrightarrow> unat c < n"
    using assms uint_lt2p [of c] unfolding i word_less_def uint_scast_index by auto
  show "unat (scast c :: u64) = unat c" if "unat c < n"
  proof -
    have "uint c < 2 ^ 31" using that assms unfolding i by simp
    then have "uint (scast c :: u64) = uint c" unfolding uint_scast_index by simp
    then show ?thesis by (metis nat_uint_eq)
  qed
qed

lemma of_nat_not_max: "k < 2 ^ 32 \<Longrightarrow> (of_nat k :: u64) \<noteq> - 1"
proof
  assume k: "k < 2 ^ 32" "(of_nat k :: u64) = - 1"
  then have "(of_nat (Suc k) :: u64) = of_nat 0" by simp
  then show False using k(1) of_nat_u64_inj [of "Suc k" 0] by simp
qed

subsection \<open>Binary search\<close>

lemma bsearch_loop_sound:
  "bsearch_loop key xs k lo hi = Some i \<Longrightarrow> lo \<le> i \<and> i < hi \<and> key (xs ! i) = k"
proof (induction key xs k lo hi rule: bsearch_loop.induct)
  case (1 key xs k lo hi)
  show ?case
  proof (cases "lo < hi")
    case False
    with "1.prems" show ?thesis by (simp add: bsearch_loop.simps [of key xs k lo hi])
  next
    case True
    let ?mid = "lo + (hi - lo) div 2"
    from True have mid: "lo \<le> ?mid" "?mid < hi" by auto
    consider "key (xs ! ?mid) = k" | "key (xs ! ?mid) < k" | "k < key (xs ! ?mid)"
      using linorder_less_linear by blast
    then show ?thesis
    proof cases
      case 1
      with True "1.prems" mid show ?thesis
        by (auto simp: bsearch_loop.simps [of key xs k lo hi] Let_def)
    next
      case 2
      then have "bsearch_loop key xs k (Suc ?mid) hi = Some i"
        using True "1.prems" less_imp_neq [OF 2]
        by (simp add: bsearch_loop.simps [of key xs k lo hi] Let_def)
      with "1.IH"(1) [OF True refl] 2 mid show ?thesis by fastforce
    next
      case 3
      then have "bsearch_loop key xs k lo ?mid = Some i"
        using True "1.prems" less_imp_neq [OF 3] less_not_sym [OF 3]
        by (simp add: bsearch_loop.simps [of key xs k lo hi] Let_def)
      with "1.IH"(2) [OF True refl] 3 mid show ?thesis by fastforce
    qed
  qed
qed

lemma bsearch_loop_complete:
  assumes "sorted (map key xs)" and "hi \<le> length xs"
  shows "bsearch_loop key xs k lo hi = None \<Longrightarrow> lo \<le> i \<Longrightarrow> i < hi \<Longrightarrow> key (xs ! i) \<noteq> k"
  using assms
proof (induction key xs k lo hi rule: bsearch_loop.induct)
  case (1 key xs k lo hi)
  then have lohi: "lo < hi" by simp
  let ?mid = "lo + (hi - lo) div 2"
  have mid: "lo \<le> ?mid" "?mid < hi" using lohi by auto
  have mono: "a \<le> b \<Longrightarrow> b < length xs \<Longrightarrow> key (xs ! a) \<le> key (xs ! b)" for a b
    using sorted_nth_mono [OF "1.prems"(4), of a b] by simp
  consider "key (xs ! ?mid) = k" | "key (xs ! ?mid) < k" | "k < key (xs ! ?mid)"
    using linorder_less_linear by blast
  then show ?case
  proof cases
    case 1
    with "1.prems"(1) lohi show ?thesis
      by (simp add: bsearch_loop.simps [of key xs k lo hi] Let_def)
  next
    case 2
    then have r: "bsearch_loop key xs k (Suc ?mid) hi = None"
      using "1.prems"(1) lohi less_imp_neq [OF 2]
      by (simp add: bsearch_loop.simps [of key xs k lo hi] Let_def)
    show ?thesis
    proof (cases "Suc ?mid \<le> i")
      case True
      with "1.IH"(1) [OF lohi refl] 2 r "1.prems" show ?thesis by fastforce
    next
      case False
      then have "key (xs ! i) \<le> key (xs ! ?mid)" using mono mid "1.prems"(5) by simp
      with 2 show ?thesis by auto
    qed
  next
    case 3
    then have r: "bsearch_loop key xs k lo ?mid = None"
      using "1.prems"(1) lohi less_imp_neq [OF 3] less_not_sym [OF 3]
      by (simp add: bsearch_loop.simps [of key xs k lo hi] Let_def)
    show ?thesis
    proof (cases "i < ?mid")
      case True
      with "1.IH"(2) [OF lohi refl] 3 r "1.prems" mid show ?thesis by fastforce
    next
      case False
      then have "key (xs ! ?mid) \<le> key (xs ! i)" using mono "1.prems"(3,5) by simp
      with 3 show ?thesis by auto
    qed
  qed
qed

lemma binary_search_by_Some:
  "binary_search_by key xs k = Some i \<Longrightarrow> i < length xs \<and> key (xs ! i) = k"
  by (auto simp: binary_search_by_def dest: bsearch_loop_sound)

lemma binary_search_by_None:
  assumes "sorted (map key xs)"
  shows "binary_search_by key xs k = None \<longleftrightarrow> k \<notin> key ` set xs"
proof
  assume "binary_search_by key xs k = None"
  then show "k \<notin> key ` set xs"
    using bsearch_loop_complete [OF assms order_refl, of k 0]
    by (fastforce simp: binary_search_by_def in_set_conv_nth)
next
  assume n: "k \<notin> key ` set xs"
  show "binary_search_by key xs k = None"
  proof (rule ccontr)
    assume "binary_search_by key xs k \<noteq> None"
    then obtain i where "binary_search_by key xs k = Some i" by auto
    with n show False by (auto dest!: binary_search_by_Some)
  qed
qed

lemma binary_search_by_distinct:
  assumes "sorted (map key xs)" and "distinct (map key xs)"
  shows "map_option ((!) xs) (binary_search_by key xs k) = map_of (map (\<lambda>x. (key x, x)) xs) k"
proof (cases "binary_search_by key xs k")
  case None
  with binary_search_by_None [OF assms(1)] have "k \<notin> key ` set xs" by simp
  then have "map_of (map (\<lambda>x. (key x, x)) xs) k = None"
    by (auto simp: map_of_eq_None_iff image_image)
  with None show ?thesis by simp
next
  case (Some i)
  then have i: "i < length xs" "key (xs ! i) = k" by (auto dest: binary_search_by_Some)
  then have "(k, xs ! i) \<in> set (map (\<lambda>x. (key x, x)) xs)" by force
  moreover have "distinct (map fst (map (\<lambda>x. (key x, x)) xs))"
    using assms(2) by (simp add: comp_def)
  ultimately show ?thesis using Some by simp
qed

end
