(* ===== verification/Version_Info.thy ===== *)
theory Version_Info
  imports Prelude
begin

text \<open>
  \<open>lucet-module/src/version_info.rs\<close>: the version header of a compiled module. Writing goes
  to a byte vector, so it cannot fail; reading consumes a byte slice and fails with an I/O error
  (\<open>None\<close>) when the slice is too short. The lemmas show that reading back what was written
  gives the same header and leaves the rest of the input, and what the compatibility check accepts.
\<close>

section \<open>Definitions\<close>

record version_info =
  major :: u16
  minor :: u16
  patch :: u16
  reserved :: u16
  version_hash :: "u8 list"

definition version_info_new :: "u16 \<Rightarrow> u16 \<Rightarrow> u16 \<Rightarrow> u8 list \<Rightarrow> version_info" where
  "version_info_new ma mi pa h =
     \<lparr>major = ma, minor = mi, patch = pa, reserved = 0x8000, version_hash = h\<rparr>"

definition version_valid :: "version_info \<Rightarrow> bool" where
  "version_valid v = (reserved v = 0x8000)"

definition compatible_with :: "version_info \<Rightarrow> version_info \<Rightarrow> bool" where
  "compatible_with self other =
     (if \<not> (version_valid self \<or> version_valid other) then False
      else if major self = major other \<and> minor self = minor other \<and> patch self = patch other then
        (if version_hash self = replicate 8 0 then True
         else version_hash self = version_hash other)
      else False)"

text \<open>\<open>byteorder\<close>'s little-endian 16-bit write and read.\<close>

definition write_u16_le :: "u16 \<Rightarrow> u8 list" where
  "write_u16_le w = [ucast w, ucast (drop_bit 8 w)]"

fun read_u16_le :: "u8 list \<Rightarrow> (u16 \<times> u8 list) option" where
  "read_u16_le (a # b # rest) = Some (ucast a OR push_bit 8 (ucast b), rest)"
| "read_u16_le _ = None"

definition read_exact :: "nat \<Rightarrow> u8 list \<Rightarrow> (u8 list \<times> u8 list) option" where
  "read_exact n bs = (if n \<le> length bs then Some (take n bs, drop n bs) else None)"

definition version_write_to :: "version_info \<Rightarrow> u8 list" where
  "version_write_to v =
     write_u16_le (major v) @ write_u16_le (minor v) @ write_u16_le (patch v) @
     write_u16_le (reserved v) @ version_hash v"

definition version_read_from :: "u8 list \<Rightarrow> (version_info \<times> u8 list) option" where
  "version_read_from r =
     (case read_u16_le r of None \<Rightarrow> None | Some (ma, r) \<Rightarrow>
      (case read_u16_le r of None \<Rightarrow> None | Some (mi, r) \<Rightarrow>
       (case read_u16_le r of None \<Rightarrow> None | Some (pa, r) \<Rightarrow>
        (case read_u16_le r of None \<Rightarrow> None | Some (re, r) \<Rightarrow>
         (case read_exact 8 r of None \<Rightarrow> None | Some (h, r) \<Rightarrow>
            Some (\<lparr>major = ma, minor = mi, patch = pa, reserved = re, version_hash = h\<rparr>, r))))))"

text \<open>The loop of \<open>current\<close> copies the first eight bytes of the commit hash over zeros; the
  package version comes from the build and is an argument.\<close>

definition version_current :: "u16 \<Rightarrow> u16 \<Rightarrow> u16 \<Rightarrow> u8 list \<Rightarrow> version_info" where
  "version_current ma mi pa current_hash =
     (let n = min 8 (length current_hash)
      in version_info_new ma mi pa (take n current_hash @ replicate (8 - n) 0))"

section \<open>Lemmas\<close>

lemma read_write_u16_le [simp]: "read_u16_le (write_u16_le w @ rest) = Some (w, rest)"
proof -
  have "(ucast (ucast w :: u8) :: u16) OR push_bit 8 (ucast (ucast (drop_bit 8 w) :: u8)) = w"
    by (rule bit_word_eqI) (auto simp: bit_simps)
  then show ?thesis by (simp add: write_u16_le_def)
qed

lemma version_read_write:
  assumes "length (version_hash v) = 8"
  shows "version_read_from (version_write_to v @ rest) = Some (v, rest)"
  using assms by (simp add: version_read_from_def version_write_to_def read_exact_def)

lemma length_version_write_to:
  "length (version_hash v) = 8 \<Longrightarrow> length (version_write_to v) = 16"
  by (simp add: version_write_to_def write_u16_le_def)

lemma read_u16_le_Some_iff: "(\<exists>w rest. read_u16_le bs = Some (w, rest)) \<longleftrightarrow> 2 \<le> length bs"
  by (cases bs rule: read_u16_le.cases) auto

lemma read_u16_le_length: "read_u16_le bs = Some (w, rest) \<Longrightarrow> length bs = length rest + 2"
  by (cases bs rule: read_u16_le.cases) auto

lemma read_u16_le_None: "read_u16_le bs = None \<longleftrightarrow> length bs < 2"
  by (cases bs rule: read_u16_le.cases) auto

lemma version_read_from_None: "version_read_from bs = None \<longleftrightarrow> length bs < 16"
  by (auto simp: version_read_from_def read_exact_def read_u16_le_None
      dest!: read_u16_le_length split: option.splits prod.splits)

lemma version_current_wf:
  "version_valid (version_current ma mi pa h) \<and> length (version_hash (version_current ma mi pa h)) = 8"
  by (simp add: version_current_def version_info_new_def version_valid_def Let_def)

section \<open>Properties\<close>

text \<open>The version header round-trips: a well-formed header written to bytes takes 16 bytes
  and is read back unchanged from any input that starts with them, the rest of the input being
  left over; an input shorter than 16 bytes is rejected.\<close>

theorem version_roundtrip:
  assumes "length (version_hash v) = 8"
  shows "length (version_write_to v) = 16 \<and>
    version_read_from (version_write_to v @ rest) = Some (v, rest) \<and>
    (length bs < 16 \<longleftrightarrow> version_read_from bs = None)"
  using assms by (simp add: version_read_write length_version_write_to version_read_from_None)

theorem version_roundtrip_witness:
  "version_read_from (version_write_to (version_info_new 0 7 1 (replicate 8 0)) @ [9]) =
     Some (version_info_new 0 7 1 (replicate 8 0), [9])"
  using version_roundtrip [of "version_info_new 0 7 1 (replicate 8 0)" "[9]" "[]"]
  by (simp add: version_info_new_def)

end
