(* ===== verification/Runtime_Error.thy ===== *)
theory Runtime_Error
  imports Module_Data
begin

text \<open>
  The error and outcome types of \<open>lucet-runtime-internals\<close> (\<open>error.rs\<close>, and the fault
  and termination details of \<open>instance.rs\<close>). A message built with \<open>format!\<close> is kept as
  its literal text, without the values printed into it. A boxed \<open>dyn Any\<close> is a type name with
  an opaque number standing for the value.
\<close>

section \<open>Dynamically typed values\<close>

datatype any = Any (any_type: string) (any_value: nat)

section \<open>Fault and termination details (instance.rs)\<close>

record addr_details =
  in_module_code :: bool
  file_name :: "string option"
  sym_name :: "string option"

record fault_details =
  fatal :: bool
  trapcode :: "trap_code option"
  rip_addr :: usize
  rip_addr_details :: "addr_details option"

datatype termination_details =
    TD_Signal
  | TD_CtxNotFound
  | TD_YieldTypeMismatch
  | TD_BorrowError string
  | TD_Provided string any
  | TD_Remote
  | TD_OtherPanic any
  | TD_BlockOnNeedsAsync
  | TD_HeapOutOfMemory

definition td_provide :: "any \<Rightarrow> termination_details" where
  "td_provide a = TD_Provided (any_type a) a"

fun td_provided_details :: "termination_details \<Rightarrow> any option" where
  "td_provided_details (TD_Provided _ a) = Some a"
| "td_provided_details _ = None"

text \<open>\<open>PartialEq\<close> for termination details.\<close>

fun td_eq :: "termination_details \<Rightarrow> termination_details \<Rightarrow> bool" where
  "td_eq TD_Signal TD_Signal = True"
| "td_eq (TD_BorrowError m1) (TD_BorrowError m2) = (m1 = m2)"
| "td_eq TD_CtxNotFound TD_CtxNotFound = True"
| "td_eq TD_BlockOnNeedsAsync TD_BlockOnNeedsAsync = True"
| "td_eq _ _ = False"

fun td_debug :: "termination_details \<Rightarrow> string" where
  "td_debug TD_Signal = ''TerminationDetails::Signal''"
| "td_debug (TD_BorrowError msg) = ''TerminationDetails::BorrowError('' @ msg @ '')''"
| "td_debug TD_CtxNotFound = ''TerminationDetails::CtxNotFound''"
| "td_debug TD_YieldTypeMismatch = ''TerminationDetails::YieldTypeMismatch''"
| "td_debug (TD_Provided type_name _) = ''TerminationDetails::Provided('' @ type_name @ '')''"
| "td_debug TD_Remote = ''TerminationDetails::Remote''"
| "td_debug (TD_OtherPanic _) = ''TerminationDetails::OtherPanic(Any)''"
| "td_debug TD_BlockOnNeedsAsync = ''TerminationDetails::BlockOnNeedsAsync''"
| "td_debug TD_HeapOutOfMemory = ''TerminationDetails::HeapOutOfMemory''"

section \<open>Errors (error.rs)\<close>

datatype runtime_module_error = IncorrectModule string | ModuleDataError module_error

datatype dl_error = DlLoading | DlIo

datatype error =
    InvalidArgument string
  | RegionFull nat
  | ModuleError runtime_module_error
  | LimitsExceeded string
  | NoLinearMemory string
  | SymbolNotFound string
  | FuncNotFound u32 u32
  | RuntimeFault fault_details
  | RuntimeTerminated termination_details
  | DlError dl_error
  | InstanceNotReturned
  | InstanceNotYielded
  | InstanceNeedsStart
  | StartAlreadyRun
  | StartYielded
  | InternalError string
  | Unsupported string

type_synonym 'a run_res = "(error, 'a) rresult"

abbreviation lucet_incorrect_module :: "string \<Rightarrow> error" where
  "lucet_incorrect_module m \<equiv> ModuleError (IncorrectModule m)"

section \<open>Lemmas\<close>

lemma td_provided_provide [simp]: "td_provided_details (td_provide a) = Some a"
  by (simp add: td_provide_def)

lemma td_eq_imp_eq: "td_eq a b \<Longrightarrow> a = b"
  by (induction a b rule: td_eq.induct) auto

lemma td_eq_not_reflexive: "td_eq a a \<longleftrightarrow> a = TD_Signal \<or> a = TD_CtxNotFound \<or> a = TD_BlockOnNeedsAsync \<or> (\<exists>m. a = TD_BorrowError m)"
  by (cases a) auto

end
