(* ===== verification/Module_Interface.thy ===== *)
theory Module_Interface
  imports Runtime_Error Version_Info
begin

text \<open>
  \<open>lucet-runtime-internals/src/module.rs\<close>, \<open>module/dl.rs\<close> and \<open>module/mock.rs\<close>: the
  trait \<open>ModuleInternal\<close>, through which the runtime reads a compiled program, its default
  methods, and its implementations by \<open>DlModule\<close> and \<open>MockModule\<close>. A trait object is a
  record of its methods' results (\<open>module_ops\<close>). What the dynamic loader, the CPU and
  \<open>bincode\<close> provide are arguments. The locale \<open>module_interface\<close> states what the runtime
  relies on; both implementations are interpreted in it.
\<close>

section \<open>The trait object\<close>

record module_ops =
  mo_instruction_count :: bool
  mo_heap_spec :: "heap_spec option"
  mo_globals :: "global_spec list"
  mo_sparse_page :: "nat \<Rightarrow> u8 list option"
  mo_sparse_len :: nat
  mo_table_elements :: "table_element list run_res"
  mo_export_func :: "string \<Rightarrow> function_handle run_res"
  mo_func_from_idx :: "u32 \<Rightarrow> u32 \<Rightarrow> function_handle run_res"
  mo_start_func :: "function_handle option run_res"
  mo_function_manifest :: "function_spec list"
  mo_addr_details :: "usize \<Rightarrow> addr_details option run_res"
  mo_signature :: "function_index \<Rightarrow> signature run_res"

definition initial_globals_size :: "module_ops \<Rightarrow> nat" where
  "initial_globals_size m = length (mo_globals m) * 8"

section \<open>Default methods (module.rs)\<close>

definition function_handle_from_ptr ::
    "function_spec list \<Rightarrow> function_pointer \<Rightarrow> function_handle run_res" where
  "function_handle_from_ptr manifest ptr =
     (case find (\<lambda>(i, f). function_spec_ptr f = ptr) (enumerate 0 manifest) of
        Some (fn_id, _) \<Rightarrow> Ok \<lparr>fh_ptr = ptr, fh_id = of_nat fn_id, is_start_func = False\<rparr>
      | None \<Rightarrow> Panic ''valid function pointer'')"

fun lookup_trapcode ::
    "(u64 \<Rightarrow> u64 \<Rightarrow> trap_site list) \<Rightarrow> function_spec list \<Rightarrow> u64 \<Rightarrow> trap_code option" where
  "lookup_trapcode trap_mem [] rip = None"
| "lookup_trapcode trap_mem (f # fs) rip =
     (case relative_addr f rip of
        Some offs \<Rightarrow> (case fn_traps trap_mem f of Some ts \<Rightarrow> lookup_addr ts offs | None \<Rightarrow> None)
      | None \<Rightarrow> lookup_trapcode trap_mem fs rip)"

section \<open>Modules loaded from a shared object (dl.rs)\<close>

text \<open>What \<open>raw_cpuid\<close> reports: the leaves it could read, with the features they list.\<close>

record cpu_features =
  cpu_feature_info :: "string set option"
  cpu_extended_info :: "string set option"
  cpu_extended_function :: "string set option"

definition missing_feature :: "string \<Rightarrow> error" where
  "missing_feature f = Unsupported (''Module requires feature host does not support: '' @ f)"

definition check_feature_support :: "cpu_features \<Rightarrow> module_features \<Rightarrow> unit run_res" where
  "check_feature_support cpu f =
     (case cpu_feature_info cpu of
        None \<Rightarrow> Err (Unsupported ''Unable to obtain host CPU feature info!'')
      | Some info \<Rightarrow>
          if ft_sse3 f \<and> ''sse3'' \<notin> info then Err (missing_feature ''SSE3'')
          else if ft_ssse3 f \<and> ''ssse3'' \<notin> info then Err (missing_feature ''SSS3'')
          else if ft_sse41 f \<and> ''sse41'' \<notin> info then Err (missing_feature ''SSE4.1'')
          else if ft_sse42 f \<and> ''sse42'' \<notin> info then Err (missing_feature ''SSE4.2'')
          else if ft_avx f \<and> ''avx'' \<notin> info then Err (missing_feature ''AVX'')
          else if ft_popcnt f \<and> ''popcnt'' \<notin> info then Err (missing_feature ''POPCNT'')
          else rbind
            (if ft_bmi1 f \<or> ft_bmi2 f then
               (case cpu_extended_info cpu of
                  None \<Rightarrow> Err (Unsupported ''Unable to obtain host CPU extended feature info!'')
                | Some info \<Rightarrow>
                    if ft_bmi1 f \<and> ''bmi1'' \<notin> info then Err (missing_feature ''BMI1'')
                    else if ft_bmi2 f \<and> ''bmi2'' \<notin> info then Err (missing_feature ''BMI2'')
                    else Ok ())
             else Ok ())
            (\<lambda>_.
             if ft_lzcnt f then
               (case cpu_extended_function cpu of
                  None \<Rightarrow> Err (Unsupported ''Unable to obtain host CPU extended function info!'')
                | Some info \<Rightarrow>
                    if ft_lzcnt f \<and> ''lzcnt'' \<notin> info then Err (missing_feature ''LZCNT'')
                    else Ok ())
             else Ok ()))"

record dl_module =
  dl_fbase :: usize
  dl_version :: version_info
  dl_module_data :: module_data
  dl_tables :: "table_element list list"
  dl_function_manifest :: "function_spec list"

text \<open>The \<open>SerializedModule\<close> found behind the symbol \<open>lucet_module\<close>, with the memory its
  pointers lead to.\<close>

record serialized_module =
  sm_version :: version_info
  sm_module_data :: "u8 list"
  sm_tables :: "table_element list list"
  sm_function_manifest :: "function_spec list option"

text \<open>
  \<open>load_and_maybe_verify\<close>. Arguments that stand for code outside the repository: \<open>loaded\<close> is
  what the dynamic loader returns for the path (its error, or the module's data), \<open>deserialize\<close>
  is \<open>bincode\<close>, \<open>verify\<close> is \<open>minisign\<close> applied to the file when a public key was given,
  \<open>dladdr_base\<close> is the base address reported by \<open>dladdr\<close>, if any. \<open>runtime_version\<close> comes
  from the build. The check of \<open>tables_len\<close> in the source builds an error value and drops it, so
  it decides nothing here.
\<close>

definition load_and_maybe_verify ::
    "serialized_module run_res \<Rightarrow> (u8 list \<Rightarrow> (module_error, module_data) rresult) \<Rightarrow> cpu_features \<Rightarrow>
     (module_data \<Rightarrow> (module_error, unit) rresult) option \<Rightarrow> usize option \<Rightarrow> version_info \<Rightarrow> bool \<Rightarrow>
     dl_module run_res" where
  "load_and_maybe_verify loaded deserialize cpu verify dladdr_base runtime_version enforce =
     rbind loaded (\<lambda>sm.
       let version_check =
         (if \<not> version_valid (sm_version sm) then
            (if enforce then Err (lucet_incorrect_module ''reserved bit is not set'') else Ok ())
          else if \<not> compatible_with runtime_version (sm_version sm) then
            (if enforce then Err (lucet_incorrect_module ''version mismatch'') else Ok ())
          else Ok ())
       in rbind version_check (\<lambda>_.
          rbind (map_err (\<lambda>e. ModuleError (ModuleDataError e)) (deserialize (sm_module_data sm))) (\<lambda>md.
          rbind (check_feature_support cpu (md_features md)) (\<lambda>_.
          rbind (case verify of
                   Some v \<Rightarrow> map_err (\<lambda>e. ModuleError (ModuleDataError e)) (v md)
                 | None \<Rightarrow> Ok ()) (\<lambda>_.
          Ok \<lparr>dl_fbase = (case dladdr_base of Some b \<Rightarrow> b | None \<Rightarrow> 0),
              dl_version = sm_version sm,
              dl_module_data = md,
              dl_tables = sm_tables sm,
              dl_function_manifest =
                (case sm_function_manifest sm of Some fs \<Rightarrow> fs | None \<Rightarrow> [])\<rparr>)))))"

definition md_get_sparse_page_data :: "module_data \<Rightarrow> nat \<Rightarrow> u8 list option" where
  "md_get_sparse_page_data md page =
     (case md_sparse_data md of Some sd \<Rightarrow> get_page sd page | None \<Rightarrow> None)"

definition md_sparse_page_data_len :: "module_data \<Rightarrow> nat" where
  "md_sparse_page_data_len md =
     (case md_sparse_data md of Some sd \<Rightarrow> sparse_data_len sd | None \<Rightarrow> 0)"

definition dl_table_elements :: "dl_module \<Rightarrow> table_element list run_res" where
  "dl_table_elements d =
     (case dl_tables d of
        t # _ \<Rightarrow> Ok t
      | [] \<Rightarrow> Err (lucet_incorrect_module ''table 0 is not present''))"

text \<open>\<open>function_manifest()[id]\<close>: indexing panics out of range.\<close>

definition manifest_ptr :: "function_spec list \<Rightarrow> function_index \<Rightarrow> function_pointer run_res" where
  "manifest_ptr fs i =
     (if unat i < length fs then Ok (function_spec_ptr (fs ! unat i))
      else Panic ''index out of bounds'')"

definition dl_get_export_func :: "dl_module \<Rightarrow> string \<Rightarrow> function_handle run_res" where
  "dl_get_export_func d symb =
     (case md_get_export_func_id (dl_module_data d) symb of
        None \<Rightarrow> Err (SymbolNotFound symb)
      | Some i \<Rightarrow> map_res (\<lambda>p. \<lparr>fh_ptr = p, fh_id = i, is_start_func = False\<rparr>)
                    (manifest_ptr (dl_function_manifest d) i))"

definition dl_get_func_from_idx :: "dl_module \<Rightarrow> u32 \<Rightarrow> u32 \<Rightarrow> function_handle run_res" where
  "dl_get_func_from_idx d table_id func_id =
     (if table_id \<noteq> 0 then Err (FuncNotFound table_id func_id)
      else rbind (dl_table_elements d) (\<lambda>table.
        if unat func_id < length table then
          function_handle_from_ptr (dl_function_manifest d)
            (te_function_pointer (table ! unat func_id))
        else Err (FuncNotFound table_id func_id)))"

definition dl_get_start_func :: "dl_module \<Rightarrow> function_handle option run_res" where
  "dl_get_start_func d =
     (case md_get_start_func_id (dl_module_data d) of
        None \<Rightarrow> Ok None
      | Some i \<Rightarrow> map_res (\<lambda>p. Some \<lparr>fh_ptr = p, fh_id = i, is_start_func = True\<rparr>)
                    (manifest_ptr (dl_function_manifest d) i))"

text \<open>The answer of \<open>dladdr(3)\<close>: the base address of the object, and the file and symbol names as
  C strings; a name that is not UTF-8 (\<open>Some None\<close>) makes \<open>into_string\<close> fail.\<close>

record dl_info =
  dli_fbase :: usize
  dli_fname :: "string option option"
  dli_sname :: "string option option"

fun c_string :: "string option option \<Rightarrow> string option run_res" where
  "c_string None = Ok None"
| "c_string (Some (Some s)) = Ok (Some s)"
| "c_string (Some None) = Err (InternalError ''C string contained non-utf8 bytes'')"

definition dl_addr_details ::
    "(usize \<Rightarrow> dl_info option) \<Rightarrow> dl_module \<Rightarrow> usize \<Rightarrow> addr_details option run_res" where
  "dl_addr_details dladdr d addr =
     (case dladdr addr of
        Some dli \<Rightarrow>
          rbind (c_string (dli_fname dli)) (\<lambda>fname.
          rbind (c_string (dli_sname dli)) (\<lambda>sname.
          Ok (Some \<lparr>in_module_code = (dli_fbase dli = dl_fbase d),
                    file_name = fname, sym_name = sname\<rparr>)))
      | None \<Rightarrow> Ok None)"

definition dl_module_ops :: "(usize \<Rightarrow> dl_info option) \<Rightarrow> dl_module \<Rightarrow> module_ops" where
  "dl_module_ops dladdr d = \<lparr>
     mo_instruction_count = ft_instruction_count (md_features (dl_module_data d)),
     mo_heap_spec = md_heap_spec (dl_module_data d),
     mo_globals = md_globals_spec (dl_module_data d),
     mo_sparse_page = md_get_sparse_page_data (dl_module_data d),
     mo_sparse_len = md_sparse_page_data_len (dl_module_data d),
     mo_table_elements = dl_table_elements d,
     mo_export_func = dl_get_export_func d,
     mo_func_from_idx = dl_get_func_from_idx d,
     mo_start_func = dl_get_start_func d,
     mo_function_manifest = dl_function_manifest d,
     mo_addr_details = dl_addr_details dladdr d,
     mo_signature = md_get_signature (dl_module_data d)\<rparr>"

section \<open>Modules built in memory (mock.rs)\<close>

record mock_module =
  mk_module_data :: module_data
  mk_table_elements :: "table_element list"
  mk_export_funcs :: "string \<rightharpoonup> function_pointer"
  mk_func_table :: "u32 \<times> u32 \<rightharpoonup> function_pointer"
  mk_start_func :: "function_handle option"
  mk_function_manifest :: "function_spec list"

definition mock_get_export_func :: "mock_module \<Rightarrow> string \<Rightarrow> function_handle run_res" where
  "mock_get_export_func m symb =
     (case mk_export_funcs m symb of
        None \<Rightarrow> Err (SymbolNotFound symb)
      | Some ptr \<Rightarrow> function_handle_from_ptr (mk_function_manifest m) ptr)"

definition mock_get_func_from_idx :: "mock_module \<Rightarrow> u32 \<Rightarrow> u32 \<Rightarrow> function_handle run_res" where
  "mock_get_func_from_idx m table_id func_id =
     (case mk_func_table m (table_id, func_id) of
        None \<Rightarrow> Err (FuncNotFound table_id func_id)
      | Some ptr \<Rightarrow> function_handle_from_ptr (mk_function_manifest m) ptr)"

definition mock_module_ops :: "mock_module \<Rightarrow> module_ops" where
  "mock_module_ops m = \<lparr>
     mo_instruction_count = ft_instruction_count (md_features (mk_module_data m)),
     mo_heap_spec = md_heap_spec (mk_module_data m),
     mo_globals = md_globals_spec (mk_module_data m),
     mo_sparse_page = md_get_sparse_page_data (mk_module_data m),
     mo_sparse_len = md_sparse_page_data_len (mk_module_data m),
     mo_table_elements = Ok (mk_table_elements m),
     mo_export_func = mock_get_export_func m,
     mo_func_from_idx = mock_get_func_from_idx m,
     mo_start_func = Ok (mk_start_func m),
     mo_function_manifest = mk_function_manifest m,
     mo_addr_details = (\<lambda>_. Ok None),
     mo_signature = md_get_signature (mk_module_data m)\<rparr>"

text \<open>\<open>MockModuleBuilder::with_initial_heap\<close>: the initial heap cut into pages of 4096 bytes, an
  all-zero page being left out and the last page padded with zeros.\<close>

function chunks :: "nat \<Rightarrow> 'a list \<Rightarrow> 'a list list" where
  "chunks n xs = (if xs = [] \<or> n = 0 then [] else take n xs # chunks n (drop n xs))"
  by pat_completeness auto
termination
  by (relation "measure (\<lambda>(n, xs). length xs)") auto

declare chunks.simps [simp del]

definition initial_heap_page :: "u8 list \<Rightarrow> u8 list option" where
  "initial_heap_page page =
     (if list_all (\<lambda>b. b = 0) page then None
      else Some (page @ replicate (4096 - length page) 0))"

definition with_initial_heap :: "u8 list \<Rightarrow> u8 list option list" where
  "with_initial_heap h = map initial_heap_page (chunks 4096 h)"

section \<open>What the runtime relies on\<close>

text \<open>The manifest covers pairwise disjoint code, and every trap table is strictly sorted.\<close>

definition manifest_ok :: "(u64 \<Rightarrow> u64 \<Rightarrow> trap_site list) \<Rightarrow> function_spec list \<Rightarrow> bool" where
  "manifest_ok trap_mem fs \<longleftrightarrow>
     (\<forall>i < length fs. \<forall>j < length fs. i \<noteq> j \<longrightarrow>
        (\<forall>a. \<not> (fn_contains (fs ! i) a \<and> fn_contains (fs ! j) a))) \<and>
     (\<forall>f \<in> set fs. \<forall>ts. fn_traps trap_mem f = Some ts \<longrightarrow>
        sorted (map offset ts) \<and> distinct (map offset ts))"

definition md_pages_ok :: "module_data \<Rightarrow> bool" where
  "md_pages_ok md = (case md_sparse_data md of Some sd \<Rightarrow> list_all page_ok (pages sd) | None \<Rightarrow> True)"

definition dl_invar :: "dl_module \<Rightarrow> bool" where
  "dl_invar d = md_pages_ok (dl_module_data d)"

fun start_handle_ok :: "function_handle option \<Rightarrow> bool" where
  "start_handle_ok None = True"
| "start_handle_ok (Some h) = is_start_func h"

definition mock_invar :: "mock_module \<Rightarrow> bool" where
  "mock_invar m = (md_pages_ok (mk_module_data m) \<and> start_handle_ok (mk_start_func m))"

locale module_interface =
  fixes ops :: "'m \<Rightarrow> module_ops"
    and invar :: "'m \<Rightarrow> bool"
  assumes page_length: "invar m \<Longrightarrow> mo_sparse_page (ops m) i = Some p \<Longrightarrow> length p = 4096"
    and page_beyond: "invar m \<Longrightarrow> mo_sparse_len (ops m) \<le> i \<Longrightarrow> mo_sparse_page (ops m) i = None"
    and start_is_start: "invar m \<Longrightarrow> mo_start_func (ops m) = Ok (Some h) \<Longrightarrow> is_start_func h"
    and export_not_start: "invar m \<Longrightarrow> mo_export_func (ops m) s = Ok h \<Longrightarrow> \<not> is_start_func h"
    and table_not_start: "invar m \<Longrightarrow> mo_func_from_idx (ops m) t f = Ok h \<Longrightarrow> \<not> is_start_func h"
begin

lemma entry_ne_start:
  assumes "invar m" and "mo_start_func (ops m) = Ok (Some h)"
  shows "mo_export_func (ops m) s \<noteq> Ok h \<and> mo_func_from_idx (ops m) t f \<noteq> Ok h"
  using assms start_is_start export_not_start table_not_start by blast

end

section \<open>Lemmas\<close>

lemma md_sparse_page_length:
  "md_pages_ok md \<Longrightarrow> md_get_sparse_page_data md i = Some p \<Longrightarrow> length p = 4096"
  by (auto simp: md_pages_ok_def md_get_sparse_page_data_def split: option.splits
      intro: get_page_length)

lemma md_sparse_page_beyond:
  "md_sparse_page_data_len md \<le> i \<Longrightarrow> md_get_sparse_page_data md i = None"
  by (auto simp: md_sparse_page_data_len_def md_get_sparse_page_data_def sparse_data_len_def
      get_page_def split: option.splits)

lemma function_handle_from_ptr_flag:
  "function_handle_from_ptr fs p = Ok h \<Longrightarrow> \<not> is_start_func h \<and> fh_ptr h = p"
  by (auto simp: function_handle_from_ptr_def split: option.splits)

lemma dl_get_export_func_flag: "dl_get_export_func d s = Ok h \<Longrightarrow> \<not> is_start_func h"
  by (auto simp: dl_get_export_func_def split: option.splits)

lemma dl_get_func_from_idx_flag: "dl_get_func_from_idx d t f = Ok h \<Longrightarrow> \<not> is_start_func h"
  by (auto simp: dl_get_func_from_idx_def function_handle_from_ptr_flag split: if_splits)

lemma dl_get_start_func_flag: "dl_get_start_func d = Ok (Some h) \<Longrightarrow> is_start_func h"
  by (auto simp: dl_get_start_func_def split: option.splits)

lemmas dl_flags = dl_get_export_func_flag dl_get_func_from_idx_flag dl_get_start_func_flag

lemma mock_export_flag: "mock_get_export_func m s = Ok h \<Longrightarrow> \<not> is_start_func h"
  by (auto simp: mock_get_export_func_def function_handle_from_ptr_flag split: option.splits)

lemma mock_func_from_idx_flag: "mock_get_func_from_idx m t f = Ok h \<Longrightarrow> \<not> is_start_func h"
  by (auto simp: mock_get_func_from_idx_def function_handle_from_ptr_flag split: option.splits)

interpretation dl: module_interface "dl_module_ops dladdr" dl_invar
  by unfold_locales
    (auto simp: dl_module_ops_def dl_invar_def md_sparse_page_length md_sparse_page_beyond
      dest: dl_flags)

interpretation mock: module_interface mock_module_ops mock_invar
  by unfold_locales
    (auto simp: mock_module_ops_def mock_invar_def md_sparse_page_length md_sparse_page_beyond
      dest: mock_export_flag mock_func_from_idx_flag)

lemma length_initial_heap_page:
  "length c \<le> 4096 \<Longrightarrow> initial_heap_page c = Some p \<Longrightarrow> length p = 4096"
  by (auto simp: initial_heap_page_def split: if_splits)

lemma chunk_length: "c \<in> set (chunks n xs) \<Longrightarrow> length c \<le> n"
proof (induction n xs rule: chunks.induct)
  case (1 n xs)
  then show ?case
    by (subst (asm) (2) chunks.simps) (auto split: if_splits)
qed

lemma with_initial_heap_pages_ok: "list_all page_ok (with_initial_heap h)"
  unfolding with_initial_heap_def list_all_iff
proof
  fix p assume "p \<in> set (map initial_heap_page (chunks 4096 h))"
  then obtain c where "c \<in> set (chunks 4096 h)" "p = initial_heap_page c" by auto
  then show "page_ok p"
    using chunk_length [of c 4096 h] length_initial_heap_page [of c]
    by (cases "initial_heap_page c") auto
qed

lemma lookup_addr_map_of:
  assumes "sorted (map offset ts)" and "distinct (map offset ts)"
  shows "lookup_addr ts a = map_option code (map_of (map (\<lambda>t. (offset t, t)) ts) a)"
  unfolding binary_search_by_distinct [OF assms, symmetric]
  by (auto simp: lookup_addr_def split: option.splits)

lemma lookup_addr_Some_iff:
  assumes "sorted (map offset ts)" and "distinct (map offset ts)"
  shows "lookup_addr ts a = Some c \<longleftrightarrow> (\<exists>t \<in> set ts. code t = c \<and> offset t = a)"
proof -
  have "distinct (map fst (map (\<lambda>t. (offset t, t)) ts))"
    using assms(2) by (simp add: comp_def)
  then have "map_of (map (\<lambda>t. (offset t, t)) ts) a = Some t \<longleftrightarrow> t \<in> set ts \<and> offset t = a" for t
    by (auto simp: map_of_eq_Some_iff)
  then show ?thesis
    by (auto simp: lookup_addr_map_of [OF assms])
qed

lemma fn_contains_iff:
  "fn_contains f a \<longleftrightarrow> code_addr f \<le> a \<and> unat (a - code_addr f) < unat (code_len f)"
  by (auto simp: fn_contains_def checked_sub_def word_less_nat_alt)

lemma lookup_trapcode_hit:
  assumes "f \<in> set fs" and "relative_addr f rip = Some offs"
    and "\<And>g. g \<in> set fs \<Longrightarrow> fn_contains g rip \<Longrightarrow> g = f"
  shows "lookup_trapcode tm fs rip =
    (case fn_traps tm f of Some ts \<Rightarrow> lookup_addr ts offs | None \<Rightarrow> None)"
  using assms
proof (induction fs)
  case Nil
  then show ?case by simp
next
  case (Cons g gs)
  show ?case
  proof (cases "relative_addr g rip")
    case None
    with Cons.prems have "f \<in> set gs" by auto
    with Cons None show ?thesis by simp
  next
    case (Some o')
    then have "g = f" using Cons.prems(3) relative_addr_contains by auto
    moreover have "offs = o'" using Some Cons.prems(2) \<open>g = f\<close> by simp
    ultimately show ?thesis using Some by (simp split: option.split)
  qed
qed

lemma lookup_trapcode_miss:
  "(\<And>g. g \<in> set fs \<Longrightarrow> \<not> fn_contains g rip) \<Longrightarrow> lookup_trapcode tm fs rip = None"
  by (induction fs) (auto simp: relative_addr_contains)

lemma manifest_ok_unique:
  assumes "manifest_ok tm fs" and "f \<in> set fs" and "g \<in> set fs"
    and "fn_contains f a" and "fn_contains g a"
  shows "g = f"
proof -
  from assms(2,3) obtain i j where "i < length fs" "f = fs ! i" "j < length fs" "g = fs ! j"
    by (auto simp: in_set_conv_nth)
  with assms(1,4,5) show ?thesis unfolding manifest_ok_def by metis
qed

text \<open>What a module's feature set asks of the host, as a set of CPU feature names.\<close>

definition required_features :: "module_features \<Rightarrow> string set" where
  "required_features f = set (map fst (filter snd
     [(''sse3'', ft_sse3 f), (''ssse3'', ft_ssse3 f), (''sse41'', ft_sse41 f), (''sse42'', ft_sse42 f),
      (''avx'', ft_avx f), (''popcnt'', ft_popcnt f), (''bmi1'', ft_bmi1 f), (''bmi2'', ft_bmi2 f),
      (''lzcnt'', ft_lzcnt f)]))"

definition host_features :: "cpu_features \<Rightarrow> string set" where
  "host_features cpu =
     (\<Union>s \<in> {cpu_feature_info cpu, cpu_extended_info cpu, cpu_extended_function cpu}.
        case s of Some x \<Rightarrow> x | None \<Rightarrow> {})"

lemma check_feature_support_sound:
  assumes "check_feature_support cpu f = Ok ()"
  shows "required_features f \<subseteq> host_features cpu"
proof -
  obtain info where i: "cpu_feature_info cpu = Some info"
    using assms by (cases "cpu_feature_info cpu") (auto simp: check_feature_support_def)
  have base: "ft_sse3 f \<longrightarrow> ''sse3'' \<in> info" "ft_ssse3 f \<longrightarrow> ''ssse3'' \<in> info"
    "ft_sse41 f \<longrightarrow> ''sse41'' \<in> info" "ft_sse42 f \<longrightarrow> ''sse42'' \<in> info"
    "ft_avx f \<longrightarrow> ''avx'' \<in> info" "ft_popcnt f \<longrightarrow> ''popcnt'' \<in> info"
    using assms i by (simp_all add: check_feature_support_def split: if_splits)
  have ext: "(ft_bmi1 f \<longrightarrow> ''bmi1'' \<in> (case cpu_extended_info cpu of Some x \<Rightarrow> x | None \<Rightarrow> {})) \<and>
     (ft_bmi2 f \<longrightarrow> ''bmi2'' \<in> (case cpu_extended_info cpu of Some x \<Rightarrow> x | None \<Rightarrow> {})) \<and>
     (ft_lzcnt f \<longrightarrow> ''lzcnt'' \<in> (case cpu_extended_function cpu of Some x \<Rightarrow> x | None \<Rightarrow> {}))"
    using assms i base by (simp add: check_feature_support_def split: if_splits option.splits)
  show ?thesis
    using base ext i by (auto simp: required_features_def host_features_def)
qed

section \<open>Properties\<close>

text \<open>Trap lookup is exact: for a manifest whose functions do not overlap and whose trap
  tables are strictly sorted, the code found for an instruction pointer is the code of the one trap
  site recorded at that offset of the function that contains it, and nothing is found otherwise.\<close>

theorem lookup_trapcode_exact:
  assumes "manifest_ok trap_mem fs"
  shows "lookup_trapcode trap_mem fs rip = Some c \<longleftrightarrow>
    (\<exists>f ts t. f \<in> set fs \<and> fn_traps trap_mem f = Some ts \<and> t \<in> set ts \<and> code t = c \<and>
       code_addr f \<le> rip \<and> unat (rip - code_addr f) < unat (code_len f) \<and>
       unat (offset t) = unat (rip - code_addr f))"
proof (cases "\<exists>f \<in> set fs. fn_contains f rip")
  case False
  then have "lookup_trapcode trap_mem fs rip = None" by (auto intro: lookup_trapcode_miss)
  with False show ?thesis by (auto simp: fn_contains_iff)
next
  case True
  then obtain f offs where f: "f \<in> set fs" "fn_contains f rip" "relative_addr f rip = Some offs"
    by (auto simp: relative_addr_contains)
  have uniq: "g = f" if "g \<in> set fs" "fn_contains g rip" for g
    using manifest_ok_unique [OF assms f(1) that(1) f(2) that(2)] .
  have offs: "unat offs = unat (rip - code_addr f)"
    using f(3) by (simp add: relative_addr_Some_iff)
  have rhs: "(\<exists>g ts t. g \<in> set fs \<and> fn_traps trap_mem g = Some ts \<and> t \<in> set ts \<and> code t = c \<and>
       code_addr g \<le> rip \<and> unat (rip - code_addr g) < unat (code_len g) \<and>
       unat (offset t) = unat (rip - code_addr g)) \<longleftrightarrow>
    (\<exists>ts. fn_traps trap_mem f = Some ts \<and> (\<exists>t \<in> set ts. code t = c \<and> offset t = offs))"
    using f(1) uniq f(2)[unfolded fn_contains_iff] offs
    unfolding fn_contains_iff by (metis unat_eqI)
  have "lookup_trapcode trap_mem fs rip = Some c \<longleftrightarrow>
    (\<exists>ts. fn_traps trap_mem f = Some ts \<and> (\<exists>t \<in> set ts. code t = c \<and> offset t = offs))"
  proof (cases "fn_traps trap_mem f")
    case None
    then show ?thesis using lookup_trapcode_hit [OF f(1,3) uniq] by simp
  next
    case (Some ts)
    then have "sorted (map offset ts)" "distinct (map offset ts)"
      using assms f(1) by (auto simp: manifest_ok_def)
    then show ?thesis
      using lookup_trapcode_hit [OF f(1,3) uniq] Some by (simp add: lookup_addr_Some_iff)
  qed
  with rhs show ?thesis by simp
qed

definition demo_manifest :: "function_spec list" where
  "demo_manifest = [\<lparr>code_addr = 0x1000, code_len = 16, traps_addr = 0x9000, traps_len = 2\<rparr>]"

definition demo_trap_mem :: "u64 \<Rightarrow> u64 \<Rightarrow> trap_site list" where
  "demo_trap_mem a n = [\<lparr>offset = 4, code = BadSignature\<rparr>, \<lparr>offset = 9, code = StackOverflow\<rparr>]"

theorem lookup_trapcode_exact_witness:
  "manifest_ok demo_trap_mem demo_manifest \<and>
   lookup_trapcode demo_trap_mem demo_manifest 0x1009 = Some StackOverflow"
proof -
  have ok: "manifest_ok demo_trap_mem demo_manifest"
    by (auto simp: manifest_ok_def demo_manifest_def demo_trap_mem_def fn_traps_def)
  have "lookup_trapcode demo_trap_mem demo_manifest 0x1009 = Some StackOverflow"
    unfolding lookup_trapcode_exact [OF ok]
    by (intro exI [of _ "hd demo_manifest"] exI [of _ "demo_trap_mem 0x9000 2"]
        exI [of _ "demo_trap_mem 0x9000 2 ! 1"])
      (simp add: demo_manifest_def demo_trap_mem_def fn_traps_def)
  with ok show ?thesis by simp
qed

text \<open>C40: A module is loaded, with version checks enforced, only when its version header is
  valid and compatible with the runtime's, its module data deserializes, the host has every CPU
  feature the module was compiled for, and its signature verifies when a key was given; the loaded
  module carries exactly that header, data and manifest.\<close>

theorem load_enforced_sound:
  assumes "load_and_maybe_verify loaded deserialize cpu verify base rt_version True = Ok d"
  shows "\<exists>sm. loaded = Ok sm \<and> dl_version d = sm_version sm \<and>
    version_valid (sm_version sm) \<and> compatible_with rt_version (sm_version sm) \<and>
    deserialize (sm_module_data sm) = Ok (dl_module_data d) \<and>
    required_features (md_features (dl_module_data d)) \<subseteq> host_features cpu \<and>
    (\<forall>v. verify = Some v \<longrightarrow> v (dl_module_data d) = Ok ()) \<and>
    dl_tables d = sm_tables sm \<and>
    dl_function_manifest d = (case sm_function_manifest sm of Some fs \<Rightarrow> fs | None \<Rightarrow> [])"
proof -
  from assms obtain sm where sm: "loaded = Ok sm" by (auto simp: load_and_maybe_verify_def)
  with assms have v: "version_valid (sm_version sm) \<and> compatible_with rt_version (sm_version sm)"
    by (auto simp: load_and_maybe_verify_def Let_def split: if_splits)
  with assms sm obtain md where md: "deserialize (sm_module_data sm) = Ok md"
    "check_feature_support cpu (md_features md) = Ok ()" "dl_module_data d = md"
    by (auto simp: load_and_maybe_verify_def Let_def)
  have rest: "dl_version d = sm_version sm \<and> (\<forall>v. verify = Some v \<longrightarrow> v md = Ok ()) \<and>
      dl_tables d = sm_tables sm \<and>
      dl_function_manifest d = (case sm_function_manifest sm of Some fs \<Rightarrow> fs | None \<Rightarrow> [])"
    using assms sm v md
    by (cases d) (auto simp: load_and_maybe_verify_def Let_def split: option.splits)
  show ?thesis using sm v md rest check_feature_support_sound [OF md(2)] by simp
qed

definition demo_module_data :: module_data where
  "demo_module_data = module_data_empty\<lparr>md_features := features_none\<lparr>ft_avx := True\<rparr>\<rparr>"

theorem load_enforced_sound_witness:
  "\<exists>d. load_and_maybe_verify
      (Ok \<lparr>sm_version = version_info_new 0 7 0 (replicate 8 0), sm_module_data = [1],
           sm_tables = [], sm_function_manifest = None\<rparr>)
      (\<lambda>_. Ok demo_module_data)
      \<lparr>cpu_feature_info = Some {''avx''}, cpu_extended_info = None, cpu_extended_function = None\<rparr>
      (Some (\<lambda>_. Ok ())) (Some 0x7000) (version_info_new 0 7 0 (replicate 8 0)) True = Ok d \<and>
    required_features (md_features (dl_module_data d)) \<subseteq> {''avx''}"
proof -
  let ?v = "version_info_new 0 7 0 (replicate 8 0)"
  let ?sm = "\<lparr>sm_version = ?v, sm_module_data = [1], sm_tables = [], sm_function_manifest = None\<rparr>"
  let ?cpu = "\<lparr>cpu_feature_info = Some {''avx''}, cpu_extended_info = None, cpu_extended_function = None\<rparr>"
  let ?d = "\<lparr>dl_fbase = 0x7000, dl_version = ?v, dl_module_data = demo_module_data,
    dl_tables = [], dl_function_manifest = []\<rparr>"
  have l: "load_and_maybe_verify (Ok ?sm) (\<lambda>_. Ok demo_module_data) ?cpu (Some (\<lambda>_. Ok ()))
      (Some 0x7000) ?v True = Ok ?d"
    by (simp add: load_and_maybe_verify_def version_valid_def version_info_new_def
        compatible_with_def check_feature_support_def demo_module_data_def features_none_def)
  show ?thesis
    using l load_enforced_sound [OF l] by (fastforce simp: host_features_def)
qed

end
