(* ===== verification/Val_Repr.thy ===== *)
theory Val_Repr
  imports Module_Data
begin

text \<open>
  \<open>lucet-runtime-internals/src/val.rs\<close>: typed values passed to guest functions, their
  representation in argument registers and in spill slots, and untyped return values. Signed and
  unsigned integers of one width share a word type and differ in how they are extended; floats are
  their bit patterns (what \<open>to_bits\<close> returns), and \<open>__m128\<close> is a 128-bit word.
  The lemmas show that a value survives the trip through either representation.
\<close>

section \<open>Definitions\<close>

type_synonym m128 = "128 word"

datatype val =
    CPtr u64
  | GuestPtr u32
  | VU8 u8
  | VU16 u16
  | VU32 u32
  | VU64 u64
  | VI8 u8
  | VI16 u16
  | VI32 u32
  | VI64 u64
  | VUSize usize
  | VISize usize
  | VBool bool
  | VF32 u32
  | VF64 u64

fun val_value_type :: "val \<Rightarrow> value_type" where
  "val_value_type (VUSize _) = TI32"
| "val_value_type (VISize _) = TI32"
| "val_value_type (CPtr _) = TI32"
| "val_value_type (GuestPtr _) = TI32"
| "val_value_type (VI8 _) = TI32"
| "val_value_type (VU8 _) = TI32"
| "val_value_type (VI16 _) = TI32"
| "val_value_type (VU16 _) = TI32"
| "val_value_type (VI32 _) = TI32"
| "val_value_type (VU32 _) = TI32"
| "val_value_type (VI64 _) = TI64"
| "val_value_type (VU64 _) = TI64"
| "val_value_type (VBool _) = TI32"
| "val_value_type (VF32 _) = TF32"
| "val_value_type (VF64 _) = TF64"

datatype reg_val = GpReg u64 | FpReg m128

text \<open>\<open>_mm_load_ps1\<close> and \<open>_mm_load_pd1\<close> fill every lane of the register.\<close>

definition mm_load_ps1 :: "u32 \<Rightarrow> m128" where
  "mm_load_ps1 v = ucast v OR push_bit 32 (ucast v) OR push_bit 64 (ucast v) OR push_bit 96 (ucast v)"

definition mm_load_pd1 :: "u64 \<Rightarrow> m128" where
  "mm_load_pd1 v = ucast v OR push_bit 64 (ucast v)"

fun val_to_reg :: "val \<Rightarrow> reg_val" where
  "val_to_reg (CPtr v) = GpReg v"
| "val_to_reg (GuestPtr v) = GpReg (ucast v)"
| "val_to_reg (VU8 v) = GpReg (ucast v)"
| "val_to_reg (VU16 v) = GpReg (ucast v)"
| "val_to_reg (VU32 v) = GpReg (ucast v)"
| "val_to_reg (VU64 v) = GpReg v"
| "val_to_reg (VI8 v) = GpReg (scast v)"
| "val_to_reg (VI16 v) = GpReg (scast v)"
| "val_to_reg (VI32 v) = GpReg (scast v)"
| "val_to_reg (VI64 v) = GpReg v"
| "val_to_reg (VUSize v) = GpReg v"
| "val_to_reg (VISize v) = GpReg v"
| "val_to_reg (VBool b) = (if b then GpReg 1 else GpReg 0)"
| "val_to_reg (VF32 v) = FpReg (mm_load_ps1 v)"
| "val_to_reg (VF64 v) = FpReg (mm_load_pd1 v)"

fun val_to_stack :: "val \<Rightarrow> u64" where
  "val_to_stack (CPtr v) = v"
| "val_to_stack (GuestPtr v) = ucast v"
| "val_to_stack (VU8 v) = ucast v"
| "val_to_stack (VU16 v) = ucast v"
| "val_to_stack (VU32 v) = ucast v"
| "val_to_stack (VU64 v) = v"
| "val_to_stack (VI8 v) = scast v"
| "val_to_stack (VI16 v) = scast v"
| "val_to_stack (VI32 v) = scast v"
| "val_to_stack (VI64 v) = v"
| "val_to_stack (VUSize v) = v"
| "val_to_stack (VISize v) = v"
| "val_to_stack (VBool b) = (if b then 1 else 0)"
| "val_to_stack (VF32 v) = ucast v"
| "val_to_stack (VF64 v) = v"

record untyped_ret_val =
  rv_fp :: m128
  rv_gp :: u64

definition untyped_ret_val_new :: "u64 \<Rightarrow> m128 \<Rightarrow> untyped_ret_val" where
  "untyped_ret_val_new gp fp = \<lparr>rv_fp = fp, rv_gp = gp\<rparr>"

fun untyped_from_reg :: "reg_val \<Rightarrow> untyped_ret_val" where
  "untyped_from_reg (GpReg r) = untyped_ret_val_new r 0"
| "untyped_from_reg (FpReg r) = untyped_ret_val_new 0 r"

definition untyped_from_val :: "val \<Rightarrow> untyped_ret_val" where
  "untyped_from_val v = untyped_from_reg (val_to_reg v)"

definition untyped_default :: untyped_ret_val where
  "untyped_default = \<lparr>rv_fp = 0, rv_gp = 0\<rparr>"

definition m128_as_f32 :: "m128 \<Rightarrow> u32" where
  "m128_as_f32 v = ucast v"

definition m128_as_f64 :: "m128 \<Rightarrow> u64" where
  "m128_as_f64 v = ucast v"

definition as_f32 :: "untyped_ret_val \<Rightarrow> u32" where
  "as_f32 r = m128_as_f32 (rv_fp r)"

definition as_f64 :: "untyped_ret_val \<Rightarrow> u64" where
  "as_f64 r = m128_as_f64 (rv_fp r)"

text \<open>The \<open>as_T\<close> methods the macro \<open>impl_from_gp\<close> generates: a truncating cast to the
  width of \<open>T\<close>, signed or unsigned.\<close>

definition as_int :: "untyped_ret_val \<Rightarrow> 'w::len word" where
  "as_int r = ucast (rv_gp r)"

definition as_bool :: "untyped_ret_val \<Rightarrow> bool" where
  "as_bool r = (rv_gp r \<noteq> 0)"

definition as_ptr :: "untyped_ret_val \<Rightarrow> u64" where
  "as_ptr r = rv_gp r"

text \<open>Reading a return value back at the type of a given value.\<close>

fun read_back_as :: "val \<Rightarrow> untyped_ret_val \<Rightarrow> val" where
  "read_back_as (CPtr _) r = CPtr (as_ptr r)"
| "read_back_as (GuestPtr _) r = GuestPtr (as_int r)"
| "read_back_as (VU8 _) r = VU8 (as_int r)"
| "read_back_as (VU16 _) r = VU16 (as_int r)"
| "read_back_as (VU32 _) r = VU32 (as_int r)"
| "read_back_as (VU64 _) r = VU64 (as_int r)"
| "read_back_as (VI8 _) r = VI8 (as_int r)"
| "read_back_as (VI16 _) r = VI16 (as_int r)"
| "read_back_as (VI32 _) r = VI32 (as_int r)"
| "read_back_as (VI64 _) r = VI64 (as_int r)"
| "read_back_as (VUSize _) r = VUSize (as_int r)"
| "read_back_as (VISize _) r = VISize (as_int r)"
| "read_back_as (VBool _) r = VBool (as_bool r)"
| "read_back_as (VF32 _) r = VF32 (as_f32 r)"
| "read_back_as (VF64 _) r = VF64 (as_f64 r)"

section \<open>Lemmas\<close>

lemma ucast_ucast_back [simp]:
  "LENGTH('a::len) \<le> LENGTH('b::len) \<Longrightarrow> (ucast (ucast (w :: 'a word) :: 'b word) :: 'a word) = w"
  by (rule bit_word_eqI) (auto simp: bit_simps)

lemma ucast_scast_back [simp]:
  "LENGTH('a::len) \<le> LENGTH('b::len) \<Longrightarrow> (ucast (scast (w :: 'a word) :: 'b word) :: 'a word) = w"
  by (rule bit_word_eqI) (auto simp: bit_simps)

lemma m128_as_f32_load [simp]: "m128_as_f32 (mm_load_ps1 v) = v"
  unfolding m128_as_f32_def mm_load_ps1_def
  by (rule bit_word_eqI) (auto simp: bit_simps)

lemma m128_as_f64_load [simp]: "m128_as_f64 (mm_load_pd1 v) = v"
  unfolding m128_as_f64_def mm_load_pd1_def
  by (rule bit_word_eqI) (auto simp: bit_simps)

lemmas untyped_defs = untyped_from_val_def untyped_ret_val_new_def as_int_def as_bool_def as_ptr_def
  as_f32_def as_f64_def

lemma read_back_untyped: "read_back_as v (untyped_from_val v) = v"
  by (cases v) (simp_all add: untyped_defs)

text \<open>A spill slot and a register hold the same bits of a value.\<close>

lemma val_to_stack_reg:
  "val_to_stack v = (case val_to_reg v of GpReg r \<Rightarrow> r
     | FpReg x \<Rightarrow> (if val_value_type v = TF32 then ucast (m128_as_f32 x) else m128_as_f64 x))"
  by (cases v) simp_all

section \<open>Properties\<close>

text \<open>A value survives its register representation: converted to an untyped return value and
  read back at its own type it is unchanged; and a spill slot holds the same bits as the register
  would.\<close>

theorem val_repr_roundtrip:
  "read_back_as v (untyped_from_val v) = v \<and>
   val_to_stack v = (case val_to_reg v of GpReg r \<Rightarrow> r
     | FpReg x \<Rightarrow> (if val_value_type v = TF32 then ucast (m128_as_f32 x) else m128_as_f64 x))"
  using read_back_untyped val_to_stack_reg by blast

end
