(* ===== verification/Context_Switch.thy ===== *)
theory Context_Switch
  imports Val_Repr
begin

text \<open>
  \<open>lucet-runtime-internals/src/context/mod.rs\<close> with \<open>context_asm.S\<close>: the saved registers
  of a guest, the call stack \<open>init_with_callback\<close> builds for it, and the assembly routines
  that enter it. A stack is the list of its 64-bit slots together with the address of slot 0; the
  assembly runs on a machine of registers and a memory of 64-bit words. Addresses of
  functions (\<open>context_syms\<close>) come from the linker. The main result: the first swap to a fresh
  context enters the guest function with every argument where the AMD64 calling convention
  wants it.
\<close>

section \<open>Saved contexts\<close>

record gp_regs =
  rbx :: u64
  rsp :: u64
  rbp :: u64
  rdi :: u64
  r12 :: u64
  r13 :: u64
  r14 :: u64
  r15 :: u64
  rsi :: u64

definition gp_regs_new :: gp_regs where
  "gp_regs_new = \<lparr>rbx = 0, rsp = 0, rbp = 0, rdi = 0, r12 = 0, r13 = 0, r14 = 0, r15 = 0, rsi = 0\<rparr>"

record fp_regs =
  xmm0 :: m128
  xmm1 :: m128
  xmm2 :: m128
  xmm3 :: m128
  xmm4 :: m128
  xmm5 :: m128
  xmm6 :: m128
  xmm7 :: m128

definition fp_regs_new :: fp_regs where
  "fp_regs_new = \<lparr>xmm0 = 0, xmm1 = 0, xmm2 = 0, xmm3 = 0, xmm4 = 0, xmm5 = 0, xmm6 = 0, xmm7 = 0\<rparr>"

text \<open>A backstop callback, compared as a function pointer; \<open>DefaultBackstop\<close> is
  \<open>default_backstop_callback\<close>.\<close>

datatype backstop = DefaultBackstop | BackstopAt u64

record ctx =
  gpr :: gp_regs
  fpr :: fp_regs
  retvals_gp :: "u64 \<times> u64"
  retval_fp :: m128
  parent_ctx :: u64
  backstop_callback :: backstop
  callback_data :: u64

text \<open>Addresses fixed by the linker.\<close>

record context_syms =
  lucet_context_bootstrap_addr :: u64
  lucet_context_backstop_addr :: u64

definition context_new :: ctx where
  "context_new = \<lparr>gpr = gp_regs_new, fpr = fp_regs_new, retvals_gp = (0, 0), retval_fp = 0,
     parent_ctx = 0, backstop_callback = DefaultBackstop, callback_data = 0\<rparr>"

definition clear_retvals :: "ctx \<Rightarrow> ctx" where
  "clear_retvals c = c\<lparr>retvals_gp := (0, 0), retval_fp := 0\<rparr>"

definition get_retval_gp :: "ctx \<Rightarrow> nat \<Rightarrow> ('e, u64) rresult" where
  "get_retval_gp c idx =
     (if idx = 0 then Ok (fst (retvals_gp c)) else if idx = 1 then Ok (snd (retvals_gp c))
      else Panic ''index out of bounds'')"

definition get_untyped_retval :: "ctx \<Rightarrow> ('e, untyped_ret_val) rresult" where
  "get_untyped_retval c =
     rbind (get_retval_gp c 0) (\<lambda>gp. Ok (untyped_ret_val_new gp (retval_fp c)))"

datatype context_error = UnalignedStack

definition bootstrap_fp_ix_arg :: "ctx \<Rightarrow> nat \<Rightarrow> m128 \<Rightarrow> (context_error, ctx) rresult" where
  "bootstrap_fp_ix_arg c ix arg =
     (if ix = 0 then Ok (c\<lparr>fpr := fpr c\<lparr>xmm0 := arg\<rparr>\<rparr>)
      else if ix = 1 then Ok (c\<lparr>fpr := fpr c\<lparr>xmm1 := arg\<rparr>\<rparr>)
      else if ix = 2 then Ok (c\<lparr>fpr := fpr c\<lparr>xmm2 := arg\<rparr>\<rparr>)
      else if ix = 3 then Ok (c\<lparr>fpr := fpr c\<lparr>xmm3 := arg\<rparr>\<rparr>)
      else if ix = 4 then Ok (c\<lparr>fpr := fpr c\<lparr>xmm4 := arg\<rparr>\<rparr>)
      else if ix = 5 then Ok (c\<lparr>fpr := fpr c\<lparr>xmm5 := arg\<rparr>\<rparr>)
      else if ix = 6 then Ok (c\<lparr>fpr := fpr c\<lparr>xmm6 := arg\<rparr>\<rparr>)
      else if ix = 7 then Ok (c\<lparr>fpr := fpr c\<lparr>xmm7 := arg\<rparr>\<rparr>)
      else Panic ''unexpected fp register index'')"

section \<open>Building the initial call stack\<close>

record call_stack_builder =
  csb_offset :: nat
  csb_stack :: "u64 list"

definition csb_new :: "u64 list \<Rightarrow> call_stack_builder" where
  "csb_new stack = \<lparr>csb_offset = 0, csb_stack = stack\<rparr>"

text \<open>An index below 0 wraps to a huge one: the slice access panics either way.\<close>

definition csb_push :: "call_stack_builder \<Rightarrow> u64 \<Rightarrow> (context_error, call_stack_builder) rresult" where
  "csb_push b v =
     (let off = csb_offset b + 1 in
      if off \<le> length (csb_stack b) then
        Ok \<lparr>csb_offset = off, csb_stack = (csb_stack b)[length (csb_stack b) - off := v]\<rparr>
      else Panic ''index out of bounds'')"

fun csb_push_all :: "call_stack_builder \<Rightarrow> u64 list \<Rightarrow> (context_error, call_stack_builder) rresult" where
  "csb_push_all b [] = Ok b"
| "csb_push_all b (v # vs) = rbind (csb_push b v) (\<lambda>b. csb_push_all b vs)"

definition store_args :: "call_stack_builder \<Rightarrow> u64 list \<Rightarrow> (context_error, call_stack_builder) rresult" where
  "store_args b args =
     (let items_end = length args + csb_offset b in
      rbind (if items_end mod 2 = 1 then csb_push b 0 else Ok b)
        (\<lambda>b. csb_push_all b (rev args)))"

text \<open>The address of the slot after the last one is a multiple of 16. An empty stack panics.\<close>

definition stack_is_aligned :: "u64 \<Rightarrow> u64 list \<Rightarrow> (context_error, bool) rresult" where
  "stack_is_aligned stack_addr stack =
     (let size = length stack in
      if size = 0 then Panic ''index out of bounds''
      else (let last_elt_addr = stack_addr + 8 * of_nat (size - 1);
                bottom_addr = last_elt_addr + 8
            in Ok (bottom_addr mod 16 = 0)))"

record arg_state =
  gp_args_ix :: nat
  fp_args_ix :: nat
  gp_regs_values :: "u64 list"
  spilled_args :: "u64 list"
  as_child :: ctx

definition place_arg :: "arg_state \<Rightarrow> val \<Rightarrow> (context_error, arg_state) rresult" where
  "place_arg s arg =
     (case val_to_reg arg of
        GpReg v \<Rightarrow>
          if gp_args_ix s \<ge> 6 then Ok (s\<lparr>spilled_args := spilled_args s @ [val_to_stack arg]\<rparr>)
          else Ok (s\<lparr>gp_regs_values := (gp_regs_values s)[gp_args_ix s := v],
                     gp_args_ix := gp_args_ix s + 1\<rparr>)
      | FpReg v \<Rightarrow>
          if fp_args_ix s \<ge> 8 then Ok (s\<lparr>spilled_args := spilled_args s @ [val_to_stack arg]\<rparr>)
          else rbind (bootstrap_fp_ix_arg (as_child s) (fp_args_ix s) v)
                 (\<lambda>c. Ok (s\<lparr>as_child := c, fp_args_ix := fp_args_ix s + 1\<rparr>)))"

fun place_args :: "arg_state \<Rightarrow> val list \<Rightarrow> (context_error, arg_state) rresult" where
  "place_args s [] = Ok s"
| "place_args s (a # as) = rbind (place_arg s a) (\<lambda>s. place_args s as)"

text \<open>
  \<open>Context::init_with_callback\<close>: the child context and its stack afterwards. \<open>stack_addr\<close> and
  \<open>child_addr\<close> are where the two live. The child and the stack are unchanged when the result
  is an error.
\<close>

definition init_with_callback ::
    "context_syms \<Rightarrow> u64 \<Rightarrow> u64 \<Rightarrow> u64 list \<Rightarrow> ctx \<Rightarrow> backstop \<Rightarrow> u64 \<Rightarrow> u64 \<Rightarrow> val list \<Rightarrow>
     (context_error, ctx \<times> u64 list) rresult" where
  "init_with_callback syms stack_addr child_addr stack child cb cb_data fptr args =
     rbind (stack_is_aligned stack_addr stack) (\<lambda>aligned.
     if \<not> aligned then Err UnalignedStack
     else
       (let child = (if cb \<noteq> DefaultBackstop
                     then child\<lparr>backstop_callback := cb, callback_data := cb_data\<rparr> else child)
        in rbind (place_args \<lparr>gp_args_ix = 0, fp_args_ix = 0, gp_regs_values = replicate 6 0,
                              spilled_args = [], as_child = child\<rparr> args) (\<lambda>s.
           rbind (store_args (csb_new stack) (spilled_args s)) (\<lambda>b.
           if csb_offset b mod 2 \<noteq> 0 then Panic ''incorrect alignment for guest call frame''
           else
           rbind (csb_push b (lucet_context_backstop_addr syms)) (\<lambda>b.
           rbind (csb_push b fptr) (\<lambda>b.
           rbind (csb_push_all b (gp_regs_values s)) (\<lambda>b.
           rbind (csb_push b (lucet_context_bootstrap_addr syms)) (\<lambda>b.
             let stack = csb_stack b;
                 stack_start = csb_offset b;
                 child = as_child s
             in Ok (child\<lparr>gpr := (gpr child)\<lparr>
                      rsp := stack_addr + 8 * of_nat (length stack - stack_start),
                      rbp := child_addr\<rparr>\<rparr>, stack)))))))))"

definition context_init ::
    "context_syms \<Rightarrow> u64 \<Rightarrow> u64 \<Rightarrow> u64 list \<Rightarrow> ctx \<Rightarrow> u64 \<Rightarrow> val list \<Rightarrow>
     (context_error, ctx \<times> u64 list) rresult" where
  "context_init syms stack_addr child_addr stack child fptr args =
     init_with_callback syms stack_addr child_addr stack child DefaultBackstop 0 fptr args"

section \<open>The assembly routines\<close>

text \<open>The registers the routines touch besides those of \<open>gp_regs\<close>, the instruction pointer, and
  memory as 64-bit words by address.\<close>

record machine =
  m_rip :: u64
  m_gp :: gp_regs
  m_fp :: fp_regs
  m_rax :: u64
  m_rdx :: u64
  m_rcx :: u64
  m_r8 :: u64
  m_r9 :: u64
  m_mem :: "u64 \<Rightarrow> u64"

definition pop :: "machine \<Rightarrow> u64 \<times> machine" where
  "pop m = (m_mem m (rsp (m_gp m)), m\<lparr>m_gp := (m_gp m)\<lparr>rsp := rsp (m_gp m) + 8\<rparr>\<rparr>)"

definition ret :: "machine \<Rightarrow> machine" where
  "ret m = (let (a, m) = pop m in m\<lparr>m_rip := a\<rparr>)"

text \<open>\<open>lucet_context_swap\<close> stores the current registers in \<open>from\<close>, loads those of \<open>to\<close> and
  returns on the new stack. Contexts are passed by value here: the first result is \<open>from\<close>.\<close>

definition lucet_context_swap :: "ctx \<Rightarrow> ctx \<Rightarrow> machine \<Rightarrow> ctx \<times> machine" where
  "lucet_context_swap from to m =
     (from\<lparr>gpr := m_gp m, fpr := m_fp m\<rparr>, ret (m\<lparr>m_gp := gpr to, m_fp := fpr to\<rparr>))"

definition lucet_context_set :: "ctx \<Rightarrow> machine \<Rightarrow> machine" where
  "lucet_context_set to m = ret (m\<lparr>m_gp := gpr to, m_fp := fpr to\<rparr>)"

definition lucet_context_bootstrap :: "machine \<Rightarrow> machine" where
  "lucet_context_bootstrap m =
     (let (v, m) = pop m; m = m\<lparr>m_r9 := v\<rparr>;
          (v, m) = pop m; m = m\<lparr>m_r8 := v\<rparr>;
          (v, m) = pop m; m = m\<lparr>m_rcx := v\<rparr>;
          (v, m) = pop m; m = m\<lparr>m_rdx := v\<rparr>;
          (v, m) = pop m; m = m\<lparr>m_gp := (m_gp m)\<lparr>rsi := v\<rparr>\<rparr>;
          (v, m) = pop m; m = m\<lparr>m_gp := (m_gp m)\<lparr>rdi := v\<rparr>\<rparr>
      in ret m)"

text \<open>The part of \<open>lucet_context_backstop\<close> before the callback: the guest's return registers go
  into the context that \<open>rbp\<close> points to.\<close>

definition lucet_context_backstop_store :: "machine \<Rightarrow> ctx \<Rightarrow> ctx" where
  "lucet_context_backstop_store m c = c\<lparr>retvals_gp := (m_rax m, m_rdx m), retval_fp := xmm0 (m_fp m)\<rparr>"

section \<open>The calling convention\<close>

text \<open>Where the AMD64 convention puts the arguments: the integer values of the list in order, the
  floating-point values in order, and the arguments at the positions that find no free register.\<close>

definition gp_values :: "val list \<Rightarrow> u64 list" where
  "gp_values args = List.map_filter (\<lambda>a. case val_to_reg a of GpReg v \<Rightarrow> Some v | FpReg v \<Rightarrow> None) args"

definition fp_values :: "val list \<Rightarrow> m128 list" where
  "fp_values args = List.map_filter (\<lambda>a. case val_to_reg a of GpReg v \<Rightarrow> None | FpReg v \<Rightarrow> Some v) args"

definition int_regs :: "val list \<Rightarrow> u64 list" where
  "int_regs args = take 6 (gp_values args) @ replicate (6 - length (gp_values args)) 0"

definition is_spilled :: "val list \<Rightarrow> nat \<Rightarrow> bool" where
  "is_spilled args i =
     (case val_to_reg (args ! i) of
        GpReg v \<Rightarrow> 6 \<le> length (gp_values (take i args))
      | FpReg v \<Rightarrow> 8 \<le> length (fp_values (take i args)))"

definition memory_args :: "val list \<Rightarrow> u64 list" where
  "memory_args args =
     map (\<lambda>i. val_to_stack (args ! i)) (filter (is_spilled args) [0..<length args])"

definition frame_size :: "val list \<Rightarrow> nat" where
  "frame_size args = length (memory_args args) + length (memory_args args) mod 2"

definition fp_list :: "fp_regs \<Rightarrow> m128 list" where
  "fp_list r = [xmm0 r, xmm1 r, xmm2 r, xmm3 r, xmm4 r, xmm5 r, xmm6 r, xmm7 r]"

section \<open>Lemmas\<close>

subsection \<open>Arguments\<close>

lemma arg_values_Nil [simp]: "gp_values [] = []" "fp_values [] = []" "memory_args [] = []"
  by (simp_all add: gp_values_def fp_values_def memory_args_def List.map_filter_def)

lemma arg_values_snoc:
  "gp_values (as @ [a]) = gp_values as @ (case val_to_reg a of GpReg v \<Rightarrow> [v] | FpReg v \<Rightarrow> [])"
  "fp_values (as @ [a]) = fp_values as @ (case val_to_reg a of GpReg v \<Rightarrow> [] | FpReg v \<Rightarrow> [v])"
  by (auto simp: gp_values_def fp_values_def List.map_filter_def split: reg_val.split)

lemma memory_args_snoc:
  "memory_args (as @ [a]) = memory_args as @
     (if is_spilled (as @ [a]) (length as) then [val_to_stack a] else [])"
proof -
  have "filter (is_spilled (as @ [a])) [0..<length as] = filter (is_spilled as) [0..<length as]"
    by (rule filter_cong) (auto simp: is_spilled_def nth_append split: reg_val.split)
  then show ?thesis
    by (auto simp: memory_args_def nth_append intro!: map_cong)
qed

lemma is_spilled_snoc:
  "is_spilled (as @ [a]) (length as) =
     (case val_to_reg a of GpReg v \<Rightarrow> 6 \<le> length (gp_values as) | FpReg v \<Rightarrow> 8 \<le> length (fp_values as))"
  by (simp add: is_spilled_def split: reg_val.split)

lemma bootstrap_fp_ix_arg_Ok:
  assumes "ix < 8"
  shows "\<exists>c'. bootstrap_fp_ix_arg c ix v = Ok c' \<and> fp_list (fpr c') = (fp_list (fpr c))[ix := v] \<and>
    c' = c\<lparr>fpr := fpr c'\<rparr>"
proof -
  have "ix \<in> {0, 1, 2, 3, 4, 5, 6, 7}" using assms by auto
  then show ?thesis
    by (elim insertE) (simp_all add: bootstrap_fp_ix_arg_def fp_list_def)
qed

lemma place_args_snoc: "place_args s (as @ [a]) = rbind (place_args s as) (\<lambda>s. place_arg s a)"
proof (induction as arbitrary: s)
  case Nil
  show ?case by simp
next
  case (Cons b bs)
  then show ?case by (simp add: rbind_assoc)
qed

definition args_placed :: "ctx \<Rightarrow> val list \<Rightarrow> arg_state \<Rightarrow> bool" where
  "args_placed child args s \<longleftrightarrow>
     gp_args_ix s = min 6 (length (gp_values args)) \<and>
     fp_args_ix s = min 8 (length (fp_values args)) \<and>
     gp_regs_values s = take 6 (gp_values args) @ replicate (6 - length (gp_values args)) 0 \<and>
     spilled_args s = memory_args args \<and>
     fp_list (fpr (as_child s)) =
       take 8 (fp_values args) @ drop (length (fp_values args)) (fp_list (fpr child)) \<and>
     as_child s = child\<lparr>fpr := fpr (as_child s)\<rparr>"

lemma length_fp_list [simp]: "length (fp_list r) = 8"
  by (simp add: fp_list_def)

lemma list_update_fill:
  assumes "length xs < n" and "length ys = n - length xs"
  shows "(xs @ ys)[length xs := v] = xs @ v # tl ys"
  using assms by (cases ys) (auto simp: list_update_append)

lemma place_arg_placed:
  assumes "args_placed child args s"
  shows "\<exists>s'. place_arg s a = Ok s' \<and> args_placed child (args @ [a]) s'"
proof (cases "val_to_reg a")
  case (GpReg v)
  show ?thesis
  proof (cases "length (gp_values args) \<ge> 6")
    case True
    with assms GpReg show ?thesis
      by (simp add: args_placed_def place_arg_def arg_values_snoc memory_args_snoc is_spilled_snoc)
  next
    case False
    have u: "(gp_values args @ replicate (6 - length (gp_values args)) 0)[length (gp_values args) := v]
        = gp_values args @ v # replicate (5 - length (gp_values args)) 0"
      using list_update_fill [of "gp_values args" 6 "replicate (6 - length (gp_values args)) 0" v] False
      by (simp add: tl_replicate)
    from assms GpReg False u show ?thesis
      by (simp add: args_placed_def place_arg_def arg_values_snoc memory_args_snoc is_spilled_snoc)
  qed
next
  case (FpReg v)
  show ?thesis
  proof (cases "length (fp_values args) \<ge> 8")
    case True
    with assms FpReg show ?thesis
      by (simp add: args_placed_def place_arg_def arg_values_snoc memory_args_snoc is_spilled_snoc)
  next
    case False
    then have lt: "length (fp_values args) < 8" by simp
    obtain c' where c': "bootstrap_fp_ix_arg (as_child s) (length (fp_values args)) v = Ok c'"
      "fp_list (fpr c') = (fp_list (fpr (as_child s)))[length (fp_values args) := v]"
      "c' = (as_child s)\<lparr>fpr := fpr c'\<rparr>"
      using bootstrap_fp_ix_arg_Ok [OF lt] by blast
    have ix: "fp_args_ix s = length (fp_values args)"
      and fl: "fp_list (fpr (as_child s)) =
        fp_values args @ drop (length (fp_values args)) (fp_list (fpr child))"
      and ch: "as_child s = child\<lparr>fpr := fpr (as_child s)\<rparr>"
      using assms lt by (simp_all add: args_placed_def)
    have u: "fp_list (fpr c') = fp_values args @ v # drop (Suc (length (fp_values args))) (fp_list (fpr child))"
      unfolding c'(2) fl
      using list_update_fill [of "fp_values args" 8 "drop (length (fp_values args)) (fp_list (fpr child))" v] lt
      by (simp add: drop_Suc [symmetric] tl_drop drop_tl)
    have "c' = child\<lparr>fpr := fpr c'\<rparr>" using c'(3) ch by (metis ctx.update_convs(2) ctx.surjective)
    with assms FpReg lt ix c'(1) u show ?thesis
      by (simp add: args_placed_def place_arg_def arg_values_snoc memory_args_snoc is_spilled_snoc)
  qed
qed

lemma place_args_placed:
  "\<exists>s. place_args \<lparr>gp_args_ix = 0, fp_args_ix = 0, gp_regs_values = replicate 6 0,
       spilled_args = [], as_child = child\<rparr> args = Ok s \<and> args_placed child args s"
proof (induction args rule: rev_induct)
  case Nil
  show ?case by (simp add: args_placed_def)
next
  case (snoc a as)
  then show ?case
    using place_arg_placed by (fastforce simp: place_args_snoc)
qed

subsection \<open>Stacks\<close>

text \<open>What has been pushed, the last push first.\<close>

definition csb_top :: "call_stack_builder \<Rightarrow> u64 list" where
  "csb_top b = drop (length (csb_stack b) - csb_offset b) (csb_stack b)"

lemma csb_push_Ok:
  assumes "csb_offset b < length (csb_stack b)"
  shows "\<exists>b'. csb_push b v = Ok b' \<and> csb_offset b' = Suc (csb_offset b) \<and>
    length (csb_stack b') = length (csb_stack b) \<and> csb_top b' = v # csb_top b"
proof -
  let ?n = "length (csb_stack b)" and ?o = "csb_offset b"
  have "drop (?n - Suc ?o) ((csb_stack b)[?n - Suc ?o := v]) = v # drop (?n - ?o) (csb_stack b)"
    using assms by (subst Cons_nth_drop_Suc [symmetric]) (simp_all add: Suc_diff_Suc)
  then show ?thesis using assms by (simp add: csb_push_def csb_top_def Let_def Suc_le_eq)
qed

lemma csb_push_all_Ok:
  assumes "csb_offset b + length vs \<le> length (csb_stack b)"
  shows "\<exists>b'. csb_push_all b vs = Ok b' \<and> csb_offset b' = csb_offset b + length vs \<and>
    length (csb_stack b') = length (csb_stack b) \<and> csb_top b' = rev vs @ csb_top b"
  using assms
proof (induction vs arbitrary: b)
  case Nil
  then show ?case by simp
next
  case (Cons v vs)
  then obtain b1 where b1: "csb_push b v = Ok b1" "csb_offset b1 = Suc (csb_offset b)"
    "length (csb_stack b1) = length (csb_stack b)" "csb_top b1 = v # csb_top b"
    using csb_push_Ok [of b v] by auto
  moreover have "csb_offset b1 + length vs \<le> length (csb_stack b1)" using Cons.prems b1 by simp
  ultimately show ?case using Cons.IH [of b1] by auto
qed

lemma store_args_Ok:
  assumes "length args + length args mod 2 \<le> length stack"
  shows "\<exists>b. store_args (csb_new stack) args = Ok b \<and>
    csb_offset b = length args + length args mod 2 \<and> length (csb_stack b) = length stack \<and>
    csb_top b = args @ replicate (length args mod 2) 0"
proof (cases "length args mod 2 = 1")
  case True
  then obtain b1 where b1: "csb_push (csb_new stack) 0 = Ok b1" "csb_offset b1 = 1"
    "length (csb_stack b1) = length stack" "csb_top b1 = [0]"
    using csb_push_Ok [of "csb_new stack" 0] assms
    by (cases stack) (auto simp: csb_new_def csb_top_def)
  then have "csb_offset b1 + length (rev args) \<le> length (csb_stack b1)" using assms True by simp
  from csb_push_all_Ok [OF this] b1 True show ?thesis
    by (auto simp: store_args_def csb_new_def)
next
  case False
  then have "length args mod 2 = 0" by simp
  then show ?thesis
    using csb_push_all_Ok [of "csb_new stack" "rev args"] assms
    by (auto simp: store_args_def csb_new_def csb_top_def)
qed

lemma csb_top_nth:
  assumes "csb_offset b \<le> length (csb_stack b)" and "k < csb_offset b"
  shows "csb_stack b ! (length (csb_stack b) - csb_offset b + k) = csb_top b ! k"
  using assms by (simp add: csb_top_def)

text \<open>The stack that \<open>init_with_callback\<close> leaves, read from the stack pointer upwards.\<close>

definition entry_frame :: "context_syms \<Rightarrow> u64 \<Rightarrow> val list \<Rightarrow> u64 list" where
  "entry_frame syms fptr args =
     lucet_context_bootstrap_addr syms #
     rev (int_regs args) @
     fptr # lucet_context_backstop_addr syms # memory_args args @
     replicate (length (memory_args args) mod 2) 0"

lemma length_entry_frame: "length (entry_frame syms fptr args) = frame_size args + 9"
  by (simp add: entry_frame_def frame_size_def int_regs_def)

definition callback_set :: "backstop \<Rightarrow> u64 \<Rightarrow> ctx \<Rightarrow> ctx" where
  "callback_set cb d c =
     (if cb \<noteq> DefaultBackstop then c\<lparr>backstop_callback := cb, callback_data := d\<rparr> else c)"

lemma init_with_callback_Ok:
  assumes "stack_is_aligned sa stack = Ok True" and "frame_size args + 9 \<le> length stack"
  shows "\<exists>c stack'. init_with_callback syms sa ca stack child cb d fptr args = Ok (c, stack') \<and>
    length stack' = length stack \<and>
    drop (length stack - (frame_size args + 9)) stack' = entry_frame syms fptr args \<and>
    rsp (gpr c) = sa + 8 * of_nat (length stack - (frame_size args + 9)) \<and> rbp (gpr c) = ca \<and>
    fp_list (fpr c) = take 8 (fp_values args) @ drop (length (fp_values args)) (fp_list (fpr child)) \<and>
    c = (callback_set cb d child)\<lparr>gpr := gpr c, fpr := fpr c\<rparr>"
proof -
  let ?child = "callback_set cb d child"
  obtain s where s: "place_args \<lparr>gp_args_ix = 0, fp_args_ix = 0, gp_regs_values = replicate 6 0,
       spilled_args = [], as_child = ?child\<rparr> args = Ok s" "args_placed ?child args s"
    using place_args_placed by blast
  have sp: "spilled_args s = memory_args args"
    and gp: "gp_regs_values s = take 6 (gp_values args) @ replicate (6 - length (gp_values args)) 0"
    using s(2) by (simp_all add: args_placed_def)
  then have gpl: "length (gp_regs_values s) = 6" by simp
  obtain b1 where b1: "store_args (csb_new stack) (memory_args args) = Ok b1"
    "csb_offset b1 = frame_size args" "length (csb_stack b1) = length stack"
    "csb_top b1 = memory_args args @ replicate (length (memory_args args) mod 2) 0"
    using store_args_Ok [of "memory_args args" stack] assms(2) by (auto simp: frame_size_def)
  then obtain b2 where b2: "csb_push b1 (lucet_context_backstop_addr syms) = Ok b2"
    "csb_offset b2 = frame_size args + 1" "length (csb_stack b2) = length stack"
    "csb_top b2 = lucet_context_backstop_addr syms # csb_top b1"
    using csb_push_Ok [of b1] assms(2) by fastforce
  then obtain b3 where b3: "csb_push b2 fptr = Ok b3"
    "csb_offset b3 = frame_size args + 2" "length (csb_stack b3) = length stack"
    "csb_top b3 = fptr # csb_top b2"
    using csb_push_Ok [of b2] assms(2) by fastforce
  then obtain b4 where b4: "csb_push_all b3 (gp_regs_values s) = Ok b4"
    "csb_offset b4 = frame_size args + 8" "length (csb_stack b4) = length stack"
    "csb_top b4 = rev (gp_regs_values s) @ csb_top b3"
    using csb_push_all_Ok [of b3 "gp_regs_values s"] assms(2) gpl by fastforce
  then obtain b5 where b5: "csb_push b4 (lucet_context_bootstrap_addr syms) = Ok b5"
    "csb_offset b5 = frame_size args + 9" "length (csb_stack b5) = length stack"
    "csb_top b5 = lucet_context_bootstrap_addr syms # csb_top b4"
    using csb_push_Ok [of b4] assms(2) by fastforce
  have even: "frame_size args mod 2 = 0" unfolding frame_size_def by presburger
  have top: "csb_top b5 = entry_frame syms fptr args"
    using b1(4) b2(4) b3(4) b4(4) b5(4) gp by (simp add: entry_frame_def int_regs_def)
  have "init_with_callback syms sa ca stack child cb d fptr args =
      Ok ((as_child s)\<lparr>gpr := (gpr (as_child s))\<lparr>
            rsp := sa + 8 * of_nat (length stack - (frame_size args + 9)), rbp := ca\<rparr>\<rparr>, csb_stack b5)"
    using assms(1) s(1) sp b1 b2 b3 b4 b5 even
    by (simp add: init_with_callback_def callback_set_def Let_def)
  moreover have "(as_child s)\<lparr>gpr := g\<rparr> = ?child\<lparr>gpr := g, fpr := fpr (as_child s)\<rparr>" for g
  proof -
    have "as_child s = ?child\<lparr>fpr := fpr (as_child s)\<rparr>" using s(2) by (simp add: args_placed_def)
    then have "(as_child s)\<lparr>gpr := g\<rparr> = ?child\<lparr>fpr := fpr (as_child s), gpr := g\<rparr>" by metis
    then show ?thesis by simp
  qed
  moreover have "fpr ?child = fpr child" by (simp add: callback_set_def)
  ultimately show ?thesis
    using s(2) top b5 by (auto simp: args_placed_def csb_top_def)
qed

subsection \<open>Entering the guest\<close>

lemma int_regs_elems: "\<exists>a b c d e f. int_regs args = [a, b, c, d, e, f]"
proof -
  have "length (int_regs args) = 6" by (simp add: int_regs_def)
  then show ?thesis by (auto simp: eval_nat_numeral length_Suc_conv)
qed

lemma entry_frame_split:
  "\<exists>a b c d e f. int_regs args = [a, b, c, d, e, f] \<and>
     entry_frame syms fptr args =
       [lucet_context_bootstrap_addr syms, f, e, d, c, b, a, fptr, lucet_context_backstop_addr syms] @
       memory_args args @ replicate (length (memory_args args) mod 2) 0"
  using int_regs_elems [of args] by (auto simp: entry_frame_def)

lemma entry_frame_spill:
  assumes "i < length (memory_args args)"
  shows "entry_frame syms fptr args ! (i + 9) = memory_args args ! i"
proof -
  obtain pre where "entry_frame syms fptr args =
      pre @ memory_args args @ replicate (length (memory_args args) mod 2) 0" "length pre = 9"
    using entry_frame_split [of args syms fptr] by fastforce
  with assms show ?thesis by (simp add: nth_append)
qed

definition stack_in_mem :: "u64 \<Rightarrow> u64 list \<Rightarrow> (u64 \<Rightarrow> u64) \<Rightarrow> bool" where
  "stack_in_mem sa stack mem \<longleftrightarrow> (\<forall>i < length stack. mem (sa + 8 * of_nat i) = stack ! i)"

lemma frame_in_mem:
  assumes "stack_in_mem sa stack mem" and "drop (length stack - length fr) stack = fr"
    and "k < length fr" and "length fr \<le> length stack"
  shows "mem (sa + 8 * of_nat (length stack - length fr) + 8 * of_nat k) = fr ! k"
proof -
  let ?d = "length stack - length fr"
  have "?d + k < length stack" using assms(3,4) by simp
  with assms(1) have "mem (sa + 8 * of_nat (?d + k)) = stack ! (?d + k)"
    unfolding stack_in_mem_def by blast
  also have "\<dots> = drop ?d stack ! k" by simp
  also have "\<dots> = fr ! k" by (simp only: assms(2))
  finally show ?thesis by (simp add: algebra_simps)
qed

lemma word_mod16_diff:
  fixes a :: u64
  assumes "a mod 16 = 0"
  shows "(a - 16 * k) mod 16 = 0"
proof -
  have "16 * (a div 16) = a" using assms by (metis add.right_neutral mult_div_mod_eq)
  then have "a - 16 * k = push_bit 4 (a div 16 - k)"
    by (simp add: push_bit_eq_mult algebra_simps)
  moreover have "take_bit 4 (push_bit 4 (a div 16 - k)) = 0" by (simp add: take_bit_push_bit)
  ultimately show ?thesis by (simp add: take_bit_eq_mod)
qed

lemma enter_fresh_context:
  assumes "m_mem m = mem" and "\<And>k. k < frame_size args + 9 \<Longrightarrow>
      mem (rsp (gpr c) + 8 * of_nat k) = entry_frame syms fptr args ! k"
  shows "let m1 = snd (lucet_context_swap frm c m); m2 = lucet_context_bootstrap m1 in
    m_rip m1 = lucet_context_bootstrap_addr syms \<and> m_rip m2 = fptr \<and>
    [rdi (m_gp m2), rsi (m_gp m2), m_rdx m2, m_rcx m2, m_r8 m2, m_r9 m2] = int_regs args \<and>
    m_fp m2 = fpr c \<and> rbp (m_gp m2) = rbp (gpr c) \<and> rsp (m_gp m2) = rsp (gpr c) + 64 \<and>
    m_mem m2 = mem"
proof -
  obtain a b d e f g where r: "int_regs args = [a, b, d, e, f, g]"
    and fr: "entry_frame syms fptr args =
      [lucet_context_bootstrap_addr syms, g, f, e, d, b, a, fptr, lucet_context_backstop_addr syms] @
      memory_args args @ replicate (length (memory_args args) mod 2) 0"
    using entry_frame_split [of args syms fptr] by blast
  let ?sp = "rsp (gpr c)"
  have "mem ?sp = lucet_context_bootstrap_addr syms" "mem (?sp + 8) = g" "mem (?sp + 16) = f"
    "mem (?sp + 24) = e" "mem (?sp + 32) = d" "mem (?sp + 40) = b" "mem (?sp + 48) = a"
    "mem (?sp + 56) = fptr"
    using assms(2) [of 0] assms(2) [of 1] assms(2) [of 2] assms(2) [of 3] assms(2) [of 4]
      assms(2) [of 5] assms(2) [of 6] assms(2) [of 7] by (simp_all add: fr)
  then show ?thesis
    using assms(1) r
    by (simp add: Let_def lucet_context_swap_def lucet_context_bootstrap_def ret_def pop_def add.assoc)
qed

section \<open>Properties\<close>

text \<open>C24: Entering a guest. On an aligned stack with room for the call frame, initialization
  succeeds, and the first swap to the context runs the bootstrap routine, which reaches the guest
  function with the first six integer arguments in \<open>rdi, rsi, rdx, rcx, r8, r9\<close> (zero where there
  are fewer), the first eight floating-point arguments in \<open>xmm0..7\<close>, every other argument in
  memory above the return address in order, the first of them lowest, the return address being the backstop routine, the
  frame 16-byte aligned as the ABI demands, and \<open>rbp\<close> pointing to the context. The diagram of the stack in the comment of
  \<open>Context::init\<close> has the spilled arguments in the opposite order, and no words for the integer registers between the
  function pointer and the bootstrap routine.\<close>

theorem guest_entry_abi:
  assumes "stack_is_aligned sa stack = Ok True" and "frame_size args + 9 \<le> length stack"
  shows "\<exists>c stack'. init_with_callback syms sa ca stack child cb d fptr args = Ok (c, stack') \<and>
    length stack' = length stack \<and>
    (\<forall>m frm. stack_in_mem sa stack' (m_mem m) \<longrightarrow>
      (let m1 = snd (lucet_context_swap frm c m); m2 = lucet_context_bootstrap m1 in
       m_rip m1 = lucet_context_bootstrap_addr syms \<and> m_rip m2 = fptr \<and>
       [rdi (m_gp m2), rsi (m_gp m2), m_rdx m2, m_rcx m2, m_r8 m2, m_r9 m2] = int_regs args \<and>
       take (length (fp_values args)) (fp_list (m_fp m2)) = take 8 (fp_values args) \<and>
       m_mem m2 (rsp (m_gp m2)) = lucet_context_backstop_addr syms \<and>
       (\<forall>i < length (memory_args args).
          m_mem m2 (rsp (m_gp m2) + 8 + 8 * of_nat i) = memory_args args ! i) \<and>
       (rsp (m_gp m2) + 8) mod 16 = 0 \<and> rbp (m_gp m2) = ca))"
proof -
  let ?fs = "frame_size args" and ?fr = "entry_frame syms fptr args"
  obtain c stack' where i: "init_with_callback syms sa ca stack child cb d fptr args = Ok (c, stack')"
    and len: "length stack' = length stack"
    and fr: "drop (length stack - (?fs + 9)) stack' = ?fr"
    and sp: "rsp (gpr c) = sa + 8 * of_nat (length stack - (?fs + 9))" and bp: "rbp (gpr c) = ca"
    and fp: "fp_list (fpr c) = take 8 (fp_values args) @ drop (length (fp_values args)) (fp_list (fpr child))"
    using init_with_callback_Ok [OF assms] by blast
  have algn: "(rsp (gpr c) + 72) mod 16 = 0"
  proof -
    have "even ?fs" unfolding frame_size_def by presburger
    then obtain h where h: "?fs = 2 * h" by (rule evenE)
    have "(sa + 8 * of_nat (length stack)) mod 16 = 0"
      using assms(1) by (cases "length stack") (simp_all add: stack_is_aligned_def Let_def algebra_simps)
    moreover have "rsp (gpr c) + 72 = sa + 8 * of_nat (length stack) - 16 * of_nat h"
      using assms(2) h by (simp add: sp of_nat_diff algebra_simps)
    ultimately show ?thesis by (simp add: word_mod16_diff)
  qed
  have ent: "let m1 = snd (lucet_context_swap frm c m); m2 = lucet_context_bootstrap m1 in
       m_rip m1 = lucet_context_bootstrap_addr syms \<and> m_rip m2 = fptr \<and>
       [rdi (m_gp m2), rsi (m_gp m2), m_rdx m2, m_rcx m2, m_r8 m2, m_r9 m2] = int_regs args \<and>
       take (length (fp_values args)) (fp_list (m_fp m2)) = take 8 (fp_values args) \<and>
       m_mem m2 (rsp (m_gp m2)) = lucet_context_backstop_addr syms \<and>
       (\<forall>i < length (memory_args args).
          m_mem m2 (rsp (m_gp m2) + 8 + 8 * of_nat i) = memory_args args ! i) \<and>
       (rsp (m_gp m2) + 8) mod 16 = 0 \<and> rbp (m_gp m2) = ca"
    if mem: "stack_in_mem sa stack' (m_mem m)" for m frm
  proof -
    have rd: "m_mem m (rsp (gpr c) + 8 * of_nat k) = ?fr ! k" if "k < ?fs + 9" for k
      using frame_in_mem [OF mem, of ?fr k] that fr len assms(2) by (simp add: length_entry_frame sp)
    have spill: "m_mem m (rsp (gpr c) + 72 + 8 * of_nat i) = memory_args args ! i"
      if "i < length (memory_args args)" for i
      using rd [of "i + 9"] that
      by (simp add: entry_frame_spill frame_size_def algebra_simps)
    have bs: "m_mem m (rsp (gpr c) + 64) = lucet_context_backstop_addr syms"
      using rd [of 8] entry_frame_split [of args syms fptr] by auto
    show ?thesis
      using enter_fresh_context [OF refl rd] spill bs algn bp fp
      by (simp add: Let_def algebra_simps min_def)
  qed
  show ?thesis using i len ent by blast
qed

definition demo_syms :: context_syms where
  "demo_syms = \<lparr>lucet_context_bootstrap_addr = 0x400000, lucet_context_backstop_addr = 0x400100\<rparr>"

definition demo_args :: "val list" where
  "demo_args = map VU64 [1, 2, 3, 4, 5, 6, 7] @ [VF64 8]"

definition machine_with_mem :: "(u64 \<Rightarrow> u64) \<Rightarrow> machine" where
  "machine_with_mem mem = \<lparr>m_rip = 0, m_gp = gp_regs_new, m_fp = fp_regs_new, m_rax = 0, m_rdx = 0,
     m_rcx = 0, m_r8 = 0, m_r9 = 0, m_mem = mem\<rparr>"

lemma stack_in_mem_exists:
  assumes "length stack \<le> 16"
  shows "stack_in_mem sa stack (\<lambda>a. stack ! unat ((a - sa) div 8))"
proof -
  have "unat ((8 * of_nat i :: u64) div 8) = i" if "i < length stack" for i
  proof -
    have i: "i < 16" using that assms by simp
    then have "unat (of_nat i :: u64) = i" by (simp add: unat_of_nat)
    then have "unat (8 * of_nat i :: u64) = 8 * i" using i by (simp add: unat_mult_small)
    then show ?thesis by (simp add: unat_div)
  qed
  then show ?thesis by (simp add: stack_in_mem_def)
qed

theorem guest_entry_abi_witness:
  "\<exists>c stack' m2. init_with_callback demo_syms 0x1000 0x2000 (replicate 16 0) context_new
      DefaultBackstop 0 0xABC demo_args = Ok (c, stack') \<and>
    m2 = lucet_context_bootstrap (snd (lucet_context_swap context_new c
      (machine_with_mem (\<lambda>a. stack' ! unat ((a - 0x1000) div 8))))) \<and>
    m_rip m2 = 0xABC \<and>
    [rdi (m_gp m2), rsi (m_gp m2), m_rdx m2, m_rcx m2, m_r8 m2, m_r9 m2] = [1, 2, 3, 4, 5, 6] \<and>
    m_mem m2 (rsp (m_gp m2) + 8) = 7 \<and> (rsp (m_gp m2) + 8) mod 16 = 0"
proof -
  have al: "stack_is_aligned 0x1000 (replicate 16 0) = Ok True"
    by (simp add: stack_is_aligned_def)
  have ma: "memory_args demo_args = [7]" and ir: "int_regs demo_args = [1, 2, 3, 4, 5, 6]"
    by (simp_all add: memory_args_def int_regs_def demo_args_def is_spilled_def gp_values_def
        fp_values_def List.map_filter_def upt_rec)
  then have sz: "frame_size demo_args + 9 \<le> length (replicate 16 (0 :: u64))"
    by (simp add: frame_size_def)
  obtain c stack' where
    i: "init_with_callback demo_syms 0x1000 0x2000 (replicate 16 0) context_new DefaultBackstop 0
        0xABC demo_args = Ok (c, stack')" "length stack' = 16"
    and e: "\<And>m frm. stack_in_mem 0x1000 stack' (m_mem m) \<Longrightarrow>
      (let m1 = snd (lucet_context_swap frm c m); m2 = lucet_context_bootstrap m1 in
       m_rip m2 = 0xABC \<and>
       [rdi (m_gp m2), rsi (m_gp m2), m_rdx m2, m_rcx m2, m_r8 m2, m_r9 m2] = int_regs demo_args \<and>
       (\<forall>i < length (memory_args demo_args).
          m_mem m2 (rsp (m_gp m2) + 8 + 8 * of_nat i) = memory_args demo_args ! i) \<and>
       (rsp (m_gp m2) + 8) mod 16 = 0)"
    using guest_entry_abi [OF al sz, of demo_syms "0x2000" context_new DefaultBackstop 0 "0xABC"]
    by (auto simp: Let_def)
  let ?m = "machine_with_mem (\<lambda>a. stack' ! unat ((a - 0x1000) div 8))"
  have "stack_in_mem 0x1000 stack' (m_mem ?m)"
    using stack_in_mem_exists [of stack'] i(2) by (simp add: machine_with_mem_def)
  from e [OF this, of context_new] i(1) ma ir show ?thesis
    by (auto simp: Let_def)
qed

end
