(* ===== verification/Os_Memory.thy ===== *)
theory Os_Memory
  imports Runtime_Error
begin

text \<open>
  The process memory the runtime manages and the system calls it manages it with. Memory is a byte
  and a protection for every 64-bit address. The four system calls are arguments of every definition
  that uses them (\<open>sys_ops\<close>); the locale \<open>os_memory\<close> states what \<open>mmap(2)\<close>,
  \<open>mprotect(2)\<close>, \<open>madvise(2)\<close> and \<open>munmap(2)\<close> document for private anonymous mappings of
  whole pages (a call on other ranges is left open),
  and \<open>linux_sys\<close> is an instance of it with a chosen set of failing calls.
\<close>

section \<open>Definitions\<close>

datatype prot = Unmapped | ProtNone | ProtReadWrite

record memory =
  mem_byte :: "u64 \<Rightarrow> u8"
  mem_prot :: "u64 \<Rightarrow> prot"

text \<open>Membership in \<open>[base, base + len)\<close>, also for a range that ends at the top of memory.\<close>

definition in_range :: "u64 \<Rightarrow> usize \<Rightarrow> u64 \<Rightarrow> bool" where
  "in_range base len a = (a - base < len)"

definition set_prot :: "u64 \<Rightarrow> usize \<Rightarrow> prot \<Rightarrow> memory \<Rightarrow> memory" where
  "set_prot base len p m = m\<lparr>mem_prot := (\<lambda>a. if in_range base len a then p else mem_prot m a)\<rparr>"

definition zero_range :: "u64 \<Rightarrow> usize \<Rightarrow> memory \<Rightarrow> memory" where
  "zero_range base len m = m\<lparr>mem_byte := (\<lambda>a. if in_range base len a then 0 else mem_byte m a)\<rparr>"

definition write_bytes :: "u64 \<Rightarrow> u8 list \<Rightarrow> memory \<Rightarrow> memory" where
  "write_bytes base bs m =
     m\<lparr>mem_byte := (\<lambda>a. if unat (a - base) < length bs then bs ! unat (a - base) else mem_byte m a)\<rparr>"

definition read_bytes :: "u64 \<Rightarrow> nat \<Rightarrow> memory \<Rightarrow> u8 list" where
  "read_bytes base n m = map (\<lambda>i. mem_byte m (base + of_nat i)) [0..<n]"

text \<open>A store by the host: a segmentation fault unless every byte is writable.\<close>

definition store_bytes :: "u64 \<Rightarrow> u8 list \<Rightarrow> memory \<Rightarrow> (error, memory) rresult" where
  "store_bytes base bs m =
     (if list_all (\<lambda>i. mem_prot m (base + of_nat i) = ProtReadWrite) [0..<length bs]
      then Ok (write_bytes base bs m) else Panic ''segmentation fault'')"

text \<open>The system calls. \<open>None\<close> or \<open>False\<close> is a call that fails.\<close>

record sys_ops =
  sys_mmap :: "usize \<Rightarrow> memory \<Rightarrow> (u64 \<times> memory) option"
  sys_munmap :: "u64 \<Rightarrow> usize \<Rightarrow> memory \<Rightarrow> bool \<times> memory"
  sys_mprotect :: "u64 \<Rightarrow> usize \<Rightarrow> prot \<Rightarrow> memory \<Rightarrow> bool \<times> memory"
  sys_madvise :: "u64 \<Rightarrow> usize \<Rightarrow> memory \<Rightarrow> bool \<times> memory"

text \<open>A \<open>nix\<close> error becomes an internal error through the question mark operator.\<close>

definition nix_error :: error where
  "nix_error = InternalError ''nix error''"

definition of_sys :: "bool \<times> memory \<Rightarrow> unit run_res \<times> memory" where
  "of_sys r = (if fst r then Ok () else Err nix_error, snd r)"

text \<open>\<open>.expect(...)\<close> on the result of a system call.\<close>

definition expect_sys :: "string \<Rightarrow> bool \<times> memory \<Rightarrow> unit run_res \<times> memory" where
  "expect_sys msg r = (if fst r then Ok () else Panic msg, snd r)"

section \<open>What the system calls promise\<close>

locale os_memory =
  fixes sys :: sys_ops
  assumes mprotect_ok: "page_aligned a \<Longrightarrow> page_aligned n \<Longrightarrow>
      sys_mprotect sys a n p m = (True, m') \<Longrightarrow> m' = set_prot a n p m"
    and mprotect_fail: "sys_mprotect sys a n p m = (False, m') \<Longrightarrow> m' = m"
    and madvise_ok: "page_aligned a \<Longrightarrow> page_aligned n \<Longrightarrow>
      sys_madvise sys a n m = (True, m') \<Longrightarrow> m' = zero_range a n m"
    and madvise_fail: "sys_madvise sys a n m = (False, m') \<Longrightarrow> m' = m"
    and munmap_ok: "page_aligned a \<Longrightarrow> page_aligned n \<Longrightarrow>
      sys_munmap sys a n m = (True, m') \<Longrightarrow> m' = set_prot a n Unmapped m"
    and munmap_fail: "sys_munmap sys a n m = (False, m') \<Longrightarrow> m' = m"
    and mmap_prot: "page_aligned n \<Longrightarrow> sys_mmap sys n m = Some (a, m') \<Longrightarrow>
      m' = zero_range a n (set_prot a n ProtNone m)"
    and mmap_fresh: "sys_mmap sys n m = Some (a, m') \<Longrightarrow> in_range a n b \<Longrightarrow> mem_prot m b = Unmapped"
    and mmap_page: "sys_mmap sys n m = Some (a, m') \<Longrightarrow> page_aligned a"
    and mmap_fits: "sys_mmap sys n m = Some (a, m') \<Longrightarrow> 0 < unat a \<and> unat a + unat n < 2 ^ 63"
begin

lemma mprotect_cases:
  assumes "page_aligned a" and "page_aligned n"
  obtains "sys_mprotect sys a n p m = (True, set_prot a n p m)" | "sys_mprotect sys a n p m = (False, m)"
  using mprotect_ok [OF assms] mprotect_fail by (metis (full_types) prod.collapse)

lemma madvise_cases:
  assumes "page_aligned a" and "page_aligned n"
  obtains "sys_madvise sys a n m = (True, zero_range a n m)" | "sys_madvise sys a n m = (False, m)"
  using madvise_ok [OF assms] madvise_fail by (metis (full_types) prod.collapse)

lemma munmap_cases:
  assumes "page_aligned a" and "page_aligned n"
  obtains "sys_munmap sys a n m = (True, set_prot a n Unmapped m)" | "sys_munmap sys a n m = (False, m)"
  using munmap_ok [OF assms] munmap_fail by (metis (full_types) prod.collapse)

end

section \<open>A concrete operating system\<close>

text \<open>
  The calls for which \<open>fails\<close> holds of their name, address and length fail. \<open>mmap\<close> hands out
  the address \<open>base\<close> when the range there is free.
\<close>

definition linux_sys :: "u64 \<Rightarrow> (string \<Rightarrow> u64 \<Rightarrow> usize \<Rightarrow> bool) \<Rightarrow> sys_ops" where
  "linux_sys base fails = \<lparr>
     sys_mmap = (\<lambda>n m.
       if page_aligned base \<and> 0 < unat base \<and> unat base + unat n < 2 ^ 63 \<and> \<not> fails ''mmap'' base n \<and>
          (\<forall>b. in_range base n b \<longrightarrow> mem_prot m b = Unmapped)
       then Some (base, zero_range base n (set_prot base n ProtNone m)) else None),
     sys_munmap = (\<lambda>a n m. if fails ''munmap'' a n then (False, m) else (True, set_prot a n Unmapped m)),
     sys_mprotect = (\<lambda>a n p m. if fails ''mprotect'' a n then (False, m) else (True, set_prot a n p m)),
     sys_madvise = (\<lambda>a n m. if fails ''madvise'' a n then (False, m) else (True, zero_range a n m))\<rparr>"

interpretation linux: os_memory "linux_sys base fails"
  by unfold_locales (auto simp: linux_sys_def split: if_splits)

section \<open>Lemmas\<close>

lemma mem_set_prot [simp]:
  "mem_byte (set_prot b n p m) = mem_byte m"
  "mem_prot (set_prot b n p m) a = (if in_range b n a then p else mem_prot m a)"
  by (simp_all add: set_prot_def)

lemma mem_zero_range [simp]:
  "mem_prot (zero_range b n m) = mem_prot m"
  "mem_byte (zero_range b n m) a = (if in_range b n a then 0 else mem_byte m a)"
  by (simp_all add: zero_range_def)

lemma mem_write_bytes [simp]:
  "mem_prot (write_bytes b bs m) = mem_prot m"
  "mem_byte (write_bytes b bs m) a =
     (if unat (a - b) < length bs then bs ! unat (a - b) else mem_byte m a)"
  by (simp_all add: write_bytes_def)

lemma in_range_offset: "unat i < unat n \<Longrightarrow> in_range b n (b + i)"
  by (simp add: in_range_def word_less_nat_alt)

lemma in_range_nat:
  assumes "unat b + unat n \<le> 2 ^ 64"
  shows "in_range b n a \<longleftrightarrow> unat b \<le> unat a \<and> unat a < unat b + unat n"
proof (cases "b \<le> a")
  case True
  then show ?thesis by (auto simp: in_range_def word_less_nat_alt word_le_nat_alt unat_sub)
next
  case False
  then have lt: "unat a < unat b" by (simp add: word_le_nat_alt)
  have "a - b = a + (- b)" by simp
  have "unat (a - b) = 2 ^ 64 + unat a - unat b"
    using lt by (simp add: unat_sub_if' word_le_nat_alt)
  with lt assms show ?thesis by (auto simp: in_range_def word_less_nat_alt)
qed

lemma store_bytes_Ok:
  "store_bytes b bs m = Ok m' \<longleftrightarrow>
     m' = write_bytes b bs m \<and> (\<forall>i < length bs. mem_prot m (b + of_nat i) = ProtReadWrite)"
  by (auto simp: store_bytes_def list_all_iff)

lemma length_read_bytes [simp]: "length (read_bytes b n m) = n"
  by (simp add: read_bytes_def)

lemma nth_read_bytes [simp]: "i < n \<Longrightarrow> read_bytes b n m ! i = mem_byte m (b + of_nat i)"
  by (simp add: read_bytes_def)

lemma unat_diff_of_nat:
  assumes "c + l \<le> 2 ^ 64" and "0 < l"
  shows "unat (x - of_nat c :: u64) < l \<longleftrightarrow> c \<le> unat x \<and> unat x < c + l"
    and "c \<le> unat x \<Longrightarrow> unat (x - of_nat c) = unat x - c"
proof -
  have c: "unat (of_nat c :: u64) = c" using assms by (simp add: unat_of_nat)
  show 1: "unat (x - of_nat c) = unat x - c" if "c \<le> unat x"
    using that c by (simp add: unat_sub word_le_nat_alt)
  show "unat (x - of_nat c :: u64) < l \<longleftrightarrow> c \<le> unat x \<and> unat x < c + l"
  proof (cases "c \<le> unat x")
    case True
    with 1 show ?thesis by auto
  next
    case False
    then have "unat (x - of_nat c) = 2 ^ 64 + unat x - c"
      using c by (simp add: unat_sub_if' word_le_nat_alt)
    with False assms show ?thesis by auto
  qed
qed

end
