(* ===== verification/Alloc.thy ===== *)
theory Alloc
  imports Os_Memory Module_Interface
begin

text \<open>
  \<open>lucet-runtime-internals/src/alloc/mod.rs\<close>, \<open>ModuleInternal::validate_runtime_spec\<close>
  (\<open>module.rs\<close>) and the trait \<open>RegionInternal\<close> (\<open>region.rs\<close>): limits, slots, the
  allocation that backs an instance and its operations. A region is the record of the methods
  an \<open>Alloc\<close> calls (\<open>region_ops\<close>); what an \<open>Alloc\<close> needs of it is the locale
  \<open>region_internal\<close>. The lemmas show that the address classification follows the slot's
  layout, and that heap growth keeps the allocation's invariant, rounds to pages, respects every
  limit, and changes nothing when it fails.
\<close>

section \<open>Limits\<close>

record limits =
  heap_memory_size :: usize
  heap_address_space_size :: usize
  stack_size :: usize
  hostcall_reservation :: usize
  globals_size :: usize
  signal_stack_size :: usize

definition instance_heap_offset :: usize where
  "instance_heap_offset = 1 * host_page_size"

text \<open>\<open>SIGSTKSZ\<close> and \<open>MINSIGSTKSZ\<close> of \<open>libc\<close> on Linux, for a release build.\<close>

definition DEFAULT_SIGNAL_STACK_SIZE :: usize where
  "DEFAULT_SIGNAL_STACK_SIZE = 8192"

definition MINSIGSTKSZ :: usize where
  "MINSIGSTKSZ = 2048"

definition limits_default :: limits where
  "limits_default = \<lparr>heap_memory_size = 16 * 64 * 1024, heap_address_space_size = 0x200000000,
     stack_size = 128 * 1024, hostcall_reservation = 32 * 1024, globals_size = 4096,
     signal_stack_size = DEFAULT_SIGNAL_STACK_SIZE\<rparr>"

fun try_fold_checked_add :: "usize \<Rightarrow> usize list \<Rightarrow> usize option" where
  "try_fold_checked_add acc [] = Some acc"
| "try_fold_checked_add acc (x # xs) =
     (case checked_add acc x of Some a \<Rightarrow> try_fold_checked_add a xs | None \<Rightarrow> None)"

definition total_memory_size :: "limits \<Rightarrow> usize run_res" where
  "total_memory_size l =
     (case try_fold_checked_add 0
        [instance_heap_offset, heap_address_space_size l, host_page_size, stack_size l,
         globals_size l, host_page_size, signal_stack_size l] of
        Some n \<Rightarrow> Ok n
      | None \<Rightarrow> Panic ''total_memory_size doesn't overflow'')"

definition limits_validate :: "limits \<Rightarrow> unit run_res" where
  "limits_validate l =
     (if heap_memory_size l mod host_page_size \<noteq> 0 then
        Err (InvalidArgument ''memory size must be a multiple of host page size'')
      else if heap_address_space_size l mod host_page_size \<noteq> 0 then
        Err (InvalidArgument ''address space size must be a multiple of host page size'')
      else if heap_memory_size l > heap_address_space_size l then
        Err (InvalidArgument ''address space size must be at least as large as memory size'')
      else if stack_size l mod host_page_size \<noteq> 0 then
        Err (InvalidArgument ''stack size must be a multiple of host page size'')
      else if globals_size l mod host_page_size \<noteq> 0 then
        Err (InvalidArgument ''globals size must be a multiple of host page size'')
      else if stack_size l \<le> 0 then
        Err (InvalidArgument ''stack size must be greater than 0'')
      else if hostcall_reservation l > stack_size l then
        Err (InvalidArgument ''hostcall reserved space must not be greater than stack size'')
      else if signal_stack_size l mod host_page_size \<noteq> 0 then
        Err (InvalidArgument ''signal stack size must be a multiple of host page size'')
      else Ok ())"

definition validate_sigstack_size :: "usize \<Rightarrow> unit run_res" where
  "validate_sigstack_size n =
     (if n < MINSIGSTKSZ then
        Err (InvalidArgument ''signal stack size must be at least MINSIGSTKSZ (defined in <signal.h>)'')
      else Ok ())"

section \<open>Slots and allocations\<close>

text \<open>The weak pointer to the region is the region's identity.\<close>

record slot =
  slot_start :: u64
  slot_heap :: u64
  slot_stack :: u64
  slot_globals :: u64
  slot_sigstack :: u64
  slot_limits :: limits
  slot_region :: nat

definition stack_top :: "slot \<Rightarrow> u64" where
  "stack_top s = slot_stack s + stack_size (slot_limits s)"

text \<open>\<open>gen_range(0, n)\<close> of the random generator is an argument.\<close>

datatype alloc_strategy = Linear | Random | CustomRandom

definition alloc_strategy_next :: "(nat \<Rightarrow> nat) \<Rightarrow> alloc_strategy \<Rightarrow> nat \<Rightarrow> nat \<Rightarrow> nat run_res" where
  "alloc_strategy_next gen_range strategy free_slots cap =
     (if free_slots = 0 then Err (RegionFull cap)
      else (case strategy of
              Linear \<Rightarrow> Ok (free_slots - 1)
            | Random \<Rightarrow> Ok (gen_range free_slots)
            | CustomRandom \<Rightarrow> Ok (gen_range free_slots)))"

record alloc =
  heap_accessible_size :: usize
  heap_inaccessible_size :: usize
  heap_memory_size_limit :: usize
  alloc_slot_opt :: "slot option"

text \<open>\<open>slot()\<close> panics once the slot has been taken out; its callers below are methods of a live
  allocation.\<close>

definition alloc_slot :: "alloc \<Rightarrow> slot run_res" where
  "alloc_slot a =
     (case alloc_slot_opt a of
        Some s \<Rightarrow> Ok s
      | None \<Rightarrow> Panic ''alloc missing its slot before drop'')"

datatype addr_location =
    Heap
  | InaccessibleHeap
  | StackGuard
  | Stack
  | Globals
  | SigStackGuard
  | SigStack
  | Unknown

fun is_fault_fatal :: "addr_location \<Rightarrow> bool" where
  "is_fault_fatal SigStackGuard = True"
| "is_fault_fatal Unknown = True"
| "is_fault_fatal _ = False"

definition addr_location :: "alloc \<Rightarrow> u64 \<Rightarrow> addr_location run_res" where
  "addr_location al addr =
     rbind (alloc_slot al) (\<lambda>s.
     let heap_start = slot_heap s;
         heap_inaccessible_start = heap_start + heap_accessible_size al;
         heap_inaccessible_end = heap_start + heap_address_space_size (slot_limits s)
     in if addr \<ge> heap_start \<and> addr < heap_inaccessible_start then Ok Heap
     else if addr \<ge> heap_inaccessible_start \<and> addr < heap_inaccessible_end then Ok InaccessibleHeap
     else
     let stack_start = slot_stack s;
         stack_end = stack_start + stack_size (slot_limits s);
         stack_guard_start = stack_start - host_page_size
     in if addr \<ge> stack_guard_start \<and> addr < stack_start then Ok StackGuard
     else if addr \<ge> stack_start \<and> addr < stack_end then Ok Stack
     else
     let globals_start = slot_globals s;
         globals_end = globals_start + globals_size (slot_limits s)
     in if addr \<ge> globals_start \<and> addr < globals_end then Ok Globals
     else
     let sigstack_start = slot_sigstack s;
         sigstack_end = sigstack_start + signal_stack_size (slot_limits s);
         sigstack_guard_start = sigstack_start - host_page_size
     in if addr \<ge> sigstack_guard_start \<and> addr < sigstack_start then Ok SigStackGuard
     else if addr \<ge> sigstack_start \<and> addr < sigstack_end then Ok SigStack
     else Ok Unknown)"

definition mem_in_heap :: "alloc \<Rightarrow> u64 \<Rightarrow> usize \<Rightarrow> bool run_res" where
  "mem_in_heap al ptr len =
     rbind (alloc_slot al) (\<lambda>s.
     let start = ptr; endp = start + len;
         heap_start = slot_heap s; heap_end = heap_start + heap_accessible_size al
     in Ok (start \<le> endp \<and> start \<ge> heap_start \<and> start < heap_end \<and>
            endp \<ge> heap_start \<and> endp \<le> heap_end))"

text \<open>The typed heap and stack slices: the address and the number of elements of each.\<close>

definition heap_slice_of_width :: "usize \<Rightarrow> alloc \<Rightarrow> (u64 \<times> usize) run_res" where
  "heap_slice_of_width w al =
     rbind (alloc_slot al) (\<lambda>s.
     if slot_heap s mod w \<noteq> 0 then Panic ''heap is aligned''
     else if heap_accessible_size al mod w \<noteq> 0 then Panic ''heap size is multiple of the width''
     else Ok (slot_heap s, heap_accessible_size al div w))"

definition heap_u32 :: "alloc \<Rightarrow> (u64 \<times> usize) run_res" where
  "heap_u32 = heap_slice_of_width 4"

definition heap_u64 :: "alloc \<Rightarrow> (u64 \<times> usize) run_res" where
  "heap_u64 = heap_slice_of_width 8"

definition stack_u64_mut :: "alloc \<Rightarrow> (u64 \<times> usize) run_res" where
  "stack_u64_mut al =
     rbind (alloc_slot al) (\<lambda>s.
     if slot_stack s mod 8 \<noteq> 0 then Panic ''stack is 8-byte aligned''
     else if stack_size (slot_limits s) mod 8 \<noteq> 0 then Panic ''stack size is multiple of 8-bytes''
     else Ok (slot_stack s, stack_size (slot_limits s) div 8))"

definition globals_slice :: "alloc \<Rightarrow> (u64 \<times> usize) run_res" where
  "globals_slice al =
     rbind (alloc_slot al) (\<lambda>s. Ok (slot_globals s, globals_size (slot_limits s) div 8))"

section \<open>Regions, seen from an allocation\<close>

text \<open>The methods of \<open>RegionInternal\<close> an \<open>Alloc\<close> calls. The memory is passed along; it may have
  changed also when the result is an error.\<close>

record region_ops =
  ro_expand_heap :: "slot \<Rightarrow> u32 \<Rightarrow> u32 \<Rightarrow> memory \<Rightarrow> unit run_res \<times> memory"
  ro_reset_heap :: "alloc \<Rightarrow> module_ops \<Rightarrow> memory \<Rightarrow> unit run_res \<times> alloc \<times> memory"

section \<open>Growing the heap\<close>

definition expand_heap ::
    "region_ops \<Rightarrow> alloc \<Rightarrow> u32 \<Rightarrow> module_ops \<Rightarrow> memory \<Rightarrow> u32 run_res \<times> alloc \<times> memory" where
  "expand_heap region al expand_bytes module mem =
     (case alloc_slot al of Panic e \<Rightarrow> (Panic e, al, mem) | Err e \<Rightarrow> (Err e, al, mem) | Ok s \<Rightarrow>
      if expand_bytes = 0 then (Ok (ucast (heap_accessible_size al)), al, mem)
      else
      let page = (ucast host_page_size :: u32) in
      if ucast (heap_accessible_size al) mod page \<noteq> 0 then
        (Err (InternalError ''heap is not page-aligned; this is a bug''), al, mem)
      else if expand_bytes > - 1 - page - 1 then
        (Err (LimitsExceeded ''expanded heap would overflow address space''), al, mem)
      else
      let expand_pagealigned = ((expand_bytes + page - 1) div page) * page;
          expand_size = (ucast expand_pagealigned :: usize) in
      if expand_size > heap_inaccessible_size al then
        (Err (LimitsExceeded ''expanded heap would overflow addressable memory''), al, mem)
      else
      let guard_remaining = heap_inaccessible_size al - expand_size in
      (case mo_heap_spec module of
         None \<Rightarrow> (Err (NoLinearMemory ''cannot expand heap''), al, mem)
       | Some hs \<Rightarrow>
           if guard_remaining < guard_size hs then
             (Err (LimitsExceeded ''expansion would leave guard memory too small''), al, mem)
           else if (case max_size hs of
                      Some mx \<Rightarrow> heap_accessible_size al + expand_size > mx
                    | None \<Rightarrow> False) then
             (Err (LimitsExceeded ''expansion would exceed module-specified heap limit''), al, mem)
           else if heap_accessible_size al + expand_size > heap_memory_size_limit al then
             (Err (LimitsExceeded ''expansion would exceed runtime-specified heap limit''), al, mem)
           else
             let newly_accessible = heap_accessible_size al in
             (case ro_expand_heap region s (ucast newly_accessible) expand_pagealigned mem of
                (Ok _, mem) \<Rightarrow>
                  (Ok (ucast newly_accessible),
                   al\<lparr>heap_accessible_size := heap_accessible_size al + expand_size,
                      heap_inaccessible_size := heap_inaccessible_size al - expand_size\<rparr>, mem)
              | (Err e, mem) \<Rightarrow> (Err e, al, mem)
              | (Panic e, mem) \<Rightarrow> (Panic e, al, mem))))"

definition alloc_reset_heap ::
    "region_ops \<Rightarrow> alloc \<Rightarrow> module_ops \<Rightarrow> memory \<Rightarrow> unit run_res \<times> alloc \<times> memory" where
  "alloc_reset_heap region al module mem = ro_reset_heap region al module mem"

section \<open>Checking a module against the limits (module.rs)\<close>

definition validate_runtime_spec :: "module_ops \<Rightarrow> limits \<Rightarrow> usize \<Rightarrow> unit run_res" where
  "validate_runtime_spec module l instance_heap_limit =
     (if instance_heap_limit > heap_memory_size l then
        Err (InvalidArgument ''heap memory size requested for instance is larger than slot allows'')
      else
      let mem_size = min (heap_memory_size l) instance_heap_limit in
      rbind (case mo_heap_spec module of
         None \<Rightarrow> Ok ()
       | Some hs \<Rightarrow>
           if reserved_size hs > 0x100000000 \<or> guard_size hs > 0x100000000 then
             Err (lucet_incorrect_module ''heap spec sizes would overflow'')
           else if reserved_size hs + guard_size hs > heap_address_space_size l then
             Err (LimitsExceeded ''heap spec reserved and guard size'')
           else if initial_size hs > mem_size then
             Err (LimitsExceeded ''heap spec initial size'')
           else if initial_size hs > reserved_size hs then
             Err (lucet_incorrect_module ''initial heap size greater than reserved size'')
           else Ok ())
      (\<lambda>_.
      if initial_globals_size module > unat (globals_size l) then
        Err (LimitsExceeded ''globals exceed limits'')
      else Ok ()))"

section \<open>Invariants\<close>

text \<open>The memory a slot needs, as a number, and the layout \<open>create_slot\<close> gives it.\<close>

definition slot_bytes :: "limits \<Rightarrow> nat" where
  "slot_bytes l = 4096 + unat (heap_address_space_size l) + 4096 + unat (stack_size l) +
     unat (globals_size l) + 4096 + unat (signal_stack_size l)"

definition slot_wf :: "slot \<Rightarrow> bool" where
  "slot_wf s \<longleftrightarrow>
     limits_validate (slot_limits s) = Ok () \<and> page_aligned (slot_start s) \<and>
     unat (slot_start s) + slot_bytes (slot_limits s) < 2 ^ 64 \<and>
     slot_heap s = slot_start s + 4096 \<and>
     slot_stack s = slot_heap s + heap_address_space_size (slot_limits s) + 4096 \<and>
     slot_globals s = slot_stack s + stack_size (slot_limits s) \<and>
     slot_sigstack s = slot_globals s + globals_size (slot_limits s) + 4096"

definition alloc_inv :: "alloc \<Rightarrow> bool" where
  "alloc_inv al \<longleftrightarrow>
     (case alloc_slot_opt al of
        None \<Rightarrow> False
      | Some s \<Rightarrow> slot_wf s \<and>
          unat (heap_accessible_size al) + unat (heap_inaccessible_size al) =
            unat (heap_address_space_size (slot_limits s)) \<and>
          heap_accessible_size al \<le> heap_memory_size_limit al \<and>
          heap_memory_size_limit al \<le> heap_memory_size (slot_limits s))"

text \<open>What a region promises to an allocation: growing the heap makes exactly the requested range
  accessible and keeps every byte, and a failed call changes nothing.\<close>

definition heap_addr :: "slot \<Rightarrow> u32 \<Rightarrow> u64" where
  "heap_addr s off = slot_heap s + ucast off"

locale region_internal =
  fixes region :: region_ops
  assumes expand_ok: "page_aligned (heap_addr s st) \<Longrightarrow> page_aligned (ucast len) \<Longrightarrow>
      ro_expand_heap region s st len m = (Ok u, m') \<Longrightarrow>
      m' = set_prot (heap_addr s st) (ucast len) ProtReadWrite m"
    and expand_err: "ro_expand_heap region s st len m = (Err e, m') \<Longrightarrow> m' = m"
    and expand_no_panic: "ro_expand_heap region s st len m \<noteq> (Panic p, m')"
    and reset_keeps: "ro_reset_heap region al mo m = (r, al', m') \<Longrightarrow>
      alloc_slot_opt al' = alloc_slot_opt al \<and> heap_memory_size_limit al' = heap_memory_size_limit al"
    and reset_ok: "ro_reset_heap region al mo m = (Ok u, al', m') \<Longrightarrow>
      alloc_slot_opt al = Some s \<Longrightarrow>
      heap_accessible_size al' = (case mo_heap_spec mo of Some hs \<Rightarrow> initial_size hs | None \<Rightarrow> 0) \<and>
      heap_inaccessible_size al' =
        heap_address_space_size (slot_limits s) - heap_accessible_size al'"

text \<open>The initial heap of a module, and what a region promises in addition to an instance that is reset: whether the
  call succeeds or not, the allocation stays well formed and no protection outside the heap changes.\<close>

definition heap_initial_size :: "module_ops \<Rightarrow> usize" where
  "heap_initial_size module =
     (case mo_heap_spec module of Some h \<Rightarrow> initial_size h | None \<Rightarrow> 0)"

locale region_reset = region_internal +
  assumes reset_frame: "alloc_inv al \<Longrightarrow> alloc_slot_opt al = Some s \<Longrightarrow>
      heap_initial_size mo \<le> heap_memory_size_limit al \<Longrightarrow> page_aligned (heap_initial_size mo) \<Longrightarrow>
      ro_reset_heap region al mo m = (r, al', m') \<Longrightarrow>
      alloc_inv al' \<and> (\<forall>a. \<not> in_range (slot_heap s) (heap_address_space_size (slot_limits s)) a \<longrightarrow>
        mem_prot m' a = mem_prot m a)"

section \<open>Lemmas\<close>

lemma validate_Ok_iff:
  "limits_validate l = Ok () \<longleftrightarrow>
     heap_memory_size l mod host_page_size = 0 \<and> heap_address_space_size l mod host_page_size = 0 \<and>
     heap_memory_size l \<le> heap_address_space_size l \<and> stack_size l mod host_page_size = 0 \<and>
     globals_size l mod host_page_size = 0 \<and> 0 < stack_size l \<and>
     hostcall_reservation l \<le> stack_size l \<and> signal_stack_size l mod host_page_size = 0"
proof -
  have "(stack_size l \<le> 0) = (\<not> 0 < stack_size l)" by (simp add: not_less)
  then show ?thesis
    unfolding limits_validate_def not_less [symmetric] by (simp split del: if_split split: if_splits)
qed

lemma try_fold_checked_add_Some:
  "try_fold_checked_add acc xs = Some n \<longleftrightarrow>
     unat acc + sum_list (map unat xs) < 2 ^ 64 \<and> unat n = unat acc + sum_list (map unat xs)"
proof (induction xs arbitrary: acc)
  case Nil
  then show ?case by (auto simp: unat_eqI)
next
  case (Cons x xs)
  show ?case
  proof (cases "checked_add acc x")
    case None
    then show ?thesis by (auto simp: checked_add_def split: if_splits)
  next
    case (Some a)
    then have "unat a = unat acc + unat x" by (rule checked_add_Some)
    with Some Cons.IH [of a] show ?thesis by (simp add: add.assoc)
  qed
qed

lemma total_memory_size_Ok:
  "total_memory_size l = Ok n \<longleftrightarrow> slot_bytes l < 2 ^ 64 \<and> unat n = slot_bytes l"
proof -
  let ?xs = "[instance_heap_offset, heap_address_space_size l, host_page_size, stack_size l,
      globals_size l, host_page_size, signal_stack_size l]"
  have "unat (0 :: usize) + sum_list (map unat ?xs) = slot_bytes l"
    by (simp add: slot_bytes_def instance_heap_offset_def)
  then have "try_fold_checked_add 0 ?xs = Some k \<longleftrightarrow> slot_bytes l < 2 ^ 64 \<and> unat k = slot_bytes l" for k
    unfolding try_fold_checked_add_Some by simp
  note fold = this
  show ?thesis
  proof (cases "try_fold_checked_add 0 ?xs")
    case None
    with fold [of "of_nat (slot_bytes l)"] show ?thesis
      by (auto simp: total_memory_size_def unat_of_nat simp del: try_fold_checked_add.simps)
  next
    case (Some k)
    with fold [of n] show ?thesis
      by (auto simp: total_memory_size_def simp del: try_fold_checked_add.simps)
  qed
qed

lemma slot_wf_unat:
  assumes "slot_wf s"
  defines "l \<equiv> slot_limits s"
  shows "unat (slot_heap s) = unat (slot_start s) + 4096"
    and "unat (slot_stack s) = unat (slot_heap s) + unat (heap_address_space_size l) + 4096"
    and "unat (slot_globals s) = unat (slot_stack s) + unat (stack_size l)"
    and "unat (slot_sigstack s) = unat (slot_globals s) + unat (globals_size l) + 4096"
    and "unat (slot_sigstack s) + unat (signal_stack_size l) < 2 ^ 64"
proof -
  have fits: "unat (slot_start s) + slot_bytes l < 2 ^ 64" and
    h: "slot_heap s = slot_start s + 4096" and
    st: "slot_stack s = slot_heap s + heap_address_space_size l + 4096" and
    g: "slot_globals s = slot_stack s + stack_size l" and
    sg: "slot_sigstack s = slot_globals s + globals_size l + 4096"
    using assms by (simp_all add: slot_wf_def)
  show 1: "unat (slot_heap s) = unat (slot_start s) + 4096"
    unfolding h using fits by (simp add: unat_add_small slot_bytes_def)
  have "unat (slot_heap s + heap_address_space_size l) =
      unat (slot_heap s) + unat (heap_address_space_size l)"
    using 1 fits by (simp add: unat_add_small slot_bytes_def)
  then show 2: "unat (slot_stack s) = unat (slot_heap s) + unat (heap_address_space_size l) + 4096"
    unfolding st using 1 fits by (simp add: unat_add_small slot_bytes_def)
  show 3: "unat (slot_globals s) = unat (slot_stack s) + unat (stack_size l)"
    unfolding g using 1 2 fits by (simp add: unat_add_small slot_bytes_def)
  have "unat (slot_globals s + globals_size l) = unat (slot_globals s) + unat (globals_size l)"
    using 1 2 3 fits by (simp add: unat_add_small slot_bytes_def)
  then show 4: "unat (slot_sigstack s) = unat (slot_globals s) + unat (globals_size l) + 4096"
    unfolding sg using 1 2 3 fits by (simp add: unat_add_small slot_bytes_def)
  show "unat (slot_sigstack s) + unat (signal_stack_size l) < 2 ^ 64"
    using 1 2 3 4 fits by (simp add: slot_bytes_def)
qed

lemma alloc_invD:
  assumes "alloc_inv al"
  obtains s where "alloc_slot_opt al = Some s" "alloc_slot al = Ok s" "slot_wf s"
    "unat (heap_accessible_size al) + unat (heap_inaccessible_size al) =
       unat (heap_address_space_size (slot_limits s))"
    "heap_accessible_size al \<le> heap_memory_size_limit al"
    "heap_memory_size_limit al \<le> heap_memory_size (slot_limits s)"
  using assms by (auto simp: alloc_inv_def alloc_slot_def split: option.splits)

subsection \<open>Address classification\<close>

text \<open>The layout as consecutive sections, and the section an address falls in.\<close>

fun locate :: "nat \<Rightarrow> (addr_location \<times> nat) list \<Rightarrow> nat \<Rightarrow> addr_location" where
  "locate base [] d = Unknown"
| "locate base ((loc, n) # rest) d =
     (if base \<le> d \<and> d < base + n then loc else locate (base + n) rest d)"

definition sections :: "nat \<Rightarrow> nat \<Rightarrow> nat \<Rightarrow> nat \<Rightarrow> nat \<Rightarrow> (addr_location \<times> nat) list" where
  "sections a i ss gs sz = [(Heap, a), (InaccessibleHeap, i), (StackGuard, 4096), (Stack, ss),
     (Globals, gs), (SigStackGuard, 4096), (SigStack, sz)]"

definition slot_sections :: "alloc \<Rightarrow> slot \<Rightarrow> (addr_location \<times> nat) list" where
  "slot_sections al s =
     sections (unat (heap_accessible_size al)) (unat (heap_inaccessible_size al))
       (unat (stack_size (slot_limits s))) (unat (globals_size (slot_limits s)))
       (unat (signal_stack_size (slot_limits s)))"

lemma locate_chain:
  fixes h :: nat
  assumes "e = h + a + i" and "st = e + 4096" and "g = st + ss" and "sg = g + gs + 4096"
  shows "(if h \<le> d \<and> d < h + a then Ok Heap else if h + a \<le> d \<and> d < e then Ok InaccessibleHeap
     else if st - 4096 \<le> d \<and> d < st then Ok StackGuard else if st \<le> d \<and> d < st + ss then Ok Stack
     else if g \<le> d \<and> d < g + gs then Ok Globals else if sg - 4096 \<le> d \<and> d < sg then Ok SigStackGuard
     else if sg \<le> d \<and> d < sg + sz then Ok SigStack else Ok Unknown) =
    Ok (locate h (sections a i ss gs sz) d)"
proof -
  have "st - 4096 = e" "sg - 4096 = g + gs" using assms(2,4) by simp_all
  then show ?thesis
    unfolding sections_def locate.simps if_distrib [of Ok] by (simp only: assms(1,2,3,4))
qed

lemma locate_cases:
  fixes h :: nat
  obtains "d < h" "locate h (sections a i ss gs sz) d = Unknown"
  | "h \<le> d" "d < h + a" "locate h (sections a i ss gs sz) d = Heap"
  | "h + a \<le> d" "d < h + a + i" "locate h (sections a i ss gs sz) d = InaccessibleHeap"
  | "h + a + i \<le> d" "d < h + a + i + 4096" "locate h (sections a i ss gs sz) d = StackGuard"
  | "h + a + i + 4096 \<le> d" "d < h + a + i + 4096 + ss" "locate h (sections a i ss gs sz) d = Stack"
  | "h + a + i + 4096 + ss \<le> d" "d < h + a + i + 4096 + ss + gs" "locate h (sections a i ss gs sz) d = Globals"
  | "h + a + i + 4096 + ss + gs \<le> d" "d < h + a + i + 4096 + ss + gs + 4096" "locate h (sections a i ss gs sz) d = SigStackGuard"
  | "h + a + i + 4096 + ss + gs + 4096 \<le> d" "d < h + a + i + 4096 + ss + gs + 4096 + sz" "locate h (sections a i ss gs sz) d = SigStack"
  | "h + a + i + 4096 + ss + gs + 4096 + sz \<le> d" "locate h (sections a i ss gs sz) d = Unknown"
proof -
  consider "d < h" | "h \<le> d" "d < h + a" | "h + a \<le> d" "d < h + a + i"
    | "h + a + i \<le> d" "d < h + a + i + 4096"
    | "h + a + i + 4096 \<le> d" "d < h + a + i + 4096 + ss"
    | "h + a + i + 4096 + ss \<le> d" "d < h + a + i + 4096 + ss + gs"
    | "h + a + i + 4096 + ss + gs \<le> d" "d < h + a + i + 4096 + ss + gs + 4096"
    | "h + a + i + 4096 + ss + gs + 4096 \<le> d" "d < h + a + i + 4096 + ss + gs + 4096 + sz"
    | "h + a + i + 4096 + ss + gs + 4096 + sz \<le> d"
    by (metis not_less)
  then show thesis
    by cases (rule that; simp add: sections_def)+
qed

lemma locate_iff:
  shows "locate h (sections a i ss gs sz) d = Heap \<longleftrightarrow> h \<le> d \<and> d < h + a"
    and "locate h (sections a i ss gs sz) d = InaccessibleHeap \<longleftrightarrow> h + a \<le> d \<and> d < h + a + i"
    and "locate h (sections a i ss gs sz) d = StackGuard \<longleftrightarrow> h + a + i \<le> d \<and> d < h + a + i + 4096"
    and "locate h (sections a i ss gs sz) d = Stack \<longleftrightarrow> h + a + i + 4096 \<le> d \<and> d < h + a + i + 4096 + ss"
    and "locate h (sections a i ss gs sz) d = Globals \<longleftrightarrow>
      h + a + i + 4096 + ss \<le> d \<and> d < h + a + i + 4096 + ss + gs"
    and "locate h (sections a i ss gs sz) d = SigStackGuard \<longleftrightarrow>
      h + a + i + 4096 + ss + gs \<le> d \<and> d < h + a + i + 4096 + ss + gs + 4096"
    and "locate h (sections a i ss gs sz) d = SigStack \<longleftrightarrow>
      h + a + i + 4096 + ss + gs + 4096 \<le> d \<and> d < h + a + i + 4096 + ss + gs + 4096 + sz"
    and "locate h (sections a i ss gs sz) d = Unknown \<longleftrightarrow>
      d < h \<or> h + a + i + 4096 + ss + gs + 4096 + sz \<le> d"
  by (rule locate_cases [of d h a i ss gs sz]; simp)+

lemma fatal_locate:
  "is_fault_fatal (locate h (sections a i ss gs sz) d) \<longleftrightarrow>
    d < h \<or> h + a + i + 4096 + ss + gs \<le> d \<and> d < h + a + i + 4096 + ss + gs + 4096 \<or>
    h + a + i + 4096 + ss + gs + 4096 + sz \<le> d"
  by (rule locate_cases [of d h a i ss gs sz]) simp_all

lemma addr_location_locate:
  assumes "alloc_inv al" and "alloc_slot_opt al = Some s"
  shows "addr_location al addr = Ok (locate (unat (slot_heap s)) (slot_sections al s) (unat addr))"
proof -
  let ?l = "slot_limits s"
  from assms have wf: "slot_wf s" and sum: "unat (heap_accessible_size al) +
      unat (heap_inaccessible_size al) = unat (heap_address_space_size ?l)"
    and sl: "alloc_slot al = Ok s"
    by (auto simp: alloc_inv_def alloc_slot_def)
  note u = slot_wf_unat [OF wf]
  have 1: "unat (slot_heap s + heap_accessible_size al) = unat (slot_heap s) + unat (heap_accessible_size al)"
    "unat (slot_heap s + heap_address_space_size ?l) = unat (slot_heap s) + unat (heap_address_space_size ?l)"
    "unat (slot_stack s + stack_size ?l) = unat (slot_stack s) + unat (stack_size ?l)"
    "unat (slot_globals s + globals_size ?l) = unat (slot_globals s) + unat (globals_size ?l)"
    "unat (slot_sigstack s + signal_stack_size ?l) = unat (slot_sigstack s) + unat (signal_stack_size ?l)"
    using u sum by (simp_all add: unat_add_small)
  have 2: "unat (slot_stack s - host_page_size) = unat (slot_stack s) - 4096"
    "unat (slot_sigstack s - host_page_size) = unat (slot_sigstack s) - 4096"
    using u by (simp_all add: unat_sub word_le_nat_alt)
  have w: "addr_location al addr =
     (if slot_heap s \<le> addr \<and> addr < slot_heap s + heap_accessible_size al then Ok Heap
      else if slot_heap s + heap_accessible_size al \<le> addr \<and>
        addr < slot_heap s + heap_address_space_size ?l then Ok InaccessibleHeap
      else if slot_stack s - host_page_size \<le> addr \<and> addr < slot_stack s then Ok StackGuard
      else if slot_stack s \<le> addr \<and> addr < slot_stack s + stack_size ?l then Ok Stack
      else if slot_globals s \<le> addr \<and> addr < slot_globals s + globals_size ?l then Ok Globals
      else if slot_sigstack s - host_page_size \<le> addr \<and> addr < slot_sigstack s then Ok SigStackGuard
      else if slot_sigstack s \<le> addr \<and> addr < slot_sigstack s + signal_stack_size ?l then Ok SigStack
      else Ok Unknown)"
    by (simp only: addr_location_def sl rbind.simps Let_def)
  show ?thesis
    unfolding w word_le_nat_alt word_less_nat_alt 1 2 slot_sections_def
    by (rule locate_chain) (use u sum in simp_all)
qed

subsection \<open>Growth\<close>

text \<open>The size of a growth request rounded up to pages, and when a growth is within the limits.\<close>

definition grown_bytes :: "u32 \<Rightarrow> nat" where
  "grown_bytes n = 4096 * ((unat n + 4095) div 4096)"

definition growth_ok :: "alloc \<Rightarrow> slot \<Rightarrow> heap_spec \<Rightarrow> u32 \<Rightarrow> bool" where
  "growth_ok al s hs n \<longleftrightarrow>
     unat (heap_accessible_size al) mod 4096 = 0 \<and> unat n < 2 ^ 32 - 4097 \<and>
     unat (heap_accessible_size al) + grown_bytes n + unat (guard_size hs) \<le>
       unat (heap_address_space_size (slot_limits s)) \<and>
     (\<forall>mx \<in> set_option (max_size hs). unat (heap_accessible_size al) + grown_bytes n \<le> unat mx) \<and>
     unat (heap_accessible_size al) + grown_bytes n \<le> unat (heap_memory_size_limit al)"

definition pagealigned :: "u32 \<Rightarrow> u32" where
  "pagealigned n = ((n + ucast host_page_size - 1) div ucast host_page_size) * ucast host_page_size"

lemma page_u32 [simp]: "(ucast host_page_size :: u32) = 4096"
  by (simp add: host_page_size_def)

lemma unat_pagealigned:
  assumes "unat n < 2 ^ 32 - 4097"
  shows "unat (pagealigned n) = grown_bytes n" and "grown_bytes n < 2 ^ 32"
proof -
  have 1: "unat (4095 + n) = unat n + 4095" using assms by (simp add: unat_add_small)
  have 2: "(unat n + 4095) div 4096 * 4096 \<le> unat n + 4095" by simp
  then show "grown_bytes n < 2 ^ 32" using assms by (simp add: grown_bytes_def)
  with 2 show "unat (pagealigned n) = grown_bytes n"
    by (simp add: pagealigned_def unat_mult_small unat_div 1 grown_bytes_def)
qed

lemma accessible_aligned_u32:
  "(ucast (sz :: usize) :: u32) mod 4096 = 0 \<longleftrightarrow> unat sz mod 4096 = 0"
proof -
  have "unat ((ucast sz :: u32) mod 4096) = unat sz mod 4294967296 mod 4096"
    by (simp add: unat_mod unat_ucast_64_32)
  also have "\<dots> = unat sz mod 4096" by (simp add: mod_mod_cancel)
  finally show ?thesis by (simp add: word_unat_eq_iff)
qed

lemma expand_heap_steps:
  assumes "alloc_slot al = Ok s" and "n \<noteq> 0"
  shows "expand_heap region al n mo mem =
    (if (ucast (heap_accessible_size al) :: u32) mod 4096 \<noteq> 0 then
       (Err (InternalError ''heap is not page-aligned; this is a bug''), al, mem)
     else if n > - 1 - 4096 - 1 then
       (Err (LimitsExceeded ''expanded heap would overflow address space''), al, mem)
     else if ucast (pagealigned n) > heap_inaccessible_size al then
       (Err (LimitsExceeded ''expanded heap would overflow addressable memory''), al, mem)
     else (case mo_heap_spec mo of
         None \<Rightarrow> (Err (NoLinearMemory ''cannot expand heap''), al, mem)
       | Some hs \<Rightarrow>
           if heap_inaccessible_size al - ucast (pagealigned n) < guard_size hs then
             (Err (LimitsExceeded ''expansion would leave guard memory too small''), al, mem)
           else if (case max_size hs of
                      Some mx \<Rightarrow> heap_accessible_size al + ucast (pagealigned n) > mx
                    | None \<Rightarrow> False) then
             (Err (LimitsExceeded ''expansion would exceed module-specified heap limit''), al, mem)
           else if heap_accessible_size al + ucast (pagealigned n) > heap_memory_size_limit al then
             (Err (LimitsExceeded ''expansion would exceed runtime-specified heap limit''), al, mem)
           else (case ro_expand_heap region s (ucast (heap_accessible_size al)) (pagealigned n) mem of
                (Ok _, mem) \<Rightarrow>
                  (Ok (ucast (heap_accessible_size al)),
                   al\<lparr>heap_accessible_size := heap_accessible_size al + ucast (pagealigned n),
                      heap_inaccessible_size := heap_inaccessible_size al - ucast (pagealigned n)\<rparr>, mem)
              | (Err e, mem) \<Rightarrow> (Err e, al, mem)
              | (Panic e, mem) \<Rightarrow> (Panic e, al, mem))))"
  unfolding expand_heap_def assms(1) Let_def pagealigned_def page_u32
  by (simp only: rresult.case assms(2) if_False)

text \<open>Growth, stated on numbers: within the limits the region is asked for the range right after the
  accessible heap and the sizes move by the rounded amount; in every other case nothing changes.\<close>

lemma grown_no_overflow:
  assumes "unat acc + unat inacc = unat (space :: usize)" and "unat e \<le> unat inacc" and "unat e = g"
  shows "unat (acc + e :: usize) = unat acc + g"
proof -
  have "unat acc + unat e < 18446744073709551616"
    using assms(1,2) unat_lt64 [of space] by linarith
  then show ?thesis using assms(3) by (simp add: unat_add_small)
qed

lemma expand_heap_within:
  assumes inv: "alloc_inv al" and s: "alloc_slot_opt al = Some s"
    and hs: "mo_heap_spec mo = Some hs" and n: "n \<noteq> 0" and ok: "growth_ok al s hs n"
  shows "expand_heap region al n mo mem =
    (case ro_expand_heap region s (ucast (heap_accessible_size al)) (pagealigned n) mem of
       (Ok _, mem') \<Rightarrow> (Ok (ucast (heap_accessible_size al)),
          al\<lparr>heap_accessible_size := heap_accessible_size al + ucast (pagealigned n),
             heap_inaccessible_size := heap_inaccessible_size al - ucast (pagealigned n)\<rparr>, mem')
     | (Err e, mem') \<Rightarrow> (Err e, al, mem')
     | (Panic e, mem') \<Rightarrow> (Panic e, al, mem'))"
proof -
  from inv s have sum: "unat (heap_accessible_size al) + unat (heap_inaccessible_size al) =
       unat (heap_address_space_size (slot_limits s))" and sl: "alloc_slot al = Ok s"
    by (auto simp: alloc_inv_def alloc_slot_def)
  note p = unat_pagealigned [of n]
  let ?e = "ucast (pagealigned n) :: usize"
  have e: "unat ?e = grown_bytes n" using ok p(1) by (simp add: growth_ok_def)
  have acc: "unat (heap_accessible_size al + ?e) = unat (heap_accessible_size al) + grown_bytes n"
    using grown_no_overflow [OF sum _ e] ok sum e by (simp add: growth_ok_def)
  have le: "?e \<le> heap_inaccessible_size al"
    using ok sum e by (simp add: growth_ok_def word_le_nat_alt)
  then have le': "\<not> ?e > heap_inaccessible_size al" by (simp add: not_less)
  have rem: "unat (heap_inaccessible_size al - ?e) = unat (heap_inaccessible_size al) - grown_bytes n"
    using le e by (simp add: unat_sub)
  have a: "(ucast (heap_accessible_size al) :: u32) mod 4096 = 0"
    using ok by (simp add: growth_ok_def accessible_aligned_u32)
  have b: "\<not> n > - 1 - 4096 - 1" using ok by (simp add: growth_ok_def word_less_nat_alt)
  have "grown_bytes n + unat (guard_size hs) \<le> unat (heap_inaccessible_size al)"
    using ok sum by (simp add: growth_ok_def)
  then have c: "\<not> heap_inaccessible_size al - ?e < guard_size hs"
    using rem by (simp add: word_less_nat_alt)
  have d: "\<not> (case max_size hs of Some mx \<Rightarrow> heap_accessible_size al + ?e > mx | None \<Rightarrow> False)"
    using ok acc by (auto simp: growth_ok_def word_less_nat_alt split: option.splits)
  have f: "\<not> heap_accessible_size al + ?e > heap_memory_size_limit al"
    using ok acc by (simp add: growth_ok_def word_less_nat_alt)
  show ?thesis
    using hs a b c d f le' by (simp only: expand_heap_steps [OF sl n] if_False option.case not_True_eq_False simp_thms)
qed

lemma expand_heap_beyond:
  assumes inv: "alloc_inv al" and s: "alloc_slot_opt al = Some s" and n: "n \<noteq> 0"
    and no: "\<And>hs. mo_heap_spec mo = Some hs \<Longrightarrow> \<not> growth_ok al s hs n"
  shows "\<exists>e. expand_heap region al n mo mem = (Err e, al, mem)"
proof -
  from inv s have sum: "unat (heap_accessible_size al) + unat (heap_inaccessible_size al) =
       unat (heap_address_space_size (slot_limits s))" and sl: "alloc_slot al = Ok s"
    by (auto simp: alloc_inv_def alloc_slot_def)
  let ?e = "ucast (pagealigned n) :: usize"
  let ?a = "(ucast (heap_accessible_size al) :: u32) mod 4096 = 0" and ?b = "\<not> n > - 1 - 4096 - 1"
    and ?c = "\<not> ?e > heap_inaccessible_size al"
  let ?d = "\<lambda>hs. \<not> heap_inaccessible_size al - ?e < guard_size hs"
    and ?f = "\<lambda>hs. \<not> (case max_size hs of Some mx \<Rightarrow> heap_accessible_size al + ?e > mx | None \<Rightarrow> False)"
    and ?g = "\<not> heap_accessible_size al + ?e > heap_memory_size_limit al"
  have no': "\<not> (?a \<and> ?b \<and> ?c \<and> ?d hs \<and> ?f hs \<and> ?g)" if hs: "mo_heap_spec mo = Some hs" for hs
  proof
    assume "?a \<and> ?b \<and> ?c \<and> ?d hs \<and> ?f hs \<and> ?g"
    then have a: ?a and b: ?b and c: ?c and d: "?d hs" and f: "?f hs" and g: ?g by blast+
    have lt: "unat n < 2 ^ 32 - 4097" using b by (simp add: word_less_nat_alt)
    have e: "unat ?e = grown_bytes n" using unat_pagealigned [OF lt] by simp
    have acc: "unat (heap_accessible_size al + ?e) = unat (heap_accessible_size al) + grown_bytes n"
      using grown_no_overflow [OF sum _ e] c e by (simp add: word_less_nat_alt)
    have "growth_ok al s hs n"
      unfolding growth_ok_def
    proof (intro conjI)
      show "unat (heap_accessible_size al) + grown_bytes n + unat (guard_size hs) \<le>
          unat (heap_address_space_size (slot_limits s))"
        using c d e sum by (simp add: word_less_nat_alt unat_sub word_le_nat_alt not_less)
      show "\<forall>mx \<in> set_option (max_size hs). unat (heap_accessible_size al) + grown_bytes n \<le> unat mx"
        using f acc by (auto simp: word_less_nat_alt split: option.splits)
    qed (use a lt g acc in \<open>simp_all add: accessible_aligned_u32 word_less_nat_alt\<close>)
    with no hs show False by blast
  qed
  note ev = expand_heap_steps [OF sl n] option.case if_True if_False simp_thms prod.inject
    rresult.inject
  consider "\<not> ?a" | "?a" "n > - 1 - 4096 - 1" | "?a" "?b" "?e > heap_inaccessible_size al"
    | "?a" "?b" "?c" "mo_heap_spec mo = None"
    | hs where "?a" "?b" "?c" "mo_heap_spec mo = Some hs" "heap_inaccessible_size al - ?e < guard_size hs"
    | hs where "?a" "?b" "?c" "mo_heap_spec mo = Some hs" "?d hs"
        "case max_size hs of Some mx \<Rightarrow> heap_accessible_size al + ?e > mx | None \<Rightarrow> False"
    | hs where "?a" "?b" "?c" "mo_heap_spec mo = Some hs" "?d hs" "?f hs"
        "heap_accessible_size al + ?e > heap_memory_size_limit al"
    using no' by (cases "mo_heap_spec mo") metis+
  then show ?thesis by cases (simp_all only: ev)
qed

lemma slot_wf_aligned:
  assumes "slot_wf s"
  shows "page_aligned (slot_heap s)" and "page_aligned (slot_stack s)"
    and "page_aligned (slot_globals s)" and "page_aligned (slot_sigstack s)"
    and "page_aligned (heap_address_space_size (slot_limits s))"
    and "page_aligned (stack_size (slot_limits s))" and "page_aligned (globals_size (slot_limits s))"
    and "page_aligned (signal_stack_size (slot_limits s))"
  using assms by (simp_all add: slot_wf_def validate_Ok_iff mod_host_page_size)

lemma growth_aligned:
  assumes "alloc_inv al" and "alloc_slot_opt al = Some s" and "growth_ok al s hs n"
  shows "page_aligned (heap_addr s (ucast (heap_accessible_size al)))"
    and "page_aligned (ucast (pagealigned n))"
proof -
  have "slot_wf s" using assms(1,2) by (simp add: alloc_inv_def)
  moreover have "page_aligned (ucast (ucast (heap_accessible_size al) :: u32))"
    using assms(3) by (simp add: page_aligned_unat unat_ucast_64_32 growth_ok_def mod_mod_cancel)
  ultimately show "page_aligned (heap_addr s (ucast (heap_accessible_size al)))"
    by (simp add: heap_addr_def slot_wf_aligned)
  show "page_aligned (ucast (pagealigned n))"
    using assms(3) unat_pagealigned(1) [of n] by (simp add: page_aligned_unat growth_ok_def grown_bytes_def)
qed

context region_internal
begin

lemma expand_heap_cases:
  assumes inv: "alloc_inv al" and s: "alloc_slot_opt al = Some s"
    and run: "expand_heap region al n mo mem = (r, al', mem')"
  obtains (zero) "n = 0" "r = Ok (ucast (heap_accessible_size al))" "al' = al" "mem' = mem"
  | (grown) hs where "n \<noteq> 0" "mo_heap_spec mo = Some hs" "growth_ok al s hs n"
      "r = Ok (ucast (heap_accessible_size al))"
      "al' = al\<lparr>heap_accessible_size := heap_accessible_size al + ucast (pagealigned n),
             heap_inaccessible_size := heap_inaccessible_size al - ucast (pagealigned n)\<rparr>"
      "mem' = set_prot (heap_addr s (ucast (heap_accessible_size al))) (ucast (pagealigned n)) ProtReadWrite mem"
  | (failed) e where "r = Err e" "al' = al" "mem' = mem"
proof (cases "n = 0")
  case True
  then show thesis using run s by (intro zero) (auto simp: expand_heap_def alloc_slot_def)
next
  case n: False
  show thesis
  proof (cases "\<exists>hs. mo_heap_spec mo = Some hs \<and> growth_ok al s hs n")
    case True
    then obtain hs where hs: "mo_heap_spec mo = Some hs" "growth_ok al s hs n" by blast
    let ?call = "ro_expand_heap region s (ucast (heap_accessible_size al)) (pagealigned n) mem"
    obtain q m1 where c: "?call = (q, m1)" by fastforce
    show thesis
    proof (cases q)
      case (Ok u)
      with c have "m1 = set_prot (heap_addr s (ucast (heap_accessible_size al))) (ucast (pagealigned n))
          ProtReadWrite mem" using expand_ok [OF growth_aligned [OF inv s hs(2)]] by blast
      with run expand_heap_within [OF inv s hs(1) n hs(2), of region mem] c Ok n hs show thesis
        by (intro grown) auto
    next
      case (Err e)
      with c have "m1 = mem" using expand_err by blast
      with run expand_heap_within [OF inv s hs(1) n hs(2), of region mem] c Err show thesis
        by (intro failed [of e]) auto
    next
      case (Panic e)
      with c expand_no_panic show thesis by blast
    qed
  next
    case False
    then obtain e where "expand_heap region al n mo mem = (Err e, al, mem)"
      using expand_heap_beyond [OF inv s n] by blast
    with run show thesis by (intro failed [of e]) auto
  qed
qed

end

lemma growth_sizes:
  assumes inv: "alloc_inv al" and s: "alloc_slot_opt al = Some s" and ok: "growth_ok al s hs n"
  shows "unat (heap_accessible_size al + ucast (pagealigned n)) =
      unat (heap_accessible_size al) + grown_bytes n"
    and "unat (heap_inaccessible_size al - ucast (pagealigned n)) =
      unat (heap_inaccessible_size al) - grown_bytes n"
    and "grown_bytes n \<le> unat (heap_inaccessible_size al)"
proof -
  from inv s have sum: "unat (heap_accessible_size al) + unat (heap_inaccessible_size al) =
       unat (heap_address_space_size (slot_limits s))" by (auto simp: alloc_inv_def)
  show le: "grown_bytes n \<le> unat (heap_inaccessible_size al)"
    using ok sum by (simp add: growth_ok_def)
  have e: "unat (ucast (pagealigned n) :: usize) = grown_bytes n"
    using ok unat_pagealigned(1) [of n] by (simp add: growth_ok_def)
  show "unat (heap_accessible_size al + ucast (pagealigned n)) =
      unat (heap_accessible_size al) + grown_bytes n"
    using grown_no_overflow [OF sum _ e] le e by simp
  show "unat (heap_inaccessible_size al - ucast (pagealigned n)) =
      unat (heap_inaccessible_size al) - grown_bytes n"
    using le e by (simp add: unat_sub word_le_nat_alt)
qed

lemma growth_keeps_inv:
  assumes "alloc_inv al" and "alloc_slot_opt al = Some s" and "growth_ok al s hs n"
  shows "alloc_inv (al\<lparr>heap_accessible_size := heap_accessible_size al + ucast (pagealigned n),
      heap_inaccessible_size := heap_inaccessible_size al - ucast (pagealigned n)\<rparr>)"
  using assms growth_sizes [OF assms] by (simp add: alloc_inv_def word_le_nat_alt growth_ok_def)

lemma fatal_ranges:
  assumes "alloc_inv al" and "alloc_slot_opt al = Some s"
  shows "is_fault_fatal (locate (unat (slot_heap s)) (slot_sections al s) (unat addr)) \<longleftrightarrow>
       unat addr < unat (slot_heap s) \<or>
       unat (slot_sigstack s) - 4096 \<le> unat addr \<and> unat addr < unat (slot_sigstack s) \<or>
       unat (slot_sigstack s) + unat (signal_stack_size (slot_limits s)) \<le> unat addr"
proof -
  have wf: "slot_wf s" and sum: "unat (heap_accessible_size al) + unat (heap_inaccessible_size al) =
      unat (heap_address_space_size (slot_limits s))"
    using assms by (auto simp: alloc_inv_def)
  show ?thesis using slot_wf_unat [OF wf] sum unfolding slot_sections_def fatal_locate by linarith
qed

section \<open>Properties\<close>

text \<open>C3: Heap growth is exact and atomic. From an allocation in its invariant, growing by \<open>n\<close> bytes
  either fails and changes neither the allocation nor memory, or returns the old size and moves
  exactly \<open>n\<close> rounded up to whole pages from the inaccessible to the accessible part, makes that
  range of memory readable and writable and touches nothing else; it succeeds only when the module's
  maximum, the instance's memory limit and the compiler's guard region are all respected. The
  invariant holds afterwards in every case, and it never panics.\<close>

theorem expand_heap_exact:
  assumes "region_internal region" and "alloc_inv al" and "alloc_slot_opt al = Some s"
    and "expand_heap region al n mo mem = (r, al', mem')"
  shows "alloc_inv al' \<and>
    (case r of
       Ok old \<Rightarrow> old = ucast (heap_accessible_size al) \<and>
         (if n = 0 then al' = al \<and> mem' = mem
          else (\<exists>hs. mo_heap_spec mo = Some hs \<and> growth_ok al s hs n) \<and>
            unat (heap_accessible_size al') = unat (heap_accessible_size al) + grown_bytes n \<and>
            unat (heap_inaccessible_size al') + grown_bytes n = unat (heap_inaccessible_size al) \<and>
            mem' = set_prot (heap_addr s (ucast (heap_accessible_size al)))
              (of_nat (grown_bytes n)) ProtReadWrite mem)
     | Err e \<Rightarrow> al' = al \<and> mem' = mem
     | Panic e \<Rightarrow> False)"
proof (cases rule: region_internal.expand_heap_cases [OF assms, case_names zero grown failed])
  case zero
  with assms(2) show ?thesis by simp
next
  case (grown hs)
  have "unat (ucast (pagealigned n) :: usize) = grown_bytes n"
    using grown(3) unat_pagealigned(1) [of n] by (simp add: growth_ok_def)
  then have "(ucast (pagealigned n) :: usize) = of_nat (grown_bytes n)"
    by (metis of_nat_unat ucast_id)
  with grown growth_sizes [OF assms(2,3) grown(3)] growth_keeps_inv [OF assms(2,3) grown(3)]
  show ?thesis by simp
next
  case (failed e)
  with assms(2) show ?thesis by simp
qed

text \<open>C18: Every address is classified by the layout of the slot: the accessible heap, the rest of the
  heap's address space, the stack guard page, the stack, the globals, the guard page of the signal
  stack and the signal stack are consecutive and disjoint, and everything else is \<open>Unknown\<close>; a fault
  is fatal exactly in the signal stack's guard page and outside these sections, the page of the instance below the heap included.\<close>

theorem addr_location_layout:
  assumes "alloc_inv al" and "alloc_slot_opt al = Some s"
  shows "addr_location al addr = Ok (locate (unat (slot_heap s)) (slot_sections al s) (unat addr)) \<and>
    (is_fault_fatal (locate (unat (slot_heap s)) (slot_sections al s) (unat addr)) \<longleftrightarrow>
       unat addr < unat (slot_heap s) \<or>
       unat (slot_sigstack s) - 4096 \<le> unat addr \<and> unat addr < unat (slot_sigstack s) \<or>
       unat (slot_sigstack s) + unat (signal_stack_size (slot_limits s)) \<le> unat addr)"
  using addr_location_locate [OF assms] fatal_ranges [OF assms] by simp

end
