(* ===== verification/Region_Mmap.thy ===== *)
theory Region_Mmap
  imports Alloc
begin

text \<open>
  \<open>lucet-runtime-internals/src/region/mmap.rs\<close>: the region that backs instances with
  anonymous memory. Its state is the free list of slots; \<open>RwLock\<close> guards are held for single
  statements, so each access to the free list is one step. Every operation takes the system calls
  and the memory as arguments and returns the memory after it. The code is read for Linux
  (\<open>target_os = "linux"\<close>). The lemmas show the layout of slots, what resetting a heap leaves in
  memory, and that a slot goes back to the free list with its memory zeroed and inaccessible.
\<close>

section \<open>State\<close>

record mmap_region =
  mr_id :: nat
  mr_capacity :: nat
  mr_freelist :: "slot list"
  mr_limits :: limits
  mr_min_heap_alignment :: usize

definition free_slots :: "mmap_region \<Rightarrow> nat" where
  "free_slots r = length (mr_freelist r)"

definition used_slots :: "mmap_region \<Rightarrow> nat" where
  "used_slots r = mr_capacity r - free_slots r"

section \<open>Growing and resetting a heap\<close>

definition mmap_expand_heap :: "sys_ops \<Rightarrow> slot \<Rightarrow> u32 \<Rightarrow> u32 \<Rightarrow> memory \<Rightarrow> unit run_res \<times> memory" where
  "mmap_expand_heap sys s start len mem =
     of_sys (sys_mprotect sys (slot_heap s + ucast start) (ucast len) ProtReadWrite mem)"

text \<open>The loop that copies the module's initial pages into the heap, which is the byte slice at
  \<open>heap_start\<close> of length \<open>heap_len\<close>.\<close>

fun copy_initial_pages ::
    "module_ops \<Rightarrow> u64 \<Rightarrow> nat \<Rightarrow> nat list \<Rightarrow> memory \<Rightarrow> unit run_res \<times> memory" where
  "copy_initial_pages module heap_start heap_len [] mem = (Ok (), mem)"
| "copy_initial_pages module heap_start heap_len (page_num # rest) mem =
     (let page_base = page_num * 4096 in
      if heap_len < page_base then
        (Err (lucet_incorrect_module ''sparse page data length exceeded initial heap size''), mem)
      else (case mo_sparse_page module page_num of
         None \<Rightarrow> copy_initial_pages module heap_start heap_len rest mem
       | Some contents \<Rightarrow>
           if page_base + 4096 > heap_len then (Panic ''range end index out of range for slice'', mem)
           else if length contents \<noteq> 4096 then
             (Panic ''source slice length does not match destination slice length'', mem)
           else (case store_bytes (heap_start + of_nat page_base) contents mem of
              Ok mem \<Rightarrow> copy_initial_pages module heap_start heap_len rest mem
            | Err e \<Rightarrow> (Err e, mem)
            | Panic e \<Rightarrow> (Panic e, mem))))"

text \<open>The part of \<open>reset_heap\<close> that clears a heap of which some part is accessible.\<close>

definition clear_heap :: "sys_ops \<Rightarrow> slot \<Rightarrow> alloc \<Rightarrow> memory \<Rightarrow> unit run_res \<times> memory" where
  "clear_heap sys s al mem =
     (if heap_accessible_size al > 0 then
        (let heap_size = heap_address_space_size (slot_limits s) in
         case of_sys (sys_mprotect sys (slot_heap s) heap_size ProtNone mem) of
           (Ok _, mem) \<Rightarrow> of_sys (sys_madvise sys (slot_heap s) heap_size mem)
         | (Err e, mem) \<Rightarrow> (Err e, mem)
         | (Panic e, mem) \<Rightarrow> (Panic e, mem))
      else (Ok (), mem))"

definition mmap_reset_heap ::
    "sys_ops \<Rightarrow> alloc \<Rightarrow> module_ops \<Rightarrow> memory \<Rightarrow> unit run_res \<times> alloc \<times> memory" where
  "mmap_reset_heap sys al module mem =
     (case alloc_slot al of Panic e \<Rightarrow> (Panic e, al, mem) | Err e \<Rightarrow> (Err e, al, mem) | Ok s \<Rightarrow>
      (case clear_heap sys s al mem of
         (Panic e, mem) \<Rightarrow> (Panic e, al, mem)
       | (Err e, mem) \<Rightarrow> (Err e, al, mem)
       | (Ok _, mem) \<Rightarrow>
         let init_size = heap_initial_size module in
         (case (if init_size > 0
                then of_sys (sys_mprotect sys (slot_heap s) init_size ProtReadWrite mem)
                else (Ok (), mem)) of
            (Panic e, mem) \<Rightarrow> (Panic e, al, mem)
          | (Err e, mem) \<Rightarrow> (Err e, al, mem)
          | (Ok _, mem) \<Rightarrow>
            let al = al\<lparr>heap_accessible_size := init_size,
                        heap_inaccessible_size :=
                          heap_address_space_size (slot_limits s) - init_size\<rparr> in
            (case checked_div init_size host_page_size of
               None \<Rightarrow> (Err (lucet_incorrect_module
                          ''initial heap size is not divisible by host page size''), al, mem)
             | Some initial_pages \<Rightarrow>
                 (case copy_initial_pages module (slot_heap s) (unat (heap_accessible_size al))
                         [0..<unat initial_pages] mem of
                    (r, mem) \<Rightarrow> (r, al, mem))))))"

definition mmap_region_ops :: "sys_ops \<Rightarrow> region_ops" where
  "mmap_region_ops sys = \<lparr>ro_expand_heap = mmap_expand_heap sys, ro_reset_heap = mmap_reset_heap sys\<rparr>"

section \<open>Returning a slot\<close>

fun disable_ranges :: "sys_ops \<Rightarrow> (u64 \<times> usize) list \<Rightarrow> memory \<Rightarrow> unit run_res \<times> memory" where
  "disable_ranges sys [] mem = (Ok (), mem)"
| "disable_ranges sys ((ptr, len) # rest) mem =
     (case expect_sys ''mprotect succeeds during drop'' (sys_mprotect sys ptr len ProtNone mem) of
        (Ok _, mem) \<Rightarrow>
          (case expect_sys ''madvise succeeds during drop'' (sys_madvise sys ptr len mem) of
             (Ok _, mem) \<Rightarrow> disable_ranges sys rest mem
           | (e, mem) \<Rightarrow> (e, mem))
      | (e, mem) \<Rightarrow> (e, mem))"

definition mmap_drop_alloc ::
    "sys_ops \<Rightarrow> mmap_region \<Rightarrow> alloc \<Rightarrow> memory \<Rightarrow> unit run_res \<times> mmap_region \<times> alloc \<times> memory" where
  "mmap_drop_alloc sys region al mem =
     (case alloc_slot_opt al of
        None \<Rightarrow> (Panic ''alloc didn't have a slot during drop; dropped twice?'', region, al, mem)
      | Some s \<Rightarrow>
          let al = al\<lparr>alloc_slot_opt := None\<rparr> in
          if slot_heap s mod host_page_size \<noteq> 0 then (Panic ''heap is not page-aligned'', region, al, mem)
          else (case disable_ranges sys
                       [(slot_heap s, heap_accessible_size al),
                        (slot_stack s, stack_size (slot_limits s)),
                        (slot_globals s, globals_size (slot_limits s)),
                        (slot_sigstack s, signal_stack_size (slot_limits s))] mem of
                  (Ok _, mem) \<Rightarrow> (Ok (), region\<lparr>mr_freelist := mr_freelist region @ [s]\<rparr>, al, mem)
                | (e, mem) \<Rightarrow> (e, region, al, mem)))"

section \<open>Creating and destroying regions\<close>

definition mmap_aligned ::
    "sys_ops \<Rightarrow> usize \<Rightarrow> usize \<Rightarrow> usize \<Rightarrow> memory \<Rightarrow> u64 run_res \<times> memory" where
  "mmap_aligned sys requested_length alignment alignment_offset mem =
     (let padded_length = requested_length + alignment + alignment_offset in
      case sys_mmap sys padded_length mem of
        None \<Rightarrow> (Err nix_error, mem)
      | Some (unaligned, mem) \<Rightarrow>
          let aligned_nonoffset = (unaligned + (alignment - 1)) AND NOT (alignment - 1);
              aligned = (if aligned_nonoffset - alignment_offset \<ge> unaligned
                         then aligned_nonoffset - alignment_offset
                         else aligned_nonoffset - alignment_offset + alignment);
              failed = (\<lambda>mem. (Err (Unsupported ''Could not align memory''),
                               snd (sys_munmap sys unaligned padded_length mem)))
          in if aligned < unaligned \<or>
                aligned + (requested_length - 1) > unaligned + (padded_length - 1) \<or>
                (aligned + alignment_offset) mod alignment \<noteq> 0
             then failed mem
             else
             let unused_front = aligned - unaligned;
                 (front_ok, mem) = (if unused_front \<noteq> 0 then sys_munmap sys unaligned unused_front mem
                                    else (True, mem))
             in if \<not> front_ok then failed mem
             else
             let unused_back = (unaligned + (padded_length - 1)) - (aligned + (requested_length - 1));
                 (back_ok, mem) = (if unused_back \<noteq> 0
                                   then sys_munmap sys (aligned + requested_length) unused_back mem
                                   else (True, mem))
             in if \<not> back_ok then failed mem else (Ok aligned, mem))"

definition create_slot :: "sys_ops \<Rightarrow> mmap_region \<Rightarrow> memory \<Rightarrow> slot run_res \<times> memory" where
  "create_slot sys region mem =
     (case total_memory_size (mr_limits region) of Panic e \<Rightarrow> (Panic e, mem) | Err e \<Rightarrow> (Err e, mem)
      | Ok total_size \<Rightarrow>
      (case (if mr_min_heap_alignment region = 0 then
               (case sys_mmap sys total_size mem of
                  None \<Rightarrow> (Err nix_error, mem) | Some (a, mem) \<Rightarrow> (Ok a, mem))
             else mmap_aligned sys total_size (mr_min_heap_alignment region) instance_heap_offset mem) of
         (Panic e, mem) \<Rightarrow> (Panic e, mem)
       | (Err e, mem) \<Rightarrow> (Err e, mem)
       | (Ok start, mem) \<Rightarrow>
         (case of_sys (sys_mprotect sys start instance_heap_offset ProtReadWrite mem) of
            (Panic e, mem) \<Rightarrow> (Panic e, mem)
          | (Err e, mem) \<Rightarrow> (Err e, mem)
          | (Ok _, mem) \<Rightarrow>
            let l = mr_limits region;
                heap_start = start + instance_heap_offset;
                stack_guard = heap_start + heap_address_space_size l;
                stack = stack_guard + host_page_size;
                globals = stack + stack_size l;
                sigstack = globals + globals_size l + host_page_size
            in if sigstack + signal_stack_size l - start \<noteq> total_size then
                 (Panic ''assertion failed: all space is accounted for'', mem)
               else (Ok \<lparr>slot_start = start, slot_heap = heap_start, slot_stack = stack,
                         slot_globals = globals, slot_sigstack = sigstack, slot_limits = l,
                         slot_region = mr_id region\<rparr>, mem))))"

definition free_slot :: "sys_ops \<Rightarrow> slot \<Rightarrow> memory \<Rightarrow> unit run_res \<times> memory" where
  "free_slot sys s mem =
     (case total_memory_size (slot_limits s) of Panic e \<Rightarrow> (Panic e, mem) | Err e \<Rightarrow> (Err e, mem)
      | Ok n \<Rightarrow> expect_sys ''munmap succeeded'' (sys_munmap sys (slot_start s) n mem))"

text \<open>\<open>Drop for MmapRegion\<close>.\<close>

fun free_all_slots :: "sys_ops \<Rightarrow> slot list \<Rightarrow> memory \<Rightarrow> unit run_res \<times> memory" where
  "free_all_slots sys [] mem = (Ok (), mem)"
| "free_all_slots sys (s # rest) mem =
     (case free_slot sys s mem of
        (Ok _, mem) \<Rightarrow> free_all_slots sys rest mem
      | (e, mem) \<Rightarrow> (e, mem))"

fun create_slots :: "sys_ops \<Rightarrow> nat \<Rightarrow> mmap_region \<Rightarrow> memory \<Rightarrow> unit run_res \<times> mmap_region \<times> memory" where
  "create_slots sys 0 region mem = (Ok (), region, mem)"
| "create_slots sys (Suc n) region mem =
     (case create_slot sys region mem of
        (Ok s, mem) \<Rightarrow> create_slots sys n (region\<lparr>mr_freelist := mr_freelist region @ [s]\<rparr>) mem
      | (Err e, mem) \<Rightarrow> (Err e, region, mem)
      | (Panic e, mem) \<Rightarrow> (Panic e, region, mem))"

text \<open>When creating a slot fails, the region built so far is dropped, which unmaps the slots it has.
  \<open>rid\<close> is the identity of the new region.\<close>

definition create_with ::
    "sys_ops \<Rightarrow> nat \<Rightarrow> nat \<Rightarrow> limits \<Rightarrow> usize \<Rightarrow> memory \<Rightarrow> mmap_region run_res \<times> memory" where
  "create_with sys rid cap l alignment mem =
     (case create_slots sys cap \<lparr>mr_id = rid, mr_capacity = cap, mr_freelist = [], mr_limits = l,
                                 mr_min_heap_alignment = alignment\<rparr> mem of
        (Ok _, region, mem) \<Rightarrow> (Ok region, mem)
      | (Err e, region, mem) \<Rightarrow>
          (case free_all_slots sys (mr_freelist region) mem of
             (Panic m, mem) \<Rightarrow> (Panic m, mem)
           | (_, mem) \<Rightarrow> (Err e, mem))
      | (Panic e, region, mem) \<Rightarrow> (Panic e, mem))"

definition mmap_create ::
    "sys_ops \<Rightarrow> nat \<Rightarrow> nat \<Rightarrow> limits \<Rightarrow> memory \<Rightarrow> mmap_region run_res \<times> memory" where
  "mmap_create sys rid cap l mem =
     (case limits_validate l of
        Ok _ \<Rightarrow> create_with sys rid cap l 0 mem
      | Err e \<Rightarrow> (Err e, mem)
      | Panic e \<Rightarrow> (Panic e, mem))"

definition mmap_create_aligned ::
    "sys_ops \<Rightarrow> nat \<Rightarrow> nat \<Rightarrow> limits \<Rightarrow> usize \<Rightarrow> memory \<Rightarrow> mmap_region run_res \<times> memory" where
  "mmap_create_aligned sys rid cap l heap_alignment mem =
     (case limits_validate l of
        Ok _ \<Rightarrow>
          if heap_alignment AND (heap_alignment - 1) \<noteq> 0 then
            (Err (InvalidArgument ''heap_alignment must be a power of 2''), mem)
          else create_with sys rid cap l heap_alignment mem
      | Err e \<Rightarrow> (Err e, mem)
      | Panic e \<Rightarrow> (Panic e, mem))"

section \<open>Lemmas\<close>

lemma copy_initial_pages_keeps_prot:
  "copy_initial_pages mo h n ps m = (r, m') \<Longrightarrow> mem_prot m' = mem_prot m"
  by (induction mo h n ps m rule: copy_initial_pages.induct)
    (auto simp: Let_def store_bytes_Ok split: if_splits option.splits rresult.splits)

context os_memory
begin

lemma of_sys_mprotect:
  assumes "page_aligned a" and "page_aligned n"
  obtains "of_sys (sys_mprotect sys a n p m) = (Ok (), set_prot a n p m)"
  | "of_sys (sys_mprotect sys a n p m) = (Err nix_error, m)"
  by (rule mprotect_cases [OF assms, of p m]) (simp_all add: of_sys_def that)

lemma of_sys_madvise:
  assumes "page_aligned a" and "page_aligned n"
  obtains "of_sys (sys_madvise sys a n m) = (Ok (), zero_range a n m)"
  | "of_sys (sys_madvise sys a n m) = (Err nix_error, m)"
  by (rule madvise_cases [OF assms, of m]) (simp_all add: of_sys_def that)

lemma expect_mprotect:
  assumes "page_aligned a" and "page_aligned n"
  obtains "expect_sys msg (sys_mprotect sys a n p m) = (Ok (), set_prot a n p m)"
  | "expect_sys msg (sys_mprotect sys a n p m) = (Panic msg, m)"
  by (rule mprotect_cases [OF assms, of p m]) (simp_all add: expect_sys_def that)

lemma expect_madvise:
  assumes "page_aligned a" and "page_aligned n"
  obtains "expect_sys msg (sys_madvise sys a n m) = (Ok (), zero_range a n m)"
  | "expect_sys msg (sys_madvise sys a n m) = (Panic msg, m)"
  by (rule madvise_cases [OF assms, of m]) (simp_all add: expect_sys_def that)

end

sublocale os_memory \<subseteq> mmap: region_internal "mmap_region_ops sys"
proof unfold_locales
  fix s st len m u m'
  assume "page_aligned (heap_addr s st)" "page_aligned (ucast len)"
    "ro_expand_heap (mmap_region_ops sys) s st len m = (Ok u, m')"
  then show "m' = set_prot (heap_addr s st) (ucast len) ProtReadWrite m"
    using of_sys_mprotect [of "heap_addr s st" "ucast len" ProtReadWrite m]
    by (fastforce simp: mmap_region_ops_def mmap_expand_heap_def heap_addr_def)
next
  fix s st len m e m'
  assume "ro_expand_heap (mmap_region_ops sys) s st len m = (Err e, m')"
  then show "m' = m"
    using mprotect_fail [of "slot_heap s + ucast st" "ucast len" ProtReadWrite m]
    by (cases "sys_mprotect sys (slot_heap s + ucast st) (ucast len) ProtReadWrite m")
      (auto simp: mmap_region_ops_def mmap_expand_heap_def of_sys_def split: if_splits)
next
  fix s st len m p m'
  show "ro_expand_heap (mmap_region_ops sys) s st len m \<noteq> (Panic p, m')"
    by (auto simp: mmap_region_ops_def mmap_expand_heap_def of_sys_def)
next
  fix al mo m r al' m'
  assume "ro_reset_heap (mmap_region_ops sys) al mo m = (r, al', m')"
  then show "alloc_slot_opt al' = alloc_slot_opt al \<and>
      heap_memory_size_limit al' = heap_memory_size_limit al"
    by (auto simp: mmap_region_ops_def mmap_reset_heap_def Let_def
        split: rresult.splits prod.splits option.splits if_splits)
next
  fix al mo m u al' m' s
  assume "ro_reset_heap (mmap_region_ops sys) al mo m = (Ok u, al', m')" "alloc_slot_opt al = Some s"
  then show "heap_accessible_size al' = (case mo_heap_spec mo of Some hs \<Rightarrow> initial_size hs | None \<Rightarrow> 0) \<and>
      heap_inaccessible_size al' = heap_address_space_size (slot_limits s) - heap_accessible_size al'"
    by (auto simp: mmap_region_ops_def mmap_reset_heap_def Let_def alloc_slot_def heap_initial_size_def
        split: rresult.splits prod.splits option.splits if_splits)
qed

subsection \<open>Initial heap contents\<close>

definition module_pages_ok :: "module_ops \<Rightarrow> bool" where
  "module_pages_ok mo \<longleftrightarrow> (\<forall>i p. mo_sparse_page mo i = Some p \<longrightarrow> length p = 4096)"

text \<open>The byte at an offset of the initial heap: from the module's page data, or zero.\<close>

definition initial_byte :: "module_ops \<Rightarrow> nat \<Rightarrow> u8" where
  "initial_byte mo off =
     (case mo_sparse_page mo (off div 4096) of
        Some p \<Rightarrow> if off div 4096 < unat (heap_initial_size mo) div 4096 then p ! (off mod 4096) else 0
      | None \<Rightarrow> 0)"

definition page_byte :: "module_ops \<Rightarrow> nat \<Rightarrow> nat \<Rightarrow> nat \<Rightarrow> u8 \<Rightarrow> u8" where
  "page_byte mo off k n old =
     (if k * 4096 \<le> off \<and> off < n * 4096 then
        (case mo_sparse_page mo (off div 4096) of Some p \<Rightarrow> p ! (off mod 4096) | None \<Rightarrow> old)
      else old)"

definition pages_written :: "module_ops \<Rightarrow> u64 \<Rightarrow> nat \<Rightarrow> nat \<Rightarrow> memory \<Rightarrow> memory" where
  "pages_written mo h k n m = m\<lparr>mem_byte := (\<lambda>a. page_byte mo (unat (a - h)) k n (mem_byte m a))\<rparr>"

lemma mem_pages_written [simp]:
  "mem_byte (pages_written mo h k n m) a = page_byte mo (unat (a - h)) k n (mem_byte m a)"
  "mem_prot (pages_written mo h k n m) = mem_prot m"
  by (simp_all add: pages_written_def)

lemma pages_written_none: "pages_written mo h n n m = m"
proof -
  have "page_byte mo off n n b = b" for off b unfolding page_byte_def by auto
  then show ?thesis by (simp add: pages_written_def)
qed

lemma write_page:
  assumes "length p = 4096" and "k * 4096 + 4096 \<le> 2 ^ 64"
  shows "mem_byte (write_bytes (h + of_nat (k * 4096)) p m) a =
    (if k * 4096 \<le> unat (a - h) \<and> unat (a - h) < k * 4096 + 4096 then p ! (unat (a - h) - k * 4096)
     else mem_byte m a)"
  using unat_diff_of_nat [OF assms(2), of "a - h"] assms(1)
  by (simp add: diff_diff_eq [symmetric])

lemma page_of_offset:
  fixes off :: nat
  assumes "k * 4096 \<le> off" and "off < k * 4096 + 4096"
  shows "off div 4096 = k" and "off mod 4096 = off - k * 4096"
proof -
  show "off div 4096 = k" using assms by (intro div_nat_eqI) (simp_all add: algebra_simps)
  then show "off mod 4096 = off - k * 4096" by (metis minus_div_mult_eq_mod)
qed

lemma page_byte_step:
  assumes "k < n"
  shows "page_byte mo off k n b =
    (if k * 4096 \<le> off \<and> off < k * 4096 + 4096 then
       (case mo_sparse_page mo k of Some p \<Rightarrow> p ! (off - k * 4096) | None \<Rightarrow> b)
     else page_byte mo off (Suc k) n b)"
proof (cases "k * 4096 \<le> off \<and> off < k * 4096 + 4096")
  case True
  have "k * 4096 + 4096 \<le> n * 4096" using assms by (simp add: Suc_leI algebra_simps)
  with True page_of_offset [of k off] show ?thesis by (auto simp: page_byte_def split: option.split)
next
  case False
  then show ?thesis by (auto simp: page_byte_def)
qed

lemma page_byte_kept: "off < k * 4096 \<Longrightarrow> page_byte mo off k n b = b"
  by (simp add: page_byte_def)

lemma pages_written_step:
  assumes "k < n" and "n * 4096 \<le> 2 ^ 64" and "mo_sparse_page mo k = Some p" and "length p = 4096"
  shows "pages_written mo h (Suc k) n (write_bytes (h + of_nat (k * 4096)) p m) = pages_written mo h k n m"
proof -
  have "k * 4096 + 4096 \<le> 2 ^ 64" using assms(1,2) by (simp add: Suc_leI algebra_simps)
  note w = write_page [OF assms(4) this, of h m]
  have "page_byte mo (unat (a - h)) (Suc k) n (mem_byte (write_bytes (h + of_nat (k * 4096)) p m) a) =
      page_byte mo (unat (a - h)) k n (mem_byte m a)" for a
    using assms(3) unfolding w page_byte_step [OF assms(1)] by (auto simp: page_byte_kept)
  then show ?thesis by (simp add: pages_written_def write_bytes_def)
qed

lemma pages_written_skip:
  assumes "k < n" and "mo_sparse_page mo k = None"
  shows "pages_written mo h (Suc k) n m = pages_written mo h k n m"
proof -
  have "page_byte mo off (Suc k) n b = page_byte mo off k n b" for off b
    using assms(2) page_byte_step [OF assms(1), of mo off b] by (auto simp: page_byte_kept)
  then show ?thesis by (simp add: pages_written_def)
qed

lemma copy_initial_pages_Ok:
  assumes "k \<le> n" and "n * 4096 \<le> hl" and "n * 4096 \<le> 2 ^ 64" and "module_pages_ok mo"
    and "\<And>i. i < n * 4096 \<Longrightarrow> mem_prot m (h + of_nat i) = ProtReadWrite"
  shows "copy_initial_pages mo h hl [k..<n] m = (Ok (), pages_written mo h k n m)"
  using assms(1,5)
proof (induction k arbitrary: m rule: inc_induct)
  case base
  show ?case by (simp add: pages_written_none)
next
  case (step k)
  have b: "k * 4096 + 4096 \<le> n * 4096" using step.hyps by (simp add: Suc_leI algebra_simps)
  show ?case
  proof (cases "mo_sparse_page mo k")
    case None
    with step b assms(2) show ?thesis
      by (simp add: upt_conv_Cons pages_written_skip [OF _ None] del: upt_Suc)
  next
    case (Some p)
    then have p: "length p = 4096" using assms(4) by (auto simp: module_pages_ok_def)
    have "mem_prot m (h + of_nat (k * 4096) + of_nat i) = ProtReadWrite" if "i < 4096" for i
      using step.prems [of "k * 4096 + i"] that b by (simp add: add.assoc)
    then have "store_bytes (h + of_nat (k * 4096)) p m = Ok (write_bytes (h + of_nat (k * 4096)) p m)"
      using p by (simp add: store_bytes_Ok)
    with step b assms(2) p Some show ?thesis
      using pages_written_step [OF step.hyps(2) assms(3) Some p, of h m]
      by (simp add: upt_conv_Cons Let_def del: upt_Suc)
  qed
qed

subsection \<open>Memory of live and of free slots\<close>

definition location :: "alloc \<Rightarrow> slot \<Rightarrow> u64 \<Rightarrow> addr_location" where
  "location al s a = locate (unat (slot_heap s)) (slot_sections al s) (unat a)"

fun location_ok :: "addr_location \<Rightarrow> prot \<Rightarrow> u8 \<Rightarrow> bool" where
  "location_ok Heap p b = (p = ProtReadWrite)"
| "location_ok Stack p b = (p = ProtReadWrite)"
| "location_ok Globals p b = (p = ProtReadWrite)"
| "location_ok SigStack p b = (p = ProtReadWrite)"
| "location_ok InaccessibleHeap p b = (p = ProtNone \<and> b = 0)"
| "location_ok StackGuard p b = (p = ProtNone \<and> b = 0)"
| "location_ok SigStackGuard p b = (p = ProtNone \<and> b = 0)"
| "location_ok Unknown p b = True"

text \<open>A live allocation's memory agrees with the classification of addresses: what is
  accessible is readable and writable, everything else in the slot traps and holds zeros. A free
  slot traps everywhere and holds zeros.\<close>

definition live_mem :: "memory \<Rightarrow> alloc \<Rightarrow> slot \<Rightarrow> bool" where
  "live_mem m al s \<longleftrightarrow> (\<forall>a. location_ok (location al s a) (mem_prot m a) (mem_byte m a))"

definition in_slot :: "slot \<Rightarrow> u64 \<Rightarrow> bool" where
  "in_slot s a \<longleftrightarrow>
     unat (slot_heap s) \<le> unat a \<and> unat a < unat (slot_start s) + slot_bytes (slot_limits s)"

definition slot_clean :: "memory \<Rightarrow> slot \<Rightarrow> bool" where
  "slot_clean m s \<longleftrightarrow> (\<forall>a. in_slot s a \<longrightarrow> mem_prot m a = ProtNone \<and> mem_byte m a = 0)"

lemma location_ranges:
  assumes inv: "alloc_inv al" and s: "alloc_slot_opt al = Some s"
  shows "in_range (slot_heap s) (heap_accessible_size al) a \<longleftrightarrow> location al s a = Heap"
    and "in_range (slot_heap s) (heap_address_space_size (slot_limits s)) a \<longleftrightarrow>
      location al s a = Heap \<or> location al s a = InaccessibleHeap"
    and "in_range (slot_stack s) (stack_size (slot_limits s)) a \<longleftrightarrow> location al s a = Stack"
    and "in_range (slot_globals s) (globals_size (slot_limits s)) a \<longleftrightarrow> location al s a = Globals"
    and "in_range (slot_sigstack s) (signal_stack_size (slot_limits s)) a \<longleftrightarrow> location al s a = SigStack"
    and "in_slot s a \<longleftrightarrow> location al s a \<noteq> Unknown"
proof -
  from inv s have wf: "slot_wf s" and sum: "unat (heap_accessible_size al) +
      unat (heap_inaccessible_size al) = unat (heap_address_space_size (slot_limits s))"
    by (auto simp: alloc_inv_def)
  note u = slot_wf_unat [OF wf] and l = location_def slot_sections_def locate_iff
  show "in_range (slot_heap s) (heap_accessible_size al) a \<longleftrightarrow> location al s a = Heap"
    unfolding l using u sum by (subst in_range_nat) auto
  show "in_range (slot_heap s) (heap_address_space_size (slot_limits s)) a \<longleftrightarrow>
      location al s a = Heap \<or> location al s a = InaccessibleHeap"
    unfolding l using u sum by (subst in_range_nat) auto
  show "in_range (slot_stack s) (stack_size (slot_limits s)) a \<longleftrightarrow> location al s a = Stack"
    unfolding l using u sum by (subst in_range_nat) auto
  show "in_range (slot_globals s) (globals_size (slot_limits s)) a \<longleftrightarrow> location al s a = Globals"
    unfolding l using u sum by (subst in_range_nat) auto
  show "in_range (slot_sigstack s) (signal_stack_size (slot_limits s)) a \<longleftrightarrow> location al s a = SigStack"
    unfolding l using u sum by (subst in_range_nat) auto
  show "in_slot s a \<longleftrightarrow> location al s a \<noteq> Unknown"
    unfolding l in_slot_def slot_bytes_def using u sum by auto
qed

lemma locate_resized:
  assumes "a + i = a' + i'" and "locate h (sections a i ss gs sz) d \<noteq> Heap"
    and "locate h (sections a i ss gs sz) d \<noteq> InaccessibleHeap"
  shows "locate h (sections a' i' ss gs sz) d = locate h (sections a i ss gs sz) d"
proof -
  have eq: "h + a' + i' = h + a + i" using assms(1) by simp
  have out: "\<not> (h \<le> d \<and> d < h + a)" "\<not> (h + a \<le> d \<and> d < h + a + i)"
    using assms(2,3) unfolding locate_iff by blast+
  then have "\<not> (h \<le> d \<and> d < h + a')" "\<not> (h + a' \<le> d \<and> d < h + a + i)"
    using eq by linarith+
  with out show ?thesis
    unfolding sections_def by (simp only: locate.simps if_False eq)
qed

lemma location_same:
  assumes "alloc_inv al" and "alloc_slot_opt al = Some s" and "alloc_inv al'"
    and "alloc_slot_opt al' = Some s" and "\<not> in_range (slot_heap s) (heap_address_space_size (slot_limits s)) a"
  shows "location al' s a = location al s a"
proof -
  have sum: "unat (heap_accessible_size al) + unat (heap_inaccessible_size al) =
      unat (heap_accessible_size al') + unat (heap_inaccessible_size al')"
    using assms(1,2,3,4) by (simp add: alloc_inv_def)
  have "location al s a \<noteq> Heap" "location al s a \<noteq> InaccessibleHeap"
    using location_ranges(2) [OF assms(1,2)] assms(5) by blast+
  then show ?thesis
    using locate_resized [OF sum] unfolding location_def slot_sections_def by blast
qed

text \<open>After \<open>clear_heap\<close> succeeds on a live allocation the whole heap traps and holds zeros.\<close>

definition heap_cleared :: "slot \<Rightarrow> memory \<Rightarrow> memory \<Rightarrow> bool" where
  "heap_cleared s m m' \<longleftrightarrow>
     (\<forall>a. if in_range (slot_heap s) (heap_address_space_size (slot_limits s)) a
          then mem_prot m' a = ProtNone \<and> mem_byte m' a = 0
          else mem_prot m' a = mem_prot m a \<and> mem_byte m' a = mem_byte m a)"

lemma clear_heap_cases:
  assumes os: "os_memory sys" and inv: "alloc_inv al" and s: "alloc_slot_opt al = Some s"
    and live: "live_mem m al s"
  obtains m' where "clear_heap sys s al m = (Ok (), m')" "heap_cleared s m m'"
  | m' where "clear_heap sys s al m = (Err nix_error, m')"
proof (cases "heap_accessible_size al > 0")
  case False
  then have "heap_accessible_size al = 0" by (simp add: word_gt_0)
  then have none: "location al s a \<noteq> Heap" for a
    using location_ranges(1) [OF inv s, of a] by (simp add: in_range_def)
  have "heap_cleared s m m"
    unfolding heap_cleared_def
  proof (intro allI)
    fix a
    have "location_ok (location al s a) (mem_prot m a) (mem_byte m a)"
      using live by (simp add: live_mem_def)
    then show "if in_range (slot_heap s) (heap_address_space_size (slot_limits s)) a
        then mem_prot m a = ProtNone \<and> mem_byte m a = 0
        else mem_prot m a = mem_prot m a \<and> mem_byte m a = mem_byte m a"
      using none location_ranges(2) [OF inv s, of a] by auto
  qed
  with False show thesis by (intro that(1)) (simp_all add: clear_heap_def)
next
  case True
  let ?h = "slot_heap s" and ?n = "heap_address_space_size (slot_limits s)"
  have al: "page_aligned ?h" "page_aligned ?n"
    using inv s by (auto simp: alloc_inv_def slot_wf_aligned)
  show thesis
  proof (cases rule: os_memory.of_sys_mprotect [OF os al, of ProtNone m, case_names ok failed])
    case ok
    show thesis
    proof (cases rule: os_memory.of_sys_madvise [OF os al, of "set_prot ?h ?n ProtNone m", case_names ok2 failed2])
      case ok2
      with ok True show thesis
        by (intro that(1) [of "zero_range ?h ?n (set_prot ?h ?n ProtNone m)"])
          (simp_all add: clear_heap_def heap_cleared_def Let_def)
    next
      case failed2
      with ok True show thesis by (intro that(2)) (simp add: clear_heap_def Let_def)
    qed
  next
    case failed
    with True show thesis by (intro that(2)) (simp add: clear_heap_def Let_def)
  qed
qed

lemma reset_sizes:
  assumes inv: "alloc_inv al" and s: "alloc_slot_opt al = Some s" and n: "n \<le> heap_memory_size_limit al"
  shows "alloc_inv (al\<lparr>heap_accessible_size := n,
      heap_inaccessible_size := heap_address_space_size (slot_limits s) - n\<rparr>)"
proof -
  have "heap_memory_size (slot_limits s) \<le> heap_address_space_size (slot_limits s)"
    using inv s by (simp add: alloc_inv_def slot_wf_def validate_Ok_iff)
  then have "n \<le> heap_address_space_size (slot_limits s)"
    using inv s n by (auto simp: alloc_inv_def)
  then have "unat (heap_address_space_size (slot_limits s) - n) + unat n =
      unat (heap_address_space_size (slot_limits s))"
    by (simp add: unat_sub word_le_nat_alt)
  then show ?thesis using inv s n by (simp add: alloc_inv_def)
qed

lemma initial_byte_pages:
  "initial_byte mo off = page_byte mo off 0 (unat (heap_initial_size mo) div 4096) 0"
  by (auto simp: initial_byte_def page_byte_def div_less_iff_less_mult split: option.split)

lemma reset_image:
  fixes mo al s
  defines "n \<equiv> heap_initial_size mo"
  defines "al' \<equiv> al\<lparr>heap_accessible_size := n,
      heap_inaccessible_size := heap_address_space_size (slot_limits s) - n\<rparr>"
  assumes inv: "alloc_inv al" and s: "alloc_slot_opt al = Some s" and live: "live_mem m al s"
    and n: "n \<le> heap_memory_size_limit al" "page_aligned n" and clr: "heap_cleared s m m1"
    and m3: "m3 = pages_written mo (slot_heap s) 0 (unat n div 4096) (set_prot (slot_heap s) n ProtReadWrite m1)"
  shows "live_mem m3 al' s"
    and "\<And>off. off < unat (heap_address_space_size (slot_limits s)) \<Longrightarrow>
      mem_byte m3 (slot_heap s + of_nat off) = initial_byte mo off"
    and "\<And>a. \<not> in_range (slot_heap s) (heap_address_space_size (slot_limits s)) a \<Longrightarrow>
      mem_byte m3 a = mem_byte m a \<and> mem_prot m3 a = mem_prot m a"
proof -
  let ?h = "slot_heap s" and ?HAS = "heap_address_space_size (slot_limits s)"
  have inv': "alloc_inv al'" and s': "alloc_slot_opt al' = Some s"
    unfolding al'_def using reset_sizes [OF inv s n(1)] s by simp_all
  have le: "unat n \<le> unat ?HAS"
    using inv' s' by (simp add: alloc_inv_def al'_def)
  have P: "unat n div 4096 * 4096 = unat n"
    using n(2) by (simp add: page_aligned_unat dvd_div_mult_self mod_eq_0_iff_dvd)
  have inside: "mem_byte m3 a = initial_byte mo (unat (a - ?h))"
    "mem_prot m3 a = (if in_range ?h n a then ProtReadWrite else ProtNone)" if "in_range ?h ?HAS a" for a
    using clr that by (simp_all add: m3 heap_cleared_def initial_byte_pages n_def)
  show outside: "mem_byte m3 a = mem_byte m a \<and> mem_prot m3 a = mem_prot m a" if "\<not> in_range ?h ?HAS a" for a
  proof -
    have "unat ?HAS \<le> unat (a - ?h)" using that by (simp add: in_range_def word_less_nat_alt)
    then have "unat n \<le> unat (a - ?h)" using le by simp
    then show ?thesis
      using clr that P by (simp add: m3 heap_cleared_def page_byte_def in_range_def word_less_nat_alt)
  qed
  show "mem_byte m3 (?h + of_nat off) = initial_byte mo off" if "off < unat ?HAS" for off
  proof -
    have "unat (of_nat off :: u64) = off"
      using that less_trans [OF that unat_lt64] by (simp add: unat_of_nat)
    then show ?thesis using inside(1) [of "?h + of_nat off"] that by (simp add: in_range_def word_less_nat_alt)
  qed
  show "live_mem m3 al' s"
    unfolding live_mem_def
  proof
    fix a
    show "location_ok (location al' s a) (mem_prot m3 a) (mem_byte m3 a)"
    proof (cases "in_range ?h ?HAS a")
      case True
      have heap: "location al' s a = Heap \<longleftrightarrow> in_range ?h n a"
        using location_ranges(1) [OF inv' s', of a] by (simp add: al'_def)
      have "initial_byte mo (unat (a - ?h)) = 0" if "\<not> in_range ?h n a"
        using that P by (simp add: initial_byte_pages page_byte_def in_range_def word_less_nat_alt
            n_def [symmetric])
      with True heap inside [OF True] location_ranges(2) [OF inv' s', of a] show ?thesis by auto
    next
      case False
      then show ?thesis
        using outside [OF False] location_same [OF inv s inv' s' False] live
        by (simp add: live_mem_def)
    qed
  qed
qed

lemma set_prot_empty: "set_prot b 0 p m = m"
  by (simp add: set_prot_def in_range_def)

lemma mmap_reset_heap_cases:
  assumes os: "os_memory sys" and inv: "alloc_inv al" and s: "alloc_slot_opt al = Some s"
    and live: "live_mem m al s" and pages: "module_pages_ok mo"
    and n: "heap_initial_size mo \<le> heap_memory_size_limit al" "page_aligned (heap_initial_size mo)"
  obtains m1 where "heap_cleared s m m1"
      "mmap_reset_heap sys al mo m = (Ok (), al\<lparr>heap_accessible_size := heap_initial_size mo,
         heap_inaccessible_size := heap_address_space_size (slot_limits s) - heap_initial_size mo\<rparr>,
         pages_written mo (slot_heap s) 0 (unat (heap_initial_size mo) div 4096)
           (set_prot (slot_heap s) (heap_initial_size mo) ProtReadWrite m1))"
  | m' where "mmap_reset_heap sys al mo m = (Err nix_error, al, m')"
proof (cases rule: clear_heap_cases [OF os inv s live, case_names cleared failed])
  case (failed m')
  with s show thesis by (intro that(2)) (simp add: mmap_reset_heap_def alloc_slot_def)
next
  case (cleared m1)
  let ?n = "heap_initial_size mo" and ?h = "slot_heap s"
  let ?m2 = "set_prot ?h ?n ProtReadWrite m1"
  have rw: "mem_prot ?m2 (?h + of_nat i) = ProtReadWrite" if "i < unat ?n div 4096 * 4096" for i
  proof -
    have "i < unat ?n" using that by (metis div_times_less_eq_dividend less_le_trans)
    moreover then have "unat (of_nat i :: u64) = i"
      using less_trans [OF _ unat_lt64] by (simp add: unat_of_nat)
    ultimately show ?thesis by (simp add: in_range_def word_less_nat_alt)
  qed
  have copy: "copy_initial_pages mo ?h (unat ?n) [0..<unat ?n div 4096] ?m2 =
      (Ok (), pages_written mo ?h 0 (unat ?n div 4096) ?m2)"
  proof (rule copy_initial_pages_Ok [OF _ _ _ pages rw])
    have "unat ?n < 2 ^ 64" using unat_lt64 [of ?n] by simp
    then show "unat ?n div 4096 * 4096 \<le> 2 ^ 64" by (metis div_times_less_eq_dividend le_trans less_imp_le)
  qed simp_all
  have al: "page_aligned ?h" using inv s by (auto simp: alloc_inv_def slot_wf_aligned)
  have dv: "unat (?n div host_page_size) = unat ?n div 4096" "host_page_size \<noteq> 0"
    by (simp_all add: unat_div host_page_size_def)
  consider (ok) "(if ?n > 0 then of_sys (sys_mprotect sys ?h ?n ProtReadWrite m1) else (Ok (), m1)) = (Ok (), ?m2)"
    | (bad) "(if ?n > 0 then of_sys (sys_mprotect sys ?h ?n ProtReadWrite m1) else (Ok (), m1)) = (Err nix_error, m1)"
    by (rule os_memory.of_sys_mprotect [OF os al n(2), of ProtReadWrite m1]; cases "?n > 0")
      (auto simp: word_gt_0 set_prot_empty)
  then show thesis
  proof cases
    case ok
    with cleared s copy dv show thesis
      by (intro that(1) [of m1]) (simp_all add: mmap_reset_heap_def alloc_slot_def Let_def checked_div_def)
  next
    case bad
    with cleared s show thesis
      by (intro that(2)) (simp add: mmap_reset_heap_def alloc_slot_def Let_def)
  qed
qed

text \<open>Whatever happens in a reset, the allocation stays well formed and no protection outside the heap changes.\<close>

context os_memory
begin

lemma clear_heap_frame:
  assumes "alloc_inv al" and "alloc_slot_opt al = Some s" and "clear_heap sys s al m = (r, m')"
    and "\<not> in_range (slot_heap s) (heap_address_space_size (slot_limits s)) a"
  shows "mem_prot m' a = mem_prot m a"
proof -
  let ?h = "slot_heap s" and ?n = "heap_address_space_size (slot_limits s)"
  have al: "page_aligned ?h" "page_aligned ?n" using assms(1,2) by (auto simp: alloc_inv_def slot_wf_aligned)
  show ?thesis
    by (cases rule: of_sys_mprotect [OF al, of ProtNone m, case_names ok failed];
        cases rule: of_sys_madvise [OF al, of "set_prot ?h ?n ProtNone m", case_names ok2 failed2])
      (use assms(3,4) in \<open>auto simp: clear_heap_def Let_def split: if_splits\<close>)
qed

lemma mmap_reset_frame:
  assumes inv: "alloc_inv al" and s: "alloc_slot_opt al = Some s" and n: "heap_initial_size mo \<le> heap_memory_size_limit al"
      "page_aligned (heap_initial_size mo)"
    and run: "mmap_reset_heap sys al mo m = (r, al', m')"
  shows "alloc_inv al' \<and> (\<forall>a. \<not> in_range (slot_heap s) (heap_address_space_size (slot_limits s)) a \<longrightarrow> mem_prot m' a = mem_prot m a)"
proof -
  let ?h = "slot_heap s" and ?n = "heap_initial_size mo" and ?HAS = "heap_address_space_size (slot_limits s)"
  let ?al = "al\<lparr>heap_accessible_size := ?n, heap_inaccessible_size := ?HAS - ?n\<rparr>"
  have inv': "alloc_inv ?al" by (rule reset_sizes [OF inv s n(1)])
  then have le: "unat ?n \<le> unat ?HAS" using s by (simp add: alloc_inv_def)
  have out: "\<not> in_range ?h ?n a" if "\<not> in_range ?h ?HAS a" for a using that le by (simp add: in_range_def word_less_nat_alt)
  have al: "page_aligned ?h" using inv s by (auto simp: alloc_inv_def slot_wf_aligned)
  obtain q m1 where clr: "clear_heap sys s al m = (q, m1)" by fastforce
  note fr = clear_heap_frame [OF inv s clr]
  obtain q2 m2 where pr: "(if ?n > 0 then of_sys (sys_mprotect sys ?h ?n ProtReadWrite m1) else (Ok (), m1)) = (q2, m2)" by fastforce
  have fr2: "mem_prot m2 a = mem_prot m1 a" if "\<not> in_range ?h ?HAS a" for a
    by (rule of_sys_mprotect [OF al n(2), of ProtReadWrite m1]) (use pr out [OF that] in \<open>auto split: if_splits\<close>)
  obtain q3 m3 where cp: "copy_initial_pages mo ?h (unat ?n) [0..<unat (?n div host_page_size)] m2 = (q3, m3)" by fastforce
  note cpp = copy_initial_pages_keeps_prot [OF cp]
  have "(al' = al \<and> m' = m1) \<or> (al' = al \<and> m' = m2) \<or> (al' = ?al \<and> m' = m3)"
    using run s clr pr cp
    by (auto simp: mmap_reset_heap_def alloc_slot_def checked_div_def host_page_size_def Let_def split: rresult.splits if_splits)
  with inv inv' fr fr2 cpp show ?thesis by auto
qed

end

sublocale os_memory \<subseteq> mmap_reset: region_reset "mmap_region_ops sys"
  by unfold_locales (use mmap_reset_frame in \<open>simp add: mmap_region_ops_def\<close>)

subsection \<open>Dropping an allocation\<close>

lemma disable_ranges_no_err: "disable_ranges sys rs m \<noteq> (Err e, m')"
  by (induction sys rs m rule: disable_ranges.induct)
    (auto simp: expect_sys_def split: prod.splits rresult.splits if_splits)

context os_memory
begin

lemma disable_ranges_Ok:
  assumes "disable_ranges sys rs m = (Ok u, m')" and "\<forall>(p, n) \<in> set rs. page_aligned p \<and> page_aligned n"
  shows "if \<exists>(p, n) \<in> set rs. in_range p n a then mem_prot m' a = ProtNone \<and> mem_byte m' a = 0
    else mem_prot m' a = mem_prot m a \<and> mem_byte m' a = mem_byte m a"
  using assms
proof (induction rs arbitrary: m)
  case Nil
  then show ?case by simp
next
  case (Cons r rs)
  obtain p n where r: "r = (p, n)" by fastforce
  then have al: "page_aligned p" "page_aligned n" using Cons.prems by auto
  have mp: "expect_sys ''mprotect succeeds during drop'' (sys_mprotect sys p n ProtNone m) =
      (Ok (), set_prot p n ProtNone m)"
    using Cons.prems(1) by (cases rule: expect_mprotect [OF al, of "''mprotect succeeds during drop''" ProtNone m])
      (simp_all add: r)
  let ?m1 = "set_prot p n ProtNone m"
  have ma: "expect_sys ''madvise succeeds during drop'' (sys_madvise sys p n ?m1) =
      (Ok (), zero_range p n ?m1)"
    using Cons.prems(1) by (cases rule: expect_madvise [OF al, of "''madvise succeeds during drop''" ?m1])
      (simp_all add: r mp)
  have "disable_ranges sys rs (zero_range p n ?m1) = (Ok u, m')"
    using Cons.prems(1) by (simp add: r mp ma)
  from Cons.IH [OF this] Cons.prems(2) show ?case by (auto simp: r split: if_splits)
qed

end

lemma drop_ranges:
  assumes inv: "alloc_inv al" and s: "alloc_slot_opt al = Some s"
  defines "rs \<equiv> [(slot_heap s, heap_accessible_size al), (slot_stack s, stack_size (slot_limits s)),
      (slot_globals s, globals_size (slot_limits s)),
      (slot_sigstack s, signal_stack_size (slot_limits s))]"
  shows "(\<exists>(p, n) \<in> set rs. in_range p n a) \<longleftrightarrow> location al s a \<in> {Heap, Stack, Globals, SigStack}"
  unfolding rs_def using location_ranges [OF inv s, of a] by simp

subsection \<open>Creating slots\<close>

text \<open>The layout of a slot at a given address, as \<open>create_slot\<close> computes it.\<close>

definition slot_at :: "u64 \<Rightarrow> mmap_region \<Rightarrow> slot" where
  "slot_at start region =
     (let l = mr_limits region; h = start + 4096; st = h + heap_address_space_size l + 4096;
          g = st + stack_size l; sg = g + globals_size l + 4096
      in \<lparr>slot_start = start, slot_heap = h, slot_stack = st, slot_globals = g, slot_sigstack = sg,
          slot_limits = l, slot_region = mr_id region\<rparr>)"

lemma slot_bytes_aligned:
  assumes "limits_validate l = Ok ()" and "slot_bytes l < 2 ^ 64" and "unat n = slot_bytes l"
  shows "page_aligned n"
proof -
  have "4096 dvd slot_bytes l"
    using assms(1) unfolding slot_bytes_def validate_Ok_iff mod_host_page_size page_aligned_unat
      mod_eq_0_iff_dvd by (intro dvd_add) simp_all
  then have "slot_bytes l mod 4096 = 0" by simp
  with assms(3) show ?thesis by (simp add: page_aligned_unat)
qed

lemma slot_at_wf:
  assumes "limits_validate (mr_limits region) = Ok ()" and "page_aligned a"
    and "unat a + slot_bytes (mr_limits region) < 2 ^ 64"
  shows "slot_wf (slot_at a region)"
  using assms by (simp add: slot_wf_def slot_at_def Let_def)

lemma slot_at_accounted:
  assumes "total_memory_size (mr_limits region) = Ok n"
  shows "slot_sigstack (slot_at a region) + signal_stack_size (mr_limits region) - a = n"
proof -
  let ?l = "mr_limits region"
  have "n = of_nat (slot_bytes ?l)" using assms(1) by (metis of_nat_unat total_memory_size_Ok ucast_id)
  then show ?thesis by (simp add: slot_at_def slot_bytes_def Let_def)
qed

lemma create_slot_plain:
  assumes "mr_min_heap_alignment region = 0" and "total_memory_size (mr_limits region) = Ok n"
  shows "create_slot sys region m =
    (case sys_mmap sys n m of
       None \<Rightarrow> (Err nix_error, m)
     | Some (a, m1) \<Rightarrow>
         (case of_sys (sys_mprotect sys a 4096 ProtReadWrite m1) of
            (Ok _, m2) \<Rightarrow> (Ok (slot_at a region), m2)
          | (Err e, m2) \<Rightarrow> (Err e, m2)
          | (Panic e, m2) \<Rightarrow> (Panic e, m2)))"
  using assms slot_at_accounted [OF assms(2)]
  by (auto simp: create_slot_def slot_at_def Let_def instance_heap_offset_def host_page_size_def
      split: option.splits prod.splits rresult.splits)

subsection \<open>A concrete allocation\<close>

text \<open>A slot with the default limits, an allocation of one WebAssembly page in it, a memory in which
  it is live, and a module whose second page is initialized: the input of the instances below.\<close>

definition demo_slot :: slot where
  "demo_slot = \<lparr>slot_start = 0x10000000, slot_heap = 0x10001000, slot_stack = 0x210002000,
     slot_globals = 0x210022000, slot_sigstack = 0x210024000, slot_limits = limits_default,
     slot_region = 0\<rparr>"

definition demo_alloc :: alloc where
  "demo_alloc = \<lparr>heap_accessible_size = 0x10000, heap_inaccessible_size = 0x1FFFF0000,
     heap_memory_size_limit = 0x100000, alloc_slot_opt = Some demo_slot\<rparr>"

definition demo_mem :: memory where
  "demo_mem = \<lparr>mem_byte = (\<lambda>a. if location demo_alloc demo_slot a = Heap then 9 else 0),
     mem_prot = (\<lambda>a. if location demo_alloc demo_slot a \<in> {Heap, Stack, Globals, SigStack}
       then ProtReadWrite else ProtNone)\<rparr>"

definition demo_module :: module_ops where
  "demo_module = mock_module_ops \<lparr>mk_module_data = module_data_empty\<lparr>md_linear_memory :=
       Some \<lparr>heap = heap_spec_new 0x100000 0x10000 0x10000 None,
             initializer = \<lparr>pages = [None, Some (replicate 4096 7)]\<rparr>\<rparr>\<rparr>,
     mk_table_elements = [], mk_export_funcs = (\<lambda>_. None), mk_func_table = (\<lambda>_. None),
     mk_start_func = None, mk_function_manifest = []\<rparr>"

definition demo_sys :: sys_ops where
  "demo_sys = linux_sys 0x10000000 (\<lambda>_ _ _. False)"

definition demo_region :: mmap_region where
  "demo_region = \<lparr>mr_id = 0, mr_capacity = 1, mr_freelist = [], mr_limits = limits_default,
     mr_min_heap_alignment = 0\<rparr>"

lemma demo_os: "os_memory demo_sys"
  unfolding demo_sys_def by (rule linux.os_memory_axioms)

lemma demo_inv: "alloc_inv demo_alloc" "alloc_slot_opt demo_alloc = Some demo_slot"
  by (simp_all add: alloc_inv_def demo_alloc_def slot_wf_def demo_slot_def limits_default_def
      validate_Ok_iff DEFAULT_SIGNAL_STACK_SIZE_def host_page_size_def slot_bytes_def page_aligned_def)

lemma demo_live: "live_mem demo_mem demo_alloc demo_slot"
  unfolding live_mem_def
proof
  fix a
  show "location_ok (location demo_alloc demo_slot a) (mem_prot demo_mem a) (mem_byte demo_mem a)"
    by (cases "location demo_alloc demo_slot a") (simp_all add: demo_mem_def)
qed

lemma demo_heap_spec: "mo_heap_spec demo_module = Some (heap_spec_new 0x100000 0x10000 0x10000 None)"
  by (simp add: demo_module_def mock_module_ops_def md_heap_spec_def module_data_empty_def)

lemma demo_page:
  "mo_sparse_page demo_module i = (if i = 1 then Some (replicate 4096 7) else None)"
  by (simp add: demo_module_def mock_module_ops_def md_get_sparse_page_data_def md_sparse_data_def
      module_data_empty_def get_page_def less_2_cases_iff numeral_2_eq_2 nth_Cons split: nat.split)

lemma demo_initial: "heap_initial_size demo_module = 0x10000"
  by (simp add: heap_initial_size_def demo_heap_spec heap_spec_new_def)

lemma copy_initial_pages_Err:
  "copy_initial_pages mo h n ps m = (Err e, m') \<Longrightarrow>
     e = lucet_incorrect_module ''sparse page data length exceeded initial heap size''"
  by (induction mo h n ps m rule: copy_initial_pages.induct)
    (auto simp: Let_def store_bytes_def split: if_splits option.splits rresult.splits)

lemma demo_reset_not_err: "mmap_reset_heap demo_sys al mo m \<noteq> (Err nix_error, al', m')"
  by (auto simp: mmap_reset_heap_def clear_heap_def demo_sys_def linux_sys_def of_sys_def Let_def
      alloc_slot_def checked_div_def host_page_size_def nix_error_def
      split: rresult.splits option.splits prod.splits if_splits dest: copy_initial_pages_Err)

lemma drop_alloc_effect:
  assumes "os_memory sys" and "alloc_inv al" and "alloc_slot_opt al = Some s" and "live_mem m al s"
    and "page_aligned (heap_accessible_size al)"
    and "mmap_drop_alloc sys region al m = (r, region', al', m')"
  shows "(r = Ok () \<and> region' = region\<lparr>mr_freelist := mr_freelist region @ [s]\<rparr> \<and>
      alloc_slot_opt al' = None \<and> slot_clean m' s \<and>
      (\<forall>a. \<not> in_slot s a \<longrightarrow> mem_byte m' a = mem_byte m a \<and> mem_prot m' a = mem_prot m a)) \<or>
    ((\<exists>p. r = Panic p) \<and> region' = region)"
proof -
  let ?rs = "[(slot_heap s, heap_accessible_size al), (slot_stack s, stack_size (slot_limits s)),
      (slot_globals s, globals_size (slot_limits s)),
      (slot_sigstack s, signal_stack_size (slot_limits s))]"
  have wf: "slot_wf s" using assms(2,3) by (simp add: alloc_inv_def)
  have al: "\<forall>(p, n) \<in> set ?rs. page_aligned p \<and> page_aligned n"
    using slot_wf_aligned [OF wf] assms(5) by simp
  obtain q m1 where d: "disable_ranges sys ?rs m = (q, m1)" by fastforce
  have eq: "mmap_drop_alloc sys region al m =
      (case (q, m1) of
         (Ok _, mem) \<Rightarrow> (Ok (), region\<lparr>mr_freelist := mr_freelist region @ [s]\<rparr>, al\<lparr>alloc_slot_opt := None\<rparr>, mem)
       | (e, mem) \<Rightarrow> (e, region, al\<lparr>alloc_slot_opt := None\<rparr>, mem))"
    using assms(3) slot_wf_aligned(1) [OF wf] d
    by (simp add: mmap_drop_alloc_def mod_host_page_size Let_def del: disable_ranges.simps)
  show ?thesis
  proof (cases q)
    case (Ok u)
    note eff = os_memory.disable_ranges_Ok [OF assms(1) d [unfolded Ok] al,
        unfolded drop_ranges [OF assms(2,3)]]
    have "slot_clean m1 s"
      unfolding slot_clean_def
    proof (intro allI impI)
      fix a
      assume "in_slot s a"
      then have "location al s a \<noteq> Unknown" using location_ranges(6) [OF assms(2,3)] by blast
      moreover have "location_ok (location al s a) (mem_prot m a) (mem_byte m a)"
        using assms(4) by (simp add: live_mem_def)
      ultimately show "mem_prot m1 a = ProtNone \<and> mem_byte m1 a = 0"
        using eff [of a] by (cases "location al s a") simp_all
    qed
    moreover have "mem_byte m1 a = mem_byte m a \<and> mem_prot m1 a = mem_prot m a" if "\<not> in_slot s a" for a
    proof -
      have "location al s a = Unknown" using that location_ranges(6) [OF assms(2,3)] by blast
      with eff [of a] show ?thesis by simp
    qed
    ultimately show ?thesis using assms(6) eq Ok by auto
  next
    case (Err e)
    with d show ?thesis using disable_ranges_no_err by blast
  next
    case (Panic p)
    with assms(6) eq show ?thesis by auto
  qed
qed

section \<open>Properties\<close>

text \<open>C19: Resetting an instance's heap restores the module's initial image. On a live allocation it
  either fails with the system's error, or afterwards exactly the initial heap size is accessible,
  every byte of the heap's address space is the byte of the module's page data there or zero, the
  part beyond the initial size traps, the invariants hold and no byte outside the heap has changed. It
  never panics and never writes to memory that is not writable.\<close>

theorem reset_heap_restores_image:
  assumes "os_memory sys" and "alloc_inv al" and "alloc_slot_opt al = Some s" and "live_mem m al s"
    and "module_pages_ok mo" and "heap_initial_size mo \<le> heap_memory_size_limit al"
    and "page_aligned (heap_initial_size mo)"
    and "mmap_reset_heap sys al mo m = (r, al', m')"
  shows "(r = Ok () \<and> alloc_inv al' \<and> live_mem m' al' s \<and>
      heap_accessible_size al' = heap_initial_size mo \<and>
      (\<forall>off < unat (heap_address_space_size (slot_limits s)).
         mem_byte m' (slot_heap s + of_nat off) = initial_byte mo off) \<and>
      (\<forall>a. \<not> in_range (slot_heap s) (heap_address_space_size (slot_limits s)) a \<longrightarrow>
         mem_byte m' a = mem_byte m a \<and> mem_prot m' a = mem_prot m a)) \<or>
    (r = Err nix_error \<and> al' = al)"
proof (cases rule: mmap_reset_heap_cases [OF assms(1,2,3,4,5,6,7), case_names ok failed])
  case (ok m1)
  note img = reset_image [OF assms(2,3,4,6,7) ok(1) refl]
  with ok(2) assms(3,8) reset_sizes [OF assms(2,3,6)] show ?thesis by auto
next
  case (failed m1)
  with assms(8) show ?thesis by auto
qed

theorem reset_heap_restores_image_witness:
  "\<exists>al' m'. mmap_reset_heap demo_sys demo_alloc demo_module demo_mem = (Ok (), al', m') \<and>
     mem_byte demo_mem 0x10001000 = 9 \<and> mem_byte m' 0x10001000 = 0 \<and> mem_byte m' 0x10002000 = 7"
proof -
  obtain r al' m' where run: "mmap_reset_heap demo_sys demo_alloc demo_module demo_mem = (r, al', m')"
    using prod_cases3 by blast
  have hyps: "module_pages_ok demo_module" "heap_initial_size demo_module \<le> heap_memory_size_limit demo_alloc"
    "page_aligned (heap_initial_size demo_module)"
    by (simp_all add: module_pages_ok_def demo_page demo_initial demo_alloc_def page_aligned_def)
  have ok: "r = Ok ()" and img: "\<forall>off < unat (heap_address_space_size (slot_limits demo_slot)).
      mem_byte m' (slot_heap demo_slot + of_nat off) = initial_byte demo_module off"
    using reset_heap_restores_image [OF demo_os demo_inv demo_live hyps run] run demo_reset_not_err
    by auto
  have "mem_byte m' (slot_heap demo_slot + of_nat 0) = initial_byte demo_module 0"
    "mem_byte m' (slot_heap demo_slot + of_nat 4096) = initial_byte demo_module 4096"
    using img [rule_format, of 0] img [rule_format, of 4096]
    by (simp_all add: demo_slot_def limits_default_def)
  then have "mem_byte m' 0x10001000 = 0" "mem_byte m' 0x10002000 = 7"
    by (simp_all add: demo_slot_def initial_byte_def demo_page demo_initial)
  moreover have "mem_byte demo_mem 0x10001000 = 9"
    by (simp add: demo_mem_def location_def slot_sections_def locate_iff demo_slot_def demo_alloc_def)
  ultimately show ?thesis using run ok by blast
qed

text \<open>C20: Memory isolation between instances: when an allocation is dropped, its slot goes back to the
  end of the free list with every byte of its heap, stack, globals and signal stack zeroed and
  inaccessible, so that nothing a guest wrote is visible to the next instance; no memory outside the
  slot changes, and the allocation has no slot any more. The only other outcome is a panic that
  leaves the region as it was.\<close>

theorem drop_alloc_clean:
  assumes "os_memory sys" and "alloc_inv al" and "alloc_slot_opt al = Some s" and "live_mem m al s"
    and "page_aligned (heap_accessible_size al)"
    and "mmap_drop_alloc sys region al m = (r, region', al', m')"
  shows "(r = Ok () \<and> region' = region\<lparr>mr_freelist := mr_freelist region @ [s]\<rparr> \<and>
      alloc_slot_opt al' = None \<and> slot_clean m' s \<and>
      (\<forall>a. \<not> in_slot s a \<longrightarrow> mem_byte m' a = mem_byte m a \<and> mem_prot m' a = mem_prot m a)) \<or>
    ((\<exists>p. r = Panic p) \<and> region' = region)"
  by (rule drop_alloc_effect [OF assms])

theorem drop_alloc_clean_witness:
  "\<exists>al' m'. mmap_drop_alloc demo_sys demo_region demo_alloc demo_mem =
      (Ok (), demo_region\<lparr>mr_freelist := [demo_slot]\<rparr>, al', m') \<and>
    mem_byte demo_mem 0x10001000 = 9 \<and> mem_byte m' 0x10001000 = 0 \<and> mem_prot m' 0x10001000 = ProtNone"
proof -
  obtain r region' al' m' where run:
    "mmap_drop_alloc demo_sys demo_region demo_alloc demo_mem = (r, region', al', m')"
    using prod_cases4 by blast
  have al: "page_aligned (heap_accessible_size demo_alloc)"
    by (simp add: demo_alloc_def page_aligned_def)
  have np: "r \<noteq> Panic p" for p
    using run by (auto simp: mmap_drop_alloc_def demo_alloc_def demo_slot_def Let_def host_page_size_def
        demo_sys_def linux_sys_def expect_sys_def)
  have res: "r = Ok ()" "region' = demo_region\<lparr>mr_freelist := mr_freelist demo_region @ [demo_slot]\<rparr>"
    "slot_clean m' demo_slot"
    using drop_alloc_clean [OF demo_os demo_inv demo_live al run] np by blast+
  have "in_slot demo_slot 0x10001000"
    by (simp add: in_slot_def demo_slot_def slot_bytes_def limits_default_def)
  then have "mem_byte m' 0x10001000 = 0" "mem_prot m' 0x10001000 = ProtNone"
    using res(3) by (simp_all add: slot_clean_def)
  moreover have "mem_byte demo_mem 0x10001000 = 9"
    by (simp add: demo_mem_def location_def slot_sections_def locate_iff demo_slot_def demo_alloc_def)
  ultimately show ?thesis using run res by (simp add: demo_region_def)
qed

theorem expand_heap_exact_witness:
  "\<exists>al' m'. expand_heap (mmap_region_ops demo_sys) demo_alloc 1 demo_module demo_mem =
      (Ok 0x10000, al', m') \<and>
    unat (heap_accessible_size al') = 0x11000 \<and> alloc_inv al'"
proof -
  obtain r al' m' where run:
    "expand_heap (mmap_region_ops demo_sys) demo_alloc 1 demo_module demo_mem = (r, al', m')"
    using prod_cases3 by blast
  have reg: "region_internal (mmap_region_ops demo_sys)"
    unfolding demo_sys_def by (rule linux.mmap.region_internal_axioms)
  have ok: "growth_ok demo_alloc demo_slot (heap_spec_new 0x100000 0x10000 0x10000 None) 1"
    by (simp add: growth_ok_def demo_alloc_def demo_slot_def grown_bytes_def heap_spec_new_def
        limits_default_def)
  obtain u m1 where "ro_expand_heap (mmap_region_ops demo_sys) demo_slot
      (ucast (heap_accessible_size demo_alloc)) (pagealigned 1) demo_mem = (Ok u, m1)"
    by (simp add: mmap_region_ops_def mmap_expand_heap_def demo_sys_def linux_sys_def of_sys_def)
  then have "\<exists>v. r = Ok v"
    using run expand_heap_within [OF demo_inv demo_heap_spec _ ok, of "mmap_region_ops demo_sys" demo_mem]
    by auto
  with expand_heap_exact [OF reg demo_inv run] run show ?thesis
    by (auto simp: demo_alloc_def grown_bytes_def)
qed

theorem addr_location_layout_witness:
  "addr_location demo_alloc 0x10001000 = Ok Heap \<and> addr_location demo_alloc 0x10011000 = Ok InaccessibleHeap \<and>
   addr_location demo_alloc 0x10000FFF = Ok Unknown"
  using addr_location_layout [OF demo_inv, of "0x10001000"] addr_location_layout [OF demo_inv, of "0x10011000"]
    addr_location_layout [OF demo_inv, of "0x10000FFF"]
  by (simp add: slot_sections_def sections_def demo_slot_def demo_alloc_def)

text \<open>A created slot is laid out as its limits say: page-aligned, within one fresh mapping of exactly
  the total size, with heap, stack guard, stack, globals, guard and signal stack one after the other;
  only its first page is accessible, and everything above it traps and holds zeros. With valid limits
  that do not overflow it never panics.\<close>

theorem create_slot_layout:
  assumes "os_memory sys" and "limits_validate (mr_limits region) = Ok ()"
    and "slot_bytes (mr_limits region) < 2 ^ 64" and "mr_min_heap_alignment region = 0"
    and "create_slot sys region m = (r, m')"
  shows "(\<exists>s. r = Ok s \<and> slot_wf s \<and> slot_limits s = mr_limits region \<and> slot_clean m' s \<and>
      (\<forall>a. in_range (slot_start s) 4096 a \<longrightarrow> mem_prot m' a = ProtReadWrite) \<and>
      (\<forall>a. in_range (slot_start s) (of_nat (slot_bytes (slot_limits s))) a \<longrightarrow> mem_prot m a = Unmapped) \<and>
      (\<forall>a. \<not> in_range (slot_start s) (of_nat (slot_bytes (slot_limits s))) a \<longrightarrow>
         mem_prot m' a = mem_prot m a \<and> mem_byte m' a = mem_byte m a)) \<or> r = Err nix_error"
proof -
  let ?l = "mr_limits region" and ?n = "of_nat (slot_bytes (mr_limits region)) :: usize"
  have un: "unat ?n = slot_bytes ?l" using assms(3) by (simp add: unat_of_nat)
  then have tot: "total_memory_size ?l = Ok ?n" using assms(3) by (simp add: total_memory_size_Ok)
  have nal: "page_aligned ?n" by (rule slot_bytes_aligned [OF assms(2,3) un])
  note cs = create_slot_plain [OF assms(4) tot, of sys m]
  show ?thesis
  proof (cases "sys_mmap sys ?n m")
    case None
    with cs assms(5) show ?thesis by simp
  next
    case (Some p)
    then obtain a m1 where mm: "sys_mmap sys ?n m = Some (a, m1)" by (cases p) auto
    note al = os_memory.mmap_page [OF assms(1) mm] and fits = os_memory.mmap_fits [OF assms(1) mm]
    have m1: "m1 = zero_range a ?n (set_prot a ?n ProtNone m)"
      by (rule os_memory.mmap_prot [OF assms(1) nal mm])
    have wf: "slot_wf (slot_at a region)" using fits un assms(2) al by (intro slot_at_wf) simp_all
    have big: "4096 \<le> slot_bytes ?l" by (simp add: slot_bytes_def)
    show ?thesis
    proof (cases rule: os_memory.of_sys_mprotect
        [OF assms(1) al, of 4096 ProtReadWrite m1, case_names al4096 ok failed])
      case ok
      let ?s = "slot_at a region"
      have res: "r = Ok ?s" "m' = set_prot a 4096 ProtReadWrite m1" using cs mm ok assms(5) by simp_all
      have st: "slot_start ?s = a" "slot_limits ?s = ?l" by (simp_all add: slot_at_def Let_def)
      have first: "in_range a 4096 b \<longleftrightarrow> unat a \<le> unat b \<and> unat b < unat a + 4096" for b
        using in_range_nat [of a 4096 b] fits un big by simp
      have all: "in_range a ?n b \<longleftrightarrow> unat a \<le> unat b \<and> unat b < unat a + slot_bytes ?l" for b
        using in_range_nat [of a ?n b] fits un by simp
      have "slot_clean m' ?s"
        using slot_wf_unat(1) [OF wf]
        by (auto simp: slot_clean_def in_slot_def st res(2) m1 first all)
      then show ?thesis
        using wf st res m1 os_memory.mmap_fresh [OF assms(1) mm] big
        by (auto simp: first all)
    next
      case failed
      with cs mm assms(5) show ?thesis by simp
    qed simp
  qed
qed

theorem create_slot_layout_witness:
  "\<exists>s m'. create_slot demo_sys demo_region \<lparr>mem_byte = (\<lambda>_. 0), mem_prot = (\<lambda>_. Unmapped)\<rparr> = (Ok s, m') \<and>
     slot_wf s \<and> slot_clean m' s"
proof -
  let ?m = "\<lparr>mem_byte = (\<lambda>_. 0), mem_prot = (\<lambda>_. Unmapped)\<rparr>"
  have hyps: "limits_validate (mr_limits demo_region) = Ok ()" "slot_bytes (mr_limits demo_region) < 2 ^ 64"
    "mr_min_heap_alignment demo_region = 0"
    by (simp_all add: demo_region_def limits_default_def validate_Ok_iff host_page_size_def
        DEFAULT_SIGNAL_STACK_SIZE_def slot_bytes_def)
  obtain r m' where run: "create_slot demo_sys demo_region ?m = (r, m')" by fastforce
  have tot: "total_memory_size (mr_limits demo_region) = Ok (of_nat (slot_bytes (mr_limits demo_region)))"
    using hyps(2) by (simp add: total_memory_size_Ok unat_of_nat)
  have "r \<noteq> Err nix_error"
    using run create_slot_plain [OF hyps(3) tot, of demo_sys ?m]
    by (auto simp: demo_sys_def linux_sys_def of_sys_def demo_region_def limits_default_def slot_bytes_def
        DEFAULT_SIGNAL_STACK_SIZE_def page_aligned_def)
  then show ?thesis
    using create_slot_layout [OF demo_os hyps run] run by blast
qed

end
