(* ===== verification/Kill_State.thy ===== *)
theory Kill_State
  imports Runtime_Error
begin

text \<open>
  The kill state of an instance and its kill switches (\<open>instance/execution.rs\<close>), and the part
  of \<open>handle_signal\<close> (\<open>instance/signals.rs\<close>) that disables termination: one definition per
  method, run without interference. The theory \<open>Kill_Protocol\<close> interleaves them.
\<close>

section \<open>Data\<close>

datatype domain = D_Pending | D_Guest | D_Hostcall | D_Terminated | D_Cancelled

text \<open>\<open>ks_upgraded\<close> is the share of the kill switches in the strong count of the \<open>Arc\<close> that holds the state: how many
  of them have upgraded their weak reference and not dropped it yet. It counts while one instance runs and the switches are not
  modelled themselves; the protocol, which models them, counts them there.\<close>

record kill_state =
  ks_terminable :: bool
  ks_domain :: domain
  ks_thread_id :: "nat option"
  ks_ignore_alarm :: bool
  ks_upgraded :: nat

definition kill_state_new :: kill_state where
  "kill_state_new = \<lparr>ks_terminable = True, ks_domain = D_Pending, ks_thread_id = None,
     ks_ignore_alarm = False, ks_upgraded = 0\<rparr>"

datatype kill_success = KS_Signalled | KS_Pending | KS_Cancelled
datatype kill_error = KE_NotTerminable | KE_Invalid

type_synonym kill_result = "(kill_error, kill_success) rresult"

section \<open>Operations of the kill state\<close>

text \<open>\<open>KillSwitch::terminate\<close> upgrades its reference first, and drops it when it returns and \<open>state\<close> goes out of scope.\<close>

definition upgrade_ref :: "kill_state \<Rightarrow> kill_state" where
  "upgrade_ref ks = ks\<lparr>ks_upgraded := Suc (ks_upgraded ks)\<rparr>"

definition release_ref :: "kill_state \<Rightarrow> kill_state" where
  "release_ref ks = ks\<lparr>ks_upgraded := ks_upgraded ks - 1\<rparr>"

definition is_terminable :: "kill_state \<Rightarrow> bool" where
  "is_terminable ks = ks_terminable ks"

definition enable_termination :: "kill_state \<Rightarrow> kill_state" where
  "enable_termination ks = ks\<lparr>ks_terminable := True\<rparr>"

text \<open>Atomic swaps return the old value and the new state.\<close>

definition disable_termination :: "kill_state \<Rightarrow> bool \<times> kill_state" where
  "disable_termination ks = (ks_terminable ks, ks\<lparr>ks_terminable := False\<rparr>)"

definition silence_alarm :: "kill_state \<Rightarrow> bool \<times> kill_state" where
  "silence_alarm ks = (ks_ignore_alarm ks, ks\<lparr>ks_ignore_alarm := True\<rparr>)"

definition alarm_active :: "kill_state \<Rightarrow> bool" where
  "alarm_active ks = (\<not> ks_ignore_alarm ks)"

definition begin_hostcall :: "kill_state \<Rightarrow> kill_state run_res" where
  "begin_hostcall ks =
     (case ks_domain ks of
        D_Pending \<Rightarrow> Panic ''Invalid state: Instance marked as pending while in guest code.''
      | D_Guest \<Rightarrow> Ok (ks\<lparr>ks_domain := D_Hostcall\<rparr>)
      | D_Hostcall \<Rightarrow> Panic ''Invalid state: Instance marked as in a hostcall while entering a hostcall.''
      | D_Terminated \<Rightarrow> Panic ''Invalid state: Instance marked as terminated while in guest code.''
      | D_Cancelled \<Rightarrow> Panic ''Invalid state: Instance marked as cancelled while in guest code.'')"

definition end_hostcall :: "kill_state \<Rightarrow> (termination_details option \<times> kill_state) run_res" where
  "end_hostcall ks =
     (case ks_domain ks of
        D_Pending \<Rightarrow> Panic ''Invalid state: Instance marked as pending while exiting a hostcall.''
      | D_Guest \<Rightarrow> Panic ''Invalid state: Instance marked as in guest code while exiting a hostcall.''
      | D_Hostcall \<Rightarrow> Ok (None, ks\<lparr>ks_domain := D_Guest\<rparr>)
      | D_Terminated \<Rightarrow> Ok (Some TD_Remote, ks)
      | D_Cancelled \<Rightarrow> Panic ''Invalid state: Instance marked as cancelled while exiting a hostcall.'')"

definition schedule :: "nat \<Rightarrow> kill_state \<Rightarrow> kill_state" where
  "schedule tid ks = ks\<lparr>ks_thread_id := Some tid\<rparr>"

text \<open>\<open>deschedule\<close> first clears the thread id and notifies, and only then takes the domain lock.\<close>

definition deschedule_tid :: "kill_state \<Rightarrow> kill_state" where
  "deschedule_tid ks = ks\<lparr>ks_thread_id := None\<rparr>"

definition deschedule_domain :: "kill_state \<Rightarrow> kill_state" where
  "deschedule_domain ks =
     (if ks_domain ks = D_Guest then ks\<lparr>ks_domain := D_Terminated\<rparr> else ks)"

definition deschedule :: "kill_state \<Rightarrow> kill_state" where
  "deschedule ks = deschedule_domain (deschedule_tid ks)"

text \<open>
  Entry and exit of the guest. Entering either continues in the guest (\<open>None\<close>) or terminates the
  instance. Leaving returns \<open>None\<close> when another party has taken the flag: the code then loops
  until a signal arrives. The number of strong references to the kill state is the last argument.
\<close>

definition enter_guest_region :: "kill_state \<Rightarrow> (termination_details option \<times> kill_state) run_res" where
  "enter_guest_region ks =
     (case ks_domain ks of
        D_Pending \<Rightarrow> Ok (None, ks\<lparr>ks_domain := D_Guest\<rparr>)
      | D_Guest \<Rightarrow> Panic ''Invalid state: Instance marked as already in guest while entering a guest region.''
      | D_Hostcall \<Rightarrow> Panic ''Invalid state: Instance marked as in a hostcall while entering a guest region.''
      | D_Terminated \<Rightarrow> Panic ''Invalid state: Instance marked as terminated while entering a guest region.''
      | D_Cancelled \<Rightarrow> Ok (Some TD_Remote, ks))"

definition strong_count_panic :: string where
  "strong_count_panic = ''assertion failed: Arc::strong_count''"

definition exit_guest_check :: "nat \<Rightarrow> kill_state \<Rightarrow> unit run_res" where
  "exit_guest_check strong_count ks =
     (if ks_domain ks = D_Guest
      then (if strong_count = 1 then Ok () else Panic strong_count_panic)
      else Panic ''Invalid state while exiting a guest region.'')"

definition exit_guest_region :: "nat \<Rightarrow> kill_state \<Rightarrow> (unit run_res) option \<times> kill_state" where
  "exit_guest_region strong_count ks =
     (case disable_termination ks of (can_exit, ks1) \<Rightarrow>
        (if \<not> can_exit then None else Some (exit_guest_check strong_count ks1), ks1))"

text \<open>
  \<open>handle_signal\<close>, once it has decided to switch to the host: termination is disabled, and when a
  kill switch was faster its alarm is silenced.
\<close>

definition handler_disable :: "kill_state \<Rightarrow> kill_state run_res" where
  "handler_disable ks =
     (case disable_termination ks of (can_terminate, ks1) \<Rightarrow>
        if can_terminate then Ok ks1
        else (case silence_alarm ks1 of (ignored, ks2) \<Rightarrow>
          if ignored then Panic ''runtime must decide to ignore an instance's alarm at most once''
          else Ok ks2))"

text \<open>
  \<open>KillSwitch::terminate\<close> after the flag is taken, under the domain lock: what the domain asks for.
  \<open>KA_Signal\<close> is the branch that sends \<open>SIGALRM\<close> to the thread and waits until it is descheduled.
\<close>

datatype kill_action =
    KA_Signal nat
  | KA_Finish "(kill_error, kill_success) rresult" kill_state
  | KA_Panic

definition terminate_domain :: "kill_state \<Rightarrow> kill_action" where
  "terminate_domain ks =
     (case ks_domain ks of
        D_Guest \<Rightarrow> (case ks_thread_id ks of Some tid \<Rightarrow> KA_Signal tid | None \<Rightarrow> KA_Panic)
      | D_Hostcall \<Rightarrow> KA_Finish (Ok KS_Pending) (ks\<lparr>ks_domain := D_Terminated\<rparr>)
      | D_Pending \<Rightarrow> KA_Finish (Ok KS_Cancelled) (ks\<lparr>ks_domain := D_Cancelled\<rparr>)
      | D_Cancelled \<Rightarrow> KA_Finish (Err KE_NotTerminable) ks
      | D_Terminated \<Rightarrow> KA_Finish (Err KE_NotTerminable) ks)"

text \<open>
  \<open>KillSwitch::terminate\<close> on its own: \<open>state\<close> is what the weak reference upgrades to, and
  \<open>deliver\<close> is what the signalled thread does to the kill state before \<open>thread_id\<close> is
  cleared.
\<close>

definition terminate :: "(nat \<Rightarrow> kill_state \<Rightarrow> kill_state) \<Rightarrow> kill_state option \<Rightarrow> kill_result \<times> kill_state option" where
  "terminate deliver state =
     (case state of
        None \<Rightarrow> (Err KE_Invalid, None)
      | Some ks \<Rightarrow>
          (case disable_termination ks of (can_terminate, ks1) \<Rightarrow>
             if \<not> can_terminate then (Err KE_NotTerminable, Some ks1)
             else (case terminate_domain ks1 of
                 KA_Signal tid \<Rightarrow>
                   (Ok KS_Signalled, Some ((deschedule_tid (deliver tid ks1))\<lparr>ks_domain := D_Terminated\<rparr>))
               | KA_Finish r ks2 \<Rightarrow> (r, Some ks2)
               | KA_Panic \<Rightarrow> (Panic ''logic error: instance is terminable but not actually running.'', Some ks1))))"

end
