(* ===== verification/Kill_Protocol.thy ===== *)
theory Kill_Protocol
  imports Kill_State
begin

text \<open>
  The kill switch protocol. The code of \<open>Kill_State\<close> is cut at its atomic operations (a swap of an
  atomic flag, a critical section of the \<open>execution_domain\<close> mutex, an update of
  \<open>thread_id\<close>) and interleaved: one instance thread and any number of kill switches act on one
  \<open>KillState\<close>, and a \<open>SIGALRM\<close> that was sent is delivered at an arbitrary later moment. The
  invariant of that system gives the properties at the end: a successful \<open>terminate\<close> means the guest
  no longer runs, an alarm is never acted on outside guest code, a guest that waits for its alarm gets
  it, and the code panics in exactly two races, both of which happen.
\<close>

section \<open>Interleaving\<close>

text \<open>
  Where the instance's thread is. \<open>I_Leaving\<close> is host code right after the switch back from the
  guest, \<open>I_Restored\<close> the same after \<open>with_signals_on\<close> has put the host's signal handlers
  back, \<open>I_Desched\<close> the point between the two halves of \<open>deschedule\<close>. The flag says whether
  the guest yielded, so that this kill state is used again. \<open>I_Fault\<close> is \<open>handle_signal\<close> for a
  trap (its argument: in a hostcall), with all of Lucet's signals masked. \<open>I_ExitLock\<close> and
  \<open>I_Hang\<close> are \<open>exit_guest_region\<close> after the swap, with and without the flag.
\<close>

datatype inst_pc =
    I_Created | I_Entering | I_Guest | I_Fault bool | I_Hostcall | I_Exiting | I_ExitLock | I_Hang
  | I_Leaving bool | I_Restored bool | I_Desched bool | I_Yielded | I_Done | I_Panicked

text \<open>
  Where a call of \<open>terminate\<close> is: not called, reference upgraded, flag taken, alarm sent and waiting
  with the domain lock held, result known but the reference not yet dropped, returned.
\<close>

datatype switch_pc =
    S_Idle | S_Upgraded | S_Got | S_Waiting | S_Releasing kill_result | S_Done kill_result | S_Panicked

record world =
  w_ks :: kill_state
  w_owner :: "nat option"
  w_poisoned :: bool
  w_alarm :: bool
  w_host_alarm :: bool
  w_inst :: inst_pc
  w_switches :: "switch_pc list"

definition world_init :: "nat \<Rightarrow> world" where
  "world_init n = \<lparr>w_ks = kill_state_new, w_owner = None, w_poisoned = False, w_alarm = False,
     w_host_alarm = False, w_inst = I_Created, w_switches = replicate n S_Idle\<rparr>"

fun holds_ref :: "switch_pc \<Rightarrow> bool" where
  "holds_ref S_Upgraded = True"
| "holds_ref S_Got = True"
| "holds_ref S_Waiting = True"
| "holds_ref (S_Releasing _) = True"
| "holds_ref _ = False"

definition strong_count :: "world \<Rightarrow> nat" where
  "strong_count w = (if w_inst w = I_Done then 0 else 1) + length (filter holds_ref (w_switches w))"

text \<open>\<open>lock().unwrap()\<close> by the instance's thread, with the critical section as argument: it waits while
  a switch holds the lock, and panics when the mutex is poisoned. A panic inside poisons it.\<close>

definition inst_panic :: "world \<Rightarrow> world" where
  "inst_panic w = w\<lparr>w_inst := I_Panicked, w_poisoned := True\<rparr>"

definition inst_locked :: "world \<Rightarrow> (kill_state \<Rightarrow> (inst_pc \<times> kill_state) run_res) \<Rightarrow> world option" where
  "inst_locked w body =
     (if w_owner w \<noteq> None then None
      else if w_poisoned w then Some (inst_panic w)
      else (case body (w_ks w) of
          Ok (pc, ks) \<Rightarrow> Some (w\<lparr>w_inst := pc, w_ks := ks\<rparr>)
        | Err e \<Rightarrow> None
        | Panic m \<Rightarrow> Some (inst_panic w)))"

datatype kill_event =
    E_Schedule nat | E_Enter | E_Begin_Hostcall | E_End_Hostcall | E_Trap | E_Trap_Continue
  | E_Trap_Switch | E_Hostcall_Terminate | E_Yield | E_Return | E_Exit_Swap | E_Exit_Lock
  | E_Restore | E_Desched_Tid | E_Desched_Domain | E_Drop | E_Alarm
  | E_Upgrade nat | E_Swap nat | E_Lock nat | E_Woken nat | E_Release nat

definition set_switch :: "nat \<Rightarrow> switch_pc \<Rightarrow> world \<Rightarrow> world" where
  "set_switch i pc w = w\<lparr>w_switches := (w_switches w)[i := pc]\<rparr>"

definition at_switch :: "nat \<Rightarrow> switch_pc \<Rightarrow> world \<Rightarrow> bool" where
  "at_switch i pc w = (i < length (w_switches w) \<and> w_switches w ! i = pc)"

text \<open>One atomic action of the instance's thread.\<close>

fun inst_event :: "kill_event \<Rightarrow> world \<Rightarrow> world option" where
  "inst_event (E_Schedule tid) w =
     (case w_inst w of
        I_Created \<Rightarrow> Some (w\<lparr>w_inst := I_Entering, w_ks := schedule tid (w_ks w)\<rparr>)
      | I_Yielded \<Rightarrow> Some (w\<lparr>w_inst := I_Hostcall, w_ks := schedule tid (w_ks w)\<rparr>)
      | _ \<Rightarrow> None)"
| "inst_event E_Enter w =
     (if w_inst w = I_Entering
      then inst_locked w (\<lambda>ks. map_res (\<lambda>(stop, ks'). (if stop = None then I_Guest else I_Leaving False, ks'))
        (enter_guest_region ks))
      else None)"
| "inst_event E_Begin_Hostcall w =
     (if w_inst w = I_Guest then inst_locked w (\<lambda>ks. map_res (\<lambda>ks'. (I_Hostcall, ks')) (begin_hostcall ks))
      else None)"
| "inst_event E_End_Hostcall w =
     (if w_inst w = I_Hostcall
      then inst_locked w (\<lambda>ks. map_res (\<lambda>(stop, ks'). (if stop = None then I_Guest else I_Leaving False, ks'))
        (end_hostcall ks))
      else None)"
| "inst_event E_Trap w =
     (case w_inst w of I_Guest \<Rightarrow> Some (w\<lparr>w_inst := I_Fault False\<rparr>)
      | I_Hostcall \<Rightarrow> Some (w\<lparr>w_inst := I_Fault True\<rparr>) | _ \<Rightarrow> None)"
| "inst_event E_Trap_Continue w =
     (case w_inst w of I_Fault h \<Rightarrow> Some (w\<lparr>w_inst := if h then I_Hostcall else I_Guest\<rparr>) | _ \<Rightarrow> None)"
| "inst_event E_Trap_Switch w =
     (case w_inst w of
        I_Fault h \<Rightarrow> (case handler_disable (w_ks w) of
            Ok ks \<Rightarrow> Some (w\<lparr>w_inst := I_Leaving False, w_ks := ks\<rparr>)
          | _ \<Rightarrow> Some (inst_panic w))
      | _ \<Rightarrow> None)"
| "inst_event E_Hostcall_Terminate w =
     (if w_inst w = I_Hostcall then Some (w\<lparr>w_inst := I_Leaving False\<rparr>) else None)"
| "inst_event E_Yield w =
     (if w_inst w = I_Hostcall then Some (w\<lparr>w_inst := I_Leaving True\<rparr>) else None)"
| "inst_event E_Return w = (if w_inst w = I_Guest then Some (w\<lparr>w_inst := I_Exiting\<rparr>) else None)"
| "inst_event E_Exit_Swap w =
     (if w_inst w = I_Exiting
      then (case disable_termination (w_ks w) of (can_exit, ks) \<Rightarrow>
        Some (w\<lparr>w_inst := if can_exit then I_ExitLock else I_Hang, w_ks := ks\<rparr>))
      else None)"
| "inst_event E_Exit_Lock w =
     (if w_inst w = I_ExitLock
      then inst_locked w (\<lambda>ks. map_res (\<lambda>_. (I_Leaving False, ks)) (exit_guest_check (strong_count w) ks))
      else None)"
| "inst_event E_Restore w =
     (case w_inst w of I_Leaving y \<Rightarrow> Some (w\<lparr>w_inst := I_Restored y\<rparr>) | _ \<Rightarrow> None)"
| "inst_event E_Desched_Tid w =
     (case w_inst w of I_Restored y \<Rightarrow> Some (w\<lparr>w_inst := I_Desched y, w_ks := deschedule_tid (w_ks w)\<rparr>)
      | _ \<Rightarrow> None)"
| "inst_event E_Desched_Domain w =
     (case w_inst w of
        I_Desched y \<Rightarrow> inst_locked w (\<lambda>ks. Ok (if y then I_Yielded else I_Done, deschedule_domain ks))
      | _ \<Rightarrow> None)"
| "inst_event E_Drop w =
     (case w_inst w of I_Created \<Rightarrow> Some (w\<lparr>w_inst := I_Done\<rparr>) | I_Yielded \<Rightarrow> Some (w\<lparr>w_inst := I_Done\<rparr>)
      | _ \<Rightarrow> None)"
| "inst_event _ w = None"

text \<open>
  Delivery of a pending alarm. While \<open>handle_signal\<close> runs it is masked. While the instance is
  current and Lucet's handlers are in place, it terminates the instance unless it was silenced. Any
  other place is host code: the alarm meets whatever disposition the host has.
\<close>

fun in_host_code :: "inst_pc \<Rightarrow> bool" where
  "in_host_code (I_Restored _) = True"
| "in_host_code (I_Desched _) = True"
| "in_host_code I_Created = True"
| "in_host_code I_Yielded = True"
| "in_host_code I_Done = True"
| "in_host_code I_Panicked = True"
| "in_host_code _ = False"

definition alarm_event :: "world \<Rightarrow> world option" where
  "alarm_event w =
     (if \<not> w_alarm w \<or> (\<exists>h\<in>{False, True}. w_inst w = I_Fault h) then None
      else if in_host_code (w_inst w) then Some (w\<lparr>w_alarm := False, w_host_alarm := True\<rparr>)
      else if alarm_active (w_ks w) then Some (w\<lparr>w_alarm := False, w_inst := I_Leaving False\<rparr>)
      else Some (w\<lparr>w_alarm := False\<rparr>))"

text \<open>One atomic action of kill switch \<open>i\<close>.\<close>

fun switch_event :: "kill_event \<Rightarrow> world \<Rightarrow> world option" where
  "switch_event (E_Upgrade i) w =
     (if at_switch i S_Idle w
      then Some (set_switch i (if strong_count w = 0 then S_Done (Err KE_Invalid) else S_Upgraded) w)
      else None)"
| "switch_event (E_Swap i) w =
     (if at_switch i S_Upgraded w
      then (case disable_termination (w_ks w) of (can_terminate, ks) \<Rightarrow>
        Some (set_switch i (if can_terminate then S_Got else S_Releasing (Err KE_NotTerminable)) (w\<lparr>w_ks := ks\<rparr>)))
      else None)"
| "switch_event (E_Lock i) w =
     (if at_switch i S_Got w \<and> w_owner w = None
      then (if w_poisoned w then Some (set_switch i S_Panicked w)
        else (case terminate_domain (w_ks w) of
            KA_Signal tid \<Rightarrow> Some (set_switch i S_Waiting (w\<lparr>w_owner := Some i, w_alarm := True\<rparr>))
          | KA_Finish r ks \<Rightarrow> Some (set_switch i (S_Releasing r) (w\<lparr>w_ks := ks\<rparr>))
          | KA_Panic \<Rightarrow> Some (set_switch i S_Panicked (w\<lparr>w_poisoned := True\<rparr>))))
      else None)"
| "switch_event (E_Woken i) w =
     (if at_switch i S_Waiting w \<and> ks_thread_id (w_ks w) = None
      then Some (set_switch i (S_Releasing (Ok KS_Signalled))
        (w\<lparr>w_ks := (w_ks w)\<lparr>ks_domain := D_Terminated\<rparr>, w_owner := None\<rparr>))
      else None)"
| "switch_event (E_Release i) w =
     (if i < length (w_switches w)
      then (case w_switches w ! i of S_Releasing r \<Rightarrow> Some (set_switch i (S_Done r) w) | _ \<Rightarrow> None)
      else None)"
| "switch_event _ w = None"

fun is_switch_event :: "kill_event \<Rightarrow> bool" where
  "is_switch_event (E_Upgrade _) = True"
| "is_switch_event (E_Swap _) = True"
| "is_switch_event (E_Lock _) = True"
| "is_switch_event (E_Woken _) = True"
| "is_switch_event (E_Release _) = True"
| "is_switch_event _ = False"

definition kill_step :: "kill_event \<Rightarrow> world \<Rightarrow> world option" where
  "kill_step e w =
     (if e = E_Alarm then alarm_event w
      else if is_switch_event e then switch_event e w else inst_event e w)"

fun run_events :: "kill_event list \<Rightarrow> world \<Rightarrow> world option" where
  "run_events [] w = Some w"
| "run_events (e # es) w = (case kill_step e w of None \<Rightarrow> None | Some w' \<Rightarrow> run_events es w')"

inductive kill_reachable :: "nat \<Rightarrow> world \<Rightarrow> bool" for n where
  kill_init: "kill_reachable n (world_init n)"
| kill_next: "kill_reachable n w \<Longrightarrow> kill_step e w = Some w' \<Longrightarrow> kill_reachable n w'"

section \<open>The invariant of the interleaving\<close>

text \<open>Code that runs with the domain \<open>Guest\<close>.\<close>

fun in_guest :: "inst_pc \<Rightarrow> bool" where
  "in_guest I_Guest = True"
| "in_guest (I_Fault h) = (\<not> h)"
| "in_guest I_Exiting = True"
| "in_guest I_ExitLock = True"
| "in_guest I_Hang = True"
| "in_guest _ = False"

fun on_way_out :: "inst_pc \<Rightarrow> bool" where
  "on_way_out (I_Leaving y) = (\<not> y)"
| "on_way_out (I_Restored y) = (\<not> y)"
| "on_way_out (I_Desched y) = (\<not> y)"
| "on_way_out _ = False"

text \<open>The domain and the thread id at each place of the instance's thread.\<close>

fun pc_ok :: "inst_pc \<Rightarrow> kill_state \<Rightarrow> bool" where
  "pc_ok I_Created ks = (ks_domain ks \<in> {D_Pending, D_Cancelled} \<and> ks_thread_id ks = None)"
| "pc_ok I_Entering ks = (ks_domain ks \<in> {D_Pending, D_Cancelled} \<and> ks_thread_id ks \<noteq> None)"
| "pc_ok I_Guest ks = (ks_domain ks = D_Guest \<and> ks_thread_id ks \<noteq> None)"
| "pc_ok I_Exiting ks = (ks_domain ks = D_Guest \<and> ks_thread_id ks \<noteq> None)"
| "pc_ok I_ExitLock ks = (ks_domain ks = D_Guest \<and> ks_thread_id ks \<noteq> None \<and> \<not> ks_terminable ks)"
| "pc_ok I_Hang ks = (ks_domain ks = D_Guest \<and> ks_thread_id ks \<noteq> None \<and> \<not> ks_terminable ks)"
| "pc_ok (I_Fault h) ks =
     ((if h then ks_domain ks \<in> {D_Hostcall, D_Terminated} else ks_domain ks = D_Guest) \<and> ks_thread_id ks \<noteq> None)"
| "pc_ok I_Hostcall ks = (ks_domain ks \<in> {D_Hostcall, D_Terminated} \<and> ks_thread_id ks \<noteq> None)"
| "pc_ok (I_Leaving y) ks =
     (ks_domain ks \<noteq> D_Pending \<and> (y \<longrightarrow> ks_domain ks \<in> {D_Hostcall, D_Terminated}) \<and> ks_thread_id ks \<noteq> None)"
| "pc_ok (I_Restored y) ks =
     (ks_domain ks \<noteq> D_Pending \<and> (y \<longrightarrow> ks_domain ks \<in> {D_Hostcall, D_Terminated}) \<and> ks_thread_id ks \<noteq> None)"
| "pc_ok (I_Desched y) ks =
     (ks_domain ks \<noteq> D_Pending \<and> (y \<longrightarrow> ks_domain ks \<in> {D_Hostcall, D_Terminated}) \<and> ks_thread_id ks = None)"
| "pc_ok I_Yielded ks = (ks_domain ks \<in> {D_Hostcall, D_Terminated} \<and> ks_thread_id ks = None)"
| "pc_ok I_Done ks = (ks_domain ks \<noteq> D_Guest \<and> ks_thread_id ks = None)"
| "pc_ok I_Panicked ks = True"

text \<open>A switch that has taken the flag, until its call is known to have failed.\<close>

fun active :: "switch_pc \<Rightarrow> bool" where
  "active S_Got = True"
| "active S_Waiting = True"
| "active (S_Releasing r) = is_ok r"
| "active (S_Done r) = is_ok r"
| "active S_Panicked = True"
| "active _ = False"

fun succeeded :: "switch_pc \<Rightarrow> bool" where
  "succeeded (S_Releasing r) = is_ok r"
| "succeeded (S_Done r) = is_ok r"
| "succeeded _ = False"

definition switch_at :: "world \<Rightarrow> nat \<Rightarrow> switch_pc" where
  "switch_at w i = (if i < length (w_switches w) then w_switches w ! i else S_Idle)"

definition sole_active :: "world \<Rightarrow> bool" where
  "sole_active w \<longleftrightarrow> (\<forall>i j. active (switch_at w i) \<and> active (switch_at w j) \<longrightarrow> i = j)"

definition some_switch :: "(switch_pc \<Rightarrow> bool) \<Rightarrow> world \<Rightarrow> bool" where
  "some_switch P w \<longleftrightarrow> (\<exists>i < length (w_switches w). P (w_switches w ! i))"

definition owner_ok :: "nat option \<Rightarrow> world \<Rightarrow> bool" where
  "owner_ok ow w \<longleftrightarrow> (\<forall>i. ow = Some i \<longleftrightarrow> switch_at w i = S_Waiting)"

abbreviation "some_got \<equiv> some_switch (\<lambda>pc. pc = S_Got)"
abbreviation "some_waiting \<equiv> some_switch (\<lambda>pc. pc = S_Waiting)"
abbreviation "some_panicked \<equiv> some_switch (\<lambda>pc. pc = S_Panicked)"

definition flag_inv :: "world \<Rightarrow> bool" where
  "flag_inv w \<longleftrightarrow> sole_active w \<and>
     (ks_terminable (w_ks w) \<or> w_inst w = I_ExitLock \<longrightarrow> \<not> some_switch active w) \<and>
     (\<not> ks_terminable (w_ks w) \<and> \<not> on_way_out (w_inst w) \<and> w_inst w \<notin> {I_ExitLock, I_Done, I_Panicked} \<and>
        ks_domain (w_ks w) \<notin> {D_Terminated, D_Cancelled} \<longrightarrow> some_got w \<or> some_waiting w) \<and>
     (some_switch succeeded w \<longrightarrow> ks_domain (w_ks w) \<in> {D_Terminated, D_Cancelled})"

definition lock_inv :: "world \<Rightarrow> bool" where
  "lock_inv w \<longleftrightarrow> owner_ok (w_owner w) w \<and>
     (w_owner w \<noteq> None \<longrightarrow> ks_domain (w_ks w) = D_Guest \<and> (in_guest (w_inst w) \<and> w_alarm w \<or> on_way_out (w_inst w)))"

definition alarm_inv :: "world \<Rightarrow> bool" where
  "alarm_inv w \<longleftrightarrow>
     (w_alarm w \<and> \<not> ks_ignore_alarm (w_ks w) \<longrightarrow> in_guest (w_inst w) \<and> w_owner w \<noteq> None) \<and>
     (ks_ignore_alarm (w_ks w) \<longrightarrow>
        \<not> ks_terminable (w_ks w) \<and> (on_way_out (w_inst w) \<or> w_inst w \<in> {I_Done, I_Panicked})) \<and>
     (on_way_out (w_inst w) \<and> ks_domain (w_ks w) = D_Guest \<longrightarrow>
        \<not> ks_terminable (w_ks w) \<and> (ks_ignore_alarm (w_ks w) \<or> \<not> some_got w)) \<and>
     (w_host_alarm w \<longrightarrow> ks_ignore_alarm (w_ks w))"

definition poison_inv :: "world \<Rightarrow> bool" where
  "poison_inv w \<longleftrightarrow>
     (w_poisoned w \<longrightarrow> w_owner w = None \<and> \<not> ks_terminable (w_ks w) \<and> \<not> some_got w \<and>
        (w_inst w = I_Desched False \<and> some_panicked w \<or> w_inst w = I_Panicked)) \<and>
     (w_inst w = I_Panicked \<longrightarrow> w_poisoned w)"

definition kill_inv :: "world \<Rightarrow> bool" where
  "kill_inv w \<longleftrightarrow> pc_ok (w_inst w) (w_ks w) \<and> flag_inv w \<and> lock_inv w \<and> alarm_inv w \<and> poison_inv w"

lemmas kill_ops = schedule_def enter_guest_region_def begin_hostcall_def end_hostcall_def
  disable_termination_def silence_alarm_def handler_disable_def exit_guest_check_def
  deschedule_tid_def deschedule_domain_def alarm_active_def

lemmas kill_invs = kill_inv_def flag_inv_def lock_inv_def alarm_inv_def poison_inv_def

lemma switch_at_simps [simp]:
  "switch_at (w\<lparr>w_ks := ks\<rparr>) = switch_at w" "switch_at (w\<lparr>w_inst := pc\<rparr>) = switch_at w"
  "switch_at (w\<lparr>w_owner := ow\<rparr>) = switch_at w" "switch_at (w\<lparr>w_poisoned := b\<rparr>) = switch_at w"
  "switch_at (w\<lparr>w_alarm := b\<rparr>) = switch_at w" "switch_at (w\<lparr>w_host_alarm := b\<rparr>) = switch_at w"
  by (auto simp: switch_at_def fun_eq_iff)

lemma switches_unchanged [simp]:
  "some_switch P (w\<lparr>w_ks := ks\<rparr>) = some_switch P w" "some_switch P (w\<lparr>w_inst := pc\<rparr>) = some_switch P w"
  "some_switch P (w\<lparr>w_owner := ow\<rparr>) = some_switch P w" "some_switch P (w\<lparr>w_poisoned := b\<rparr>) = some_switch P w"
  "some_switch P (w\<lparr>w_alarm := b\<rparr>) = some_switch P w" "some_switch P (w\<lparr>w_host_alarm := b\<rparr>) = some_switch P w"
  "sole_active (w\<lparr>w_ks := ks\<rparr>) = sole_active w" "sole_active (w\<lparr>w_inst := pc\<rparr>) = sole_active w"
  "sole_active (w\<lparr>w_owner := ow\<rparr>) = sole_active w" "sole_active (w\<lparr>w_poisoned := b\<rparr>) = sole_active w"
  "sole_active (w\<lparr>w_alarm := b\<rparr>) = sole_active w" "sole_active (w\<lparr>w_host_alarm := b\<rparr>) = sole_active w"
  "owner_ok own (w\<lparr>w_ks := ks\<rparr>) = owner_ok own w" "owner_ok own (w\<lparr>w_inst := pc\<rparr>) = owner_ok own w"
  "owner_ok own (w\<lparr>w_owner := ow\<rparr>) = owner_ok own w" "owner_ok own (w\<lparr>w_poisoned := b\<rparr>) = owner_ok own w"
  "owner_ok own (w\<lparr>w_alarm := b\<rparr>) = owner_ok own w" "owner_ok own (w\<lparr>w_host_alarm := b\<rparr>) = owner_ok own w"
  by (simp_all add: some_switch_def sole_active_def owner_ok_def)

lemma world_init_inv: "kill_inv (world_init n)"
  by (auto simp: kill_invs world_init_def kill_state_new_def switch_at_def sole_active_def
      some_switch_def owner_ok_def)

text \<open>A waiting switch owns the lock; a switch that took the flag before the exit cannot be there when
  the instance takes it.\<close>

lemma owner_iff_waiting: "owner_ok ow w \<Longrightarrow> ow \<noteq> None \<longleftrightarrow> some_waiting w"
  unfolding owner_ok_def some_switch_def switch_at_def by (metis not_None_eq switch_pc.distinct(5))

lemma got_waiting_active: "some_got w \<or> some_waiting w \<Longrightarrow> some_switch active w"
  by (auto simp: some_switch_def)

lemma inst_event_inv:
  assumes "inst_event e w = Some w'" and "kill_inv w"
  shows "kill_inv w'"
proof -
  have "w_owner w \<noteq> None \<longleftrightarrow> some_waiting w" and "some_got w \<or> some_waiting w \<longrightarrow> some_switch active w"
    using assms(2) owner_iff_waiting [of "w_owner w" w] got_waiting_active [of w]
    by (auto simp: kill_inv_def lock_inv_def)
  with assms show ?thesis
    by (cases e; cases "w_inst w"; simp; cases "ks_domain (w_ks w)";
        clarsimp simp: kill_invs kill_ops inst_locked_def inst_panic_def split: if_splits; blast?)
qed

lemma switch_at_set [simp]:
  "switch_at (set_switch i pc w) j = (if j = i \<and> i < length (w_switches w) then pc else switch_at w j)"
  by (simp add: switch_at_def set_switch_def)

lemma some_switch_at: "\<not> P S_Idle \<Longrightarrow> some_switch P w \<longleftrightarrow> (\<exists>i. P (switch_at w i))"
  by (auto simp: some_switch_def switch_at_def split: if_splits)

lemma inert_switch:
  assumes "at_switch i old w" and "\<not> active old" and "\<not> active new"
  shows "sole_active (set_switch i new w) = sole_active w"
    and "(\<And>pc. P pc \<Longrightarrow> active pc) \<Longrightarrow> some_switch P (set_switch i new w) = some_switch P w"
    and "owner_ok ow (set_switch i new w) = owner_ok ow w"
proof -
  have at: "switch_at w i = old" using assms(1) by (simp add: at_switch_def switch_at_def)
  have same: "Q (switch_at (set_switch i new w) j) = Q (switch_at w j)" if "\<And>pc. Q pc \<Longrightarrow> active pc" for Q j
    using that assms at by auto
  show "sole_active (set_switch i new w) = sole_active w"
    using same [of active] by (simp add: sole_active_def)
  show "some_switch P (set_switch i new w) = some_switch P w" if "\<And>pc. P pc \<Longrightarrow> active pc"
    using same [of P, OF that] that [of S_Idle] by (subst (1 2) some_switch_at) auto
  show "owner_ok ow (set_switch i new w) = owner_ok ow w"
    using same [of "\<lambda>pc. pc = S_Waiting"] by (simp add: owner_ok_def)
qed

lemma only_switch:
  assumes "at_switch i old w" and "active old \<and> sole_active w \<or> \<not> some_switch active w"
  shows "sole_active (set_switch i new w)"
    and "(\<And>pc. P pc \<Longrightarrow> active pc) \<Longrightarrow> some_switch P (set_switch i new w) = P new"
    and "owner_ok ow (set_switch i new w) \<longleftrightarrow> ow = (if new = S_Waiting then Some i else None)"
proof -
  have at: "switch_at w i = old" and i: "i < length (w_switches w)"
    using assms(1) by (simp_all add: at_switch_def switch_at_def)
  have others: "\<not> active (switch_at w j)" if "j \<noteq> i" for j
    using assms(2) at that by (auto simp: sole_active_def some_switch_at)
  show "sole_active (set_switch i new w)"
    using others i by (auto simp: sole_active_def split: if_splits)
  show "some_switch P (set_switch i new w) = P new" if "\<And>pc. P pc \<Longrightarrow> active pc"
    using others that i that [of S_Idle] by (subst some_switch_at) (auto split: if_splits)
  show "owner_ok ow (set_switch i new w) \<longleftrightarrow> ow = (if new = S_Waiting then Some i else None)"
  proof -
    have nw: "switch_at w j \<noteq> S_Waiting" if "j \<noteq> i" for j using others [OF that] by auto
    show ?thesis using nw i by (cases ow) (auto simp: owner_ok_def)
  qed
qed
lemma sole_witness:
  assumes "sole_active w" and "at_switch i pc w" and "active pc" and "some_switch P w"
    and "\<And>q. P q \<Longrightarrow> active q"
  shows "P pc"
proof -
  have at: "switch_at w i = pc" using assms(2) by (simp add: at_switch_def switch_at_def)
  have "\<not> P S_Idle" using assms(5) [of S_Idle] by auto
  then obtain j where j: "P (switch_at w j)" using assms(4) by (auto simp: some_switch_at)
  then have "j = i" using assms(1,3,5) at by (simp add: sole_active_def)
  with j at show ?thesis by simp
qed

lemma got_not_waiting:
  assumes "sole_active w" and "some_got w"
  shows "\<not> some_waiting w"
proof -
  obtain i where "at_switch i S_Got w" using assms(2) by (auto simp: some_switch_def at_switch_def)
  then show ?thesis using sole_witness [OF assms(1), of i S_Got "\<lambda>pc. pc = S_Waiting"] by auto
qed

lemma alarm_event_inv:
  assumes "alarm_event w = Some w'" and "kill_inv w"
  shows "kill_inv w'"
proof -
  have "w_owner w \<noteq> None \<longleftrightarrow> some_waiting w" and "some_waiting w \<longrightarrow> \<not> some_got w \<and> some_switch active w"
    using assms(2) owner_iff_waiting [of "w_owner w" w] got_not_waiting [of w] got_waiting_active [of w]
    by (auto simp: kill_inv_def lock_inv_def flag_inv_def)
  with assms show ?thesis
    by (cases "w_inst w"; simp add: alarm_event_def split: if_splits;
        clarsimp simp: kill_invs kill_ops; blast?)
qed

lemma set_switch_simps [simp]:
  "w_ks (set_switch i pc w) = w_ks w" "w_owner (set_switch i pc w) = w_owner w"
  "w_poisoned (set_switch i pc w) = w_poisoned w" "w_alarm (set_switch i pc w) = w_alarm w"
  "w_host_alarm (set_switch i pc w) = w_host_alarm w" "w_inst (set_switch i pc w) = w_inst w"
  by (simp_all add: set_switch_def)

lemma at_switch_simps [simp]:
  "at_switch i pc (w\<lparr>w_ks := ks\<rparr>) = at_switch i pc w" "at_switch i pc (w\<lparr>w_owner := ow\<rparr>) = at_switch i pc w"
  "at_switch i pc (w\<lparr>w_alarm := b\<rparr>) = at_switch i pc w" "at_switch i pc (w\<lparr>w_poisoned := b\<rparr>) = at_switch i pc w"
  by (simp_all add: at_switch_def)

lemma switch_some:
  assumes "at_switch i pc w"
  shows "P pc \<Longrightarrow> some_switch P w"
  using assms by (auto simp: at_switch_def some_switch_def)

lemma succeeded_active: "succeeded pc \<Longrightarrow> active pc"
  by (cases pc) auto

lemma inert_some:
  assumes "at_switch i old w" and "\<not> active old" and "\<not> active new"
  shows "some_switch active (set_switch i new w) = some_switch active w"
    and "some_got (set_switch i new w) = some_got w" and "some_waiting (set_switch i new w) = some_waiting w"
    and "some_switch succeeded (set_switch i new w) = some_switch succeeded w"
    and "some_panicked (set_switch i new w) = some_panicked w"
  using inert_switch(2) [OF assms, of active] inert_switch(2) [OF assms, of "\<lambda>pc. pc = S_Got"]
    inert_switch(2) [OF assms, of "\<lambda>pc. pc = S_Waiting"] inert_switch(2) [OF assms, of succeeded] succeeded_active
    inert_switch(2) [OF assms, of "\<lambda>pc. pc = S_Panicked"]
  by simp_all

lemma only_some:
  assumes "at_switch i old w" and "active old \<and> sole_active w \<or> \<not> some_switch active w"
  shows "some_switch active (set_switch i new w) = active new"
    and "some_got (set_switch i new w) = (new = S_Got)" and "some_waiting (set_switch i new w) = (new = S_Waiting)"
    and "some_switch succeeded (set_switch i new w) = succeeded new"
    and "some_panicked (set_switch i new w) = (new = S_Panicked)"
  using only_switch(2) [OF assms, of active] only_switch(2) [OF assms, of "\<lambda>pc. pc = S_Got"]
    only_switch(2) [OF assms, of "\<lambda>pc. pc = S_Waiting"] only_switch(2) [OF assms, of succeeded] succeeded_active
    only_switch(2) [OF assms, of "\<lambda>pc. pc = S_Panicked"]
  by simp_all

lemmas inert = inert_switch(1,3) inert_some
lemmas sole = only_switch(1,3) only_some

lemma kill_inv_facts:
  assumes "kill_inv w"
  shows "sole_active w" and "w_owner w \<noteq> None \<longleftrightarrow> some_waiting w" and "pc_ok (w_inst w) (w_ks w)"
    and "ks_terminable (w_ks w) \<Longrightarrow> \<not> some_switch active w"
    and "ks_terminable (w_ks w) \<Longrightarrow> w_owner w = None"
    and "some_got w \<Longrightarrow> \<not> ks_terminable (w_ks w)" 
    and "some_switch succeeded w \<Longrightarrow> ks_domain (w_ks w) \<in> {D_Terminated, D_Cancelled}"
    and "some_switch succeeded w \<Longrightarrow> w_owner w = None"
proof -
  have "flag_inv w" "lock_inv w" "pc_ok (w_inst w) (w_ks w)" using assms by (simp_all add: kill_inv_def)
  then show "sole_active w" "w_owner w \<noteq> None \<longleftrightarrow> some_waiting w" "pc_ok (w_inst w) (w_ks w)"
    "ks_terminable (w_ks w) \<Longrightarrow> \<not> some_switch active w"
    "ks_terminable (w_ks w) \<Longrightarrow> w_owner w = None" "some_got w \<Longrightarrow> \<not> ks_terminable (w_ks w)"
    "some_switch succeeded w \<Longrightarrow> ks_domain (w_ks w) \<in> {D_Terminated, D_Cancelled}"
    "some_switch succeeded w \<Longrightarrow> w_owner w = None"
    using owner_iff_waiting [of "w_owner w" w] got_waiting_active [of w]
    unfolding flag_inv_def lock_inv_def by (blast | auto)+
qed

lemma switch_event_inv:
  assumes "switch_event e w = Some w'" and "kill_inv w"
  shows "kill_inv w'"
proof (cases e)
  case (E_Upgrade i)
  with assms(1) obtain new where at: "at_switch i S_Idle w" and w': "w' = set_switch i new w" and "\<not> active new"
    by (auto split: if_splits)
  with assms(2) inert [OF at, of new] show ?thesis
    by (simp add: kill_invs) 
next
  case (E_Swap i)
  then have at: "at_switch i S_Upgraded w" using assms(1) by (auto split: if_splits)
  show ?thesis
  proof (cases "ks_terminable (w_ks w)")
    case True
    let ?w = "w\<lparr>w_ks := (w_ks w)\<lparr>ks_terminable := False\<rparr>\<rparr>"
    have at': "at_switch i S_Upgraded ?w" using at by simp
    have w': "w' = set_switch i S_Got ?w" using assms(1) E_Swap at True by (simp add: disable_termination_def)
    note none = kill_inv_facts(4,5) [OF assms(2) True]
    have "some_switch active ?w = some_switch active w" by simp
    then show ?thesis using none assms(2) True unfolding w'
      by (cases "w_inst w"; clarsimp simp: kill_invs sole [OF at'])
  next
    case False
    then have same: "w\<lparr>w_ks := (w_ks w)\<lparr>ks_terminable := False\<rparr>\<rparr> = w" by (cases w) simp
    have "w' = set_switch i (S_Releasing (Err KE_NotTerminable)) (w\<lparr>w_ks := (w_ks w)\<lparr>ks_terminable := False\<rparr>\<rparr>)"
      using assms(1) E_Swap at False by (simp add: disable_termination_def)
    then have "w' = set_switch i (S_Releasing (Err KE_NotTerminable)) w" by (simp only: same)
    with assms(2) inert [OF at, of "S_Releasing (Err KE_NotTerminable)"] show ?thesis by (simp add: kill_invs)
  qed
next
  case (E_Lock i)
  then have at: "at_switch i S_Got w" and own: "w_owner w = None" using assms(1) by (auto split: if_splits)
  then have got: "some_got w" "\<not> some_waiting w"
    using kill_inv_facts(1,2) [OF assms(2)] by (auto intro: switch_some)
  note sole' = sole [where old = S_Got and i = i]
  have act: "active S_Got \<and> sole_active w \<or> \<not> some_switch active w" using kill_inv_facts(1) [OF assms(2)] by simp
  show ?thesis
    using assms E_Lock at own got kill_inv_facts(6) [OF assms(2) got(1)]
      got_waiting_active [of w]
    by (cases "w_inst w"; cases "ks_domain (w_ks w)"; 
      clarsimp simp: kill_invs terminate_domain_def sole' act split: if_splits option.splits)
next
  case (E_Woken i)
  then have at: "at_switch i S_Waiting w" using assms(1) by (auto split: if_splits)
  then have "some_waiting w" by (auto intro: switch_some)
  moreover note got_not_waiting [OF kill_inv_facts(1) [OF assms(2)]]
  note sole' = sole [where old = S_Waiting and i = i]
  have act: "active S_Waiting \<and> sole_active w \<or> \<not> some_switch active w" using kill_inv_facts(1) [OF assms(2)] by simp
  show ?thesis
    using assms E_Woken at kill_inv_facts(2) [OF assms(2)] calculation
    by (cases "w_inst w"; clarsimp simp: kill_invs sole' act split: if_splits option.splits)
next
  case (E_Release i)
  with assms(1) obtain r where at: "at_switch i (S_Releasing r) w" and w': "w' = set_switch i (S_Done r) w"
    by (auto simp: at_switch_def split: if_splits switch_pc.splits)
  show ?thesis
  proof (cases "is_ok r")
    case True
    have act: "active (S_Releasing r) \<and> sole_active w \<or> \<not> some_switch active w"
      using True kill_inv_facts(1) [OF assms(2)] by simp
    have some: "some_switch active w" "some_switch succeeded w" using at True by (auto intro: switch_some)
    have "\<not> some_panicked w"
      using sole_witness [OF kill_inv_facts(1) [OF assms(2)] at, of "\<lambda>pc. pc = S_Panicked"] True by auto
    then show ?thesis using assms(2) some kill_inv_facts(2,8) [OF assms(2)] True unfolding w'
      by (cases "w_inst w"; clarsimp simp: kill_invs sole [OF at act])
  next
    case False
    with assms(2) inert [OF at, of "S_Done r"] show ?thesis unfolding w' by (simp add: kill_invs)
  qed
qed (use assms in simp_all)

lemma kill_step_inv: "kill_step e w = Some w' \<Longrightarrow> kill_inv w \<Longrightarrow> kill_inv w'"
  by (auto simp: kill_step_def split: if_splits intro: alarm_event_inv switch_event_inv inst_event_inv)

lemma reachable_inv: "kill_reachable n w \<Longrightarrow> kill_inv w"
  by (induction rule: kill_reachable.induct) (auto intro: world_init_inv kill_step_inv)

lemma run_events_reachable: "kill_reachable n w \<Longrightarrow> run_events es w = Some w' \<Longrightarrow> kill_reachable n w'"
  by (induction es arbitrary: w) (auto split: option.splits intro: kill_next)

lemma reach_run: "run_events es (world_init n) = Some w \<Longrightarrow> kill_reachable n w"
  by (rule run_events_reachable [OF kill_init])

lemma inst_event_switches: "inst_event e w = Some w' \<Longrightarrow> w_switches w' = w_switches w"
  by (cases e; cases "w_inst w"; simp add: inst_locked_def inst_panic_def disable_termination_def
      split: if_splits rresult.splits; clarsimp)

lemma alarm_event_switches: "alarm_event w = Some w' \<Longrightarrow> w_switches w' = w_switches w"
  by (auto simp: alarm_event_def split: if_splits)

lemma switch_event_inst: "switch_event e w = Some w' \<Longrightarrow> w_inst w' = w_inst w"
  by (cases e) (auto simp: disable_termination_def split: if_splits kill_action.splits switch_pc.splits)

lemma alarm_event_inst: "alarm_event w = Some w' \<Longrightarrow> w_inst w' = I_Panicked \<Longrightarrow> w_inst w = I_Panicked"
  by (auto simp: alarm_event_def split: if_splits)

lemma inst_event_panic:
  assumes "inst_event e w = Some w'" and "kill_inv w" and "w_inst w' = I_Panicked" and "w_inst w \<noteq> I_Panicked"
  shows "e = E_Exit_Lock \<and> strong_count w \<noteq> 1 \<or> e = E_Desched_Domain \<and> some_panicked w"
proof -
  have "pc_ok (w_inst w) (w_ks w)" "\<not> ks_ignore_alarm (w_ks w) \<or> on_way_out (w_inst w) \<or> w_inst w \<in> {I_Done, I_Panicked}"
    "w_poisoned w \<longrightarrow> w_inst w = I_Desched False \<and> some_panicked w \<or> w_inst w = I_Panicked"
    using assms(2) by (auto simp: kill_inv_def alarm_inv_def poison_inv_def)
  with assms(1,3,4) show ?thesis
    by (cases e; cases "w_inst w"; simp; cases "ks_domain (w_ks w)";
        clarsimp simp: kill_ops inst_locked_def inst_panic_def split: if_splits)
qed

lemma switch_event_panic:
  assumes "switch_event e w = Some w'" and "kill_inv w" and "switch_at w' i = S_Panicked" and "switch_at w i \<noteq> S_Panicked"
  shows "e = E_Lock i \<and> w_inst w = I_Desched False \<and> ks_ignore_alarm (w_ks w)"
proof (cases e)
  case (E_Lock j)
  have pc: "pc_ok (w_inst w) (w_ks w)" and po: "some_got w \<longrightarrow> \<not> w_poisoned w"
    and ig: "on_way_out (w_inst w) \<and> ks_domain (w_ks w) = D_Guest \<longrightarrow> ks_ignore_alarm (w_ks w) \<or> \<not> some_got w"
    and pa: "w_inst w = I_Panicked \<longrightarrow> w_poisoned w"
    using assms(2) by (auto simp: kill_inv_def alarm_inv_def poison_inv_def)
  have got: "some_got w" using assms(1) E_Lock by (auto simp: at_switch_def some_switch_def split: if_splits)
  have "j = i \<and> terminate_domain (w_ks w) = KA_Panic"
    using assms E_Lock po got by (auto split: if_splits kill_action.splits)
  moreover from this have "ks_domain (w_ks w) = D_Guest \<and> ks_thread_id (w_ks w) = None"
    by (auto simp: terminate_domain_def split: domain.splits option.splits)
  ultimately show ?thesis using pc ig pa po got E_Lock by (cases "w_inst w") auto
qed (use assms in \<open>auto simp: disable_termination_def split: if_splits switch_pc.splits\<close>)

lemma run_example: "run_events es w = Some w' \<Longrightarrow> P w' \<Longrightarrow> Q es \<Longrightarrow> \<exists>es w'. run_events es w = Some w' \<and> P w' \<and> Q es"
  by blast

lemmas kill_eval = world_init_def kill_state_new_def kill_step_def kill_ops inst_locked_def inst_panic_def
  at_switch_def set_switch_def strong_count_def terminate_domain_def alarm_event_def switch_at_def

definition terminate_trace :: "nat \<Rightarrow> kill_state \<Rightarrow> kill_event list" where
  "terminate_trace i ks =
     (if \<not> ks_terminable ks then [E_Upgrade i, E_Swap i, E_Release i]
      else if ks_domain ks = D_Guest
      then [E_Upgrade i, E_Swap i, E_Lock i, E_Alarm, E_Restore, E_Desched_Tid, E_Woken i, E_Release i]
      else [E_Upgrade i, E_Swap i, E_Lock i, E_Release i])"

section \<open>Properties\<close>

text \<open>C2: A successful kill is effective and unique: in every interleaving, once a call of
  \<open>KillSwitch::terminate\<close> has returned \<open>Ok\<close>, whatever the success, the instance does not run
  guest code (and, since every later state is reachable too, never will again with this kill state),
  and no other kill switch succeeds.\<close>

theorem terminate_effective:
  assumes "kill_reachable n w" and "switch_at w i = S_Done (Ok r)"
  shows "\<not> in_guest (w_inst w) \<and> (\<forall>j r'. switch_at w j = S_Done (Ok r') \<longrightarrow> j = i)"
proof -
  note inv = reachable_inv [OF assms(1)]
  have "some_switch succeeded w" using assms(2) by (subst some_switch_at) (auto intro: exI [of _ i])
  then have "ks_domain (w_ks w) \<in> {D_Terminated, D_Cancelled}" by (rule kill_inv_facts(7) [OF inv])
  then have "\<not> in_guest (w_inst w)" using kill_inv_facts(3) [OF inv] by (cases "w_inst w") (auto split: if_splits)
  moreover have "j = i" if "switch_at w j = S_Done (Ok r')" for j r'
    using kill_inv_facts(1) [OF inv] that assms(2) by (simp add: sole_active_def)
  ultimately show ?thesis by blast
qed

theorem terminate_effective_witness:
  "\<exists>w. run_events [E_Schedule 1, E_Enter, E_Begin_Hostcall, E_Upgrade 1, E_Swap 1, E_Lock 1, E_Release 1,
      E_Upgrade 0, E_Swap 0, E_Release 0, E_End_Hostcall] (world_init 2) = Some w \<and>
     w_switches w = [S_Done (Err KE_NotTerminable), S_Done (Ok KS_Pending)] \<and> w_inst w = I_Leaving False \<and>
     \<not> in_guest (w_inst w)"
proof -
  obtain w where run: "run_events [E_Schedule 1, E_Enter, E_Begin_Hostcall, E_Upgrade 1, E_Swap 1, E_Lock 1,
      E_Release 1, E_Upgrade 0, E_Swap 0, E_Release 0, E_End_Hostcall] (world_init 2) = Some w"
    and sw: "w_switches w = [S_Done (Err KE_NotTerminable), S_Done (Ok KS_Pending)]" and pc: "w_inst w = I_Leaving False"
    by (simp add: kill_eval numeral_2_eq_2)
  have "switch_at w 1 = S_Done (Ok KS_Pending)" using sw by (simp add: switch_at_def)
  from terminate_effective [OF reach_run [OF run] this] run sw pc show ?thesis by blast
qed

text \<open>An alarm acts on guest code only: whenever a \<open>SIGALRM\<close> is delivered, it moves the
  instance only out of guest code (to the host, terminating it), never out of a hostcall or host code;
  and it reaches a thread whose handlers are the host's only after a fault has silenced it.\<close>

theorem alarm_only_in_guest:
  assumes "kill_reachable n w" and "kill_step E_Alarm w = Some w'"
  shows "(w_inst w' \<noteq> w_inst w \<longrightarrow> in_guest (w_inst w) \<and> w_inst w' = I_Leaving False) \<and>
    (w_host_alarm w' \<longrightarrow> ks_ignore_alarm (w_ks w'))"
proof -
  have step: "alarm_event w = Some w'" using assms(2) by (simp add: kill_step_def)
  have "kill_inv w'" using reachable_inv [OF assms(1)] alarm_event_inv [OF step] by blast
  then have "w_host_alarm w' \<longrightarrow> ks_ignore_alarm (w_ks w')" by (simp add: kill_inv_def alarm_inv_def)
  moreover have "w_alarm w \<and> \<not> ks_ignore_alarm (w_ks w) \<longrightarrow> in_guest (w_inst w)"
    using reachable_inv [OF assms(1)] by (simp add: kill_inv_def alarm_inv_def)
  ultimately show ?thesis
    using step by (auto simp: alarm_event_def alarm_active_def split: if_splits)
qed

theorem alarm_only_in_guest_witness:
  "\<exists>w w'. run_events [E_Schedule 1, E_Enter, E_Upgrade 0, E_Swap 0, E_Lock 0] (world_init 1) = Some w \<and>
     kill_step E_Alarm w = Some w' \<and> w_inst w' \<noteq> w_inst w \<and> in_guest (w_inst w)"
proof -
  obtain w where run: "run_events [E_Schedule 1, E_Enter, E_Upgrade 0, E_Swap 0, E_Lock 0] (world_init 1) = Some w"
    and step: "kill_step E_Alarm w = Some (w\<lparr>w_alarm := False, w_inst := I_Leaving False\<rparr>)"
    and pc: "w_inst w = I_Guest"
    by (simp add: kill_eval)
  from alarm_only_in_guest [OF reach_run [OF run] step] run step pc show ?thesis by auto
qed

text \<open>C28: A guest that returns while a kill switch fires is not stuck: from every reachable state in which
  \<open>exit_guest_region\<close> loops, the kill switch that holds the flag can send its alarm without waiting for
  anything, and the alarm takes the instance back to the host.\<close>

theorem hang_ends:
  assumes "kill_reachable n w" and "w_inst w = I_Hang"
  shows "\<exists>es w'. run_events es w = Some w' \<and> w_inst w' = I_Leaving False \<and> set es \<subseteq> {E_Alarm} \<union> range E_Lock"
proof -
  have flag: "flag_inv w" and lock: "lock_inv w" and al: "alarm_inv w" and po: "poison_inv w" and pc: "pc_ok I_Hang (w_ks w)"
    using reachable_inv [OF assms(1)] assms(2) by (simp_all add: kill_inv_def)
  have quiet: "\<not> ks_ignore_alarm (w_ks w)" using al assms(2) by (simp add: alarm_inv_def)
  show ?thesis
  proof (cases "w_owner w")
    case None
    then have "some_got w"
      using flag owner_iff_waiting [of "w_owner w" w] lock assms(2) pc by (auto simp: flag_inv_def lock_inv_def)
    then obtain i where at: "at_switch i S_Got w" by (auto simp: some_switch_def at_switch_def)
    obtain tid where "ks_thread_id (w_ks w) = Some tid" using pc by auto
    then have "run_events [E_Lock i, E_Alarm] w = Some ((set_switch i S_Waiting
        (w\<lparr>w_owner := Some i, w_alarm := True\<rparr>))\<lparr>w_alarm := False, w_inst := I_Leaving False\<rparr>)"
      using at None pc po quiet assms(2)
      by (simp add: kill_step_def terminate_domain_def alarm_event_def alarm_active_def poison_inv_def)
    then show ?thesis by (rule run_example) auto
  next
    case (Some i)
    then have "run_events [E_Alarm] w = Some (w\<lparr>w_alarm := False, w_inst := I_Leaving False\<rparr>)"
      using lock quiet assms(2) by (simp add: kill_step_def alarm_event_def alarm_active_def lock_inv_def)
    then show ?thesis by (rule run_example) auto
  qed
qed

theorem hang_ends_witness:
  "\<exists>w. run_events [E_Schedule 1, E_Enter, E_Upgrade 0, E_Swap 0, E_Return, E_Exit_Swap] (world_init 1) = Some w \<and>
     w_inst w = I_Hang \<and> (\<exists>es w'. run_events es w = Some w' \<and> w_inst w' = I_Leaving False)"
proof -
  obtain w where run: "run_events [E_Schedule 1, E_Enter, E_Upgrade 0, E_Swap 0, E_Return, E_Exit_Swap] (world_init 1) = Some w"
    and pc: "w_inst w = I_Hang"
    by (simp add: kill_eval)
  from hang_ends [OF reach_run [OF run] pc] run pc show ?thesis by blast
qed

text \<open>The panics of the protocol are exactly two races. The instance's thread panics only when leaving
  the guest while a kill switch holds a reference (the assertion on \<open>Arc::strong_count\<close>), or when it is
  descheduled after a kill switch has panicked; a kill switch panics only between the two halves of
  \<open>deschedule\<close>, after a fault has silenced its alarm. No other panic of \<open>execution.rs\<close> can happen.\<close>

theorem panic_races:
  assumes "kill_reachable n w" and "kill_step e w = Some w'"
  shows "(w_inst w' = I_Panicked \<and> w_inst w \<noteq> I_Panicked \<longrightarrow>
      e = E_Exit_Lock \<and> strong_count w \<noteq> 1 \<or> e = E_Desched_Domain \<and> some_panicked w) \<and>
    (\<forall>i. switch_at w' i = S_Panicked \<and> switch_at w i \<noteq> S_Panicked \<longrightarrow>
      e = E_Lock i \<and> w_inst w = I_Desched False \<and> ks_ignore_alarm (w_ks w))"
proof -
  note inv = reachable_inv [OF assms(1)]
  have inst: "switch_at w' = switch_at w" if "w_switches w' = w_switches w"
    using that by (simp add: switch_at_def fun_eq_iff)
  show ?thesis
  proof (cases "e = E_Alarm")
    case True
    then have "alarm_event w = Some w'" using assms(2) by (simp add: kill_step_def)
    then show ?thesis using alarm_event_inst [of w w'] inst [OF alarm_event_switches] by auto
  next
    case False
    show ?thesis
    proof (cases "is_switch_event e")
      case True
      then have sw: "switch_event e w = Some w'" using assms(2) False by (simp add: kill_step_def)
      then show ?thesis using switch_event_inst [OF sw] switch_event_panic [OF sw inv] by auto
    next
      case False2: False
      then have ev: "inst_event e w = Some w'" using assms(2) False by (simp add: kill_step_def)
      then show ?thesis using inst_event_panic [OF ev inv] inst [OF inst_event_switches [OF ev]] by auto
    qed
  qed
qed

theorem panic_races_witness:
  "\<exists>w w'. run_events [E_Schedule 1, E_Enter, E_Return, E_Upgrade 0, E_Exit_Swap] (world_init 1) = Some w \<and>
     kill_step E_Exit_Lock w = Some w' \<and> w_inst w' = I_Panicked \<and> strong_count w \<noteq> 1"
proof -
  obtain w where run: "run_events [E_Schedule 1, E_Enter, E_Return, E_Upgrade 0, E_Exit_Swap] (world_init 1) = Some w"
    and step: "kill_step E_Exit_Lock w = Some (inst_panic w)" and pc: "w_inst w = I_ExitLock"
    by (simp add: kill_eval)
  from panic_races [OF reach_run [OF run] step] run step pc show ?thesis by (auto simp: inst_panic_def)
qed

text \<open>The first race happens: a kill switch that has upgraded its reference, but not yet taken the flag,
  makes a guest that returns normally panic.\<close>

theorem exit_race_panics:
  "\<exists>w. run_events [E_Schedule 1, E_Enter, E_Return, E_Upgrade 0, E_Exit_Swap, E_Exit_Lock] (world_init 1) = Some w \<and>
     w_inst w = I_Panicked \<and> w_switches w = [S_Upgraded]"
  by (simp add: kill_eval)

text \<open>The second race happens: a guest faults after a kill switch has taken the flag; the switch takes the
  domain lock between the two halves of \<open>deschedule\<close>, finds no thread, and panics with the lock held, so that
  the host thread panics on the poisoned lock.\<close>

theorem fault_race_panics:
  "\<exists>w. run_events [E_Schedule 1, E_Enter, E_Upgrade 0, E_Swap 0, E_Trap, E_Trap_Switch, E_Restore, E_Desched_Tid,
      E_Lock 0, E_Desched_Domain] (world_init 1) = Some w \<and>
     w_inst w = I_Panicked \<and> w_switches w = [S_Panicked]"
  by (simp add: kill_eval)

text \<open>The silenced alarm can reach the host: after a fault, the host's signal handlers are back before the
  thread is descheduled, and the kill switch sends \<open>SIGALRM\<close> in between.\<close>

theorem fault_race_alarms_host:
  "\<exists>w. run_events [E_Schedule 1, E_Enter, E_Upgrade 0, E_Swap 0, E_Trap, E_Trap_Switch, E_Restore, E_Lock 0,
      E_Alarm] (world_init 1) = Some w \<and> w_host_alarm w"
  by (simp add: kill_eval)

text \<open>Without interference, the atomic actions of a kill switch compute \<open>KillSwitch::terminate\<close>: the
  interleaved model run for one switch alone ends with the same result and the same kill state.\<close>

theorem terminate_uninterrupted:
  assumes "at_switch i S_Idle w" and "w_owner w = None" and "\<not> w_poisoned w" and "strong_count w \<noteq> 0"
    and "ks_domain (w_ks w) = D_Guest \<longrightarrow>
      w_inst w = I_Guest \<and> ks_thread_id (w_ks w) \<noteq> None \<and> alarm_active (w_ks w)"
    and "terminate (\<lambda>tid ks. ks) (Some (w_ks w)) = (r, Some ks')"
  shows "\<exists>w'. run_events (terminate_trace i (w_ks w)) w = Some w' \<and> switch_at w' i = S_Done r \<and> w_ks w' = ks'"
  using assms
  by (cases "ks_terminable (w_ks w)"; cases "ks_domain (w_ks w)")
    (auto simp: terminate_trace_def terminate_def kill_step_def at_switch_def set_switch_def disable_termination_def
      terminate_domain_def alarm_event_def alarm_active_def deschedule_tid_def switch_at_def)

theorem terminate_uninterrupted_witness:
  "\<exists>w'. run_events (terminate_trace 0 kill_state_new) (world_init 1) = Some w' \<and>
     switch_at w' 0 = S_Done (Ok KS_Cancelled) \<and> ks_domain (w_ks w') = D_Cancelled"
proof -
  have "terminate (\<lambda>tid ks. ks) (Some (w_ks (world_init 1))) =
      (Ok KS_Cancelled, Some (kill_state_new\<lparr>ks_terminable := False, ks_domain := D_Cancelled\<rparr>))"
    by (simp add: terminate_def world_init_def kill_state_new_def disable_termination_def terminate_domain_def)
  from terminate_uninterrupted [OF _ _ _ _ _ this, of 0] show ?thesis
    by (auto simp: world_init_def at_switch_def strong_count_def kill_state_new_def)
qed

end
