(* ===== verification/Embed_Ctx.thy ===== *)
theory Embed_Ctx
  imports Runtime_Error "HOL-Library.AList"
begin

text \<open>
  The embedder context (\<open>embed_ctx.rs\<close>): a map with at most one value of every type, each in a
  \<open>RefCell\<close>. A \<open>TypeId\<close> is the type's name, the hash map is an association list updated
  with \<open>AList\<close>, and a borrow guard that is alive is counted in the cell's flag, so the operations
  that hand out a guard return the map with the flag taken. The lemmas show the laws of a typed map and
  that no \<open>expect\<close> in the code can fail.
\<close>

section \<open>RefCell\<close>

datatype borrow_flag = Readers nat | Writer

record 'a ref_cell =
  cell_value :: 'a
  cell_flag :: borrow_flag

definition ref_cell_new :: "'a \<Rightarrow> 'a ref_cell" where
  "ref_cell_new x = \<lparr>cell_value = x, cell_flag = Readers 0\<rparr>"

fun flag_borrow :: "borrow_flag \<Rightarrow> borrow_flag option" where
  "flag_borrow (Readers n) = Some (Readers (Suc n))"
| "flag_borrow Writer = None"

fun flag_borrow_mut :: "borrow_flag \<Rightarrow> borrow_flag option" where
  "flag_borrow_mut (Readers 0) = Some Writer"
| "flag_borrow_mut _ = None"

fun flag_release :: "borrow_flag \<Rightarrow> borrow_flag" where
  "flag_release (Readers n) = Readers (n - 1)"
| "flag_release Writer = Readers 0"

definition try_borrow :: "'a ref_cell \<Rightarrow> ('a \<times> 'a ref_cell) option" where
  "try_borrow c = map_option (\<lambda>f. (cell_value c, c\<lparr>cell_flag := f\<rparr>)) (flag_borrow (cell_flag c))"

definition try_borrow_mut :: "'a ref_cell \<Rightarrow> ('a \<times> 'a ref_cell) option" where
  "try_borrow_mut c = map_option (\<lambda>f. (cell_value c, c\<lparr>cell_flag := f\<rparr>)) (flag_borrow_mut (cell_flag c))"

definition release :: "'a ref_cell \<Rightarrow> 'a ref_cell" where
  "release c = c\<lparr>cell_flag := flag_release (cell_flag c)\<rparr>"

text \<open>A write through a \<open>RefMut\<close>.\<close>

definition write_cell :: "'a \<Rightarrow> 'a ref_cell \<Rightarrow> 'a ref_cell" where
  "write_cell x c = c\<lparr>cell_value := x\<rparr>"

section \<open>CtxMap (embed\_ctx.rs)\<close>

type_synonym ctx_map = "(string \<times> any ref_cell) list"

datatype borrow_error = BorrowConflict

definition ctx_map_new :: ctx_map where
  "ctx_map_new = []"

definition ctx_clear :: "ctx_map \<Rightarrow> ctx_map" where
  "ctx_clear m = []"

definition ctx_contains :: "string \<Rightarrow> ctx_map \<Rightarrow> bool" where
  "ctx_contains t m = (map_of m t \<noteq> None)"

text \<open>\<open>downcast\<close> of a boxed value to type \<open>t\<close>, followed by \<open>expect\<close>.\<close>

definition downcast_expect :: "string \<Rightarrow> any \<Rightarrow> any run_res" where
  "downcast_expect t a =
     (if any_type a = t then Ok a
      else Panic ''value stored with TypeId::of::<T> is always type T'')"

definition ctx_borrow_with ::
  "(any ref_cell \<Rightarrow> (any \<times> any ref_cell) option) \<Rightarrow> string \<Rightarrow> ctx_map \<Rightarrow>
   ((borrow_error, any) rresult option \<times> ctx_map) run_res" where
  "ctx_borrow_with borrow t m =
     (case map_of m t of
        None \<Rightarrow> Ok (None, m)
      | Some c \<Rightarrow>
          (case borrow c of
             None \<Rightarrow> Ok (Some (Err BorrowConflict), m)
           | Some (a, c') \<Rightarrow>
               rbind (downcast_expect t a) (\<lambda>x. Ok (Some (Ok x), AList.update t c' m))))"

definition ctx_try_get :: "string \<Rightarrow> ctx_map \<Rightarrow> ((borrow_error, any) rresult option \<times> ctx_map) run_res" where
  "ctx_try_get t m = ctx_borrow_with try_borrow t m"

definition ctx_try_get_mut :: "string \<Rightarrow> ctx_map \<Rightarrow> ((borrow_error, any) rresult option \<times> ctx_map) run_res" where
  "ctx_try_get_mut t m = ctx_borrow_with try_borrow_mut t m"

text \<open>Dropping the guard of a borrow of type \<open>t\<close>.\<close>

definition ctx_release :: "string \<Rightarrow> ctx_map \<Rightarrow> ctx_map" where
  "ctx_release t m = (case map_of m t of None \<Rightarrow> m | Some c \<Rightarrow> AList.update t (release c) m)"

fun downcast_prev :: "string \<Rightarrow> any ref_cell option \<Rightarrow> any option run_res" where
  "downcast_prev t None = Ok None"
| "downcast_prev t (Some c) = map_res Some (downcast_expect t (cell_value c))"

definition ctx_insert :: "any \<Rightarrow> ctx_map \<Rightarrow> (any option \<times> ctx_map) run_res" where
  "ctx_insert x m =
     (let t = any_type x in
      map_res (\<lambda>prev. (prev, AList.update t (ref_cell_new x) m)) (downcast_prev t (map_of m t)))"

definition ctx_remove :: "string \<Rightarrow> ctx_map \<Rightarrow> (any option \<times> ctx_map) run_res" where
  "ctx_remove t m = map_res (\<lambda>prev. (prev, AList.delete t m)) (downcast_prev t (map_of m t))"

definition is_any_value_borrowed :: "ctx_map \<Rightarrow> bool" where
  "is_any_value_borrowed m = list_ex (\<lambda>(t, c). try_borrow_mut c = None) m"

section \<open>The typed map\<close>

text \<open>What the map holds of each type.\<close>

definition ctx_lookup :: "string \<Rightarrow> ctx_map \<Rightarrow> any option" where
  "ctx_lookup t m = map_option cell_value (map_of m t)"

definition ctx_inv :: "ctx_map \<Rightarrow> bool" where
  "ctx_inv m = (distinct (map fst m) \<and> list_all (\<lambda>(t, c). any_type (cell_value c) = t) m)"

text \<open>
  The interface the runtime relies on: a map with at most one value of every type, whose operations
  return what was there before, do not touch other types, and never panic.
\<close>

locale typed_map =
  fixes inv :: "'m \<Rightarrow> bool" and lookup :: "string \<Rightarrow> 'm \<Rightarrow> any option" and empty :: 'm
    and insert_op :: "any \<Rightarrow> 'm \<Rightarrow> (any option \<times> 'm) run_res"
    and remove_op :: "string \<Rightarrow> 'm \<Rightarrow> (any option \<times> 'm) run_res"
  assumes empty_inv: "inv empty" and empty_lookup: "lookup t empty = None"
    and insert_spec: "inv m \<Longrightarrow> \<exists>m'. insert_op x m = Ok (lookup (any_type x) m, m') \<and> inv m' \<and>
      lookup t m' = (if t = any_type x then Some x else lookup t m)"
    and remove_spec: "inv m \<Longrightarrow> \<exists>m'. remove_op u m = Ok (lookup u m, m') \<and> inv m' \<and>
      lookup t m' = (if t = u then None else lookup t m)"
    and typed: "inv m \<Longrightarrow> lookup t m = Some x \<Longrightarrow> any_type x = t"
begin

lemma insert_returns:
  assumes "inv m" and "insert_op x m = Ok (prev, m')"
  shows "prev = lookup (any_type x) m" and "inv m'"
    and "lookup t m' = (if t = any_type x then Some x else lookup t m)"
  using insert_spec [OF assms(1), of x t] assms(2) by auto

lemma remove_returns:
  assumes "inv m" and "remove_op u m = Ok (prev, m')"
  shows "prev = lookup u m" and "inv m'" and "lookup t m' = (if t = u then None else lookup t m)"
  using remove_spec [OF assms(1), of u t] assms(2) by auto

text \<open>Inserting and removing again gives the value back and the map without that type.\<close>

lemma insert_remove:
  assumes "inv m"
  shows "\<exists>m' m''. insert_op x m = Ok (lookup (any_type x) m, m') \<and>
    remove_op (any_type x) m' = Ok (Some x, m'') \<and> inv m'' \<and>
    (\<forall>t. lookup t m'' = (if t = any_type x then None else lookup t m))"
proof -
  obtain m' where ins: "insert_op x m = Ok (lookup (any_type x) m, m')"
    using insert_spec [OF assms, of x undefined] by blast
  note m' = insert_returns [OF assms ins]
  obtain m'' where rem: "remove_op (any_type x) m' = Ok (lookup (any_type x) m', m'')"
    using remove_spec [OF m'(2), of "any_type x" undefined] by blast
  note m'' = remove_returns [OF m'(2) rem]
  show ?thesis using ins rem m''(2) m''(3) m'(3) by auto
qed

end

section \<open>Lemmas\<close>

lemma ctx_inv_map_of: "ctx_inv m \<Longrightarrow> map_of m t = Some c \<Longrightarrow> any_type (cell_value c) = t"
  by (auto simp: ctx_inv_def list_all_iff dest!: map_of_SomeD)

lemma ctx_inv_update: "ctx_inv m \<Longrightarrow> any_type (cell_value c) = t \<Longrightarrow> ctx_inv (AList.update t c m)"
  unfolding ctx_inv_def list_all_iff
proof (elim conjE, intro conjI ballI)
  assume d: "distinct (map fst m)" and all: "\<forall>x\<in>set m. case x of (t, c) \<Rightarrow> any_type (cell_value c) = t"
    and c: "any_type (cell_value c) = t"
  show d': "distinct (map fst (AList.update t c m))" using d by (rule distinct_update)
  fix x assume "x \<in> set (AList.update t c m)"
  moreover obtain u c' where x: "x = (u, c')" by fastforce
  ultimately have "map_of (AList.update t c m) u = Some c'" using d' by simp
  then have "u = t \<and> c' = c \<or> map_of m u = Some c'" by (auto simp: update_conv' split: if_splits)
  then show "case x of (t, c) \<Rightarrow> any_type (cell_value c) = t" using all c x by (auto dest!: map_of_SomeD)
qed

lemma ctx_inv_delete: "ctx_inv m \<Longrightarrow> ctx_inv (AList.delete t m)"
  using distinct_delete [of m t] by (auto simp: ctx_inv_def list_all_iff AList.delete_eq)

lemma downcast_prev_Ok: "ctx_inv m \<Longrightarrow> downcast_prev t (map_of m t) = Ok (ctx_lookup t m)"
  by (cases "map_of m t") (auto simp: ctx_lookup_def downcast_expect_def dest: ctx_inv_map_of)

interpretation ctx: typed_map ctx_inv ctx_lookup ctx_map_new ctx_insert ctx_remove
proof (unfold_locales, goal_cases)
  case 1 show ?case by (simp add: ctx_inv_def ctx_map_new_def)
next
  case 2 show ?case by (simp add: ctx_lookup_def ctx_map_new_def)
next
  case (3 m x t)
  then show ?case
    by (auto simp: ctx_insert_def Let_def downcast_prev_Ok ctx_lookup_def update_conv' ref_cell_new_def
        intro: ctx_inv_update)
next
  case (4 m u t)
  then show ?case
    by (auto simp: ctx_remove_def downcast_prev_Ok ctx_lookup_def delete_conv' intro: ctx_inv_delete)
next
  case (5 m t x)
  then show ?case by (auto simp: ctx_lookup_def dest: ctx_inv_map_of)
qed

lemma flag_borrow_mut_None: "flag_borrow_mut f = None \<longleftrightarrow> f \<noteq> Readers 0"
  by (cases f rule: flag_borrow_mut.cases) auto

lemma try_borrow_mut_None: "try_borrow_mut c = None \<longleftrightarrow> cell_flag c \<noteq> Readers 0"
  by (simp add: try_borrow_mut_def flag_borrow_mut_None)

lemma is_any_value_borrowed_iff:
  "ctx_inv m \<Longrightarrow> is_any_value_borrowed m \<longleftrightarrow> (\<exists>t c. map_of m t = Some c \<and> cell_flag c \<noteq> Readers 0)"
  by (auto simp: is_any_value_borrowed_def list_ex_iff try_borrow_mut_None ctx_inv_def dest: map_of_SomeD)

section \<open>Properties\<close>

text \<open>The embedder context is a typed map: inserting a value returns the one of its type that was there,
  a later removal returns the inserted value, values of other types are untouched, the invariant is kept,
  and the downcasts never fail.\<close>

theorem ctx_insert_remove:
  assumes "ctx_inv m"
  shows "\<exists>m' m''. ctx_insert x m = Ok (ctx_lookup (any_type x) m, m') \<and>
    ctx_remove (any_type x) m' = Ok (Some x, m'') \<and> ctx_inv m'' \<and>
    (\<forall>t. ctx_lookup t m'' = (if t = any_type x then None else ctx_lookup t m))"
  by (rule ctx.insert_remove [OF assms])

theorem ctx_insert_remove_witness:
  "\<exists>m' m''. ctx_insert (Any ''u32'' 7) ctx_map_new = Ok (None, m') \<and>
     ctx_remove ''u32'' m' = Ok (Some (Any ''u32'' 7), m'') \<and> ctx_lookup ''u32'' m'' = None"
  using ctx_insert_remove [OF ctx.empty_inv, of "Any ''u32'' 7"]
  unfolding any.sel ctx.empty_lookup by auto

text \<open>A mutable borrow of a context value is exclusive: it is granted exactly when a value of the type is
  there and not borrowed at all; it returns that value, leaves every stored value as it was, and until it
  is dropped every further borrow of the type is refused. A missing type or a refused borrow changes
  nothing.\<close>

theorem ctx_borrow_exclusive:
  assumes "ctx_inv m"
  shows "\<exists>r m'. ctx_try_get_mut t m = Ok (r, m') \<and> ctx_inv m' \<and> ctx_lookup u m' = ctx_lookup u m \<and>
      (case map_of m t of
         None \<Rightarrow> r = None \<and> m' = m
       | Some c \<Rightarrow> (if cell_flag c = Readers 0
           then r = Some (Ok (cell_value c)) \<and> is_any_value_borrowed m' \<and>
             ctx_try_get t m' = Ok (Some (Err BorrowConflict), m') \<and>
             ctx_try_get_mut t m' = Ok (Some (Err BorrowConflict), m')
           else r = Some (Err BorrowConflict) \<and> m' = m))"
proof (cases "map_of m t")
  case None
  with assms show ?thesis by (auto simp: ctx_try_get_mut_def ctx_borrow_with_def)
next
  case (Some c)
  note ty = ctx_inv_map_of [OF assms Some]
  show ?thesis
  proof (cases "cell_flag c = Readers 0")
    case False
    then have "try_borrow_mut c = None" by (simp add: try_borrow_mut_None)
    with assms Some False show ?thesis by (auto simp: ctx_try_get_mut_def ctx_borrow_with_def)
  next
    case True
    let ?c = "c\<lparr>cell_flag := Writer\<rparr>" let ?m = "AList.update t (c\<lparr>cell_flag := Writer\<rparr>) m"
    have bm: "try_borrow_mut c = Some (cell_value c, ?c)" using True by (simp add: try_borrow_mut_def)
    have get: "ctx_try_get_mut t m = Ok (Some (Ok (cell_value c)), ?m)"
      using Some bm ty by (simp add: ctx_try_get_mut_def ctx_borrow_with_def downcast_expect_def)
    have inv: "ctx_inv ?m" using ctx_inv_update [OF assms, of ?c t] ty by simp
    have at: "map_of ?m t = Some ?c" by (simp add: update_conv')
    have busy: "try_borrow ?c = None" "try_borrow_mut ?c = None" by (simp_all add: try_borrow_def try_borrow_mut_def)
    have "is_any_value_borrowed ?m" using is_any_value_borrowed_iff [OF inv] at by force
    moreover have "ctx_lookup u ?m = ctx_lookup u m" using Some by (simp add: ctx_lookup_def update_conv')
    moreover have "ctx_try_get t ?m = Ok (Some (Err BorrowConflict), ?m)"
      "ctx_try_get_mut t ?m = Ok (Some (Err BorrowConflict), ?m)"
      using at busy by (simp_all add: ctx_try_get_def ctx_try_get_mut_def ctx_borrow_with_def)
    ultimately show ?thesis using get inv Some True by auto
  qed
qed

theorem ctx_borrow_exclusive_witness:
  "\<exists>m'. ctx_try_get_mut ''u32'' [(''u32'', ref_cell_new (Any ''u32'' 7))] = Ok (Some (Ok (Any ''u32'' 7)), m') \<and>
     ctx_try_get ''u32'' m' = Ok (Some (Err BorrowConflict), m')"
proof -
  have "ctx_inv [(''u32'', ref_cell_new (Any ''u32'' 7))]" by (simp add: ctx_inv_def ref_cell_new_def)
  from ctx_borrow_exclusive [OF this, of "''u32''" "''u32''"] show ?thesis by (auto simp: ref_cell_new_def)
qed

end
