(* ===== verification/Instance_Data.thy ===== *)
theory Instance_Data
  imports Kill_State Embed_Ctx Context_Switch Alloc
begin

text \<open>
  The data of an instance: its state machine (\<open>instance/state.rs\<close>), the results of a run
  (\<open>RunResult\<close>, \<open>InternalRunResult\<close> and \<open>YieldedVal\<close> of \<open>instance.rs\<close>), the
  fields generated code shares with the runtime (\<open>lucet-module/src/runtime.rs\<close>), the instance record
  itself, and the operations on them that run no guest code: construction, instruction counting, memory
  growth and reset. A \<open>TypeId\<close> is a type name; a function pointer or boxed closure an
  embedder installs is a number naming it. Memory is passed explicitly.
\<close>

section \<open>Signals\<close>

datatype signal = SIGBUS | SIGFPE | SIGILL | SIGSEGV | SIGALRM | OtherSignal nat

record siginfo =
  si_signo :: signal
  si_addr :: u64

text \<open>The part of a \<open>ucontext_t\<close> the handler reads and writes.\<close>

record ucontext =
  uc_ip :: u64
  uc_rdi :: u64

section \<open>The state machine (instance/state.rs)\<close>

datatype state =
    NotStarted
  | Ready
  | Running bool
  | Faulted fault_details siginfo ucontext
  | Terminating termination_details
  | Terminated
  | Yielding any string
  | Yielded string
  | BoundExpired
  | Transitioning

fun is_not_started :: "state \<Rightarrow> bool" where
  "is_not_started NotStarted = True"
| "is_not_started _ = False"

fun is_ready :: "state \<Rightarrow> bool" where
  "is_ready Ready = True"
| "is_ready _ = False"

fun is_running :: "state \<Rightarrow> bool" where
  "is_running (Running _) = True"
| "is_running _ = False"

fun is_running_async :: "state \<Rightarrow> bool" where
  "is_running_async (Running async_context) = async_context"
| "is_running_async _ = False"

fun is_faulted :: "state \<Rightarrow> bool" where
  "is_faulted (Faulted _ _ _) = True"
| "is_faulted _ = False"

fun is_fatal :: "state \<Rightarrow> bool" where
  "is_fatal (Faulted details _ _) = fatal details"
| "is_fatal _ = False"

fun is_terminated :: "state \<Rightarrow> bool" where
  "is_terminated Terminated = True"
| "is_terminated _ = False"

fun is_yielded :: "state \<Rightarrow> bool" where
  "is_yielded (Yielded _) = True"
| "is_yielded _ = False"

fun is_yielding :: "state \<Rightarrow> bool" where
  "is_yielding (Yielding _ _) = True"
| "is_yielding _ = False"

fun is_bound_expired :: "state \<Rightarrow> bool" where
  "is_bound_expired BoundExpired = True"
| "is_bound_expired _ = False"

section \<open>Results of a run (instance.rs)\<close>

text \<open>A \<open>YieldedVal\<close> is the boxed value; \<open>EmptyYieldVal\<close> marks a yield without one.\<close>

definition empty_yield_val :: any where
  "empty_yield_val = Any ''lucet_runtime_internals::instance::EmptyYieldVal'' 0"

definition yielded_is :: "string \<Rightarrow> any \<Rightarrow> bool" where
  "yielded_is t v = (any_type v = t)"

definition yielded_is_none :: "any \<Rightarrow> bool" where
  "yielded_is_none v = yielded_is (any_type empty_yield_val) v"

definition yielded_downcast :: "string \<Rightarrow> any \<Rightarrow> (any, any) rresult" where
  "yielded_downcast t v = (if any_type v = t then Ok v else Err v)"

datatype run_result = Returned untyped_ret_val | YieldedResult any

fun run_returned :: "run_result \<Rightarrow> untyped_ret_val run_res" where
  "run_returned (Returned rv) = Ok rv"
| "run_returned (YieldedResult _) = Err InstanceNotReturned"

fun run_yielded :: "run_result \<Rightarrow> any run_res" where
  "run_yielded (Returned _) = Err InstanceNotYielded"
| "run_yielded (YieldedResult yv) = Ok yv"

definition is_returned :: "run_result \<Rightarrow> bool" where
  "is_returned r = is_ok (run_returned r)"

definition run_is_yielded :: "run_result \<Rightarrow> bool" where
  "run_is_yielded r = is_ok (run_yielded r)"

fun has_yielded :: "string \<Rightarrow> run_result \<Rightarrow> bool" where
  "has_yielded t (YieldedResult yv) = yielded_is t yv"
| "has_yielded t _ = False"

fun expect_returned :: "string \<Rightarrow> run_result \<Rightarrow> untyped_ret_val run_res" where
  "expect_returned msg (Returned rv) = Ok rv"
| "expect_returned msg (YieldedResult _) = Panic msg"

fun expect_yielded :: "string \<Rightarrow> run_result \<Rightarrow> any run_res" where
  "expect_yielded msg (YieldedResult yv) = Ok yv"
| "expect_yielded msg (Returned _) = Panic msg"

datatype internal_run_result = Normal run_result | InternalBoundExpired

fun internal_unwrap :: "internal_run_result \<Rightarrow> run_result run_res" where
  "internal_unwrap (Normal r) = Ok r"
| "internal_unwrap InternalBoundExpired = Panic ''should not have had a runtime bound''"

section \<open>The instance\<close>

record instance_runtime_data =
  globals_ptr :: u64
  instruction_count_adj :: i64
  instruction_count_bound :: i64
  stack_limit :: u64

definition LUCET_INSTANCE_MAGIC :: u64 where
  "LUCET_INSTANCE_MAGIC = 746932922"

record inst =
  inst_magic :: u64
  inst_embed_ctx :: ctx_map
  inst_module :: module_ops
  inst_ctx :: ctx
  inst_state :: state
  inst_kill_state :: kill_state
  inst_alloc :: alloc
  inst_fatal_handler :: nat
  inst_c_fatal_handler :: "nat option"
  inst_signal_handler :: nat
  inst_ensure_signal_handler_installed :: bool
  inst_ensure_sigstack_installed :: bool
  inst_entrypoint :: "function_handle option"
  inst_resumed_val :: "any option"
  inst_terminate_on_heap_oom :: bool
  inst_implicits :: instance_runtime_data

definition valid_magic :: "inst \<Rightarrow> bool" where
  "valid_magic i = (inst_magic i = LUCET_INSTANCE_MAGIC)"

text \<open>\<open>Drop for Instance\<close>.\<close>

definition instance_drop :: "inst \<Rightarrow> inst" where
  "instance_drop i = i\<lparr>inst_magic := 0\<rparr>"

subsection \<open>Fields shared with generated code\<close>

definition set_globals_ptr :: "u64 \<Rightarrow> inst \<Rightarrow> inst" where
  "set_globals_ptr p i = i\<lparr>inst_implicits := (inst_implicits i)\<lparr>globals_ptr := p\<rparr>\<rparr>"

text \<open>\<open>i64::try_from\<close> of a \<open>u64\<close>, followed by \<open>expect\<close>.\<close>

definition i64_expect :: "string \<Rightarrow> u64 \<Rightarrow> i64 run_res" where
  "i64_expect msg n = (if unat n < 2 ^ 63 then Ok n else Panic msg)"

definition get_instruction_count :: "inst \<Rightarrow> u64 option" where
  "get_instruction_count i =
     (if mo_instruction_count (inst_module i)
      then Some (instruction_count_bound (inst_implicits i) + instruction_count_adj (inst_implicits i))
      else None)"

definition set_instruction_count_and_bound :: "u64 \<Rightarrow> u64 \<Rightarrow> inst \<Rightarrow> inst run_res" where
  "set_instruction_count_and_bound instruction_count bound i =
     rbind (i64_expect ''instruction count too large'' instruction_count) (\<lambda>n.
     rbind (i64_expect ''bound too large'' bound) (\<lambda>b.
     Ok (i\<lparr>inst_implicits := (inst_implicits i)\<lparr>instruction_count_bound := b, instruction_count_adj := n - b\<rparr>\<rparr>)))"

definition set_instruction_bound_delta :: "u64 option \<Rightarrow> inst \<Rightarrow> inst run_res" where
  "set_instruction_bound_delta delta i =
     (let sum = instruction_count_adj (inst_implicits i) + instruction_count_bound (inst_implicits i) in
      rbind (i64_expect ''delta too large'' (case delta of None \<Rightarrow> 2 ^ 63 - 1 | Some d \<Rightarrow> d)) (\<lambda>d.
      Ok (i\<lparr>inst_implicits := (inst_implicits i)\<lparr>instruction_count_bound := sum + d, instruction_count_adj := - d\<rparr>\<rparr>)))"

definition set_hostcall_stack_reservation :: "inst \<Rightarrow> inst run_res" where
  "set_hostcall_stack_reservation i =
     (case alloc_slot_opt (inst_alloc i) of
        None \<Rightarrow> Panic ''reachable instance has a slot''
      | Some s \<Rightarrow> Ok (i\<lparr>inst_implicits := (inst_implicits i)\<lparr>
          stack_limit := slot_stack s + hostcall_reservation (slot_limits s)\<rparr>\<rparr>))"

subsection \<open>Settings\<close>

definition insert_embed_ctx :: "any \<Rightarrow> inst \<Rightarrow> (any option \<times> inst) run_res" where
  "insert_embed_ctx x i = map_res (\<lambda>(prev, c). (prev, i\<lparr>inst_embed_ctx := c\<rparr>)) (ctx_insert x (inst_embed_ctx i))"

definition remove_embed_ctx :: "string \<Rightarrow> inst \<Rightarrow> (any option \<times> inst) run_res" where
  "remove_embed_ctx t i = map_res (\<lambda>(prev, c). (prev, i\<lparr>inst_embed_ctx := c\<rparr>)) (ctx_remove t (inst_embed_ctx i))"

text \<open>Handlers are numbers that the embedder's tables interpret.\<close>

definition set_signal_handler :: "nat \<Rightarrow> inst \<Rightarrow> inst" where
  "set_signal_handler handler i = i\<lparr>inst_signal_handler := handler\<rparr>"

definition set_fatal_handler :: "nat \<Rightarrow> inst \<Rightarrow> inst" where
  "set_fatal_handler handler i = i\<lparr>inst_fatal_handler := handler\<rparr>"

definition set_c_fatal_handler :: "nat \<Rightarrow> inst \<Rightarrow> inst" where
  "set_c_fatal_handler handler i = i\<lparr>inst_c_fatal_handler := Some handler\<rparr>"

definition ensure_signal_handler_installed :: "bool \<Rightarrow> inst \<Rightarrow> inst" where
  "ensure_signal_handler_installed ensure i = i\<lparr>inst_ensure_signal_handler_installed := ensure\<rparr>"

definition ensure_sigstack_installed :: "bool \<Rightarrow> inst \<Rightarrow> inst" where
  "ensure_sigstack_installed ensure i = i\<lparr>inst_ensure_sigstack_installed := ensure\<rparr>"

subsection \<open>The instruction bound in generated code\<close>

text \<open>The check generated code makes after adding to \<open>instruction_count_adj\<close> (\<open>do_check\<close> in
  \<open>lucetc/src/function.rs\<close>): a signed comparison with zero.\<close>

definition bound_reached :: "i64 \<Rightarrow> bool" where
  "bound_reached adj = (0 \<le> sint adj)"

subsection \<open>Construction\<close>

definition DEFAULT_HANDLER :: nat where
  "DEFAULT_HANDLER = 0"

text \<open>\<open>implicits\<close> is what the page held before: its fields are all overwritten.\<close>

definition instance_new :: "instance_runtime_data \<Rightarrow> alloc \<Rightarrow> module_ops \<Rightarrow> ctx_map \<Rightarrow> inst run_res" where
  "instance_new implicits al module embed_ctx =
     rbind (alloc_slot al) (\<lambda>s.
     rbind (set_instruction_count_and_bound 0 0 (set_globals_ptr (slot_globals s)
       \<lparr>inst_magic = LUCET_INSTANCE_MAGIC, inst_embed_ctx = embed_ctx, inst_module = module,
        inst_ctx = context_new, inst_state = Ready, inst_kill_state = kill_state_new, inst_alloc = al,
        inst_fatal_handler = DEFAULT_HANDLER, inst_c_fatal_handler = None, inst_signal_handler = DEFAULT_HANDLER,
        inst_ensure_signal_handler_installed = True, inst_ensure_sigstack_installed = True,
        inst_entrypoint = None, inst_resumed_val = None, inst_terminate_on_heap_oom = False,
        inst_implicits = implicits\<rparr>)) set_hostcall_stack_reservation)"

subsection \<open>Memory\<close>

definition grow_memory :: "region_ops \<Rightarrow> u32 \<Rightarrow> inst \<Rightarrow> memory \<Rightarrow> u32 run_res \<times> inst \<times> memory" where
  "grow_memory region additional_pages i m =
     (case checked_mul additional_pages WASM_PAGE_SIZE of
        None \<Rightarrow> (Err (InternalError ''additional pages larger than wasm address space''), i, m)
      | Some additional_bytes \<Rightarrow>
          (case expand_heap region (inst_alloc i) additional_bytes (inst_module i) m of
             (r, al, m') \<Rightarrow> (map_res (\<lambda>orig_len. orig_len div WASM_PAGE_SIZE) r, i\<lparr>inst_alloc := al\<rparr>, m')))"

text \<open>A panic with \<open>TerminationDetails\<close> as payload unwinds to the hostcall wrapper, which terminates the
  instance with them; such an outcome is an \<open>Inl\<close>.\<close>

definition grow_memory_from_hostcall ::
  "region_ops \<Rightarrow> u32 \<Rightarrow> inst \<Rightarrow> memory \<Rightarrow> (termination_details + u32 run_res) \<times> inst \<times> memory" where
  "grow_memory_from_hostcall region additional_pages i m =
     (case grow_memory region additional_pages i m of (res, i', m') \<Rightarrow>
        if inst_terminate_on_heap_oom i' \<and> \<not> is_ok res then (Inl TD_HeapOutOfMemory, i', m')
        else (Inr res, i', m'))"

subsection \<open>Reset\<close>

text \<open>
  A \<open>GlobalValue\<close> in memory. It is a union of eight bytes; assigning a 32-bit variant leaves the
  upper four bytes unspecified, and \<open>pad\<close> stands for whatever they become.
\<close>

fun global_bytes :: "u32 \<Rightarrow> global_value \<Rightarrow> u8 list" where
  "global_bytes pad (GV_i32 v) = word_bytes 4 v @ word_bytes 4 pad"
| "global_bytes pad (GV_i64 v) = word_bytes 8 v"
| "global_bytes pad (GV_f32 v) = word_bytes 4 v @ word_bytes 4 pad"
| "global_bytes pad (GV_f64 v) = word_bytes 8 v"

fun reset_globals ::
  "u32 \<Rightarrow> u64 \<Rightarrow> nat \<Rightarrow> nat \<Rightarrow> global_spec list \<Rightarrow> memory \<Rightarrow> unit run_res \<times> memory" where
  "reset_globals pad globals n i [] m = (Ok (), m)"
| "reset_globals pad globals n i (v # rest) m =
     (case global_of v of
        Import _ _ \<Rightarrow> (Err (Unsupported ''global imports are unsupported''), m)
      | Def def \<Rightarrow>
          if n \<le> i then (Panic ''index out of bounds'', m)
          else (case store_bytes (globals + 8 * of_nat i) (global_bytes pad (init_val def)) m of
              Ok m' \<Rightarrow> reset_globals pad globals n (Suc i) rest m'
            | Err e \<Rightarrow> (Err e, m)
            | Panic e \<Rightarrow> (Panic e, m)))"

definition reset :: "region_ops \<Rightarrow> u32 \<Rightarrow> inst \<Rightarrow> memory \<Rightarrow> unit run_res \<times> inst \<times> memory" where
  "reset region pad i m =
     (case alloc_reset_heap region (inst_alloc i) (inst_module i) m of
        (Ok _, al, m1) \<Rightarrow>
          (let i = i\<lparr>inst_alloc := al\<rparr> in
           case globals_slice al of
             Ok (globals, n) \<Rightarrow>
               (case reset_globals pad globals (unat n) 0 (mo_globals (inst_module i)) m1 of
                  (Ok _, m2) \<Rightarrow>
                    (case mo_start_func (inst_module i) of
                       Ok start \<Rightarrow>
                         (Ok (), i\<lparr>inst_state := if start \<noteq> None then NotStarted else Ready,
                            inst_kill_state := kill_state_new\<rparr>, m2)
                     | Err e \<Rightarrow> (Err e, i, m2)
                     | Panic e \<Rightarrow> (Panic e, i, m2))
                | (e, m2) \<Rightarrow> (e, i, m2))
           | Err e \<Rightarrow> (Err e, i, m1)
           | Panic e \<Rightarrow> (Panic e, i, m1))
      | (e, al, m1) \<Rightarrow> (e, i\<lparr>inst_alloc := al\<rparr>, m1))"

section \<open>Lemmas\<close>

lemma length_global_bytes [simp]: "length (global_bytes pad v) = 8"
  by (cases v) simp_all

fun is_def :: "global \<Rightarrow> bool" where
  "is_def (Def _) = True"
| "is_def (Import _ _) = False"

fun initial_global :: "u32 \<Rightarrow> global \<Rightarrow> u8 list" where
  "initial_global pad (Def d) = global_bytes pad (init_val d)"
| "initial_global pad (Import _ _) = []"

text \<open>The globals array as the loop leaves it, from entry \<open>i\<close> on.\<close>

definition globals_written :: "u32 \<Rightarrow> u64 \<Rightarrow> nat \<Rightarrow> global_spec list \<Rightarrow> memory \<Rightarrow> memory" where
  "globals_written pad g i gs m =
     m\<lparr>mem_byte := (\<lambda>a. let off = unat (a - g) in
        if 8 * i \<le> off \<and> off < 8 * (i + length gs)
        then initial_global pad (global_of (gs ! (off div 8 - i))) ! (off mod 8) else mem_byte m a)\<rparr>"

lemma globals_written_Nil [simp]: "globals_written pad g i [] m = m"
  by (rule memory.equality) (auto simp: globals_written_def Let_def fun_eq_iff)

lemma globals_written_prot [simp]: "mem_prot (globals_written pad g i gs m) = mem_prot m"
  by (simp add: globals_written_def)

lemma entry_of_offset:
  fixes n i :: nat
  shows "8 * i \<le> n \<Longrightarrow> n < 8 * i + 8 \<Longrightarrow> n div 8 = i \<and> n mod 8 = n - 8 * i"
    and "8 * i + 8 \<le> n \<Longrightarrow> n div 8 - i = Suc (n div 8 - Suc i)"
proof -
  assume "8 * i \<le> n" and lt: "n < 8 * i + 8"
  then obtain k where "n = 8 * i + k" using le_Suc_ex by blast
  with lt show "n div 8 = i \<and> n mod 8 = n - 8 * i" by simp
next
  assume "8 * i + 8 \<le> n"
  then obtain k where k: "n = 8 * i + 8 + k" using le_Suc_ex by blast
  have "n div 8 = i + 1 + k div 8" unfolding k by simp
  then show "n div 8 - i = Suc (n div 8 - Suc i)" by simp
qed

lemma globals_written_Cons:
  assumes "8 * (i + length (v # rest)) \<le> 2 ^ 64" and "global_of v = Def d"
  shows "globals_written pad g (Suc i) rest
      (write_bytes (g + 8 * of_nat i) (global_bytes pad (init_val d)) m) =
    globals_written pad g i (v # rest) m"
proof -
  have "mem_byte (globals_written pad g (Suc i) rest
        (write_bytes (g + 8 * of_nat i) (global_bytes pad (init_val d)) m)) a =
      mem_byte (globals_written pad g i (v # rest) m) a" for a
  proof -
    let ?off = "unat (a - g)"
    have "a - (g + 8 * of_nat i) = (a - g) - of_nat (8 * i)" by simp
    then have iff: "unat (a - (g + 8 * of_nat i)) < 8 \<longleftrightarrow> 8 * i \<le> ?off \<and> ?off < 8 * i + 8"
      and un: "8 * i \<le> ?off \<Longrightarrow> unat (a - (g + 8 * of_nat i)) = ?off - 8 * i"
      using unat_diff_of_nat [of "8 * i" 8 "a - g"] assms(1) by (simp_all add: diff_diff_add [symmetric])
    consider "?off < 8 * i" | "8 * i \<le> ?off" "?off < 8 * i + 8" | "8 * i + 8 \<le> ?off" by linarith
    then show ?thesis
    proof cases
      case 1
      with iff show ?thesis by (simp add: globals_written_def Let_def)
    next
      case 2
      with 2 entry_of_offset(1) [OF 2] iff un assms(2) show ?thesis by (simp add: globals_written_def Let_def)
    next
      case 3
      with entry_of_offset(2) [OF 3] iff show ?thesis by (auto simp: globals_written_def Let_def)
    qed
  qed
  then have "mem_byte (globals_written pad g (Suc i) rest
        (write_bytes (g + 8 * of_nat i) (global_bytes pad (init_val d)) m)) =
      mem_byte (globals_written pad g i (v # rest) m)" by (rule ext)
  moreover have "mem_prot (globals_written pad g (Suc i) rest
        (write_bytes (g + 8 * of_nat i) (global_bytes pad (init_val d)) m)) =
      mem_prot (globals_written pad g i (v # rest) m)" by simp
  ultimately show ?thesis by (rule memory.equality) simp
qed

lemma reset_globals_Ok:
  assumes "list_all (\<lambda>v. is_def (global_of v)) gs" and "i + length gs \<le> n" and "8 * n < 2 ^ 64"
    and "\<forall>a. in_range g (of_nat (8 * n)) a \<longrightarrow> mem_prot m a = ProtReadWrite"
  shows "reset_globals pad g n i gs m = (Ok (), globals_written pad g i gs m)"
  using assms
proof (induction gs arbitrary: i m)
  case Nil
  then show ?case by simp
next
  case (Cons v rest)
  then obtain d where d: "global_of v = Def d" by (cases "global_of v") auto
  let ?m = "write_bytes (g + 8 * of_nat i) (global_bytes pad (init_val d)) m"
  have prot: "mem_prot m (g + 8 * of_nat i + of_nat k) = ProtReadWrite" if "k < 8" for k
  proof -
    have "unat (of_nat (8 * i + k) :: u64) < unat (of_nat (8 * n) :: u64)"
      using that Cons.prems by (simp add: unat_of_nat del: of_nat_add of_nat_mult)
    then have "in_range g (of_nat (8 * n)) (g + of_nat (8 * i + k))" by (rule in_range_offset)
    with Cons.prems(4) show ?thesis by (simp add: add.assoc)
  qed
  then have store: "store_bytes (g + 8 * of_nat i) (global_bytes pad (init_val d)) m = Ok ?m"
    by (simp add: store_bytes_Ok)
  have rec: "reset_globals pad g n (Suc i) rest ?m = (Ok (), globals_written pad g (Suc i) rest ?m)"
    using Cons.prems by (intro Cons.IH) auto
  have "globals_written pad g (Suc i) rest ?m = globals_written pad g i (v # rest) m"
    using Cons.prems d by (intro globals_written_Cons) auto
  with store rec d Cons.prems show ?case by simp
qed

lemma sint_count_down:
  fixes d :: i64
  assumes "unat d < 2 ^ 63" and "k < 2 ^ 63"
  shows "sint (- d + of_nat k) = int k - int (unat d)"
proof -
  have "- d + of_nat k = word_of_int (int k - int (unat d))"
    by (metis add.commute diff_conv_add_uminus of_int_diff of_int_of_nat_eq of_nat_unat ucast_id)
  then have "sint (- d + of_nat k) = sint (word_of_int (int k - int (unat d)) :: i64)" by (simp only:)
  also have "\<dots> = signed_take_bit 63 (int k - int (unat d))" by (subst sint_sbintrunc') simp
  also have "\<dots> = int k - int (unat d)"
  proof -
    obtain n where "unat d = n" by blast
    with assms show ?thesis by (simp only:) (rule signed_take_bit_int_eq_self; simp)
  qed
  finally show ?thesis .
qed

lemma unat_div_WASM: "unat (a div WASM_PAGE_SIZE) = unat a div 65536"
  by (simp add: WASM_PAGE_SIZE_def unat_div)

lemma whole_pages: "unat n = 65536 * p \<Longrightarrow> grown_bytes n = unat n"
  unfolding grown_bytes_def by (simp add: div_add1_eq mult.assoc)

section \<open>Properties\<close>

text \<open>C29: Instruction bounds are exact: giving an instance a bound of \<open>delta\<close> further instructions (or the
  largest one) keeps its instruction count, and after \<open>k\<close> more counted instructions generated code
  sees the bound as reached exactly when \<open>k\<close> is at least \<open>delta\<close>, as long as \<open>k\<close> itself fits in an
  \<open>i64\<close>. With \<open>delta = 0\<close> it is reached before any further instruction, although the comment of
  \<open>set_instruction_bound_delta\<close> says that a yield needs the bound to be crossed and \<open>delta\<close> greater than 0.\<close>

theorem instruction_bound_exact:
  assumes "set_instruction_bound_delta delta i = Ok i'"
    and "d = (case delta of None \<Rightarrow> 2 ^ 63 - 1 | Some n \<Rightarrow> n)"
  shows "get_instruction_count i' = get_instruction_count i \<and>
    (\<forall>k < 2 ^ 63. bound_reached (instruction_count_adj (inst_implicits i') + of_nat k) \<longleftrightarrow> unat d \<le> k)"
proof -
  have d: "unat d < 2 ^ 63" and i': "i' = i\<lparr>inst_implicits := (inst_implicits i)\<lparr>
      instruction_count_bound := instruction_count_adj (inst_implicits i) +
        instruction_count_bound (inst_implicits i) + d, instruction_count_adj := - d\<rparr>\<rparr>"
    using assms by (auto simp: set_instruction_bound_delta_def i64_expect_def Let_def split: if_splits)
  have "bound_reached (instruction_count_adj (inst_implicits i') + of_nat k) \<longleftrightarrow> unat d \<le> k" if "k < 2 ^ 63" for k
  proof -
    have "bound_reached (- d + of_nat k) \<longleftrightarrow> unat d \<le> k"
      unfolding bound_reached_def sint_count_down [OF d that] by linarith
    then show ?thesis by (simp add: i')
  qed
  moreover have "get_instruction_count i' = get_instruction_count i"
    by (simp add: i' get_instruction_count_def add.commute)
  ultimately show ?thesis by blast
qed

text \<open>\<open>memory.grow\<close> is exact: with less than 4 GiB accessible, growing by \<open>p\<close> WebAssembly pages either
  fails and leaves the instance and memory as they were, or returns the old number of pages and makes
  exactly \<open>p\<close> more pages accessible. It never panics, and the allocation's invariant holds afterwards.\<close>

theorem grow_memory_exact:
  assumes "region_internal region" and "alloc_inv (inst_alloc i)" and "alloc_slot_opt (inst_alloc i) = Some s"
    and "unat (heap_accessible_size (inst_alloc i)) < 2 ^ 32"
    and "grow_memory region p i m = (r, i', m')"
  shows "alloc_inv (inst_alloc i') \<and>
    (case r of
       Ok old \<Rightarrow> unat old = unat (heap_accessible_size (inst_alloc i)) div 65536 \<and>
         unat (heap_accessible_size (inst_alloc i')) = unat (heap_accessible_size (inst_alloc i)) + 65536 * unat p
     | Err e \<Rightarrow> i' = i \<and> m' = m
     | Panic e \<Rightarrow> False)"
proof (cases "checked_mul p WASM_PAGE_SIZE")
  case None
  with assms(2,5) show ?thesis by (auto simp: grow_memory_def)
next
  case (Some n)
  have n: "unat n = 65536 * unat p" using checked_mul_Some [OF Some] by simp
  obtain q al' mem' where run: "expand_heap region (inst_alloc i) n (inst_module i) m = (q, al', mem')"
    using prod_cases3 by blast
  have old: "unat (ucast (heap_accessible_size (inst_alloc i)) :: u32) = unat (heap_accessible_size (inst_alloc i))"
    using assms(4) by (simp add: unat_ucast_64_32)
  have res: "r = map_res (\<lambda>orig. orig div WASM_PAGE_SIZE) q" "i' = i\<lparr>inst_alloc := al'\<rparr>" "m' = mem'"
    using assms(5) Some run by (simp_all add: grow_memory_def)
  show ?thesis
  proof (cases rule: region_internal.expand_heap_cases [OF assms(1-3) run, case_names zero grown failed])
    case zero
    with assms(2) res n old show ?thesis by (simp add: unat_div_WASM)
  next
    case (grown hs)
    with res old growth_sizes(1) [OF assms(2,3) grown(3)] growth_keeps_inv [OF assms(2,3) grown(3)] n
      whole_pages [OF n]
    show ?thesis by (simp add: unat_div_WASM)
  next
    case (failed e)
    with assms(2) res show ?thesis by simp
  qed
qed

end
