(* ===== verification/Region_Instances.thy ===== *)
theory Region_Instances
  imports Instance_Data Region_Mmap
begin

text \<open>
  Creating an instance in a region: \<open>new_instance_handle\<close> (\<open>instance.rs\<close>),
  \<open>new_instance_with\<close> (\<open>region/mmap.rs\<close>), \<open>InstanceBuilder\<close> (\<open>region.rs\<close>), and the drop
  of an instance. A slot's first page holds the instance, whose first field is the magic number, so the
  magic is read from and written to memory. The lemmas show that slots are conserved on every path, and
  that a new instance starts from the module's image whoever had the slot before.
\<close>

section \<open>Instance handles\<close>

definition read_u64 :: "u64 \<Rightarrow> memory \<Rightarrow> u64" where
  "read_u64 a m = word_of_bytes (read_bytes a 8 m)"

definition write_magic :: "u64 \<Rightarrow> u64 \<Rightarrow> memory \<Rightarrow> memory run_res" where
  "write_magic inst_ptr magic m = store_bytes inst_ptr (word_bytes 8 magic) m"

text \<open>Dropping an instance: its magic is cleared, then its allocation is dropped.\<close>

definition drop_instance ::
  "sys_ops \<Rightarrow> mmap_region \<Rightarrow> u64 \<Rightarrow> inst \<Rightarrow> memory \<Rightarrow> unit run_res \<times> mmap_region \<times> inst \<times> memory" where
  "drop_instance sys region inst_ptr i m =
     (case write_magic inst_ptr 0 m of
        Ok m1 \<Rightarrow>
          (let i = instance_drop i in
           case mmap_drop_alloc sys region (inst_alloc i) m1 of
             (r, region', al, m2) \<Rightarrow> (r, region', i\<lparr>inst_alloc := al\<rparr>, m2))
      | Err e \<Rightarrow> (Err e, region, i, m)
      | Panic e \<Rightarrow> (Panic e, region, i, m))"

text \<open>
  \<open>new_instance_handle\<close>. When it returns an error, the \<open>Alloc\<close> (or the instance that owns it by
  then) is dropped on the way out. \<open>pad\<close> and \<open>implicits\<close> are what the memory of the page held before.
\<close>

definition fail_dropping ::
  "sys_ops \<Rightarrow> mmap_region \<Rightarrow> alloc \<Rightarrow> error \<Rightarrow> memory \<Rightarrow> inst run_res \<times> mmap_region \<times> memory" where
  "fail_dropping sys region al e m =
     (case mmap_drop_alloc sys region al m of
        (Ok _, region', _, m') \<Rightarrow> (Err e, region', m')
      | (Err e', region', _, m') \<Rightarrow> (Err e', region', m')
      | (Panic p, region', _, m') \<Rightarrow> (Panic p, region', m'))"

definition new_instance_handle ::
  "sys_ops \<Rightarrow> mmap_region \<Rightarrow> u32 \<Rightarrow> instance_runtime_data \<Rightarrow> u64 \<Rightarrow> module_ops \<Rightarrow> alloc \<Rightarrow> ctx_map \<Rightarrow> memory \<Rightarrow>
   inst run_res \<times> mmap_region \<times> memory" where
  "new_instance_handle sys region pad implicits inst_ptr module al embed_ctx m =
     (if inst_ptr = 0
      then fail_dropping sys region al (InternalError ''instance pointer is null; this is a bug'') m
      else if read_u64 inst_ptr m = LUCET_INSTANCE_MAGIC
      then fail_dropping sys region al (InternalError
        ''created a new instance handle in memory with existing instance magic; this is a bug'') m
      else (case instance_new implicits al module embed_ctx of
          Ok i \<Rightarrow>
            (case write_magic inst_ptr (inst_magic i) m of
               Ok m1 \<Rightarrow>
                 (case reset (mmap_region_ops sys) pad i m1 of
                    (Ok _, i', m2) \<Rightarrow> (Ok i', region, m2)
                  | (Err e, i', m2) \<Rightarrow>
                      (case drop_instance sys region inst_ptr i' m2 of
                         (Ok _, region', _, m3) \<Rightarrow> (Err e, region', m3)
                       | (Err e', region', _, m3) \<Rightarrow> (Err e', region', m3)
                       | (Panic p, region', _, m3) \<Rightarrow> (Panic p, region', m3))
                  | (Panic p, i', m2) \<Rightarrow> (Panic p, region, m2))
             | Err e \<Rightarrow> (Err e, region, m)
             | Panic p \<Rightarrow> (Panic p, region, m))
        | Err e \<Rightarrow> (Err e, region, m)
        | Panic p \<Rightarrow> (Panic p, region, m)))"

section \<open>New instances of an mmap region\<close>

fun enable_ranges :: "sys_ops \<Rightarrow> (u64 \<times> usize) list \<Rightarrow> memory \<Rightarrow> unit run_res \<times> memory" where
  "enable_ranges sys [] m = (Ok (), m)"
| "enable_ranges sys ((ptr, len) # rest) m =
     (case expect_sys ''mprotect() call succeeds'' (sys_mprotect sys ptr len ProtReadWrite m) of
        (Ok _, m') \<Rightarrow> enable_ranges sys rest m'
      | (e, m') \<Rightarrow> (e, m'))"

record new_instance_args =
  na_module :: module_ops
  na_embed_ctx :: ctx_map
  na_heap_memory_size_limit :: usize
  na_alloc_strategy :: alloc_strategy
  na_terminate_on_heap_oom :: bool

definition set_terminate_on_heap_oom :: "bool \<Rightarrow> inst \<Rightarrow> inst" where
  "set_terminate_on_heap_oom b i = i\<lparr>inst_terminate_on_heap_oom := b\<rparr>"

definition new_instance_with ::
  "sys_ops \<Rightarrow> (nat \<Rightarrow> nat) \<Rightarrow> u32 \<Rightarrow> instance_runtime_data \<Rightarrow> mmap_region \<Rightarrow> new_instance_args \<Rightarrow> memory \<Rightarrow>
   inst run_res \<times> mmap_region \<times> memory" where
  "new_instance_with sys gen_range pad implicits region args m =
     (let l = mr_limits region in
      case rbind (validate_runtime_spec (na_module args) l (na_heap_memory_size_limit args)) (\<lambda>_.
           rbind (alloc_strategy_next gen_range (na_alloc_strategy args) (length (mr_freelist region)) (mr_capacity region))
           (\<lambda>k. swap_remove k (mr_freelist region))) of
        Ok (s, freelist) \<Rightarrow>
          (let region = region\<lparr>mr_freelist := freelist\<rparr> in
           if slot_heap s mod host_page_size \<noteq> 0 then (Panic ''heap must be page-aligned'', region, m)
           else (case enable_ranges sys
               [(slot_stack s, stack_size l), (slot_globals s, globals_size l),
                (slot_sigstack s, signal_stack_size l)] m of
               (Ok _, m1) \<Rightarrow>
                 (case new_instance_handle sys region pad implicits (slot_start s) (na_module args)
                     \<lparr>heap_accessible_size = 0, heap_inaccessible_size = heap_address_space_size (slot_limits s),
                      heap_memory_size_limit = na_heap_memory_size_limit args, alloc_slot_opt = Some s\<rparr>
                     (na_embed_ctx args) m1 of
                    (r, region', m2) \<Rightarrow>
                      (map_res (set_terminate_on_heap_oom (na_terminate_on_heap_oom args)) r, region', m2))
             | (Err e, m1) \<Rightarrow> (Err e, region, m1)
             | (Panic p, m1) \<Rightarrow> (Panic p, region, m1)))
      | Err e \<Rightarrow> (Err e, region, m)
      | Panic p \<Rightarrow> (Panic p, region, m))"

section \<open>The builder (region.rs)\<close>

definition instance_builder_new :: "mmap_region \<Rightarrow> module_ops \<Rightarrow> new_instance_args" where
  "instance_builder_new region module =
     \<lparr>na_module = module, na_embed_ctx = ctx_map_new,
      na_heap_memory_size_limit = heap_memory_size (mr_limits region), na_alloc_strategy = Linear,
      na_terminate_on_heap_oom = False\<rparr>"

definition with_alloc_strategy :: "alloc_strategy \<Rightarrow> new_instance_args \<Rightarrow> new_instance_args" where
  "with_alloc_strategy st a = a\<lparr>na_alloc_strategy := st\<rparr>"

definition with_heap_size_limit :: "usize \<Rightarrow> new_instance_args \<Rightarrow> new_instance_args" where
  "with_heap_size_limit n a = a\<lparr>na_heap_memory_size_limit := n\<rparr>"

definition with_embed_ctx :: "any \<Rightarrow> new_instance_args \<Rightarrow> new_instance_args run_res" where
  "with_embed_ctx x a = map_res (\<lambda>(prev, m). a\<lparr>na_embed_ctx := m\<rparr>) (ctx_insert x (na_embed_ctx a))"

definition with_terminate_on_heap_oom :: "bool \<Rightarrow> new_instance_args \<Rightarrow> new_instance_args" where
  "with_terminate_on_heap_oom b a = a\<lparr>na_terminate_on_heap_oom := b\<rparr>"

definition new_instance ::
  "sys_ops \<Rightarrow> (nat \<Rightarrow> nat) \<Rightarrow> u32 \<Rightarrow> instance_runtime_data \<Rightarrow> mmap_region \<Rightarrow> module_ops \<Rightarrow> memory \<Rightarrow>
   inst run_res \<times> mmap_region \<times> memory" where
  "new_instance sys gen_range pad implicits region module m =
     new_instance_with sys gen_range pad implicits region (instance_builder_new region module) m"

section \<open>Conservation of slots\<close>

text \<open>The slots of a region's free list and those it has handed out.\<close>

abbreviation free_mset :: "mmap_region \<Rightarrow> slot multiset" where
  "free_mset region \<equiv> mset (mr_freelist region)"

lemma drop_alloc_Ok:
  "mmap_drop_alloc sys region al m = (Ok u, region', al', m') \<Longrightarrow> alloc_slot_opt al = Some s \<Longrightarrow>
     region' = region\<lparr>mr_freelist := mr_freelist region @ [s]\<rparr> \<and> alloc_slot_opt al' = None"
  by (auto simp: mmap_drop_alloc_def Let_def split: if_splits prod.splits rresult.splits)

lemma drop_alloc_no_err: "mmap_drop_alloc sys region al m \<noteq> (Err e, region', al', m')"
proof (cases "alloc_slot_opt al")
  case None
  then show ?thesis by (simp add: mmap_drop_alloc_def)
next
  case (Some s)
  obtain q m1 where d: "disable_ranges sys
      [(slot_heap s, heap_accessible_size al), (slot_stack s, stack_size (slot_limits s)),
       (slot_globals s, globals_size (slot_limits s)), (slot_sigstack s, signal_stack_size (slot_limits s))] m = (q, m1)"
    by fastforce
  then have "q \<noteq> Err e" using disable_ranges_no_err by blast
  with Some d show ?thesis by (cases q) (auto simp: mmap_drop_alloc_def Let_def)
qed

lemma fail_dropping_Err:
  assumes "fail_dropping sys region al e m = (r, region', m')" and "alloc_slot_opt al = Some s"
  shows "(r = Err e \<and> free_mset region' = add_mset s (free_mset region)) \<or> (\<exists>p. r = Panic p)"
proof -
  obtain q rg al1 m1 where d: "mmap_drop_alloc sys region al m = (q, rg, al1, m1)" by (rule prod_cases4)
  show ?thesis using assms d drop_alloc_Ok [of sys region al m _ rg al1 m1 s] drop_alloc_no_err [of sys region al m]
    by (cases q) (auto simp: fail_dropping_def)
qed

lemma instance_new_alloc: "instance_new implicits al mo ctx = Ok i \<Longrightarrow> inst_alloc i = al \<and> inst_magic i = LUCET_INSTANCE_MAGIC"
  by (auto simp: instance_new_def set_instruction_count_and_bound_def set_globals_ptr_def i64_expect_def
      set_hostcall_stack_reservation_def split: option.splits if_splits)

lemma instance_new_no_err: "instance_new implicits al mo ctx \<noteq> Err e"
  by (auto simp: instance_new_def alloc_slot_def set_instruction_count_and_bound_def i64_expect_def
      set_hostcall_stack_reservation_def split: option.splits)

context os_memory
begin

lemma mmap_region_internal: "region_internal (mmap_region_ops sys)"
  by (rule mmap.region_internal_axioms)

lemma mmap_region_reset: "region_reset (mmap_region_ops sys)"
  by (rule mmap_reset.region_reset_axioms)

end

lemma reset_keeps_slot:
  assumes "os_memory sys" and "reset (mmap_region_ops sys) pad i m = (r, i', m')"
  shows "alloc_slot_opt (inst_alloc i') = alloc_slot_opt (inst_alloc i)"
proof -
  have ri: "region_internal (mmap_region_ops sys)" by (rule os_memory.mmap_region_internal [OF assms(1)])
  obtain q al m1 where h: "ro_reset_heap (mmap_region_ops sys) (inst_alloc i) (inst_module i) m = (q, al, m1)"
    by (rule prod_cases3)
  have "alloc_slot_opt al = alloc_slot_opt (inst_alloc i)" using region_internal.reset_keeps [OF ri h] by simp
  with assms(2) h show ?thesis
    by (auto simp: reset_def alloc_reset_heap_def Let_def split: rresult.splits prod.splits)
qed

lemma drop_instance_Ok:
  assumes "drop_instance sys region ptr i m = (r, region', i', m')" and "alloc_slot_opt (inst_alloc i) = Some s"
  shows "(r = Ok () \<and> free_mset region' = add_mset s (free_mset region)) \<or> (\<exists>p. r = Panic p)"
proof (cases "write_magic ptr 0 m")
  case (Ok m1)
  obtain q rg al1 m2 where d: "mmap_drop_alloc sys region (inst_alloc i) m1 = (q, rg, al1, m2)" by (rule prod_cases4)
  show ?thesis
    using assms Ok d drop_alloc_Ok [of sys region "inst_alloc i" m1 _ rg al1 m2 s] drop_alloc_no_err [of sys region "inst_alloc i" m1]
    by (cases q) (auto simp: drop_instance_def instance_drop_def Let_def)
next
  case (Err e)
  then show ?thesis by (auto simp: write_magic_def store_bytes_def split: if_splits)
next
  case (Panic p)
  with assms(1) show ?thesis by (auto simp: drop_instance_def)
qed

lemma new_instance_handle_slots:
  assumes "os_memory sys" and "alloc_slot_opt al = Some s"
    and "new_instance_handle sys region pad implicits ptr mo al ctx m = (r, region', m')"
  shows "case r of
      Ok i \<Rightarrow> alloc_slot_opt (inst_alloc i) = Some s \<and> region' = region
    | Err e \<Rightarrow> free_mset region' = add_mset s (free_mset region)
    | Panic p \<Rightarrow> True"
proof (cases "ptr = 0 \<or> read_u64 ptr m = LUCET_INSTANCE_MAGIC")
  case True
  then obtain e where "fail_dropping sys region al e m = (r, region', m')"
    using assms(3) by (auto simp: new_instance_handle_def split: if_splits)
  from fail_dropping_Err [OF this assms(2)] show ?thesis by auto
next
  case False
  show ?thesis
  proof (cases "instance_new implicits al mo ctx")
    case (Ok i)
    have i: "inst_alloc i = al" using instance_new_alloc [OF Ok] by simp
    show ?thesis
    proof (cases "write_magic ptr (inst_magic i) m")
      case m1: (Ok m1)
      obtain q i' m2 where rs: "reset (mmap_region_ops sys) pad i m1 = (q, i', m2)" by (rule prod_cases3)
      have s': "alloc_slot_opt (inst_alloc i') = Some s"
        using reset_keeps_slot [OF assms(1) rs] i assms(2) by simp
      obtain d rg j m3 where dr: "drop_instance sys region ptr i' m2 = (d, rg, j, m3)" by (rule prod_cases4)
      from drop_instance_Ok [OF dr s'] show ?thesis
        using assms(3) False Ok m1 rs s' dr by (cases q) (auto simp: new_instance_handle_def)
    next
      case (Err e)
      then show ?thesis by (auto simp: write_magic_def store_bytes_def split: if_splits)
    next
      case (Panic p)
      with assms(3) False Ok show ?thesis by (auto simp: new_instance_handle_def)
    qed
  next
    case (Err e)
    then show ?thesis using instance_new_no_err by blast
  next
    case (Panic p)
    have "r = Panic p" using assms(3) False by (simp add: new_instance_handle_def Panic)
    then show ?thesis by simp
  qed
qed

section \<open>Resetting to the module's image\<close>

lemma reset_globals_Ok_imp:
  "reset_globals pad g n i gs m = (Ok u, m') \<Longrightarrow> i \<le> n \<Longrightarrow>
     list_all (\<lambda>v. is_def (global_of v)) gs \<and> i + length gs \<le> n"
proof (induction gs arbitrary: i m)
  case (Cons v rest)
  then obtain d m1 where d: "global_of v = Def d" "i < n" and m1: "reset_globals pad g n (Suc i) rest m1 = (Ok u, m')"
    by (auto split: global.splits if_splits rresult.splits)
  with Cons.IH [OF m1] show ?case by simp
qed simp

lemma globals_written_byte:
  "mem_byte (globals_written pad g 0 gs m) a =
     (if unat (a - g) < 8 * length gs
      then initial_global pad (global_of (gs ! (unat (a - g) div 8))) ! (unat (a - g) mod 8) else mem_byte m a)"
  by (simp add: globals_written_def Let_def)

lemma globals_written_entry:
  assumes "k < length gs" and "8 * length gs < 2 ^ 64" and "is_def (global_of (gs ! k))"
  shows "read_bytes (g + of_nat (8 * k)) 8 (globals_written pad g 0 gs m) = initial_global pad (global_of (gs ! k))"
proof (rule nth_equalityI)
  show "length (read_bytes (g + of_nat (8 * k)) 8 (globals_written pad g 0 gs m)) =
      length (initial_global pad (global_of (gs ! k)))"
    using assms(3) by (cases "global_of (gs ! k)") simp_all
next
  fix j assume "j < length (read_bytes (g + of_nat (8 * k)) 8 (globals_written pad g 0 gs m))"
  then have j: "j < 8" by simp
  have "g + of_nat (8 * k) + of_nat j - g = (of_nat (8 * k + j) :: u64)" by simp
  moreover have "unat (of_nat (8 * k + j) :: u64) = 8 * k + j"
    using assms(1,2) j by (simp add: unat_of_nat del: of_nat_add of_nat_mult)
  ultimately have off: "unat (g + of_nat (8 * k) + of_nat j - g) = 8 * k + j" by metis
  show "read_bytes (g + of_nat (8 * k)) 8 (globals_written pad g 0 gs m) ! j =
      initial_global pad (global_of (gs ! k)) ! j"
    using j assms(1) unfolding nth_read_bytes [OF j] globals_written_byte off by simp
qed

text \<open>What a reset leaves behind.\<close>

definition pristine :: "u32 \<Rightarrow> module_ops \<Rightarrow> slot \<Rightarrow> inst \<Rightarrow> memory \<Rightarrow> bool" where
  "pristine pad mo s i m \<longleftrightarrow>
     alloc_inv (inst_alloc i) \<and> alloc_slot_opt (inst_alloc i) = Some s \<and> live_mem m (inst_alloc i) s \<and>
     heap_accessible_size (inst_alloc i) = heap_initial_size mo \<and>
     (\<forall>off < unat (heap_address_space_size (slot_limits s)).
        mem_byte m (slot_heap s + of_nat off) = initial_byte mo off) \<and>
     (\<forall>k < length (mo_globals mo).
        read_bytes (slot_globals s + of_nat (8 * k)) 8 m = initial_global pad (global_of (mo_globals mo ! k))) \<and>
     inst_kill_state i = kill_state_new \<and>
     (\<exists>start. mo_start_func mo = Ok start \<and> inst_state i = (if start = None then Ready else NotStarted))"

lemma reset_pristine_mem:
  assumes os: "os_memory sys" and inv: "alloc_inv al" and s: "alloc_slot_opt al = Some s"
    and live: "live_mem m al s"
    and n: "heap_initial_size mo \<le> heap_memory_size_limit al" "page_aligned (heap_initial_size mo)"
    and clr: "heap_cleared s m m1"
    and m3: "m3 = pages_written mo (slot_heap s) 0 (unat (heap_initial_size mo) div 4096)
      (set_prot (slot_heap s) (heap_initial_size mo) ProtReadWrite m1)"
    and al': "al' = al\<lparr>heap_accessible_size := heap_initial_size mo,
      heap_inaccessible_size := heap_address_space_size (slot_limits s) - heap_initial_size mo\<rparr>"
    and gs: "list_all (\<lambda>v. is_def (global_of v)) gs" "length gs \<le> unat (globals_size (slot_limits s) div 8)"
  shows "reset_globals pad (slot_globals s) (unat (globals_size (slot_limits s) div 8)) 0 gs m3 =
      (Ok (), globals_written pad (slot_globals s) 0 gs m3)"
    and "live_mem (globals_written pad (slot_globals s) 0 gs m3) al' s"
    and "\<And>off. off < unat (heap_address_space_size (slot_limits s)) \<Longrightarrow>
      mem_byte (globals_written pad (slot_globals s) 0 gs m3) (slot_heap s + of_nat off) = initial_byte mo off"
proof -
  let ?g = "slot_globals s" and ?N = "globals_size (slot_limits s)"
  note img = reset_image [OF inv s live n clr m3, folded al']
  have inv': "alloc_inv al'" and s': "alloc_slot_opt al' = Some s"
    using reset_sizes [OF inv s n(1)] s by (simp_all add: al')
  have wf: "slot_wf s" using inv s by (simp add: alloc_inv_def)
  have "4096 dvd unat ?N" using slot_wf_aligned(7) [OF wf] by (simp add: page_aligned_unat mod_eq_0_iff_dvd)
  then have "8 dvd unat ?N" by (rule dvd_trans [rotated]) simp
  then have N: "8 * unat (?N div 8) = unat ?N" by (simp add: unat_div)
  then have oN: "of_nat (8 * unat (?N div 8)) = ?N" by (metis of_nat_unat ucast_id)
  have rw: "\<forall>a. in_range ?g (of_nat (8 * unat (?N div 8))) a \<longrightarrow> mem_prot m3 a = ProtReadWrite"
    unfolding oN
  proof (intro allI impI)
    fix a assume "in_range ?g ?N a"
    then have "location al' s a = Globals" using location_ranges(4) [OF inv' s'] by blast
    then show "mem_prot m3 a = ProtReadWrite" using img(1) by (auto simp: live_mem_def dest!: spec [of _ a])
  qed
  show "reset_globals pad ?g (unat (?N div 8)) 0 gs m3 = (Ok (), globals_written pad ?g 0 gs m3)"
    using gs N rw unat_lt64 [of ?N] by (intro reset_globals_Ok) auto
  have len: "8 * length gs \<le> unat ?N" using gs(2) N by linarith
  have inside: "location al' s a = Globals" if "unat (a - ?g) < 8 * length gs" for a
    using that len location_ranges(4) [OF inv' s', of a] by (simp add: in_range_def word_less_nat_alt)
  show "live_mem (globals_written pad ?g 0 gs m3) al' s"
    unfolding live_mem_def
  proof
    fix a
    show "location_ok (location al' s a) (mem_prot (globals_written pad ?g 0 gs m3) a)
        (mem_byte (globals_written pad ?g 0 gs m3) a)"
      using img(1) [unfolded live_mem_def, rule_format, of a] inside [of a] by (auto simp: globals_written_byte)
  qed
  fix off assume off: "off < unat (heap_address_space_size (slot_limits s))"
  have "unat (of_nat off :: u64) = off" using off unat_lt64 [of "heap_address_space_size (slot_limits s)"]
    by (simp add: unat_of_nat del: unat_lt64)
  then have "in_range (slot_heap s) (heap_address_space_size (slot_limits s)) (slot_heap s + of_nat off)"
    using off by (intro in_range_offset) simp
  then have "location al' s (slot_heap s + of_nat off) \<noteq> Globals"
    using location_ranges(2) [OF inv' s'] by auto
  with inside [of "slot_heap s + of_nat off"] img(2) [OF off]
  show "mem_byte (globals_written pad ?g 0 gs m3) (slot_heap s + of_nat off) = initial_byte mo off"
    by (auto simp: globals_written_byte)
qed

lemma reset_mmap_Ok:
  assumes os: "os_memory sys" and inv: "alloc_inv (inst_alloc i)" and s: "alloc_slot_opt (inst_alloc i) = Some s"
    and live: "live_mem m (inst_alloc i) s" and pages: "module_pages_ok (inst_module i)"
    and n: "heap_initial_size (inst_module i) \<le> heap_memory_size_limit (inst_alloc i)"
      "page_aligned (heap_initial_size (inst_module i))"
    and run: "reset (mmap_region_ops sys) pad i m = (Ok u, i', m')"
  shows "pristine pad (inst_module i) s i' m'"
    and "i' = i\<lparr>inst_alloc := inst_alloc i', inst_state := inst_state i', inst_kill_state := kill_state_new\<rparr>"
proof -
  let ?mo = "inst_module i" and ?al = "inst_alloc i"
  let ?al' = "?al\<lparr>heap_accessible_size := heap_initial_size ?mo,
      heap_inaccessible_size := heap_address_space_size (slot_limits s) - heap_initial_size ?mo\<rparr>"
  note cases = mmap_reset_heap_cases [OF os inv s live pages n]
  obtain m1 where clr: "heap_cleared s m m1" and hp: "mmap_reset_heap sys ?al ?mo m = (Ok (), ?al',
      pages_written ?mo (slot_heap s) 0 (unat (heap_initial_size ?mo) div 4096)
        (set_prot (slot_heap s) (heap_initial_size ?mo) ProtReadWrite m1))"
    using run by (cases rule: cases)
      (auto simp: reset_def alloc_reset_heap_def mmap_region_ops_def split: rresult.splits)
  let ?m3 = "pages_written ?mo (slot_heap s) 0 (unat (heap_initial_size ?mo) div 4096)
        (set_prot (slot_heap s) (heap_initial_size ?mo) ProtReadWrite m1)"
  let ?n = "unat (globals_size (slot_limits s) div 8)"
  have gsl: "globals_slice ?al' = Ok (slot_globals s, globals_size (slot_limits s) div 8)"
    using s by (simp add: globals_slice_def alloc_slot_def)
  obtain start where rg: "reset_globals pad (slot_globals s) ?n 0 (mo_globals ?mo) ?m3 = (Ok (), m')"
    and st: "mo_start_func ?mo = Ok start" and i': "i' = i\<lparr>inst_alloc := ?al',
      inst_state := if start \<noteq> None then NotStarted else Ready, inst_kill_state := kill_state_new\<rparr>"
    using run hp gsl by (auto simp: reset_def alloc_reset_heap_def mmap_region_ops_def Let_def
        split: rresult.splits prod.splits)
  have gs: "list_all (\<lambda>v. is_def (global_of v)) (mo_globals ?mo)" "length (mo_globals ?mo) \<le> ?n"
    using reset_globals_Ok_imp [OF rg] by auto
  note mem = reset_pristine_mem [OF os inv s live n clr refl refl gs, where pad = pad]
  have m': "m' = globals_written pad (slot_globals s) 0 (mo_globals ?mo) ?m3" using mem(1) rg by simp
  have "8 * length (mo_globals ?mo) < 2 ^ 64"
    using gs(2) unat_lt64 [of "globals_size (slot_limits s)"] by (simp add: unat_div del: unat_lt64)
  then have entries: "read_bytes (slot_globals s + of_nat (8 * k)) 8 m' = initial_global pad (global_of (mo_globals ?mo ! k))"
    if "k < length (mo_globals ?mo)" for k
    unfolding m' using that gs(1) by (intro globals_written_entry) (auto simp: list_all_length)
  show "pristine pad ?mo s i' m'"
    unfolding pristine_def
    using mem(2,3) reset_sizes [OF inv s n(1)] s st entries by (simp add: i' m')
  show "i' = i\<lparr>inst_alloc := inst_alloc i', inst_state := inst_state i', inst_kill_state := kill_state_new\<rparr>"
    by (simp add: i')
qed

context os_memory
begin

lemma enable_ranges_Ok:
  assumes "enable_ranges sys rs m = (Ok u, m')" and "\<forall>(p, n) \<in> set rs. page_aligned p \<and> page_aligned n"
  shows "mem_byte m' a = mem_byte m a"
    and "mem_prot m' a = (if \<exists>(p, n) \<in> set rs. in_range p n a then ProtReadWrite else mem_prot m a)"
proof -
  have "mem_byte m' a = mem_byte m a \<and>
      mem_prot m' a = (if \<exists>(p, n) \<in> set rs. in_range p n a then ProtReadWrite else mem_prot m a)"
    using assms
  proof (induction rs arbitrary: m)
    case (Cons r rs)
    obtain p n where r: "r = (p, n)" by fastforce
    then have al: "page_aligned p" "page_aligned n" using Cons.prems by auto
    have mp: "expect_sys ''mprotect() call succeeds'' (sys_mprotect sys p n ProtReadWrite m) =
        (Ok (), set_prot p n ProtReadWrite m)"
      using Cons.prems(1) by (cases rule: expect_mprotect [OF al, of "''mprotect() call succeeds''" ProtReadWrite m])
        (simp_all add: r)
    have "enable_ranges sys rs (set_prot p n ProtReadWrite m) = (Ok u, m')" using Cons.prems(1) by (simp add: r mp)
    from Cons.IH [OF this] Cons.prems(2) show ?case by (auto simp: r split: if_splits)
  qed simp
  then show "mem_byte m' a = mem_byte m a"
    and "mem_prot m' a = (if \<exists>(p, n) \<in> set rs. in_range p n a then ProtReadWrite else mem_prot m a)" by simp_all
qed

end

text \<open>A slot on the free list: laid out by the region's limits, clean, with a writable first page that
  does not look like a live instance.\<close>

definition slot_ready :: "mmap_region \<Rightarrow> memory \<Rightarrow> slot \<Rightarrow> bool" where
  "slot_ready region m s \<longleftrightarrow>
     slot_wf s \<and> slot_limits s = mr_limits region \<and> slot_clean m s \<and>
     (\<forall>a. in_range (slot_start s) 4096 a \<longrightarrow> mem_prot m a = ProtReadWrite) \<and>
     read_u64 (slot_start s) m \<noteq> LUCET_INSTANCE_MAGIC"

lemma first_page_unknown:
  assumes "alloc_inv al" and "alloc_slot_opt al = Some s" and "in_range (slot_start s) 4096 a"
  shows "location al s a = Unknown"
proof -
  have wf: "slot_wf s" using assms by (simp add: alloc_inv_def)
  then have "unat (slot_start s) + 4096 \<le> 2 ^ 64" by (simp add: slot_wf_def slot_bytes_def)
  then have "unat a < unat (slot_start s) + 4096" using assms(3) in_range_nat [of "slot_start s" 4096 a] by simp
  then have "\<not> in_slot s a" using slot_wf_unat(1) [OF wf] by (simp add: in_slot_def)
  then show ?thesis using location_ranges(6) [OF assms(1,2)] by blast
qed

lemma live_after_magic:
  assumes "alloc_inv al" and "alloc_slot_opt al = Some s" and "live_mem m al s"
    and "write_magic (slot_start s) v m = Ok m'"
  shows "live_mem m' al s"
  unfolding live_mem_def
proof
  fix a
  have m': "m' = write_bytes (slot_start s) (word_bytes 8 v) m" using assms(4) by (simp add: write_magic_def store_bytes_Ok)
  show "location_ok (location al s a) (mem_prot m' a) (mem_byte m' a)"
  proof (cases "unat (a - slot_start s) < 8")
    case True
    then have "in_range (slot_start s) 4096 a" by (simp add: in_range_def word_less_nat_alt)
    then show ?thesis using first_page_unknown [OF assms(1,2)] by simp
  next
    case False
    then show ?thesis using assms(3) [unfolded live_mem_def, rule_format, of a] by (simp add: m')
  qed
qed

lemma fresh_alloc_live:
  assumes os: "os_memory sys" and ready: "slot_ready region m s" and lim: "n \<le> heap_memory_size (slot_limits s)"
    and en: "enable_ranges sys [(slot_stack s, stack_size (mr_limits region)),
      (slot_globals s, globals_size (mr_limits region)),
      (slot_sigstack s, signal_stack_size (mr_limits region))] m = (Ok u, m1)"
    and al: "al = \<lparr>heap_accessible_size = 0, heap_inaccessible_size = heap_address_space_size (slot_limits s),
      heap_memory_size_limit = n, alloc_slot_opt = Some s\<rparr>"
  shows "alloc_inv al" and "live_mem m1 al s"
proof -
  have wf: "slot_wf s" and l: "slot_limits s = mr_limits region" using ready by (simp_all add: slot_ready_def)
  show inv: "alloc_inv al" using wf lim by (simp add: alloc_inv_def al)
  have s: "alloc_slot_opt al = Some s" by (simp add: al)
  have pal: "\<forall>(p, n) \<in> set [(slot_stack s, stack_size (mr_limits region)),
      (slot_globals s, globals_size (mr_limits region)), (slot_sigstack s, signal_stack_size (mr_limits region))].
      page_aligned p \<and> page_aligned n"
    using slot_wf_aligned [OF wf] l by simp
  note m1 = os_memory.enable_ranges_Ok [OF os en pal]
  show "live_mem m1 al s"
    unfolding live_mem_def
  proof
    fix a
    note loc = location_ranges [OF inv s, of a]
    have heap: "location al s a \<noteq> Heap" using loc(1) by (simp add: al in_range_def)
    have clean: "location al s a \<noteq> Unknown \<Longrightarrow> mem_prot m a = ProtNone \<and> mem_byte m a = 0"
      using ready loc(6) by (auto simp: slot_ready_def slot_clean_def)
    show "location_ok (location al s a) (mem_prot m1 a) (mem_byte m1 a)"
      using heap clean loc l by (cases "location al s a") (simp_all add: m1)
  qed
qed

lemma validate_runtime_spec_Ok:
  "validate_runtime_spec mo l n = Ok u \<Longrightarrow> n \<le> heap_memory_size l \<and> heap_initial_size mo \<le> n"
  by (auto simp: validate_runtime_spec_def heap_initial_size_def Let_def not_less split: if_splits option.splits)

lemma swap_remove_mem:
  "swap_remove k xs = (Ok (x, ys) :: (error, 'a \<times> 'a list) rresult) \<Longrightarrow> x \<in> set xs"
  using swap_remove_mset [of k xs x ys] by (metis union_single_eq_member set_mset_mset)

lemma new_instance_with_Ok:
  assumes "new_instance_with sys gen pad implicits region args m = (Ok i, region', m')"
  obtains s fl m1 j where "validate_runtime_spec (na_module args) (mr_limits region) (na_heap_memory_size_limit args) = Ok ()"
    and "s \<in> set (mr_freelist region)"
    and "enable_ranges sys [(slot_stack s, stack_size (mr_limits region)), (slot_globals s, globals_size (mr_limits region)),
       (slot_sigstack s, signal_stack_size (mr_limits region))] m = (Ok (), m1)"
    and "i = set_terminate_on_heap_oom (na_terminate_on_heap_oom args) j"
    and "new_instance_handle sys (region\<lparr>mr_freelist := fl\<rparr>) pad implicits (slot_start s) (na_module args)
         \<lparr>heap_accessible_size = 0, heap_inaccessible_size = heap_address_space_size (slot_limits s),
          heap_memory_size_limit = na_heap_memory_size_limit args, alloc_slot_opt = Some s\<rparr> (na_embed_ctx args) m1
       = (Ok j, region', m')"
proof (cases "rbind (validate_runtime_spec (na_module args) (mr_limits region) (na_heap_memory_size_limit args)) (\<lambda>_.
    rbind (alloc_strategy_next gen (na_alloc_strategy args) (length (mr_freelist region)) (mr_capacity region))
    (\<lambda>k. swap_remove k (mr_freelist region)))")
  case (Ok v)
  obtain s fl where v: "v = (s, fl)" by fastforce
  then obtain k where k: "swap_remove k (mr_freelist region) = (Ok (s, fl) :: (error, slot \<times> slot list) rresult)"
    and val: "validate_runtime_spec (na_module args) (mr_limits region) (na_heap_memory_size_limit args) = Ok ()"
    using Ok by auto
  obtain q m1 where en: "enable_ranges sys [(slot_stack s, stack_size (mr_limits region)),
      (slot_globals s, globals_size (mr_limits region)),
      (slot_sigstack s, signal_stack_size (mr_limits region))] m = (q, m1)" by fastforce
  obtain h rg m2 where hd: "new_instance_handle sys (region\<lparr>mr_freelist := fl\<rparr>) pad implicits (slot_start s) (na_module args)
      \<lparr>heap_accessible_size = 0, heap_inaccessible_size = heap_address_space_size (slot_limits s),
       heap_memory_size_limit = na_heap_memory_size_limit args, alloc_slot_opt = Some s\<rparr>
      (na_embed_ctx args) m1 = (h, rg, m2)" by (rule prod_cases3)
  from assms Ok v en hd have "q = Ok ()" and "\<exists>j. h = Ok j \<and> i = set_terminate_on_heap_oom (na_terminate_on_heap_oom args) j"
    and "rg = region'" "m2 = m'"
    by (cases q; cases h; simp add: new_instance_with_def Let_def split: if_splits)+
  with that [OF val swap_remove_mem [OF k], of m1 _ fl] en hd show thesis by auto
qed (use assms in \<open>simp_all add: new_instance_with_def\<close>)

lemma new_instance_handle_Ok:
  assumes "new_instance_handle sys region pad implicits ptr mo al ctx m = (Ok j, region', m')"
  obtains i0 m1 u where "instance_new implicits al mo ctx = Ok i0" and "write_magic ptr LUCET_INSTANCE_MAGIC m = Ok m1"
    and "reset (mmap_region_ops sys) pad i0 m1 = (Ok u, j, m')"
proof (cases "instance_new implicits al mo ctx")
  case (Ok i0)
  have mg: "inst_magic i0 = LUCET_INSTANCE_MAGIC" using instance_new_alloc [OF Ok] by simp
  have no: "ptr \<noteq> 0 \<and> read_u64 ptr m \<noteq> LUCET_INSTANCE_MAGIC"
    using assms by (auto simp: new_instance_handle_def fail_dropping_def split: if_splits prod.splits rresult.splits)
  show thesis
  proof (cases "write_magic ptr (inst_magic i0) m")
    case m1: (Ok m1)
    obtain q i' m2 where rs: "reset (mmap_region_ops sys) pad i0 m1 = (q, i', m2)" by (rule prod_cases3)
    have "q = Ok ()" "i' = j" "m2 = m'" using assms no Ok m1 rs
      by (cases q; auto simp: new_instance_handle_def split: prod.splits rresult.splits)+
    with that Ok m1 mg rs show thesis by simp
  qed (use assms no Ok in \<open>auto simp: new_instance_handle_def\<close>)
qed (use assms in \<open>auto simp: new_instance_handle_def fail_dropping_def split: if_splits prod.splits rresult.splits\<close>)

lemma instance_new_fields:
  "instance_new implicits al mo ctx = Ok i \<Longrightarrow> inst_module i = mo \<and> inst_embed_ctx i = ctx \<and>
     inst_ensure_signal_handler_installed i \<and> inst_ensure_sigstack_installed i"
  by (auto simp: instance_new_def set_instruction_count_and_bound_def set_globals_ptr_def i64_expect_def
      set_hostcall_stack_reservation_def split: option.splits if_splits)

lemma pristine_set_oom [simp]: "pristine pad mo s (set_terminate_on_heap_oom b i) m = pristine pad mo s i m"
  by (simp add: pristine_def set_terminate_on_heap_oom_def)

section \<open>Recycling a slot\<close>

definition slot_span :: "slot \<Rightarrow> u64 \<Rightarrow> bool" where
  "slot_span s a \<longleftrightarrow> in_range (slot_start s) 4096 a \<or> in_slot s a"

lemma first_page_not_in_slot: "slot_wf s \<Longrightarrow> in_range (slot_start s) 4096 a \<Longrightarrow> \<not> in_slot s a"
proof -
  assume wf: "slot_wf s" and a: "in_range (slot_start s) 4096 a"
  then have "unat (slot_start s) + 4096 \<le> 2 ^ 64" by (simp add: slot_wf_def slot_bytes_def)
  then have "unat a < unat (slot_start s) + 4096" using a in_range_nat [of "slot_start s" 4096 a] by simp
  then show "\<not> in_slot s a" using slot_wf_unat(1) [OF wf] by (simp add: in_slot_def)
qed

lemma slot_ready_frame:
  assumes "slot_ready region m s" and "\<And>a. slot_span s a \<Longrightarrow> mem_byte m' a = mem_byte m a \<and> mem_prot m' a = mem_prot m a"
    and "mr_limits region' = mr_limits region"
  shows "slot_ready region' m' s"
proof -
  have page: "slot_span s (slot_start s + of_nat k)" if "k < 8" for k
    using that in_range_offset [of "of_nat k" 4096 "slot_start s"] by (simp add: slot_span_def unat_of_nat)
  have "read_bytes (slot_start s) 8 m' = read_bytes (slot_start s) 8 m"
    by (rule nth_equalityI) (simp_all add: assms(2) page)
  then have "read_u64 (slot_start s) m' = read_u64 (slot_start s) m" by (simp add: read_u64_def)
  moreover have "slot_clean m' s" using assms(1,2) by (auto simp: slot_ready_def slot_clean_def slot_span_def)
  ultimately show ?thesis using assms by (auto simp: slot_ready_def slot_span_def)
qed

lemma zero_magic: "m' = write_bytes p (word_bytes 8 (0 :: u64)) m \<Longrightarrow> read_u64 p m' = 0"
proof -
  assume m': "m' = write_bytes p (word_bytes 8 (0 :: u64)) m"
  have off: "unat (of_nat k :: u64) = k" if "k < 8" for k using that by (simp add: unat_of_nat)
  have "read_bytes p 8 m' = replicate 8 0"
    by (rule nth_equalityI) (simp_all add: m' off word_bytes_def)
  then show ?thesis by (simp add: read_u64_def word_of_bytes_def eval_nat_numeral)
qed

lemma drop_instance_slot_ready:
  assumes os: "os_memory sys" and inv: "alloc_inv (inst_alloc i)" and s: "alloc_slot_opt (inst_alloc i) = Some s"
    and live: "live_mem m (inst_alloc i) s" and al: "page_aligned (heap_accessible_size (inst_alloc i))"
    and page: "\<forall>a. in_range (slot_start s) 4096 a \<longrightarrow> mem_prot m a = ProtReadWrite"
    and lim: "slot_limits s = mr_limits region"
    and run: "drop_instance sys region (slot_start s) i m = (Ok u, region', i', m')"
  shows "region' = region\<lparr>mr_freelist := mr_freelist region @ [s]\<rparr>" and "slot_ready region' m' s"
    and "\<And>a. \<not> slot_span s a \<Longrightarrow> mem_byte m' a = mem_byte m a \<and> mem_prot m' a = mem_prot m a"
proof -
  obtain m1 where mg: "write_magic (slot_start s) 0 m = Ok m1"
    using run by (auto simp: drop_instance_def split: rresult.splits)
  then have m1: "m1 = write_bytes (slot_start s) (word_bytes 8 (0 :: u64)) m"
    by (simp add: write_magic_def store_bytes_Ok)
  obtain al' where d: "mmap_drop_alloc sys region (inst_alloc i) m1 = (Ok u, region', al', m')"
    using run mg by (auto simp: drop_instance_def instance_drop_def split: prod.splits)
  note eff = drop_alloc_effect [OF os inv s live_after_magic [OF inv s live mg] al d]
  show region': "region' = region\<lparr>mr_freelist := mr_freelist region @ [s]\<rparr>" using eff by auto
  have clean: "slot_clean m' s"
    and frame: "\<And>a. \<not> in_slot s a \<Longrightarrow> mem_byte m' a = mem_byte m1 a \<and> mem_prot m' a = mem_prot m1 a"
    using eff by auto
  have wf: "slot_wf s" using inv s by (simp add: alloc_inv_def)
  note out = first_page_not_in_slot [OF wf]
  have first: "in_range (slot_start s) 4096 (slot_start s + of_nat k)" if "k < 8" for k
    using that by (intro in_range_offset) (simp add: unat_of_nat)
  have "read_bytes (slot_start s) 8 m' = read_bytes (slot_start s) 8 m1"
    by (rule nth_equalityI) (simp_all add: frame out first)
  then have "read_u64 (slot_start s) m' = 0" using zero_magic [OF m1] by (simp add: read_u64_def)
  then show "slot_ready region' m' s"
    using wf lim clean page frame out by (auto simp: slot_ready_def region' m1 LUCET_INSTANCE_MAGIC_def)
  fix a assume a: "\<not> slot_span s a"
  then have "\<not> unat (a - slot_start s) < 8"
    by (auto simp: slot_span_def in_range_def word_less_nat_alt)
  with a frame [of a] show "mem_byte m' a = mem_byte m a \<and> mem_prot m' a = mem_prot m a"
    by (simp add: m1 slot_span_def)
qed

lemma new_instance_fresh:
  assumes "os_memory sys" and "\<forall>s \<in> set (mr_freelist region). slot_ready region m s"
    and "module_pages_ok (na_module args)" and "page_aligned (heap_initial_size (na_module args))"
    and "new_instance_with sys gen pad implicits region args m = (Ok i, region', m')"
  shows "\<exists>s \<in> set (mr_freelist region). pristine pad (na_module args) s i m' \<and> valid_magic i \<and>
    inst_embed_ctx i = na_embed_ctx args \<and> inst_module i = na_module args \<and>
    inst_ensure_signal_handler_installed i \<and> inst_ensure_sigstack_installed i"
proof -
  let ?mo = "na_module args" and ?l = "mr_limits region" and ?lim = "na_heap_memory_size_limit args"
  obtain s fl m1 j where val: "validate_runtime_spec ?mo ?l ?lim = Ok ()" and s: "s \<in> set (mr_freelist region)"
    and en: "enable_ranges sys [(slot_stack s, stack_size ?l), (slot_globals s, globals_size ?l),
       (slot_sigstack s, signal_stack_size ?l)] m = (Ok (), m1)"
    and i: "i = set_terminate_on_heap_oom (na_terminate_on_heap_oom args) j"
    and hd: "new_instance_handle sys (region\<lparr>mr_freelist := fl\<rparr>) pad implicits (slot_start s) ?mo
         \<lparr>heap_accessible_size = 0, heap_inaccessible_size = heap_address_space_size (slot_limits s),
          heap_memory_size_limit = ?lim, alloc_slot_opt = Some s\<rparr> (na_embed_ctx args) m1 = (Ok j, region', m')"
    by (rule new_instance_with_Ok [OF assms(5)])
  let ?al = "\<lparr>heap_accessible_size = 0, heap_inaccessible_size = heap_address_space_size (slot_limits s),
          heap_memory_size_limit = ?lim, alloc_slot_opt = Some s\<rparr>"
  have ready: "slot_ready region m s" using assms(2) s by blast
  then have l: "slot_limits s = ?l" by (simp add: slot_ready_def)
  obtain i0 m2 u where i0: "instance_new implicits ?al ?mo (na_embed_ctx args) = Ok i0"
    and mg: "write_magic (slot_start s) LUCET_INSTANCE_MAGIC m1 = Ok m2"
    and rs: "reset (mmap_region_ops sys) pad i0 m2 = (Ok u, j, m')"
    by (rule new_instance_handle_Ok [OF hd])
  note f = instance_new_fields [OF i0] instance_new_alloc [OF i0]
  have lim: "?lim \<le> heap_memory_size (slot_limits s)" "heap_initial_size ?mo \<le> ?lim"
    using val l by (auto dest: validate_runtime_spec_Ok)
  note fresh = fresh_alloc_live [OF assms(1) ready lim(1) en refl]
  have live: "live_mem m2 ?al s" using live_after_magic [OF fresh(1) _ fresh(2) mg] by simp
  have pr: "pristine pad (inst_module i0) s j m'"
    and j: "j = i0\<lparr>inst_alloc := inst_alloc j, inst_state := inst_state j, inst_kill_state := kill_state_new\<rparr>"
    using reset_mmap_Ok [OF assms(1) _ _ _ _ _ _ rs, of s] fresh(1) live lim(2) assms(3,4) f by simp_all
  have "inst_magic j = inst_magic i0" "inst_embed_ctx j = inst_embed_ctx i0" "inst_module j = inst_module i0"
    "inst_ensure_signal_handler_installed j = inst_ensure_signal_handler_installed i0"
    "inst_ensure_sigstack_installed j = inst_ensure_sigstack_installed i0" by (subst j; simp)+
  with pr s f i show ?thesis by (auto simp: valid_magic_def set_terminate_on_heap_oom_def pristine_def)
qed

section \<open>Properties\<close>

text \<open>C4: No leak between the instances of a region: on a region whose free slots are ready (laid out,
  zeroed, inaccessible, first page writable and without an instance's magic), creating an instance that
  succeeds yields one whose heap is the module's image and zero elsewhere, whose globals are the module's
  initial values, with the initial heap size accessible and the rest trapping, its state is
  \<open>NotStarted\<close> if the module has a start function and \<open>Ready\<close> otherwise, and it has the
  embedder's contexts; nothing of it depends on what the slot was used for before.\<close>

theorem new_instance_pristine:
  assumes "os_memory sys" and "\<forall>s \<in> set (mr_freelist region). slot_ready region m s"
    and "module_pages_ok (na_module args)" and "page_aligned (heap_initial_size (na_module args))"
    and "new_instance_with sys gen pad implicits region args m = (Ok i, region', m')"
  shows "\<exists>s \<in> set (mr_freelist region). pristine pad (na_module args) s i m' \<and> valid_magic i \<and>
    inst_embed_ctx i = na_embed_ctx args"
  using new_instance_fresh [OF assms] by blast

text \<open>Slots are conserved: creating an instance takes exactly one slot off the free list and gives it
  to the instance; when it returns an error the slot is back on the free list, whichever step failed.\<close>

theorem new_instance_conserves_slots:
  assumes "os_memory sys" and "new_instance_with sys gen pad implicits region args m = (r, region', m')"
  shows "case r of
      Ok i \<Rightarrow> (\<exists>s. alloc_slot_opt (inst_alloc i) = Some s \<and> free_mset region = add_mset s (free_mset region'))
    | Err e \<Rightarrow> free_mset region' = free_mset region
    | Panic p \<Rightarrow> True"
proof (cases "rbind (validate_runtime_spec (na_module args) (mr_limits region) (na_heap_memory_size_limit args)) (\<lambda>_.
    rbind (alloc_strategy_next gen (na_alloc_strategy args) (length (mr_freelist region)) (mr_capacity region))
    (\<lambda>k. swap_remove k (mr_freelist region)))")
  case (Err e)
  with assms(2) show ?thesis by (auto simp: new_instance_with_def)
next
  case (Panic p)
  with assms(2) show ?thesis by (auto simp: new_instance_with_def)
next
  case (Ok v)
  obtain s fl where v: "v = (s, fl)" by fastforce
  then obtain k where "swap_remove k (mr_freelist region) = (Ok (s, fl) :: (error, slot \<times> slot list) rresult)" using Ok by auto
  then have free: "free_mset region = add_mset s (mset fl)" by (rule swap_remove_mset)
  let ?region = "region\<lparr>mr_freelist := fl\<rparr>"
  let ?al = "\<lparr>heap_accessible_size = 0, heap_inaccessible_size = heap_address_space_size (slot_limits s),
      heap_memory_size_limit = na_heap_memory_size_limit args, alloc_slot_opt = Some s\<rparr>"
  obtain q m1 where en: "enable_ranges sys [(slot_stack s, stack_size (mr_limits region)),
      (slot_globals s, globals_size (mr_limits region)),
      (slot_sigstack s, signal_stack_size (mr_limits region))] m = (q, m1)" by fastforce
  obtain h rg m2 where hd: "new_instance_handle sys ?region pad implicits (slot_start s) (na_module args) ?al
      (na_embed_ctx args) m1 = (h, rg, m2)" by (rule prod_cases3)
  have no_err: "q \<noteq> Err e" for e
    using en by (auto simp: expect_sys_def split: if_splits prod.splits)
  from new_instance_handle_slots [OF assms(1) _ hd, of s] show ?thesis
    using assms(2) Ok v en hd free no_err
    by (cases q; cases h) (auto simp: new_instance_with_def Let_def set_terminate_on_heap_oom_def split: if_splits)
qed

text \<open>Recycling: dropping a live instance puts its slot at the end of the free list, ready for
  another instance, and keeps every other ready slot that shares no address with it ready, so the invariant
  that creation relies on holds again.\<close>

theorem drop_instance_recycles:
  assumes "os_memory sys" and "alloc_inv (inst_alloc i)" and "alloc_slot_opt (inst_alloc i) = Some s"
    and "live_mem m (inst_alloc i) s" and "page_aligned (heap_accessible_size (inst_alloc i))"
    and "\<forall>a. in_range (slot_start s) 4096 a \<longrightarrow> mem_prot m a = ProtReadWrite"
    and "slot_limits s = mr_limits region"
    and "\<forall>t \<in> set (mr_freelist region). slot_ready region m t \<and> (\<forall>a. \<not> (slot_span s a \<and> slot_span t a))"
    and "drop_instance sys region (slot_start s) i m = (r, region', i', m')" and "\<forall>p. r \<noteq> Panic p"
  shows "r = Ok () \<and> mr_freelist region' = mr_freelist region @ [s] \<and>
    (\<forall>t \<in> set (mr_freelist region'). slot_ready region' m' t)"
proof -
  have ok: "r = Ok ()" using drop_instance_Ok [OF assms(9,3)] assms(10) by blast
  note eff = drop_instance_slot_ready [OF assms(1-7) assms(9) [unfolded ok]]
  have lim: "mr_limits region' = mr_limits region" by (simp add: eff(1))
  have "slot_ready region' m' t" if t: "t \<in> set (mr_freelist region)" for t
  proof (rule slot_ready_frame [OF _ _ lim])
    show "slot_ready region m t" using assms(8) t by blast
    fix a assume "slot_span t a"
    then have "\<not> slot_span s a" using assms(8) t by blast
    then show "mem_byte m' a = mem_byte m a \<and> mem_prot m' a = mem_prot m a" by (rule eff(3))
  qed
  then show ?thesis using ok eff(2) by (simp add: eff(1))
qed

subsection \<open>Instances\<close>

text \<open>A region with one free slot, freshly mapped.\<close>

definition demo_free_region :: mmap_region where
  "demo_free_region = demo_region\<lparr>mr_freelist := [demo_slot]\<rparr>"

definition demo_free_mem :: memory where
  "demo_free_mem = \<lparr>mem_byte = (\<lambda>_. 0),
     mem_prot = (\<lambda>a. if in_range (slot_start demo_slot) 4096 a then ProtReadWrite else ProtNone)\<rparr>"

lemma demo_slot_wf: "slot_wf demo_slot"
  using demo_inv by (simp add: alloc_inv_def)

lemma zero_read_u64: "(\<And>a. mem_byte m a = 0) \<Longrightarrow> read_u64 p m = 0"
proof -
  assume z: "\<And>a. mem_byte m a = 0"
  have "read_bytes p 8 m = replicate 8 0" by (rule nth_equalityI) (simp_all add: z)
  then show ?thesis by (simp add: read_u64_def word_of_bytes_def eval_nat_numeral)
qed

lemma demo_ready: "\<forall>s \<in> set (mr_freelist demo_free_region). slot_ready demo_free_region demo_free_mem s"
  using demo_slot_wf first_page_not_in_slot [OF demo_slot_wf]
  by (auto simp: demo_free_region_def slot_ready_def demo_region_def slot_clean_def demo_free_mem_def
      zero_read_u64 LUCET_INSTANCE_MAGIC_def) (simp add: demo_slot_def)

definition demo_implicits :: instance_runtime_data where
  "demo_implicits = \<lparr>globals_ptr = 7, instruction_count_adj = 7, instruction_count_bound = 7, stack_limit = 7\<rparr>"

definition demo_args :: new_instance_args where
  "demo_args = instance_builder_new demo_free_region demo_module"

lemma demo_module_hyps: "module_pages_ok demo_module" "page_aligned (heap_initial_size demo_module)"
  by (simp_all add: module_pages_ok_def demo_page demo_initial page_aligned_def)

lemma demo_module_fields: "mo_globals demo_module = []" "mo_start_func demo_module = Ok None"
  by (simp_all add: demo_module_def mock_module_ops_def module_data_empty_def)

lemma demo_mprotect: "expect_sys msg (sys_mprotect demo_sys a n p m) = (Ok (), set_prot a n p m)"
  by (simp add: demo_sys_def linux_sys_def expect_sys_def)

lemma demo_reset_runs:
  assumes "alloc_inv (inst_alloc i)" and "alloc_slot_opt (inst_alloc i) = Some s" and "live_mem m (inst_alloc i) s"
    and "inst_module i = demo_module" and "0x10000 \<le> heap_memory_size_limit (inst_alloc i)"
  shows "\<exists>i' m'. reset (mmap_region_ops demo_sys) pad i m = (Ok (), i', m')"
proof (cases rule: mmap_reset_heap_cases [OF demo_os assms(1-3) demo_module_hyps(1) _ demo_module_hyps(2), case_names lim ok failed])
  case lim
  with assms(5) show ?case by (simp add: demo_initial)
next
  case (ok m1)
  then show ?thesis using assms
    by (simp add: reset_def alloc_reset_heap_def mmap_region_ops_def globals_slice_def alloc_slot_def Let_def
        demo_module_fields)
next
  case (failed m1)
  then show ?thesis using demo_reset_not_err by blast
qed

lemma demo_new_instance_runs:
  "\<exists>i region' m'. new_instance_with demo_sys gen pad demo_implicits demo_free_region demo_args demo_free_mem = (Ok i, region', m')"
proof -
  let ?al = "\<lparr>heap_accessible_size = 0, heap_inaccessible_size = heap_address_space_size (slot_limits demo_slot),
      heap_memory_size_limit = heap_memory_size limits_default, alloc_slot_opt = Some demo_slot\<rparr>"
  let ?rs = "[(slot_stack demo_slot, stack_size limits_default), (slot_globals demo_slot, globals_size limits_default),
      (slot_sigstack demo_slot, signal_stack_size limits_default)]"
  have lim: "mr_limits demo_free_region = limits_default" by (simp add: demo_free_region_def demo_region_def)
  obtain m1 where en: "enable_ranges demo_sys ?rs demo_free_mem = (Ok (), m1)" by (simp add: demo_mprotect)
  have ready: "slot_ready demo_free_region demo_free_mem demo_slot" using demo_ready by (simp add: demo_free_region_def)
  have l: "slot_limits demo_slot = limits_default" by (simp add: demo_slot_def)
  note fresh = fresh_alloc_live [OF demo_os ready, unfolded l lim, OF order.refl en refl]
  have al: "\<forall>(p, n) \<in> set ?rs. page_aligned p \<and> page_aligned n" using slot_wf_aligned [OF demo_slot_wf] l by simp
  have page: "mem_prot m1 a = ProtReadWrite" if "in_range (slot_start demo_slot) 4096 a" for a
    using that os_memory.enable_ranges_Ok(2) [OF demo_os en al] by (auto simp: demo_free_mem_def)
  have magic: "read_u64 (slot_start demo_slot) m1 \<noteq> LUCET_INSTANCE_MAGIC"
    using os_memory.enable_ranges_Ok(1) [OF demo_os en al]
    by (subst zero_read_u64) (simp_all add: demo_free_mem_def LUCET_INSTANCE_MAGIC_def)
  have "mem_prot m1 (slot_start demo_slot + of_nat k) = ProtReadWrite" if "k < 8" for k
    using that by (intro page in_range_offset) (simp add: unat_of_nat)
  then obtain m2 where mg: "write_magic (slot_start demo_slot) LUCET_INSTANCE_MAGIC m1 = Ok m2"
    by (simp add: write_magic_def store_bytes_Ok)
  obtain i0 where i0: "instance_new demo_implicits ?al demo_module ctx_map_new = Ok i0"
    by (simp add: instance_new_def alloc_slot_def set_instruction_count_and_bound_def i64_expect_def
        set_hostcall_stack_reservation_def set_globals_ptr_def)
  note f = instance_new_fields [OF i0] instance_new_alloc [OF i0]
  obtain i m3 where rs: "reset (mmap_region_ops demo_sys) pad i0 m2 = (Ok (), i, m3)"
    using demo_reset_runs [of i0 demo_slot m2 pad] f fresh(1) live_after_magic [OF fresh(1) _ fresh(2) mg]
    by (auto simp: limits_default_def l)
  have hd: "new_instance_handle demo_sys (demo_free_region\<lparr>mr_freelist := []\<rparr>) pad demo_implicits (slot_start demo_slot)
      demo_module ?al ctx_map_new m1 = (Ok i, demo_free_region\<lparr>mr_freelist := []\<rparr>, m3)"
    using magic mg i0 f rs by (simp add: new_instance_handle_def) (simp add: demo_slot_def)
  have fl: "mr_freelist demo_free_region = [demo_slot]" by (simp add: demo_free_region_def)
  have val: "validate_runtime_spec demo_module limits_default (heap_memory_size limits_default) = Ok ()"
    by (simp add: validate_runtime_spec_def demo_heap_spec heap_spec_new_def limits_default_def Let_def
        initial_globals_size_def demo_module_fields)
  have pagealign: "slot_heap demo_slot mod host_page_size = 0" by (simp add: demo_slot_def host_page_size_def)
  show ?thesis
    using hd en val fl l lim pagealign
    by (simp add: new_instance_with_def demo_args_def instance_builder_new_def alloc_strategy_next_def swap_remove_def
        Let_def del: enable_ranges.simps)
qed

theorem new_instance_pristine_witness:
  "\<exists>i region' m'. new_instance_with demo_sys (\<lambda>_. 0) 0 demo_implicits demo_free_region demo_args demo_free_mem =
      (Ok i, region', m') \<and> pristine 0 demo_module demo_slot i m' \<and> inst_state i = Ready"
proof -
  obtain i region' m' where run: "new_instance_with demo_sys (\<lambda>_. 0) 0 demo_implicits demo_free_region demo_args demo_free_mem =
      (Ok i, region', m')" using demo_new_instance_runs by blast
  have mo: "na_module demo_args = demo_module" by (simp add: demo_args_def instance_builder_new_def)
  have "pristine 0 demo_module demo_slot i m'"
    using new_instance_pristine [OF demo_os demo_ready _ _ run] demo_module_hyps
    by (simp add: mo) (simp add: demo_free_region_def)
  moreover from this have "inst_state i = Ready" by (simp add: pristine_def demo_module_fields)
  ultimately show ?thesis using run by blast
qed

theorem new_instance_conserves_slots_witness:
  "\<exists>i region' m'. new_instance_with demo_sys (\<lambda>_. 0) 0 demo_implicits demo_free_region demo_args demo_free_mem =
      (Ok i, region', m') \<and> alloc_slot_opt (inst_alloc i) = Some demo_slot \<and> mr_freelist region' = []"
proof -
  obtain i region' m' where run: "new_instance_with demo_sys (\<lambda>_. 0) 0 demo_implicits demo_free_region demo_args demo_free_mem =
      (Ok i, region', m')" using demo_new_instance_runs by blast
  from new_instance_conserves_slots [OF demo_os run] run show ?thesis
    by (auto simp: demo_free_region_def single_is_union add_mset_eq_single)
qed

text \<open>A live instance in the slot, over the live memory of the region's examples with a writable first page.\<close>

definition demo_inst :: inst where
  "demo_inst = (case instance_new demo_implicits demo_alloc demo_module ctx_map_new of Ok i \<Rightarrow> i)"

lemma demo_inst_new: "instance_new demo_implicits demo_alloc demo_module ctx_map_new = Ok demo_inst"
  by (simp add: demo_inst_def instance_new_def alloc_slot_def demo_alloc_def set_instruction_count_and_bound_def
      i64_expect_def set_hostcall_stack_reservation_def set_globals_ptr_def)

lemmas demo_inst_fields = instance_new_fields [OF demo_inst_new] instance_new_alloc [OF demo_inst_new]

definition demo_inst_mem :: memory where
  "demo_inst_mem = set_prot (slot_start demo_slot) 4096 ProtReadWrite demo_mem"

lemma demo_inst_live: "live_mem demo_inst_mem demo_alloc demo_slot"
  unfolding live_mem_def
proof
  fix a
  show "location_ok (location demo_alloc demo_slot a) (mem_prot demo_inst_mem a) (mem_byte demo_inst_mem a)"
    using demo_live [unfolded live_mem_def, rule_format, of a] first_page_unknown [OF demo_inv, of a]
    by (auto simp: demo_inst_mem_def)
qed

theorem drop_instance_recycles_witness:
  "\<exists>region' i' m'. drop_instance demo_sys demo_region (slot_start demo_slot) demo_inst demo_inst_mem =
      (Ok (), region', i', m') \<and> mr_freelist region' = [demo_slot] \<and> slot_ready region' m' demo_slot"
proof -
  obtain r region' i' m' where run: "drop_instance demo_sys demo_region (slot_start demo_slot) demo_inst demo_inst_mem =
      (r, region', i', m')" by (rule prod_cases4)
  have page: "\<forall>a. in_range (slot_start demo_slot) 4096 a \<longrightarrow> mem_prot demo_inst_mem a = ProtReadWrite"
    by (simp add: demo_inst_mem_def)
  have al: "page_aligned (heap_accessible_size demo_alloc)" by (simp add: demo_alloc_def page_aligned_def)
  have lim: "slot_limits demo_slot = mr_limits demo_region" by (simp add: demo_slot_def demo_region_def)
  have free: "mr_freelist demo_region = []" by (simp add: demo_region_def)
  have "mem_prot demo_inst_mem (slot_start demo_slot + of_nat k) = ProtReadWrite" if "k < 8" for k
    using that page in_range_offset [of "of_nat k" 4096 "slot_start demo_slot"] by (simp add: unat_of_nat)
  then obtain m1 where "write_magic (slot_start demo_slot) 0 demo_inst_mem = Ok m1"
    by (simp add: write_magic_def store_bytes_Ok)
  then have np: "\<forall>p. r \<noteq> Panic p"
    using run demo_inst_fields
    by (auto simp: drop_instance_def instance_drop_def mmap_drop_alloc_def demo_alloc_def demo_slot_def Let_def
        host_page_size_def demo_sys_def linux_sys_def expect_sys_def)
  from drop_instance_recycles [OF demo_os _ _ _ _ page lim _ run np] run free show ?thesis
    using demo_inv demo_inst_live al demo_inst_fields by simp
qed

text \<open>Instances of the properties of the instance's own operations.\<close>

theorem instruction_bound_exact_witness:
  "\<exists>i'. set_instruction_bound_delta (Some 3) demo_inst = Ok i' \<and>
     get_instruction_count i' = get_instruction_count demo_inst \<and>
     \<not> bound_reached (instruction_count_adj (inst_implicits i') + of_nat 2) \<and>
     bound_reached (instruction_count_adj (inst_implicits i') + of_nat 3)"
proof -
  obtain i' where i': "set_instruction_bound_delta (Some 3) demo_inst = Ok i'"
    by (simp add: set_instruction_bound_delta_def i64_expect_def Let_def)
  have "get_instruction_count i' = get_instruction_count demo_inst \<and>
    (\<forall>k < 2 ^ 63. bound_reached (instruction_count_adj (inst_implicits i') + of_nat k) \<longleftrightarrow> unat (3 :: u64) \<le> k)"
    by (rule instruction_bound_exact [OF i']) simp
  then have "get_instruction_count i' = get_instruction_count demo_inst"
    and k: "\<And>k. k < 2 ^ 63 \<Longrightarrow> bound_reached (instruction_count_adj (inst_implicits i') + of_nat k) \<longleftrightarrow> 3 \<le> k"
    by simp_all
  with i' k [of 2] k [of 3] show ?thesis by simp
qed

theorem grow_memory_exact_witness:
  "\<exists>i' m'. grow_memory (mmap_region_ops demo_sys) 2 demo_inst demo_inst_mem = (Ok 1, i', m') \<and>
     unat (heap_accessible_size (inst_alloc i')) = 3 * 65536"
proof -
  obtain r i' m' where run: "grow_memory (mmap_region_ops demo_sys) 2 demo_inst demo_inst_mem = (r, i', m')"
    by (rule prod_cases3)
  have fit: "growth_ok demo_alloc demo_slot (heap_spec_new 0x100000 0x10000 0x10000 None) 0x20000"
    by (simp add: growth_ok_def demo_alloc_def demo_slot_def grown_bytes_def heap_spec_new_def limits_default_def)
  obtain u m1 where "ro_expand_heap (mmap_region_ops demo_sys) demo_slot
      (ucast (heap_accessible_size demo_alloc)) (pagealigned 0x20000) demo_inst_mem = (Ok u, m1)"
    by (simp add: mmap_region_ops_def mmap_expand_heap_def demo_sys_def linux_sys_def of_sys_def)
  then have ok: "r = Ok 1"
    using run demo_inst_fields expand_heap_within [OF demo_inv demo_heap_spec _ fit, of "mmap_region_ops demo_sys" demo_inst_mem]
    by (auto simp: grow_memory_def checked_mul_def WASM_PAGE_SIZE_def demo_alloc_def)
  from grow_memory_exact [OF os_memory.mmap_region_internal [OF demo_os] _ _ _ run] demo_inv demo_inst_fields run ok
  show ?thesis by (simp add: demo_alloc_def)
qed

end
