(* ===== verification/Signals.thy ===== *)
theory Signals
  imports Instance_Data
begin

text \<open>
  Signal handling (\<open>instance/signals.rs\<close>): the process-wide handlers and panic hook that are
  installed while instances run, the per-thread signal stack, and \<open>handle_signal\<close>. The host process
  and the running thread are a record; \<open>sigaction\<close> on the five signals used here cannot fail, and
  \<open>sigaltstack\<close> fails exactly on a thread that executes on its signal stack or when the new stack
  is smaller than the kernel's minimum. The lemmas show that the handlers and the hook are a counted
  resource: installed while somebody uses them and restored to what the host had when the last user leaves.
\<close>

section \<open>The host process\<close>

text \<open>Handlers are numbers naming functions; \<open>HandleSignal\<close> is \<open>handle_signal\<close>.\<close>

datatype sig_handler = SigDfl | SigIgn | Handler nat | SigActionFn nat | HandleSignal

record sig_action =
  sa_handler :: sig_handler
  sa_flags :: u32
  sa_mask :: "signal list"

definition SA_SIGINFO :: u32 where "SA_SIGINFO = 4"
definition SA_ONSTACK :: u32 where "SA_ONSTACK = 0x08000000"
definition SA_RESTART :: u32 where "SA_RESTART = 0x10000000"

record sig_stack =
  ss_sp :: u64
  ss_size :: usize

text \<open>A panic hook of the host, or the closure \<open>setup_guest_panic_hook\<close> builds, which holds an
  \<open>Arc\<close> (numbered) to the hook it replaced.\<close>

datatype panic_hook = DefaultHook | HostHook nat | GuestHook nat panic_hook

record sig_state =
  counter :: nat
  saved_sigbus :: sig_action
  saved_sigfpe :: sig_action
  saved_sigill :: sig_action
  saved_sigsegv :: sig_action
  saved_sigalrm :: sig_action
  saved_panic_hook :: "(nat \<times> panic_hook) option"

record host =
  h_sigaction :: "signal \<Rightarrow> sig_action"
  h_hook :: panic_hook
  h_held_hooks :: "panic_hook list"
  h_next_arc :: nat
  h_signal_state :: "sig_state option"
  h_signal_poisoned :: bool
  h_manually_installed :: bool
  h_manual_poisoned :: bool
  h_altstack :: "sig_stack option"
  h_on_altstack :: bool
  h_debug_assertions :: bool

definition sigaction :: "signal \<Rightarrow> sig_action \<Rightarrow> 'a host_scheme \<Rightarrow> sig_action \<times> 'a host_scheme" where
  "sigaction sig sa h = (h_sigaction h sig, h\<lparr>h_sigaction := (h_sigaction h)(sig := sa)\<rparr>)"

definition take_hook :: "'a host_scheme \<Rightarrow> panic_hook \<times> 'a host_scheme" where
  "take_hook h = (h_hook h, h\<lparr>h_hook := DefaultHook\<rparr>)"

definition set_hook :: "panic_hook \<Rightarrow> 'a host_scheme \<Rightarrow> 'a host_scheme" where
  "set_hook k h = h\<lparr>h_hook := k\<rparr>"

text \<open>The arcs a hook keeps alive, and the strong count of an arc that the signal state also holds.\<close>

fun hook_arcs :: "panic_hook \<Rightarrow> nat list" where
  "hook_arcs (GuestHook arc saved) = arc # hook_arcs saved"
| "hook_arcs _ = []"

definition arc_strong_count :: "nat \<Rightarrow> 'a host_scheme \<Rightarrow> nat" where
  "arc_strong_count arc h =
     1 + length (filter (\<lambda>k. arc \<in> set (hook_arcs k)) (h_hook h # h_held_hooks h))"

text \<open>Which hook of the host a panic reaches: \<open>None\<close> when the panic is dropped silently. The flag says
  whether the payload is \<open>TerminationDetails\<close>.\<close>

fun run_hook :: "panic_hook \<Rightarrow> bool \<Rightarrow> panic_hook option" where
  "run_hook (GuestHook arc saved) is_details = (if \<not> is_details then run_hook saved is_details else None)"
| "run_hook k is_details = Some k"

section \<open>Installing and removing\<close>

definition lucet_sigaction :: sig_action where
  "lucet_sigaction = \<lparr>sa_handler = HandleSignal, sa_flags = SA_RESTART OR SA_SIGINFO OR SA_ONSTACK,
     sa_mask = [SIGBUS, SIGFPE, SIGILL, SIGSEGV, SIGALRM]\<rparr>"

definition setup_guest_panic_hook :: "'a host_scheme \<Rightarrow> (nat \<times> panic_hook) \<times> 'a host_scheme" where
  "setup_guest_panic_hook h =
     (case take_hook h of (saved, h) \<Rightarrow>
        let arc = h_next_arc h in
        ((arc, saved), set_hook (GuestHook arc saved) (h\<lparr>h_next_arc := arc + 1\<rparr>)))"

definition setup_guest_signal_state :: "'a host_scheme \<Rightarrow> 'a host_scheme" where
  "setup_guest_signal_state h =
     (let sa = lucet_sigaction;
          (bus, h) = sigaction SIGBUS sa h;
          (fpe, h) = sigaction SIGFPE sa h;
          (ill, h) = sigaction SIGILL sa h;
          (segv, h) = sigaction SIGSEGV sa h;
          (alrm, h) = sigaction SIGALRM sa h;
          (hook, h) = setup_guest_panic_hook h
      in h\<lparr>h_signal_state := Some \<lparr>counter = 1, saved_sigbus = bus, saved_sigfpe = fpe, saved_sigill = ill,
           saved_sigsegv = segv, saved_sigalrm = alrm, saved_panic_hook = Some hook\<rparr>\<rparr>)"

definition restore_host_signal_state :: "sig_state \<Rightarrow> 'a host_scheme \<Rightarrow> 'a host_scheme" where
  "restore_host_signal_state st h =
     (let (_, h) = sigaction SIGBUS (saved_sigbus st) h;
          (_, h) = sigaction SIGFPE (saved_sigfpe st) h;
          (_, h) = sigaction SIGILL (saved_sigill st) h;
          (_, h) = sigaction SIGSEGV (saved_sigsegv st) h;
          (_, h) = sigaction SIGALRM (saved_sigalrm st) h;
          (_, h) = take_hook h
      in case saved_panic_hook st of
           None \<Rightarrow> h
         | Some (arc, hook) \<Rightarrow> if arc_strong_count arc h = 1 then set_hook hook h else h)"

definition poison_error :: string where
  "poison_error = ''called Result::unwrap() on a PoisonError''"

definition increment_lucet_signal_state :: "'a host_scheme \<Rightarrow> unit run_res \<times> 'a host_scheme" where
  "increment_lucet_signal_state h =
     (if h_signal_poisoned h then (Panic poison_error, h)
      else (case h_signal_state h of
          Some st \<Rightarrow> (Ok (), h\<lparr>h_signal_state := Some (st\<lparr>counter := counter st + 1\<rparr>)\<rparr>)
        | None \<Rightarrow> (Ok (), setup_guest_signal_state h)))"

text \<open>The panic happens with the lock held, which poisons it.\<close>

definition decrement_lucet_signal_state :: "'a host_scheme \<Rightarrow> unit run_res \<times> 'a host_scheme" where
  "decrement_lucet_signal_state h =
     (if h_signal_poisoned h then (Panic poison_error, h)
      else (case h_signal_state h of
          Some st \<Rightarrow>
            (let st = st\<lparr>counter := counter st - 1\<rparr> in
             if counter st = 0 then (Ok (), (restore_host_signal_state st h)\<lparr>h_signal_state := None\<rparr>)
             else (Ok (), h\<lparr>h_signal_state := Some st\<rparr>))
        | None \<Rightarrow>
            (Panic ''signal handlers weren't installed at decrement'', h\<lparr>h_signal_poisoned := True\<rparr>)))"

definition with_manual_lock ::
  "('a host_scheme \<Rightarrow> unit run_res \<times> 'a host_scheme) \<Rightarrow> bool \<Rightarrow> 'a host_scheme \<Rightarrow> unit run_res \<times> 'a host_scheme" where
  "with_manual_lock act new h =
     (case act h of
        (Ok _, h') \<Rightarrow> (Ok (), h'\<lparr>h_manually_installed := new\<rparr>)
      | (e, h') \<Rightarrow> (e, h'\<lparr>h_manual_poisoned := True\<rparr>))"

definition install_lucet_signal_handler :: "'a host_scheme \<Rightarrow> unit run_res \<times> 'a host_scheme" where
  "install_lucet_signal_handler h =
     (if h_manual_poisoned h then (Panic poison_error, h)
      else if \<not> h_manually_installed h then with_manual_lock increment_lucet_signal_state True h
      else (Ok (), h))"

definition remove_lucet_signal_handler :: "'a host_scheme \<Rightarrow> unit run_res \<times> 'a host_scheme" where
  "remove_lucet_signal_handler h =
     (if h_manual_poisoned h then (Panic poison_error, h)
      else if h_manually_installed h then with_manual_lock decrement_lucet_signal_state False h
      else (Ok (), h))"

section \<open>Signal stacks\<close>

definition sigaltstack :: "sig_stack option \<Rightarrow> 'a host_scheme \<Rightarrow> sig_stack option run_res \<times> 'a host_scheme" where
  "sigaltstack new h =
     (if h_on_altstack h \<or> (case new of None \<Rightarrow> False | Some s \<Rightarrow> ss_size s < MINSIGSTKSZ)
      then (Err (InternalError ''nix error''), h)
      else (Ok (h_altstack h), h\<lparr>h_altstack := new\<rparr>))"

text \<open>The first part of \<open>with_signals_on\<close>. The flags of the stack that is returned never contain
  \<open>SS_ONSTACK\<close>, since the call fails in that case, so the assertion on them always holds.\<close>

definition install_sigstack :: "inst \<Rightarrow> 'a host_scheme \<Rightarrow> sig_stack option run_res \<times> 'a host_scheme" where
  "install_sigstack i h =
     (if inst_ensure_sigstack_installed i
      then (case rbind (alloc_slot (inst_alloc i)) (\<lambda>s.
              rbind (validate_sigstack_size (signal_stack_size (slot_limits s))) (\<lambda>_. Ok s)) of
          Ok s \<Rightarrow>
            (case sigaltstack (Some \<lparr>ss_sp = slot_sigstack s, ss_size = signal_stack_size (slot_limits s)\<rparr>) h of
               (Err e, h') \<Rightarrow> (Panic ''enabling or changing the signal stack succeeds'', h')
             | res \<Rightarrow> res)
        | Err e \<Rightarrow> (Err e, h)
        | Panic p \<Rightarrow> (Panic p, h))
      else if h_debug_assertions h \<and>
        \<not> is_ok (validate_sigstack_size (case h_altstack h of None \<Rightarrow> 0 | Some s \<Rightarrow> ss_size s))
      then (Panic ''signal stack must be large enough'', h)
      else (Ok None, h))"

definition restore_sigstack :: "sig_stack option \<Rightarrow> inst \<Rightarrow> 'a host_scheme \<Rightarrow> unit run_res \<times> 'a host_scheme" where
  "restore_sigstack previous i h =
     (if inst_ensure_sigstack_installed i \<and> \<not> h_on_altstack h
      then (case sigaltstack previous h of
          (Ok _, h') \<Rightarrow> (Ok (), h')
        | (_, h') \<Rightarrow> (Panic ''sigaltstack restoration succeeds'', h'))
      else (Ok (), h))"

section \<open>Running with signals on\<close>

definition install_handlers :: "inst \<Rightarrow> 'a host_scheme \<Rightarrow> unit run_res \<times> 'a host_scheme" where
  "install_handlers i h =
     (if inst_ensure_signal_handler_installed i then increment_lucet_signal_state h
      else if h_debug_assertions h \<and> h_signal_poisoned h then (Panic poison_error, h)
      else if h_debug_assertions h \<and> h_signal_state h = None then (Panic ''signal handler is installed'', h)
      else (Ok (), h))"

definition restore_handlers :: "inst \<Rightarrow> 'a host_scheme \<Rightarrow> unit run_res \<times> 'a host_scheme" where
  "restore_handlers i h =
     (if inst_ensure_signal_handler_installed i then decrement_lucet_signal_state h else (Ok (), h))"

text \<open>\<open>with_signals_on\<close>. The body is \<open>None\<close> when it never returns; a panic of the body unwinds without
  restoring anything.\<close>

definition with_signals_on ::
  "(inst \<Rightarrow> 'a host_scheme \<Rightarrow> ('r run_res \<times> inst \<times> 'a host_scheme) option) \<Rightarrow> inst \<Rightarrow> 'a host_scheme \<Rightarrow>
   ('r run_res \<times> inst \<times> 'a host_scheme) option" where
  "with_signals_on f i h =
     (case install_sigstack i h of
        (Ok previous, h1) \<Rightarrow>
          (case install_handlers i h1 of
             (Ok _, h2) \<Rightarrow>
               (case f i h2 of
                  None \<Rightarrow> None
                | Some (Panic p, i', h3) \<Rightarrow> Some (Panic p, i', h3)
                | Some (res, i', h3) \<Rightarrow>
                    (case restore_handlers i' h3 of
                       (Ok _, h4) \<Rightarrow>
                         (case restore_sigstack previous i' h4 of
                            (Ok _, h5) \<Rightarrow> Some (res, i', h5)
                          | (Err e, h5) \<Rightarrow> Some (Err e, i', h5)
                          | (Panic p, h5) \<Rightarrow> Some (Panic p, i', h5))
                     | (Err e, h4) \<Rightarrow> Some (Err e, i', h4)
                     | (Panic p, h4) \<Rightarrow> Some (Panic p, i', h4)))
           | (Err e, h2) \<Rightarrow> Some (Err e, i, h2)
           | (Panic p, h2) \<Rightarrow> Some (Panic p, i, h2))
      | (Err e, h1) \<Rightarrow> Some (Err e, i, h1)
      | (Panic p, h1) \<Rightarrow> Some (Panic p, i, h1))"

section \<open>The handler\<close>

datatype signal_behavior = Behavior_Default | Behavior_Continue | Behavior_Terminate

type_synonym signal_handlers =
  "nat \<Rightarrow> inst \<Rightarrow> trap_code option \<Rightarrow> signal \<Rightarrow> siginfo \<Rightarrow> ucontext \<Rightarrow> signal_behavior"

definition signal_handler_none ::
  "inst \<Rightarrow> trap_code option \<Rightarrow> signal \<Rightarrow> siginfo \<Rightarrow> ucontext \<Rightarrow> signal_behavior" where
  "signal_handler_none i tc signum info uc = Behavior_Default"

text \<open>The handler an instance calls: the default one, or one the embedder supplied.\<close>

definition call_signal_handler ::
  "signal_handlers \<Rightarrow> inst \<Rightarrow> trap_code option \<Rightarrow> signal \<Rightarrow> siginfo \<Rightarrow> ucontext \<Rightarrow> signal_behavior" where
  "call_signal_handler handlers i =
     (if inst_signal_handler i = DEFAULT_HANDLER then signal_handler_none i else handlers (inst_signal_handler i) i)"

text \<open>What \<open>reraise_host_signal_in_handler\<close> does with a signal of the host.\<close>

datatype reraise = RaiseUnmasked signal | CallHandler nat | CallSigAction nat | Recurse | Ignored

definition saved_action :: "signal \<Rightarrow> sig_state \<Rightarrow> sig_action run_res" where
  "saved_action sig st =
     (case sig of
        SIGBUS \<Rightarrow> Ok (saved_sigbus st)
      | SIGFPE \<Rightarrow> Ok (saved_sigfpe st)
      | SIGILL \<Rightarrow> Ok (saved_sigill st)
      | SIGSEGV \<Rightarrow> Ok (saved_sigsegv st)
      | SIGALRM \<Rightarrow> Ok (saved_sigalrm st)
      | OtherSignal _ \<Rightarrow> Panic ''unexpected signal in reraise_host_signal_in_handler'')"

definition reraise_host_signal_in_handler :: "signal \<Rightarrow> 'a host_scheme \<Rightarrow> reraise run_res \<times> 'a host_scheme" where
  "reraise_host_signal_in_handler sig h =
     (if h_signal_poisoned h then (Panic poison_error, h)
      else (case h_signal_state h of
          None \<Rightarrow> (Ok (RaiseUnmasked sig), h)
        | Some st \<Rightarrow>
            (case saved_action sig st of
               Ok sa \<Rightarrow>
                 (case sa_handler sa of
                    SigDfl \<Rightarrow> (Ok (RaiseUnmasked sig), snd (sigaction sig sa h))
                  | SigIgn \<Rightarrow> (Ok Ignored, h)
                  | Handler f \<Rightarrow> (Ok (CallHandler f), h)
                  | SigActionFn f \<Rightarrow> (Ok (CallSigAction f), h)
                  | HandleSignal \<Rightarrow> (Ok Recurse, h))
             | Err e \<Rightarrow> (Err e, h)
             | Panic p \<Rightarrow> (Panic p, h))))"

text \<open>The thunk of the default behavior.\<close>

definition record_fault :: "trap_code option \<Rightarrow> siginfo \<Rightarrow> ucontext \<Rightarrow> inst \<Rightarrow> inst run_res" where
  "record_fault tc info uc i =
     (let unknown_fault = (tc = None) in
      rbind (if si_signo info = SIGSEGV \<or> si_signo info = SIGBUS
             then map_res is_fault_fatal (addr_location (inst_alloc i) (si_addr info)) else Ok False)
        (\<lambda>outside_guard.
           Ok (i\<lparr>inst_state := Faulted \<lparr>fatal = unknown_fault \<or> outside_guard, trapcode = tc,
             rip_addr = uc_ip uc, rip_addr_details = None\<rparr> info uc\<rparr>)))"

text \<open>The closure in \<open>handle_signal\<close>, for a signal that hits a thread with a current instance: whether to
  switch to the host, and the instance afterwards. \<open>trap_mem\<close> is the memory of the module's trap tables.\<close>

definition instance_signal ::
  "signal_handlers \<Rightarrow> (u64 \<Rightarrow> u64 \<Rightarrow> trap_site list) \<Rightarrow> signal \<Rightarrow> siginfo \<Rightarrow> ucontext \<Rightarrow> inst \<Rightarrow> (bool \<times> inst) run_res" where
  "instance_signal handlers trap_mem signum info uc i =
     (if signum = SIGALRM then
        (if alarm_active (inst_kill_state i) then Ok (True, i\<lparr>inst_state := Terminating TD_Remote\<rparr>)
         else Ok (False, i))
      else
        (let tc = lookup_trapcode trap_mem (mo_function_manifest (inst_module i)) (uc_ip uc) in
         rbind (case call_signal_handler handlers i tc signum info uc of
              Behavior_Continue \<Rightarrow> Ok (False, i)
            | Behavior_Terminate \<Rightarrow> Ok (True, i\<lparr>inst_state := Terminating TD_Signal\<rparr>)
            | Behavior_Default \<Rightarrow> map_res (Pair True) (record_fault tc info uc i))
         (\<lambda>(switch_to_host, i).
            if switch_to_host
            then map_res (\<lambda>ks. (True, i\<lparr>inst_kill_state := ks\<rparr>)) (handler_disable (inst_kill_state i))
            else Ok (False, i))))"

text \<open>\<open>handle_signal\<close>: \<open>current\<close> is the thread's current instance; \<open>set_addr\<close> and \<open>host_ctx\<close>
  are the addresses of \<open>lucet_context_set\<close> and of the thread's host context.\<close>

definition handle_signal ::
  "signal_handlers \<Rightarrow> (u64 \<Rightarrow> u64 \<Rightarrow> trap_site list) \<Rightarrow> u64 \<Rightarrow> u64 \<Rightarrow> signal \<Rightarrow> siginfo \<Rightarrow> ucontext \<Rightarrow>
   inst option \<Rightarrow> 'a host_scheme \<Rightarrow> (reraise option \<times> inst option \<times> ucontext) run_res \<times> 'a host_scheme" where
  "handle_signal handlers trap_mem set_addr host_ctx signum info uc current h =
     (if signum \<notin> {SIGBUS, SIGSEGV, SIGILL, SIGFPE, SIGALRM}
      then (Panic ''unexpected signal in guest signal handler'', h)
      else (case current of
          None \<Rightarrow>
            (case reraise_host_signal_in_handler signum h of
               (r, h') \<Rightarrow> (map_res (\<lambda>a. (Some a, None, uc)) r, h'))
        | Some i \<Rightarrow>
            (map_res (\<lambda>(switch_to_host, i').
               (None, Some i', if switch_to_host then uc\<lparr>uc_ip := set_addr, uc_rdi := host_ctx\<rparr> else uc))
             (instance_signal handlers trap_mem signum info uc i), h)))"

section \<open>The handlers as a counted resource\<close>

text \<open>Users of the handlers come and go: an instance starts or finishes a run, the embedder installs or removes
  them by hand. The abstract state counts the runs and says whether they are installed by hand.\<close>

datatype sig_op = S_Start | S_Finish | S_Install | S_Remove

fun apply_sig_op :: "sig_op \<Rightarrow> 'a host_scheme \<Rightarrow> unit run_res \<times> 'a host_scheme" where
  "apply_sig_op S_Start = increment_lucet_signal_state"
| "apply_sig_op S_Finish = decrement_lucet_signal_state"
| "apply_sig_op S_Install = install_lucet_signal_handler"
| "apply_sig_op S_Remove = remove_lucet_signal_handler"

fun run_sig_ops :: "sig_op list \<Rightarrow> 'a host_scheme \<Rightarrow> unit run_res \<times> 'a host_scheme" where
  "run_sig_ops [] h = (Ok (), h)"
| "run_sig_ops (x # xs) h =
     (case apply_sig_op x h of (Ok _, h') \<Rightarrow> run_sig_ops xs h' | (e, h') \<Rightarrow> (e, h'))"

fun users_step :: "sig_op \<Rightarrow> nat \<times> bool \<Rightarrow> (nat \<times> bool) option" where
  "users_step S_Start (n, b) = Some (n + 1, b)"
| "users_step S_Finish (n, b) = (if 0 < n then Some (n - 1, b) else None)"
| "users_step S_Install (n, b) = Some (n, True)"
| "users_step S_Remove (n, b) = Some (n, False)"

fun run_users :: "sig_op list \<Rightarrow> nat \<times> bool \<Rightarrow> (nat \<times> bool) option" where
  "run_users [] u = Some u"
| "run_users (x # xs) u = Option.bind (users_step x u) (run_users xs)"

abbreviation lucet_signals :: "signal set" where
  "lucet_signals \<equiv> {SIGBUS, SIGFPE, SIGILL, SIGSEGV, SIGALRM}"

definition lucet_actions :: "(signal \<Rightarrow> sig_action) \<Rightarrow> signal \<Rightarrow> sig_action" where
  "lucet_actions sa0 = (\<lambda>s. if s \<in> lucet_signals then lucet_sigaction else sa0 s)"

definition arcs_below :: "'a host_scheme \<Rightarrow> bool" where
  "arcs_below h \<longleftrightarrow> (\<forall>k \<in> set (h_hook h # h_held_hooks h). \<forall>a \<in> set (hook_arcs k). a < h_next_arc h)"

text \<open>The host's state when its own actions are \<open>sa0\<close>, its own hook is \<open>hook0\<close>, and the users are
  \<open>n\<close> runs and, if \<open>b\<close>, the embedder.\<close>

definition sig_abs :: "(signal \<Rightarrow> sig_action) \<Rightarrow> panic_hook \<Rightarrow> nat \<times> bool \<Rightarrow> 'a host_scheme \<Rightarrow> bool" where
  "sig_abs sa0 hook0 u h \<longleftrightarrow>
     \<not> h_signal_poisoned h \<and> \<not> h_manual_poisoned h \<and> h_manually_installed h = snd u \<and> arcs_below h \<and>
     (let users = fst u + of_bool (snd u) in
      if users = 0
      then h_signal_state h = None \<and> h_sigaction h = sa0 \<and> h_hook h = hook0
      else (\<exists>arc. h_signal_state h = Some \<lparr>counter = users, saved_sigbus = sa0 SIGBUS, saved_sigfpe = sa0 SIGFPE,
               saved_sigill = sa0 SIGILL, saved_sigsegv = sa0 SIGSEGV, saved_sigalrm = sa0 SIGALRM,
               saved_panic_hook = Some (arc, hook0)\<rparr> \<and>
             h_sigaction h = lucet_actions sa0 \<and> h_hook h = GuestHook arc hook0 \<and>
             (\<forall>k \<in> set (h_held_hooks h). arc \<notin> set (hook_arcs k))))"

lemmas sig_defs = sigaction_def take_hook_def set_hook_def

lemma setup_eq:
  "setup_guest_signal_state h = h\<lparr>h_sigaction := lucet_actions (h_sigaction h),
     h_hook := GuestHook (h_next_arc h) (h_hook h), h_next_arc := h_next_arc h + 1,
     h_signal_state := Some \<lparr>counter = 1, saved_sigbus = h_sigaction h SIGBUS, saved_sigfpe = h_sigaction h SIGFPE,
       saved_sigill = h_sigaction h SIGILL, saved_sigsegv = h_sigaction h SIGSEGV,
       saved_sigalrm = h_sigaction h SIGALRM, saved_panic_hook = Some (h_next_arc h, h_hook h)\<rparr>\<rparr>"
proof -
  have "(h_sigaction h)(SIGBUS := lucet_sigaction, SIGFPE := lucet_sigaction, SIGILL := lucet_sigaction,
      SIGSEGV := lucet_sigaction, SIGALRM := lucet_sigaction) = lucet_actions (h_sigaction h)"
    by (auto simp: lucet_actions_def fun_eq_iff)
  then show ?thesis by (simp add: setup_guest_signal_state_def setup_guest_panic_hook_def sig_defs Let_def)
qed

lemma restore_eq:
  assumes "saved_panic_hook st = Some (arc, hook)" and "\<forall>k \<in> set (h_held_hooks h). arc \<notin> set (hook_arcs k)"
  shows "restore_host_signal_state st h = h\<lparr>h_sigaction := (h_sigaction h)(SIGBUS := saved_sigbus st,
      SIGFPE := saved_sigfpe st, SIGILL := saved_sigill st, SIGSEGV := saved_sigsegv st, SIGALRM := saved_sigalrm st),
    h_hook := hook\<rparr>"
proof -
  have "filter (\<lambda>k. arc \<in> set (hook_arcs k)) (h_held_hooks h) = []"
    using assms(2) by (simp add: filter_empty_conv)
  with assms(1) show ?thesis
    by (simp add: restore_host_signal_state_def sig_defs Let_def arc_strong_count_def)
qed

lemma increment_abs:
  assumes "sig_abs sa0 hook0 (n, b) h"
  shows "\<exists>h'. increment_lucet_signal_state h = (Ok (), h') \<and> sig_abs sa0 hook0 (n + 1, b) h'"
proof (cases "n + of_bool b = 0")
  case True
  have "h_next_arc h \<notin> set (hook_arcs k)" if "k \<in> set (h_held_hooks h)" for k
    using assms that by (auto simp: sig_abs_def arcs_below_def)
  then show ?thesis using assms True
    by (auto simp: increment_lucet_signal_state_def setup_eq sig_abs_def arcs_below_def intro: less_SucI)
next
  case False
  then show ?thesis using assms
    by (auto simp: increment_lucet_signal_state_def sig_abs_def Let_def arcs_below_def)
qed

lemma decrement_abs:
  assumes "sig_abs sa0 hook0 u h" and "u = (n + 1, b) \<and> u' = (n, b) \<or> u = (n, True) \<and> u' = (n, False)"
  shows "\<exists>h'. decrement_lucet_signal_state h = (Ok (), h') \<and>
    sig_abs sa0 hook0 u' (h'\<lparr>h_manually_installed := snd u'\<rparr>) \<and> h_manually_installed h' = h_manually_installed h"
proof -
  have users: "fst u + of_bool (snd u) = (Suc (fst u' + of_bool (snd u')) :: nat)" using assms(2) by auto
  then obtain arc where st: "h_signal_state h = Some \<lparr>counter = Suc (fst u' + of_bool (snd u')), saved_sigbus = sa0 SIGBUS,
      saved_sigfpe = sa0 SIGFPE, saved_sigill = sa0 SIGILL, saved_sigsegv = sa0 SIGSEGV, saved_sigalrm = sa0 SIGALRM,
      saved_panic_hook = Some (arc, hook0)\<rparr>"
    and act: "h_sigaction h = lucet_actions sa0" and hook: "h_hook h = GuestHook arc hook0"
    and held: "\<forall>k \<in> set (h_held_hooks h). arc \<notin> set (hook_arcs k)"
    and flags: "\<not> h_signal_poisoned h" "\<not> h_manual_poisoned h" and arcs: "arcs_below h"
    using assms(1) by (auto simp: sig_abs_def Let_def)
  have orig: "(lucet_actions sa0)(SIGBUS := sa0 SIGBUS, SIGFPE := sa0 SIGFPE, SIGILL := sa0 SIGILL,
      SIGSEGV := sa0 SIGSEGV, SIGALRM := sa0 SIGALRM) = sa0"
    by (auto simp: lucet_actions_def fun_eq_iff)
  show ?thesis
  proof (cases "fst u' + of_bool (snd u') = 0")
    case True
    have dec: "decrement_lucet_signal_state h = (Ok (), h\<lparr>h_sigaction := sa0, h_hook := hook0, h_signal_state := None\<rparr>)"
      using st act flags orig True restore_eq [OF _ held, of _ hook0] by (simp add: decrement_lucet_signal_state_def Let_def)
    show ?thesis unfolding dec using True flags arcs hook by (simp add: sig_abs_def arcs_below_def)
  next
    case False
    then obtain m where m: "fst u' + of_bool (snd u') = Suc m" using not0_implies_Suc by blast
    have dec: "decrement_lucet_signal_state h = (Ok (), h\<lparr>h_signal_state := Some \<lparr>counter = Suc m, saved_sigbus = sa0 SIGBUS,
      saved_sigfpe = sa0 SIGFPE, saved_sigill = sa0 SIGILL, saved_sigsegv = sa0 SIGSEGV, saved_sigalrm = sa0 SIGALRM,
      saved_panic_hook = Some (arc, hook0)\<rparr>\<rparr>)"
      using st flags by (simp add: decrement_lucet_signal_state_def Let_def m)
    show ?thesis unfolding dec using m act hook flags arcs held by (simp add: sig_abs_def arcs_below_def Let_def)
  qed
qed

lemma sig_op_abs:
  assumes "sig_abs sa0 hook0 u h" and "users_step op u = Some u'"
  shows "\<exists>h'. apply_sig_op op h = (Ok (), h') \<and> sig_abs sa0 hook0 u' h'"
proof -
  obtain n b where u: "u = (n, b)" by fastforce
  have man: "h_manually_installed h = b" "\<not> h_manual_poisoned h" using assms(1) by (auto simp: u sig_abs_def)
  show ?thesis
  proof (cases op)
    case S_Start
    with assms increment_abs show ?thesis by (auto simp: u)
  next
    case S_Finish
    with assms(2) have n: "n = (n - 1) + 1" "u' = (n - 1, b)" by (auto simp: u split: if_splits)
    obtain h' where "decrement_lucet_signal_state h = (Ok (), h')"
      and ab: "sig_abs sa0 hook0 u' (h'\<lparr>h_manually_installed := snd u'\<rparr>)" and "h_manually_installed h' = b"
      using decrement_abs [OF assms(1), of "n - 1" b u'] n man by (auto simp: u)
    moreover from this have "h'\<lparr>h_manually_installed := snd u'\<rparr> = h'" using n by simp
    ultimately show ?thesis using S_Finish by auto
  next
    case S_Install
    show ?thesis
    proof (cases b)
      case True
      with assms S_Install man show ?thesis by (auto simp: u install_lucet_signal_handler_def)
    next
      case False
      obtain h' where "increment_lucet_signal_state h = (Ok (), h')" and "sig_abs sa0 hook0 (n + 1, False) h'"
        using increment_abs [of sa0 hook0 n b h] assms(1) False by (auto simp: u)
      with assms(2) S_Install man False show ?thesis
        by (auto simp: u install_lucet_signal_handler_def with_manual_lock_def sig_abs_def arcs_below_def)
    qed
  next
    case S_Remove
    show ?thesis
    proof (cases b)
      case True
      obtain h' where "decrement_lucet_signal_state h = (Ok (), h')"
        and "sig_abs sa0 hook0 (n, False) (h'\<lparr>h_manually_installed := False\<rparr>)"
        using decrement_abs [OF assms(1), of n b "(n, False)"] True by (auto simp: u)
      with assms(2) S_Remove man True show ?thesis
        by (auto simp: u remove_lucet_signal_handler_def with_manual_lock_def)
    next
      case False
      with assms S_Remove man show ?thesis by (auto simp: u remove_lucet_signal_handler_def)
    qed
  qed
qed

lemma sig_ops_abs:
  "sig_abs sa0 hook0 u h \<Longrightarrow> run_users ops u = Some u' \<Longrightarrow>
     \<exists>h'. run_sig_ops ops h = (Ok (), h') \<and> sig_abs sa0 hook0 u' h'"
proof (induction ops arbitrary: u h)
  case (Cons x xs)
  then obtain v where v: "users_step x u = Some v" "run_users xs v = Some u'" by (auto simp: bind_eq_Some_conv)
  obtain h1 where "apply_sig_op x h = (Ok (), h1)" "sig_abs sa0 hook0 v h1" using sig_op_abs [OF Cons.prems(1) v(1)] by blast
  with Cons.IH [OF this(2) v(2)] show ?case by simp
qed simp

section \<open>Running a body\<close>

lemma signal_state_frame:
  "increment_lucet_signal_state h = (r, h') \<Longrightarrow>
     h_altstack h' = h_altstack h \<and> h_on_altstack h' = h_on_altstack h \<and> host.more h' = host.more h"
  "decrement_lucet_signal_state h = (r, h') \<Longrightarrow>
     h_altstack h' = h_altstack h \<and> h_on_altstack h' = h_on_altstack h \<and> host.more h' = host.more h"
  by (auto simp: increment_lucet_signal_state_def decrement_lucet_signal_state_def setup_eq
      restore_host_signal_state_def sig_defs Let_def split: if_splits option.splits)

lemma sig_abs_altstack [simp]: "sig_abs sa0 hook0 u (h\<lparr>h_altstack := st\<rparr>) = sig_abs sa0 hook0 u h"
  by (simp add: sig_abs_def arcs_below_def)

definition altstack_ok :: "'a host_scheme \<Rightarrow> bool" where
  "altstack_ok h \<longleftrightarrow> \<not> h_on_altstack h \<and> (\<forall>s. h_altstack h = Some s \<longrightarrow> MINSIGSTKSZ \<le> ss_size s)"

definition wants_signals :: "inst \<Rightarrow> bool" where
  "wants_signals i \<longleftrightarrow> inst_ensure_signal_handler_installed i \<and> inst_ensure_sigstack_installed i"

lemma with_signals_run:
  assumes ab: "sig_abs sa0 hook0 (n, b) h" and alt: "altstack_ok h" and want: "wants_signals i"
    and s: "alloc_slot_opt (inst_alloc i) = Some s" and size: "MINSIGSTKSZ \<le> signal_stack_size (slot_limits s)"
  obtains h2 where "sig_abs sa0 hook0 (n + 1, b) h2" and "\<not> h_on_altstack h2" and "host.more h2 = host.more h"
    and "f i h2 = None \<Longrightarrow> with_signals_on f i h = None"
    and "\<And>p i' h3. f i h2 = Some (Panic p, i', h3) \<Longrightarrow> with_signals_on f i h = Some (Panic p, i', h3)"
    and "\<And>r i' h3. f i h2 = Some (r, i', h3) \<Longrightarrow> (\<forall>p. r \<noteq> Panic p) \<Longrightarrow> sig_abs sa0 hook0 (n + 1, b) h3 \<Longrightarrow>
      \<not> h_on_altstack h3 \<Longrightarrow> wants_signals i' \<Longrightarrow>
      \<exists>h'. with_signals_on f i h = Some (r, i', h') \<and> sig_abs sa0 hook0 (n, b) h' \<and> altstack_ok h' \<and>
        h_altstack h' = h_altstack h \<and> host.more h' = host.more h3"
proof -
  let ?g = "\<lparr>ss_sp = slot_sigstack s, ss_size = signal_stack_size (slot_limits s)\<rparr>"
  let ?h1 = "h\<lparr>h_altstack := Some ?g\<rparr>"
  have on: "\<not> h_on_altstack h" using alt by (simp add: altstack_ok_def)
  have st: "install_sigstack i h = (Ok (h_altstack h), ?h1)"
    using s size want on by (simp add: install_sigstack_def sigaltstack_def alloc_slot_def validate_sigstack_size_def
        wants_signals_def)
  obtain h2 where inc: "increment_lucet_signal_state ?h1 = (Ok (), h2)" and ab2: "sig_abs sa0 hook0 (n + 1, b) h2"
    using increment_abs [of sa0 hook0 n b ?h1] ab by auto
  have hand: "install_handlers i ?h1 = (Ok (), h2)" using inc want by (simp add: install_handlers_def wants_signals_def)
  note fr = signal_state_frame(1) [OF inc]
  show thesis
  proof (rule that [OF ab2])
    show "\<not> h_on_altstack h2" "host.more h2 = host.more h" using fr on by simp_all
    show "f i h2 = None \<Longrightarrow> with_signals_on f i h = None"
      "\<And>p i' h3. f i h2 = Some (Panic p, i', h3) \<Longrightarrow> with_signals_on f i h = Some (Panic p, i', h3)"
      by (simp_all add: with_signals_on_def st hand)
  next
    fix r i' h3
    assume f: "f i h2 = Some (r, i', h3)" and np: "\<forall>p. r \<noteq> Panic p" and ab3: "sig_abs sa0 hook0 (n + 1, b) h3"
      and on3: "\<not> h_on_altstack h3" and w': "wants_signals i'"
    obtain h4 where dec: "decrement_lucet_signal_state h3 = (Ok (), h4)"
      and ab4: "sig_abs sa0 hook0 (n, b) (h4\<lparr>h_manually_installed := b\<rparr>)" and man: "h_manually_installed h4 = b"
      using decrement_abs [OF ab3, of n b "(n, b)"] ab3 by (auto simp: sig_abs_def)
    have "sig_abs sa0 hook0 (n, b) (h4\<lparr>h_manually_installed := h_manually_installed h4\<rparr>)" unfolding man by (rule ab4)
    then have ab4': "sig_abs sa0 hook0 (n, b) h4" by simp
    note fr4 = signal_state_frame(2) [OF dec]
    have "restore_sigstack (h_altstack h) i' h4 = (Ok (), h4\<lparr>h_altstack := h_altstack h\<rparr>)"
      using w' on3 fr4 alt by (auto simp: restore_sigstack_def sigaltstack_def wants_signals_def altstack_ok_def
          split: option.splits)
    with f np st hand dec w' have "with_signals_on f i h = Some (r, i', h4\<lparr>h_altstack := h_altstack h\<rparr>)"
      by (cases r) (simp_all add: with_signals_on_def restore_handlers_def wants_signals_def)
    with ab4' fr4 on3 alt show "\<exists>h'. with_signals_on f i h = Some (r, i', h') \<and> sig_abs sa0 hook0 (n, b) h' \<and> altstack_ok h' \<and>
        h_altstack h' = h_altstack h \<and> host.more h' = host.more h3"
      by (auto simp: altstack_ok_def)
  qed
qed

section \<open>Faults\<close>

lemma record_fault_Ok:
  assumes "alloc_inv (inst_alloc i)" and "alloc_slot_opt (inst_alloc i) = Some s"
  shows "record_fault tc info uc i = Ok (i\<lparr>inst_state := Faulted
    \<lparr>fatal = (tc = None \<or> ((si_signo info = SIGSEGV \<or> si_signo info = SIGBUS) \<and>
       (unat (si_addr info) < unat (slot_heap s) \<or>
        unat (slot_sigstack s) - 4096 \<le> unat (si_addr info) \<and> unat (si_addr info) < unat (slot_sigstack s) \<or>
        unat (slot_sigstack s) + unat (signal_stack_size (slot_limits s)) \<le> unat (si_addr info)))),
     trapcode = tc, rip_addr = uc_ip uc, rip_addr_details = None\<rparr> info uc\<rparr>)"
  unfolding record_fault_def addr_location_locate [OF assms] fatal_ranges [OF assms, symmetric]
  by (cases "si_signo info = SIGSEGV \<or> si_signo info = SIGBUS") (simp_all add: Let_def)

lemma handler_disable_Ok:
  "\<not> ks_ignore_alarm ks \<Longrightarrow> \<exists>ks'. handler_disable ks = Ok ks' \<and> \<not> ks_terminable ks' \<and>
     ks_domain ks' = ks_domain ks \<and> ks_thread_id ks' = ks_thread_id ks \<and> (ks_ignore_alarm ks' \<longleftrightarrow> \<not> ks_terminable ks)"
  by (auto simp: handler_disable_def disable_termination_def silence_alarm_def)

section \<open>Properties\<close>

text \<open>C16: The signal handlers and the panic hook of the host are a counted resource: however runs of instances
  (on any threads, since each step is atomic under the lock) and manual installations interleave, as long as
  no run ends that has not begun, no step panics; while there is a user, all five signals go to
  \<open>handle_signal\<close> and panics that carry termination details stay silent; and when the last user
  has left, every action and the hook are exactly what the host had.\<close>

theorem signal_handlers_refine:
  assumes "sig_abs sa0 hook0 (0, False) h" and "run_users ops (0, False) = Some (n, b)"
  shows "\<exists>h'. run_sig_ops ops h = (Ok (), h') \<and>
    (if n = 0 \<and> \<not> b
     then h_signal_state h' = None \<and> h_sigaction h' = h_sigaction h \<and> h_hook h' = h_hook h
     else (\<forall>s \<in> lucet_signals. sa_handler (h_sigaction h' s) = HandleSignal) \<and>
       (\<forall>s. s \<notin> lucet_signals \<longrightarrow> h_sigaction h' s = h_sigaction h s) \<and>
       map_option counter (h_signal_state h') = Some (n + of_bool b) \<and>
       run_hook (h_hook h') True = None \<and> run_hook (h_hook h') False = run_hook (h_hook h) False)"
proof -
  obtain h' where run: "run_sig_ops ops h = (Ok (), h')" and ab: "sig_abs sa0 hook0 (n, b) h'"
    using sig_ops_abs [OF assms] by blast
  have "h_sigaction h = sa0" "h_hook h = hook0" using assms(1) by (simp_all add: sig_abs_def)
  with run ab show ?thesis
    by (intro exI [of _ h']) (auto simp: sig_abs_def lucet_actions_def lucet_sigaction_def Let_def)
qed

text \<open>Running with signals on leaves the host as it was: if the body returns with the handlers as it found
  them, then afterwards the handlers, the hook and the thread's signal stack are what they were before, and the
  result is the body's.\<close>

theorem with_signals_restores:
  assumes "sig_abs sa0 hook0 (n, b) h" and "altstack_ok h" and "wants_signals i"
    and "alloc_slot_opt (inst_alloc i) = Some s" and "MINSIGSTKSZ \<le> signal_stack_size (slot_limits s)"
    and "\<forall>h2. sig_abs sa0 hook0 (n + 1, b) h2 \<and> \<not> h_on_altstack h2 \<longrightarrow>
      (\<exists>i' h3. f i h2 = Some (r, i', h3) \<and> sig_abs sa0 hook0 (n + 1, b) h3 \<and> \<not> h_on_altstack h3 \<and> wants_signals i')"
    and "\<forall>p. r \<noteq> Panic p"
  shows "\<exists>i' h'. with_signals_on f i h = Some (r, i', h') \<and> sig_abs sa0 hook0 (n, b) h' \<and>
    h_altstack h' = h_altstack h \<and> \<not> h_on_altstack h'"
proof -
  obtain h2 where h2: "sig_abs sa0 hook0 (n + 1, b) h2" "\<not> h_on_altstack h2"
    and go: "\<And>r i' h3. f i h2 = Some (r, i', h3) \<Longrightarrow> (\<forall>p. r \<noteq> Panic p) \<Longrightarrow> sig_abs sa0 hook0 (n + 1, b) h3 \<Longrightarrow>
      \<not> h_on_altstack h3 \<Longrightarrow> wants_signals i' \<Longrightarrow>
      \<exists>h'. with_signals_on f i h = Some (r, i', h') \<and> sig_abs sa0 hook0 (n, b) h' \<and> altstack_ok h' \<and>
        h_altstack h' = h_altstack h \<and> host.more h' = host.more h3"
    by (rule with_signals_run [OF assms(1-5), of f]) blast
  obtain i' h3 where "f i h2 = Some (r, i', h3)" "sig_abs sa0 hook0 (n + 1, b) h3" "\<not> h_on_altstack h3" "wants_signals i'"
    using assms(6) h2 by blast
  from go [OF this(1) assms(7) this(2,3,4)] show ?thesis by (auto simp: altstack_ok_def)
qed

text \<open>C17: Guest faults are classified exactly: a hardware fault of a running instance whose signal handler asks for
  the default behavior is recorded with the trap code of the faulting instruction, is fatal exactly when that
  instruction is not a known trap site or the fault is a memory fault at an address outside the instance's slot or in
  the signal stack's guard page, disables termination, and redirects the thread to \<open>lucet_context_set\<close> with the
  host context, so that control returns to the host; the host process is untouched.\<close>

theorem guest_fault_classified:
  assumes "alloc_inv (inst_alloc i)" and "alloc_slot_opt (inst_alloc i) = Some s"
    and "signum \<in> {SIGBUS, SIGSEGV, SIGILL, SIGFPE}" and "si_signo info = signum"
    and "tc = lookup_trapcode trap_mem (mo_function_manifest (inst_module i)) (uc_ip uc)"
    and "call_signal_handler handlers i tc signum info uc = Behavior_Default"
    and "\<not> ks_ignore_alarm (inst_kill_state i)"
  shows "\<exists>d ks. handle_signal handlers trap_mem set_addr host_ctx signum info uc (Some i) h =
      (Ok (None, Some (i\<lparr>inst_state := Faulted d info uc, inst_kill_state := ks\<rparr>),
           uc\<lparr>uc_ip := set_addr, uc_rdi := host_ctx\<rparr>), h) \<and>
    trapcode d = tc \<and> rip_addr d = uc_ip uc \<and> \<not> ks_terminable ks \<and>
    (fatal d \<longleftrightarrow> tc = None \<or> (signum \<in> {SIGSEGV, SIGBUS} \<and>
       (unat (si_addr info) < unat (slot_heap s) \<or>
        unat (slot_sigstack s) - 4096 \<le> unat (si_addr info) \<and> unat (si_addr info) < unat (slot_sigstack s) \<or>
        unat (slot_sigstack s) + unat (signal_stack_size (slot_limits s)) \<le> unat (si_addr info))))"
proof -
  have sig: "signum \<noteq> SIGALRM" "signum \<in> {SIGBUS, SIGSEGV, SIGILL, SIGFPE, SIGALRM}" using assms(3) by auto
  obtain ks where ks: "handler_disable (inst_kill_state i) = Ok ks" "\<not> ks_terminable ks"
    using handler_disable_Ok [OF assms(7)] by blast
  obtain d where rf: "record_fault tc info uc i = Ok (i\<lparr>inst_state := Faulted d info uc\<rparr>)"
    and d: "trapcode d = tc" "rip_addr d = uc_ip uc"
      "fatal d \<longleftrightarrow> tc = None \<or> (signum \<in> {SIGSEGV, SIGBUS} \<and>
       (unat (si_addr info) < unat (slot_heap s) \<or>
        unat (slot_sigstack s) - 4096 \<le> unat (si_addr info) \<and> unat (si_addr info) < unat (slot_sigstack s) \<or>
        unat (slot_sigstack s) + unat (signal_stack_size (slot_limits s)) \<le> unat (si_addr info)))"
    unfolding record_fault_Ok [OF assms(1,2)] using assms(4) by simp
  have "handle_signal handlers trap_mem set_addr host_ctx signum info uc (Some i) h =
      (Ok (None, Some (i\<lparr>inst_state := Faulted d info uc, inst_kill_state := ks\<rparr>),
           uc\<lparr>uc_ip := set_addr, uc_rdi := host_ctx\<rparr>), h)"
    using sig ks(1) rf assms(6) unfolding assms(5) by (simp add: handle_signal_def instance_signal_def)
  with d ks(2) show ?thesis by blast
qed

text \<open>An alarm is taken or ignored, nothing else: \<open>SIGALRM\<close> on a thread that runs an instance terminates it
  as killed remotely and switches to the host if the alarm is not silenced, and otherwise changes neither the
  instance nor the interrupted context.\<close>

theorem alarm_terminates_or_ignored:
  "handle_signal handlers trap_mem set_addr host_ctx SIGALRM info uc (Some i) h =
     (if ks_ignore_alarm (inst_kill_state i) then (Ok (None, Some i, uc), h)
      else (Ok (None, Some (i\<lparr>inst_state := Terminating TD_Remote\<rparr>), uc\<lparr>uc_ip := set_addr, uc_rdi := host_ctx\<rparr>), h))"
  by (simp add: handle_signal_def instance_signal_def alarm_active_def)

subsection \<open>Instances\<close>

definition demo_host :: host where
  "demo_host = \<lparr>h_sigaction = (\<lambda>_. \<lparr>sa_handler = SigDfl, sa_flags = 0, sa_mask = []\<rparr>), h_hook = HostHook 1,
     h_held_hooks = [], h_next_arc = 0, h_signal_state = None, h_signal_poisoned = False,
     h_manually_installed = False, h_manual_poisoned = False, h_altstack = None, h_on_altstack = False,
     h_debug_assertions = True\<rparr>"

lemma demo_host_abs: "sig_abs (h_sigaction demo_host) (HostHook 1) (0, False) demo_host"
  by (simp add: sig_abs_def arcs_below_def demo_host_def)

theorem signal_handlers_refine_witness:
  "\<exists>h'. run_sig_ops [S_Start, S_Install, S_Start, S_Finish, S_Finish, S_Remove] demo_host = (Ok (), h') \<and>
     h_sigaction h' = h_sigaction demo_host \<and> h_hook h' = HostHook 1"
proof -
  have "run_users [S_Start, S_Install, S_Start, S_Finish, S_Finish, S_Remove] (0, False) = Some (0, False)" by simp
  from signal_handlers_refine [OF demo_host_abs this] show ?thesis by (auto simp: demo_host_def)
qed

end
