(* ===== verification/Vmctx.thy ===== *)
theory Vmctx
  imports Instance_Data
begin

text \<open>
  The view of an instance from a hostcall (\<open>vmctx.rs\<close>): finding the instance from the pointer the
  guest passes, borrowing its heap, globals and embedder contexts, yielding and taking the resumed value, and
  the runtime's own hostcalls (\<open>lucet-runtime/src/c_api.rs\<close>). A panic inside a hostcall unwinds to the
  wrapper: \<open>Err d\<close> is a panic whose payload is the termination details \<open>d\<close>, \<open>Panic\<close> one with
  another payload. \<open>block_on\<close> is from \<open>future.rs\<close>.
\<close>

type_synonym 'a hc_res = "(termination_details, 'a) rresult"

section \<open>The current instance\<close>

text \<open>\<open>current\<close> is the pointer in \<open>CURRENT_INSTANCE\<close>; the instance is what it points to.\<close>

definition instance_from_vmctx :: "u64 option \<Rightarrow> u64 \<Rightarrow> inst \<Rightarrow> unit hc_res" where
  "instance_from_vmctx current vmctx i =
     (if vmctx = 0 then Panic ''vmctx is not null''
      else (case current of
          None \<Rightarrow> Panic ''current instance is not set''
        | Some current_inst_ptr \<Rightarrow>
            if vmctx - instance_heap_offset \<noteq> current_inst_ptr then Panic ''vmctx corresponds to current instance''
            else if \<not> valid_magic i then Panic ''assertion failed: inst.valid_magic()''
            else Ok ()))"

section \<open>Views\<close>

text \<open>The two \<open>RefCell\<close>s: the length of the heap view and the flags.\<close>

record vmctx =
  vm_heap_len :: usize
  vm_heap_flag :: borrow_flag
  vm_globals_flag :: borrow_flag

definition vmctx_from_raw :: "u64 option \<Rightarrow> u64 \<Rightarrow> inst \<Rightarrow> vmctx hc_res" where
  "vmctx_from_raw current vmctx i =
     rbind (instance_from_vmctx current vmctx i) (\<lambda>_.
       Ok \<lparr>vm_heap_len = heap_accessible_size (inst_alloc i), vm_heap_flag = Readers 0, vm_globals_flag = Readers 0\<rparr>)"

text \<open>\<open>borrow()\<close> panics when the view is mutably borrowed, \<open>replace\<close> when it is borrowed at all.\<close>

definition reconstitute_heap_view_if_needed :: "inst \<Rightarrow> vmctx \<Rightarrow> vmctx hc_res" where
  "reconstitute_heap_view_if_needed i v =
     (if flag_borrow (vm_heap_flag v) = None then Panic ''already mutably borrowed''
      else if heap_accessible_size (inst_alloc i) \<noteq> vm_heap_len v
      then (if flag_borrow_mut (vm_heap_flag v) = None then Panic ''already borrowed''
            else Ok (v\<lparr>vm_heap_len := heap_accessible_size (inst_alloc i)\<rparr>))
      else Ok v)"

definition vmctx_heap :: "inst \<Rightarrow> vmctx \<Rightarrow> vmctx hc_res" where
  "vmctx_heap i v =
     rbind (reconstitute_heap_view_if_needed i v) (\<lambda>v.
       case flag_borrow (vm_heap_flag v) of
         None \<Rightarrow> Err (TD_BorrowError ''heap'')
       | Some f \<Rightarrow> Ok (v\<lparr>vm_heap_flag := f\<rparr>))"

definition vmctx_heap_mut :: "inst \<Rightarrow> vmctx \<Rightarrow> vmctx hc_res" where
  "vmctx_heap_mut i v =
     rbind (reconstitute_heap_view_if_needed i v) (\<lambda>v.
       case flag_borrow_mut (vm_heap_flag v) of
         None \<Rightarrow> Err (TD_BorrowError ''heap_mut'')
       | Some f \<Rightarrow> Ok (v\<lparr>vm_heap_flag := f\<rparr>))"

definition vmctx_globals :: "vmctx \<Rightarrow> vmctx hc_res" where
  "vmctx_globals v =
     (case flag_borrow (vm_globals_flag v) of
        None \<Rightarrow> Err (TD_BorrowError ''globals'')
      | Some f \<Rightarrow> Ok (v\<lparr>vm_globals_flag := f\<rparr>))"

definition vmctx_globals_mut :: "vmctx \<Rightarrow> vmctx hc_res" where
  "vmctx_globals_mut v =
     (case flag_borrow_mut (vm_globals_flag v) of
        None \<Rightarrow> Err (TD_BorrowError ''globals_mut'')
      | Some f \<Rightarrow> Ok (v\<lparr>vm_globals_flag := f\<rparr>))"

text \<open>Dropping the guards of a view.\<close>

definition heap_release :: "vmctx \<Rightarrow> vmctx" where
  "heap_release v = v\<lparr>vm_heap_flag := flag_release (vm_heap_flag v)\<rparr>"

definition globals_release :: "vmctx \<Rightarrow> vmctx" where
  "globals_release v = v\<lparr>vm_globals_flag := flag_release (vm_globals_flag v)\<rparr>"

fun ctx_result :: "string \<Rightarrow> inst \<Rightarrow> ((borrow_error, any) rresult option \<times> ctx_map) run_res \<Rightarrow> (any \<times> inst) hc_res" where
  "ctx_result what i (Ok (Some (Ok x), m)) = Ok (x, i\<lparr>inst_embed_ctx := m\<rparr>)"
| "ctx_result what i (Ok (Some (Err _), m)) = Err (TD_BorrowError what)"
| "ctx_result what i (Ok (Some (Panic p), m)) = Panic p"
| "ctx_result what i (Ok (None, m)) = Err TD_CtxNotFound"
| "ctx_result what i (Err _) = Panic ''unreachable''"
| "ctx_result what i (Panic p) = Panic p"

definition vmctx_get_embed_ctx :: "string \<Rightarrow> inst \<Rightarrow> (any \<times> inst) hc_res" where
  "vmctx_get_embed_ctx t i = ctx_result ''get_embed_ctx'' i (ctx_try_get t (inst_embed_ctx i))"

definition vmctx_get_embed_ctx_mut :: "string \<Rightarrow> inst \<Rightarrow> (any \<times> inst) hc_res" where
  "vmctx_get_embed_ctx_mut t i = ctx_result ''get_embed_ctx_mut'' i (ctx_try_get_mut t (inst_embed_ctx i))"

definition ensure_no_heap_borrows :: "vmctx \<Rightarrow> unit hc_res" where
  "ensure_no_heap_borrows v =
     (if flag_borrow_mut (vm_heap_flag v) = None then Err (TD_BorrowError ''heap'') else Ok ())"

definition ensure_no_borrows :: "inst \<Rightarrow> vmctx \<Rightarrow> unit hc_res" where
  "ensure_no_borrows i v =
     rbind (ensure_no_heap_borrows v) (\<lambda>_.
     if flag_borrow_mut (vm_globals_flag v) = None then Err (TD_BorrowError ''globals'')
     else if is_any_value_borrowed (inst_embed_ctx i) then Err (TD_BorrowError ''embed_ctx'')
     else Ok ())"

definition vmctx_grow_memory ::
  "region_ops \<Rightarrow> u32 \<Rightarrow> vmctx \<Rightarrow> inst \<Rightarrow> memory \<Rightarrow> u32 run_res hc_res \<times> inst \<times> memory" where
  "vmctx_grow_memory region additional_pages v i m =
     (case ensure_no_heap_borrows v of
        Ok _ \<Rightarrow>
          (case grow_memory_from_hostcall region additional_pages i m of
             (Inl d, i', m') \<Rightarrow> (Err d, i', m')
           | (Inr (Panic p), i', m') \<Rightarrow> (Panic p, i', m')
           | (Inr r, i', m') \<Rightarrow> (Ok r, i', m'))
      | Err d \<Rightarrow> (Err d, i, m)
      | Panic p \<Rightarrow> (Panic p, i, m))"

section \<open>Yielding and resuming\<close>

text \<open>\<open>yield_impl\<close> up to the switch to the host. \<open>R\<close> is the type the guest expects to be resumed with.\<close>

definition yield_impl :: "any \<Rightarrow> string \<Rightarrow> bool \<Rightarrow> bool \<Rightarrow> vmctx \<Rightarrow> inst \<Rightarrow> inst hc_res" where
  "yield_impl val R borrow_check is_bound_expiration v i =
     rbind (if borrow_check then ensure_no_borrows i v else Ok ()) (\<lambda>_.
       Ok (i\<lparr>inst_state := if is_bound_expiration then BoundExpired else Yielding val R\<rparr>))"

definition try_take_resumed_val :: "string \<Rightarrow> inst \<Rightarrow> any option \<times> inst" where
  "try_take_resumed_val R i =
     (case inst_resumed_val i of
        None \<Rightarrow> (None, i)
      | Some val \<Rightarrow>
          if any_type val = R then (Some val, i\<lparr>inst_resumed_val := None\<rparr>)
          else (None, i))"

definition take_resumed_val :: "string \<Rightarrow> inst \<Rightarrow> any hc_res \<times> inst" where
  "take_resumed_val R i =
     (case try_take_resumed_val R i of
        (Some val, i') \<Rightarrow> (Ok val, i')
      | (None, i') \<Rightarrow> (Err TD_YieldTypeMismatch, i'))"

text \<open>\<open>block_on\<close> up to the yield, and the names of the types that pass through it.\<close>

definition yielded_future :: string where
  "yielded_future = ''lucet_runtime_internals::future::YieldedFuture''"

definition resume_val :: string where
  "resume_val = ''lucet_runtime_internals::future::ResumeVal''"

definition block_on_start :: "nat \<Rightarrow> vmctx \<Rightarrow> inst \<Rightarrow> inst hc_res" where
  "block_on_start future v i =
     (case inst_state i of
        Running async_context \<Rightarrow>
          if \<not> async_context then Err TD_BlockOnNeedsAsync
          else yield_impl (Any yielded_future future) resume_val False False v i
      | _ \<Rightarrow> Panic ''Access to vmctx implies instance is Running'')"

section \<open>Termination\<close>

text \<open>\<open>Instance::terminate\<close>: the switch to the host context follows.\<close>

definition instance_terminate :: "termination_details \<Rightarrow> inst \<Rightarrow> inst" where
  "instance_terminate d i = i\<lparr>inst_state := Terminating d\<rparr>"

text \<open>The payload of a panic that does not carry termination details.\<close>

definition other_panic :: "string \<Rightarrow> any" where
  "other_panic msg = Any ''&str'' 0"

text \<open>The wrapper \<open>#[lucet_hostcall]\<close> puts around a hostcall, in its parts: entering, returning and
  unwinding. Outside \<open>catch_unwind\<close> a panic reaches the guest's frames, which aborts the process: those
  are the \<open>Panic\<close> results.\<close>

definition hostcall_enter :: "u64 option \<Rightarrow> u64 \<Rightarrow> inst \<Rightarrow> (vmctx \<times> inst) run_res" where
  "hostcall_enter current raw i =
     (case vmctx_from_raw current raw i of
        Ok v \<Rightarrow>
          rbind (begin_hostcall (inst_kill_state i)) (\<lambda>ks. Ok (v, i\<lparr>inst_kill_state := ks\<rparr>))
      | Err d \<Rightarrow> Panic ''panic in a function that cannot unwind''
      | Panic p \<Rightarrow> Panic p)"

text \<open>Leaving: \<open>True\<close> when the guest continues, \<open>False\<close> when the instance terminates instead.\<close>

definition hostcall_return :: "inst \<Rightarrow> (bool \<times> inst) run_res" where
  "hostcall_return i =
     rbind (end_hostcall (inst_kill_state i)) (\<lambda>(stop_reason, ks).
       let i = i\<lparr>inst_kill_state := ks\<rparr> in
       case stop_reason of
         None \<Rightarrow> Ok (True, i)
       | Some d \<Rightarrow> Ok (False, instance_terminate d i))"

definition hostcall_unwind :: "u64 option \<Rightarrow> u64 \<Rightarrow> 'a hc_res \<Rightarrow> inst \<Rightarrow> inst run_res" where
  "hostcall_unwind current raw payload i =
     (let details = (case payload of Err d \<Rightarrow> d | Panic p \<Rightarrow> TD_OtherPanic (other_panic p)
                     | Ok _ \<Rightarrow> TD_OtherPanic (other_panic [])) in
      case vmctx_from_raw current raw i of
        Ok v \<Rightarrow> Ok (instance_terminate details i)
      | Err d \<Rightarrow> Panic ''panic in a function that cannot unwind''
      | Panic p \<Rightarrow> Panic p)"

section \<open>Hostcalls of the runtime (c\_api.rs)\<close>

definition lucet_vmctx_get_heap :: "inst \<Rightarrow> u64 run_res" where
  "lucet_vmctx_get_heap i = map_res slot_heap (alloc_slot (inst_alloc i))"

definition lucet_vmctx_get_globals :: "inst \<Rightarrow> u64 run_res" where
  "lucet_vmctx_get_globals i = map_res slot_globals (alloc_slot (inst_alloc i))"

definition lucet_vmctx_current_memory :: "inst \<Rightarrow> u32" where
  "lucet_vmctx_current_memory i = ucast (heap_accessible_size (inst_alloc i)) div WASM_PAGE_SIZE"

definition lucet_vmctx_grow_memory ::
  "region_ops \<Rightarrow> u32 \<Rightarrow> inst \<Rightarrow> memory \<Rightarrow> u32 hc_res \<times> inst \<times> memory" where
  "lucet_vmctx_grow_memory region additional_pages i m =
     (case grow_memory_from_hostcall region additional_pages i m of
        (Inl d, i', m') \<Rightarrow> (Err d, i', m')
      | (Inr (Ok old_pages), i', m') \<Rightarrow> (Ok old_pages, i', m')
      | (Inr (Err _), i', m') \<Rightarrow> (Ok (- 1), i', m')
      | (Inr (Panic p), i', m') \<Rightarrow> (Panic p, i', m'))"

definition lucet_vmctx_check_heap :: "u64 \<Rightarrow> usize \<Rightarrow> inst \<Rightarrow> bool run_res" where
  "lucet_vmctx_check_heap ptr len i = mem_in_heap (inst_alloc i) ptr len"

definition lucet_vmctx_get_func_from_idx :: "u32 \<Rightarrow> u32 \<Rightarrow> inst \<Rightarrow> u64 run_res" where
  "lucet_vmctx_get_func_from_idx table_idx func_idx i =
     (case mo_func_from_idx (inst_module i) table_idx func_idx of
        Ok fptr \<Rightarrow> Ok (fh_ptr fptr)
      | Err _ \<Rightarrow> Ok 0
      | Panic p \<Rightarrow> Panic p)"

end
