(* ===== verification/Instance_Run.thy ===== *)
theory Instance_Run
  imports Region_Instances Signals Vmctx
begin

text \<open>
  Running an instance (\<open>instance.rs\<close>): \<open>run\<close>, \<open>run_func_idx\<close>, \<open>run_start\<close>,
  \<open>resume_with_val\<close>, \<open>resume_bounded\<close> and what they share, down to the switch into the guest and
  back. What the guest does is a list of events: its stores and instruction counts, the signals and
  kill switches that hit it, the hostcalls it makes and what they do through their \<open>Vmctx\<close>, and its
  return; each event is carried out by the runtime's own operations. A kill switch acts between two events, and does
  its whole work there (\<open>G_Kill\<close>), except that it may have upgraded its reference earlier (\<open>G_Upgrade\<close>) and
  drop it later (\<open>G_Release\<close>). A list that ends before the guest has
  switched back is a guest that still runs: \<open>None\<close>.
\<close>

section \<open>The running thread\<close>

datatype guest_event =
    G_Write u64 u64 "u8 list"
  | G_Count u64
  | G_Signal siginfo ucontext
  | G_Kill ucontext
  | G_HostcallEnter u64
  | G_HostcallReturn
  | G_HostcallPanic "termination_details option"
  | G_HeapBorrow bool
  | G_HeapRelease
  | G_Grow u32
  | G_Yield any string
  | G_BoundExpired
  | G_BlockOn nat
  | G_TakeResumed string
  | G_Return u64 u64 m128
  | G_Upgrade
  | G_Release

text \<open>Addresses fixed by the linker, the offset of \<open>ctx\<close> in \<open>Instance\<close>, the module's trap tables, the
  embedder's handlers and the region.\<close>

record run_env =
  e_syms :: context_syms
  e_activate :: u64
  e_enter_guest :: u64
  e_exit_guest :: u64
  e_context_set :: u64
  e_host_ctx :: u64
  e_ctx_offset :: u64
  e_trap_mem :: "u64 \<Rightarrow> u64 \<Rightarrow> trap_site list"
  e_handlers :: signal_handlers
  e_region :: region_ops

text \<open>\<open>rh_current\<close> is \<open>CURRENT_INSTANCE\<close>; \<open>rh_at_entry\<close> says that the top of the guest stack holds
  \<open>lucet_context_activate\<close>, and otherwise the guest is suspended in a yield; \<open>rh_vmctx\<close> is the
  \<open>Vmctx\<close> of the hostcall in progress with its raw pointer; \<open>rh_taken\<close> are the resumed values the guest
  took, latest first; \<open>rh_guest\<close> is what the guest does next.\<close>

record run_host = host +
  rh_mem :: memory
  rh_current :: "u64 option"
  rh_thread :: nat
  rh_at_entry :: bool
  rh_vmctx :: "(u64 \<times> vmctx) option"
  rh_taken :: "any list"
  rh_guest :: "guest_event list"

datatype guest_next =
    G_Continue inst run_host
  | G_Switch inst run_host
  | G_Hang
  | G_Abort string inst run_host

section \<open>The guest side\<close>

definition fault_address :: "u64 \<Rightarrow> nat \<Rightarrow> memory \<Rightarrow> u64" where
  "fault_address a n m =
     a + of_nat (length (takeWhile (\<lambda>k. mem_prot m (a + of_nat k) = ProtReadWrite) [0..<n]))"

text \<open>A signal on the guest's thread: after the handler returns, execution continues at the instruction pointer
  it left in the context.\<close>

definition guest_signal :: "run_env \<Rightarrow> siginfo \<Rightarrow> ucontext \<Rightarrow> inst \<Rightarrow> run_host \<Rightarrow> guest_next" where
  "guest_signal env info uc i h =
     (case handle_signal (e_handlers env) (e_trap_mem env) (e_context_set env) (e_host_ctx env)
         (si_signo info) info uc (Some i) h of
        (Ok (_, Some i', uc'), h') \<Rightarrow> if uc_ip uc' = e_context_set env then G_Switch i' h' else G_Continue i' h'
      | (Ok (_, None, _), h') \<Rightarrow> G_Continue i h'
      | (Err e, h') \<Rightarrow> G_Abort ''error in signal handler'' i h'
      | (Panic p, h') \<Rightarrow> G_Abort p i h')"

text \<open>The result of an operation inside a hostcall: a panic unwinds to the wrapper, which terminates.\<close>

definition hostcall_result ::
  "run_host \<Rightarrow> 'a hc_res \<Rightarrow> inst \<Rightarrow> ('a \<Rightarrow> guest_next) \<Rightarrow> guest_next" where
  "hostcall_result h r i k =
     (case r of
        Ok x \<Rightarrow> k x
      | _ \<Rightarrow>
          (case rh_vmctx h of
             None \<Rightarrow> G_Abort ''panic outside of a hostcall'' i h
           | Some (raw, v) \<Rightarrow>
               (case hostcall_unwind (rh_current h) raw r i of
                  Ok i' \<Rightarrow> G_Switch i' h
                | Err e \<Rightarrow> G_Abort ''error in hostcall wrapper'' i h
                | Panic p \<Rightarrow> G_Abort p i h)))"

definition with_vmctx :: "run_host \<Rightarrow> inst \<Rightarrow> (u64 \<Rightarrow> vmctx \<Rightarrow> guest_next) \<Rightarrow> guest_next" where
  "with_vmctx h i k =
     (case rh_vmctx h of None \<Rightarrow> G_Abort ''not in a hostcall'' i h | Some (raw, v) \<Rightarrow> k raw v)"

fun guest_step :: "run_env \<Rightarrow> guest_event \<Rightarrow> inst \<Rightarrow> run_host \<Rightarrow> guest_next" where
  "guest_step env (G_Write rip a bs) i h =
     (case store_bytes a bs (rh_mem h) of
        Ok m \<Rightarrow> G_Continue i (h\<lparr>rh_mem := m\<rparr>)
      | _ \<Rightarrow> guest_signal env \<lparr>si_signo = SIGSEGV, si_addr = fault_address a (length bs) (rh_mem h)\<rparr>
          \<lparr>uc_ip = rip, uc_rdi = 0\<rparr> i h)"
| "guest_step env (G_Count n) i h =
     G_Continue (i\<lparr>inst_implicits := (inst_implicits i)\<lparr>
       instruction_count_adj := instruction_count_adj (inst_implicits i) + n\<rparr>\<rparr>) h"
| "guest_step env (G_Signal info uc) i h = guest_signal env info uc i h"
| "guest_step env (G_Kill uc) i h =
     (case disable_termination (inst_kill_state i) of (can_terminate, ks) \<Rightarrow>
        let i = i\<lparr>inst_kill_state := ks\<rparr> in
        if \<not> can_terminate then G_Continue i h
        else (case terminate_domain ks of
            KA_Signal tid \<Rightarrow> guest_signal env \<lparr>si_signo = SIGALRM, si_addr = 0\<rparr> uc i h
          | KA_Finish r ks' \<Rightarrow> G_Continue (i\<lparr>inst_kill_state := ks'\<rparr>) h
          | KA_Panic \<Rightarrow> G_Abort poison_error i h))"
| "guest_step env (G_HostcallEnter raw) i h =
     (case hostcall_enter (rh_current h) raw i of
        Ok (v, i') \<Rightarrow> G_Continue i' (h\<lparr>rh_vmctx := Some (raw, v)\<rparr>)
      | Err e \<Rightarrow> G_Abort ''error in hostcall wrapper'' i h
      | Panic p \<Rightarrow> G_Abort p i h)"
| "guest_step env G_HostcallReturn i h =
     (case hostcall_return i of
        Ok (continue, i') \<Rightarrow>
          if continue then G_Continue i' (h\<lparr>rh_vmctx := None\<rparr>) else G_Switch i' (h\<lparr>rh_vmctx := None\<rparr>)
      | Err e \<Rightarrow> G_Abort ''error in hostcall wrapper'' i h
      | Panic p \<Rightarrow> G_Abort p i h)"
| "guest_step env (G_HostcallPanic payload) i h =
     hostcall_result h (case payload of Some d \<Rightarrow> Err d | None \<Rightarrow> Panic ''explicit panic'') i (\<lambda>_::unit. G_Hang)"
| "guest_step env (G_HeapBorrow mutably) i h =
     with_vmctx h i (\<lambda>raw v.
       hostcall_result h (if mutably then vmctx_heap_mut i v else vmctx_heap i v) i
         (\<lambda>v'. G_Continue i (h\<lparr>rh_vmctx := Some (raw, v')\<rparr>)))"
| "guest_step env G_HeapRelease i h =
     with_vmctx h i (\<lambda>raw v. G_Continue i (h\<lparr>rh_vmctx := Some (raw, heap_release v)\<rparr>))"
| "guest_step env (G_Grow n) i h =
     with_vmctx h i (\<lambda>raw v.
       case vmctx_grow_memory (e_region env) n v i (rh_mem h) of
         (r, i', m') \<Rightarrow> hostcall_result (h\<lparr>rh_mem := m'\<rparr>) r i' (\<lambda>_. G_Continue i' (h\<lparr>rh_mem := m'\<rparr>)))"
| "guest_step env (G_Yield val R) i h =
     with_vmctx h i (\<lambda>raw v. hostcall_result h (yield_impl val R True False v i) i (\<lambda>i'. G_Switch i' h))"
| "guest_step env G_BoundExpired i h =
     with_vmctx h i (\<lambda>raw v.
       hostcall_result h (yield_impl (Any ''()'' 0) ''()'' False True v i) i (\<lambda>i'. G_Switch i' h))"
| "guest_step env (G_BlockOn future) i h =
     with_vmctx h i (\<lambda>raw v. hostcall_result h (block_on_start future v i) i (\<lambda>i'. G_Switch i' h))"
| "guest_step env (G_TakeResumed R) i h =
     with_vmctx h i (\<lambda>raw v.
       case take_resumed_val R i of
         (r, i') \<Rightarrow> hostcall_result h r i' (\<lambda>x. G_Continue i' (h\<lparr>rh_taken := x # rh_taken h\<rparr>)))"
| "guest_step env (G_Return rax rdx fp) i h =
     (let i = i\<lparr>inst_ctx := (inst_ctx i)\<lparr>retvals_gp := (rax, rdx), retval_fp := fp\<rparr>\<rparr> in
      case exit_guest_region (1 + ks_upgraded (inst_kill_state i)) (inst_kill_state i) of
        (None, ks) \<Rightarrow> G_Hang
      | (Some (Ok _), ks) \<Rightarrow> G_Switch (i\<lparr>inst_kill_state := ks\<rparr>) h
      | (Some (Err e), ks) \<Rightarrow> G_Abort ''error while exiting a guest region'' (i\<lparr>inst_kill_state := ks\<rparr>) h
      | (Some (Panic p), ks) \<Rightarrow> G_Abort p (i\<lparr>inst_kill_state := ks\<rparr>) h)"
| "guest_step env G_Upgrade i h = G_Continue (i\<lparr>inst_kill_state := upgrade_ref (inst_kill_state i)\<rparr>) h"
| "guest_step env G_Release i h = G_Continue (i\<lparr>inst_kill_state := release_ref (inst_kill_state i)\<rparr>) h"

fun guest_run ::
  "run_env \<Rightarrow> guest_event list \<Rightarrow> inst \<Rightarrow> run_host \<Rightarrow> (unit run_res \<times> inst \<times> run_host) option" where
  "guest_run env [] i h = None"
| "guest_run env (e # es) i h =
     (case guest_step env e i h of
        G_Continue i' h' \<Rightarrow> guest_run env es i' h'
      | G_Switch i' h' \<Rightarrow> Some (Ok (), i', h'\<lparr>rh_guest := es\<rparr>)
      | G_Hang \<Rightarrow> None
      | G_Abort p i' h' \<Rightarrow> Some (Panic p, i', h'\<lparr>rh_guest := es\<rparr>))"

text \<open>\<open>Context::swap\<close> into the guest, until control is back.\<close>

definition swap_to_guest :: "run_env \<Rightarrow> inst \<Rightarrow> run_host \<Rightarrow> (unit run_res \<times> inst \<times> run_host) option" where
  "swap_to_guest env i h =
     (if rh_at_entry h
      then (let h = h\<lparr>rh_at_entry := False, rh_vmctx := None\<rparr> in
            case enter_guest_region (inst_kill_state i) of
              Ok (None, ks) \<Rightarrow> guest_run env (rh_guest h) (i\<lparr>inst_kill_state := ks\<rparr>) h
            | Ok (Some d, ks) \<Rightarrow> Some (Ok (), instance_terminate d (i\<lparr>inst_kill_state := ks\<rparr>), h)
            | Err e \<Rightarrow> Some (Err e, i, h)
            | Panic p \<Rightarrow> Some (Panic p, i, h))
      else guest_run env (rh_guest h) i h)"

section \<open>The host side\<close>

definition inst_ptr :: "inst \<Rightarrow> u64" where
  "inst_ptr i = (case alloc_slot_opt (inst_alloc i) of Some s \<Rightarrow> slot_start s | None \<Rightarrow> 0)"

definition with_current_instance ::
  "(inst \<Rightarrow> run_host \<Rightarrow> ('r run_res \<times> inst \<times> run_host) option) \<Rightarrow> inst \<Rightarrow> run_host \<Rightarrow>
   ('r run_res \<times> inst \<times> run_host) option" where
  "with_current_instance f i h =
     (if rh_current h \<noteq> None
      then Some (Err (InternalError ''no instance must already be running on this thread''), i, h)
      else (case f (i\<lparr>inst_kill_state := schedule (rh_thread h) (inst_kill_state i)\<rparr>)
                   (h\<lparr>rh_current := Some (inst_ptr i)\<rparr>) of
          None \<Rightarrow> None
        | Some (Panic p, i', h') \<Rightarrow> Some (Panic p, i', h')
        | Some (res, i', h') \<Rightarrow>
            Some (res, i'\<lparr>inst_kill_state := deschedule (inst_kill_state i')\<rparr>, h'\<lparr>rh_current := None\<rparr>)))"

text \<open>The second half of \<open>swap_and_return\<close>, after the switch back. A fatal fault calls the fatal handlers,
  of which the last never returns.\<close>

definition finish_swap :: "inst \<Rightarrow> internal_run_result run_res \<times> inst" where
  "finish_swap i =
     (let st = inst_state i;
          i = i\<lparr>inst_state := Transitioning\<rparr>;
          i = (if \<not> is_yielding st \<and> \<not> is_bound_expired st then i\<lparr>inst_kill_state := kill_state_new\<rparr> else i)
      in case st of
           Running _ \<Rightarrow>
             (map_res (\<lambda>rv. Normal (Returned rv)) (get_untyped_retval (inst_ctx i)), i\<lparr>inst_state := Ready\<rparr>)
         | Terminating details \<Rightarrow> (Err (RuntimeTerminated details), i\<lparr>inst_state := Terminated\<rparr>)
         | Yielding val expecting \<Rightarrow> (Ok (Normal (YieldedResult val)), i\<lparr>inst_state := Yielded expecting\<rparr>)
         | Faulted details info ctx \<Rightarrow>
             (case mo_addr_details (inst_module i) (rip_addr details) of
                Ok ad \<Rightarrow>
                  (let details = details\<lparr>rip_addr_details := ad\<rparr>;
                       i = i\<lparr>inst_state := Faulted details info ctx\<rparr>
                   in if fatal details then (Panic ''instance had fatal error'', i)
                      else (Err (RuntimeFault details), i))
              | Err e \<Rightarrow> (Err e, i)
              | Panic p \<Rightarrow> (Panic p, i))
         | BoundExpired \<Rightarrow> (Ok InternalBoundExpired, i\<lparr>inst_state := BoundExpired\<rparr>)
         | _ \<Rightarrow> (Err (InternalError ''impossible state found in swap_and_return()''), i))"

definition can_swap :: "bool \<Rightarrow> state \<Rightarrow> bool" where
  "can_swap is_start st \<longleftrightarrow>
     is_ready st \<or> is_not_started st \<and> is_start \<or> is_faulted st \<and> \<not> is_fatal st \<or> is_yielded st \<or> is_bound_expired st"

definition swap_and_return ::
  "run_env \<Rightarrow> bool \<Rightarrow> inst \<Rightarrow> run_host \<Rightarrow> (internal_run_result run_res \<times> inst \<times> run_host) option" where
  "swap_and_return env async_context i h =
     (case inst_entrypoint i of
        None \<Rightarrow> Some (Panic ''we always have an entrypoint by now'', i, h)
      | Some func \<Rightarrow>
          if h_debug_assertions h \<and> \<not> can_swap (is_start_func func) (inst_state i)
          then Some (Panic ''assertion failed in swap_and_return'', i, h)
          else
            (case with_current_instance (with_signals_on (swap_to_guest env))
                (i\<lparr>inst_state := Running async_context\<rparr>) h of
               None \<Rightarrow> None
             | Some (Ok _, i', h') \<Rightarrow> (case finish_swap i' of (r, i'') \<Rightarrow> Some (r, i'', h'))
             | Some (Err e, i', h') \<Rightarrow>
                 Some (Err e,
                   if is_running (inst_state i')
                   then i'\<lparr>inst_state := if is_start_func func then NotStarted else Ready\<rparr> else i', h')
             | Some (Panic p, i', h') \<Rightarrow> Some (Panic p, i', h')))"

definition install_activator :: "run_env \<Rightarrow> inst \<Rightarrow> run_host \<Rightarrow> unit run_res \<times> inst \<times> run_host" where
  "install_activator env i h =
     (let top_of_stack = rsp (gpr (inst_ctx i)) in
      case store_bytes top_of_stack (word_bytes 8 (e_activate env)) (rh_mem h) of
        Ok m \<Rightarrow>
          (Ok (), i\<lparr>inst_ctx := (inst_ctx i)\<lparr>gpr := (gpr (inst_ctx i))\<lparr>rbx := read_u64 top_of_stack (rh_mem h),
             rsi := e_enter_guest env, rdi := callback_data (inst_ctx i)\<rparr>\<rparr>\<rparr>,
           h\<lparr>rh_mem := m, rh_at_entry := True\<rparr>)
      | Err e \<Rightarrow> (Err e, i, h)
      | Panic p \<Rightarrow> (Panic p, i, h))"

text \<open>The stack as the slice \<open>init_with_callback\<close> works on.\<close>

definition read_words :: "u64 \<Rightarrow> nat \<Rightarrow> memory \<Rightarrow> u64 list" where
  "read_words a n m = map (\<lambda>k. read_u64 (a + 8 * of_nat k) m) [0..<n]"

definition words_bytes :: "u64 list \<Rightarrow> u8 list" where
  "words_bytes ws = concat (map (word_bytes 8) ws)"

fun context_err :: "context_error \<Rightarrow> error" where
  "context_err UnalignedStack = InternalError ''context initialized with unaligned stack''"

definition init_guest_context ::
  "run_env \<Rightarrow> function_handle \<Rightarrow> val list \<Rightarrow> inst \<Rightarrow> run_host \<Rightarrow> unit run_res \<times> inst \<times> run_host" where
  "init_guest_context env func args_with_vmctx i h =
     (case stack_u64_mut (inst_alloc i) of
        Ok (stack, n) \<Rightarrow>
          (case init_with_callback (e_syms env) stack (inst_ptr i + e_ctx_offset env)
              (read_words stack (unat n) (rh_mem h)) (inst_ctx i) (BackstopAt (e_exit_guest env)) (inst_ptr i)
              (fh_ptr func) args_with_vmctx of
             Ok (c, stack') \<Rightarrow>
               (case store_bytes stack (words_bytes stack') (rh_mem h) of
                  Ok m \<Rightarrow> (Ok (), i\<lparr>inst_ctx := c\<rparr>, h\<lparr>rh_mem := m\<rparr>)
                | Err e \<Rightarrow> (Err e, i, h)
                | Panic p \<Rightarrow> (Panic p, i, h))
           | Err e \<Rightarrow> (Err (context_err e), i, h)
           | Panic p \<Rightarrow> (Panic p, i, h))
      | Err e \<Rightarrow> (Err e, i, h)
      | Panic p \<Rightarrow> (Panic p, i, h))"

text \<open>The checks at the start of \<open>run_func\<close>.\<close>

definition run_func_check :: "function_handle \<Rightarrow> val list \<Rightarrow> inst \<Rightarrow> unit run_res" where
  "run_func_check func args i =
     (let st = inst_state i in
      if is_not_started st \<and> \<not> is_start_func func then Err InstanceNeedsStart
      else if \<not> (is_ready st \<or> (is_not_started st \<and> is_start_func func) \<or> (is_faulted st \<and> \<not> is_fatal st))
      then Err (InvalidArgument ''instance must be ready, starting, or non-fatally faulted'')
      else if fh_ptr func = 0
      then Err (InvalidArgument ''entrypoint function cannot be null; this is probably a malformed module'')
      else rbind (mo_signature (inst_module i) (fh_id func)) (\<lambda>sig.
        if length (params sig) \<noteq> length args
        then Err (InvalidArgument ''entrypoint function signature mismatch (number of arguments is incorrect)'')
        else if \<not> list_all2 (\<lambda>param_ty arg. param_ty = val_value_type arg) (params sig) args
        then Err (InvalidArgument ''entrypoint function signature mismatch'')
        else Ok ()))"

definition run_func ::
  "run_env \<Rightarrow> function_handle \<Rightarrow> val list \<Rightarrow> bool \<Rightarrow> u64 option \<Rightarrow> inst \<Rightarrow> run_host \<Rightarrow>
   (internal_run_result run_res \<times> inst \<times> run_host) option" where
  "run_func env func args async_context inst_count_bound i h =
     (case run_func_check func args i of
        Err e \<Rightarrow> Some (Err e, i, h)
      | Panic p \<Rightarrow> Some (Panic p, i, h)
      | Ok _ \<Rightarrow>
          (let i = i\<lparr>inst_entrypoint := Some func\<rparr> in
           case alloc_slot (inst_alloc i) of
             Err e \<Rightarrow> Some (Err e, i, h)
           | Panic p \<Rightarrow> Some (Panic p, i, h)
           | Ok s \<Rightarrow>
               (let args_with_vmctx = CPtr (slot_heap s) # args in
                case set_instruction_bound_delta inst_count_bound i of
                  Err e \<Rightarrow> Some (Err e, i, h)
                | Panic p \<Rightarrow> Some (Panic p, i, h)
                | Ok i \<Rightarrow>
                    (case init_guest_context env func args_with_vmctx i h of
                       (Err e, i, h) \<Rightarrow> Some (Err e, i, h)
                     | (Panic p, i, h) \<Rightarrow> Some (Panic p, i, h)
                     | (Ok _, i, h) \<Rightarrow>
                         (case install_activator env i h of
                            (Err e, i, h) \<Rightarrow> Some (Err e, i, h)
                          | (Panic p, i, h) \<Rightarrow> Some (Panic p, i, h)
                          | (Ok _, i, h) \<Rightarrow> swap_and_return env async_context i h)))))"

definition unwrap_internal ::
  "(internal_run_result run_res \<times> inst \<times> run_host) option \<Rightarrow> (run_result run_res \<times> inst \<times> run_host) option" where
  "unwrap_internal r = map_option (\<lambda>(r, i, h). (rbind r internal_unwrap, i, h)) r"

definition instance_run ::
  "run_env \<Rightarrow> string \<Rightarrow> val list \<Rightarrow> inst \<Rightarrow> run_host \<Rightarrow> (run_result run_res \<times> inst \<times> run_host) option" where
  "instance_run env entrypoint args i h =
     (case mo_export_func (inst_module i) entrypoint of
        Ok func \<Rightarrow> unwrap_internal (run_func env func args False None i h)
      | Err e \<Rightarrow> Some (Err e, i, h)
      | Panic p \<Rightarrow> Some (Panic p, i, h))"

definition run_func_idx ::
  "run_env \<Rightarrow> u32 \<Rightarrow> u32 \<Rightarrow> val list \<Rightarrow> inst \<Rightarrow> run_host \<Rightarrow> (run_result run_res \<times> inst \<times> run_host) option" where
  "run_func_idx env table_idx func_idx args i h =
     (case mo_func_from_idx (inst_module i) table_idx func_idx of
        Ok func \<Rightarrow> unwrap_internal (run_func env func args False None i h)
      | Err e \<Rightarrow> Some (Err e, i, h)
      | Panic p \<Rightarrow> Some (Panic p, i, h))"

definition resume_with_val_impl ::
  "run_env \<Rightarrow> any \<Rightarrow> bool \<Rightarrow> u64 option \<Rightarrow> inst \<Rightarrow> run_host \<Rightarrow>
   (internal_run_result run_res \<times> inst \<times> run_host) option" where
  "resume_with_val_impl env val async_context max_insn_count i h =
     (case inst_state i of
        Yielded expecting \<Rightarrow>
          if expecting \<noteq> any_type val
          then Some (Err (InvalidArgument
            ''type mismatch between yielded instance expected value and resumed value''), i, h)
          else
            (let i = i\<lparr>inst_resumed_val := Some val\<rparr> in
             case set_instruction_bound_delta max_insn_count i of
               Ok i \<Rightarrow> swap_and_return env async_context i h
             | Err e \<Rightarrow> Some (Err e, i, h)
             | Panic p \<Rightarrow> Some (Panic p, i, h))
      | _ \<Rightarrow> Some (Err (InvalidArgument ''can only resume a yielded instance''), i, h))"

definition resume_with_val ::
  "run_env \<Rightarrow> any \<Rightarrow> inst \<Rightarrow> run_host \<Rightarrow> (run_result run_res \<times> inst \<times> run_host) option" where
  "resume_with_val env val i h = unwrap_internal (resume_with_val_impl env val False None i h)"

definition instance_resume ::
  "run_env \<Rightarrow> inst \<Rightarrow> run_host \<Rightarrow> (run_result run_res \<times> inst \<times> run_host) option" where
  "instance_resume env i h = resume_with_val env empty_yield_val i h"

definition resume_bounded ::
  "run_env \<Rightarrow> u64 \<Rightarrow> inst \<Rightarrow> run_host \<Rightarrow> (internal_run_result run_res \<times> inst \<times> run_host) option" where
  "resume_bounded env max_insn_count i h =
     (if \<not> is_bound_expired (inst_state i)
      then Some (Err (InvalidArgument
        ''can only call resume_bounded() on an instance that hit an instruction bound''), i, h)
      else (case set_instruction_bound_delta (Some max_insn_count) i of
          Ok i \<Rightarrow> swap_and_return env True i h
        | Err e \<Rightarrow> Some (Err e, i, h)
        | Panic p \<Rightarrow> Some (Panic p, i, h)))"

definition run_start :: "run_env \<Rightarrow> inst \<Rightarrow> run_host \<Rightarrow> (unit run_res \<times> inst \<times> run_host) option" where
  "run_start env i h =
     (case mo_start_func (inst_module i) of
        Ok (Some start) \<Rightarrow>
          if \<not> is_not_started (inst_state i) then Some (Err StartAlreadyRun, i, h)
          else map_option (\<lambda>(r, i, h). (map_res (\<lambda>_. ()) r, i, h)) (run_func env start [] False None i h)
      | Ok None \<Rightarrow> Some (Ok (), i, h)
      | Err e \<Rightarrow> Some (Err e, i, h)
      | Panic p \<Rightarrow> Some (Panic p, i, h))"

end
