(* ===== verification/Instance_Life.thy ===== *)
theory Instance_Life
  imports Instance_Run
begin

text \<open>
  The life of an instance across calls. The invariants connect the state machine of the instance, its kill
  state, the thread's current instance, the host's signal handlers and the guest's stack; they are shown for
  every event of a guest whose hostcalls are properly nested, for a whole call, and for every sequence of calls.
  From them follow the outcomes of a call: which results can occur, in which state each leaves the
  instance, when a call panics (a fatal fault, a failed lookup of the faulting address, a return that meets an upgraded kill
  switch), that the host is left as it was found, and what a guest that gets to its return or to an out-of-bounds store makes of the call.
\<close>

section \<open>Well-formed guests\<close>

text \<open>The events of a guest whose hostcalls are properly nested: outside a hostcall generated code runs, inside
  one the host function works on its \<open>Vmctx\<close>. Hostcalls are made with the instance's own pointer.\<close>

fun guest_wf :: "u64 \<Rightarrow> bool \<Rightarrow> guest_event list \<Rightarrow> bool" where
  "guest_wf ptr hc [] = True"
| "guest_wf ptr hc (e # es) =
     (case e of
        G_Write _ _ _ \<Rightarrow> \<not> hc \<and> guest_wf ptr hc es
      | G_Count _ \<Rightarrow> \<not> hc \<and> guest_wf ptr hc es
      | G_Signal info _ \<Rightarrow> si_signo info \<in> lucet_signals \<and> guest_wf ptr hc es
      | G_Kill _ \<Rightarrow> guest_wf ptr hc es
      | G_HostcallEnter raw \<Rightarrow> \<not> hc \<and> raw = ptr \<and> guest_wf ptr True es
      | G_HostcallReturn \<Rightarrow> hc \<and> guest_wf ptr False es
      | G_Return _ _ _ \<Rightarrow> \<not> hc \<and> guest_wf ptr hc es
      | G_Upgrade \<Rightarrow> guest_wf ptr hc es
      | G_Release \<Rightarrow> guest_wf ptr hc es
      | _ \<Rightarrow> hc \<and> guest_wf ptr hc es)"

section \<open>Invariants\<close>

text \<open>What every instance has while its region is alive: its slot is well formed and holds the initial heap of the module
  (creation validates it), it wants Lucet's signal handler and signal stack installed while it runs, as by default, and its
  signal stack is large enough.\<close>

definition inst_basic :: "slot \<Rightarrow> inst \<Rightarrow> bool" where
  "inst_basic s i \<longleftrightarrow>
     valid_magic i \<and> alloc_inv (inst_alloc i) \<and> alloc_slot_opt (inst_alloc i) = Some s \<and> wants_signals i \<and>
     MINSIGSTKSZ \<le> signal_stack_size (slot_limits s) \<and>
     heap_initial_size (inst_module i) \<le> heap_memory_size_limit (inst_alloc i) \<and> page_aligned (heap_initial_size (inst_module i))"

text \<open>What no event of a guest and no call changes.\<close>

definition inst_fixed :: "inst \<Rightarrow> inst \<Rightarrow> bool" where
  "inst_fixed i i' \<longleftrightarrow> inst_module i' = inst_module i \<and> inst_signal_handler i' = inst_signal_handler i \<and>
     inst_entrypoint i' = inst_entrypoint i"

lemma inst_fixed_refl [simp]: "inst_fixed i i"
  by (simp add: inst_fixed_def)

lemma inst_fixed_trans: "inst_fixed i i1 \<Longrightarrow> inst_fixed i1 i2 \<Longrightarrow> inst_fixed i i2"
  by (simp add: inst_fixed_def)

lemma inst_fixed_upd [simp]:
  "inst_fixed i (j\<lparr>inst_state := st\<rparr>) = inst_fixed i j" "inst_fixed i (j\<lparr>inst_kill_state := ks\<rparr>) = inst_fixed i j"
  "inst_fixed i (j\<lparr>inst_ctx := c\<rparr>) = inst_fixed i j" "inst_fixed i (j\<lparr>inst_alloc := al\<rparr>) = inst_fixed i j"
  "inst_fixed i (j\<lparr>inst_implicits := im\<rparr>) = inst_fixed i j" "inst_fixed i (j\<lparr>inst_resumed_val := rv\<rparr>) = inst_fixed i j"
  "inst_fixed (j\<lparr>inst_state := st\<rparr>) i = inst_fixed j i" "inst_fixed (j\<lparr>inst_kill_state := ks\<rparr>) i = inst_fixed j i"
  "inst_fixed (j\<lparr>inst_ctx := c\<rparr>) i = inst_fixed j i" "inst_fixed (j\<lparr>inst_implicits := im\<rparr>) i = inst_fixed j i"
  "inst_fixed (j\<lparr>inst_resumed_val := rv\<rparr>) i = inst_fixed j i"
  by (simp_all add: inst_fixed_def)

text \<open>The kill state in a hostcall, and when the instance is not suspended in one.\<close>

definition ks_hostcall :: "kill_state \<Rightarrow> bool" where
  "ks_hostcall ks \<longleftrightarrow> \<not> ks_ignore_alarm ks \<and>
     (ks_domain ks = D_Hostcall \<and> ks_terminable ks \<or> ks_domain ks = D_Terminated \<and> \<not> ks_terminable ks)"

definition ks_idle :: "kill_state \<Rightarrow> bool" where
  "ks_idle ks \<longleftrightarrow> \<not> ks_ignore_alarm ks \<and>
     (ks_domain ks = D_Pending \<and> ks_terminable ks \<or> ks_domain ks = D_Cancelled \<and> \<not> ks_terminable ks)"

text \<open>While the guest runs.\<close>

definition running_ok :: "slot \<Rightarrow> bool \<Rightarrow> inst \<Rightarrow> run_host \<Rightarrow> bool" where
  "running_ok s hc i h \<longleftrightarrow>
     inst_basic s i \<and> inst_entrypoint i \<noteq> None \<and> is_running (inst_state i) \<and> ks_thread_id (inst_kill_state i) \<noteq> None \<and>
     rh_current h = Some (slot_start s) \<and>
     (if hc then ks_hostcall (inst_kill_state i) \<and> (\<exists>v. rh_vmctx h = Some (slot_heap s, v))
      else \<not> ks_ignore_alarm (inst_kill_state i) \<and> ks_domain (inst_kill_state i) = D_Guest \<and>
        ks_terminable (inst_kill_state i))"

text \<open>When control is back in the host.\<close>

fun left_state :: "state \<Rightarrow> bool" where
  "left_state (Running _) = True"
| "left_state (Terminating _) = True"
| "left_state (Faulted _ _ _) = True"
| "left_state _ = False"

definition left_ok :: "slot \<Rightarrow> inst \<Rightarrow> run_host \<Rightarrow> bool" where
  "left_ok s i h \<longleftrightarrow>
     inst_basic s i \<and> inst_entrypoint i \<noteq> None \<and> rh_current h = Some (slot_start s) \<and>
     (left_state (inst_state i) \<or>
      (is_yielding (inst_state i) \<or> is_bound_expired (inst_state i)) \<and> ks_hostcall (inst_kill_state i) \<and>
        (\<exists>v. rh_vmctx h = Some (slot_heap s, v)))"

text \<open>What guest events leave alone in the host.\<close>

definition rw_kept :: "memory \<Rightarrow> memory \<Rightarrow> bool" where
  "rw_kept m m' \<longleftrightarrow> (\<forall>a. mem_prot m a = ProtReadWrite \<longrightarrow> mem_prot m' a = ProtReadWrite)"

lemma rw_kept_refl [simp]: "rw_kept m m"
  by (simp add: rw_kept_def)

lemma rw_kept_trans: "rw_kept m m1 \<Longrightarrow> rw_kept m1 m2 \<Longrightarrow> rw_kept m m2"
  by (simp add: rw_kept_def)

lemma store_prot: "store_bytes a bs m = Ok m' \<Longrightarrow> mem_prot m' = mem_prot m"
  by (auto simp: store_bytes_def split: if_splits)

lemma rw_kept_store: "store_bytes a bs m = Ok m' \<Longrightarrow> rw_kept m m'"
  by (auto simp: rw_kept_def store_bytes_def split: if_splits)

definition host_kept :: "run_host \<Rightarrow> run_host \<Rightarrow> bool" where
  "host_kept h h' \<longleftrightarrow> host.truncate h' = host.truncate h \<and> rh_thread h' = rh_thread h \<and>
     rh_at_entry h' = rh_at_entry h \<and> (\<exists>ts. rh_taken h' = ts @ rh_taken h) \<and>
     rw_kept (rh_mem h) (rh_mem h')"

lemma left_ok_guest [simp]: "left_ok s i (h\<lparr>rh_guest := es\<rparr>) = left_ok s i h"
  by (simp add: left_ok_def)

lemma host_kept_refl [simp]: "host_kept h h"
  by (simp add: host_kept_def)

lemma host_kept_trans: "host_kept h h1 \<Longrightarrow> host_kept h1 h2 \<Longrightarrow> host_kept h h2"
  by (auto simp: host_kept_def intro: rw_kept_trans)

lemma host_kept_mem: "rw_kept (rh_mem h) m \<Longrightarrow> host_kept h (h\<lparr>rh_mem := m\<rparr>)"
  by (simp add: host_kept_def host.truncate_def)

lemma host_kept_upd [simp]:
  "host_kept h (h\<lparr>rh_vmctx := v\<rparr>)" "host_kept h (h\<lparr>rh_guest := es\<rparr>)"
  "host_kept h (h\<lparr>rh_taken := x # rh_taken h\<rparr>)"
  by (simp_all add: host_kept_def host.truncate_def)

lemma inst_basic_upd [simp]:
  "inst_basic s (i\<lparr>inst_state := st\<rparr>) = inst_basic s i"
  "inst_basic s (i\<lparr>inst_kill_state := ks\<rparr>) = inst_basic s i"
  "inst_basic s (i\<lparr>inst_implicits := im\<rparr>) = inst_basic s i"
  "inst_basic s (i\<lparr>inst_ctx := c\<rparr>) = inst_basic s i"
  "inst_basic s (i\<lparr>inst_resumed_val := rv\<rparr>) = inst_basic s i"
  "inst_basic s (i\<lparr>inst_entrypoint := ep\<rparr>) = inst_basic s i"
  by (simp_all add: inst_basic_def valid_magic_def wants_signals_def)

text \<open>The guest returned while a kill switch held an upgraded reference.\<close>

definition exit_raced :: "inst \<Rightarrow> bool" where
  "exit_raced i \<longleftrightarrow> is_running (inst_state i) \<and> 0 < ks_upgraded (inst_kill_state i)"

text \<open>The outcome of one event, by whether a hostcall is open afterwards.\<close>

fun next_ok :: "slot \<Rightarrow> bool \<Rightarrow> run_host \<Rightarrow> guest_next \<Rightarrow> bool" where
  "next_ok s hc h (G_Continue i' h') = (running_ok s hc i' h' \<and> host_kept h h')"
| "next_ok s hc h (G_Switch i' h') = (left_ok s i' h' \<and> host_kept h h')"
| "next_ok s hc h G_Hang = False"
| "next_ok s hc h (G_Abort p i' h') = (p = strong_count_panic \<and> exit_raced i' \<and> host_kept h h')"

lemma instance_signal_ok:
  assumes "inst_basic s i" and "\<not> ks_ignore_alarm (inst_kill_state i)"
  shows "\<exists>sw i'. instance_signal hs tm signum info uc i = Ok (sw, i') \<and>
    (sw \<and> inst_basic s i' \<and> inst_entrypoint i' = inst_entrypoint i \<and> left_state (inst_state i') \<or> \<not> sw \<and> i' = i)"
proof -
  have inv: "alloc_inv (inst_alloc i)" "alloc_slot_opt (inst_alloc i) = Some s" using assms(1) by (simp_all add: inst_basic_def)
  let ?tc = "lookup_trapcode tm (mo_function_manifest (inst_module i)) (uc_ip uc)"
  obtain d where rf: "record_fault ?tc info uc i = Ok (i\<lparr>inst_state := Faulted d info uc\<rparr>)"
    unfolding record_fault_Ok [OF inv] by blast
  obtain ks where ks: "handler_disable (inst_kill_state i) = Ok ks" using handler_disable_Ok [OF assms(2)] by blast
  show ?thesis
  proof (cases "signum = SIGALRM")
    case True
    with assms show ?thesis by (auto simp: instance_signal_def alarm_active_def)
  next
    case False
    then show ?thesis using assms(1) rf ks
      by (cases "call_signal_handler hs i ?tc signum info uc") (auto simp: instance_signal_def)
  qed
qed

lemma guest_signal_ok:
  assumes "running_ok s hc i h" and "si_signo info \<in> lucet_signals"
  shows "next_ok s hc h (guest_signal env info uc i h)"
proof -
  have b: "inst_basic s i" "\<not> ks_ignore_alarm (inst_kill_state i)"
    using assms(1) by (auto simp: running_ok_def ks_hostcall_def split: if_splits)
  obtain sw i' where sg: "instance_signal (e_handlers env) (e_trap_mem env) (si_signo info) info uc i = Ok (sw, i')"
    and sw: "sw \<and> inst_basic s i' \<and> inst_entrypoint i' = inst_entrypoint i \<and> left_state (inst_state i') \<or> \<not> sw \<and> i' = i"
    using instance_signal_ok [OF b] by blast
  have lo: "left_ok s j h" if "inst_basic s j" "inst_entrypoint j = inst_entrypoint i" "left_state (inst_state j)" for j
    using that assms(1) by (simp add: left_ok_def running_ok_def)
  have ru: "left_state (inst_state i)" using assms(1) by (cases "inst_state i") (auto simp: running_ok_def)
  have hs: "handle_signal (e_handlers env) (e_trap_mem env) (e_context_set env) (e_host_ctx env) (si_signo info) info uc (Some i) h =
      (Ok (None, Some i', if sw then uc\<lparr>uc_ip := e_context_set env, uc_rdi := e_host_ctx env\<rparr> else uc), h)"
    using assms(2) sg by (auto simp: handle_signal_def)
  show ?thesis using sw lo ru b assms(1) by (auto simp: guest_signal_def hs)
qed

lemma from_raw_ok:
  assumes "inst_basic s i" and "rh_current h = Some (slot_start s)"
  shows "\<exists>v. vmctx_from_raw (rh_current h) (slot_heap s) i = Ok v"
proof -
  have wf: "slot_wf s" using assms(1) by (auto simp: inst_basic_def alloc_inv_def)
  have "unat (slot_heap s) \<noteq> 0" using slot_wf_unat(1) [OF wf] by simp
  then have "slot_heap s \<noteq> 0" "slot_heap s - instance_heap_offset = slot_start s"
    using wf by (auto simp: slot_wf_def instance_heap_offset_def host_page_size_def)
  then show ?thesis using assms by (simp add: vmctx_from_raw_def instance_from_vmctx_def inst_basic_def)
qed

lemma hostcall_result_ok:
  assumes "running_ok s True i h" and "host_kept h0 h" and "\<And>x. r = Ok x \<Longrightarrow> next_ok s hc h0 (k x)"
  shows "next_ok s hc h0 (hostcall_result h r i k)"
proof -
  obtain v where v: "rh_vmctx h = Some (slot_heap s, v)" and c: "rh_current h = Some (slot_start s)"
    and b: "inst_basic s i" and ep: "inst_entrypoint i \<noteq> None" using assms(1) by (auto simp: running_ok_def)
  have "\<exists>v. vmctx_from_raw (rh_current h) (slot_heap s) i = Ok v" by (rule from_raw_ok [OF b c])
  then have "\<exists>i'. hostcall_unwind (rh_current h) (slot_heap s) r i = Ok i' \<and> left_ok s i' h"
    using b c ep by (auto simp: hostcall_unwind_def Let_def instance_terminate_def left_ok_def)
  with assms(2,3) v show ?thesis by (cases r) (auto simp: hostcall_result_def)
qed

lemma expand_heap_keeps_slot:
  assumes "region_internal region" and "alloc_inv (inst_alloc i)" and "alloc_slot_opt (inst_alloc i) = Some s"
    and "grow_memory region n i m = (r, i', m')"
  shows "alloc_inv (inst_alloc i') \<and> i' = i\<lparr>inst_alloc := inst_alloc i'\<rparr> \<and> alloc_slot_opt (inst_alloc i') = Some s \<and>
    heap_memory_size_limit (inst_alloc i') = heap_memory_size_limit (inst_alloc i) \<and> rw_kept m m'"
proof (cases "checked_mul n WASM_PAGE_SIZE")
  case None
  with assms show ?thesis by (auto simp: grow_memory_def)
next
  case (Some b)
  obtain q al' m1 where run: "expand_heap region (inst_alloc i) b (inst_module i) m = (q, al', m1)" by (rule prod_cases3)
  have i': "i' = i\<lparr>inst_alloc := al'\<rparr>" "m' = m1" using assms(4) Some run by (simp_all add: grow_memory_def)
  show ?thesis
    by (cases rule: region_internal.expand_heap_cases [OF assms(1-3) run])
      (use growth_keeps_inv [OF assms(2,3)] assms(2,3) i' in \<open>auto simp: rw_kept_def\<close>)
qed

lemma vmctx_grow_ok:
  assumes "region_internal region" and "inst_basic s i" and "vmctx_grow_memory region n v i m = (r, i', m')"
  shows "inst_basic s i' \<and> inst_entrypoint i' = inst_entrypoint i \<and> inst_state i' = inst_state i \<and> inst_kill_state i' = inst_kill_state i \<and>
    rw_kept m m'"
proof -
  have inv: "alloc_inv (inst_alloc i)" "alloc_slot_opt (inst_alloc i) = Some s" using assms(2) by (simp_all add: inst_basic_def)
  obtain q j m1 where g: "grow_memory region n i m = (q, j, m1)" by (rule prod_cases3)
  note k = expand_heap_keeps_slot [OF assms(1) inv g]
  have "i' = i \<and> m' = m \<or> i' = j \<and> m' = m1"
    using assms(3) g by (auto simp: vmctx_grow_memory_def grow_memory_from_hostcall_def
        split: rresult.splits if_splits)
  moreover have "inst_basic s j \<and> inst_entrypoint j = inst_entrypoint i \<and> inst_state j = inst_state i \<and> inst_kill_state j = inst_kill_state i"
    using k assms(2) by (cases i; cases j) (simp add: inst_basic_def valid_magic_def wants_signals_def)
  ultimately show ?thesis using assms(2) k by auto
qed

lemma hostcall_enter_ok:
  assumes "running_ok s False i h"
  shows "\<exists>v i'. hostcall_enter (rh_current h) (slot_heap s) i = Ok (v, i') \<and>
    running_ok s True i' (h\<lparr>rh_vmctx := Some (slot_heap s, v)\<rparr>)"
proof -
  have b: "inst_basic s i" and c: "rh_current h = Some (slot_start s)" and d: "ks_domain (inst_kill_state i) = D_Guest"
    using assms by (simp_all add: running_ok_def)
  obtain v where "vmctx_from_raw (rh_current h) (slot_heap s) i = Ok v" using from_raw_ok [OF b c] by blast
  with assms d show ?thesis
    by (auto simp: hostcall_enter_def begin_hostcall_def running_ok_def ks_hostcall_def)
qed

lemma hostcall_return_ok:
  assumes "running_ok s True i h"
  shows "next_ok s False h (guest_step env G_HostcallReturn i h)"
  using assms by (auto simp: running_ok_def ks_hostcall_def hostcall_return_def end_hostcall_def instance_terminate_def
      left_ok_def)

lemma guest_return_exact:
  assumes "running_ok s False i h"
  shows "guest_step env (G_Return rax rdx fp) i h =
    (let i' = i\<lparr>inst_ctx := (inst_ctx i)\<lparr>retvals_gp := (rax, rdx), retval_fp := fp\<rparr>,
         inst_kill_state := (inst_kill_state i)\<lparr>ks_terminable := False\<rparr>\<rparr>
     in if ks_upgraded (inst_kill_state i) = 0 then G_Switch i' h else G_Abort strong_count_panic i' h)"
  using assms by (simp add: exit_guest_region_def disable_termination_def exit_guest_check_def running_ok_def Let_def)

lemma guest_return_ok:
  assumes "running_ok s False i h"
  shows "next_ok s False h (guest_step env (G_Return rax rdx fp) i h)"
proof -
  have "left_state (inst_state i)" using assms by (cases "inst_state i") (auto simp: running_ok_def)
  then show ?thesis unfolding guest_return_exact [OF assms] using assms
    by (simp add: left_ok_def running_ok_def exit_raced_def Let_def)
qed

lemma guest_refs_ok:
  assumes "running_ok s hc i h"
  shows "next_ok s hc h (guest_step env G_Upgrade i h)" and "next_ok s hc h (guest_step env G_Release i h)"
  using assms by (auto simp: running_ok_def ks_hostcall_def upgrade_ref_def release_ref_def)

lemma guest_kill_ok:
  assumes "running_ok s hc i h"
  shows "next_ok s hc h (guest_step env (G_Kill uc) i h)"
proof (cases "ks_terminable (inst_kill_state i)")
  case False
  with assms show ?thesis by (auto simp: disable_termination_def running_ok_def ks_hostcall_def split: if_splits)
next
  case True
  let ?ks = "(inst_kill_state i)\<lparr>ks_terminable := False\<rparr>"
  show ?thesis
  proof (cases hc)
    case hc: True
    then have "ks_domain ?ks = D_Hostcall" using assms True by (auto simp: running_ok_def ks_hostcall_def)
    with True hc assms show ?thesis
      by (auto simp: disable_termination_def terminate_domain_def running_ok_def ks_hostcall_def)
  next
    case hc: False
    then have d: "ks_domain ?ks = D_Guest" "\<not> ks_ignore_alarm ?ks" and t: "ks_thread_id ?ks \<noteq> None"
      and b: "inst_basic s i" and c: "rh_current h = Some (slot_start s)" and ep: "inst_entrypoint i \<noteq> None"
      using assms by (auto simp: running_ok_def)
    let ?uc = "uc\<lparr>uc_ip := e_context_set env, uc_rdi := e_host_ctx env\<rparr>"
    have "guest_signal env \<lparr>si_signo = SIGALRM, si_addr = 0\<rparr> uc (i\<lparr>inst_kill_state := ?ks\<rparr>) h =
        G_Switch (i\<lparr>inst_kill_state := ?ks, inst_state := Terminating TD_Remote\<rparr>) h"
      using d by (simp add: guest_signal_def handle_signal_def instance_signal_def alarm_active_def)
    with True d t b c ep show ?thesis
      by (auto simp: disable_termination_def terminate_domain_def left_ok_def Let_def)
  qed
qed

lemma guest_write_ok:
  assumes "running_ok s False i h"
  shows "next_ok s False h (guest_step env (G_Write rip a bs) i h)"
proof (cases "store_bytes a bs (rh_mem h)")
  case (Ok m)
  with assms rw_kept_store [OF Ok] show ?thesis by (simp add: running_ok_def host_kept_mem)
qed (use guest_signal_ok [OF assms] in simp_all)

lemma guest_vmctx_ok:
  assumes "region_internal (e_region env)" and "running_ok s True i h"
  shows "next_ok s True h (guest_step env (G_HostcallPanic pl) i h)"
    and "next_ok s True h (guest_step env (G_HeapBorrow mt) i h)"
    and "next_ok s True h (guest_step env G_HeapRelease i h)"
    and "next_ok s True h (guest_step env (G_Grow n) i h)"
    and "next_ok s True h (guest_step env (G_Yield x R) i h)"
    and "next_ok s True h (guest_step env G_BoundExpired i h)"
    and "next_ok s True h (guest_step env (G_BlockOn f) i h)"
    and "next_ok s True h (guest_step env (G_TakeResumed R) i h)"
proof -
  obtain v where v: "rh_vmctx h = Some (slot_heap s, v)" using assms(2) by (auto simp: running_ok_def)
  note res = hostcall_result_ok [OF assms(2) host_kept_refl]
  have yl: "next_ok s True h (G_Switch i' h)" if "yield_impl x R bc be v i = Ok i'" for x R bc be i'
    using that assms(2) by (auto simp: yield_impl_def left_ok_def running_ok_def split: if_splits)
  show "next_ok s True h (guest_step env (G_HostcallPanic pl) i h)"
    unfolding guest_step.simps by (rule res) (simp split: option.splits)
  show "next_ok s True h (guest_step env (G_HeapBorrow mt) i h)"
    using v assms(2) by (simp add: with_vmctx_def) (auto intro!: res simp: running_ok_def)
  show "next_ok s True h (guest_step env G_HeapRelease i h)"
    using v assms(2) by (simp add: with_vmctx_def running_ok_def)
  show "next_ok s True h (guest_step env (G_Yield x R) i h)"
    using v by (simp add: with_vmctx_def) (rule res, erule yl)
  show "next_ok s True h (guest_step env G_BoundExpired i h)"
    using v by (simp add: with_vmctx_def) (rule res, erule yl)
  show "next_ok s True h (guest_step env (G_BlockOn f) i h)"
    using v by (simp add: with_vmctx_def) (rule res, auto simp: block_on_start_def dest!: yl split: state.splits if_splits)
  show "next_ok s True h (guest_step env (G_Grow n) i h)"
  proof -
    obtain r i' m' where g: "vmctx_grow_memory (e_region env) n v i (rh_mem h) = (r, i', m')" by (rule prod_cases3)
    have "inst_basic s i" using assms(2) by (simp add: running_ok_def)
    note gr = vmctx_grow_ok [OF assms(1) this g]
    have ru: "running_ok s True i' (h\<lparr>rh_mem := m'\<rparr>)" using assms(2) gr by (auto simp: running_ok_def)
    have kept: "host_kept h (h\<lparr>rh_mem := m'\<rparr>)" using gr by (intro host_kept_mem) simp
    show ?thesis using v g ru kept by (simp add: with_vmctx_def) (rule hostcall_result_ok [OF ru kept], simp)
  qed
  show "next_ok s True h (guest_step env (G_TakeResumed R) i h)"
  proof -
    obtain r i' where t: "take_resumed_val R i = (r, i')" by fastforce
    then have ru: "running_ok s True i' h"
      using assms(2) by (auto simp: take_resumed_val_def try_take_resumed_val_def running_ok_def split: option.splits if_splits)
    then have "running_ok s True i' (h\<lparr>rh_taken := x # rh_taken h\<rparr>)" for x by (simp add: running_ok_def)
    with v t show ?thesis by (simp add: with_vmctx_def) (rule hostcall_result_ok [OF ru], simp_all)
  qed
qed

lemma guest_step_ok:
  assumes "region_internal (e_region env)" and "running_ok s hc i h" and "guest_wf (slot_heap s) hc (e # es)"
  shows "\<exists>hc'. next_ok s hc' h (guest_step env e i h) \<and> guest_wf (slot_heap s) hc' es"
proof -
  note vm = guest_vmctx_ok [OF assms(1)]
  have ru: "hc \<Longrightarrow> running_ok s True i h" "\<not> hc \<Longrightarrow> running_ok s False i h" using assms(2) by (cases hc; simp)+
  show ?thesis
  proof (cases e)
    case (G_HostcallEnter raw)
    then have hc: "\<not> hc" "raw = slot_heap s" "guest_wf (slot_heap s) True es" using assms(3) by simp_all
    obtain v i' where "hostcall_enter (rh_current h) (slot_heap s) i = Ok (v, i')"
      "running_ok s True i' (h\<lparr>rh_vmctx := Some (slot_heap s, v)\<rparr>)" using hostcall_enter_ok [OF ru(2) [OF hc(1)]] by blast
    then show ?thesis using G_HostcallEnter hc by (intro exI [of _ True]) simp
  next
    case (G_Count n)
    then show ?thesis using ru(2) assms(3) by (intro exI [of _ False]) (auto simp: running_ok_def)
  next
    case (G_Write rip a bs)
    then show ?thesis using guest_write_ok [OF ru(2)] assms(3) by (intro exI [of _ False]) (auto simp del: guest_step.simps)
  next
    case (G_Signal info uc)
    then show ?thesis using guest_signal_ok [OF assms(2)] assms(3) by (intro exI [of _ hc]) simp
  next
    case (G_Kill uc)
    then show ?thesis using guest_kill_ok [OF assms(2)] assms(3) by (intro exI [of _ hc]) (simp del: guest_step.simps)
  next
    case G_HostcallReturn
    then show ?thesis using hostcall_return_ok [OF ru(1)] assms(3) by (intro exI [of _ False]) (auto simp del: guest_step.simps)
  next
    case (G_Return rax rdx fp)
    then show ?thesis using guest_return_ok [OF ru(2)] assms(3) by (intro exI [of _ False]) (auto simp del: guest_step.simps)
  next
    case G_Upgrade
    then show ?thesis using guest_refs_ok [OF assms(2)] assms(3) by (intro exI [of _ hc]) (simp del: guest_step.simps)
  next
    case G_Release
    then show ?thesis using guest_refs_ok [OF assms(2)] assms(3) by (intro exI [of _ hc]) (simp del: guest_step.simps)
  qed (use vm ru(1) assms(3) in \<open>(intro exI [of _ True]; auto simp del: guest_step.simps)+\<close>)
qed

text \<open>How a guest can leave: it switches back to the host, or its return panics in the exit race.\<close>

definition left_or_raced :: "slot \<Rightarrow> unit run_res \<Rightarrow> inst \<Rightarrow> run_host \<Rightarrow> bool" where
  "left_or_raced s r i h \<longleftrightarrow> r = Ok () \<and> left_ok s i h \<or> r = Panic strong_count_panic \<and> exit_raced i"

lemma guest_run_ok:
  assumes "region_internal (e_region env)" and "running_ok s hc i h" and "guest_wf (slot_heap s) hc es"
    and "guest_run env es i h = Some (r, i', h')"
  shows "left_or_raced s r i' h' \<and> host_kept h h'"
  using assms(2-4)
proof (induction es arbitrary: hc i h)
  case (Cons e es)
  obtain hc' where ok: "next_ok s hc' h (guest_step env e i h)" "guest_wf (slot_heap s) hc' es"
    using guest_step_ok [OF assms(1) Cons.prems(1,2)] by blast
  have kept: "host_kept h (h1\<lparr>rh_guest := es\<rparr>)" if "host_kept h h1" for h1
    using host_kept_trans [OF that, of "h1\<lparr>rh_guest := es\<rparr>"] by simp
  show ?case
  proof (cases "guest_step env e i h")
    case (G_Continue i1 h1)
    then have "running_ok s hc' i1 h1" "host_kept h h1" "guest_run env es i1 h1 = Some (r, i', h')"
      using ok Cons.prems(3) by simp_all
    from Cons.IH [OF this(1) ok(2) this(3)] this(2) show ?thesis by (auto intro: host_kept_trans)
  qed (use ok Cons.prems(3) kept in \<open>auto simp: left_or_raced_def\<close>)
qed simp

subsection \<open>What a guest leaves alone\<close>

fun next_inst :: "guest_next \<Rightarrow> inst option" where
  "next_inst (G_Continue i h) = Some i"
| "next_inst (G_Switch i h) = Some i"
| "next_inst G_Hang = None"
| "next_inst (G_Abort p i h) = Some i"

abbreviation next_fixed :: "inst \<Rightarrow> guest_next \<Rightarrow> bool" where
  "next_fixed i g \<equiv> (\<forall>i'. next_inst g = Some i' \<longrightarrow> inst_fixed i i')"

lemma instance_signal_fixed: "instance_signal hs tm signum info uc i = Ok (sw, i') \<Longrightarrow> inst_fixed i i'"
  by (auto simp: instance_signal_def record_fault_def Let_def split: if_splits rresult.splits signal_behavior.splits)

lemma guest_signal_fixed: "next_fixed i (guest_signal env info uc i h)"
proof (cases "instance_signal (e_handlers env) (e_trap_mem env) (si_signo info) info uc i")
  case (Ok p)
  obtain sw i' where p: "p = (sw, i')" by fastforce
  have "inst_fixed i i'" using Ok p instance_signal_fixed by blast
  then show ?thesis using Ok p by (auto simp: guest_signal_def handle_signal_def)
qed (auto simp: guest_signal_def handle_signal_def)

lemma hostcall_result_fixed:
  assumes "inst_fixed i0 i" and "\<And>x. r = Ok x \<Longrightarrow> next_fixed i0 (k x)"
  shows "next_fixed i0 (hostcall_result h r i k)"
  using assms by (auto simp: hostcall_result_def hostcall_unwind_def instance_terminate_def Let_def split: rresult.splits option.splits)

lemma vmctx_grow_fixed: "vmctx_grow_memory region n v i m = (r, i', m') \<Longrightarrow> inst_fixed i i'"
  by (auto simp: vmctx_grow_memory_def grow_memory_from_hostcall_def grow_memory_def Let_def
      split: rresult.splits if_splits option.splits prod.splits)

lemma yield_fixed: "yield_impl x R bc be v i = Ok i' \<Longrightarrow> inst_fixed i i'"
  by (auto simp: yield_impl_def split: if_splits)

lemma guest_step_fixed: "next_fixed i (guest_step env e i h)"
proof (cases e)
  case (G_Write rip a bs)
  then show ?thesis using guest_signal_fixed by (auto split: rresult.split)
next
  case (G_Signal info uc)
  then show ?thesis using guest_signal_fixed by simp
next
  case (G_Kill uc)
  then show ?thesis using guest_signal_fixed [where i = "i\<lparr>inst_kill_state := snd (disable_termination (inst_kill_state i))\<rparr>"]
    by (auto simp: Let_def split: prod.split kill_action.split)
next
  case (G_HostcallEnter raw)
  then show ?thesis by (auto simp: hostcall_enter_def split: rresult.splits prod.splits)
next
  case G_HostcallReturn
  then show ?thesis by (auto simp: hostcall_return_def instance_terminate_def Let_def split: rresult.splits prod.splits option.splits if_splits)
next
  case (G_HostcallPanic payload)
  then show ?thesis by (simp del: next_inst.simps) (rule hostcall_result_fixed, simp_all split: option.splits)
next
  case (G_HeapBorrow mt)
  then show ?thesis
    by (auto simp: with_vmctx_def split: option.split if_splits elim!: hostcall_result_fixed [rule_format, rotated 2])
next
  case (G_Grow n)
  then show ?thesis
    by (auto simp: with_vmctx_def split: option.split prod.split dest!: vmctx_grow_fixed
        elim!: hostcall_result_fixed [rule_format, rotated 2])
next
  case (G_Yield val R)
  then show ?thesis
    by (auto simp: with_vmctx_def split: option.split intro: yield_fixed elim!: hostcall_result_fixed [rule_format, rotated 2])
next
  case G_BoundExpired
  then show ?thesis
    by (auto simp: with_vmctx_def split: option.split intro: yield_fixed elim!: hostcall_result_fixed [rule_format, rotated 2])
next
  case (G_BlockOn f)
  then show ?thesis
    by (auto simp: with_vmctx_def block_on_start_def split: option.split if_splits state.splits intro: yield_fixed
        elim!: hostcall_result_fixed [rule_format, rotated 2])
next
  case (G_TakeResumed R)
  then show ?thesis
    by (auto simp: with_vmctx_def take_resumed_val_def try_take_resumed_val_def split: option.splits prod.split
        elim!: hostcall_result_fixed [rule_format, rotated 2])
next
  case (G_Return rax rdx fp)
  then show ?thesis by (auto simp: exit_guest_region_def Let_def split: prod.split option.split rresult.split)
qed (auto simp: with_vmctx_def split: option.split)

lemma guest_run_fixed: "guest_run env es i h = Some (r, i', h') \<Longrightarrow> inst_fixed i i'"
proof (induction es arbitrary: i h)
  case (Cons e es)
  show ?case
  proof (cases "guest_step env e i h")
    case (G_Continue i1 h1)
    with Cons guest_step_fixed [where i = i and env = env and e = e and h = h] show ?thesis by (auto intro: inst_fixed_trans)
  qed (use Cons.prems guest_step_fixed [where i = i and env = env and e = e and h = h] in auto)
qed simp

lemma guest_run_shrinks: "guest_run env es i h = Some (r, i', h') \<Longrightarrow> length (rh_guest h') < length es"
proof (induction es arbitrary: i h)
  case (Cons e es)
  then show ?case by (cases "guest_step env e i h") (auto simp: less_Suc_eq simp del: guest_step.simps)
qed simp

section \<open>Calls\<close>

definition idle_host :: "(signal \<Rightarrow> sig_action) \<Rightarrow> panic_hook \<Rightarrow> nat \<times> bool \<Rightarrow> run_host \<Rightarrow> bool" where
  "idle_host sa0 hook0 u h \<longleftrightarrow> rh_current h = None \<and> sig_abs sa0 hook0 u h \<and> altstack_ok h"

text \<open>An instance between two calls.\<close>

fun idle_state :: "state \<Rightarrow> bool" where
  "idle_state NotStarted = True"
| "idle_state Ready = True"
| "idle_state Terminated = True"
| "idle_state (Faulted d _ _) = (\<not> fatal d)"
| "idle_state _ = False"

definition suspended :: "slot \<Rightarrow> inst \<Rightarrow> run_host \<Rightarrow> bool" where
  "suspended s i h \<longleftrightarrow> ks_hostcall (inst_kill_state i) \<and> \<not> rh_at_entry h \<and>
     (\<exists>v. rh_vmctx h = Some (slot_heap s, v)) \<and> inst_entrypoint i \<noteq> None"

text \<open>Looking up the details of the faulting address can fail; the call then returns that error and leaves the state at
  \<open>Transitioning\<close>, in which the instance can only be reset or dropped.\<close>

definition lookup_fails :: "module_ops \<Rightarrow> bool" where
  "lookup_fails mo \<longleftrightarrow> (\<exists>a. \<forall>d. mo_addr_details mo a \<noteq> Ok d)"

definition inst_idle :: "slot \<Rightarrow> inst \<Rightarrow> run_host \<Rightarrow> bool" where
  "inst_idle s i h \<longleftrightarrow> inst_basic s i \<and>
     ((idle_state (inst_state i) \<or> inst_state i = Transitioning \<and> lookup_fails (inst_module i)) \<and> ks_idle (inst_kill_state i) \<or>
      (is_yielded (inst_state i) \<or> is_bound_expired (inst_state i)) \<and> suspended s i h)"

text \<open>How the result of a call and the state of the instance go together.\<close>

fun res_matches :: "module_ops \<Rightarrow> internal_run_result run_res \<Rightarrow> state \<Rightarrow> bool" where
  "res_matches mo (Ok (Normal (Returned _))) st = is_ready st"
| "res_matches mo (Ok (Normal (YieldedResult _))) st = is_yielded st"
| "res_matches mo (Ok InternalBoundExpired) st = is_bound_expired st"
| "res_matches mo (Err e) st =
     ((\<exists>d. e = RuntimeTerminated d) \<and> is_terminated st \<or>
      (\<exists>d info c. e = RuntimeFault d \<and> \<not> fatal d \<and> st = Faulted d info c) \<or>
      st = Transitioning \<and> (\<exists>a. mo_addr_details mo a = Err e))"
| "res_matches mo (Panic p) st =
     (is_fatal st \<or> st = Transitioning \<and> (\<exists>a. mo_addr_details mo a = Panic p) \<or> p = strong_count_panic \<and> is_running st)"

lemma res_matches_started:
  assumes "res_matches mo (Ok x) st"
  shows "\<not> is_not_started st"
proof (cases x)
  case (Normal rr)
  with assms show ?thesis by (cases rr; cases st) simp_all
next
  case InternalBoundExpired
  with assms show ?thesis by (cases st) simp_all
qed

lemma sig_abs_truncate:
  "host.truncate h' = host.truncate h \<Longrightarrow> sig_abs sa0 hook0 u h' = sig_abs sa0 hook0 u h"
  "host.truncate h' = host.truncate h \<Longrightarrow> h_on_altstack h' = h_on_altstack h"
  by (simp_all add: host.truncate_def sig_abs_def arcs_below_def)

lemma more_fields:
  fixes h h' :: run_host
  assumes "host.more h' = host.more h"
  shows "rh_mem h' = rh_mem h \<and> rh_current h' = rh_current h \<and> rh_thread h' = rh_thread h \<and> rh_at_entry h' = rh_at_entry h \<and>
    rh_vmctx h' = rh_vmctx h \<and> rh_taken h' = rh_taken h \<and> rh_guest h' = rh_guest h"
  using assms by (cases h; cases h') simp

text \<open>The value a guest that is resumed takes first, if that is what it does.\<close>

fun take_head :: "any option \<Rightarrow> bool \<Rightarrow> guest_event list \<Rightarrow> any list" where
  "take_head (Some v) False (G_TakeResumed t # es) = (if any_type v = t then [v] else [])"
| "take_head _ _ _ = []"

definition first_taken :: "inst \<Rightarrow> run_host \<Rightarrow> any list" where
  "first_taken i h = take_head (inst_resumed_val i) (rh_at_entry h) (rh_guest h)"

lemma take_head_cases:
  "take_head rv entry es = [] \<or>
   (\<exists>v es'. take_head rv entry es = [v] \<and> es = G_TakeResumed (any_type v) # es' \<and> rv = Some v \<and> \<not> entry)"
  by (cases "(rv, entry, es)" rule: take_head.cases) auto

lemma first_taken_cases:
  obtains "first_taken i h = []"
  | v es where "first_taken i h = [v]" and "rh_guest h = G_TakeResumed (any_type v) # es" and "inst_resumed_val i = Some v"
    and "\<not> rh_at_entry h"
  using take_head_cases [of "inst_resumed_val i" "rh_at_entry h" "rh_guest h"] unfolding first_taken_def by blast

lemma guest_take_first:
  assumes "rh_vmctx h = Some (raw, v)" and "inst_resumed_val i = Some val"
  shows "guest_step env (G_TakeResumed (any_type val)) i h =
    G_Continue (i\<lparr>inst_resumed_val := None\<rparr>) (h\<lparr>rh_taken := val # rh_taken h\<rparr>)"
  using assms by (simp add: with_vmctx_def take_resumed_val_def try_take_resumed_val_def hostcall_result_def)

lemma guest_run_takes:
  assumes "region_internal (e_region env)" and "running_ok s True i h" and "guest_wf (slot_heap s) True (rh_guest h)"
    and "guest_run env (rh_guest h) i h = Some (r, i', h')"
  shows "\<exists>ts. rh_taken h' = ts @ first_taken i h @ rh_taken h"
proof (cases rule: first_taken_cases [of i h])
  case 1
  with guest_run_ok [OF assms] show ?thesis by (auto simp: host_kept_def)
next
  case (2 v es)
  obtain vm where vm: "rh_vmctx h = Some (slot_heap s, vm)" using assms(2) by (auto simp: running_ok_def)
  note tk = guest_take_first [OF vm 2(3), of env]
  have "next_ok s True h (guest_step env (G_TakeResumed (any_type v)) i h)" by (rule guest_vmctx_ok [OF assms(1,2)])
  then have ru: "running_ok s True (i\<lparr>inst_resumed_val := None\<rparr>) (h\<lparr>rh_taken := v # rh_taken h\<rparr>)" unfolding tk by simp
  have "guest_wf (slot_heap s) True es" using assms(3) 2 by simp
  moreover have "guest_run env es (i\<lparr>inst_resumed_val := None\<rparr>) (h\<lparr>rh_taken := v # rh_taken h\<rparr>) = Some (r, i', h')"
    using assms(4) 2 tk by (simp del: guest_step.simps)
  ultimately have "host_kept (h\<lparr>rh_taken := v # rh_taken h\<rparr>) h'" using guest_run_ok [OF assms(1) ru] by blast
  with 2 show ?thesis by (auto simp: host_kept_def)
qed

text \<open>What a switch into the guest needs: a fresh entry, or a guest suspended in a hostcall.\<close>

definition enters :: "slot \<Rightarrow> inst \<Rightarrow> run_host \<Rightarrow> bool" where
  "enters s i h \<longleftrightarrow>
     rh_at_entry h \<and> ks_idle (inst_kill_state i) \<and> guest_wf (slot_heap s) False (rh_guest h) \<or>
     \<not> rh_at_entry h \<and> ks_hostcall (inst_kill_state i) \<and> (\<exists>v. rh_vmctx h = Some (slot_heap s, v)) \<and>
       guest_wf (slot_heap s) True (rh_guest h)"

abbreviation scheduled :: "bool \<Rightarrow> nat \<Rightarrow> inst \<Rightarrow> inst" where
  "scheduled async t i \<equiv> i\<lparr>inst_state := Running async, inst_kill_state := schedule t (inst_kill_state i)\<rparr>"

abbreviation descheduled :: "inst \<Rightarrow> inst" where
  "descheduled i \<equiv> i\<lparr>inst_kill_state := deschedule (inst_kill_state i)\<rparr>"

lemma enters_kept: "enters s i h \<Longrightarrow> host.more h' = host.more (h\<lparr>rh_current := c\<rparr>) \<Longrightarrow> enters s (scheduled async t i) h'"
  using more_fields [of h' "h\<lparr>rh_current := c\<rparr>"]
  by (auto simp: enters_def ks_idle_def ks_hostcall_def schedule_def)

lemma swap_to_guest_ok:
  assumes "region_internal (e_region env)" and "inst_basic s i" and "is_running (inst_state i) \<and> inst_entrypoint i \<noteq> None"
    and "ks_thread_id (inst_kill_state i) \<noteq> None" and "rh_current h = Some (slot_start s)" and "enters s i h"
    and "swap_to_guest env i h = Some (r, i', h')"
  shows "left_or_raced s r i' h' \<and> inst_fixed i i' \<and> host.truncate h' = host.truncate h \<and> \<not> rh_at_entry h' \<and>
    (\<exists>ts. rh_taken h' = ts @ first_taken i h @ rh_taken h) \<and> rw_kept (rh_mem h) (rh_mem h')"
proof (cases "rh_at_entry h")
  case False
  then have ru: "running_ok s True i h" and wf: "guest_wf (slot_heap s) True (rh_guest h)"
    using assms(2-6) by (auto simp: running_ok_def enters_def)
  have run: "guest_run env (rh_guest h) i h = Some (r, i', h')" using assms(7) False by (simp add: swap_to_guest_def)
  from guest_run_ok [OF assms(1) ru wf run] guest_run_takes [OF assms(1) ru wf run] guest_run_fixed [OF run] False show ?thesis
    by (auto simp: host_kept_def)
next
  case True
  have none: "first_taken i h = []" using True by (cases rule: first_taken_cases [of i h]) auto
  let ?h = "h\<lparr>rh_at_entry := False, rh_vmctx := None\<rparr>"
  have idle: "ks_idle (inst_kill_state i)" and wf: "guest_wf (slot_heap s) False (rh_guest h)" using assms(6) True by (auto simp: enters_def)
  show ?thesis
  proof (cases "ks_domain (inst_kill_state i) = D_Pending")
    case pend: True
    let ?i = "i\<lparr>inst_kill_state := (inst_kill_state i)\<lparr>ks_domain := D_Guest\<rparr>\<rparr>"
    have ru: "running_ok s False ?i ?h" using assms(2-5) idle pend by (auto simp: running_ok_def ks_idle_def)
    have run: "guest_run env (rh_guest h) ?i ?h = Some (r, i', h')"
      using assms(7) True pend by (simp add: swap_to_guest_def enter_guest_region_def)
    from guest_run_ok [OF assms(1) ru wf run] guest_run_fixed [OF run] none show ?thesis by (auto simp: host_kept_def host.truncate_def)
  next
    case False
    then have "ks_domain (inst_kill_state i) = D_Cancelled" using idle by (auto simp: ks_idle_def)
    then show ?thesis using assms(2,3,5,7) True none
      by (auto simp: swap_to_guest_def enter_guest_region_def instance_terminate_def left_or_raced_def left_ok_def host.truncate_def)
  qed
qed

text \<open>What the host makes of the guest's run: it does not come back, a panic goes through, and otherwise the instance is
  descheduled and its state evaluated, with the handlers restored and no current instance.\<close>

definition host_returns ::
  "(run_host \<Rightarrow> bool) \<Rightarrow> (unit run_res \<times> inst \<times> run_host) option \<Rightarrow> (internal_run_result run_res \<times> inst \<times> run_host) option \<Rightarrow> bool" where
  "host_returns idle g res \<longleftrightarrow>
     (case g of
        None \<Rightarrow> res = None
      | Some (Panic p, i1, h1) \<Rightarrow> res = Some (Panic p, i1, h1)
      | Some (Err e, i1, h1) \<Rightarrow> False
      | Some (Ok _, i1, h1) \<Rightarrow>
          \<exists>h'. res = Some (fst (finish_swap (descheduled i1)), snd (finish_swap (descheduled i1)), h') \<and>
            host.more h' = host.more (h1\<lparr>rh_current := None\<rparr>) \<and> idle h')"

lemma host_returns_Some:
  assumes "host_returns idle g res" and "g \<noteq> None"
  shows "\<exists>r i h. res = Some (r, i, h)"
proof -
  obtain q i h where "g = Some (q, i, h)" using assms(2) by auto
  then show ?thesis using assms(1) by (cases q) (auto simp: host_returns_def)
qed

lemma swap_and_return_via:
  assumes region: "region_internal (e_region env)" and b: "inst_basic s i" and ep: "inst_entrypoint i = Some func"
    and can: "can_swap (is_start_func func) (inst_state i)" and host: "idle_host sa0 hook0 (n, b) h" and mode: "enters s i h"
  obtains h2 where "host.more h2 = host.more (h\<lparr>rh_current := Some (slot_start s)\<rparr>)"
    and "host_returns (idle_host sa0 hook0 (n, b)) (swap_to_guest env (scheduled async (rh_thread h) i) h2)
      (swap_and_return env async i h)"
proof -
  let ?i = "scheduled async (rh_thread h) i"
  let ?h = "h\<lparr>rh_current := Some (slot_start s)\<rparr>"
  have slot: "alloc_slot_opt (inst_alloc ?i) = Some s" and want: "wants_signals ?i"
    and size: "MINSIGSTKSZ \<le> signal_stack_size (slot_limits s)" and cur: "rh_current h = None"
    and ptr: "inst_ptr (i\<lparr>inst_state := Running async\<rparr>) = slot_start s"
    using b host by (simp_all add: inst_basic_def inst_ptr_def wants_signals_def idle_host_def)
  have ab: "sig_abs sa0 hook0 (n, b) ?h" "altstack_ok ?h"
    using host by (simp_all add: idle_host_def sig_abs_def arcs_below_def altstack_ok_def)
  obtain h2 where h2: "sig_abs sa0 hook0 (n + 1, b) h2" "\<not> h_on_altstack h2" "host.more h2 = host.more ?h"
    and none: "swap_to_guest env ?i h2 = None \<Longrightarrow> with_signals_on (swap_to_guest env) ?i ?h = None"
    and panic: "\<And>p i' h3. swap_to_guest env ?i h2 = Some (Panic p, i', h3) \<Longrightarrow>
      with_signals_on (swap_to_guest env) ?i ?h = Some (Panic p, i', h3)"
    and some: "\<And>r i' h3. swap_to_guest env ?i h2 = Some (r, i', h3) \<Longrightarrow> (\<forall>p. r \<noteq> Panic p) \<Longrightarrow>
      sig_abs sa0 hook0 (n + 1, b) h3 \<Longrightarrow> \<not> h_on_altstack h3 \<Longrightarrow> wants_signals i' \<Longrightarrow>
      \<exists>h'. with_signals_on (swap_to_guest env) ?i ?h = Some (r, i', h') \<and> sig_abs sa0 hook0 (n, b) h' \<and> altstack_ok h' \<and>
        h_altstack h' = h_altstack ?h \<and> host.more h' = host.more h3"
    by (rule with_signals_run [OF ab want slot size, of "swap_to_guest env"]) (rule that)
  note e2 = more_fields [OF h2(3)]
  have sar: "swap_and_return env async i h =
      (case with_current_instance (with_signals_on (swap_to_guest env)) (i\<lparr>inst_state := Running async\<rparr>) h of
         None \<Rightarrow> None
       | Some (Ok _, i', h') \<Rightarrow> (case finish_swap i' of (r, i'') \<Rightarrow> Some (r, i'', h'))
       | Some (Err e, i', h') \<Rightarrow> Some (Err e, if is_running (inst_state i')
           then i'\<lparr>inst_state := if is_start_func func then NotStarted else Ready\<rparr> else i', h')
       | Some (Panic p, i', h') \<Rightarrow> Some (Panic p, i', h'))" using ep can by (simp add: swap_and_return_def)
  note wc = with_current_instance_def [of "with_signals_on (swap_to_guest env)" "i\<lparr>inst_state := Running async\<rparr>" h]
  have "host_returns (idle_host sa0 hook0 (n, b)) (swap_to_guest env ?i h2) (swap_and_return env async i h)"
  proof (cases "swap_to_guest env ?i h2")
    case None
    with none cur ptr show ?thesis by (simp add: sar wc host_returns_def)
  next
    case (Some x)
    obtain q i1 h3 where sw: "swap_to_guest env ?i h2 = Some (q, i1, h3)" using Some by (cases x) auto
    have ok: "left_or_raced s q i1 h3 \<and> inst_fixed ?i i1 \<and> host.truncate h3 = host.truncate h2 \<and> \<not> rh_at_entry h3 \<and>
        (\<exists>ts. rh_taken h3 = ts @ first_taken ?i h2 @ rh_taken h2) \<and> rw_kept (rh_mem h2) (rh_mem h3)"
      by (rule swap_to_guest_ok [OF region _ _ _ _ _ sw])
        (use b ep e2 enters_kept [OF mode h2(3)] in \<open>simp_all add: schedule_def\<close>)
    show ?thesis
    proof (cases "\<exists>p. q = Panic p")
      case True
      with panic sw cur ptr show ?thesis by (auto simp: sar wc host_returns_def)
    next
      case False
      then have q: "q = Ok ()" and lo: "left_ok s i1 h3" using ok by (auto simp: left_or_raced_def)
      have tr: "host.truncate h3 = host.truncate h2" using ok by blast
      have "wants_signals i1" using lo by (simp add: left_ok_def inst_basic_def)
      then obtain h4 where ws: "with_signals_on (swap_to_guest env) ?i ?h = Some (Ok (), i1, h4)"
        and ab4: "sig_abs sa0 hook0 (n, b) h4" "altstack_ok h4" and m4: "host.more h4 = host.more h3"
        using some [OF sw] q sig_abs_truncate [OF tr] h2(1,2) by auto
      have "swap_and_return env async i h =
          Some (fst (finish_swap (descheduled i1)), snd (finish_swap (descheduled i1)), h4\<lparr>rh_current := None\<rparr>)"
        using ws cur ptr by (simp add: sar wc split: prod.split)
      moreover have "host.more (h4\<lparr>rh_current := None\<rparr>) = host.more (h3\<lparr>rh_current := None\<rparr>)" using m4 by (cases h3; cases h4) simp
      moreover have "idle_host sa0 hook0 (n, b) (h4\<lparr>rh_current := None\<rparr>)"
        using ab4 by (simp add: idle_host_def sig_abs_def arcs_below_def altstack_ok_def)
      ultimately show ?thesis using sw q by (auto simp: host_returns_def)
    qed
  qed
  with h2(3) that show thesis by blast
qed

lemma finish_swap_ok:
  assumes lo: "left_ok s i1 h" and at: "\<not> rh_at_entry h" and fs: "finish_swap (descheduled i1) = (r, i')"
    and h': "host.more h' = host.more (h\<lparr>rh_current := None\<rparr>)"
  shows "res_matches (inst_module i') r (inst_state i') \<and> inst_fixed i1 i' \<and> ((\<forall>p. r \<noteq> Panic p) \<longrightarrow> inst_idle s i' h')"
proof -
  have b: "inst_basic s i1" using lo by (simp add: left_ok_def)
  note f = more_fields [OF h']
  have new: "ks_idle kill_state_new" by (simp add: ks_idle_def kill_state_new_def)
  have des: "ks_hostcall (deschedule ks)" if "ks_hostcall ks" for ks
    using that by (auto simp: ks_hostcall_def deschedule_def deschedule_tid_def deschedule_domain_def)
  show ?thesis
  proof (cases "inst_state i1")
    case (Running a)
    then show ?thesis using fs b new
      by (auto simp: finish_swap_def get_untyped_retval_def get_retval_gp_def inst_idle_def)
  next
    case (Faulted d info c)
    then show ?thesis using fs b new
      by (cases "mo_addr_details (inst_module i1) (rip_addr d)")
        (auto simp: finish_swap_def inst_idle_def lookup_fails_def Let_def split: if_splits intro: exI [of _ "rip_addr d"])
  next
    case (Terminating d)
    then show ?thesis using fs b new by (auto simp: finish_swap_def inst_idle_def)
  next
    case (Yielding v e)
    then show ?thesis using fs b des lo at f by (auto simp: finish_swap_def inst_idle_def left_ok_def suspended_def)
  next
    case BoundExpired
    then show ?thesis using fs b des lo at f by (auto simp: finish_swap_def inst_idle_def left_ok_def suspended_def)
  qed (use lo in \<open>simp_all add: left_ok_def\<close>)
qed

lemma swap_and_return_ok:
  assumes region: "region_internal (e_region env)" and b: "inst_basic s i"
    and ep: "inst_entrypoint i = Some func" and can: "can_swap (is_start_func func) (inst_state i)"
    and host: "idle_host sa0 hook0 (n, b) h" and mode: "enters s i h"
    and run: "swap_and_return env async i h = Some (r, i', h')"
  shows "(r \<noteq> Panic strong_count_panic \<longrightarrow> idle_host sa0 hook0 (n, b) h') \<and> res_matches (inst_module i') r (inst_state i') \<and> inst_fixed i i' \<and>
    ((\<forall>p. r \<noteq> Panic p) \<longrightarrow> inst_idle s i' h') \<and>
    (\<exists>ts. rh_taken h' = ts @ first_taken i h @ rh_taken h) \<and> rw_kept (rh_mem h) (rh_mem h')"
proof -
  let ?i = "scheduled async (rh_thread h) i"
  obtain h2 where h2: "host.more h2 = host.more (h\<lparr>rh_current := Some (slot_start s)\<rparr>)"
    and via: "host_returns (idle_host sa0 hook0 (n, b)) (swap_to_guest env ?i h2) (swap_and_return env async i h)"
    by (rule swap_and_return_via [OF region b ep can host mode])
  note e2 = more_fields [OF h2]
  obtain q i1 h3 where sw: "swap_to_guest env ?i h2 = Some (q, i1, h3)"
    using via run by (cases "swap_to_guest env ?i h2") (auto simp: host_returns_def)
  have ok: "left_or_raced s q i1 h3 \<and> inst_fixed ?i i1 \<and> host.truncate h3 = host.truncate h2 \<and> \<not> rh_at_entry h3 \<and>
      (\<exists>ts. rh_taken h3 = ts @ first_taken ?i h2 @ rh_taken h2) \<and> rw_kept (rh_mem h2) (rh_mem h3)"
    by (rule swap_to_guest_ok [OF region _ _ _ _ _ sw])
      (use b ep e2 enters_kept [OF mode h2] in \<open>simp_all add: schedule_def\<close>)
  have ft: "first_taken ?i h2 = first_taken i h" using e2 by (simp add: first_taken_def)
  show ?thesis
  proof (cases "q = Ok ()")
    case False
    then have "r = Panic strong_count_panic" "i' = i1" "h' = h3" "exit_raced i1" using ok via run sw
      by (auto simp: left_or_raced_def host_returns_def)
    with ok ft e2 show ?thesis by (auto simp: exit_raced_def)
  next
    case True
    then have fs: "finish_swap (descheduled i1) = (r, i')" and h': "host.more h' = host.more (h3\<lparr>rh_current := None\<rparr>)"
      and idle: "idle_host sa0 hook0 (n, b) h'" and lo: "left_ok s i1 h3"
      using ok via run sw by (auto simp: left_or_raced_def host_returns_def)
    from finish_swap_ok [OF lo _ fs h'] more_fields [OF h'] ok ft e2 idle show ?thesis by (auto dest: inst_fixed_trans)
  qed
qed

section \<open>Entering a function\<close>

definition stack_rw :: "slot \<Rightarrow> memory \<Rightarrow> bool" where
  "stack_rw s m \<longleftrightarrow> (\<forall>a. in_range (slot_stack s) (stack_size (slot_limits s)) a \<longrightarrow> mem_prot m a = ProtReadWrite)"

lemma stack_rw_kept: "stack_rw s m \<Longrightarrow> rw_kept m m' \<Longrightarrow> stack_rw s m'"
  by (simp add: stack_rw_def rw_kept_def)

lemma length_words_bytes [simp]: "length (words_bytes ws) = 8 * length ws"
  by (induction ws) (simp_all add: words_bytes_def)

lemma stack_words:
  assumes "slot_wf s"
  defines "n \<equiv> unat (stack_size (slot_limits s) div 8)"
  shows "8 * n = unat (stack_size (slot_limits s))" and "0 < n"
    and "slot_stack s + 8 * of_nat n = slot_globals s" and "slot_stack s mod 8 = 0" and "stack_size (slot_limits s) mod 8 = 0"
proof -
  note al = slot_wf_aligned [OF assms(1)]
  have "4096 dvd unat (stack_size (slot_limits s))" "4096 dvd unat (slot_stack s)"
    using al by (simp_all add: page_aligned_unat mod_eq_0_iff_dvd)
  then have d: "8 dvd unat (stack_size (slot_limits s))" "8 dvd unat (slot_stack s)" by (auto elim: dvd_trans [rotated])
  show n: "8 * n = unat (stack_size (slot_limits s))" using d(1) by (simp add: n_def unat_div)
  have "stack_size (slot_limits s) \<noteq> 0" using assms(1) by (auto simp: slot_wf_def validate_Ok_iff)
  then have "unat (stack_size (slot_limits s)) \<noteq> 0" by (simp add: unat_eq_zero)
  then show "0 < n" using n by (cases n) auto
  have "8 * of_nat n = (of_nat (8 * n) :: u64)" by simp
  then have "8 * of_nat n = stack_size (slot_limits s)" unfolding n by simp
  then show "slot_stack s + 8 * of_nat n = slot_globals s" using assms(1) by (simp add: slot_wf_def)
  show "slot_stack s mod 8 = 0" "stack_size (slot_limits s) mod 8 = 0"
    using d by (simp_all add: word_arith_nat_mod)
qed

lemma init_guest_context_ok:
  assumes b: "inst_basic s i" and rw: "stack_rw s (rh_mem h)"
    and fits: "frame_size args + 9 \<le> unat (stack_size (slot_limits s) div 8)"
  shows "\<exists>c m. init_guest_context env func args i h = (Ok (), i\<lparr>inst_ctx := c\<rparr>, h\<lparr>rh_mem := m\<rparr>) \<and>
    mem_prot m = mem_prot (rh_mem h) \<and>
    rsp (gpr c) = slot_stack s + 8 * of_nat (unat (stack_size (slot_limits s) div 8) - (frame_size args + 9))"
proof -
  let ?n = "unat (stack_size (slot_limits s) div 8)"
  have slot: "alloc_slot_opt (inst_alloc i) = Some s" and wf: "slot_wf s"
    using b by (auto simp: inst_basic_def alloc_inv_def)
  note w = stack_words [OF wf]
  let ?ws = "read_words (slot_stack s) ?n (rh_mem h)"
  have len: "length ?ws = ?n" by (simp add: read_words_def)
  have "4096 dvd unat (slot_globals s)" using slot_wf_aligned [OF wf] by (simp add: page_aligned_unat mod_eq_0_iff_dvd)
  then have "16 dvd unat (slot_globals s)" by (auto elim: dvd_trans [rotated])
  then have g16: "slot_globals s mod 16 = 0" by (simp add: word_arith_nat_mod)
  have "slot_stack s + 8 * of_nat (?n - 1) + 8 = slot_globals s"
    using w(2,3) by (simp add: of_nat_diff algebra_simps)
  then have al: "stack_is_aligned (slot_stack s) ?ws = Ok True"
    using g16 w(2) len by (simp add: stack_is_aligned_def Let_def)
  obtain c ws' where ini: "init_with_callback (e_syms env) (slot_stack s) (inst_ptr i + e_ctx_offset env) ?ws (inst_ctx i)
      (BackstopAt (e_exit_guest env)) (inst_ptr i) (fh_ptr func) args = Ok (c, ws')" and l': "length ws' = ?n"
    and sp: "rsp (gpr c) = slot_stack s + 8 * of_nat (?n - (frame_size args + 9))"
    using init_with_callback_Ok [OF al, unfolded len, OF fits, where syms = "e_syms env" and
        ca = "inst_ptr i + e_ctx_offset env" and child = "inst_ctx i" and cb = "BackstopAt (e_exit_guest env)" and
        d = "inst_ptr i" and fptr = "fh_ptr func"] by blast
  have "mem_prot (rh_mem h) (slot_stack s + of_nat k) = ProtReadWrite" if "k < 8 * ?n" for k
  proof -
    have "unat (of_nat k :: u64) = k" using that w(1) unat_lt64 [of "stack_size (slot_limits s)"]
      by (simp add: unat_of_nat del: unat_lt64)
    then show ?thesis using that w(1) rw in_range_offset [of "of_nat k" "stack_size (slot_limits s)" "slot_stack s"]
      by (simp add: stack_rw_def)
  qed
  then obtain m where st: "store_bytes (slot_stack s) (words_bytes ws') (rh_mem h) = Ok m"
    using l' by (simp add: store_bytes_Ok)
  then have "init_guest_context env func args i h = (Ok (), i\<lparr>inst_ctx := c\<rparr>, h\<lparr>rh_mem := m\<rparr>)"
    using slot w(4,5) ini by (simp add: init_guest_context_def stack_u64_mut_def alloc_slot_def)
  with sp store_prot [OF st] show ?thesis by blast
qed

lemma install_activator_ok:
  assumes "inst_basic s i" and rw: "stack_rw s (rh_mem h)" and fits: "k + 9 \<le> unat (stack_size (slot_limits s) div 8)"
    and sp: "rsp (gpr (inst_ctx i)) = slot_stack s + 8 * of_nat (unat (stack_size (slot_limits s) div 8) - (k + 9))"
  shows "\<exists>c m. install_activator env i h = (Ok (), i\<lparr>inst_ctx := c\<rparr>, h\<lparr>rh_mem := m, rh_at_entry := True\<rparr>) \<and>
    mem_prot m = mem_prot (rh_mem h)"
proof -
  let ?n = "unat (stack_size (slot_limits s) div 8)" and ?a = "rsp (gpr (inst_ctx i))"
  have "slot_wf s" using assms(1) by (auto simp: inst_basic_def alloc_inv_def)
  note w = stack_words [OF this]
  have "mem_prot (rh_mem h) (?a + of_nat j) = ProtReadWrite" if "j < 8" for j
  proof -
    let ?o = "8 * (?n - (k + 9)) + j"
    have o: "?o < 8 * ?n" using that fits by simp
    have "unat (of_nat ?o :: u64) = ?o" using o w(1) unat_lt64 [of "stack_size (slot_limits s)"]
      by (simp add: unat_of_nat del: unat_lt64 of_nat_add of_nat_mult)
    moreover have "?a + of_nat j = slot_stack s + of_nat ?o" by (simp add: sp)
    ultimately show ?thesis using o w(1) rw in_range_offset [of "of_nat ?o" "stack_size (slot_limits s)" "slot_stack s"]
      by (simp add: stack_rw_def del: of_nat_add of_nat_mult)
  qed
  then obtain m where st: "store_bytes ?a (word_bytes 8 (e_activate env)) (rh_mem h) = Ok m" by (simp add: store_bytes_Ok)
  with store_prot [OF st] show ?thesis by (auto simp: install_activator_def Let_def)
qed

definition bound_ok :: "u64 option \<Rightarrow> bool" where
  "bound_ok b \<longleftrightarrow> (\<forall>n. b = Some n \<longrightarrow> unat n < 2 ^ 63)"

lemma bound_delta_ok:
  "bound_ok d \<Longrightarrow> \<exists>im. set_instruction_bound_delta d i = Ok (i\<lparr>inst_implicits := im\<rparr>)"
proof -
  assume ok: "bound_ok d"
  let ?d = "case d of None \<Rightarrow> 2 ^ 63 - 1 | Some n \<Rightarrow> n"
  have "unat ?d < 2 ^ 63" using ok by (cases d) (simp_all add: bound_ok_def)
  then have "i64_expect ''delta too large'' ?d = Ok ?d" unfolding i64_expect_def by (rule if_P)
  then show ?thesis unfolding set_instruction_bound_delta_def Let_def by (simp only: rbind.simps) blast
qed

text \<open>Past its checks, \<open>run_func\<close> prepares the guest's stack and switches.\<close>

lemma run_func_enters:
  assumes b: "inst_basic s i" and rw: "stack_rw s (rh_mem h)" and bd: "bound_ok bound"
    and chk: "run_func_check func args i = Ok ()"
    and fits: "frame_size (CPtr (slot_heap s) # args) + 9 \<le> unat (stack_size (slot_limits s) div 8)"
  shows "\<exists>im c m. run_func env func args async bound i h =
      swap_and_return env async (i\<lparr>inst_entrypoint := Some func, inst_implicits := im, inst_ctx := c\<rparr>)
        (h\<lparr>rh_mem := m, rh_at_entry := True\<rparr>) \<and> mem_prot m = mem_prot (rh_mem h)"
proof -
  let ?i = "i\<lparr>inst_entrypoint := Some func\<rparr>" and ?args = "CPtr (slot_heap s) # args"
  have slot: "alloc_slot (inst_alloc ?i) = Ok s" using b by (simp add: inst_basic_def alloc_slot_def)
  obtain im where im: "set_instruction_bound_delta bound ?i = Ok (?i\<lparr>inst_implicits := im\<rparr>)" using bound_delta_ok [OF bd] by blast
  have b': "inst_basic s (?i\<lparr>inst_implicits := im\<rparr>)" using b by simp
  obtain c m where ini: "init_guest_context env func ?args (?i\<lparr>inst_implicits := im\<rparr>) h =
      (Ok (), ?i\<lparr>inst_implicits := im, inst_ctx := c\<rparr>, h\<lparr>rh_mem := m\<rparr>)" and k1: "mem_prot m = mem_prot (rh_mem h)"
    and sp: "rsp (gpr c) = slot_stack s + 8 * of_nat (unat (stack_size (slot_limits s) div 8) - (frame_size ?args + 9))"
    using init_guest_context_ok [OF b' rw fits, of env func] by auto
  let ?i1 = "?i\<lparr>inst_implicits := im, inst_ctx := c\<rparr>" and ?h1 = "h\<lparr>rh_mem := m\<rparr>"
  have b1: "inst_basic s ?i1" and rw1: "stack_rw s (rh_mem ?h1)" and sp1: "rsp (gpr (inst_ctx ?i1)) =
      slot_stack s + 8 * of_nat (unat (stack_size (slot_limits s) div 8) - (frame_size ?args + 9))"
    using b sp rw k1 by (simp_all add: stack_rw_def)
  obtain c' m' where act: "install_activator env ?i1 ?h1 = (Ok (), ?i1\<lparr>inst_ctx := c'\<rparr>, ?h1\<lparr>rh_mem := m', rh_at_entry := True\<rparr>)"
    and k2: "mem_prot m' = mem_prot m" using install_activator_ok [OF b1 rw1 fits sp1, of env] by auto
  have "run_func env func args async bound i h = swap_and_return env async (?i1\<lparr>inst_ctx := c'\<rparr>) (?h1\<lparr>rh_mem := m', rh_at_entry := True\<rparr>)"
    using chk slot im ini act by (simp add: run_func_def)
  then show ?thesis using k1 k2
    by (intro exI [of _ im] exI [of _ c'] exI [of _ m']) simp
qed

section \<open>Calls of an idle instance\<close>

definition life_ok ::
  "(signal \<Rightarrow> sig_action) \<Rightarrow> panic_hook \<Rightarrow> nat \<times> bool \<Rightarrow> slot \<Rightarrow> inst \<Rightarrow> run_host \<Rightarrow> bool" where
  "life_ok sa0 hook0 u s i h \<longleftrightarrow> inst_idle s i h \<and> idle_host sa0 hook0 u h \<and> stack_rw s (rh_mem h)"

abbreviation args_fit :: "slot \<Rightarrow> val list \<Rightarrow> bool" where
  "args_fit s args \<equiv> frame_size (CPtr (slot_heap s) # args) + 9 \<le> unat (stack_size (slot_limits s) div 8)"

lemma inst_idle_guest [simp]: "inst_idle s i (h\<lparr>rh_guest := es\<rparr>) = inst_idle s i h"
  by (simp add: inst_idle_def suspended_def)

lemma life_ok_guest [simp]: "life_ok sa0 hook0 u s i (h\<lparr>rh_guest := es\<rparr>) = life_ok sa0 hook0 u s i h"
  by (simp add: life_ok_def idle_host_def sig_abs_def arcs_below_def altstack_ok_def)

lemma check_Ok_state:
  "run_func_check func args i = Ok u \<Longrightarrow>
     can_swap (is_start_func func) (inst_state i) \<and> \<not> is_yielded (inst_state i) \<and> \<not> is_bound_expired (inst_state i)"
  by (cases "inst_state i") (auto simp: run_func_check_def can_swap_def Let_def split: if_splits)

text \<open>The instance and the host when the guest is about to be entered.\<close>

abbreviation enter_inst :: "function_handle \<Rightarrow> instance_runtime_data \<Rightarrow> ctx \<Rightarrow> inst \<Rightarrow> inst" where
  "enter_inst func im c i \<equiv> i\<lparr>inst_entrypoint := Some func, inst_implicits := im, inst_ctx := c\<rparr>"

abbreviation enter_host :: "memory \<Rightarrow> run_host \<Rightarrow> run_host" where
  "enter_host m h \<equiv> h\<lparr>rh_mem := m, rh_at_entry := True\<rparr>"

lemma run_func_entry:
  assumes "life_ok sa0 hook0 (n, b) s i h" and "guest_wf (slot_heap s) False (rh_guest h)" and "args_fit s args" and "bound_ok bound"
    and "run_func_check func args i = Ok ()"
  obtains im c m where "run_func env func args async bound i h = swap_and_return env async (enter_inst func im c i) (enter_host m h)"
    and "mem_prot m = mem_prot (rh_mem h)" and "inst_basic s (enter_inst func im c i)"
    and "can_swap (is_start_func func) (inst_state (enter_inst func im c i))"
    and "idle_host sa0 hook0 (n, b) (enter_host m h)" and "enters s (enter_inst func im c i) (enter_host m h)"
    and "ks_idle (inst_kill_state i)"
proof -
  have idle: "inst_idle s i h" and host: "idle_host sa0 hook0 (n, b) h" and rw: "stack_rw s (rh_mem h)"
    using assms(1) by (simp_all add: life_ok_def)
  then have bs: "inst_basic s i" by (simp add: inst_idle_def)
  note st = check_Ok_state [OF assms(5)]
  then have ks: "ks_idle (inst_kill_state i)" using idle by (auto simp: inst_idle_def)
  obtain im c m where "run_func env func args async bound i h = swap_and_return env async (enter_inst func im c i) (enter_host m h)"
    and "mem_prot m = mem_prot (rh_mem h)" using run_func_enters [OF bs rw assms(4,5,3)] by blast
  moreover have "idle_host sa0 hook0 (n, b) (enter_host m h)"
    using host by (simp add: idle_host_def sig_abs_def arcs_below_def altstack_ok_def)
  ultimately show thesis using bs st ks assms(2) by (intro that [where im = im and c = c and m = m]) (simp_all add: enters_def)
qed

lemma run_func_life:
  assumes "region_internal (e_region env)" and "life_ok sa0 hook0 (n, b) s i h" and "guest_wf (slot_heap s) False (rh_guest h)"
    and "args_fit s args" and "bound_ok bound" and "run_func_check func args i = Ok ()"
    and "run_func env func args async bound i h = Some (r, i', h')"
  shows "(r \<noteq> Panic strong_count_panic \<longrightarrow> idle_host sa0 hook0 (n, b) h') \<and>
    res_matches (inst_module i) r (inst_state i') \<and> inst_module i' = inst_module i \<and>
    ((\<forall>p. r \<noteq> Panic p) \<longrightarrow> life_ok sa0 hook0 (n, b) s i' h')"
proof -
  obtain im c m where eq: "run_func env func args async bound i h = swap_and_return env async (enter_inst func im c i) (enter_host m h)"
    and pr: "mem_prot m = mem_prot (rh_mem h)" and bs: "inst_basic s (enter_inst func im c i)"
    and can: "can_swap (is_start_func func) (inst_state (enter_inst func im c i))"
    and host: "idle_host sa0 hook0 (n, b) (enter_host m h)" and mode: "enters s (enter_inst func im c i) (enter_host m h)"
    by (rule run_func_entry [OF assms(2-6), of env async])
  have sw: "swap_and_return env async (enter_inst func im c i) (enter_host m h) = Some (r, i', h')" using assms(7) eq by simp
  have "stack_rw s m" using assms(2) pr by (simp add: life_ok_def stack_rw_def)
  with swap_and_return_ok [OF assms(1) bs _ can host mode sw] show ?thesis
    by (auto simp: life_ok_def inst_fixed_def intro: stack_rw_kept)
qed

text \<open>The guest in a call: it runs from its first event, unless the instance was cancelled.\<close>

lemma run_func_via:
  assumes region: "region_internal (e_region env)" and life: "life_ok sa0 hook0 (n, b) s i h"
    and wf: "guest_wf (slot_heap s) False (rh_guest h)" and fit: "args_fit s args" and bound: "bound_ok bound"
    and chk: "run_func_check func args i = Ok ()"
  obtains (entered) i0 h0 where "ks_domain (inst_kill_state i) = D_Pending" and "running_ok s False i0 h0"
      and "inst_fixed (i\<lparr>inst_entrypoint := Some func\<rparr>) i0" and "ks_upgraded (inst_kill_state i0) = ks_upgraded (inst_kill_state i)"
      and "is_running_async (inst_state i0) = async" and "inst_embed_ctx i0 = inst_embed_ctx i"
      and "mem_prot (rh_mem h0) = mem_prot (rh_mem h)" and "rh_taken h0 = rh_taken h"
      and "host_returns (idle_host sa0 hook0 (n, b)) (guest_run env (rh_guest h) i0 h0) (run_func env func args async bound i h)"
  | (cancelled) i' h' where "ks_domain (inst_kill_state i) = D_Cancelled" and "rh_guest h' = rh_guest h"
      and "run_func env func args async bound i h = Some (Err (RuntimeTerminated TD_Remote), i', h')" and "inst_state i' = Terminated"
proof -
  obtain im c m where eq: "run_func env func args async bound i h = swap_and_return env async (enter_inst func im c i) (enter_host m h)"
    and pr: "mem_prot m = mem_prot (rh_mem h)" and bs: "inst_basic s (enter_inst func im c i)"
    and can: "can_swap (is_start_func func) (inst_state (enter_inst func im c i))"
    and host: "idle_host sa0 hook0 (n, b) (enter_host m h)" and mode: "enters s (enter_inst func im c i) (enter_host m h)"
    and ks: "ks_idle (inst_kill_state i)"
    by (rule run_func_entry [OF life wf fit bound chk, of env async])
  let ?i = "scheduled async (rh_thread h) (enter_inst func im c i)"
  obtain h2 where h2: "host.more h2 = host.more ((enter_host m h)\<lparr>rh_current := Some (slot_start s)\<rparr>)"
    and via: "host_returns (idle_host sa0 hook0 (n, b)) (swap_to_guest env ?i h2) (run_func env func args async bound i h)"
    unfolding eq by (rule swap_and_return_via [OF region bs _ can host mode, where async = async]) (simp_all add: that)
  note f = more_fields [OF h2]
  let ?h = "h2\<lparr>rh_at_entry := False, rh_vmctx := None\<rparr>"
  show thesis
  proof (cases "ks_domain (inst_kill_state i) = D_Pending")
    case True
    let ?j = "?i\<lparr>inst_kill_state := (inst_kill_state ?i)\<lparr>ks_domain := D_Guest\<rparr>\<rparr>"
    have "swap_to_guest env ?i h2 = guest_run env (rh_guest h) ?j ?h"
      using True f by (simp add: swap_to_guest_def enter_guest_region_def schedule_def)
    moreover have "running_ok s False ?j ?h" using bs ks f True by (auto simp: running_ok_def ks_idle_def schedule_def)
    ultimately show thesis using via True f pr by (intro entered [of ?j ?h]) (simp_all add: schedule_def inst_fixed_def)
  next
    case False
    then have dom: "ks_domain (inst_kill_state i) = D_Cancelled" using ks by (auto simp: ks_idle_def)
    then have sw: "swap_to_guest env ?i h2 = Some (Ok (), instance_terminate TD_Remote ?i, ?h)"
      using f by (simp add: swap_to_guest_def enter_guest_region_def schedule_def)
    then obtain h' where "run_func env func args async bound i h =
        Some (fst (finish_swap (descheduled (instance_terminate TD_Remote ?i))), snd (finish_swap (descheduled (instance_terminate TD_Remote ?i))), h')"
      and "host.more h' = host.more (?h\<lparr>rh_current := None\<rparr>)" using via by (auto simp: host_returns_def)
    with more_fields [of h' "?h\<lparr>rh_current := None\<rparr>"] f dom show thesis
      by (intro cancelled [of h']) (auto simp: finish_swap_def instance_terminate_def)
  qed
qed

text \<open>Going on with a suspended guest.\<close>

lemma suspended_enters:
  assumes "life_ok sa0 hook0 (n, b) s i h" and "guest_wf (slot_heap s) True (rh_guest h)"
    and "is_yielded (inst_state i) \<or> is_bound_expired (inst_state i)"
  obtains func where "inst_entrypoint i = Some func" and "suspended s i h"
    and "can_swap (is_start_func func) (inst_state i)"
    and "enters s (i\<lparr>inst_resumed_val := rv, inst_implicits := im\<rparr>) h"
    and "inst_basic s (i\<lparr>inst_resumed_val := rv, inst_implicits := im\<rparr>)" and "idle_host sa0 hook0 (n, b) h" and "stack_rw s (rh_mem h)"
proof -
  have idle: "inst_idle s i h" using assms(1) by (simp add: life_ok_def)
  then have sus: "suspended s i h" using assms(3) by (cases "inst_state i") (auto simp: inst_idle_def)
  then obtain func where "inst_entrypoint i = Some func" by (auto simp: suspended_def)
  with sus assms idle show thesis
    by (intro that [of func]) (auto simp: can_swap_def enters_def suspended_def inst_idle_def life_ok_def)
qed

lemma resume_life:
  assumes "region_internal (e_region env)" and "life_ok sa0 hook0 (n, b) s i h" and "guest_wf (slot_heap s) True (rh_guest h)"
    and "is_yielded (inst_state i) \<or> is_bound_expired (inst_state i)" and "bound_ok bound"
    and "set_instruction_bound_delta bound (i\<lparr>inst_resumed_val := rv\<rparr>) = Ok i1"
    and "swap_and_return env async i1 h = Some (r, i', h')"
  shows "(r \<noteq> Panic strong_count_panic \<longrightarrow> idle_host sa0 hook0 (n, b) h') \<and> res_matches (inst_module i) r (inst_state i') \<and>
    inst_fixed i i' \<and> ((\<forall>p. r \<noteq> Panic p) \<longrightarrow> life_ok sa0 hook0 (n, b) s i' h') \<and>
    (\<exists>ts. rh_taken h' = ts @ first_taken (i\<lparr>inst_resumed_val := rv\<rparr>) h @ rh_taken h)"
proof -
  obtain im where i1: "i1 = i\<lparr>inst_resumed_val := rv, inst_implicits := im\<rparr>"
    using bound_delta_ok [OF assms(5), of "i\<lparr>inst_resumed_val := rv\<rparr>"] assms(6) by auto
  obtain func where ep: "inst_entrypoint i = Some func" and can: "can_swap (is_start_func func) (inst_state i)"
    and mode: "enters s i1 h" and bs: "inst_basic s i1" and host: "idle_host sa0 hook0 (n, b) h" and rw: "stack_rw s (rh_mem h)"
    unfolding i1 by (rule suspended_enters [OF assms(2-4)])
  have "first_taken i1 h = first_taken (i\<lparr>inst_resumed_val := rv\<rparr>) h" by (simp add: i1 first_taken_def)
  with swap_and_return_ok [OF assms(1) bs _ _ host mode assms(7), of func] ep can stack_rw_kept [OF rw] show ?thesis
    by (auto simp: life_ok_def i1 inst_fixed_def)
qed

lemma resume_via:
  assumes "region_internal (e_region env)" and "life_ok sa0 hook0 (n, b) s i h" and "guest_wf (slot_heap s) True (rh_guest h)"
    and "is_yielded (inst_state i) \<or> is_bound_expired (inst_state i)"
  obtains i0 h0 where "running_ok s True i0 h0" and "inst_fixed i i0" and "inst_resumed_val i0 = rv"
      and "ks_domain (inst_kill_state i0) = ks_domain (inst_kill_state i)"
      and "ks_upgraded (inst_kill_state i0) = ks_upgraded (inst_kill_state i)"
      and "rh_guest h0 = rh_guest h" and "rh_vmctx h0 = rh_vmctx h" and "rh_taken h0 = rh_taken h"
      and "host_returns (idle_host sa0 hook0 (n, b)) (guest_run env (rh_guest h) i0 h0)
        (swap_and_return env async (i\<lparr>inst_resumed_val := rv, inst_implicits := im\<rparr>) h)"
proof -
  let ?i = "i\<lparr>inst_resumed_val := rv, inst_implicits := im\<rparr>"
  obtain func where ep: "inst_entrypoint i = Some func" and can: "can_swap (is_start_func func) (inst_state i)"
    and mode: "enters s ?i h" and bs: "inst_basic s ?i" and host: "idle_host sa0 hook0 (n, b) h" and sus: "suspended s i h"
    by (rule suspended_enters [OF assms(2-4)])
  obtain h2 where h2: "host.more h2 = host.more (h\<lparr>rh_current := Some (slot_start s)\<rparr>)"
    and via: "host_returns (idle_host sa0 hook0 (n, b)) (swap_to_guest env (scheduled async (rh_thread h) ?i) h2) (swap_and_return env async ?i h)"
    by (rule swap_and_return_via [OF assms(1) bs _ _ host mode, where async = async and func = func]) (use ep can in \<open>simp_all add: that\<close>)
  note f = more_fields [OF h2]
  have "swap_to_guest env (scheduled async (rh_thread h) ?i) h2 = guest_run env (rh_guest h) (scheduled async (rh_thread h) ?i) h2"
    using f sus by (simp add: swap_to_guest_def suspended_def)
  moreover have "running_ok s True (scheduled async (rh_thread h) ?i) h2"
    using bs sus f by (auto simp: running_ok_def suspended_def ks_hostcall_def schedule_def)
  ultimately show thesis using via f
    by (intro that [of "scheduled async (rh_thread h) ?i" h2]) (simp_all add: schedule_def)
qed

subsection \<open>Guests that get to an event\<close>

text \<open>A guest that has not left before an event of its list executes it in the state its earlier events produced.\<close>

lemma guest_run_reach:
  assumes "region_internal (e_region env)" and "running_ok s hc i h" and "guest_wf (slot_heap s) hc (pre @ es)"
    and "guest_run env (pre @ es) i h = Some (r, i', h')" and "length (rh_guest h') < length es"
  shows "\<exists>hc1 i1 h1. running_ok s hc1 i1 h1 \<and> guest_wf (slot_heap s) hc1 es \<and> guest_run env es i1 h1 = Some (r, i', h') \<and>
    inst_fixed i i1 \<and> host_kept h h1"
  using assms(2-4)
proof (induction pre arbitrary: hc i h)
  case Nil
  then show ?case by (metis append_Nil host_kept_refl inst_fixed_refl)
next
  case (Cons e pre)
  obtain hc' where ok: "next_ok s hc' h (guest_step env e i h)" "guest_wf (slot_heap s) hc' (pre @ es)"
    using guest_step_ok [OF assms(1) Cons.prems(1), of e "pre @ es"] Cons.prems(2) by auto
  show ?case
  proof (cases "guest_step env e i h")
    case (G_Continue i1 h1)
    then have "running_ok s hc' i1 h1" "host_kept h h1" "guest_run env (pre @ es) i1 h1 = Some (r, i', h')"
      using ok Cons.prems(3) by simp_all
    from Cons.IH [OF this(1) ok(2) this(3)] this(2) guest_step_fixed [where i = i and env = env and e = e and h = h] G_Continue
    show ?thesis by (auto intro: host_kept_trans inst_fixed_trans)
  qed (use ok Cons.prems(3) assms(5) in auto)
qed

text \<open>A guest with a return in its list comes back.\<close>

lemma guest_run_comes_back:
  assumes "region_internal (e_region env)" and "running_ok s hc i h" and "guest_wf (slot_heap s) hc es"
    and "G_Return rax rdx fp \<in> set es"
  shows "guest_run env es i h \<noteq> None"
  using assms(2-4)
proof (induction es arbitrary: hc i h)
  case (Cons e es)
  obtain hc' where ok: "next_ok s hc' h (guest_step env e i h)" "guest_wf (slot_heap s) hc' es"
    using guest_step_ok [OF assms(1) Cons.prems(1,2)] by blast
  show ?case
  proof (cases "guest_step env e i h")
    case (G_Continue i1 h1)
    have "e \<noteq> G_Return rax rdx fp"
    proof
      assume e: "e = G_Return rax rdx fp"
      then have "running_ok s False i h" using Cons.prems(1,2) by (cases hc) auto
      from guest_return_exact [OF this, of env rax rdx fp] e G_Continue show False by (simp add: Let_def split: if_splits)
    qed
    with Cons.prems(3) G_Continue ok Cons.IH [of hc' i1 h1] show ?thesis by simp
  qed (use ok in simp_all)
qed simp

lemma guest_returns:
  assumes "region_internal (e_region env)" and ru: "running_ok s hc i h" and wf: "guest_wf (slot_heap s) hc (pre @ G_Return rax rdx fp # es)"
    and run: "guest_run env (pre @ G_Return rax rdx fp # es) i h = Some (r, i', h')" and len: "length (rh_guest h') \<le> length es"
  shows "rh_guest h' = es \<and> is_running (inst_state i') \<and> retvals_gp (inst_ctx i') = (rax, rdx) \<and> retval_fp (inst_ctx i') = fp \<and>
    (if ks_upgraded (inst_kill_state i') = 0 then r = Ok () else r = Panic strong_count_panic)"
proof -
  obtain hc1 i1 h1 where ru1: "running_ok s hc1 i1 h1" and wf1: "guest_wf (slot_heap s) hc1 (G_Return rax rdx fp # es)"
    and run1: "guest_run env (G_Return rax rdx fp # es) i1 h1 = Some (r, i', h')"
    using guest_run_reach [OF assms(1) ru wf run] len by (auto simp del: guest_run.simps guest_wf.simps)
  have "running_ok s False i1 h1" using ru1 wf1 by (cases hc1) simp_all
  from guest_return_exact [OF this, of env rax rdx fp] run1 ru1 show ?thesis
    by (auto simp: Let_def running_ok_def simp del: guest_step.simps split: if_splits)
qed

lemma finish_returned:
  assumes "is_running (inst_state i)"
  shows "finish_swap (descheduled i) = (Ok (Normal (Returned (untyped_ret_val_new (fst (retvals_gp (inst_ctx i))) (retval_fp (inst_ctx i))))),
    i\<lparr>inst_kill_state := kill_state_new, inst_state := Ready\<rparr>)"
  using assms by (cases "inst_state i") (simp_all add: finish_swap_def get_untyped_retval_def get_retval_gp_def)

text \<open>What a call returns for a guest that gets to its return.\<close>

definition returned_or_raced :: "internal_run_result run_res \<Rightarrow> inst \<Rightarrow> u64 \<Rightarrow> m128 \<Rightarrow> bool" where
  "returned_or_raced r i rax fp \<longleftrightarrow>
     r = Ok (Normal (Returned (untyped_ret_val_new rax fp))) \<and> inst_state i = Ready \<or> r = Panic strong_count_panic \<and> exit_raced i"

lemma call_returns:
  assumes "region_internal (e_region env)" and ru: "running_ok s hc i0 h0" and wf: "guest_wf (slot_heap s) hc (pre @ G_Return rax rdx fp # es)"
    and via: "host_returns idle (guest_run env (pre @ G_Return rax rdx fp # es) i0 h0) res"
  shows "\<exists>r i' h'. res = Some (r, i', h') \<and> length (rh_guest h') < length (pre @ G_Return rax rdx fp # es) \<and>
    (length (rh_guest h') \<le> length es \<longrightarrow> rh_guest h' = es \<and> returned_or_raced r i' rax fp)"
proof -
  let ?es = "pre @ G_Return rax rdx fp # es"
  obtain q i1 h1 where run: "guest_run env ?es i0 h0 = Some (q, i1, h1)"
    using guest_run_comes_back [OF assms(1) ru wf, of rax rdx fp] by auto
  have len: "length (rh_guest h1) < length ?es" by (rule guest_run_shrinks [OF run])
  note ret = guest_returns [OF assms(1) ru wf run]
  have lr: "left_or_raced s q i1 h1" using guest_run_ok [OF assms(1) ru wf run] by blast
  show ?thesis
  proof (cases "q = Ok ()")
    case True
    then obtain h' where res: "res = Some (fst (finish_swap (descheduled i1)), snd (finish_swap (descheduled i1)), h')"
      and h': "host.more h' = host.more (h1\<lparr>rh_current := None\<rparr>)" using via run by (auto simp: host_returns_def)
    then have "rh_guest h' = rh_guest h1" using more_fields [OF h'] by simp
    with res ret len True finish_returned [of i1] show ?thesis by (auto simp: returned_or_raced_def split: if_splits)
  next
    case False
    with lr have "q = Panic strong_count_panic" "exit_raced i1" by (auto simp: left_or_raced_def)
    with via run ret len show ?thesis by (auto simp: host_returns_def returned_or_raced_def)
  qed
qed

section \<open>The life of an instance\<close>

text \<open>The steps of an embedder that owns the instance, on a thread on which no other instance is running. It runs a function or the start function,
  resumes, resumes after a bound, grows the memory, resets the instance, writes to its heap or globals, changes its embedding contexts,
  its handlers, its behaviour out of memory and its instruction counter; a kill switch fires while the instance is not running, upgrades its reference or drops it. Each call
  comes with what the guest does in it, \<open>es\<close>. A step is a call that returned: none of them panicked. Not among the steps are the switches
  \<open>ensure_signal_handler_installed(false)\<close> and \<open>ensure_sigstack_installed(false)\<close>, with which the embedder takes over the handlers,
  and a call on a thread on which another instance is running, which the last theorem is about.\<close>

inductive life_step :: "run_env \<Rightarrow> u32 \<Rightarrow> slot \<Rightarrow> inst \<times> run_host \<Rightarrow> inst \<times> run_host \<Rightarrow> bool" for env pad s where
  life_run: "guest_wf (slot_heap s) False es \<Longrightarrow> args_fit s args \<Longrightarrow> bound_ok bound \<Longrightarrow>
     run_func env func args async bound i (h\<lparr>rh_guest := es\<rparr>) = Some (r, i', h') \<Longrightarrow> (\<forall>p. r \<noteq> Panic p) \<Longrightarrow>
     life_step env pad s (i, h) (i', h')"
| life_start: "guest_wf (slot_heap s) False es \<Longrightarrow> args_fit s [] \<Longrightarrow>
     run_start env i (h\<lparr>rh_guest := es\<rparr>) = Some (r, i', h') \<Longrightarrow> (\<forall>p. r \<noteq> Panic p) \<Longrightarrow>
     life_step env pad s (i, h) (i', h')"
| life_resume: "guest_wf (slot_heap s) True es \<Longrightarrow> bound_ok bound \<Longrightarrow>
     resume_with_val_impl env val async bound i (h\<lparr>rh_guest := es\<rparr>) = Some (r, i', h') \<Longrightarrow> (\<forall>p. r \<noteq> Panic p) \<Longrightarrow>
     life_step env pad s (i, h) (i', h')"
| life_bounded: "guest_wf (slot_heap s) True es \<Longrightarrow> bound_ok (Some n) \<Longrightarrow>
     resume_bounded env n i (h\<lparr>rh_guest := es\<rparr>) = Some (r, i', h') \<Longrightarrow> (\<forall>p. r \<noteq> Panic p) \<Longrightarrow>
     life_step env pad s (i, h) (i', h')"
| life_grow: "grow_memory (e_region env) n i (rh_mem h) = (r, i', m') \<Longrightarrow>
     life_step env pad s (i, h) (i', h\<lparr>rh_mem := m'\<rparr>)"
| life_reset: "reset (e_region env) pad i (rh_mem h) = (r, i', m') \<Longrightarrow> (\<forall>p. r \<noteq> Panic p) \<Longrightarrow>
     life_step env pad s (i, h) (i', h\<lparr>rh_mem := m'\<rparr>)"
| life_write: "store_bytes a bs (rh_mem h) = Ok m' \<Longrightarrow> life_step env pad s (i, h) (i, h\<lparr>rh_mem := m'\<rparr>)"
| life_insert_ctx: "insert_embed_ctx x i = Ok (prev, i') \<Longrightarrow> life_step env pad s (i, h) (i', h)"
| life_remove_ctx: "remove_embed_ctx t i = Ok (prev, i') \<Longrightarrow> life_step env pad s (i, h) (i', h)"
| life_signal_handler: "life_step env pad s (i, h) (set_signal_handler hnd i, h)"
| life_fatal_handler: "life_step env pad s (i, h) (set_fatal_handler hnd i, h)"
| life_c_fatal_handler: "life_step env pad s (i, h) (set_c_fatal_handler hnd i, h)"
| life_heap_oom: "life_step env pad s (i, h) (set_terminate_on_heap_oom oom i, h)"
| life_count: "set_instruction_count_and_bound n k i = Ok i' \<Longrightarrow> life_step env pad s (i, h) (i', h)"
| life_delta: "set_instruction_bound_delta d i = Ok i' \<Longrightarrow> life_step env pad s (i, h) (i', h)"
| life_kill: "terminate deliver (Some (inst_kill_state i)) = (r, Some ks) \<Longrightarrow>
     life_step env pad s (i, h) (i\<lparr>inst_kill_state := ks\<rparr>, h)"
| life_upgrade: "life_step env pad s (i, h) (i\<lparr>inst_kill_state := upgrade_ref (inst_kill_state i)\<rparr>, h)"
| life_release: "life_step env pad s (i, h) (i\<lparr>inst_kill_state := release_ref (inst_kill_state i)\<rparr>, h)"

inductive_cases life_stepE: "life_step env pad s x y"

subsection \<open>Every step keeps the invariant\<close>

lemma run_func_keeps:
  assumes "region_internal (e_region env)" and "life_ok sa0 hook0 (n, b) s i h" and "guest_wf (slot_heap s) False (rh_guest h)"
    and "args_fit s args" and "bound_ok bound"
    and "run_func env func args async bound i h = Some (r, i', h')" and "\<forall>p. r \<noteq> Panic p"
  shows "life_ok sa0 hook0 (n, b) s i' h'"
proof (cases "run_func_check func args i")
  case (Ok u)
  from run_func_life [OF assms(1-5) _ assms(6)] Ok assms(7) show ?thesis by simp
next
  case (Err e)
  with assms show ?thesis by (simp add: run_func_def)
next
  case (Panic p)
  with assms show ?thesis by (auto simp: run_func_def)
qed

lemma run_start_keeps:
  assumes "region_internal (e_region env)" and "life_ok sa0 hook0 (n, b) s i h" and "guest_wf (slot_heap s) False (rh_guest h)"
    and "args_fit s []" and "run_start env i h = Some (r, i', h')" and "\<forall>p. r \<noteq> Panic p"
  shows "life_ok sa0 hook0 (n, b) s i' h'"
proof (cases "\<exists>start. mo_start_func (inst_module i) = Ok (Some start) \<and> is_not_started (inst_state i)")
  case True
  then obtain start q where run: "run_func env start [] False None i h = Some (q, i', h')" and r: "r = map_res (\<lambda>_. ()) q"
    using assms(5) by (auto simp: run_start_def)
  have "\<forall>p. q \<noteq> Panic p" using assms(6) r by (cases q) simp_all
  with run_func_keeps [OF assms(1-4) _ run] show ?thesis by (simp add: bound_ok_def)
next
  case False
  with assms show ?thesis by (auto simp: run_start_def split: rresult.splits option.splits if_splits)
qed

lemma resume_keeps:
  assumes "region_internal (e_region env)" and "life_ok sa0 hook0 (n, b) s i h" and "guest_wf (slot_heap s) True (rh_guest h)"
    and "bound_ok bound" and "resume_with_val_impl env val async bound i h = Some (r, i', h')" and "\<forall>p. r \<noteq> Panic p"
  shows "life_ok sa0 hook0 (n, b) s i' h'"
proof (cases "inst_state i = Yielded (any_type val)")
  case True
  obtain im where d: "set_instruction_bound_delta bound (i\<lparr>inst_resumed_val := Some val\<rparr>) =
      Ok (i\<lparr>inst_resumed_val := Some val, inst_implicits := im\<rparr>)" using bound_delta_ok [OF assms(4)] by blast
  have "swap_and_return env async (i\<lparr>inst_resumed_val := Some val, inst_implicits := im\<rparr>) h = Some (r, i', h')"
    using assms(5) True d by (auto simp: resume_with_val_impl_def)
  from resume_life [OF assms(1-3) _ assms(4) d this] True assms(6) show ?thesis by auto
next
  case False
  then have "i' = i" "h' = h" using assms(5) by (cases "inst_state i"; simp add: resume_with_val_impl_def split: if_splits)+
  with assms show ?thesis by simp
qed

lemma bounded_keeps:
  assumes "region_internal (e_region env)" and "life_ok sa0 hook0 (n, b) s i h" and "guest_wf (slot_heap s) True (rh_guest h)"
    and "bound_ok (Some k)" and "resume_bounded env k i h = Some (r, i', h')" and "\<forall>p. r \<noteq> Panic p"
  shows "life_ok sa0 hook0 (n, b) s i' h'"
proof (cases "is_bound_expired (inst_state i)")
  case True
  obtain im where d: "set_instruction_bound_delta (Some k) (i\<lparr>inst_resumed_val := inst_resumed_val i\<rparr>) =
      Ok (i\<lparr>inst_implicits := im\<rparr>)" using bound_delta_ok [OF assms(4), of i] by auto
  have "swap_and_return env True (i\<lparr>inst_implicits := im\<rparr>) h = Some (r, i', h')" using assms(5) True d by (simp add: resume_bounded_def)
  from resume_life [OF assms(1-3) _ assms(4) d this] True assms(6) show ?thesis by auto
next
  case False
  with assms show ?thesis by (auto simp: resume_bounded_def)
qed

lemma life_mem:
  "life_ok sa0 hook0 u s i h \<Longrightarrow> stack_rw s m \<Longrightarrow> life_ok sa0 hook0 u s i (h\<lparr>rh_mem := m\<rparr>)"
  by (simp add: life_ok_def inst_idle_def suspended_def idle_host_def sig_abs_def arcs_below_def altstack_ok_def)

lemma idle_grow:
  assumes "region_internal region" and "life_ok sa0 hook0 u s i h" and "grow_memory region n i (rh_mem h) = (r, i', m')"
  shows "life_ok sa0 hook0 u s i' (h\<lparr>rh_mem := m'\<rparr>)"
proof -
  have b: "inst_basic s i" using assms(2) by (simp add: life_ok_def inst_idle_def)
  then have "alloc_inv (inst_alloc i)" "alloc_slot_opt (inst_alloc i) = Some s" by (simp_all add: inst_basic_def)
  note g = expand_heap_keeps_slot [OF assms(1) this assms(3)]
  then obtain al where i': "i' = i\<lparr>inst_alloc := al\<rparr>" by blast
  have "inst_basic s i'" using b g by (simp add: i' inst_basic_def valid_magic_def wants_signals_def)
  then have "life_ok sa0 hook0 u s i' h" using assms(2) by (simp add: i' life_ok_def inst_idle_def suspended_def)
  then show ?thesis using g assms(2) stack_rw_kept by (intro life_mem) (auto simp: life_ok_def)
qed

lemma reset_globals_prot: "reset_globals pad g n k gs m = (r, m') \<Longrightarrow> mem_prot m' = mem_prot m"
  by (induction pad g n k gs m rule: reset_globals.induct)
    (auto simp: store_bytes_Ok split: global.splits if_splits rresult.splits)

lemma stack_outside_heap:
  assumes "slot_wf s" and "in_range (slot_stack s) (stack_size (slot_limits s)) a"
  shows "\<not> in_range (slot_heap s) (heap_address_space_size (slot_limits s)) a"
proof -
  note u = slot_wf_unat [OF assms(1)]
  have "unat (slot_stack s) + unat (stack_size (slot_limits s)) \<le> 2 ^ 64" using u by simp
  then have "unat (slot_stack s) \<le> unat a" using assms(2) by (simp add: in_range_nat)
  moreover have "unat (slot_heap s) + unat (heap_address_space_size (slot_limits s)) \<le> 2 ^ 64" using u by simp
  ultimately show ?thesis using u by (simp add: in_range_nat)
qed

lemma idle_reset:
  assumes region: "region_reset region" and life: "life_ok sa0 hook0 u s i h"
    and run: "reset region pad i (rh_mem h) = (r, i', m')" and np: "\<forall>p. r \<noteq> Panic p"
  shows "life_ok sa0 hook0 u s i' (h\<lparr>rh_mem := m'\<rparr>)"
proof -
  have b: "inst_basic s i" and rw: "stack_rw s (rh_mem h)" using life by (simp_all add: life_ok_def inst_idle_def)
  then have inv: "alloc_inv (inst_alloc i)" "alloc_slot_opt (inst_alloc i) = Some s"
    and n: "heap_initial_size (inst_module i) \<le> heap_memory_size_limit (inst_alloc i)" "page_aligned (heap_initial_size (inst_module i))"
    by (simp_all add: inst_basic_def)
  obtain q al m1 where rs: "ro_reset_heap region (inst_alloc i) (inst_module i) (rh_mem h) = (q, al, m1)" by (rule prod_cases3)
  have ri: "region_internal region" using region by (simp add: region_reset_def)
  have al: "alloc_inv al" "alloc_slot_opt al = Some s" "heap_memory_size_limit al = heap_memory_size_limit (inst_alloc i)"
    and fr: "\<And>a. \<not> in_range (slot_heap s) (heap_address_space_size (slot_limits s)) a \<Longrightarrow> mem_prot m1 a = mem_prot (rh_mem h) a"
    using region_reset.reset_frame [OF region inv n rs] region_internal.reset_keeps [OF ri rs] inv by simp_all
  have wf: "slot_wf s" using inv by (auto simp: alloc_inv_def)
  have rw1: "stack_rw s m1" using rw fr stack_outside_heap [OF wf] by (simp add: stack_rw_def)
  have out: "(i' = i\<lparr>inst_alloc := al\<rparr> \<or>
      (\<exists>st. i' = i\<lparr>inst_alloc := al, inst_state := st, inst_kill_state := kill_state_new\<rparr> \<and> idle_state st)) \<and> mem_prot m' = mem_prot m1"
    using run rs np by (auto simp: reset_def alloc_reset_heap_def Let_def dest: reset_globals_prot split: rresult.splits prod.splits if_splits)
  have "inst_basic s (i\<lparr>inst_alloc := al\<rparr>)" using b al by (simp add: inst_basic_def valid_magic_def wants_signals_def)
  then have "life_ok sa0 hook0 u s i' h" using life out
    by (auto simp: life_ok_def inst_idle_def suspended_def ks_idle_def kill_state_new_def)
  moreover have "stack_rw s m'" using rw1 out by (simp add: stack_rw_def)
  ultimately show ?thesis by (rule life_mem)
qed

lemma terminate_idle:
  assumes "terminate deliver (Some ks) = (r, Some ks')"
  shows "ks_idle ks \<Longrightarrow> ks_idle ks'" and "ks_hostcall ks \<Longrightarrow> ks_hostcall ks'"
  using assms by (auto simp: terminate_def disable_termination_def terminate_domain_def ks_idle_def ks_hostcall_def
      split: if_splits)

lemma life_kill_state:
  "life_ok sa0 hook0 u s i h \<Longrightarrow> (ks_idle (inst_kill_state i) \<Longrightarrow> ks_idle ks) \<Longrightarrow> (ks_hostcall (inst_kill_state i) \<Longrightarrow> ks_hostcall ks) \<Longrightarrow>
   life_ok sa0 hook0 u s (i\<lparr>inst_kill_state := ks\<rparr>) h"
  by (auto simp: life_ok_def inst_idle_def suspended_def)

text \<open>Settings do not matter to the invariant.\<close>

lemma life_settings [simp]:
  "life_ok sa0 hook0 u s (i\<lparr>inst_embed_ctx := c\<rparr>) h = life_ok sa0 hook0 u s i h"
  "life_ok sa0 hook0 u s (i\<lparr>inst_signal_handler := hnd\<rparr>) h = life_ok sa0 hook0 u s i h"
  "life_ok sa0 hook0 u s (i\<lparr>inst_fatal_handler := hnd\<rparr>) h = life_ok sa0 hook0 u s i h"
  "life_ok sa0 hook0 u s (i\<lparr>inst_c_fatal_handler := chnd\<rparr>) h = life_ok sa0 hook0 u s i h"
  "life_ok sa0 hook0 u s (i\<lparr>inst_terminate_on_heap_oom := oom\<rparr>) h = life_ok sa0 hook0 u s i h"
  "life_ok sa0 hook0 u s (i\<lparr>inst_implicits := im\<rparr>) h = life_ok sa0 hook0 u s i h"
  by (simp_all add: life_ok_def inst_idle_def suspended_def inst_basic_def valid_magic_def wants_signals_def)

lemma count_setters:
  "set_instruction_count_and_bound n k i = Ok i' \<Longrightarrow> \<exists>im. i' = i\<lparr>inst_implicits := im\<rparr>"
  "set_instruction_bound_delta d i = Ok i' \<Longrightarrow> \<exists>im. i' = i\<lparr>inst_implicits := im\<rparr>"
  by (auto simp: set_instruction_count_and_bound_def set_instruction_bound_delta_def i64_expect_def Let_def split: if_splits)

lemma ctx_setters:
  "insert_embed_ctx x i = Ok (prev, i') \<Longrightarrow> \<exists>c. i' = i\<lparr>inst_embed_ctx := c\<rparr>"
  "remove_embed_ctx t i = Ok (prev, i') \<Longrightarrow> \<exists>c. i' = i\<lparr>inst_embed_ctx := c\<rparr>"
  by (cases "ctx_insert x (inst_embed_ctx i)"; cases "ctx_remove t (inst_embed_ctx i)";
      auto simp: insert_embed_ctx_def remove_embed_ctx_def)+

lemma life_step_ok:
  assumes reset: "region_reset (e_region env)" and ok: "life_ok sa0 hook0 (n, b) s (fst x) (snd x)" and st: "life_step env pad s x y"
  shows "life_ok sa0 hook0 (n, b) s (fst y) (snd y)"
proof -
  have region: "region_internal (e_region env)" using reset by (simp add: region_reset_def)
  show ?thesis using st
  proof (cases rule: life_step.cases)
    case (life_run es args bound func async i h r i' h')
    with run_func_keeps [OF region, of sa0 hook0 n b s i "h\<lparr>rh_guest := es\<rparr>"] ok show ?thesis by simp
  next
    case (life_start es i h r i' h')
    with run_start_keeps [OF region, of sa0 hook0 n b s i "h\<lparr>rh_guest := es\<rparr>"] ok show ?thesis by simp
  next
    case (life_resume es bound val async i h r i' h')
    with resume_keeps [OF region, of sa0 hook0 n b s i "h\<lparr>rh_guest := es\<rparr>"] ok show ?thesis by simp
  next
    case (life_bounded es k i h r i' h')
    with bounded_keeps [OF region, of sa0 hook0 n b s i "h\<lparr>rh_guest := es\<rparr>"] ok show ?thesis by simp
  next
    case (life_grow k i h r i' m')
    with idle_grow [OF region] ok show ?thesis by simp
  next
    case (life_reset i h r i' m')
    with idle_reset [OF reset] ok show ?thesis by simp
  next
    case (life_write a bs h m' i)
    then have "stack_rw s m'" using ok stack_rw_kept rw_kept_store by (auto simp: life_ok_def)
    with life_write ok show ?thesis by (simp add: life_mem)
  next
    case (life_kill deliver i r ks h)
    with ok terminate_idle [OF life_kill(3)] show ?thesis by (auto intro: life_kill_state)
  next
    case (life_upgrade i h)
    with ok show ?thesis by (auto intro!: life_kill_state simp: upgrade_ref_def ks_idle_def ks_hostcall_def)
  next
    case (life_release i h)
    with ok show ?thesis by (auto intro!: life_kill_state simp: release_ref_def ks_idle_def ks_hostcall_def)
  qed (use ok in \<open>auto dest!: count_setters ctx_setters
      simp: set_signal_handler_def set_fatal_handler_def set_c_fatal_handler_def set_terminate_on_heap_oom_def\<close>)
qed

lemma life_steps_ok:
  assumes "region_reset (e_region env)" and "(life_step env pad s)\<^sup>*\<^sup>* x y" and "life_ok sa0 hook0 (n, b) s (fst x) (snd x)"
  shows "life_ok sa0 hook0 (n, b) s (fst y) (snd y)"
  using assms(2,3) by (induction rule: rtranclp_induct) (auto intro: life_step_ok [OF assms(1)])

text \<open>The life of an instance begins in a consistent state.\<close>

lemma live_stack_rw: "alloc_inv al \<Longrightarrow> alloc_slot_opt al = Some s \<Longrightarrow> live_mem m al s \<Longrightarrow> stack_rw s m"
  unfolding stack_rw_def
proof (intro allI impI)
  fix a assume inv: "alloc_inv al" "alloc_slot_opt al = Some s" and live: "live_mem m al s"
    and a: "in_range (slot_stack s) (stack_size (slot_limits s)) a"
  have "location al s a = Stack" using a location_ranges(3) [OF inv] by blast
  moreover have "location_ok (location al s a) (mem_prot m a) (mem_byte m a)" using live by (simp add: live_mem_def)
  ultimately show "mem_prot m a = ProtReadWrite" by simp
qed

lemma new_instance_idle:
  assumes "os_memory sys" and "\<forall>s \<in> set (mr_freelist region). slot_ready region m s"
    and "module_pages_ok (na_module args)" and "page_aligned (heap_initial_size (na_module args))"
    and "new_instance_with sys gen pad implicits region args m = (Ok i, region', m')"
    and "MINSIGSTKSZ \<le> signal_stack_size (mr_limits region)"
  shows "\<exists>s \<in> set (mr_freelist region). inst_idle s i h \<and> stack_rw s m'"
proof -
  obtain s where s: "s \<in> set (mr_freelist region)" and pr: "pristine pad (na_module args) s i m'" and mg: "valid_magic i"
    and mo: "inst_module i = na_module args" and w: "inst_ensure_signal_handler_installed i" "inst_ensure_sigstack_installed i"
    using new_instance_fresh [OF assms(1-5)] by blast
  have "slot_limits s = mr_limits region" using assms(2) s by (simp add: slot_ready_def)
  moreover have al: "alloc_inv (inst_alloc i)" "alloc_slot_opt (inst_alloc i) = Some s"
    "heap_accessible_size (inst_alloc i) = heap_initial_size (na_module args)" using pr by (simp_all add: pristine_def)
  moreover have "heap_initial_size (na_module args) \<le> heap_memory_size_limit (inst_alloc i)" using al by (auto simp: alloc_inv_def)
  ultimately have "inst_basic s i" using mg mo w assms(4,6) by (auto simp: inst_basic_def wants_signals_def)
  then have "inst_idle s i h" using pr by (auto simp: inst_idle_def pristine_def ks_idle_def kill_state_new_def split: if_splits)
  moreover have "stack_rw s m'" using pr by (auto simp: pristine_def intro: live_stack_rw)
  ultimately show ?thesis using s by blast
qed

lemma run_func_return_event:
  assumes "region_internal (e_region env)" and "life_ok sa0 hook0 (n, b) s i h" and "args_fit s args" and "bound_ok bound"
    and "run_func_check func args i = Ok ()" and "ks_domain (inst_kill_state i) = D_Pending" and "ks_upgraded (inst_kill_state i) = 0"
    and "rh_guest h = [G_Return rax rdx fp]"
  shows "\<exists>i' h'. run_func env func args async bound i h =
      Some (Ok (Normal (Returned (untyped_ret_val_new rax fp))), i', h') \<and> inst_state i' = Ready \<and> rh_guest h' = []"
proof -
  have wf: "guest_wf (slot_heap s) False (rh_guest h)" using assms(8) by simp
  show ?thesis
  proof (cases rule: run_func_via [OF assms(1,2) wf assms(3-5), where async = async, case_names entered cancelled])
    case (entered i0 h0)
    let ?i = "i0\<lparr>inst_ctx := (inst_ctx i0)\<lparr>retvals_gp := (rax, rdx), retval_fp := fp\<rparr>,
         inst_kill_state := (inst_kill_state i0)\<lparr>ks_terminable := False\<rparr>\<rparr>"
    have run: "guest_run env (rh_guest h) i0 h0 = Some (Ok (), ?i, h0\<lparr>rh_guest := []\<rparr>)"
      using guest_return_exact [OF entered(2), of env rax rdx fp] entered(4) assms(7,8) by (simp add: Let_def del: guest_step.simps)
    have "is_running (inst_state ?i)" using entered(2) by (simp add: running_ok_def)
    from finish_returned [OF this] entered(9) [unfolded run host_returns_def] show ?thesis by (auto dest: more_fields)
  next
    case cancelled
    with assms(6) show ?thesis by simp
  qed
qed

lemma fault_first:
  assumes "k < n" and "mem_prot m (a + of_nat k) \<noteq> ProtReadWrite"
  shows "\<exists>j < n. fault_address a n m = a + of_nat j"
proof -
  let ?P = "\<lambda>k. mem_prot m (a + of_nat k) = ProtReadWrite"
  have "length (takeWhile ?P [0..<n]) \<noteq> n"
  proof
    assume "length (takeWhile ?P [0..<n]) = n"
    then have "takeWhile ?P [0..<n] = [0..<n]" using takeWhile_eq_take [of ?P "[0..<n]"] by simp
    then have "\<forall>x \<in> set [0..<n]. ?P x" by (simp only: takeWhile_eq_all_conv)
    with assms show False by simp
  qed
  moreover have "length (takeWhile ?P [0..<n]) \<le> n" using length_takeWhile_le [of ?P "[0..<n]"] by simp
  ultimately show ?thesis by (intro exI [of _ "length (takeWhile ?P [0..<n])"]) (simp add: fault_address_def)
qed

lemma guest_store_fault:
  assumes ru: "running_ok s False i h" and k: "k < length bs" "mem_prot (rh_mem h) (a + of_nat k) \<noteq> ProtReadWrite"
    and range: "\<And>k. k < length bs \<Longrightarrow> unat (slot_heap s) \<le> unat (a + of_nat k) \<and> unat (a + of_nat k) < unat (slot_sigstack s) - 4096"
    and tc: "lookup_trapcode (e_trap_mem env) (mo_function_manifest (inst_module i)) rip = Some tc"
    and hnd: "inst_signal_handler i = DEFAULT_HANDLER"
  shows "\<exists>info. guest_step env (G_Write rip a bs) i h =
    G_Switch (i\<lparr>inst_kill_state := (inst_kill_state i)\<lparr>ks_terminable := False\<rparr>, inst_state :=
      Faulted \<lparr>fatal = False, trapcode = Some tc, rip_addr = rip, rip_addr_details = None\<rparr> info \<lparr>uc_ip = rip, uc_rdi = 0\<rparr>\<rparr>) h"
proof -
  have inv: "alloc_inv (inst_alloc i)" "alloc_slot_opt (inst_alloc i) = Some s" using ru by (simp_all add: running_ok_def inst_basic_def)
  have ks: "ks_terminable (inst_kill_state i)" "\<not> ks_ignore_alarm (inst_kill_state i)" using ru by (simp_all add: running_ok_def)
  obtain j where j: "j < length bs" "fault_address a (length bs) (rh_mem h) = a + of_nat j" using fault_first [OF k] by blast
  let ?info = "\<lparr>si_signo = SIGSEGV, si_addr = a + of_nat j\<rparr>" and ?uc = "\<lparr>uc_ip = rip, uc_rdi = 0\<rparr>"
  let ?d = "\<lparr>fatal = False, trapcode = Some tc, rip_addr = rip, rip_addr_details = None\<rparr>"
  have rec: "record_fault (Some tc) ?info ?uc i = Ok (i\<lparr>inst_state := Faulted ?d ?info ?uc\<rparr>)"
  proof -
    have "\<not> unat (slot_sigstack s) + unat (signal_stack_size (slot_limits s)) \<le> unat (a + of_nat j)" using range [OF j(1)] by linarith
    then show ?thesis unfolding record_fault_Ok [OF inv] using range [OF j(1)] by simp
  qed
  have sg: "instance_signal (e_handlers env) (e_trap_mem env) SIGSEGV ?info ?uc i =
      Ok (True, i\<lparr>inst_state := Faulted ?d ?info ?uc, inst_kill_state := (inst_kill_state i)\<lparr>ks_terminable := False\<rparr>\<rparr>)"
    using rec ks tc hnd by (simp add: instance_signal_def call_signal_handler_def signal_handler_none_def
        handler_disable_def disable_termination_def)
  have "\<not> list_all (\<lambda>i. mem_prot (rh_mem h) (a + of_nat i) = ProtReadWrite) [0..<length bs]" using k by (auto simp: list_all_iff)
  then have "store_bytes a bs (rh_mem h) = Panic ''segmentation fault''" unfolding store_bytes_def by (rule if_not_P)
  then show ?thesis using sg j(2) by (intro exI [of _ ?info]) (simp add: guest_signal_def handle_signal_def)
qed

section \<open>Properties\<close>

text \<open>C1: An instance stays consistent through its life: from a consistent instance, on a thread on which no other instance runs, whatever
  functions are run, with whatever arguments and bounds, whatever values it is resumed with, whatever its guests do (store,
  count, fault, make hostcalls, yield, hit their bound, block on futures, panic, return), whenever kill switches fire, upgrade and drop their references, however
  its memory grows, whenever it is reset, successfully or not, and whatever is done to its heap, contexts, handlers and counter, after each call that returned without a panic
  the instance's state and its kill state agree (not
  suspended: a fresh or cancelled kill state; suspended: in a hostcall or already marked terminated), the state is \<open>Transitioning\<close> only for a module whose
  address lookup can fail, its magic, allocation and stack are intact, no instance is current on the thread, and the handlers, the hook and the signal
  stack of the host are as they were at the start. Kill switches act between the events of the guest, and the signal handlers stay those of the runtime.\<close>

theorem lifecycle_invariant:
  assumes "region_reset (e_region env)" and "(life_step env pad s)\<^sup>*\<^sup>* (i, h) (i', h')" and "life_ok sa0 hook0 (n, b) s i h"
  shows "life_ok sa0 hook0 (n, b) s i' h'"
  using life_steps_ok [OF assms(1,2)] assms(3) by simp


text \<open>C27: Resuming delivers the value: a yielded instance accepts exactly a value of the type it expects; a value of
  another type is refused without any change; and when the guest continues by taking a value of that type, it gets
  the one it was resumed with.\<close>

theorem resume_delivers:
  assumes "region_internal (e_region env)" and "life_ok sa0 hook0 (n, b) s i h" and "bound_ok bound"
    and "inst_state i = Yielded t" and "rh_guest h = G_TakeResumed t # es" and "guest_wf (slot_heap s) True es"
    and "resume_with_val_impl env val async bound i h = Some (r, i', h')"
  shows "if any_type val \<noteq> t
    then r = Err (InvalidArgument ''type mismatch between yielded instance expected value and resumed value'') \<and> i' = i \<and> h' = h
    else res_matches (inst_module i) r (inst_state i') \<and> (\<exists>ts. rh_taken h' = ts @ val # rh_taken h)"
proof (cases "any_type val = t")
  case False
  with assms(4,7) show ?thesis by (auto simp: resume_with_val_impl_def)
next
  case True
  obtain im where d: "set_instruction_bound_delta bound (i\<lparr>inst_resumed_val := Some val\<rparr>) =
      Ok (i\<lparr>inst_resumed_val := Some val, inst_implicits := im\<rparr>)" using bound_delta_ok [OF assms(3)] by blast
  have sw: "swap_and_return env async (i\<lparr>inst_resumed_val := Some val, inst_implicits := im\<rparr>) h = Some (r, i', h')"
    using assms(4,7) True d by (simp add: resume_with_val_impl_def)
  have wf: "guest_wf (slot_heap s) True (rh_guest h)" using assms(5,6) by simp
  have "\<not> rh_at_entry h" using assms(2,4) by (auto simp: life_ok_def inst_idle_def suspended_def)
  then have "first_taken (i\<lparr>inst_resumed_val := Some val\<rparr>) h = [val]" using True assms(5) by (simp add: first_taken_def)
  with resume_life [OF assms(1,2) wf _ assms(3) d sw] assms(4) True show ?thesis by auto
qed

text \<open>C26: A call comes back with what its guest returns: whatever the guest does before (\<open>pre\<close>: stores, counts, hostcalls, faults, kills), a
  call whose guest has a return in its list comes back; when the guest has got to that return (no more than the events after it
  are left), the call returns exactly its \<open>rax\<close> and \<open>xmm0\<close> as the untyped result and the instance is ready again, unless
  a kill switch holds an upgraded reference at that moment: then the assertion in \<open>exit_guest_region\<close> panics.\<close>

theorem run_returns_value:
  assumes "region_internal (e_region env)" and "life_ok sa0 hook0 (n, b) s i h" and "guest_wf (slot_heap s) False (rh_guest h)"
    and "args_fit s args" and "bound_ok bound" and "run_func_check func args i = Ok ()" and "rh_guest h = pre @ G_Return rax rdx fp # es"
  shows "\<exists>r i' h'. run_func env func args async bound i h = Some (r, i', h') \<and>
    (length (rh_guest h') \<le> length es \<longrightarrow>
       rh_guest h' = es \<and>
       (r = Ok (Normal (Returned (untyped_ret_val_new rax fp))) \<and> inst_state i' = Ready \<or> r = Panic strong_count_panic \<and> exit_raced i')) \<and>
    (ks_domain (inst_kill_state i) = D_Pending \<longrightarrow> length (rh_guest h') < length (rh_guest h))"
proof (cases rule: run_func_via [OF assms(1-6), where async = async, case_names entered cancelled])
  case (entered i0 h0)
  have wf: "guest_wf (slot_heap s) False (pre @ G_Return rax rdx fp # es)" using assms(3,7) by simp
  from call_returns [OF assms(1) entered(2) wf entered(9) [unfolded assms(7)]] show ?thesis
    unfolding assms(7) returned_or_raced_def by blast
next
  case cancelled
  with assms(7) show ?thesis by simp
qed

text \<open>C25: Out-of-bounds stores become guest faults: whatever the guest did before, when it gets to a store of which some byte is not
  writable, all of whose bytes lie in its slot below the guard page of the signal stack, from an instruction in its trap table, and no
  signal handler of the embedder intervenes, then the guest leaves there and the call returns a non-fatal fault with that trap code and
  that instruction, the instance is faulted with the same details, or, when their lookup fails, the call fails with its error.
  (A memory fault outside the slot or in that guard page, and a fault at any other instruction, is fatal.)\<close>

theorem guard_store_faults:
  assumes "region_internal (e_region env)" and "life_ok sa0 hook0 (n, b) s i h" and "guest_wf (slot_heap s) False (rh_guest h)"
    and "args_fit s args" and "bound_ok bound" and "run_func_check func args i = Ok ()"
    and guest: "rh_guest h = pre @ G_Write rip a bs # es" and run: "run_func env func args async bound i h = Some (r, i', h')"
    and got: "length (rh_guest h') \<le> length es"
    and bad: "k < length bs" "mem_prot (rh_mem h') (a + of_nat k) \<noteq> ProtReadWrite"
    and range: "\<And>k. k < length bs \<Longrightarrow> unat (slot_heap s) \<le> unat (a + of_nat k) \<and> unat (a + of_nat k) < unat (slot_sigstack s) - 4096"
    and tc: "lookup_trapcode (e_trap_mem env) (mo_function_manifest (inst_module i)) rip = Some tc"
    and hnd: "inst_signal_handler i = DEFAULT_HANDLER"
  shows "rh_guest h' = es \<and>
    (case mo_addr_details (inst_module i) rip of
       Ok ad \<Rightarrow> \<exists>d info c. r = Err (RuntimeFault d) \<and> inst_state i' = Faulted d info c \<and>
         \<not> fatal d \<and> trapcode d = Some tc \<and> rip_addr d = rip \<and> rip_addr_details d = ad
     | Err e \<Rightarrow> r = Err e \<and> inst_state i' = Transitioning
     | Panic p \<Rightarrow> r = Panic p)"
proof (cases rule: run_func_via [OF assms(1-6), where async = async, case_names entered cancelled])
  case (entered i0 h0)
  have wf: "guest_wf (slot_heap s) False (pre @ G_Write rip a bs # es)" using assms(3) guest by simp
  obtain q i1 h1 where gr: "guest_run env (pre @ G_Write rip a bs # es) i0 h0 = Some (q, i1, h1)"
    using entered(9) run guest by (cases "guest_run env (rh_guest h) i0 h0") (auto simp: host_returns_def)
  have same: "rh_guest h' = rh_guest h1 \<and> rh_mem h' = rh_mem h1"
    using entered(9) run gr guest by (auto simp: host_returns_def dest!: more_fields split: rresult.splits)
  obtain hc2 i2 h2 where ru2: "running_ok s hc2 i2 h2" and wf2: "guest_wf (slot_heap s) hc2 (G_Write rip a bs # es)"
    and gr2: "guest_run env (G_Write rip a bs # es) i2 h2 = Some (q, i1, h1)" and fx: "inst_fixed i0 i2"
    using guest_run_reach [OF assms(1) entered(2) wf gr] got same by (auto simp del: guest_run.simps guest_wf.simps)
  have ru: "running_ok s False i2 h2" using ru2 wf2 by (cases hc2) simp_all
  have "rw_kept (rh_mem h2) (rh_mem h1)" using guest_run_ok [OF assms(1) ru2 wf2 gr2] by (simp add: host_kept_def)
  then have bad2: "mem_prot (rh_mem h2) (a + of_nat k) \<noteq> ProtReadWrite" using bad(2) same by (auto simp: rw_kept_def)
  have fx2: "inst_module i2 = inst_module i" "inst_signal_handler i2 = DEFAULT_HANDLER" using fx entered(3) hnd by (simp_all add: inst_fixed_def)
  from guest_store_fault [OF ru bad(1) bad2 range, of env rip tc] fx2 tc obtain info where
    st: "guest_step env (G_Write rip a bs) i2 h2 = G_Switch (i2\<lparr>inst_kill_state := (inst_kill_state i2)\<lparr>ks_terminable := False\<rparr>,
      inst_state := Faulted \<lparr>fatal = False, trapcode = Some tc, rip_addr = rip, rip_addr_details = None\<rparr> info \<lparr>uc_ip = rip, uc_rdi = 0\<rparr>\<rparr>) h2"
    by auto
  then have "q = Ok ()" "rh_guest h1 = es" "inst_module i1 = inst_module i"
      "inst_state i1 = Faulted \<lparr>fatal = False, trapcode = Some tc, rip_addr = rip, rip_addr_details = None\<rparr> info \<lparr>uc_ip = rip, uc_rdi = 0\<rparr>"
    using gr2 fx2 by (auto simp del: guest_step.simps)
  then show ?thesis using entered(9) run gr guest same
    by (auto simp: host_returns_def finish_swap_def Let_def split: rresult.splits)
next
  case cancelled
  with run got guest show ?thesis by simp
qed

text \<open>C30: The start function runs first and once: an instance that has not started refuses every other function; a call
  to \<open>run_start\<close> on an instance that has started changes nothing and says so; after a successful one the
  instance has started.\<close>

theorem start_runs_once:
  assumes "region_internal (e_region env)" and "life_ok sa0 hook0 (n, b) s i h" and "guest_wf (slot_heap s) False (rh_guest h)"
    and "args_fit s []" and "mo_start_func (inst_module i) = Ok (Some start)" and "is_start_func start"
    and "run_start env i h = Some (r, i', h')"
  shows "if is_not_started (inst_state i)
    then (r = Ok () \<longrightarrow> \<not> is_not_started (inst_state i')) \<and>
      (\<forall>func args async bound. \<not> is_start_func func \<longrightarrow>
         run_func env func args async bound i h = Some (Err InstanceNeedsStart, i, h))
    else r = Err StartAlreadyRun \<and> i' = i \<and> h' = h"
proof (cases "is_not_started (inst_state i)")
  case False
  with assms(5,7) show ?thesis by (simp add: run_start_def)
next
  case True
  then obtain q where run: "run_func env start [] False None i h = Some (q, i', h')" and r: "r = map_res (\<lambda>_. ()) q"
    using assms(5,7) by (auto simp: run_start_def)
  have other: "run_func env func args async bound i h = Some (Err InstanceNeedsStart, i, h)" if "\<not> is_start_func func" for func args async bound
    using that True by (simp add: run_func_def run_func_check_def Let_def)
  have "\<not> is_not_started (inst_state i')" if ok: "r = Ok ()"
  proof -
    obtain x where q: "q = Ok x" using ok r by (cases q) auto
    have "run_func_check start [] i = Ok ()"
      using run q by (cases "run_func_check start [] i") (auto simp: run_func_def)
    from run_func_life [OF assms(1-4) _ this run] q show ?thesis by (auto simp: bound_ok_def dest: res_matches_started)
  qed
  with other True show ?thesis by simp
qed

text \<open>A nested resume corrupts a yielded instance: when an instance that yielded in a hostcall is resumed on a thread
  on which another instance is running, the call fails as it should, but the instance is left \<open>Ready\<close>
  instead of yielded while its kill state is still in the hostcall: it cannot be resumed any more, and the
  next function entered in it panics.\<close>

theorem nested_resume_corrupts:
  assumes "inst_state i = Yielded (any_type val)" and "inst_entrypoint i = Some func" and "\<not> is_start_func func"
    and "ks_domain (inst_kill_state i) = D_Hostcall" and "rh_current h \<noteq> None" and "bound_ok bound"
  shows "\<exists>i'. resume_with_val_impl env val async bound i h =
      Some (Err (InternalError ''no instance must already be running on this thread''), i', h) \<and>
    inst_state i' = Ready \<and>
    resume_with_val_impl env val async bound i' h = Some (Err (InvalidArgument ''can only resume a yielded instance''), i', h) \<and>
    (\<forall>h2. rh_at_entry h2 \<longrightarrow> (\<exists>h3. swap_to_guest env i' h2 =
       Some (Panic ''Invalid state: Instance marked as in a hostcall while entering a guest region.'', i', h3)))"
proof -
  obtain im where d: "set_instruction_bound_delta bound (i\<lparr>inst_resumed_val := Some val\<rparr>) =
      Ok (i\<lparr>inst_resumed_val := Some val, inst_implicits := im\<rparr>)" using bound_delta_ok [OF assms(6)] by blast
  let ?i = "i\<lparr>inst_resumed_val := Some val, inst_implicits := im, inst_state := Ready\<rparr>"
  have "resume_with_val_impl env val async bound i h =
      Some (Err (InternalError ''no instance must already be running on this thread''), ?i, h)"
    using assms d by (simp add: resume_with_val_impl_def swap_and_return_def with_current_instance_def can_swap_def)
  moreover have "resume_with_val_impl env val async bound ?i h =
      Some (Err (InvalidArgument ''can only resume a yielded instance''), ?i, h)"
    by (simp add: resume_with_val_impl_def)
  ultimately show ?thesis using assms(4)
    by (intro exI [of _ ?i]) (simp add: swap_to_guest_def enter_guest_region_def)
qed

end
