(* ===== verification/Run_Examples.thy ===== *)
theory Run_Examples
  imports Instance_Life
begin

text \<open>
  Concrete inputs for the properties of signals and of running instances: each theorem applies one property to
  an instance in the region's example slot.
\<close>

section \<open>Inputs\<close>

text \<open>The instance of the region's examples, in a module with a function of one \<open>i32\<close> parameter, on a thread
  of the example host.\<close>

definition demo_func :: function_handle where
  "demo_func = \<lparr>fh_ptr = 0x1000, fh_id = 0, is_start_func = False\<rparr>"

definition demo_start :: function_handle where
  "demo_start = \<lparr>fh_ptr = 0x1040, fh_id = 1, is_start_func = True\<rparr>"

definition demo_run_module :: module_ops where
  "demo_run_module = demo_module\<lparr>mo_signature := (\<lambda>f. Ok \<lparr>params = if f = 0 then [TI32] else [], ret_ty = None\<rparr>),
     mo_start_func := Ok (Some demo_start),
     mo_function_manifest := demo_manifest\<rparr>"

definition demo_run_inst :: inst where
  "demo_run_inst = demo_inst\<lparr>inst_module := demo_run_module\<rparr>"

definition demo_env :: run_env where
  "demo_env = \<lparr>e_syms = \<lparr>lucet_context_bootstrap_addr = 0x7000, lucet_context_backstop_addr = 0x7100\<rparr>,
     e_activate = 0x7200, e_enter_guest = 0x7300, e_exit_guest = 0x7400, e_context_set = 0x7500, e_host_ctx = 0x8000,
     e_ctx_offset = 64, e_trap_mem = demo_trap_mem, e_handlers = (\<lambda>_ _ _ _ _ _. Behavior_Default),
     e_region = mmap_region_ops demo_sys\<rparr>"

definition demo_run_host :: "guest_event list \<Rightarrow> run_host" where
  "demo_run_host es = host.extend demo_host (run_host.fields demo_inst_mem None 1 False None [] es)"

lemma demo_run_host_fields [simp]:
  "rh_mem (demo_run_host es) = demo_inst_mem" "rh_current (demo_run_host es) = None" "rh_guest (demo_run_host es) = es"
  "rh_taken (demo_run_host es) = []" "rh_at_entry (demo_run_host es) = False" "rh_vmctx (demo_run_host es) = None"
  by (simp_all add: demo_run_host_def host.extend_def run_host.fields_def)

lemma demo_region_internal: "region_internal (e_region demo_env)"
  by (simp add: demo_env_def os_memory.mmap_region_internal [OF demo_os])

lemma demo_region_reset: "region_reset (e_region demo_env)"
  by (simp add: demo_env_def os_memory.mmap_region_reset [OF demo_os])

lemma demo_stack_rw: "stack_rw demo_slot demo_inst_mem"
  unfolding stack_rw_def
proof (intro allI impI)
  fix a assume "in_range (slot_stack demo_slot) (stack_size (slot_limits demo_slot)) a"
  then have "location demo_alloc demo_slot a = Stack" using location_ranges(3) [OF demo_inv] by blast
  then show "mem_prot demo_inst_mem a = ProtReadWrite" using demo_inst_live by (auto simp: live_mem_def dest!: spec [of _ a])
qed

lemma demo_host_idle: "idle_host (h_sigaction demo_host) (HostHook 1) (0, False) (demo_run_host es)"
  using demo_host_abs
  by (simp add: idle_host_def sig_abs_def arcs_below_def altstack_ok_def demo_run_host_def host.extend_def run_host.fields_def demo_host_def)

lemma demo_inst_more:
  "inst_state demo_inst = Ready" "inst_kill_state demo_inst = kill_state_new" "inst_signal_handler demo_inst = DEFAULT_HANDLER"
  "inst_ensure_signal_handler_installed demo_inst" "inst_ensure_sigstack_installed demo_inst" "inst_entrypoint demo_inst = None"
  by (simp_all add: demo_inst_def instance_new_def alloc_slot_def demo_alloc_def set_instruction_count_and_bound_def
      i64_expect_def set_hostcall_stack_reservation_def set_globals_ptr_def)

lemma demo_initial_size: "heap_initial_size demo_run_module = heap_initial_size demo_module"
  by (simp add: heap_initial_size_def demo_run_module_def)

lemma demo_basic: "inst_basic demo_slot demo_run_inst"
proof -
  have "heap_initial_size demo_module \<le> heap_memory_size_limit demo_alloc"
    by (simp add: heap_initial_size_def demo_module_def mock_module_ops_def demo_alloc_def md_heap_spec_def module_data_empty_def
        heap_spec_new_def)
  moreover have "MINSIGSTKSZ \<le> signal_stack_size (slot_limits demo_slot)"
    by (simp add: demo_slot_def limits_default_def MINSIGSTKSZ_def DEFAULT_SIGNAL_STACK_SIZE_def)
  ultimately show ?thesis
    using demo_inv demo_inst_fields demo_inst_more demo_module_hyps
    by (simp add: inst_basic_def demo_run_inst_def valid_magic_def wants_signals_def demo_initial_size)
qed

lemma demo_life: "life_ok (h_sigaction demo_host) (HostHook 1) (0, False) demo_slot demo_run_inst (demo_run_host es)"
  using demo_basic demo_host_idle demo_stack_rw demo_inst_more
  by (simp add: life_ok_def inst_idle_def ks_idle_def kill_state_new_def demo_run_inst_def)

lemma demo_args_fit: "args_fit demo_slot [VI32 7]" "args_fit demo_slot []"
  by (simp_all add: demo_slot_def limits_default_def frame_size_def memory_args_def is_spilled_def gp_values_def
      List.map_filter_def upt_rec)

lemma demo_check: "run_func_check demo_func [VI32 7] demo_run_inst = Ok ()"
  using demo_inst_more by (simp add: run_func_check_def demo_run_inst_def demo_func_def demo_run_module_def)

lemma demo_pending: "ks_domain (inst_kill_state demo_run_inst) = D_Pending" "ks_upgraded (inst_kill_state demo_run_inst) = 0"
  using demo_inst_more by (simp_all add: demo_run_inst_def kill_state_new_def)

text \<open>The same instance in a module that exports two functions.\<close>

definition demo_c_inst :: inst where
  "demo_c_inst = demo_run_inst\<lparr>inst_module := demo_run_module\<lparr>mo_export_func :=
     (\<lambda>s. if s = ''f'' then Ok demo_func else if s = ''g'' then Ok (demo_func\<lparr>fh_ptr := 0x1100\<rparr>) else Err (SymbolNotFound s))\<rparr>\<rparr>"

lemma demo_c_life: "life_ok (h_sigaction demo_host) (HostHook 1) (0, False) demo_slot demo_c_inst (demo_run_host es)"
  using demo_basic demo_host_idle demo_stack_rw demo_inst_more
  by (simp add: life_ok_def inst_idle_def ks_idle_def kill_state_new_def demo_run_inst_def demo_c_inst_def inst_basic_def valid_magic_def wants_signals_def
      suspended_def heap_initial_size_def)

lemma demo_c_check: "run_func_check demo_func [VI32 7] demo_c_inst = Ok ()" "ks_domain (inst_kill_state demo_c_inst) = D_Pending"
  "ks_upgraded (inst_kill_state demo_c_inst) = 0"
  using demo_inst_more
  by (simp_all add: run_func_check_def demo_c_inst_def demo_run_inst_def demo_func_def demo_run_module_def kill_state_new_def)

lemma demo_bound: "bound_ok None"
  by (simp add: bound_ok_def)

text \<open>An instance suspended in a hostcall, and a thread in which it is.\<close>

definition demo_yielded :: inst where
  "demo_yielded = demo_run_inst\<lparr>inst_state := Yielded ''u32'', inst_entrypoint := Some demo_func,
     inst_kill_state := kill_state_new\<lparr>ks_domain := D_Hostcall\<rparr>\<rparr>"

definition demo_vmctx :: vmctx where
  "demo_vmctx = \<lparr>vm_heap_len = 0x10000, vm_heap_flag = Readers 0, vm_globals_flag = Readers 0\<rparr>"

definition demo_suspended_host :: "guest_event list \<Rightarrow> run_host" where
  "demo_suspended_host es = (demo_run_host es)\<lparr>rh_vmctx := Some (slot_heap demo_slot, demo_vmctx)\<rparr>"

lemma demo_yielded_life:
  "life_ok (h_sigaction demo_host) (HostHook 1) (0, False) demo_slot demo_yielded (demo_suspended_host es)"
proof -
  have "idle_host (h_sigaction demo_host) (HostHook 1) (0, False) (demo_suspended_host es)"
    using demo_host_idle [of es]
    by (simp add: demo_suspended_host_def idle_host_def sig_abs_def arcs_below_def altstack_ok_def)
  then show ?thesis using demo_basic demo_stack_rw
    by (simp add: life_ok_def inst_idle_def suspended_def ks_hostcall_def demo_yielded_def demo_suspended_host_def kill_state_new_def)
qed

lemma demo_trap: "lookup_trapcode demo_trap_mem demo_manifest 0x1009 = Some StackOverflow"
  by code_simp

section \<open>Properties at these inputs\<close>

theorem with_signals_restores_witness:
  "\<exists>i' h'. with_signals_on (\<lambda>i h. Some (Ok (), i, h)) demo_inst demo_host = Some (Ok (), i', h') \<and>
     h_sigaction h' = h_sigaction demo_host \<and> h_hook h' = HostHook 1 \<and> h_altstack h' = None"
proof -
  have "altstack_ok demo_host" by (simp add: altstack_ok_def demo_host_def)
  moreover have "wants_signals demo_inst" using demo_inst_more by (simp add: wants_signals_def)
  moreover have "alloc_slot_opt (inst_alloc demo_inst) = Some demo_slot" using demo_inst_fields demo_inv by simp
  moreover have "MINSIGSTKSZ \<le> signal_stack_size (slot_limits demo_slot)" using demo_basic by (simp add: inst_basic_def)
  ultimately show ?thesis
    using with_signals_restores [OF demo_host_abs, of demo_inst demo_slot "\<lambda>i h. Some (Ok (), i, h)" "Ok ()"]
    by (auto simp: sig_abs_def demo_host_def)
qed

theorem guest_fault_classified_witness:
  "\<exists>i' h'. handle_signal (\<lambda>_ _ _ _ _ _. Behavior_Default) demo_trap_mem 0x7500 0x8000 SIGSEGV
      \<lparr>si_signo = SIGSEGV, si_addr = 0x10011000\<rparr> \<lparr>uc_ip = 0x1009, uc_rdi = 0\<rparr> (Some demo_run_inst) demo_host =
      (Ok (None, Some i', \<lparr>uc_ip = 0x7500, uc_rdi = 0x8000\<rparr>), h') \<and> is_faulted (inst_state i') \<and> \<not> is_fatal (inst_state i')"
proof -
  have inv: "alloc_inv (inst_alloc demo_run_inst)" "alloc_slot_opt (inst_alloc demo_run_inst) = Some demo_slot"
    using demo_basic by (simp_all add: inst_basic_def)
  have tc: "lookup_trapcode demo_trap_mem (mo_function_manifest (inst_module demo_run_inst)) 0x1009 = Some StackOverflow"
    by (simp add: demo_run_inst_def demo_run_module_def demo_trap)
  have hd: "call_signal_handler (\<lambda>_ _ _ _ _ _. Behavior_Default) demo_run_inst tc sg info uc = Behavior_Default" for tc sg info uc
    by (simp add: call_signal_handler_def signal_handler_none_def)
  have al: "\<not> ks_ignore_alarm (inst_kill_state demo_run_inst)"
    using demo_inst_more by (simp add: demo_run_inst_def kill_state_new_def)
  from guest_fault_classified [OF inv, of SIGSEGV "\<lparr>si_signo = SIGSEGV, si_addr = 0x10011000\<rparr>" "Some StackOverflow" demo_trap_mem
      "\<lparr>uc_ip = 0x1009, uc_rdi = 0\<rparr>" "\<lambda>_ _ _ _ _ _. Behavior_Default" "0x7500" "0x8000" demo_host] tc hd al
  show ?thesis by (auto simp: demo_slot_def limits_default_def)
qed

theorem lifecycle_invariant_witness:
  "\<exists>i h. (life_step demo_env 0 demo_slot)\<^sup>*\<^sup>* (demo_run_inst, demo_run_host []) (i, h) \<and> is_ready (inst_state i) \<and>
     inst_signal_handler i = 3 \<and> ks_domain (inst_kill_state i) = D_Cancelled \<and>
     life_ok (h_sigaction demo_host) (HostHook 1) (0, False) demo_slot i h"
proof -
  let ?es = "[G_Return 5 0 0]"
  obtain i1 h1 where run: "run_func demo_env demo_func [VI32 7] False None demo_run_inst ((demo_run_host [])\<lparr>rh_guest := ?es\<rparr>) =
      Some (Ok (Normal (Returned (untyped_ret_val_new 5 0))), i1, h1)" and st: "inst_state i1 = Ready"
    using run_func_return_event [OF demo_region_internal _ demo_args_fit(1) demo_bound demo_check demo_pending, of "h_sigaction demo_host" "HostHook 1" 0 False
        "(demo_run_host [])\<lparr>rh_guest := ?es\<rparr>" 5 0 0 False] demo_life [of "[]"] by auto
  have s1: "life_step demo_env 0 demo_slot (demo_run_inst, demo_run_host []) (i1, h1)"
    by (rule life_run [OF _ demo_args_fit(1) demo_bound run]) simp_all
  have "life_ok (h_sigaction demo_host) (HostHook 1) (0, False) demo_slot i1 h1"
    using life_step_ok [OF demo_region_reset _ s1] demo_life by simp
  then have ks: "ks_idle (inst_kill_state i1)" using st by (auto simp: life_ok_def inst_idle_def)
  let ?i2 = "set_signal_handler 3 i1"
  have s2: "life_step demo_env 0 demo_slot (i1, h1) (?i2, h1)" by (rule life_signal_handler)
  obtain r ks' where tm: "terminate (\<lambda>_ k. k) (Some (inst_kill_state ?i2)) = (r, Some ks')" and ks': "ks_domain ks' = D_Cancelled"
    using ks by (auto simp: ks_idle_def terminate_def disable_termination_def terminate_domain_def set_signal_handler_def)
  have s3: "life_step demo_env 0 demo_slot (?i2, h1) (?i2\<lparr>inst_kill_state := ks'\<rparr>, h1)" by (rule life_kill [OF tm])
  have steps: "(life_step demo_env 0 demo_slot)\<^sup>*\<^sup>* (demo_run_inst, demo_run_host []) (?i2\<lparr>inst_kill_state := ks'\<rparr>, h1)"
    using s1 s2 s3 by (meson converse_rtranclp_into_rtranclp rtranclp.rtrancl_refl)
  from lifecycle_invariant [OF demo_region_reset this demo_life] steps st ks' show ?thesis
    by (intro exI [of _ "?i2\<lparr>inst_kill_state := ks'\<rparr>"] exI [of _ h1]) (simp add: set_signal_handler_def)
qed


text \<open>A guest that counts, makes a hostcall and returns.\<close>

abbreviation busy_guest :: "guest_event list" where
  "busy_guest \<equiv> [G_Count 3, G_HostcallEnter (slot_heap demo_slot), G_HostcallReturn]"

lemma busy_guest_runs:
  assumes "running_ok demo_slot False i h" and "ks_upgraded (inst_kill_state i) = 0"
  shows "\<exists>i' h'. guest_run env (busy_guest @ es) i h = guest_run env es i' h' \<and> running_ok demo_slot False i' h' \<and>
    ks_upgraded (inst_kill_state i') = 0 \<and> inst_fixed i i' \<and> rh_mem h' = rh_mem h"
proof -
  let ?i = "i\<lparr>inst_implicits := (inst_implicits i)\<lparr>instruction_count_adj := instruction_count_adj (inst_implicits i) + 3\<rparr>\<rparr>"
  have ru: "running_ok demo_slot False ?i h" using assms(1) by (simp add: running_ok_def)
  obtain v i1 where en: "hostcall_enter (rh_current h) (slot_heap demo_slot) ?i = Ok (v, i1)" using hostcall_enter_ok [OF ru] by blast
  then have i1: "i1 = ?i\<lparr>inst_kill_state := (inst_kill_state i)\<lparr>ks_domain := D_Hostcall\<rparr>\<rparr>"
    using ru by (auto simp: hostcall_enter_def begin_hostcall_def running_ok_def split: rresult.splits)
  let ?i2 = "?i\<lparr>inst_kill_state := (inst_kill_state i)\<lparr>ks_domain := D_Guest\<rparr>\<rparr>" and ?h = "h\<lparr>rh_vmctx := None\<rparr>"
  have "hostcall_return i1 = Ok (True, ?i2)" by (simp add: i1 hostcall_return_def end_hostcall_def)
  then have "guest_run env (busy_guest @ es) i h = guest_run env es ?i2 ?h" using en by simp
  moreover have "running_ok demo_slot False ?i2 ?h" using assms(1) by (simp add: running_ok_def)
  ultimately show ?thesis using assms(2) by (intro exI [of _ ?i2] exI [of _ ?h]) simp
qed

theorem run_returns_value_witness:
  "\<exists>i h. run_func demo_env demo_func [VI32 7] False None demo_run_inst (demo_run_host (busy_guest @ [G_Return 5 0 0])) =
      Some (Ok (Normal (Returned (untyped_ret_val_new 5 0))), i, h) \<and> inst_state i = Ready"
proof -
  let ?h = "demo_run_host (busy_guest @ [G_Return 5 0 0])"
  have wf: "guest_wf (slot_heap demo_slot) False (rh_guest ?h)" by simp
  obtain r i h where run: "run_func demo_env demo_func [VI32 7] False None demo_run_inst ?h = Some (r, i, h)"
    and val: "length (rh_guest h) \<le> length [] \<Longrightarrow> r = Ok (Normal (Returned (untyped_ret_val_new 5 0))) \<and> inst_state i = Ready \<or>
      r = Panic strong_count_panic \<and> exit_raced i"
    using run_returns_value [OF demo_region_internal demo_life wf demo_args_fit(1) demo_bound demo_check demo_run_host_fields(3),
        where async = False] by auto
  have "rh_guest h = [] \<and> \<not> exit_raced i"
  proof (cases rule: run_func_via [OF demo_region_internal demo_life wf demo_args_fit(1) demo_bound demo_check, where async = False,
        case_names entered cancelled])
    case (entered i0 h0)
    have up0: "ks_upgraded (inst_kill_state i0) = 0" using entered(4) demo_pending by simp
    obtain i1 h1 where g: "guest_run demo_env (busy_guest @ [G_Return 5 0 0]) i0 h0 = guest_run demo_env [G_Return 5 0 0] i1 h1"
      and ru: "running_ok demo_slot False i1 h1" and up: "ks_upgraded (inst_kill_state i1) = 0"
      using busy_guest_runs [OF entered(2) up0] by blast
    let ?j = "i1\<lparr>inst_ctx := (inst_ctx i1)\<lparr>retvals_gp := (5, 0), retval_fp := 0\<rparr>,
         inst_kill_state := (inst_kill_state i1)\<lparr>ks_terminable := False\<rparr>\<rparr>"
    have "guest_run demo_env [G_Return 5 0 0] i1 h1 = Some (Ok (), ?j, h1\<lparr>rh_guest := []\<rparr>)"
      using guest_return_exact [OF ru, of demo_env 5 0 0] up by (simp add: Let_def del: guest_step.simps)
    then have gr: "guest_run demo_env (rh_guest ?h) i0 h0 = Some (Ok (), ?j, h1\<lparr>rh_guest := []\<rparr>)"
      using g unfolding demo_run_host_fields by (simp only:)
    have "is_running (inst_state ?j)" using ru by (simp add: running_ok_def)
    from finish_returned [OF this] entered(9) [unfolded gr] run show ?thesis by (auto simp: host_returns_def exit_raced_def dest: more_fields)
  next
    case cancelled
    with demo_pending show ?thesis by simp
  qed
  with val run show ?thesis by auto
qed

theorem guard_store_faults_witness:
  "\<exists>d i h. run_func demo_env demo_func [VI32 7] False None demo_run_inst (demo_run_host (busy_guest @ [G_Write 0x1009 0x10011000 [1]])) =
      Some (Err (RuntimeFault d), i, h) \<and> trapcode d = Some StackOverflow \<and> \<not> fatal d \<and> is_faulted (inst_state i)"
proof -
  let ?h = "demo_run_host (busy_guest @ [G_Write 0x1009 0x10011000 [1]])"
  have wf: "guest_wf (slot_heap demo_slot) False (rh_guest ?h)" by simp
  have prot: "mem_prot demo_inst_mem 0x10011000 \<noteq> ProtReadWrite"
    by (simp add: demo_inst_mem_def demo_mem_def location_def slot_sections_def locate_iff demo_slot_def demo_alloc_def
        in_range_def limits_default_def)
  have tc: "lookup_trapcode (e_trap_mem demo_env) (mo_function_manifest (inst_module demo_run_inst)) 0x1009 = Some StackOverflow"
    by (simp add: demo_env_def demo_run_inst_def demo_run_module_def demo_trap)
  have hnd: "inst_signal_handler demo_run_inst = DEFAULT_HANDLER" using demo_inst_more by (simp add: demo_run_inst_def)
  have range: "unat (slot_heap demo_slot) \<le> unat ((0x10011000 :: u64) + of_nat k) \<and> unat ((0x10011000 :: u64) + of_nat k) < unat (slot_sigstack demo_slot) - 4096"
    if "k < length [1 :: u8]" for k using that by (simp add: demo_slot_def)
  obtain r i h where run: "run_func demo_env demo_func [VI32 7] False None demo_run_inst ?h = Some (r, i, h)"
    and got: "rh_guest h = []" "mem_prot (rh_mem h) = mem_prot demo_inst_mem"
  proof (cases rule: run_func_via [OF demo_region_internal demo_life wf demo_args_fit(1) demo_bound demo_check, where async = False,
        case_names entered cancelled])
    case (entered i0 h0)
    have up0: "ks_upgraded (inst_kill_state i0) = 0" using entered(4) demo_pending by simp
    obtain i1 h1 where g: "guest_run demo_env (busy_guest @ [G_Write 0x1009 0x10011000 [1]]) i0 h0 = guest_run demo_env [G_Write 0x1009 0x10011000 [1]] i1 h1"
      and ru: "running_ok demo_slot False i1 h1" and fx: "inst_fixed i0 i1" and m: "rh_mem h1 = rh_mem h0"
      using busy_guest_runs [OF entered(2) up0] by blast
    have "inst_module i1 = inst_module demo_run_inst" "inst_signal_handler i1 = DEFAULT_HANDLER"
      using fx entered(3) hnd by (simp_all add: inst_fixed_def)
    moreover have "mem_prot (rh_mem h1) ((0x10011000 :: u64) + of_nat 0) \<noteq> ProtReadWrite" using m entered(7) prot by simp
    ultimately obtain j where "guest_step demo_env (G_Write 0x1009 0x10011000 [1]) i1 h1 = G_Switch j h1"
      using guest_store_fault [OF ru _ _ range, where bs = "[1]" and k = 0 and env = demo_env and rip = "0x1009" and tc = StackOverflow] tc
      by (auto simp del: guest_step.simps)
    then have "guest_run demo_env [G_Write 0x1009 0x10011000 [1]] i1 h1 = Some (Ok (), j, h1\<lparr>rh_guest := []\<rparr>)"
      by (simp del: guest_step.simps)
    then have gr: "guest_run demo_env (rh_guest ?h) i0 h0 = Some (Ok (), j, h1\<lparr>rh_guest := []\<rparr>)"
      using g unfolding demo_run_host_fields by (simp only:)
    from entered(9) [unfolded gr] obtain h' where "run_func demo_env demo_func [VI32 7] False None demo_run_inst ?h =
        Some (fst (finish_swap (descheduled j)), snd (finish_swap (descheduled j)), h')"
      and "host.more h' = host.more (h1\<lparr>rh_guest := []\<rparr>\<lparr>rh_current := None\<rparr>)" by (auto simp: host_returns_def)
    then show thesis using that more_fields [of h' "h1\<lparr>rh_guest := []\<rparr>\<lparr>rh_current := None\<rparr>"] entered(7) m by simp
  next
    case cancelled
    with demo_pending show thesis by simp
  qed
  have "mo_addr_details (inst_module demo_run_inst) a = Ok None" for a
    by (simp add: demo_run_inst_def demo_run_module_def demo_module_def mock_module_ops_def)
  with guard_store_faults [OF demo_region_internal demo_life wf demo_args_fit(1) demo_bound demo_check demo_run_host_fields(3) run _ _ _ range tc hnd, of 0]
    got prot run show ?thesis by auto
qed

theorem nested_resume_corrupts_witness:
  "\<exists>i. resume_with_val_impl demo_env (Any ''u32'' 3) False None demo_yielded ((demo_suspended_host [])\<lparr>rh_current := Some 0x20000000\<rparr>) =
      Some (Err (InternalError ''no instance must already be running on this thread''), i,
        (demo_suspended_host [])\<lparr>rh_current := Some 0x20000000\<rparr>) \<and> inst_state i = Ready"
  using nested_resume_corrupts [of demo_yielded "Any ''u32'' 3" demo_func "(demo_suspended_host [])\<lparr>rh_current := Some 0x20000000\<rparr>"
      None demo_env False] demo_bound
  by (auto simp: demo_yielded_def demo_func_def kill_state_new_def)

lemma demo_resume_runs:
  "\<exists>r i h. resume_with_val_impl demo_env (Any ''u32'' 3) False None demo_yielded
     (demo_suspended_host [G_TakeResumed ''u32'', G_HostcallPanic None]) = Some (r, i, h)"
proof -
  let ?h = "demo_suspended_host [G_TakeResumed ''u32'', G_HostcallPanic None]"
  let ?val = "Any ''u32'' 3"
  obtain im where d: "set_instruction_bound_delta None (demo_yielded\<lparr>inst_resumed_val := Some ?val\<rparr>) =
      Ok (demo_yielded\<lparr>inst_resumed_val := Some ?val, inst_implicits := im\<rparr>)" using bound_delta_ok [OF demo_bound] by blast
  have wf: "guest_wf (slot_heap demo_slot) True (rh_guest ?h)" and st: "is_yielded (inst_state demo_yielded) \<or> is_bound_expired (inst_state demo_yielded)"
    by (simp_all add: demo_suspended_host_def demo_yielded_def)
  obtain i0 h0 where ru: "running_ok demo_slot True i0 h0" and rv: "inst_resumed_val i0 = Some ?val"
    and via: "host_returns (idle_host (h_sigaction demo_host) (HostHook 1) (0, False)) (guest_run demo_env (rh_guest ?h) i0 h0)
      (swap_and_return demo_env False (demo_yielded\<lparr>inst_resumed_val := Some ?val, inst_implicits := im\<rparr>) ?h)"
    by (rule resume_via [OF demo_region_internal demo_yielded_life wf st])
  obtain v where v: "rh_vmctx h0 = Some (slot_heap demo_slot, v)" using ru by (auto simp: running_ok_def)
  let ?i = "i0\<lparr>inst_resumed_val := None\<rparr>" and ?h1 = "h0\<lparr>rh_taken := ?val # rh_taken h0\<rparr>"
  have t: "guest_step demo_env (G_TakeResumed ''u32'') i0 h0 = G_Continue ?i ?h1"
    using guest_take_first [OF v rv, of demo_env] by simp
  obtain w where "vmctx_from_raw (rh_current h0) (slot_heap demo_slot) ?i = Ok w"
    using from_raw_ok [of demo_slot ?i h0] ru by (auto simp: running_ok_def)
  then have "guest_run demo_env [G_TakeResumed ''u32'', G_HostcallPanic None] i0 h0 \<noteq> None"
    using t v by (simp add: hostcall_result_def hostcall_unwind_def del: guest_step.simps(14))
  then have "\<exists>r i h. swap_and_return demo_env False (demo_yielded\<lparr>inst_resumed_val := Some ?val, inst_implicits := im\<rparr>) ?h = Some (r, i, h)"
    using host_returns_Some [OF via] by (simp add: demo_suspended_host_def)
  then show ?thesis using d by (simp add: resume_with_val_impl_def) (simp add: demo_yielded_def)
qed

theorem resume_delivers_witness:
  "\<exists>r i h. resume_with_val_impl demo_env (Any ''u32'' 3) False None demo_yielded
     (demo_suspended_host [G_TakeResumed ''u32'', G_HostcallPanic None]) = Some (r, i, h) \<and>
   (\<exists>ts. rh_taken h = ts @ [Any ''u32'' 3])"
proof -
  obtain r i h where run: "resume_with_val_impl demo_env (Any ''u32'' 3) False None demo_yielded
     (demo_suspended_host [G_TakeResumed ''u32'', G_HostcallPanic None]) = Some (r, i, h)" using demo_resume_runs by blast
  have "inst_state demo_yielded = Yielded ''u32''" by (simp add: demo_yielded_def)
  moreover have "rh_guest (demo_suspended_host es) = es" "rh_taken (demo_suspended_host es) = []" for es
    by (simp_all add: demo_suspended_host_def)
  ultimately show ?thesis
    using resume_delivers [OF demo_region_internal demo_yielded_life demo_bound _ _ _ run, of "''u32''" "[G_HostcallPanic None]"] run
    by auto
qed

definition demo_unstarted :: inst where
  "demo_unstarted = demo_run_inst\<lparr>inst_state := NotStarted\<rparr>"

lemma demo_unstarted_life:
  "life_ok (h_sigaction demo_host) (HostHook 1) (0, False) demo_slot demo_unstarted (demo_run_host es)"
proof -
  have "ks_idle (inst_kill_state demo_run_inst)" using demo_inst_more by (simp add: ks_idle_def kill_state_new_def demo_run_inst_def)
  then show ?thesis using demo_basic demo_host_idle demo_stack_rw by (simp add: life_ok_def inst_idle_def demo_unstarted_def)
qed

theorem start_runs_once_witness:
  "\<exists>i h. run_start demo_env demo_unstarted (demo_run_host [G_Return 0 0 0]) = Some (Ok (), i, h) \<and>
     \<not> is_not_started (inst_state i) \<and>
     run_func demo_env demo_func [] False None demo_unstarted (demo_run_host [G_Return 0 0 0]) =
       Some (Err InstanceNeedsStart, demo_unstarted, demo_run_host [G_Return 0 0 0])"
proof -
  have chk: "run_func_check demo_start [] demo_unstarted = Ok ()"
    by (simp add: run_func_check_def demo_unstarted_def demo_run_inst_def demo_run_module_def demo_start_def)
  have "ks_domain (inst_kill_state demo_unstarted) = D_Pending" "ks_upgraded (inst_kill_state demo_unstarted) = 0"
    using demo_pending by (simp_all add: demo_unstarted_def)
  from run_func_return_event [OF demo_region_internal demo_unstarted_life demo_args_fit(2) demo_bound chk this demo_run_host_fields(3)]
  obtain i h where "run_func demo_env demo_start [] False None demo_unstarted (demo_run_host [G_Return 0 0 0]) =
      Some (Ok (Normal (Returned (untyped_ret_val_new 0 0))), i, h)" by blast
  moreover have st: "mo_start_func (inst_module demo_unstarted) = Ok (Some demo_start)" "is_start_func demo_start"
      "\<not> is_start_func demo_func" "is_not_started (inst_state demo_unstarted)"
    by (simp_all add: demo_unstarted_def demo_run_inst_def demo_run_module_def demo_start_def demo_func_def)
  ultimately have run: "run_start demo_env demo_unstarted (demo_run_host [G_Return 0 0 0]) = Some (Ok (), i, h)"
    by (simp add: run_start_def)
  have "guest_wf (slot_heap demo_slot) False (rh_guest (demo_run_host [G_Return 0 0 0]))" by simp
  from start_runs_once [OF demo_region_internal demo_unstarted_life this demo_args_fit(2) st(1,2) run] st run show ?thesis
    by simp
qed

end
