(* ===== verification/Bindings.thy ===== *)
theory Bindings
  imports Module_Data "HOL-Library.AList"
begin

text \<open>
  Import bindings (\<open>lucet-module/src/bindings.rs\<close>): which symbol an import of a module is linked to. A
  \<open>HashMap\<close> is an association list with distinct keys, its order the order of iteration; \<open>map_of\<close> is its
  lookup and \<open>AList.update\<close> its insertion. Reading and printing JSON text is a library's work and a
  parameter; the JSON values are modelled. The lemmas show that merging is a union that refuses exactly the
  conflicts, whatever the order of iteration, and that the JSON form is faithful.
\<close>

section \<open>Data\<close>

type_synonym ('k, 'v) hash_map = "('k \<times> 'v) list"

datatype json =
    JNull
  | JBool bool
  | JNumber string
  | JString string
  | JArray "json list"
  | JObject "(string \<times> json) list"

fun as_object :: "json \<Rightarrow> (string, json) hash_map option" where
  "as_object (JObject m) = Some m"
| "as_object _ = None"

fun as_str :: "json \<Rightarrow> string option" where
  "as_str (JString s) = Some s"
| "as_str _ = None"

record bindings =
  bound :: "(string, (string, string) hash_map) hash_map"

definition bindings_new :: "(string, (string, string) hash_map) hash_map \<Rightarrow> bindings" where
  "bindings_new b = \<lparr>bound = b\<rparr>"

definition bindings_env :: "(string, string) hash_map \<Rightarrow> bindings" where
  "bindings_env env = bindings_new [(''env'', env)]"

definition bindings_empty :: bindings where
  "bindings_empty = bindings_new []"

section \<open>Merging and lookup\<close>

text \<open>The inner loop of \<open>extend\<close>, over the bindings of a module that both sides have.\<close>

fun extend_module ::
  "(string, string) hash_map \<Rightarrow> (string, string) hash_map \<Rightarrow> (module_error, unit) rresult \<times> (string, string) hash_map" where
  "extend_module [] existing = (Ok (), existing)"
| "extend_module ((bindname, binding) # rest) existing =
     (case map_of existing bindname of
        None \<Rightarrow> extend_module rest (AList.update bindname binding existing)
      | Some b \<Rightarrow>
          if binding \<noteq> b then (Err (RebindError bindname binding b), existing)
          else extend_module rest existing)"

fun extend_loop ::
  "(string, (string, string) hash_map) hash_map \<Rightarrow> (string, (string, string) hash_map) hash_map \<Rightarrow>
   (module_error, unit) rresult \<times> (string, (string, string) hash_map) hash_map" where
  "extend_loop [] self = (Ok (), self)"
| "extend_loop ((modname, othermodbindings) # rest) self =
     (case map_of self modname of
        Some existing \<Rightarrow>
          (case extend_module othermodbindings existing of
             (Ok _, existing') \<Rightarrow> extend_loop rest (AList.update modname existing' self)
           | (e, existing') \<Rightarrow> (e, AList.update modname existing' self))
      | None \<Rightarrow> extend_loop rest (AList.update modname othermodbindings self))"

definition bindings_extend :: "bindings \<Rightarrow> bindings \<Rightarrow> (module_error, unit) rresult \<times> bindings" where
  "bindings_extend other self = (case extend_loop (bound other) (bound self) of (r, b) \<Rightarrow> (r, bindings_new b))"

definition translate :: "bindings \<Rightarrow> string \<Rightarrow> string \<Rightarrow> (module_error, string) rresult" where
  "translate b module symbol =
     (case map_of (bound b) module of
        Some m \<Rightarrow>
          (case map_of m symbol of
             Some s \<Rightarrow> Ok s
           | None \<Rightarrow> Err (UnknownSymbol module symbol))
      | None \<Rightarrow> Err (UnknownModule module symbol))"

section \<open>JSON\<close>

text \<open>\<open>show_json\<close> is \<open>Value::to_string\<close>, used in errors.\<close>

fun parse_methods_json_obj ::
  "(json \<Rightarrow> string) \<Rightarrow> (string, json) hash_map \<Rightarrow> (string, string) hash_map \<Rightarrow>
   (module_error, (string, string) hash_map) rresult" where
  "parse_methods_json_obj show_json [] res = Ok res"
| "parse_methods_json_obj show_json ((method, i) # rest) res =
     (case as_str i of
        Some importbinding \<Rightarrow> parse_methods_json_obj show_json rest (AList.update method importbinding res)
      | None \<Rightarrow> Err (ParseError method (show_json i)))"

fun parse_modules_json_obj ::
  "(json \<Rightarrow> string) \<Rightarrow> (string, json) hash_map \<Rightarrow> (string, (string, string) hash_map) hash_map \<Rightarrow>
   (module_error, bindings) rresult" where
  "parse_modules_json_obj show_json [] res = Ok (bindings_new res)"
| "parse_modules_json_obj show_json ((modulename, vs) # rest) res =
     (case as_object vs of
        Some methods \<Rightarrow>
          rbind (parse_methods_json_obj show_json methods []) (\<lambda>methodmap.
            parse_modules_json_obj show_json rest (AList.update modulename methodmap res))
      | None \<Rightarrow> Err (ParseError modulename (show_json vs)))"

definition from_json :: "(json \<Rightarrow> string) \<Rightarrow> json \<Rightarrow> (module_error, bindings) rresult" where
  "from_json show_json v =
     (case as_object v of
        Some modules \<Rightarrow> parse_modules_json_obj show_json modules []
      | None \<Rightarrow> Err ParseJsonObjError)"

definition bindings_from_str ::
  "(json \<Rightarrow> string) \<Rightarrow> (string \<Rightarrow> json option) \<Rightarrow> string \<Rightarrow> (module_error, bindings) rresult" where
  "bindings_from_str show_json parse s =
     (case parse s of None \<Rightarrow> Err ParseJsonError | Some v \<Rightarrow> from_json show_json v)"

fun serialize_methods_json_obj :: "(string, string) hash_map \<Rightarrow> (string, json) hash_map \<Rightarrow> (string, json) hash_map" where
  "serialize_methods_json_obj [] m = m"
| "serialize_methods_json_obj ((methodname, symbol) # rest) m =
     serialize_methods_json_obj rest (AList.update methodname (JString symbol) m)"

fun serialize_modules_json_obj ::
  "(string, (string, string) hash_map) hash_map \<Rightarrow> (string, json) hash_map \<Rightarrow> (string, json) hash_map" where
  "serialize_modules_json_obj [] m = m"
| "serialize_modules_json_obj ((modulename, vs) # rest) m =
     serialize_modules_json_obj rest (AList.update modulename (JObject (serialize_methods_json_obj vs [])) m)"

definition to_json :: "bindings \<Rightarrow> json" where
  "to_json b = JObject (serialize_modules_json_obj (bound b) [])"

definition bindings_to_string :: "(json \<Rightarrow> string option) \<Rightarrow> bindings \<Rightarrow> (module_error, string) rresult" where
  "bindings_to_string print b = (case print (to_json b) of None \<Rightarrow> Err ParseJsonError | Some s \<Rightarrow> Ok s)"

section \<open>Lemmas\<close>

abbreviation hash_map_ok :: "('k, 'v) hash_map \<Rightarrow> bool" where
  "hash_map_ok m \<equiv> distinct (map fst m)"

definition bindings_inv :: "(string, (string, string) hash_map) hash_map \<Rightarrow> bool" where
  "bindings_inv b \<longleftrightarrow> hash_map_ok b \<and> (\<forall>m ms. map_of b m = Some ms \<longrightarrow> hash_map_ok ms)"

text \<open>The symbol of an import, as a partial function.\<close>

definition binding_of :: "(string, (string, string) hash_map) hash_map \<Rightarrow> string \<Rightarrow> string \<rightharpoonup> string" where
  "binding_of b m s = Option.bind (map_of b m) (\<lambda>ms. map_of ms s)"

lemma hash_map_ok_update [simp]: "hash_map_ok m \<Longrightarrow> hash_map_ok (AList.update k v m)"
  by (rule distinct_update)

lemma map_of_update [simp]: "map_of (AList.update k v m) = (map_of m)(k \<mapsto> v)"
  by (rule update_conv')

lemma update_new: "map_of m k = None \<Longrightarrow> AList.update k v m = m @ [(k, v)]"
  by (induction m) (auto split: if_splits)

lemma binding_of_update:
  "binding_of (AList.update m ms b) m' s = (if m' = m then map_of ms s else binding_of b m' s)"
  by (simp add: binding_of_def)

lemma translate_iff: "translate b m s = Ok x \<longleftrightarrow> binding_of (bound b) m s = Some x"
  by (auto simp: translate_def binding_of_def split: option.splits)

lemma bindings_inv_update: "bindings_inv b \<Longrightarrow> hash_map_ok ms \<Longrightarrow> bindings_inv (AList.update m ms b)"
  by (simp add: bindings_inv_def)

text \<open>What the two loops compute on finite maps: the union when the maps agree, and otherwise a conflict, reported by
  \<open>err\<close> with the value of \<open>g\<close> first.\<close>

abbreviation agree :: "('k \<rightharpoonup> 'v) \<Rightarrow> ('k \<rightharpoonup> 'v) \<Rightarrow> bool" where
  "agree f g \<equiv> \<forall>k x y. f k = Some x \<longrightarrow> g k = Some y \<longrightarrow> x = y"

fun merge_outcome ::
  "('k \<Rightarrow> 'v \<Rightarrow> 'v \<Rightarrow> 'e) \<Rightarrow> ('k \<rightharpoonup> 'v) \<Rightarrow> ('k \<rightharpoonup> 'v) \<Rightarrow> ('e, unit) rresult \<Rightarrow> ('k \<rightharpoonup> 'v) \<Rightarrow> bool" where
  "merge_outcome err f g (Ok _) h = (agree f g \<and> h = g ++ f)"
| "merge_outcome err f g (Err e) h = (\<exists>k x y. e = err k y x \<and> f k = Some x \<and> g k = Some y \<and> x \<noteq> y)"
| "merge_outcome err f g (Panic _) h = False"

lemma merge_outcome_step:
  assumes agree: "agree f g1" and disj: "dom g1 \<inter> dom g2 = {}" and out: "merge_outcome err (g1 ++ f) g2 r h"
  shows "merge_outcome err f (g1 ++ g2) r h"
proof (cases r)
  case (Ok u)
  have "g2 ++ (g1 ++ f) = (g1 ++ g2) ++ f" using map_add_comm [OF disj] by simp
  moreover have "agree f (g1 ++ g2)" using agree out Ok by (fastforce simp: map_add_def split: option.splits)
  ultimately show ?thesis using Ok out by simp
next
  case (Err e)
  then have "\<exists>k x y. e = err k y x \<and> (g1 ++ f) k = Some x \<and> g2 k = Some y \<and> x \<noteq> y"
    using out by (simp only: merge_outcome.simps)
  then obtain k x y where c: "e = err k y x" "(g1 ++ f) k = Some x" "g2 k = Some y" "x \<noteq> y"
    by (elim exE conjE) (rule that)
  then have "g1 k = None" using disj by blast
  then have "f k = Some x" "(g1 ++ g2) k = Some y" using c by (auto simp: map_add_def split: option.splits)
  then have "\<exists>k x y. e = err k y x \<and> f k = Some x \<and> (g1 ++ g2) k = Some y \<and> x \<noteq> y"
    using c by (intro exI [of _ k] exI [of _ x] exI [of _ y]) simp
  then show ?thesis by (simp only: Err merge_outcome.simps)
qed (use out in simp)

lemma extend_module_outcome:
  assumes "extend_module other ex = (r, ex')" and "hash_map_ok other" and "hash_map_ok ex"
  shows "hash_map_ok ex' \<and> merge_outcome RebindError (map_of ex) (map_of other) r (map_of ex')"
  using assms
proof (induction other ex rule: extend_module.induct)
  case (1 ex)
  then show ?case by auto
next
  case (2 k v rest ex)
  have disj: "dom [k \<mapsto> v] \<inter> dom (map_of rest) = {}" using 2(4) by (auto simp: dom_map_of_conv_image_fst)
  have whole: "map_of ((k, v) # rest) = [k \<mapsto> v] ++ map_of rest"
    using map_add_comm [OF disj] by simp
  show ?case
  proof (cases "map_of ex k")
    case None
    then have eq: "[k \<mapsto> v] ++ map_of ex = map_of (AList.update k v ex)"
      by (auto simp: fun_eq_iff map_add_def split: option.splits)
    have "hash_map_ok ex'" "merge_outcome RebindError ([k \<mapsto> v] ++ map_of ex) (map_of rest) r (map_of ex')"
      unfolding eq using 2(1) [OF None] 2(3,4,5) None by (simp_all del: map_of_update)
    moreover have "agree (map_of ex) [k \<mapsto> v]" using None by auto
    ultimately show ?thesis unfolding whole using merge_outcome_step [OF _ disj, of "map_of ex"] by blast
  next
    case (Some b)
    show ?thesis
    proof (cases "v = b")
      case True
      then have eq: "[k \<mapsto> v] ++ map_of ex = map_of ex" using Some by (auto simp: fun_eq_iff map_add_def split: option.splits)
      have "hash_map_ok ex'" "merge_outcome RebindError ([k \<mapsto> v] ++ map_of ex) (map_of rest) r (map_of ex')"
        unfolding eq using 2(2) [OF Some] 2(3,4,5) Some True by simp_all
      moreover have "agree (map_of ex) [k \<mapsto> v]" using Some True by auto
      ultimately show ?thesis unfolding whole using merge_outcome_step [OF _ disj, of "map_of ex"] by blast
    qed (use Some 2(3,5) in auto)
  qed
qed

abbreviation binding_map :: "(string, (string, string) hash_map) hash_map \<Rightarrow> string \<times> string \<rightharpoonup> string" where
  "binding_map b \<equiv> (\<lambda>(m, s). binding_of b m s)"

lemma binding_map_Cons:
  assumes "hash_map_ok ((m, ms) # rest)"
  shows "binding_map ((m, ms) # rest) = binding_map [(m, ms)] ++ binding_map rest"
    and "dom (binding_map [(m, ms)]) \<inter> dom (binding_map rest) = {}"
proof -
  have "map_of rest m = None" using assms by (simp add: map_of_eq_None_iff)
  then show "binding_map ((m, ms) # rest) = binding_map [(m, ms)] ++ binding_map rest"
    and "dom (binding_map [(m, ms)]) \<inter> dom (binding_map rest) = {}"
    by (auto simp: fun_eq_iff map_add_def binding_of_def split: option.splits if_splits)
qed

lemma extend_loop_outcome:
  assumes "extend_loop other self = (r, self')" and "bindings_inv other" and "bindings_inv self"
  shows "bindings_inv self' \<and>
    merge_outcome (\<lambda>(m, s). RebindError s) (binding_map self) (binding_map other) r (binding_map self')"
  using assms
proof (induction other self rule: extend_loop.induct)
  case (1 self)
  then show ?case by (auto simp: fun_eq_iff binding_of_def map_add_def split: option.splits)
next
  case (2 m ms rest self)
  have keys: "hash_map_ok ((m, ms) # rest)" using 2(4) by (simp add: bindings_inv_def)
  have ok: "hash_map_ok ms" using 2(4) unfolding bindings_inv_def by (metis map_of_Cons_code(2))
  have inv_rest: "bindings_inv rest"
  proof -
    have "map_of rest m' = Some ms' \<Longrightarrow> m' \<noteq> m" for m' ms' using keys by (force dest: map_of_SomeD)
    then show ?thesis using 2(4) unfolding bindings_inv_def by (metis distinct.simps(2) list.simps(9) map_of_Cons_code(2))
  qed
  let ?g = "binding_map [(m, ms)]"
  note whole = binding_map_Cons(1) [OF keys] and disj = binding_map_Cons(2) [OF keys]
  show ?case
  proof (cases "map_of self m")
    case None
    have "?g ++ binding_map self = binding_map (AList.update m ms self)"
      using None by (auto simp: fun_eq_iff binding_of_def map_add_def split: option.splits)
    moreover have "agree (binding_map self) ?g" using None by (auto simp: binding_of_def split: if_splits)
    moreover have "bindings_inv self' \<and> merge_outcome (\<lambda>(m, s). RebindError s) (binding_map (AList.update m ms self)) (binding_map rest) r (binding_map self')"
      using 2(1) [OF None] 2(3,5) None ok inv_rest by (simp add: bindings_inv_update)
    ultimately show ?thesis unfolding whole using merge_outcome_step [OF _ disj, of "binding_map self"] by metis
  next
    case (Some ex)
    then have ex: "hash_map_ok ex" using 2(5) by (simp add: bindings_inv_def)
    obtain r1 ex' where inner: "extend_module ms ex = (r1, ex')" by (cases "extend_module ms ex")
    note o = extend_module_outcome [OF inner ok ex]
    show ?thesis
    proof (cases r1)
      case (Ok u)
      have "?g ++ binding_map self = binding_map (AList.update m ex' self)"
        using o Some Ok by (auto simp: fun_eq_iff binding_of_def map_add_def split: option.splits)
      moreover have "agree (binding_map self) ?g" using o Some Ok by (auto simp: binding_of_def split: if_splits)
      moreover have "bindings_inv self' \<and> merge_outcome (\<lambda>(m, s). RebindError s) (binding_map (AList.update m ex' self)) (binding_map rest) r (binding_map self')"
        using 2(2) [OF Some inner [symmetric] Ok] 2(3,5) Some inner Ok o inv_rest by (simp add: bindings_inv_update)
      ultimately show ?thesis unfolding whole using merge_outcome_step [OF _ disj, of "binding_map self"] by metis
    next
      case (Err e)
      then obtain k x y where c: "e = RebindError k y x" "map_of ex k = Some x" "map_of ms k = Some y" "x \<noteq> y" using o by auto
      have "merge_outcome (\<lambda>(m, s). RebindError s) (binding_map self) (binding_map ((m, ms) # rest)) (Err e) f" for f
        unfolding merge_outcome.simps using c Some by (intro exI [of _ "(m, k)"]) (simp add: binding_of_def)
      then show ?thesis using 2(3,5) Some inner Err o by (auto simp: bindings_inv_update)
    next
      case (Panic p)
      then show ?thesis using o by simp
    qed
  qed
qed

lemma serialize_methods_append:
  assumes "hash_map_ok ms" and "\<forall>k \<in> fst ` set ms. map_of m k = None"
  shows "serialize_methods_json_obj ms m = m @ map (\<lambda>(k, v). (k, JString v)) ms"
  using assms
proof (induction ms m rule: serialize_methods_json_obj.induct)
  case (2 k v rest m)
  have new: "AList.update k (JString v) m = m @ [(k, JString v)]" using 2(3) by (simp add: update_new)
  have "\<forall>l \<in> fst ` set rest. map_of (m @ [(k, JString v)]) l = None" using 2(2,3) by (auto simp: map_add_def)
  with 2(1,2) new show ?case by simp
qed simp

lemma serialize_modules_append:
  assumes "hash_map_ok b" and "\<forall>k \<in> fst ` set b. map_of m k = None"
  shows "serialize_modules_json_obj b m = m @ map (\<lambda>(k, v). (k, JObject (serialize_methods_json_obj v []))) b"
  using assms
proof (induction b m rule: serialize_modules_json_obj.induct)
  case (2 k v rest m)
  let ?v = "JObject (serialize_methods_json_obj v [])"
  have new: "AList.update k ?v m = m @ [(k, ?v)]" using 2(3) by (simp add: update_new)
  have "\<forall>l \<in> fst ` set rest. map_of (m @ [(k, ?v)]) l = None" using 2(2,3) by (auto simp: map_add_def)
  with 2(1,2) new show ?case by simp
qed simp

lemma parse_methods_append:
  assumes "hash_map_ok ms" and "\<forall>k \<in> fst ` set ms. map_of res k = None"
  shows "parse_methods_json_obj sh (map (\<lambda>(k, v). (k, JString v)) ms) res = Ok (res @ ms)"
  using assms
proof (induction ms arbitrary: res)
  case (Cons a ms)
  obtain k v where a: "a = (k, v)" by (cases a)
  have "AList.update k v res = res @ [(k, v)]" using Cons.prems a by (simp add: update_new)
  moreover have "\<forall>l \<in> fst ` set ms. map_of (res @ [(k, v)]) l = None" using Cons.prems a by (auto simp: map_add_def)
  ultimately show ?case using Cons.IH [of "res @ [(k, v)]"] Cons.prems a by simp
qed simp

lemma parse_modules_append:
  assumes "hash_map_ok b" and "\<forall>(k, ms) \<in> set b. hash_map_ok ms" and "\<forall>k \<in> fst ` set b. map_of res k = None"
  shows "parse_modules_json_obj sh (map (\<lambda>(k, v). (k, JObject (serialize_methods_json_obj v []))) b) res =
    Ok (bindings_new (res @ b))"
  using assms
proof (induction b arbitrary: res)
  case (Cons a b)
  obtain k ms where a: "a = (k, ms)" by (cases a)
  have "parse_methods_json_obj sh (serialize_methods_json_obj ms []) [] = Ok ms"
    using Cons.prems(2) a by (simp add: serialize_methods_append parse_methods_append)
  moreover have "AList.update k ms res = res @ [(k, ms)]" using Cons.prems(3) a by (simp add: update_new)
  moreover have "\<forall>l \<in> fst ` set b. map_of (res @ [(k, ms)]) l = None" using Cons.prems a by (auto simp: map_add_def)
  ultimately show ?case using Cons.IH [of "res @ [(k, ms)]"] Cons.prems a by simp
qed simp

section \<open>Properties\<close>

text \<open>Merging bindings is a union that refuses conflicts, whatever the order of iteration: it succeeds exactly when the
  two agree on every import both bind, and then translates every import that either translates, to the same
  symbol; otherwise the error names an import both bind to different symbols, with the \<^emph>\<open>new\<close> symbol in the
  field \<open>binding\<close> and the present one in \<open>attempt\<close>. It never panics, and the maps keep distinct keys.\<close>

theorem extend_is_union:
  assumes "bindings_inv (bound self)" and "bindings_inv (bound other)" and "bindings_extend other self = (r, self')"
  shows "bindings_inv (bound self') \<and>
    (case r of
       Ok _ \<Rightarrow> (\<forall>m s x y. translate self m s = Ok x \<longrightarrow> translate other m s = Ok y \<longrightarrow> x = y) \<and>
         (\<forall>m s x. translate self' m s = Ok x \<longleftrightarrow> translate self m s = Ok x \<or> translate other m s = Ok x)
     | Err e \<Rightarrow> (\<exists>m s x y. translate self m s = Ok x \<and> translate other m s = Ok y \<and> x \<noteq> y \<and>
         rebind_key e = s \<and> rebind_binding e = y \<and> rebind_attempt e = x)
     | Panic _ \<Rightarrow> False)"
proof -
  obtain b where run: "extend_loop (bound other) (bound self) = (r, b)" and self': "bound self' = b"
    using assms(3) by (auto simp: bindings_extend_def bindings_new_def split: prod.splits)
  note o = extend_loop_outcome [OF run assms(2,1)]
  show ?thesis
  proof (cases r)
    case (Ok u)
    then have agree: "\<forall>m s x y. binding_of (bound self) m s = Some x \<longrightarrow> binding_of (bound other) m s = Some y \<longrightarrow> x = y"
      and un: "binding_map b = binding_map (bound other) ++ binding_map (bound self)" using o by auto
    have "binding_of b m s = (case binding_of (bound self) m s of None \<Rightarrow> binding_of (bound other) m s | Some x \<Rightarrow> Some x)" for m s
      using fun_cong [OF un, of "(m, s)"] by (cases "binding_of (bound self) m s") (simp_all add: map_add_def)
    with agree o self' Ok show ?thesis by (auto simp: translate_iff split: option.splits)
  qed (use o self' in \<open>auto simp: translate_iff\<close>)
qed

text \<open>The JSON form of bindings is faithful: reading back what \<open>to_json\<close> wrote gives the same bindings.\<close>

theorem bindings_json_roundtrip:
  assumes "bindings_inv (bound b)"
  shows "from_json show_json (to_json b) = Ok b"
proof -
  have "hash_map_ok (bound b)" "\<forall>(k, ms) \<in> set (bound b). hash_map_ok ms"
    using assms by (auto simp: bindings_inv_def)
  then show ?thesis
    by (simp add: from_json_def to_json_def serialize_modules_append parse_modules_append bindings_new_def)
qed

definition demo_bindings :: bindings where
  "demo_bindings = bindings_env [(''print'', ''host_print''), (''exit'', ''host_exit'')]"

definition demo_other :: bindings where
  "demo_other = bindings_new [(''env'', [(''exit'', ''other_exit'')]), (''wasi'', [])]"

lemma demo_bindings_inv: "bindings_inv (bound demo_bindings)" "bindings_inv (bound demo_other)"
  by (auto simp: demo_bindings_def demo_other_def bindings_env_def bindings_new_def bindings_inv_def)

theorem extend_is_union_witness:
  "\<exists>self' e. bindings_extend demo_other demo_bindings = (Err e, self') \<and>
     rebind_binding e = ''other_exit'' \<and> rebind_attempt e = ''host_exit''"
proof -
  obtain r self' where run: "bindings_extend demo_other demo_bindings = (r, self')" by (cases "bindings_extend demo_other demo_bindings")
  have e: "r = Err (RebindError ''exit'' ''other_exit'' ''host_exit'')"
    using run by (simp add: bindings_extend_def demo_other_def demo_bindings_def bindings_env_def bindings_new_def)
  from extend_is_union [OF demo_bindings_inv run] e run show ?thesis by auto
qed

theorem bindings_json_roundtrip_witness: "from_json (\<lambda>_. []) (to_json demo_bindings) = Ok demo_bindings"
  by (rule bindings_json_roundtrip [OF demo_bindings_inv(1)])

end
