(* ===== verification/Validate.thy ===== *)
theory Validate
  imports Bindings
begin

text \<open>
  The compiler's validator (\<open>lucetc/src/validate.rs\<close>): imports are checked against Witx documents, exports
  against what the WASI mode requires. A document of the Witx library is given by its lookups: the functions
  of a module, and their core signatures. The lemmas characterize the report for every sequence of
  registrations.
\<close>

section \<open>Data\<close>

text \<open>The value types of WebAssembly as \<open>cranelift_wasm\<close> has them; \<open>W_Other\<close> stands for those the sources
  do not name.\<close>

datatype wasm_type = W_I32 | W_I64 | W_F32 | W_F64 | W_FuncRef | W_Other string

record wasm_func_type =
  wf_params :: "wasm_type list"
  wf_returns :: "wasm_type list"

datatype witx_type = X_I32 | X_I64 | X_F32 | X_F64

type_synonym witx_func = "witx_type list \<times> witx_type list"
type_synonym document = "string \<Rightarrow> (string \<Rightarrow> witx_func option) option"

datatype validation_error =
    ImportNotFound string string
  | ExportNotFound string
  | ImportTypeError string string wasm_func_type wasm_func_type
  | ExportTypeError string wasm_func_type wasm_func_type
  | MissingRequiredExport string wasm_func_type

datatype wasi_mode = Command | Reactor

datatype export_required = Required | Optional

record export_spec =
  es_name :: string
  es_required :: export_required
  es_type :: wasm_func_type
  es_result :: "(validation_error, unit) rresult option"

record validator =
  v_witx :: "document list"
  v_exports :: "(string, export_spec) hash_map"
  v_import_errors :: "validation_error list"

record validator_builder =
  vb_witx :: "document list"
  vb_wasi_mode :: "wasi_mode option"

section \<open>Operations\<close>

definition validator_builder_new :: validator_builder where
  "validator_builder_new = \<lparr>vb_witx = [], vb_wasi_mode = None\<rparr>"

definition with_witx :: "document \<Rightarrow> validator_builder \<Rightarrow> validator_builder" where
  "with_witx doc b = b\<lparr>vb_witx := vb_witx b @ [doc]\<rparr>"

text \<open>\<open>parse\<close> is \<open>witx::parse\<close>, an external function; \<open>with_load_witx\<close> has the same shape.\<close>

definition with_parse_witx ::
  "(string \<Rightarrow> ('e, document) rresult) \<Rightarrow> string \<Rightarrow> validator_builder \<Rightarrow> ('e, validator_builder) rresult" where
  "with_parse_witx parse source b = rbind (parse source) (\<lambda>doc. Ok (with_witx doc b))"

definition with_wasi_mode :: "wasi_mode option \<Rightarrow> validator_builder \<Rightarrow> validator_builder" where
  "with_wasi_mode mode b = b\<lparr>vb_wasi_mode := mode\<rparr>"

definition validator_new :: "document list \<Rightarrow> (string \<times> export_required \<times> wasm_func_type) list \<Rightarrow> validator" where
  "validator_new witx exports =
     \<lparr>v_witx = witx,
      v_exports = fold (\<lambda>(name, required, type) m.
        AList.update name \<lparr>es_name = name, es_required = required, es_type = type, es_result = None\<rparr> m) exports [],
      v_import_errors = []\<rparr>"

definition no_params_no_returns :: wasm_func_type where
  "no_params_no_returns = \<lparr>wf_params = [], wf_returns = []\<rparr>"

definition validator_build :: "validator_builder \<Rightarrow> validator" where
  "validator_build b =
     validator_new (vb_witx b)
       (case vb_wasi_mode b of
          None \<Rightarrow> []
        | Some Command \<Rightarrow> [(''_start'', Required, no_params_no_returns)]
        | Some Reactor \<Rightarrow> [(''_initialize'', Optional, no_params_no_returns)])"

fun atom_to_type :: "witx_type \<Rightarrow> wasm_type" where
  "atom_to_type X_I32 = W_I32"
| "atom_to_type X_I64 = W_I64"
| "atom_to_type X_F32 = W_F32"
| "atom_to_type X_F64 = W_F64"

fun witx_to_functype :: "witx_func \<Rightarrow> ('e, wasm_func_type) rresult" where
  "witx_to_functype (ps, []) = Ok \<lparr>wf_params = map atom_to_type ps, wf_returns = []\<rparr>"
| "witx_to_functype (ps, [r]) = Ok \<lparr>wf_params = map atom_to_type ps, wf_returns = [atom_to_type r]\<rparr>"
| "witx_to_functype (ps, _) = Panic ''not implemented: multiple result types''"

text \<open>\<open>find_map\<close> over the documents.\<close>

fun find_module :: "document list \<Rightarrow> string \<Rightarrow> (string \<Rightarrow> witx_func option) option" where
  "find_module [] module = None"
| "find_module (doc # docs) module = (case doc module of Some m \<Rightarrow> Some m | None \<Rightarrow> find_module docs module)"

definition check_import :: "document list \<Rightarrow> string \<Rightarrow> string \<Rightarrow> wasm_func_type \<Rightarrow> (validation_error, unit) rresult" where
  "check_import witx module field type =
     (case find_module witx module of
        None \<Rightarrow> Err (ImportNotFound module field)
      | Some m \<Rightarrow>
          (case m field of
             None \<Rightarrow> Err (ImportNotFound module field)
           | Some func \<Rightarrow>
               rbind (witx_to_functype func) (\<lambda>spec_type.
                 if spec_type \<noteq> type then Err (ImportTypeError module field spec_type type) else Ok ())))"

definition register_import :: "string \<Rightarrow> string \<Rightarrow> wasm_func_type \<Rightarrow> validator \<Rightarrow> (unit, validator) rresult" where
  "register_import module field type v =
     (case check_import (v_witx v) module field type of
        Ok _ \<Rightarrow> Ok v
      | Err e \<Rightarrow> Ok (v\<lparr>v_import_errors := v_import_errors v @ [e]\<rparr>)
      | Panic p \<Rightarrow> Panic p)"

definition register_export :: "string \<Rightarrow> wasm_func_type \<Rightarrow> validator \<Rightarrow> validator" where
  "register_export name type v =
     (case map_of (v_exports v) name of
        None \<Rightarrow> v
      | Some e \<Rightarrow>
          v\<lparr>v_exports := AList.update name
              (e\<lparr>es_result := Some (if es_type e \<noteq> type then Err (ExportTypeError name (es_type e) type) else Ok ())\<rparr>)
              (v_exports v)\<rparr>)"

definition export_result :: "export_spec \<Rightarrow> validation_error option" where
  "export_result e =
     (case es_result e of
        Some (Err err) \<Rightarrow> Some err
      | None \<Rightarrow> if es_required e = Required then Some (MissingRequiredExport (es_name e) (es_type e)) else None
      | _ \<Rightarrow> None)"

definition report :: "validator \<Rightarrow> (validation_error list, unit) rresult" where
  "report v =
     (let errs = v_import_errors v @ List.map_filter (\<lambda>(_, ex). export_result ex) (v_exports v)
      in if errs = [] then Ok () else Err errs)"

section \<open>Lemmas\<close>

text \<open>The registrations of a module, in order.\<close>

datatype registration =
    Reg_Import string string wasm_func_type
  | Reg_Export string wasm_func_type

fun register :: "registration \<Rightarrow> validator \<Rightarrow> (unit, validator) rresult" where
  "register (Reg_Import module field type) v = register_import module field type v"
| "register (Reg_Export name type) v = Ok (register_export name type v)"

fun register_all :: "registration list \<Rightarrow> validator \<Rightarrow> (unit, validator) rresult" where
  "register_all [] v = Ok v"
| "register_all (r # rs) v = rbind (register r v) (register_all rs)"

text \<open>The type an export was last registered with.\<close>

fun last_export :: "string \<Rightarrow> registration list \<Rightarrow> wasm_func_type option" where
  "last_export name [] = None"
| "last_export name (Reg_Import _ _ _ # rs) = last_export name rs"
| "last_export name (Reg_Export n type # rs) =
     (case last_export name rs of None \<Rightarrow> if n = name then Some type else None | Some t \<Rightarrow> Some t)"

text \<open>What an import has to be. The function an import names is that of the first document with the module; the types agree one by one.\<close>

definition spec_func :: "document list \<Rightarrow> string \<Rightarrow> string \<Rightarrow> witx_func option" where
  "spec_func witx module field = (case filter (\<lambda>doc. doc module \<noteq> None) witx of [] \<Rightarrow> None | doc # _ \<Rightarrow> the (doc module) field)"

definition core_types :: "(witx_type \<times> wasm_type) set" where
  "core_types = {(X_I32, W_I32), (X_I64, W_I64), (X_F32, W_F32), (X_F64, W_F64)}"

definition types_agree :: "witx_type list \<Rightarrow> wasm_type list \<Rightarrow> bool" where
  "types_agree = list_all2 (\<lambda>x w. (x, w) \<in> core_types)"

fun import_ok :: "document list \<Rightarrow> registration \<Rightarrow> bool" where
  "import_ok witx (Reg_Import module field type) =
     (case spec_func witx module field of None \<Rightarrow> False | Some (ps, rs) \<Rightarrow> types_agree ps (wf_params type) \<and> types_agree rs (wf_returns type))"
| "import_ok witx (Reg_Export _ _) = True"

text \<open>An import of a function with several results.\<close>

fun several_results :: "document list \<Rightarrow> registration \<Rightarrow> bool" where
  "several_results witx (Reg_Import module field type) = (case spec_func witx module field of None \<Rightarrow> False | Some (ps, rs) \<Rightarrow> 1 < length rs)"
| "several_results witx (Reg_Export _ _) = False"

lemma spec_func_find: "spec_func witx module field = Option.bind (find_module witx module) (\<lambda>m. m field)"
  by (induction witx) (auto simp: spec_func_def split: option.splits)

lemma types_agree_map: "types_agree xs ws \<longleftrightarrow> ws = map atom_to_type xs"
proof -
  have "(x, w) \<in> core_types \<longleftrightarrow> w = atom_to_type x" for x w by (cases x) (auto simp: core_types_def)
  then show ?thesis unfolding types_agree_def by (induction xs arbitrary: ws) (auto simp: list_all2_Cons1)
qed

lemma witx_to_functype_panics: "(\<exists>p. witx_to_functype f = Panic p) \<longleftrightarrow> 1 < length (snd f)"
  by (cases f rule: witx_to_functype.cases) simp_all

lemma spec_func_Some:
  assumes "spec_func witx m f = Some g"
  obtains fns where "find_module witx m = Some fns" "fns f = Some g"
  using assms by (auto simp: spec_func_find bind_eq_Some_conv)

lemma spec_func_None: "spec_func witx m f = None \<Longrightarrow> check_import witx m f t = Err (ImportNotFound m f)"
  by (auto simp: check_import_def spec_func_find split: option.splits)

lemma check_import_panics: "(\<exists>p. check_import witx m f t = Panic p) \<longleftrightarrow> several_results witx (Reg_Import m f t)"
proof (cases "spec_func witx m f")
  case (Some g)
  then obtain fns where fns: "find_module witx m = Some fns" "fns f = Some g" by (rule spec_func_Some)
  have "(\<exists>p. check_import witx m f t = Panic p) \<longleftrightarrow> (\<exists>p. (witx_to_functype g :: (validation_error, _) rresult) = Panic p)"
    using fns by (cases "witx_to_functype g :: (validation_error, _) rresult") (simp_all add: check_import_def)
  then show ?thesis using Some by (simp add: witx_to_functype_panics case_prod_unfold)
qed (simp add: spec_func_None)

lemma check_import_accepts:
  assumes "\<not> several_results witx (Reg_Import m f t)"
  shows "check_import witx m f t = Ok () \<longleftrightarrow> import_ok witx (Reg_Import m f t)"
proof (cases "spec_func witx m f")
  case (Some g)
  then obtain fns where fns: "find_module witx m = Some fns" "fns f = Some g" by (rule spec_func_Some)
  obtain ps rs where g: "g = (ps, rs)" "length rs \<le> 1" using assms Some by (cases g) auto
  have ty: "(witx_to_functype g :: (validation_error, _) rresult) = Ok \<lparr>wf_params = map atom_to_type ps, wf_returns = map atom_to_type rs\<rparr>"
    using g by (cases g rule: witx_to_functype.cases) auto
  have "\<lparr>wf_params = map atom_to_type ps, wf_returns = map atom_to_type rs\<rparr> = t \<longleftrightarrow> wf_params t = map atom_to_type ps \<and> wf_returns t = map atom_to_type rs"
    by (cases t) auto
  then show ?thesis using Some fns ty g(1) by (simp add: check_import_def types_agree_map)
qed (simp add: spec_func_None)

lemma register_import_witx [simp]: "register_import m f t v = Ok v' \<Longrightarrow> v_witx v' = v_witx v \<and> v_exports v' = v_exports v"
  by (auto simp: register_import_def split: rresult.splits)

lemma register_export_witx [simp]: "v_witx (register_export n t v) = v_witx v"
  "v_import_errors (register_export n t v) = v_import_errors v"
  by (simp_all add: register_export_def split: option.split)

lemma register_export_other: "map_of (v_exports (register_export n t v)) k =
    (if k = n then map_option (\<lambda>e. e\<lparr>es_result := Some (if es_type e \<noteq> t then Err (ExportTypeError n (es_type e) t) else Ok ())\<rparr>)
       (map_of (v_exports v) n) else map_of (v_exports v) k)"
  by (simp add: register_export_def split: option.split)

lemma register_import_runs:
  "(\<exists>p. register_import m f t v = Panic p) \<and> several_results (v_witx v) (Reg_Import m f t) \<or>
   (\<exists>v'. register_import m f t v = Ok v' \<and> v_witx v' = v_witx v) \<and> \<not> several_results (v_witx v) (Reg_Import m f t)"
  using check_import_panics [of "v_witx v" m f t]
  by (cases "check_import (v_witx v) m f t") (simp_all add: register_import_def del: several_results.simps)

lemma register_all_runs:
  "case register_all rs v of
     Ok v' \<Rightarrow> \<forall>r \<in> set rs. \<not> several_results (v_witx v) r
   | Err _ \<Rightarrow> False
   | Panic _ \<Rightarrow> \<exists>r \<in> set rs. several_results (v_witx v) r"
proof (induction rs arbitrary: v)
  case (Cons r rs)
  have "(\<exists>p. register r v = Panic p) \<and> several_results (v_witx v) r \<or>
    (\<exists>v'. register r v = Ok v' \<and> v_witx v' = v_witx v) \<and> \<not> several_results (v_witx v) r"
    using register_import_runs by (cases r) (simp_all del: several_results.simps(1))
  then show ?case
  proof (elim disjE conjE exE)
    fix v' assume "register r v = Ok v'" "v_witx v' = v_witx v" "\<not> several_results (v_witx v) r"
    then show ?thesis using Cons.IH [of v'] by (simp split: rresult.splits)
  qed simp
qed simp

lemma register_all_imports:
  assumes "register_all rs v = Ok v'"
  shows "v_import_errors v' = [] \<longleftrightarrow> v_import_errors v = [] \<and> (\<forall>r \<in> set rs. import_ok (v_witx v) r)"
  using assms
proof (induction rs arbitrary: v)
  case (Cons r rs)
  then obtain v1 where s: "register r v = Ok v1" "register_all rs v1 = Ok v'" by auto
  show ?case
  proof (cases r)
    case (Reg_Import m f t)
    have "v_witx v1 = v_witx v" using s(1) Reg_Import by simp
    moreover have "v_import_errors v1 = [] \<longleftrightarrow> v_import_errors v = [] \<and> check_import (v_witx v) m f t = Ok ()"
      using s(1) Reg_Import by (simp add: register_import_def) (force split: rresult.splits)
    moreover have "check_import (v_witx v) m f t = Ok () \<longleftrightarrow> import_ok (v_witx v) r"
    proof -
      have "\<not> several_results (v_witx v) r" using register_all_runs [of "r # rs" v] unfolding Cons.prems by simp
      then show ?thesis unfolding Reg_Import by (rule check_import_accepts)
    qed
    ultimately show ?thesis using Cons.IH [OF s(2)] by auto
  next
    case (Reg_Export n t)
    with s Cons.IH [OF s(2)] show ?thesis by auto
  qed
qed simp

lemma register_all_keys:
  assumes "register_all rs v = Ok v'"
  shows "map fst (v_exports v') = map fst (v_exports v)"
  using assms
proof (induction rs arbitrary: v)
  case (Cons r rs)
  then obtain v1 where s: "register r v = Ok v1" "register_all rs v1 = Ok v'" by auto
  have "map fst (v_exports v1) = map fst (v_exports v)"
  proof (cases r)
    case (Reg_Export n t)
    with s(1) show ?thesis
      by (auto simp: register_export_def update_keys split: option.splits dest: map_of_SomeD)
        (metis Some_eq_map_of_iff fst_conv image_eqI option.distinct(1) map_of_eq_None_iff)
  qed (use s(1) in auto)
  with Cons.IH [OF s(2)] show ?case by simp
qed simp

lemma register_all_export:
  assumes "register_all rs v = Ok v'" and "map_of (v_exports v) k = Some e"
  shows "map_of (v_exports v') k = Some (case last_export k rs of
      None \<Rightarrow> e
    | Some t \<Rightarrow> e\<lparr>es_result := Some (if es_type e \<noteq> t then Err (ExportTypeError k (es_type e) t) else Ok ())\<rparr>)"
  using assms
proof (induction rs arbitrary: v e)
  case (Cons r rs)
  then obtain v1 where s: "register r v = Ok v1" "register_all rs v1 = Ok v'" by auto
  show ?case
  proof (cases r)
    case (Reg_Import m f t)
    with s(1) Cons.prems(2) have "map_of (v_exports v1) k = Some e" by auto
    with Cons.IH [OF s(2)] Reg_Import show ?thesis by simp
  next
    case (Reg_Export n t)
    let ?e = "if n = k then e\<lparr>es_result := Some (if es_type e \<noteq> t then Err (ExportTypeError n (es_type e) t) else Ok ())\<rparr> else e"
    have "map_of (v_exports v1) k = Some ?e" using Reg_Export s(1) Cons.prems(2) by (auto simp: register_export_other)
    from Cons.IH [OF s(2) this] Reg_Export show ?thesis by (auto split: option.splits)
  qed
qed simp

lemma map_filter_Nil_iff: "List.map_filter f xs = [] \<longleftrightarrow> (\<forall>x \<in> set xs. f x = None)"
  by (induction xs) (auto simp: List.map_filter_simps split: option.splits)

lemma report_Ok_iff: "report v = Ok () \<longleftrightarrow> v_import_errors v = [] \<and> (\<forall>(k, e) \<in> set (v_exports v). export_result e = None)"
proof -
  have "List.map_filter (\<lambda>(_, ex). export_result ex) (v_exports v) = [] \<longleftrightarrow> (\<forall>(k, e) \<in> set (v_exports v). export_result e = None)"
    unfolding map_filter_Nil_iff by auto
  then show ?thesis by (simp add: report_def Let_def)
qed

text \<open>The report on a validator with a single export entry.\<close>

lemma report_single:
  assumes v: "v_exports v = [(k, e)]" "v_import_errors v = []" "es_result e = None" and run: "register_all rs v = Ok v'"
  shows "report v' = Ok () \<longleftrightarrow> (\<forall>r \<in> set rs. import_ok (v_witx v) r) \<and>
    (case last_export k rs of None \<Rightarrow> es_required e \<noteq> Required | Some t \<Rightarrow> t = es_type e)"
proof -
  let ?e = "case last_export k rs of
      None \<Rightarrow> e
    | Some t \<Rightarrow> e\<lparr>es_result := Some (if es_type e \<noteq> t then Err (ExportTypeError k (es_type e) t) else Ok ())\<rparr>"
  have "map fst (v_exports v') = [k]" using register_all_keys [OF run] v by simp
  moreover have "map_of (v_exports v') k = Some ?e" using register_all_export [OF run] v by simp
  ultimately have "v_exports v' = [(k, ?e)]" by (cases "v_exports v'") auto
  moreover have "export_result ?e = None \<longleftrightarrow> (case last_export k rs of None \<Rightarrow> es_required e \<noteq> Required | Some t \<Rightarrow> t = es_type e)"
    using v(3) by (cases "es_required e") (auto simp: export_result_def split: option.splits)
  ultimately show ?thesis
    using register_all_imports [OF run] v by (simp add: report_Ok_iff)
qed

lemma report_no_exports:
  assumes v: "v_exports v = []" "v_import_errors v = []" and run: "register_all rs v = Ok v'"
  shows "report v' = Ok () \<longleftrightarrow> (\<forall>r \<in> set rs. import_ok (v_witx v) r)"
  using register_all_keys [OF run] register_all_imports [OF run] v by (simp add: report_Ok_iff)

section \<open>Properties\<close>

text \<open>C39: Validation is sound and complete. For every module, given by its imports and exports in order, checking runs to the end unless a function
  that is imported has several results in its document, where it panics as not implemented. When it ends, the validator
  reports success exactly when every import names a function of the first document with its module and has its parameters and results, type by
  type, and, in command mode, \<open>_start\<close> is exported without parameters and results, in reactor mode \<open>_initialize\<close> is so
  if it is exported at all.\<close>

theorem validation_exact:
  "case register_all rs (validator_build b) of
     Ok v \<Rightarrow> (\<forall>r \<in> set rs. \<not> several_results (vb_witx b) r) \<and>
       (report v = Ok () \<longleftrightarrow> (\<forall>r \<in> set rs. import_ok (vb_witx b) r) \<and>
         (case vb_wasi_mode b of
            None \<Rightarrow> True
          | Some Command \<Rightarrow> last_export ''_start'' rs = Some no_params_no_returns
          | Some Reactor \<Rightarrow> last_export ''_initialize'' rs \<in> {None, Some no_params_no_returns}))
   | Err _ \<Rightarrow> False
   | Panic _ \<Rightarrow> \<exists>r \<in> set rs. several_results (vb_witx b) r"
proof (cases "register_all rs (validator_build b)")
  case (Ok v)
  have "report v = Ok () \<longleftrightarrow> (\<forall>r \<in> set rs. import_ok (vb_witx b) r) \<and>
         (case vb_wasi_mode b of
            None \<Rightarrow> True
          | Some Command \<Rightarrow> last_export ''_start'' rs = Some no_params_no_returns
          | Some Reactor \<Rightarrow> last_export ''_initialize'' rs \<in> {None, Some no_params_no_returns})"
    using report_no_exports [OF _ _ Ok] report_single [OF _ _ _ Ok]
    by (auto simp: validator_build_def validator_new_def split: option.splits wasi_mode.splits)
  then show ?thesis using register_all_runs [of rs "validator_build b"] Ok by (simp add: validator_build_def validator_new_def)
qed (use register_all_runs [of rs "validator_build b"] in \<open>simp_all add: validator_build_def validator_new_def\<close>)

definition demo_document :: document where
  "demo_document m = (if m = ''env'' then Some (\<lambda>f. if f = ''add'' then Some ([X_I32, X_I32], [X_I32]) else None) else None)"

definition demo_registrations :: "registration list" where
  "demo_registrations =
     [Reg_Import ''env'' ''add'' \<lparr>wf_params = [W_I32, W_I32], wf_returns = [W_I32]\<rparr>, Reg_Export ''_start'' no_params_no_returns]"

definition demo_builder :: validator_builder where
  "demo_builder = with_wasi_mode (Some Command) (with_witx demo_document validator_builder_new)"

theorem validation_exact_witness: "\<exists>v. register_all demo_registrations (validator_build demo_builder) = Ok v \<and> report v = Ok ()"
proof -
  have w: "vb_witx demo_builder = [demo_document]" "vb_wasi_mode demo_builder = Some Command"
    "v_witx (validator_build demo_builder) = [demo_document]"
    by (simp_all add: demo_builder_def with_wasi_mode_def with_witx_def validator_builder_new_def validator_build_def validator_new_def)
  have imp: "check_import [demo_document] ''env'' ''add'' \<lparr>wf_params = [W_I32, W_I32], wf_returns = [W_I32]\<rparr> = Ok ()"
    by (simp add: check_import_def demo_document_def)
  have run: "register_all demo_registrations (validator_build demo_builder) =
      Ok (register_export ''_start'' no_params_no_returns (validator_build demo_builder))"
    using w(3) imp by (simp add: demo_registrations_def register_import_def)
  have "\<forall>r \<in> set demo_registrations. import_ok [demo_document] r" "last_export ''_start'' demo_registrations = Some no_params_no_returns"
    by (simp_all add: demo_registrations_def spec_func_def demo_document_def types_agree_def core_types_def)
  with validation_exact [of demo_registrations demo_builder] w run show ?thesis by simp
qed

end
