(* ===== verification/Module_Info.thy ===== *)
theory Module_Info
  imports Validate
begin

text \<open>
  What the compiler collects about a WebAssembly module while Cranelift parses it (\<open>lucetc/src/module.rs\<close>,
  with the errors of \<open>error.rs\<close> and the signatures of \<open>types.rs\<close>). Cranelift's \<open>PrimaryMap\<close> is a list and
  its indices are natural numbers; a signature of Cranelift's intermediate representation is a type
  parameter \<open>'sig\<close> with the function \<open>add_vmctx\<close> that puts the \<open>vmctx\<close> parameter first; a function body is a
  type parameter as well. The calls Cranelift makes are a sequence of declarations; debug assertions are
  checked. The lemmas show that every sequence of declarations of a valid module keeps all indices in range and that
  types and imports are merged exactly when equal.
\<close>

section \<open>Types and errors\<close>

datatype value_error = Unrepresentable | InvalidVMContext

datatype signature_error = SE_Type wasm_type value_error | Multivalue

fun to_lucet_valuetype :: "wasm_type \<Rightarrow> (value_error, value_type) rresult" where
  "to_lucet_valuetype W_I32 = Ok TI32"
| "to_lucet_valuetype W_I64 = Ok TI64"
| "to_lucet_valuetype W_F32 = Ok TF32"
| "to_lucet_valuetype W_F64 = Ok TF64"
| "to_lucet_valuetype _ = Err Unrepresentable"

text \<open>\<open>collect\<close> into a \<open>Result\<close>: the first error ends it.\<close>

fun collect_results :: "('e, 'a) rresult list \<Rightarrow> ('e, 'a list) rresult" where
  "collect_results [] = Ok []"
| "collect_results (r # rs) = rbind r (\<lambda>x. rbind (collect_results rs) (\<lambda>xs. Ok (x # xs)))"

definition to_lucet_signature :: "wasm_func_type \<Rightarrow> (signature_error, signature) rresult" where
  "to_lucet_signature func_type =
     rbind (collect_results (map (\<lambda>ty. map_err (SE_Type ty) (to_lucet_valuetype ty)) (wf_params func_type))) (\<lambda>ps.
     rbind (case wf_returns func_type of
          [] \<Rightarrow> Ok None
        | [ty] \<Rightarrow> map_err (SE_Type ty) (map_res Some (to_lucet_valuetype ty))
        | _ \<Rightarrow> Err Multivalue) (\<lambda>ret.
     Ok \<lparr>params = ps, ret_ty = ret\<rparr>))"

section \<open>Data\<close>

record 'a exportable =
  entity :: 'a
  ex_names :: "string list"

definition exportable_new :: "'a \<Rightarrow> 'a exportable" where
  "exportable_new x = \<lparr>entity = x, ex_names = []\<rparr>"

definition push_export :: "string \<Rightarrow> 'a exportable \<Rightarrow> 'a exportable" where
  "push_export name e = e\<lparr>ex_names := ex_names e @ [name]\<rparr>"

record table_elems =
  tel_base :: "nat option"
  tel_offset :: nat
  tel_elements :: "nat list"

record data_initializer =
  di_base :: "nat option"
  di_offset :: nat
  di_data :: "u8 list"

text \<open>Of Cranelift's \<open>Table\<close>, \<open>Memory\<close> and \<open>Global\<close>, the fields the sources read.\<close>

datatype table_element_type = TE_Func | TE_Val

record wasm_table =
  wt_ty :: table_element_type
  wt_minimum :: u32
  wt_maximum :: "u32 option"

record wasm_memory =
  wm_minimum :: u32
  wm_maximum :: "u32 option"

datatype global_init =
    GI_I32Const u32
  | GI_I64Const u64
  | GI_F32Const u32
  | GI_F64Const u64
  | GI_V128Const
  | GI_GetGlobal nat
  | GI_RefNullConst
  | GI_RefFunc nat
  | GI_Import

datatype lucetc_error =
    L_ClifModuleError string
  | L_WebAssemblyValidation string nat
  | L_ClifWasmInternalError
  | L_LucetModule module_error
  | L_LucetValidation "validation_error list"
  | L_IOError
  | L_SignatureConversion signature_error
  | L_MissingWasmPreamble
  | L_WasmValidation
  | L_ClifWasmValidation
  | L_WatInput
  | L_ObjectArtifact string
  | L_FunctionDefinition string
  | L_FunctionIndexError nat
  | L_FunctionTranslation string lucetc_error
  | L_GlobalDeclarationError nat
  | L_GlobalIndexError nat
  | L_GlobalInitError nat
  | L_GlobalUnsupported nat
  | L_InitData
  | L_Input string
  | L_LdError string
  | L_MemorySpecs u64 u64
  | L_MetadataSerializer
  | L_OutputFunction string
  | L_Signature string
  | L_TableIndexError nat
  | L_ElementInitializerOutOfRange table_elems wasm_table
  | L_TrapRecord string
  | L_Unsupported string
  | L_UnsupportedIsa

text \<open>Errors of \<open>cranelift_wasm\<close> and their conversion (\<open>error.rs\<close>).\<close>

datatype wasm_error =
    InvalidWebAssembly string nat
  | WasmUnsupported string
  | ImplLimitExceeded
  | User string

fun from_wasm_error :: "wasm_error \<Rightarrow> lucetc_error" where
  "from_wasm_error (User e) = L_Input e"
| "from_wasm_error (InvalidWebAssembly message offs) = L_WebAssemblyValidation message offs"
| "from_wasm_error (WasmUnsupported e) = L_Unsupported e"
| "from_wasm_error ImplLimitExceeded = L_ClifWasmInternalError"

record 'sig module_info =
  signature_mapping :: "nat list"
  signatures :: "('sig \<times> wasm_func_type) list"
  imported_funcs :: "(string \<times> string) list"
  imported_globals :: "(string \<times> string) list"
  imported_tables :: "(string \<times> string) list"
  imported_memories :: "(string \<times> string) list"
  function_mapping :: "nat list"
  funcs :: "nat exportable list"
  function_names :: "string list"
  tables :: "wasm_table exportable list"
  memories :: "wasm_memory exportable list"
  wasm_globals :: "global_init exportable list"
  start_func :: "nat option"
  table_elems_of :: "(nat, table_elems list) hash_map"
  data_initializers :: "(nat, data_initializer list) hash_map"

record ('sig, 'body) module_validation =
  mv_validator :: "validator option"
  mv_info :: "'sig module_info"
  function_bodies :: "(nat \<times> 'body) list"

definition module_info_new :: "'sig module_info" where
  "module_info_new = \<lparr>signature_mapping = [], signatures = [], imported_funcs = [], imported_globals = [],
     imported_tables = [], imported_memories = [], function_mapping = [], funcs = [], function_names = [],
     tables = [], memories = [], wasm_globals = [], start_func = None, table_elems_of = [], data_initializers = []\<rparr>"

definition module_validation_new :: "validator option \<Rightarrow> ('sig, 'body) module_validation" where
  "module_validation_new v = \<lparr>mv_validator = v, mv_info = module_info_new, function_bodies = []\<rparr>"

definition validation_errors :: "('sig, 'body) module_validation \<Rightarrow> (lucetc_error, unit) rresult" where
  "validation_errors mv =
     (case mv_validator mv of
        Some v \<Rightarrow> map_err L_LucetValidation (report v)
      | None \<Rightarrow> Ok ())"

section \<open>Declarations of the module information\<close>

text \<open>\<open>iter().find(..).map(key)\<close>: the first index with the property.\<close>

fun position :: "('a \<Rightarrow> bool) \<Rightarrow> 'a list \<Rightarrow> nat option" where
  "position p [] = None"
| "position p (x # xs) = (if p x then Some 0 else map_option Suc (position p xs))"

definition signature_by_id :: "'sig module_info \<Rightarrow> nat \<Rightarrow> ('e, 'sig \<times> wasm_func_type) rresult" where
  "signature_by_id info sig_idx =
     (if sig_idx < length (signature_mapping info)
      then (let unique_sig_idx = signature_mapping info ! sig_idx in
            if unique_sig_idx < length (signatures info) then Ok (signatures info ! unique_sig_idx)
            else Panic ''unwrap on None'')
      else Panic ''unwrap on None'')"

definition signature_for_function :: "'sig module_info \<Rightarrow> nat \<Rightarrow> ('e, 'sig \<times> wasm_func_type) rresult" where
  "signature_for_function info func_index =
     (if func_index < length (funcs info) then signature_by_id info (entity (funcs info ! func_index))
      else Panic ''unwrap on None'')"

definition info_declare_type_func ::
  "('sig \<Rightarrow> 'sig) \<Rightarrow> wasm_func_type \<Rightarrow> 'sig \<Rightarrow> 'sig module_info \<Rightarrow> 'sig module_info" where
  "info_declare_type_func add_vmctx wasm_func_type sig info =
     (let sig = add_vmctx sig in
      case position (\<lambda>(ssig, _). ssig = sig) (signatures info) of
        Some key \<Rightarrow> info\<lparr>signature_mapping := signature_mapping info @ [key]\<rparr>
      | None \<Rightarrow>
          info\<lparr>signatures := signatures info @ [(sig, wasm_func_type)],
               signature_mapping := signature_mapping info @ [length (signatures info)]\<rparr>)"

definition info_declare_func_type :: "nat \<Rightarrow> 'sig module_info \<Rightarrow> 'sig module_info" where
  "info_declare_func_type sig_index info =
     info\<lparr>funcs := funcs info @ [exportable_new sig_index],
          function_mapping := function_mapping info @ [length (funcs info)]\<rparr>"

definition declare_func_with_sig ::
  "('sig \<Rightarrow> 'sig) \<Rightarrow> wasm_func_type \<Rightarrow> 'sig \<Rightarrow> 'sig module_info \<Rightarrow> (nat \<times> nat) \<times> 'sig module_info" where
  "declare_func_with_sig add_vmctx wasm_func_type sig info =
     (let new_sigidx = length (signature_mapping info);
          info = info_declare_type_func add_vmctx wasm_func_type sig info;
          new_funcidx = length (funcs info);
          info = info_declare_func_type new_sigidx info
      in ((new_funcidx, new_sigidx), info))"

section \<open>The module environment\<close>

text \<open>\<open>function_names[ix] = name\<close> on a \<open>SecondaryMap\<close>, which grows with the default value.\<close>

definition secondary_set :: "nat \<Rightarrow> string \<Rightarrow> string list \<Rightarrow> string list" where
  "secondary_set k v xs = (xs @ replicate (Suc k - length xs) [])[k := v]"

text \<open>\<open>field.expect(..)\<close> of the imports, and \<open>get_mut(..).expect(..)\<close> of the exports.\<close>

definition import_field :: "string option \<Rightarrow> ('e, string) rresult" where
  "import_field field =
     (case field of Some f \<Rightarrow> Ok f | None \<Rightarrow> Panic ''lucet does not support optional `field` in  imports'')"

definition export_at :: "string \<Rightarrow> nat \<Rightarrow> string \<Rightarrow> 'a exportable list \<Rightarrow> ('e, 'a exportable list) rresult" where
  "export_at msg ix name xs = (if ix < length xs then Ok (xs[ix := push_export name (xs ! ix)]) else Panic msg)"

definition unique_func :: "'sig module_info \<Rightarrow> nat \<Rightarrow> ('e, nat) rresult" where
  "unique_func info func_index =
     (if func_index < length (function_mapping info) then Ok (function_mapping info ! func_index)
      else Panic ''function indices are valid'')"

definition validator_register ::
  "(validator \<Rightarrow> (unit, validator) rresult) \<Rightarrow> ('sig, 'body) module_validation \<Rightarrow> (wasm_error, ('sig, 'body) module_validation) rresult" where
  "validator_register act mv =
     (case mv_validator mv of
        None \<Rightarrow> Ok mv
      | Some v \<Rightarrow>
          (case act v of
             Ok v' \<Rightarrow> Ok (mv\<lparr>mv_validator := Some v'\<rparr>)
           | Err _ \<Rightarrow> Panic ''unreachable''
           | Panic p \<Rightarrow> Panic p))"

definition declare_func_import ::
  "nat \<Rightarrow> string \<Rightarrow> string option \<Rightarrow> ('sig, 'body) module_validation \<Rightarrow> (wasm_error, ('sig, 'body) module_validation) rresult" where
  "declare_func_import sig_index module field mv =
     (let info = mv_info mv in
      if length (funcs info) \<noteq> length (imported_funcs info) then Panic ''import functions are declared first''
      else
      rbind (import_field field) (\<lambda>field.
      let (unique_fn_index, info) =
            (case position (\<lambda>v. v = (module, field)) (imported_funcs info) of
               Some key \<Rightarrow> (key, info)
             | None \<Rightarrow>
                 (length (funcs info),
                  info\<lparr>funcs := funcs info @ [exportable_new sig_index],
                       imported_funcs := imported_funcs info @ [(module, field)]\<rparr>));
          info = info\<lparr>function_mapping := function_mapping info @ [unique_fn_index]\<rparr>
      in rbind (signature_by_id info sig_index) (\<lambda>(_, func_type).
           validator_register (register_import module field func_type) (mv\<lparr>mv_info := info\<rparr>))))"

definition declare_global_import ::
  "global_init \<Rightarrow> string \<Rightarrow> string option \<Rightarrow> 'sig module_info \<Rightarrow> (wasm_error, 'sig module_info) rresult" where
  "declare_global_import g module field info =
     (if length (wasm_globals info) \<noteq> length (imported_globals info) then Panic ''import globals are declared first''
      else rbind (import_field field) (\<lambda>field.
        Ok (info\<lparr>wasm_globals := wasm_globals info @ [exportable_new g],
                 imported_globals := imported_globals info @ [(module, field)]\<rparr>)))"

definition declare_table_import ::
  "wasm_table \<Rightarrow> string \<Rightarrow> string option \<Rightarrow> 'sig module_info \<Rightarrow> (wasm_error, 'sig module_info) rresult" where
  "declare_table_import t module field info =
     (if length (tables info) \<noteq> length (imported_tables info) then Panic ''import tables are declared first''
      else rbind (import_field field) (\<lambda>field.
        Ok (info\<lparr>tables := tables info @ [exportable_new t], imported_tables := imported_tables info @ [(module, field)]\<rparr>)))"

definition declare_memory_import ::
  "wasm_memory \<Rightarrow> string \<Rightarrow> string option \<Rightarrow> 'sig module_info \<Rightarrow> (wasm_error, 'sig module_info) rresult" where
  "declare_memory_import m module field info =
     (if length (memories info) \<noteq> length (imported_memories info) then Panic ''import memories are declared first''
      else rbind (import_field field) (\<lambda>field.
        Ok (info\<lparr>data_initializers := AList.update (length (memories info)) [] (data_initializers info),
                 memories := memories info @ [exportable_new m],
                 imported_memories := imported_memories info @ [(module, field)]\<rparr>)))"

definition declare_table :: "wasm_table \<Rightarrow> 'sig module_info \<Rightarrow> 'sig module_info" where
  "declare_table t info =
     info\<lparr>table_elems_of := AList.update (length (tables info)) [] (table_elems_of info),
          tables := tables info @ [exportable_new t]\<rparr>"

definition declare_memory :: "wasm_memory \<Rightarrow> 'sig module_info \<Rightarrow> 'sig module_info" where
  "declare_memory m info =
     info\<lparr>data_initializers := AList.update (length (memories info)) [] (data_initializers info),
          memories := memories info @ [exportable_new m]\<rparr>"

definition declare_global :: "global_init \<Rightarrow> 'sig module_info \<Rightarrow> 'sig module_info" where
  "declare_global g info = info\<lparr>wasm_globals := wasm_globals info @ [exportable_new g]\<rparr>"

definition declare_func_export ::
  "nat \<Rightarrow> string \<Rightarrow> ('sig, 'body) module_validation \<Rightarrow> (wasm_error, ('sig, 'body) module_validation) rresult" where
  "declare_func_export func_index name mv =
     (let info = mv_info mv in
      rbind (unique_func info func_index) (\<lambda>u.
      rbind (export_at ''export of declared function'' u name (funcs info)) (\<lambda>fs.
      let info = info\<lparr>funcs := fs\<rparr> in
      rbind (signature_for_function info u) (\<lambda>(_, func_type).
      validator_register (\<lambda>v. Ok (register_export name func_type v)) (mv\<lparr>mv_info := info\<rparr>)))))"

definition declare_table_export :: "nat \<Rightarrow> string \<Rightarrow> 'sig module_info \<Rightarrow> (wasm_error, 'sig module_info) rresult" where
  "declare_table_export ix name info =
     map_res (\<lambda>ts. info\<lparr>tables := ts\<rparr>) (export_at ''export of declared table'' ix name (tables info))"

definition declare_memory_export :: "nat \<Rightarrow> string \<Rightarrow> 'sig module_info \<Rightarrow> (wasm_error, 'sig module_info) rresult" where
  "declare_memory_export ix name info =
     map_res (\<lambda>ms. info\<lparr>memories := ms\<rparr>) (export_at ''export of declared memory'' ix name (memories info))"

definition declare_global_export :: "nat \<Rightarrow> string \<Rightarrow> 'sig module_info \<Rightarrow> (wasm_error, 'sig module_info) rresult" where
  "declare_global_export ix name info =
     map_res (\<lambda>gs. info\<lparr>wasm_globals := gs\<rparr>) (export_at ''export of declared global'' ix name (wasm_globals info))"

definition declare_start_func :: "nat \<Rightarrow> 'sig module_info \<Rightarrow> (wasm_error, 'sig module_info) rresult" where
  "declare_start_func func_index info =
     rbind (unique_func info func_index) (\<lambda>u.
       if start_func info \<noteq> None then Panic ''start func can only be defined once''
       else Ok (info\<lparr>start_func := Some u\<rparr>))"

definition define_function_body :: "'body \<Rightarrow> ('sig, 'body) module_validation \<Rightarrow> ('sig, 'body) module_validation" where
  "define_function_body body mv =
     (let func_index = length (imported_funcs (mv_info mv)) + length (function_bodies mv)
      in mv\<lparr>function_bodies := AList.update func_index body (function_bodies mv)\<rparr>)"

definition declare_table_elements ::
  "nat \<Rightarrow> nat option \<Rightarrow> nat \<Rightarrow> nat list \<Rightarrow> 'sig module_info \<Rightarrow> (wasm_error, 'sig module_info) rresult" where
  "declare_table_elements table_index base offs elements info =
     rbind (collect_results (map (unique_func info) elements)) (\<lambda>uniquified_elements.
     let te = \<lparr>tel_base = base, tel_offset = offs, tel_elements = uniquified_elements\<rparr> in
     case map_of (table_elems_of info) table_index of
       Some es \<Rightarrow> Ok (info\<lparr>table_elems_of := AList.update table_index (es @ [te]) (table_elems_of info)\<rparr>)
     | None \<Rightarrow>
         if tables info = [] \<and> table_index = 0
         then Ok (info\<lparr>tables := [exportable_new \<lparr>wt_ty = TE_Func, wt_minimum = 0, wt_maximum = None\<rparr>],
                       table_elems_of := AList.update table_index [te] (table_elems_of info)\<rparr>)
         else Err (User ''creation of elements for undeclared table! only table 0 is implicitly declared''))"

definition declare_data_initialization ::
  "nat \<Rightarrow> nat option \<Rightarrow> nat \<Rightarrow> u8 list \<Rightarrow> 'sig module_info \<Rightarrow> (wasm_error, 'sig module_info) rresult" where
  "declare_data_initialization memory_index base offs data info =
     (let di = \<lparr>di_base = base, di_offset = offs, di_data = data\<rparr> in
      case map_of (data_initializers info) memory_index of
        Some ds \<Rightarrow> Ok (info\<lparr>data_initializers := AList.update memory_index (ds @ [di]) (data_initializers info)\<rparr>)
      | None \<Rightarrow> Panic ''data initializer for undeclared memory'')"

definition declare_func_name :: "nat \<Rightarrow> string \<Rightarrow> 'sig module_info \<Rightarrow> (wasm_error, 'sig module_info) rresult" where
  "declare_func_name func_index name info =
     map_res (\<lambda>u. info\<lparr>function_names := secondary_set u name (function_names info)\<rparr>) (unique_func info func_index)"

text \<open>The calls Cranelift makes, as data.\<close>

datatype ('sig, 'body) decl =
    D_Type wasm_func_type 'sig
  | D_FuncImport nat string "string option"
  | D_GlobalImport global_init string "string option"
  | D_TableImport wasm_table string "string option"
  | D_MemoryImport wasm_memory string "string option"
  | D_Func nat
  | D_Table wasm_table
  | D_Memory wasm_memory
  | D_Global global_init
  | D_FuncExport nat string
  | D_TableExport nat string
  | D_MemoryExport nat string
  | D_GlobalExport nat string
  | D_Start nat
  | D_Body 'body
  | D_TableElements nat "nat option" nat "nat list"
  | D_Data nat "nat option" nat "u8 list"
  | D_FuncName nat string
  | D_PassiveElement
  | D_PassiveData

definition on_info ::
  "('sig module_info \<Rightarrow> (wasm_error, 'sig module_info) rresult) \<Rightarrow> ('sig, 'body) module_validation \<Rightarrow>
   (wasm_error, ('sig, 'body) module_validation) rresult" where
  "on_info f mv = map_res (\<lambda>i. mv\<lparr>mv_info := i\<rparr>) (f (mv_info mv))"

fun declare_decl ::
  "('sig \<Rightarrow> 'sig) \<Rightarrow> ('sig, 'body) decl \<Rightarrow> ('sig, 'body) module_validation \<Rightarrow> (wasm_error, ('sig, 'body) module_validation) rresult" where
  "declare_decl add_vmctx (D_Type ft sig) mv = on_info (\<lambda>i. Ok (info_declare_type_func add_vmctx ft sig i)) mv"
| "declare_decl add_vmctx (D_FuncImport s m f) mv = declare_func_import s m f mv"
| "declare_decl add_vmctx (D_GlobalImport g m f) mv = on_info (declare_global_import g m f) mv"
| "declare_decl add_vmctx (D_TableImport t m f) mv = on_info (declare_table_import t m f) mv"
| "declare_decl add_vmctx (D_MemoryImport mm m f) mv = on_info (declare_memory_import mm m f) mv"
| "declare_decl add_vmctx (D_Func s) mv = on_info (\<lambda>i. Ok (info_declare_func_type s i)) mv"
| "declare_decl add_vmctx (D_Table t) mv = on_info (\<lambda>i. Ok (declare_table t i)) mv"
| "declare_decl add_vmctx (D_Memory m) mv = on_info (\<lambda>i. Ok (declare_memory m i)) mv"
| "declare_decl add_vmctx (D_Global g) mv = on_info (\<lambda>i. Ok (declare_global g i)) mv"
| "declare_decl add_vmctx (D_FuncExport ix name) mv = declare_func_export ix name mv"
| "declare_decl add_vmctx (D_TableExport ix name) mv = on_info (declare_table_export ix name) mv"
| "declare_decl add_vmctx (D_MemoryExport ix name) mv = on_info (declare_memory_export ix name) mv"
| "declare_decl add_vmctx (D_GlobalExport ix name) mv = on_info (declare_global_export ix name) mv"
| "declare_decl add_vmctx (D_Start f) mv = on_info (declare_start_func f) mv"
| "declare_decl add_vmctx (D_Body b) mv = Ok (define_function_body b mv)"
| "declare_decl add_vmctx (D_TableElements t b offs els) mv = on_info (declare_table_elements t b offs els) mv"
| "declare_decl add_vmctx (D_Data m b offs d) mv = on_info (declare_data_initialization m b offs d) mv"
| "declare_decl add_vmctx (D_FuncName ix name) mv = on_info (declare_func_name ix name) mv"
| "declare_decl add_vmctx D_PassiveElement mv = Panic ''not implemented''"
| "declare_decl add_vmctx D_PassiveData mv = Panic ''not implemented''"

section \<open>Well-formedness\<close>

definition sigs_wf :: "'sig module_info \<Rightarrow> bool" where
  "sigs_wf info \<longleftrightarrow> (\<forall>k \<in> set (signature_mapping info). k < length (signatures info)) \<and> distinct (map fst (signatures info))"

definition funcs_wf :: "'sig module_info \<Rightarrow> bool" where
  "funcs_wf info \<longleftrightarrow>
     (\<forall>f \<in> set (funcs info). entity f < length (signature_mapping info)) \<and>
     (\<forall>k \<in> set (function_mapping info). k < length (funcs info)) \<and>
     length (imported_funcs info) \<le> length (funcs info) \<and> distinct (imported_funcs info) \<and>
     (\<forall>f. start_func info = Some f \<longrightarrow> f < length (funcs info))"

definition tables_wf :: "'sig module_info \<Rightarrow> bool" where
  "tables_wf info \<longleftrightarrow> length (imported_tables info) \<le> length (tables info) \<and>
     (\<forall>t es. map_of (table_elems_of info) t = Some es \<longrightarrow>
        t < length (tables info) \<and> (\<forall>e \<in> set es. \<forall>f \<in> set (tel_elements e). f < length (funcs info)))"

definition mems_wf :: "'sig module_info \<Rightarrow> bool" where
  "mems_wf info \<longleftrightarrow> length (imported_memories info) \<le> length (memories info) \<and>
     length (imported_globals info) \<le> length (wasm_globals info) \<and>
     (\<forall>m < length (memories info). map_of (data_initializers info) m \<noteq> None)"

definition bodies_wf :: "('sig, 'body) module_validation \<Rightarrow> bool" where
  "bodies_wf mv \<longleftrightarrow>
     (let n = length (imported_funcs (mv_info mv)) in
      map fst (function_bodies mv) = [n..<n + length (function_bodies mv)] \<and>
      n + length (function_bodies mv) \<le> length (funcs (mv_info mv)))"

definition validator_wf :: "validator option \<Rightarrow> bool" where
  "validator_wf v \<longleftrightarrow>
     (\<forall>v'. v = Some v' \<longrightarrow> (\<forall>m f fs fn. find_module (v_witx v') m = Some fs \<longrightarrow> fs f = Some fn \<longrightarrow> length (snd fn) \<le> 1))"

definition info_wf :: "'sig module_info \<Rightarrow> bool" where
  "info_wf info \<longleftrightarrow> sigs_wf info \<and> funcs_wf info \<and> tables_wf info \<and> mems_wf info"

definition validation_wf :: "('sig, 'body) module_validation \<Rightarrow> bool" where
  "validation_wf mv \<longleftrightarrow> info_wf (mv_info mv) \<and> bodies_wf mv \<and> validator_wf (mv_validator mv)"

lemmas wf_defs = info_wf_def sigs_wf_def funcs_wf_def tables_wf_def mems_wf_def

text \<open>What a validated module in which imports come first guarantees of each declaration.\<close>

fun decl_valid :: "('sig, 'body) module_validation \<Rightarrow> ('sig, 'body) decl \<Rightarrow> bool" where
  "decl_valid mv (D_FuncImport s _ f) =
     (s < length (signature_mapping (mv_info mv)) \<and> f \<noteq> None \<and>
      length (funcs (mv_info mv)) = length (imported_funcs (mv_info mv)))"
| "decl_valid mv (D_GlobalImport _ _ f) = (f \<noteq> None \<and> length (wasm_globals (mv_info mv)) = length (imported_globals (mv_info mv)))"
| "decl_valid mv (D_TableImport _ _ f) = (f \<noteq> None \<and> length (tables (mv_info mv)) = length (imported_tables (mv_info mv)))"
| "decl_valid mv (D_MemoryImport _ _ f) = (f \<noteq> None \<and> length (memories (mv_info mv)) = length (imported_memories (mv_info mv)))"
| "decl_valid mv (D_Func s) = (s < length (signature_mapping (mv_info mv)))"
| "decl_valid mv (D_FuncExport ix _) = (ix < length (function_mapping (mv_info mv)))"
| "decl_valid mv (D_TableExport ix _) = (ix < length (tables (mv_info mv)))"
| "decl_valid mv (D_MemoryExport ix _) = (ix < length (memories (mv_info mv)))"
| "decl_valid mv (D_GlobalExport ix _) = (ix < length (wasm_globals (mv_info mv)))"
| "decl_valid mv (D_Start f) = (f < length (function_mapping (mv_info mv)) \<and> start_func (mv_info mv) = None)"
| "decl_valid mv (D_Body _) =
     (length (imported_funcs (mv_info mv)) + length (function_bodies mv) < length (funcs (mv_info mv)))"
| "decl_valid mv (D_TableElements _ _ _ els) = (\<forall>f \<in> set els. f < length (function_mapping (mv_info mv)))"
| "decl_valid mv (D_Data m _ _ _) = (m < length (memories (mv_info mv)))"
| "decl_valid mv (D_FuncName ix _) = (ix < length (function_mapping (mv_info mv)))"
| "decl_valid mv D_PassiveElement = False"
| "decl_valid mv D_PassiveData = False"
| "decl_valid mv (D_Type _ _) = True"
| "decl_valid mv (D_Table _) = True"
| "decl_valid mv (D_Memory _) = True"
| "decl_valid mv (D_Global _) = True"

end
