(* ===== verification/Module_Info_Wf.thy ===== *)
theory Module_Info_Wf
  imports Module_Info
begin

text \<open>
  Every sequence of declarations of a valid module keeps the module information well-formed and never panics
  (\<open>lucetc/src/module.rs\<close>): by one lemma per declaration and rule induction over the sequence. Types
  and imports are merged exactly when equal.
\<close>

section \<open>Helpers\<close>

lemma position_Some: "position p xs = Some k \<Longrightarrow> k < length xs \<and> p (xs ! k)"
  by (induction xs arbitrary: k) (auto split: if_splits)

lemma position_None: "position p xs = None \<longleftrightarrow> (\<forall>x \<in> set xs. \<not> p x)"
  by (induction xs) auto

lemma collect_unique:
  assumes "\<forall>f \<in> set els. f < length (function_mapping info)"
  shows "collect_results (map (unique_func info) els) = Ok (map ((!) (function_mapping info)) els)"
  using assms by (induction els) (auto simp: unique_func_def)

lemma signature_by_id_Ok:
  assumes "sigs_wf info" and "s < length (signature_mapping info)"
  shows "signature_by_id info s = Ok (signatures info ! (signature_mapping info ! s))"
  using assms by (auto simp: signature_by_id_def sigs_wf_def)

lemma push_export_entity [simp]: "entity (push_export name e) = entity e"
  by (simp add: push_export_def)

lemma exportable_new_entity [simp]: "entity (exportable_new x) = x"
  by (simp add: exportable_new_def)

lemma check_import_no_panic:
  assumes "validator_wf (Some v)"
  shows "check_import (v_witx v) m f t \<noteq> Panic p"
proof (cases "find_module (v_witx v) m")
  case (Some fs)
  then show ?thesis
  proof (cases "fs f")
    case s: (Some fn)
    obtain ps rs where fn: "fn = (ps, rs)" by (cases fn)
    have "length rs \<le> 1" using assms Some s fn by (fastforce simp: validator_wf_def)
    then have "rs = [] \<or> (\<exists>r. rs = [r])" by (cases rs) auto
    then show ?thesis using Some s fn by (auto simp: check_import_def split: if_splits)
  qed (simp add: check_import_def)
qed (simp add: check_import_def)

lemma validator_register_import:
  assumes "validator_wf (mv_validator mv)"
  shows "\<exists>v'. validator_register (register_import m f t) mv = Ok (mv\<lparr>mv_validator := v'\<rparr>) \<and> validator_wf v'"
proof (cases "mv_validator mv")
  case None
  then have "mv = mv\<lparr>mv_validator := None\<rparr>" by simp
  then show ?thesis using None assms by (metis option.simps(4) validator_register_def)
next
  case (Some v)
  have "\<exists>v'. register_import m f t v = (Ok v' :: (unit, validator) rresult) \<and> v_witx v' = v_witx v"
    using check_import_no_panic [of v m f t] assms Some
    by (cases "check_import (v_witx v) m f t") (auto simp: register_import_def)
  then obtain v' where "register_import m f t v = (Ok v' :: (unit, validator) rresult)" "v_witx v' = v_witx v" by blast
  with Some assms show ?thesis by (auto simp: validator_register_def validator_wf_def)
qed

lemma validator_register_export:
  assumes "validator_wf (mv_validator mv)"
  shows "\<exists>v'. validator_register (\<lambda>v. Ok (register_export n t v)) mv = Ok (mv\<lparr>mv_validator := v'\<rparr>) \<and> validator_wf v'"
proof (cases "mv_validator mv")
  case None
  then have "mv = mv\<lparr>mv_validator := None\<rparr>" by simp
  then show ?thesis using None assms by (metis option.simps(4) validator_register_def)
next
  case (Some v)
  with assms show ?thesis by (auto simp: validator_register_def validator_wf_def)
qed

section \<open>One lemma per declaration\<close>

lemma wf_declare_type_func: "info_wf info \<Longrightarrow> info_wf (info_declare_type_func add_vmctx ft sig info)"
  by (auto simp: info_declare_type_func_def wf_defs Let_def position_None less_Suc_eq split: option.split dest: position_Some)

lemma wf_declare_func_type:
  "info_wf info \<Longrightarrow> s < length (signature_mapping info) \<Longrightarrow> info_wf (info_declare_func_type s info)"
  by (fastforce simp: info_declare_func_type_def wf_defs)

lemma wf_globals: "info_wf info \<Longrightarrow> info_wf (declare_global g info)"
  by (auto simp: declare_global_def wf_defs)

lemma wf_declare_table: "info_wf info \<Longrightarrow> info_wf (declare_table t info)"
  by (fastforce simp: declare_table_def wf_defs)

lemma wf_declare_memory: "info_wf info \<Longrightarrow> info_wf (declare_memory m info)"
  by (auto simp: declare_memory_def wf_defs less_Suc_eq)

lemma wf_declare_global_import: "info_wf info \<Longrightarrow> declare_global_import g m f info = Ok info' \<Longrightarrow> info_wf info'"
  by (auto simp: declare_global_import_def wf_defs split: if_splits)

lemma wf_declare_table_import: "info_wf info \<Longrightarrow> declare_table_import g m f info = Ok info' \<Longrightarrow> info_wf info'"
  by (fastforce simp: declare_table_import_def wf_defs split: if_splits)

lemma wf_declare_memory_import: "info_wf info \<Longrightarrow> declare_memory_import g m f info = Ok info' \<Longrightarrow> info_wf info'"
  by (auto simp: declare_memory_import_def wf_defs less_Suc_eq split: if_splits)

lemma wf_declare_start: "info_wf info \<Longrightarrow> declare_start_func f info = Ok info' \<Longrightarrow> info_wf info'"
  by (auto simp: declare_start_func_def unique_func_def wf_defs split: if_splits)

lemma wf_exports:
  "info_wf info \<Longrightarrow> declare_table_export ix name info = Ok info' \<Longrightarrow> info_wf info'"
  "info_wf info \<Longrightarrow> declare_memory_export ix name info = Ok info' \<Longrightarrow> info_wf info'"
  "info_wf info \<Longrightarrow> declare_global_export ix name info = Ok info' \<Longrightarrow> info_wf info'"
  by (auto simp: declare_table_export_def declare_memory_export_def declare_global_export_def export_at_def wf_defs split: if_splits)

lemma wf_declare_data: "info_wf info \<Longrightarrow> declare_data_initialization m b offs d info = Ok info' \<Longrightarrow> info_wf info'"
  by (auto simp: declare_data_initialization_def wf_defs Let_def split: option.splits)

lemma wf_declare_func_name: "info_wf info \<Longrightarrow> declare_func_name ix name info = Ok info' \<Longrightarrow> info_wf info'"
  by (auto simp: declare_func_name_def wf_defs)

lemma wf_declare_table_elements:
  assumes "info_wf info" and "\<forall>f \<in> set els. f < length (function_mapping info)" and "declare_table_elements t b offs els info = Ok info'"
  shows "info_wf info'"
proof -
  have els: "\<forall>f \<in> set (map ((!) (function_mapping info)) els). f < length (funcs info)"
    using assms(1,2) by (auto simp: wf_defs)
  let ?te = "\<lparr>tel_base = b, tel_offset = offs, tel_elements = map ((!) (function_mapping info)) els\<rparr>"
  have tw: "tables_wf info" using assms(1) by (simp add: info_wf_def)
  show ?thesis
  proof (cases "map_of (table_elems_of info) t")
    case None
    with assms(2,3) have i: "tables info = []" "info' = info\<lparr>tables := [exportable_new \<lparr>wt_ty = TE_Func, wt_minimum = 0, wt_maximum = None\<rparr>],
        table_elems_of := AList.update t [?te] (table_elems_of info)\<rparr>" "t = 0"
      by (simp_all add: declare_table_elements_def collect_unique Let_def split: if_splits)
    have "tables_wf info'" using tw els i by (simp add: tables_wf_def)
    with assms(1) i(2) show ?thesis by (simp add: info_wf_def sigs_wf_def funcs_wf_def mems_wf_def)
  next
    case (Some es)
    with assms(2,3) have i: "info' = info\<lparr>table_elems_of := AList.update t (es @ [?te]) (table_elems_of info)\<rparr>"
      by (simp add: declare_table_elements_def collect_unique Let_def)
    have "tables_wf info'" using tw els i Some by (auto simp: tables_wf_def)
    with assms(1) i show ?thesis by (simp add: info_wf_def sigs_wf_def funcs_wf_def mems_wf_def)
  qed
qed

lemma wf_func_import:
  assumes "info_wf info" and "s < length (signature_mapping info)" and "length (funcs info) = length (imported_funcs info)"
  shows "position (\<lambda>v. v = mf) (imported_funcs info) = Some k \<Longrightarrow>
      info_wf (info\<lparr>function_mapping := function_mapping info @ [k]\<rparr>)"
    and "position (\<lambda>v. v = mf) (imported_funcs info) = None \<Longrightarrow>
      info_wf (info\<lparr>funcs := funcs info @ [exportable_new s], imported_funcs := imported_funcs info @ [mf],
        function_mapping := function_mapping info @ [length (funcs info)]\<rparr>)"
proof -
  assume "position (\<lambda>v. v = mf) (imported_funcs info) = Some k"
  then have "k < length (funcs info)" using assms(3) position_Some by fastforce
  with assms(1) show "info_wf (info\<lparr>function_mapping := function_mapping info @ [k]\<rparr>)"
    by (auto simp: info_wf_def sigs_wf_def funcs_wf_def tables_wf_def mems_wf_def)
next
  assume "position (\<lambda>v. v = mf) (imported_funcs info) = None"
  then have new: "mf \<notin> set (imported_funcs info)" by (auto simp: position_None)
  let ?i = "info\<lparr>funcs := funcs info @ [exportable_new s], imported_funcs := imported_funcs info @ [mf],
        function_mapping := function_mapping info @ [length (funcs info)]\<rparr>"
  have "tables_wf ?i" using assms(1) by (fastforce simp: info_wf_def tables_wf_def)
  moreover have "funcs_wf ?i" using assms new by (force simp: info_wf_def funcs_wf_def)
  ultimately show "info_wf ?i" using assms(1) by (simp add: info_wf_def sigs_wf_def mems_wf_def)
qed

lemma wf_func_export:
  assumes "info_wf info" and "u < length (funcs info)"
  shows "info_wf (info\<lparr>funcs := (funcs info)[u := push_export name (funcs info ! u)]\<rparr>)"
proof -
  have "entity f < length (signature_mapping info)" if "f \<in> set ((funcs info)[u := push_export name (funcs info ! u)])" for f
    using assms set_update_subset_insert [THEN subsetD, OF that] nth_mem [OF assms(2)] by (auto simp: info_wf_def funcs_wf_def)
  with assms(1) show ?thesis by (simp add: info_wf_def sigs_wf_def funcs_wf_def tables_wf_def mems_wf_def)
qed

section \<open>Every declaration\<close>

text \<open>The only error of a valid declaration is table elements for a table that is not local.\<close>

definition declared_ok :: "('sig, 'body) decl \<Rightarrow> (wasm_error, ('sig, 'body) module_validation) rresult \<Rightarrow> bool" where
  "declared_ok d r \<longleftrightarrow>
     (case r of
        Ok mv \<Rightarrow> validation_wf mv
      | Err e \<Rightarrow> (\<exists>t b offs els. d = D_TableElements t b offs els)
      | Panic _ \<Rightarrow> False)"

lemma on_info_ok:
  assumes "validation_wf mv" and "f (mv_info mv) = Ok info" and "info_wf info"
    and "imported_funcs info = imported_funcs (mv_info mv)" and "length (funcs (mv_info mv)) \<le> length (funcs info)"
  shows "declared_ok d (on_info f mv)"
  using assms by (simp add: declared_ok_def on_info_def validation_wf_def bodies_wf_def Let_def)

lemma import_field_Some [simp]: "import_field (Some f) = Ok f"
  by (simp add: import_field_def)

lemma declare_func_import_ok:
  assumes wf: "validation_wf mv" and s: "s < length (signature_mapping (mv_info mv))"
    and first: "length (funcs (mv_info mv)) = length (imported_funcs (mv_info mv))"
  shows "declared_ok d (declare_func_import s m (Some f) mv)"
proof -
  let ?info = "mv_info mv"
  have iw: "info_wf ?info" and vw: "validator_wf (mv_validator mv)" using wf by (simp_all add: validation_wf_def)
  have nb: "function_bodies mv = []" using wf first by (auto simp: validation_wf_def bodies_wf_def Let_def)
  have finish: "declared_ok d (rbind (signature_by_id info s) (\<lambda>(_, ft). validator_register (register_import m f ft) (mv\<lparr>mv_info := info\<rparr>)))"
    if i: "info_wf info" "signature_mapping info = signature_mapping ?info" "length (imported_funcs info) = length (funcs info)" for info
  proof -
    have "signature_by_id info s = (Ok (signatures info ! (signature_mapping info ! s)) :: (wasm_error, _) rresult)"
      using i s by (intro signature_by_id_Ok) (simp_all add: info_wf_def)
    moreover obtain v' where "validator_register (register_import m f (snd (signatures info ! (signature_mapping info ! s)))) (mv\<lparr>mv_info := info\<rparr>) =
        Ok (mv\<lparr>mv_info := info, mv_validator := v'\<rparr>)" "validator_wf v'"
      using validator_register_import [of "mv\<lparr>mv_info := info\<rparr>"] vw by fastforce
    ultimately show ?thesis
      using i nb by (simp add: declared_ok_def validation_wf_def bodies_wf_def case_prod_beta)
  qed
  show ?thesis
  proof (cases "position (\<lambda>v. v = (m, f)) (imported_funcs ?info)")
    case None
    from finish [OF wf_func_import(2) [OF iw s first None]] None first show ?thesis
      by (simp add: declare_func_import_def Let_def)
  next
    case (Some k)
    from finish [OF wf_func_import(1) [OF iw s first Some]] Some first show ?thesis
      by (simp add: declare_func_import_def Let_def)
  qed
qed

lemma declare_func_export_ok:
  assumes wf: "validation_wf mv" and ix: "ix < length (function_mapping (mv_info mv))"
  shows "declared_ok d (declare_func_export ix name mv)"
proof -
  let ?info = "mv_info mv" and ?u = "function_mapping (mv_info mv) ! ix"
  let ?new = "?info\<lparr>funcs := (funcs ?info)[?u := push_export name (funcs ?info ! ?u)]\<rparr>"
  have iw: "info_wf ?info" and vw: "validator_wf (mv_validator mv)" using wf by (simp_all add: validation_wf_def)
  have u: "?u < length (funcs ?info)" using iw ix by (simp add: info_wf_def funcs_wf_def)
  have nw: "info_wf ?new" by (rule wf_func_export [OF iw u])
  then have "entity (funcs ?info ! ?u) < length (signature_mapping ?info)" using iw u by (simp add: info_wf_def funcs_wf_def)
  then have "signature_for_function ?new ?u =
      (Ok (signatures ?info ! (signature_mapping ?info ! entity (funcs ?info ! ?u))) :: (wasm_error, _) rresult)"
    using u nw signature_by_id_Ok [of ?new] by (simp add: signature_for_function_def info_wf_def)
  moreover obtain v' where "validator_register (\<lambda>v. Ok (register_export name
        (snd (signatures ?info ! (signature_mapping ?info ! entity (funcs ?info ! ?u)))) v)) (mv\<lparr>mv_info := ?new\<rparr>) =
      Ok (mv\<lparr>mv_info := ?new, mv_validator := v'\<rparr>)" "validator_wf v'"
    using validator_register_export [of "mv\<lparr>mv_info := ?new\<rparr>"] vw by fastforce
  ultimately show ?thesis
    using wf nw ix u
    by (simp add: declared_ok_def declare_func_export_def unique_func_def export_at_def validation_wf_def bodies_wf_def case_prod_beta Let_def)
qed

lemma define_body_ok:
  assumes "validation_wf mv" and "length (imported_funcs (mv_info mv)) + length (function_bodies mv) < length (funcs (mv_info mv))"
  shows "declared_ok d (Ok (define_function_body b mv))"
proof -
  let ?n = "length (imported_funcs (mv_info mv))"
  have keys: "map fst (function_bodies mv) = [?n..<?n + length (function_bodies mv)]"
    using assms(1) by (simp add: validation_wf_def bodies_wf_def Let_def)
  then have "map_of (function_bodies mv) (?n + length (function_bodies mv)) = None"
    by (simp add: map_of_eq_None_iff flip: set_map)
  then have "AList.update (?n + length (function_bodies mv)) b (function_bodies mv) =
      function_bodies mv @ [(?n + length (function_bodies mv), b)]" by (rule update_new)
  with assms keys show ?thesis
    by (simp add: declared_ok_def define_function_body_def validation_wf_def bodies_wf_def Let_def)
qed

lemma declare_table_elements_ok:
  assumes "validation_wf mv" and "\<forall>f \<in> set els. f < length (function_mapping (mv_info mv))"
  shows "declared_ok (D_TableElements t b offs els) (on_info (declare_table_elements t b offs els) mv)"
proof (cases "declare_table_elements t b offs els (mv_info mv)")
  case (Ok info)
  have "imported_funcs info = imported_funcs (mv_info mv)" "funcs info = funcs (mv_info mv)"
    using Ok assms(2) by (auto simp: declare_table_elements_def collect_unique Let_def split: option.splits if_splits)
  then show ?thesis
    using wf_declare_table_elements [OF _ assms(2) Ok] assms(1) on_info_ok [of mv "declare_table_elements t b offs els", OF assms(1) Ok]
    by (simp add: validation_wf_def)
next
  case (Panic p)
  with assms(2) show ?thesis by (auto simp: declare_table_elements_def collect_unique Let_def split: option.splits if_splits)
qed (simp add: declared_ok_def on_info_def)

text \<open>The other declarations change no function.\<close>

lemma declare_simple_ok:
  assumes "validation_wf mv" and "\<exists>info. f (mv_info mv) = Ok info \<and> imported_funcs info = imported_funcs (mv_info mv) \<and>
      length (funcs (mv_info mv)) \<le> length (funcs info)"
    and "\<And>info. info_wf (mv_info mv) \<Longrightarrow> f (mv_info mv) = Ok info \<Longrightarrow> info_wf info"
  shows "declared_ok d (on_info f mv)"
  using assms on_info_ok [of mv f] by (auto simp: validation_wf_def)

lemma declare_decl_ok:
  assumes wf: "validation_wf mv" and valid: "decl_valid mv d"
  shows "declared_ok d (declare_decl add_vmctx d mv)"
proof (cases d)
  case (D_Type ft sig)
  show ?thesis unfolding D_Type declare_decl.simps
    by (rule declare_simple_ok [OF wf]) (auto simp: wf_declare_type_func, simp_all add: info_declare_type_func_def Let_def split: option.split)
next
  case (D_FuncImport s m f)
  then show ?thesis using wf valid by (auto intro: declare_func_import_ok)
next
  case (D_GlobalImport g m f)
  show ?thesis unfolding D_GlobalImport declare_decl.simps
    by (rule declare_simple_ok [OF wf], use valid D_GlobalImport in \<open>fastforce simp: declare_global_import_def\<close>, erule (1) wf_declare_global_import)
next
  case (D_TableImport t m f)
  show ?thesis unfolding D_TableImport declare_decl.simps
    by (rule declare_simple_ok [OF wf], use valid D_TableImport in \<open>fastforce simp: declare_table_import_def\<close>, erule (1) wf_declare_table_import)
next
  case (D_MemoryImport t m f)
  show ?thesis unfolding D_MemoryImport declare_decl.simps
    by (rule declare_simple_ok [OF wf], use valid D_MemoryImport in \<open>fastforce simp: declare_memory_import_def\<close>, erule (1) wf_declare_memory_import)
next
  case (D_Func s)
  show ?thesis unfolding D_Func declare_decl.simps
    by (rule declare_simple_ok [OF wf]) (use valid D_Func in \<open>auto simp: wf_declare_func_type, simp_all add: info_declare_func_type_def\<close>)
next
  case (D_Table t)
  show ?thesis unfolding D_Table declare_decl.simps
    by (rule declare_simple_ok [OF wf]) (auto simp: wf_declare_table, simp_all add: declare_table_def)
next
  case (D_Memory t)
  show ?thesis unfolding D_Memory declare_decl.simps
    by (rule declare_simple_ok [OF wf]) (auto simp: wf_declare_memory, simp_all add: declare_memory_def)
next
  case (D_Global t)
  show ?thesis unfolding D_Global declare_decl.simps
    by (rule declare_simple_ok [OF wf]) (auto simp: wf_globals, simp_all add: declare_global_def)
next
  case (D_TableExport ix name)
  show ?thesis unfolding D_TableExport declare_decl.simps
    by (rule declare_simple_ok [OF wf], use valid D_TableExport in \<open>fastforce simp: declare_table_export_def export_at_def\<close>, erule (1) wf_exports(1))
next
  case (D_MemoryExport ix name)
  show ?thesis unfolding D_MemoryExport declare_decl.simps
    by (rule declare_simple_ok [OF wf], use valid D_MemoryExport in \<open>fastforce simp: declare_memory_export_def export_at_def\<close>, erule (1) wf_exports(2))
next
  case (D_GlobalExport ix name)
  show ?thesis unfolding D_GlobalExport declare_decl.simps
    by (rule declare_simple_ok [OF wf], use valid D_GlobalExport in \<open>fastforce simp: declare_global_export_def export_at_def\<close>, erule (1) wf_exports(3))
next
  case (D_Start f)
  show ?thesis unfolding D_Start declare_decl.simps
    by (rule declare_simple_ok [OF wf], use valid D_Start in \<open>fastforce simp: declare_start_func_def unique_func_def\<close>, erule (1) wf_declare_start)
next
  case (D_Data m b offs dat)
  have "info_wf (mv_info mv)" using wf by (simp add: validation_wf_def)
  then obtain ds where "map_of (data_initializers (mv_info mv)) m = Some ds" using valid D_Data by (auto simp: info_wf_def mems_wf_def)
  then show ?thesis unfolding D_Data declare_decl.simps
    by (intro declare_simple_ok [OF wf]) (simp add: declare_data_initialization_def Let_def, erule (1) wf_declare_data)
next
  case (D_FuncName ix name)
  show ?thesis unfolding D_FuncName declare_decl.simps
    by (rule declare_simple_ok [OF wf], use valid D_FuncName in \<open>fastforce simp: declare_func_name_def unique_func_def\<close>, erule (1) wf_declare_func_name)
qed (use wf valid in \<open>simp_all add: declare_func_export_ok define_body_ok declare_table_elements_ok\<close>)

section \<open>Sequences of declarations\<close>

inductive translates ::
  "('sig \<Rightarrow> 'sig) \<Rightarrow> validator option \<Rightarrow> ('sig, 'body) decl list \<Rightarrow> ('sig, 'body) module_validation \<Rightarrow> bool"
  for add_vmctx v where
  translates_start: "translates add_vmctx v [] (module_validation_new v)"
| translates_decl: "translates add_vmctx v ds mv \<Longrightarrow> decl_valid mv d \<Longrightarrow> declare_decl add_vmctx d mv = Ok mv' \<Longrightarrow>
     translates add_vmctx v (ds @ [d]) mv'"

lemma validation_wf_new: "validator_wf v \<Longrightarrow> validation_wf (module_validation_new v)"
  by (simp add: validation_wf_def module_validation_new_def module_info_new_def wf_defs bodies_wf_def)

lemma translates_wf: "translates add_vmctx v ds mv \<Longrightarrow> validator_wf v \<Longrightarrow> validation_wf mv"
proof (induction rule: translates.induct)
  case (translates_decl ds mv d mv')
  then show ?case using declare_decl_ok [of mv d add_vmctx] by (simp add: declared_ok_def)
qed (simp add: validation_wf_new)

text \<open>The types declared so far.\<close>

fun decl_types :: "('sig, 'body) decl list \<Rightarrow> ('sig \<times> wasm_func_type) list" where
  "decl_types [] = []"
| "decl_types (D_Type ft sig # ds) = (sig, ft) # decl_types ds"
| "decl_types (_ # ds) = decl_types ds"

lemma decl_types_append [simp]: "decl_types (ds @ es) = decl_types ds @ decl_types es"
  by (induction ds rule: decl_types.induct) simp_all

lemma validator_register_info: "validator_register act mv = Ok mv' \<Longrightarrow> mv_info mv' = mv_info mv"
  by (auto simp: validator_register_def split: option.splits rresult.splits)

lemma declare_keeps_types:
  assumes "declare_decl add_vmctx d mv = Ok mv'" and "\<forall>ft sig. d \<noteq> D_Type ft sig"
  shows "signature_mapping (mv_info mv') = signature_mapping (mv_info mv) \<and> signatures (mv_info mv') = signatures (mv_info mv)"
proof (cases d)
  case (D_FuncImport s m f)
  with assms(1) show ?thesis
    by (auto simp: declare_func_import_def Let_def split: if_splits prod.splits option.splits dest!: validator_register_info)
next
  case (D_FuncExport ix name)
  with assms(1) show ?thesis
    by (auto simp: declare_func_export_def Let_def split: prod.splits dest!: validator_register_info)
next
  case (D_TableElements t b offs els)
  with assms(1) show ?thesis
    by (auto simp: on_info_def declare_table_elements_def Let_def split: option.splits if_splits)
next
  case (D_Data m b offs dat)
  with assms(1) show ?thesis by (auto simp: on_info_def declare_data_initialization_def Let_def split: option.splits)
qed (use assms in \<open>auto simp: on_info_def declare_global_import_def declare_table_import_def declare_memory_import_def
    info_declare_func_type_def declare_table_def declare_memory_def declare_global_def declare_table_export_def declare_memory_export_def
    declare_global_export_def declare_start_func_def define_function_body_def declare_func_name_def Let_def split: if_splits\<close>)

lemma declare_type_maps:
  assumes "sigs_wf info" and info': "info' = info_declare_type_func add_vmctx ft sig info"
  shows "map (\<lambda>k. fst (signatures info' ! k)) (signature_mapping info') =
    map (\<lambda>k. fst (signatures info ! k)) (signature_mapping info) @ [add_vmctx sig]"
proof (cases "position (\<lambda>(ssig, _). ssig = add_vmctx sig) (signatures info)")
  case None
  then have "info' = info\<lparr>signatures := signatures info @ [(add_vmctx sig, ft)],
      signature_mapping := signature_mapping info @ [length (signatures info)]\<rparr>"
    by (simp add: info' info_declare_type_func_def Let_def)
  with assms(1) show ?thesis by (auto simp: sigs_wf_def nth_append)
next
  case (Some k)
  then have "info' = info\<lparr>signature_mapping := signature_mapping info @ [k]\<rparr>"
    by (simp add: info' info_declare_type_func_def Let_def)
  with position_Some [OF Some] show ?thesis by (auto simp: case_prod_beta)
qed

lemma translates_types:
  assumes "translates add_vmctx v ds mv" and "validator_wf v"
  shows "map (\<lambda>k. fst (signatures (mv_info mv) ! k)) (signature_mapping (mv_info mv)) = map (add_vmctx \<circ> fst) (decl_types ds)"
  using assms
proof (induction rule: translates.induct)
  case translates_start
  then show ?case by (simp add: module_validation_new_def module_info_new_def)
next
  case (translates_decl ds mv d mv')
  show ?case
  proof (cases "\<exists>ft sig. d = D_Type ft sig")
    case True
    then obtain ft sig where d: "d = D_Type ft sig" by blast
    have "sigs_wf (mv_info mv)"
      using translates_wf [OF translates_decl(1,5)] by (simp add: validation_wf_def info_wf_def)
    from declare_type_maps [OF this refl, of add_vmctx ft sig] translates_decl d show ?thesis by (auto simp: on_info_def)
  next
    case False
    then have "decl_types [d] = []" by (cases d) auto
    with False declare_keeps_types [OF translates_decl(3)] translates_decl show ?thesis by simp
  qed
qed

section \<open>Properties\<close>

text \<open>C5: Collecting a valid module never panics and keeps every index in range: after any sequence of valid
  declarations, every type index maps to a signature, every function to a type, every export, table element and the
  start function to a function, every memory has its data initializers, and the bodies belong to the
  functions after the imports, in order; and the next declaration keeps this, unless it adds elements to a table
  that is not local, which is an error.\<close>

theorem module_info_consistent:
  assumes "translates add_vmctx v ds mv" and "validator_wf v" and "decl_valid mv d"
  shows "validation_wf mv \<and> declared_ok d (declare_decl add_vmctx d mv)"
  using translates_wf [OF assms(1,2)] declare_decl_ok [OF _ assms(3)] by blast

text \<open>Types are merged exactly when their signatures are equal: two types declared in a module get the same unique
  signature if and only if their signatures are the same, and the signature kept is the declared one with the
  \<open>vmctx\<close> parameter.\<close>

theorem types_merged_exactly:
  assumes "translates add_vmctx v ds mv" and "validator_wf v" and "inj add_vmctx"
    and "i < length (decl_types ds)" and "j < length (decl_types ds)"
  shows "fst (signatures (mv_info mv) ! (signature_mapping (mv_info mv) ! i)) = add_vmctx (fst (decl_types ds ! i)) \<and>
    (signature_mapping (mv_info mv) ! i = signature_mapping (mv_info mv) ! j \<longleftrightarrow>
     fst (decl_types ds ! i) = fst (decl_types ds ! j))"
proof -
  let ?info = "mv_info mv"
  note maps = translates_types [OF assms(1,2)]
  have len: "length (signature_mapping ?info) = length (decl_types ds)" using arg_cong [OF maps, of length] by simp
  have at: "fst (signatures ?info ! (signature_mapping ?info ! k)) = add_vmctx (fst (decl_types ds ! k))"
    if "k < length (decl_types ds)" for k
    using arg_cong [OF maps, of "\<lambda>xs. xs ! k"] that len by simp
  have wf: "sigs_wf ?info" using translates_wf [OF assms(1,2)] by (simp add: validation_wf_def info_wf_def)
  then have range: "signature_mapping ?info ! k < length (signatures ?info)" if "k < length (decl_types ds)" for k
    using that len by (simp add: sigs_wf_def)
  have "signature_mapping ?info ! i = signature_mapping ?info ! j" if "fst (decl_types ds ! i) = fst (decl_types ds ! j)"
    using at [OF assms(4)] at [OF assms(5)] that wf range [OF assms(4)] range [OF assms(5)]
      nth_eq_iff_index_eq [of "map fst (signatures ?info)" "signature_mapping ?info ! i" "signature_mapping ?info ! j"]
    by (simp add: sigs_wf_def)
  with at [OF assms(4)] at [OF assms(5)] assms(3) show ?thesis by (auto simp: inj_def)
qed

text \<open>A module with a type declared twice, an import, a local function that is exported and the start function, a
  memory with data, and a table. Signatures are lists, \<open>add_vmctx\<close> puts an element in front.\<close>

definition demo_decls :: "(nat list, unit) decl list" where
  "demo_decls =
     [D_Type \<lparr>wf_params = [W_I32], wf_returns = []\<rparr> [1], D_Type \<lparr>wf_params = [W_I32], wf_returns = []\<rparr> [1],
      D_Type no_params_no_returns [], D_FuncImport 1 ''env'' (Some ''print''), D_Func 2,
      D_Table \<lparr>wt_ty = TE_Func, wt_minimum = 2, wt_maximum = None\<rparr>, D_Memory \<lparr>wm_minimum = 1, wm_maximum = None\<rparr>,
      D_FuncExport 1 ''main'', D_Start 1, D_Body (), D_TableElements 0 None 0 [1, 0], D_Data 0 None 5 [7, 8]]"

fun declare_all ::
  "('sig \<Rightarrow> 'sig) \<Rightarrow> ('sig, 'body) decl list \<Rightarrow> ('sig, 'body) module_validation \<Rightarrow> ('sig, 'body) module_validation option" where
  "declare_all add_vmctx [] mv = Some mv"
| "declare_all add_vmctx (d # ds) mv =
     (if decl_valid mv d then (case declare_decl add_vmctx d mv of Ok mv' \<Rightarrow> declare_all add_vmctx ds mv' | _ \<Rightarrow> None) else None)"

lemma declare_all_translates:
  assumes "declare_all add_vmctx ds mv = Some mv'" and "translates add_vmctx v es mv"
  shows "translates add_vmctx v (es @ ds) mv'"
  using assms
proof (induction ds arbitrary: mv es)
  case (Cons d ds)
  then obtain mv1 where "decl_valid mv d" "declare_decl add_vmctx d mv = Ok mv1" "declare_all add_vmctx ds mv1 = Some mv'"
    by (auto split: if_splits rresult.splits)
  with Cons.IH [of mv1 "es @ [d]"] Cons.prems(2) translates_decl show ?case by fastforce
qed simp

lemmas declare_eval = module_validation_new_def module_info_new_def on_info_def info_declare_type_func_def declare_func_import_def
  import_field_def info_declare_func_type_def declare_table_def declare_memory_def declare_func_export_def unique_func_def
  export_at_def push_export_def exportable_new_def signature_for_function_def signature_by_id_def validator_register_def
  declare_start_func_def define_function_body_def declare_table_elements_def declare_data_initialization_def

lemma demo_declared: "\<exists>mv. declare_all (Cons 0) demo_decls (module_validation_new None) = Some mv \<and> translates (Cons 0) None demo_decls mv \<and>
    signature_mapping (mv_info mv) = [0, 0, 1] \<and> length (funcs (mv_info mv)) = 2 \<and> length (function_mapping (mv_info mv)) = 2"
proof -
  obtain mv where mv: "declare_all (Cons 0) demo_decls (module_validation_new None) = Some mv"
    "signature_mapping (mv_info mv) = [0, 0, 1]" "length (funcs (mv_info mv)) = 2" "length (function_mapping (mv_info mv)) = 2"
    by (simp add: demo_decls_def declare_eval no_params_no_returns_def)
  with declare_all_translates [OF mv(1) translates_start] show ?thesis by auto
qed

theorem module_info_consistent_witness:
  "\<exists>mv. declare_all (Cons 0) demo_decls (module_validation_new None) = Some mv \<and> validation_wf mv \<and>
     declared_ok (D_FuncName 1 ''main'') (declare_decl (Cons 0) (D_FuncName 1 ''main'') mv)"
proof -
  obtain mv where mv: "declare_all (Cons 0) demo_decls (module_validation_new None) = Some mv" "translates (Cons 0) None demo_decls mv"
    "length (function_mapping (mv_info mv)) = 2" using demo_declared by blast
  with module_info_consistent [OF mv(2), of "D_FuncName 1 ''main''"] show ?thesis by (auto simp: validator_wf_def)
qed

theorem types_merged_exactly_witness:
  "\<exists>mv. declare_all (Cons 0) demo_decls (module_validation_new None) = Some mv \<and>
     signature_mapping (mv_info mv) ! 0 = signature_mapping (mv_info mv) ! 1 \<and>
     signature_mapping (mv_info mv) ! 0 \<noteq> signature_mapping (mv_info mv) ! 2"
proof -
  obtain mv where mv: "declare_all (Cons 0) demo_decls (module_validation_new None) = Some mv" "translates (Cons 0) None demo_decls mv"
    using demo_declared by blast
  have ts: "decl_types demo_decls = [([1], \<lparr>wf_params = [W_I32], wf_returns = []\<rparr>), ([1], \<lparr>wf_params = [W_I32], wf_returns = []\<rparr>), ([], no_params_no_returns)]"
    by (simp add: demo_decls_def)
  have "validator_wf None" "inj (Cons (0::nat))" by (simp_all add: validator_wf_def inj_def)
  from types_merged_exactly [OF mv(2) this, of 0 1] types_merged_exactly [OF mv(2) this, of 0 2] mv(1) show ?thesis
    by (simp add: ts)
qed

text \<open>Imports are merged by name, whatever their types: of two imports of one function with different types, the second
  index has the type of the first.\<close>

theorem import_merge_ignores_type:
  "\<exists>mv. declare_all (Cons 0) [D_Type \<lparr>wf_params = [W_I32], wf_returns = []\<rparr> [1], D_Type \<lparr>wf_params = [W_I64], wf_returns = []\<rparr> [2],
       D_FuncImport 0 ''env'' (Some ''f''), D_FuncImport 1 ''env'' (Some ''f'')] (module_validation_new None :: (nat list, unit) module_validation) = Some mv \<and>
     function_mapping (mv_info mv) = [0, 0] \<and>
     signature_for_function (mv_info mv) (function_mapping (mv_info mv) ! 1) =
       (Ok ([0, 1], \<lparr>wf_params = [W_I32], wf_returns = []\<rparr>) :: (wasm_error, _) rresult)"
  by (simp add: declare_eval)

end
