(* ===== verification/Sparse_Init.thy ===== *)
theory Sparse_Init
  imports Module_Info
begin

text \<open>
  The initial contents of linear memory (\<open>lucetc/src/sparsedata.rs\<close>): data segments are cut at page boundaries,
  written into a map of pages, and the pages of the initial heap become the sparse data of the module. The
  lemmas relate this to the image WebAssembly gives the segments: written in order over zeros.
\<close>

section \<open>Operations\<close>

definition linear_memory_range :: "data_initializer \<Rightarrow> nat \<Rightarrow> nat \<Rightarrow> (lucetc_error, u8 list) rresult" where
  "linear_memory_range di start stop =
     (let offs = di_offset di in
      if \<not> start \<le> stop then Panic ''assertion failed: end >= start''
      else if \<not> offs \<le> start then Panic ''assertion failed: start >= offs''
      else if \<not> start < offs + length (di_data di) then Panic ''assertion failed: start < offs + di.data.len()''
      else if \<not> offs \<le> stop then Panic ''assertion failed: end >= offs''
      else if \<not> stop \<le> offs + length (di_data di) then Panic ''assertion failed: end <= offs + di.data.len()''
      else Ok (slice_range (start - offs) (stop - offs) (di_data di)))"

text \<open>The loop of \<open>split\<close>; every round moves \<open>offs\<close> to the next page boundary or the end.\<close>

function split_loop ::
  "data_initializer \<Rightarrow> nat \<Rightarrow> (nat \<times> data_initializer) list \<Rightarrow> (lucetc_error, (nat \<times> data_initializer) list) rresult" where
  "split_loop di offs out =
     (let stop = di_offset di + length (di_data di) in
      if offs < stop then
        (let page = offs div 4096; page_offs = offs mod 4096; next = min ((page + 1) * 4096) stop in
         rbind (linear_memory_range di offs next) (\<lambda>subslice.
           split_loop di next (out @ [(page, \<lparr>di_base = None, di_offset = page_offs, di_data = subslice\<rparr>)])))
      else Ok out)"
  by pat_completeness auto
termination
proof (relation "measure (\<lambda>(di, offs, _). di_offset di + length (di_data di) - offs)")
  fix di :: data_initializer and offs stop page nxt :: nat
  assume "stop = di_offset di + length (di_data di)" "offs < stop" "page = offs div 4096" "nxt = min ((page + 1) * 4096) stop"
  moreover have "offs < (offs div 4096 + 1) * 4096" using dividend_less_div_times [of 4096 offs] by (simp add: algebra_simps)
  ultimately show "((di, nxt, out), (di, offs, out')) \<in> measure (\<lambda>(di, offs, _). di_offset di + length (di_data di) - offs)" for out out'
    by auto
qed auto

declare split_loop.simps [simp del]

definition split_initializer :: "data_initializer \<Rightarrow> (lucetc_error, (nat \<times> data_initializer) list) rresult" where
  "split_initializer di = split_loop di (di_offset di) []"

fun write_chunks ::
  "heap_spec \<Rightarrow> (nat \<times> data_initializer) list \<Rightarrow> (nat, u8 list) hash_map \<Rightarrow> (lucetc_error, (nat, u8 list) hash_map) rresult" where
  "write_chunks hs [] pagemap = Ok pagemap"
| "write_chunks hs ((pagenumber, chunk) # chunks) pagemap =
     (if pagenumber > unat (initial_size hs) div 4096 then Err L_InitData
      else
        let base = di_offset chunk;
            page = (case map_of pagemap pagenumber of Some occ \<Rightarrow> occ | None \<Rightarrow> replicate 4096 0)
        in if base + length (di_data chunk) > length page then Panic ''range end index out of range for slice''
           else write_chunks hs chunks (AList.update pagenumber (write_slice base (di_data chunk) page) pagemap))"

fun write_initializers ::
  "heap_spec \<Rightarrow> data_initializer list \<Rightarrow> (nat, u8 list) hash_map \<Rightarrow> (lucetc_error, (nat, u8 list) hash_map) rresult" where
  "write_initializers hs [] pagemap = Ok pagemap"
| "write_initializers hs (di # dis) pagemap =
     (if di_base di \<noteq> None
      then Err (L_Unsupported ''cannot create sparse data: data initializer uses global as base'')
      else rbind (split_initializer di) (\<lambda>chunks.
           rbind (write_chunks hs chunks pagemap) (write_initializers hs dis)))"

definition owned_sparse_data_from_initializers ::
  "data_initializer list \<Rightarrow> heap_spec \<Rightarrow> (lucetc_error, owned_sparse_data) rresult" where
  "owned_sparse_data_from_initializers initializers hs =
     rbind (write_initializers hs initializers []) (\<lambda>pagemap.
       if unat (initial_size hs) mod 4096 \<noteq> 0 then Panic ''assertion failed: heap.initial_size % PAGE_SIZE == 0''
       else
         let highest_page = unat (initial_size hs) div 4096;
             out = map (map_of pagemap) [0..<highest_page]
         in if \<not> list_all page_ok out then Panic ''assertion failed: chunk.len() == 4096''
            else map_err L_LucetModule (owned_sparse_data_new out))"

section \<open>The image of the data segments\<close>

definition seg_write :: "data_initializer \<Rightarrow> (nat \<Rightarrow> u8) \<Rightarrow> nat \<Rightarrow> u8" where
  "seg_write di m a = (if di_offset di \<le> a \<and> a < di_offset di + length (di_data di) then di_data di ! (a - di_offset di) else m a)"

definition data_image :: "data_initializer list \<Rightarrow> nat \<Rightarrow> u8" where
  "data_image dis = fold seg_write dis (\<lambda>_. 0)"

text \<open>The last page a segment reaches.\<close>

definition last_page :: "data_initializer \<Rightarrow> nat" where
  "last_page di = (di_offset di + length (di_data di) - 1) div 4096"

definition in_pages :: "heap_spec \<Rightarrow> data_initializer \<Rightarrow> bool" where
  "in_pages hs di \<longleftrightarrow> di_data di = [] \<or> last_page di \<le> unat (initial_size hs) div 4096"

section \<open>Lemmas\<close>

text \<open>A chunk as a segment of the whole memory.\<close>

fun chunk_seg :: "nat \<times> data_initializer \<Rightarrow> data_initializer" where
  "chunk_seg (page, c) = c\<lparr>di_offset := page * 4096 + di_offset c\<rparr>"

definition chunk_ok :: "nat \<times> data_initializer \<Rightarrow> bool" where
  "chunk_ok pc \<longleftrightarrow> di_offset (snd pc) + length (di_data (snd pc)) \<le> 4096"

lemma next_page: "offs < (offs div 4096 + 1) * (4096::nat)"
  using dividend_less_div_times [of 4096 offs] by (simp add: algebra_simps)

lemma split_step:
  assumes "di_offset di \<le> offs" and "offs < stop" and stop: "stop = di_offset di + length (di_data di)"
    and nxt: "nxt = min ((offs div 4096 + 1) * 4096) stop"
  defines "c \<equiv> \<lparr>di_base = None, di_offset = offs mod 4096, di_data = slice_range (offs - di_offset di) (nxt - di_offset di) (di_data di)\<rparr>"
  shows "split_loop di offs out = split_loop di nxt (out @ [(offs div 4096, c)])"
    and "chunk_ok (offs div 4096, c)"
    and "seg_write (chunk_seg (offs div 4096, c)) m =
      (\<lambda>a. if offs \<le> a \<and> a < nxt then di_data di ! (a - di_offset di) else m a)"
    and "offs < nxt" and "nxt \<le> stop"
proof -
  have n: "offs < nxt" "nxt \<le> stop" "nxt \<le> (offs div 4096 + 1) * 4096" using next_page [of offs] assms(2) nxt by auto
  have "linear_memory_range di offs nxt = Ok (di_data c)"
    using assms(1,2) n stop by (simp add: linear_memory_range_def c_def Let_def)
  then show "split_loop di offs out = split_loop di nxt (out @ [(offs div 4096, c)])"
    using assms(2) stop nxt by (subst split_loop.simps) (simp add: c_def Let_def)
  have len: "length (di_data c) = nxt - offs" using n assms(1) stop by (simp add: c_def slice_range_def)
  have offs: "offs div 4096 * 4096 + offs mod 4096 = offs" by simp
  have "nxt \<le> offs div 4096 * 4096 + 4096" using n(3) by simp
  then have "offs mod 4096 + (nxt - offs) \<le> 4096" using n(1) offs by linarith
  with len show "chunk_ok (offs div 4096, c)" by (simp add: chunk_ok_def c_def)
  have "di_data c ! (a - offs) = di_data di ! (a - di_offset di)" if "offs \<le> a" "a < nxt" for a
    using that assms(1) n stop by (simp add: c_def slice_range_def)
  with len offs n show "seg_write (chunk_seg (offs div 4096, c)) m =
      (\<lambda>a. if offs \<le> a \<and> a < nxt then di_data di ! (a - di_offset di) else m a)"
    by (auto simp: fun_eq_iff seg_write_def c_def)
  show "offs < nxt" "nxt \<le> stop" by (rule n(1), rule n(2))
qed

lemma split_loop_Ok:
  assumes "di_offset di \<le> offs" and "offs \<le> di_offset di + length (di_data di)"
  shows "\<exists>cs. split_loop di offs out = Ok (out @ cs) \<and> list_all chunk_ok cs \<and>
    (\<forall>m. fold (seg_write \<circ> chunk_seg) cs m =
       (\<lambda>a. if offs \<le> a \<and> a < di_offset di + length (di_data di) then di_data di ! (a - di_offset di) else m a)) \<and>
    (\<forall>(p, c) \<in> set cs. p \<le> last_page di) \<and>
    (offs < di_offset di + length (di_data di) \<longrightarrow> last_page di \<in> fst ` set cs)"
  using assms
proof (induction "di_offset di + length (di_data di) - offs" arbitrary: offs out rule: less_induct)
  case less
  let ?stop = "di_offset di + length (di_data di)"
  show ?case
  proof (cases "offs < ?stop")
    case False
    then have "split_loop di offs out = Ok (out @ [])" by (subst split_loop.simps) simp
    with False show ?thesis by (intro exI [of _ "[]"]) (auto simp: fun_eq_iff)
  next
    case True
    define nxt where "nxt = min ((offs div 4096 + 1) * 4096) ?stop"
    define c where "c = \<lparr>di_base = None, di_offset = offs mod 4096, di_data = slice_range (offs - di_offset di) (nxt - di_offset di) (di_data di)\<rparr>"
    note step = split_step [OF less.prems(1) True refl nxt_def, folded c_def]
    have "di_offset di \<le> nxt" using step(4) less.prems(1) by simp
    moreover have "?stop - nxt < ?stop - offs" using step(4,5) True by linarith
    ultimately obtain cs where cs: "split_loop di nxt (out @ [(offs div 4096, c)]) = Ok ((out @ [(offs div 4096, c)]) @ cs)" "list_all chunk_ok cs"
      "\<And>m. fold (seg_write \<circ> chunk_seg) cs m = (\<lambda>a. if nxt \<le> a \<and> a < ?stop then di_data di ! (a - di_offset di) else m a)"
      "\<forall>(p, c) \<in> set cs. p \<le> last_page di" "nxt < ?stop \<longrightarrow> last_page di \<in> fst ` set cs"
      using less.hyps [of nxt "out @ [(offs div 4096, c)]"] step(5) by blast
    let ?cs = "(offs div 4096, c) # cs"
    have "fold (seg_write \<circ> chunk_seg) ?cs m = (\<lambda>a. if offs \<le> a \<and> a < ?stop then di_data di ! (a - di_offset di) else m a)" for m
      using cs(3) step(3) [of m] step(4,5) by (auto simp: fun_eq_iff)
    moreover have "offs div 4096 \<le> last_page di" using True by (auto simp: last_page_def intro: div_le_mono)
    moreover have "offs div 4096 = last_page di" if "\<not> nxt < ?stop"
    proof -
      have "?stop \<le> (offs div 4096 + 1) * 4096" using that step(5) by (auto simp: nxt_def min_def split: if_splits)
      then have "last_page di < offs div 4096 + 1" using True unfolding last_page_def by (intro less_mult_imp_div_less) simp
      with True show ?thesis by (auto simp: last_page_def intro: antisym div_le_mono)
    qed
    ultimately show ?thesis using step(1) [of out] step(2) cs by (intro exI [of _ ?cs]) auto
  qed
qed

lemma split_initializer_Ok:
  obtains cs where "split_initializer di = Ok cs" "list_all chunk_ok cs" "\<And>m. fold (seg_write \<circ> chunk_seg) cs m = seg_write di m"
    "(\<forall>(p, c) \<in> set cs. p \<le> n) \<longleftrightarrow> di_data di = [] \<or> last_page di \<le> n"
proof -
  obtain cs where cs: "split_initializer di = Ok cs" "list_all chunk_ok cs"
    "\<forall>m. fold (seg_write \<circ> chunk_seg) cs m = (\<lambda>a. if di_offset di \<le> a \<and> a < di_offset di + length (di_data di) then di_data di ! (a - di_offset di) else m a)"
    "\<forall>(p, c) \<in> set cs. p \<le> last_page di" "di_data di \<noteq> [] \<longrightarrow> last_page di \<in> fst ` set cs"
    using split_loop_Ok [of di "di_offset di" "[]"] by (auto simp: split_initializer_def)
  have "(\<forall>(p, c) \<in> set cs. p \<le> n) \<longleftrightarrow> di_data di = [] \<or> last_page di \<le> n"
  proof (cases "di_data di = []")
    case True
    then have "cs = []" using cs(1) by (simp add: split_initializer_def split_loop.simps)
    with True show ?thesis by simp
  next
    case False
    with cs(4,5) show ?thesis by fastforce
  qed
  with cs that show ?thesis by (simp add: seg_write_def fun_eq_iff)
qed

text \<open>The pages written so far, read as memory.\<close>

definition page_byte :: "(nat, u8 list) hash_map \<Rightarrow> nat \<Rightarrow> u8" where
  "page_byte pm a = (case map_of pm (a div 4096) of Some p \<Rightarrow> p ! (a mod 4096) | None \<Rightarrow> 0)"

definition pages_full :: "(nat, u8 list) hash_map \<Rightarrow> bool" where
  "pages_full pm \<longleftrightarrow> (\<forall>k p. map_of pm k = Some p \<longrightarrow> length p = 4096)"

lemma write_chunk:
  assumes ok: "chunk_ok (k, c)" and full: "pages_full pm"
    and page: "page = (case map_of pm k of Some occ \<Rightarrow> occ | None \<Rightarrow> replicate 4096 0)"
  shows "length page = 4096" and "pages_full (AList.update k (write_slice (di_offset c) (di_data c) page) pm)"
    and "page_byte (AList.update k (write_slice (di_offset c) (di_data c) page) pm) = seg_write (chunk_seg (k, c)) (page_byte pm)"
proof -
  show len: "length page = 4096" using full page by (auto simp: pages_full_def split: option.splits)
  have fit: "di_offset c + length (di_data c) \<le> length page" using ok len by (simp add: chunk_ok_def)
  show "pages_full (AList.update k (write_slice (di_offset c) (di_data c) page) pm)"
    using full len length_write_slice [OF fit] by (simp add: pages_full_def)
  have "page ! (a mod 4096) = page_byte pm a" if "a div 4096 = k" for a
    using page that by (auto simp: page_byte_def split: option.splits)
  moreover have "k * 4096 + di_offset c \<le> a \<and> a < k * 4096 + di_offset c + length (di_data c) \<longleftrightarrow>
      a div 4096 = k \<and> di_offset c \<le> a mod 4096 \<and> a mod 4096 < di_offset c + length (di_data c)" for a
  proof -
    have a: "a = a div 4096 * 4096 + a mod 4096" by simp
    have "a div 4096 = k" if "k * 4096 + di_offset c \<le> a" "a < k * 4096 + di_offset c + length (di_data c)"
      using that ok by (intro div_nat_eqI) (simp_all add: chunk_ok_def)
    moreover have ?thesis if "a div 4096 = k" using a that by linarith
    ultimately show ?thesis by blast
  qed
  moreover have "a - (k * 4096 + di_offset c) = a mod 4096 - di_offset c" if "a div 4096 = k" for a
    using that div_mult_mod_eq [of a 4096] by (metis add.commute diff_add_inverse diff_diff_left)
  ultimately show "page_byte (AList.update k (write_slice (di_offset c) (di_data c) page) pm) = seg_write (chunk_seg (k, c)) (page_byte pm)"
    using nth_write_slice [OF fit] len
    by (auto simp: fun_eq_iff seg_write_def) (simp_all add: page_byte_def)
qed

lemma write_chunks_Ok:
  assumes "list_all chunk_ok cs" and "pages_full pm"
  shows "if \<forall>(p, c) \<in> set cs. p \<le> unat (initial_size hs) div 4096
    then \<exists>pm'. write_chunks hs cs pm = Ok pm' \<and> pages_full pm' \<and> page_byte pm' = fold (seg_write \<circ> chunk_seg) cs (page_byte pm)
    else write_chunks hs cs pm = Err L_InitData"
  using assms
proof (induction hs cs pm rule: write_chunks.induct)
  case (2 hs k c cs pm)
  let ?page = "case map_of pm k of Some occ \<Rightarrow> occ | None \<Rightarrow> replicate 4096 0"
  let ?pm = "AList.update k (write_slice (di_offset c) (di_data c) ?page) pm"
  have ok: "chunk_ok (k, c)" "list_all chunk_ok cs" using 2(2) by simp_all
  note w = write_chunk [OF ok(1) 2(3) refl]
  have fit: "\<not> di_offset c + length (di_data c) > length ?page" using ok(1) w(1) by (simp add: chunk_ok_def)
  show ?case
  proof (cases "k \<le> unat (initial_size hs) div 4096")
    case True
    then have eq: "write_chunks hs ((k, c) # cs) pm = write_chunks hs cs ?pm" using fit by (simp add: Let_def)
    have "if \<forall>(p, c) \<in> set cs. p \<le> unat (initial_size hs) div 4096
      then \<exists>pm'. write_chunks hs cs ?pm = Ok pm' \<and> pages_full pm' \<and> page_byte pm' = fold (seg_write \<circ> chunk_seg) cs (page_byte ?pm)
      else write_chunks hs cs ?pm = Err L_InitData"
      by (rule 2(1) [OF _ refl refl]) (use True fit ok(2) w(2) in simp_all)
    with True show ?thesis unfolding eq w(3) by (auto simp: comp_def split: if_splits)
  qed (use 2 in auto)
qed simp

lemma write_initializers_Ok:
  assumes "pages_full pm"
  shows "case write_initializers hs dis pm of
      Ok pm' \<Rightarrow> pages_full pm' \<and> page_byte pm' = fold seg_write dis (page_byte pm) \<and> (\<forall>di \<in> set dis. di_base di = None \<and> in_pages hs di)
    | Err e \<Rightarrow> (e = L_InitData \<and> (\<exists>di \<in> set dis. \<not> in_pages hs di)) \<or>
        (e = L_Unsupported ''cannot create sparse data: data initializer uses global as base'' \<and> (\<exists>di \<in> set dis. di_base di \<noteq> None))
    | Panic _ \<Rightarrow> False"
  using assms
proof (induction dis arbitrary: pm)
  case (Cons di dis)
  let ?n = "unat (initial_size hs) div 4096"
  obtain cs where cs: "split_initializer di = Ok cs" "list_all chunk_ok cs" "\<And>m. fold (seg_write \<circ> chunk_seg) cs m = seg_write di m"
    "(\<forall>(p, c) \<in> set cs. p \<le> ?n) \<longleftrightarrow> di_data di = [] \<or> last_page di \<le> ?n"
    by (rule split_initializer_Ok [of di ?n]) (rule that)
  show ?case
  proof (cases "di_base di = None")
    case base: True
    show ?thesis
    proof (cases "in_pages hs di")
      case True
      then obtain pm' where "write_chunks hs cs pm = Ok pm'" "pages_full pm'" "page_byte pm' = seg_write di (page_byte pm)"
        using write_chunks_Ok [OF cs(2) Cons.prems, of hs] cs(3,4) by (auto simp: in_pages_def)
      with Cons.IH [of pm'] base cs(1) True show ?thesis by (auto split: rresult.splits)
    next
      case False
      then have "write_chunks hs cs pm = Err L_InitData"
        using write_chunks_Ok [OF cs(2) Cons.prems, of hs] cs(4) by (auto simp: in_pages_def split: if_splits)
      with base cs(1) False show ?thesis by auto
    qed
  qed auto
qed simp

text \<open>What the sparse pages say about an address.\<close>

definition sparse_byte :: "u8 list option list \<Rightarrow> nat \<Rightarrow> u8" where
  "sparse_byte ps a = (case ps ! (a div 4096) of Some p \<Rightarrow> p ! (a mod 4096) | None \<Rightarrow> 0)"

lemma sparse_data_image:
  assumes "unat (initial_size hs) mod 4096 = 0"
  shows "case owned_sparse_data_from_initializers dis hs of
      Ok d \<Rightarrow> list_all page_ok (owned_pages d) \<and> length (owned_pages d) = unat (initial_size hs) div 4096 \<and>
        (\<forall>di \<in> set dis. di_base di = None \<and> in_pages hs di) \<and>
        (\<forall>a < unat (initial_size hs). sparse_byte (owned_pages d) a = data_image dis a)
    | Err e \<Rightarrow> (e = L_InitData \<and> (\<exists>di \<in> set dis. \<not> in_pages hs di)) \<or>
        (e = L_Unsupported ''cannot create sparse data: data initializer uses global as base'' \<and> (\<exists>di \<in> set dis. di_base di \<noteq> None))
    | Panic _ \<Rightarrow> False"
proof -
  have empty: "pages_full []" "page_byte [] = (\<lambda>_. 0)" by (simp_all add: pages_full_def page_byte_def fun_eq_iff)
  note w = write_initializers_Ok [OF empty(1), where hs = hs and dis = dis]
  show ?thesis
  proof (cases "write_initializers hs dis []")
    case (Ok pm)
    let ?n = "unat (initial_size hs) div 4096"
    let ?out = "map (map_of pm) [0..<?n]"
    have pm: "pages_full pm" "page_byte pm = data_image dis" "\<forall>di \<in> set dis. di_base di = None \<and> in_pages hs di"
      using w Ok empty(2) by (simp_all add: data_image_def)
    have "page_ok (map_of pm k)" for k using pm(1) by (cases "map_of pm k") (simp_all add: pages_full_def)
    then have all: "list_all page_ok ?out" by (simp add: list_all_iff)
    have "sparse_byte ?out a = data_image dis a" if "a < unat (initial_size hs)" for a
    proof -
      have "a div 4096 < ?n" using that assms by (metis div_less_mono zero_less_numeral mod_0_imp_dvd dvd_div_mult_self less_mult_imp_div_less)
      then show ?thesis using fun_cong [OF pm(2), of a] by (simp add: sparse_byte_def page_byte_def)
    qed
    with Ok all assms pm(3) show ?thesis
      by (simp add: owned_sparse_data_from_initializers_def owned_sparse_data_new_def Let_def)
  qed (use w in \<open>simp_all add: owned_sparse_data_from_initializers_def\<close>)
qed

section \<open>Properties\<close>

text \<open>C7: The sparse data of a module is the image of its data segments: for a heap whose initial size is a whole number of
  pages, cutting the segments into pages never panics; it fails exactly when a segment's offset is a global, which is not supported, or a
  segment reaches a page whose index is greater than the number of pages of the heap; and otherwise every byte of the initial heap is what the
  segments, written in order over zeros, leave there. The first page past the heap has exactly that number as its index: a segment on it is accepted,
  and as the pages of the result are only those of the heap, what it holds there is dropped.\<close>

theorem sparse_data_exact:
  assumes "unat (initial_size hs) mod 4096 = 0"
  shows "(\<exists>d. owned_sparse_data_from_initializers dis hs = Ok d \<and> list_all page_ok (owned_pages d) \<and>
      length (owned_pages d) = unat (initial_size hs) div 4096 \<and>
      (\<forall>a < unat (initial_size hs). sparse_byte (owned_pages d) a = data_image dis a) \<and>
      (\<forall>di \<in> set dis. di_base di = None \<and> in_pages hs di)) \<or>
    owned_sparse_data_from_initializers dis hs = Err L_InitData \<and> (\<exists>di \<in> set dis. \<not> in_pages hs di) \<or>
    owned_sparse_data_from_initializers dis hs = Err (L_Unsupported ''cannot create sparse data: data initializer uses global as base'') \<and>
      (\<exists>di \<in> set dis. di_base di \<noteq> None)"
  using sparse_data_image [OF assms, of dis] by (auto split: rresult.splits)

definition demo_spec :: heap_spec where
  "demo_spec = heap_spec_new 0x10000 0 0x2000 None"

text \<open>A segment across a page boundary, overlapped by a second one.\<close>

definition demo_segments :: "data_initializer list" where
  "demo_segments = [\<lparr>di_base = None, di_offset = 4095, di_data = [1, 2, 3]\<rparr>, \<lparr>di_base = None, di_offset = 4096, di_data = [9]\<rparr>]"

theorem sparse_data_exact_witness:
  "\<exists>d. owned_sparse_data_from_initializers demo_segments demo_spec = Ok d \<and>
     sparse_byte (owned_pages d) 4095 = 1 \<and> sparse_byte (owned_pages d) 4096 = 9 \<and> sparse_byte (owned_pages d) 4097 = 3"
proof -
  have size: "unat (initial_size demo_spec) = 8192" by (simp add: demo_spec_def heap_spec_new_def)
  have "\<forall>di \<in> set demo_segments. di_base di = None \<and> in_pages demo_spec di"
    using size by (simp add: demo_segments_def in_pages_def last_page_def)
  with sparse_data_exact [of demo_spec demo_segments] size obtain d where
    "owned_sparse_data_from_initializers demo_segments demo_spec = Ok d"
    "\<forall>a < 8192. sparse_byte (owned_pages d) a = data_image demo_segments a" by auto
  then show ?thesis by (auto simp: data_image_def demo_segments_def seg_write_def)
qed

text \<open>A segment on the page right after the heap is accepted, and its data is lost without an error.\<close>

theorem data_past_heap_dropped:
  "owned_sparse_data_from_initializers [\<lparr>di_base = None, di_offset = 8192, di_data = [1]\<rparr>] demo_spec =
     Ok \<lparr>owned_pages = [None, None]\<rparr>"
proof -
  have size: "unat (initial_size demo_spec) = 8192" by (simp add: demo_spec_def heap_spec_new_def)
  have "split_initializer \<lparr>di_base = None, di_offset = 8192, di_data = [1]\<rparr> = Ok [(2, \<lparr>di_base = None, di_offset = 0, di_data = [1]\<rparr>)]"
    by (simp add: split_initializer_def split_loop.simps linear_memory_range_def slice_range_def)
  with size show ?thesis
    by (simp add: owned_sparse_data_from_initializers_def owned_sparse_data_new_def upt_rec)
qed

end
