(* ===== verification/Module_Decls.thy ===== *)
theory Module_Decls
  imports Module_Info_Wf Sparse_Init
begin

text \<open>
  From the collected module information to the metadata of the compiled module (\<open>lucetc/src/decls.rs\<close>, with
  \<open>heap.rs\<close>, \<open>name.rs\<close>, \<open>runtime.rs\<close> and the table contents of \<open>table.rs\<close>). Cranelift's object module is a
  parameter: a state \<open>'cm\<close> with the operations that declare functions and data in it. The lemmas show
  that the metadata is complete and consistent: every index is in range, every export and import is recorded at the
  function it belongs to, and the heap specification is what the memory declares.
\<close>

section \<open>Data\<close>

record heap_settings =
  min_reserved_size :: u64
  max_reserved_size :: u64
  hset_guard_size :: u64

definition heap_settings_default :: heap_settings where
  "heap_settings_default =
     \<lparr>min_reserved_size = 4 * 1024 * 1024, max_reserved_size = 6 * 1024 * 1024 * 1024, hset_guard_size = 4 * 1024 * 1024\<rparr>"

datatype func_or_data_id = FuncId nat | DataId nat

record name =
  symbol :: string
  name_id :: func_or_data_id

definition name_new_func :: "string \<Rightarrow> nat \<Rightarrow> name" where
  "name_new_func s i = \<lparr>symbol = s, name_id = FuncId i\<rparr>"

definition name_new_data :: "string \<Rightarrow> nat \<Rightarrow> name" where
  "name_new_data s i = \<lparr>symbol = s, name_id = DataId i\<rparr>"

fun as_funcid :: "name \<Rightarrow> nat option" where
  "as_funcid n = (case name_id n of FuncId i \<Rightarrow> Some i | DataId _ \<Rightarrow> None)"

fun as_dataid :: "name \<Rightarrow> nat option" where
  "as_dataid n = (case name_id n of DataId i \<Rightarrow> Some i | FuncId _ \<Rightarrow> None)"

datatype linkage = LinkImport | LinkExport | LinkLocal

text \<open>The operations of the object module that is being built.\<close>

record ('sig, 'cm) clif_ops =
  co_declare_function :: "string \<Rightarrow> linkage \<Rightarrow> 'sig \<Rightarrow> 'cm \<Rightarrow> (string, nat \<times> 'cm) rresult"
  co_declare_data :: "string \<Rightarrow> linkage \<Rightarrow> 'cm \<Rightarrow> (string, nat \<times> 'cm) rresult"

datatype runtime_func = MemSize | MemGrow | YieldAtBoundExpiration

record 'sig runtime_func_type =
  rf_name :: string
  rf_signature :: 'sig
  rf_type :: wasm_func_type

text \<open>\<open>Runtime::lucet\<close>; \<open>ir_sig\<close> makes a signature of parameter and result types.\<close>

definition runtime_lucet ::
  "(wasm_type list \<Rightarrow> wasm_type list \<Rightarrow> 'sig) \<Rightarrow> (runtime_func, 'sig runtime_func_type) hash_map" where
  "runtime_lucet ir_sig =
     (let entry = \<lambda>n ps rs. \<lparr>rf_name = n, rf_signature = ir_sig ps rs, rf_type = \<lparr>wf_params = ps, wf_returns = rs\<rparr>\<rparr> in
      AList.update YieldAtBoundExpiration (entry ''lucet_vmctx_yield_at_bound_expiration'' [] [])
        (AList.update MemGrow (entry ''lucet_vmctx_grow_memory'' [W_I32] [W_I32])
          (AList.update MemSize (entry ''lucet_vmctx_current_memory'' [] [W_I32]) [])))"

record owned_linear_memory_spec =
  olm_heap :: heap_spec
  olm_initializer :: owned_sparse_data

definition owned_linear_memory_to_ref :: "owned_linear_memory_spec \<Rightarrow> (module_error, linear_memory_spec) rresult" where
  "owned_linear_memory_to_ref s =
     map_res (\<lambda>d. \<lparr>heap = olm_heap s, initializer = d\<rparr>) (owned_sparse_data_to_ref (olm_initializer s))"

record 'sig module_decls =
  dc_info :: "'sig module_info"
  dc_function_names :: "name list"
  dc_imports :: "import_function list"
  dc_exports :: "export_function list"
  dc_tables_list_name :: name
  dc_table_names :: "name list"
  dc_runtime_names :: "(runtime_func, nat) hash_map"
  dc_globals_spec :: "global_spec list"
  dc_linear_memory_spec :: "owned_linear_memory_spec option"

text \<open>\<open>format!\<close> of an index.\<close>

fun show_nat :: "nat \<Rightarrow> string" where
  "show_nat n = (if n < 10 then [char_of (48 + n)] else show_nat (n div 10) @ [char_of (48 + n mod 10)])"

declare show_nat.simps [simp del]

section \<open>Memory, globals and tables\<close>

definition build_heap_spec :: "'sig module_info \<Rightarrow> heap_settings \<Rightarrow> (lucetc_error, heap_spec option) rresult" where
  "build_heap_spec info settings =
     (case memories info of
        [] \<Rightarrow> Ok None
      | [m] \<Rightarrow>
          (let memory = entity m;
               wasm_page = 64 * 1024;
               initial_size = ucast (wm_minimum memory) * wasm_page;
               reserved_size = max initial_size (min_reserved_size settings)
           in if reserved_size > max_reserved_size settings
              then Err (L_MemorySpecs reserved_size (max_reserved_size settings))
              else Ok (Some \<lparr>reserved_size = reserved_size, guard_size = hset_guard_size settings, initial_size = initial_size,
                     max_size = map_option (\<lambda>pages. ucast pages * wasm_page) (wm_maximum memory)\<rparr>))
      | _ \<Rightarrow> Err (L_Unsupported ''lucetc only supports memory 0''))"

definition build_linear_memory_spec ::
  "'sig module_info \<Rightarrow> heap_settings \<Rightarrow> (lucetc_error, owned_linear_memory_spec option) rresult" where
  "build_linear_memory_spec info settings =
     rbind (build_heap_spec info settings) (\<lambda>spec.
       case spec of
         None \<Rightarrow> Ok None
       | Some hs \<Rightarrow>
           (case map_of (data_initializers info) 0 of
              None \<Rightarrow> Panic ''heap spec implies data initializers should exist''
            | Some dis \<Rightarrow>
                map_res (\<lambda>d. Some \<lparr>olm_heap = hs, olm_initializer = d\<rparr>) (owned_sparse_data_from_initializers dis hs)))"

definition imported_global :: "'sig module_info \<Rightarrow> nat \<Rightarrow> (lucetc_error, global) rresult" where
  "imported_global info ix =
     (if ix < length (imported_globals info)
      then (case imported_globals info ! ix of (m, f) \<Rightarrow> Ok (Import m f))
      else Err (L_GlobalDeclarationError ix))"

definition build_global :: "'sig module_info \<Rightarrow> nat \<Rightarrow> (lucetc_error, global_spec) rresult" where
  "build_global info ix =
     (let g_decl = wasm_globals info ! ix in
      map_res (\<lambda>g. \<lparr>global_of = g, export_names = ex_names g_decl\<rparr>)
        (case entity g_decl of
           GI_I32Const i \<Rightarrow> Ok (Def (GD_I32 i))
         | GI_I64Const i \<Rightarrow> Ok (Def (GD_I64 i))
         | GI_F32Const f \<Rightarrow> Ok (Def (GD_F32 f))
         | GI_F64Const f \<Rightarrow> Ok (Def (GD_F64 f))
         | GI_GetGlobal ref_ix \<Rightarrow>
             (if ref_ix < length (wasm_globals info)
              then (if entity (wasm_globals info ! ref_ix) = GI_Import then imported_global info ref_ix
                    else Err (L_GlobalInitError ix))
              else Panic ''unwrap on None'')
         | GI_Import \<Rightarrow> imported_global info ix
         | _ \<Rightarrow> Err (L_GlobalUnsupported ix)))"

definition build_globals_spec :: "'sig module_info \<Rightarrow> (lucetc_error, global_spec list) rresult" where
  "build_globals_spec info = collect_results (map (build_global info) [0..<length (wasm_globals info)])"

definition TABLE_SYM :: string where
  "TABLE_SYM = ''lucet_tables''"

fun declare_table_names :: "('sig, 'cm) clif_ops \<Rightarrow> nat list \<Rightarrow> 'cm \<Rightarrow> (lucetc_error, name list \<times> 'cm) rresult" where
  "declare_table_names ops [] cm = Ok ([], cm)"
| "declare_table_names ops (ix # ixs) cm =
     (let def_symbol = ''guest_table_'' @ show_nat ix in
      rbind (map_err L_ClifModuleError (co_declare_data ops def_symbol LinkLocal cm)) (\<lambda>(i, cm).
      rbind (declare_table_names ops ixs cm) (\<lambda>(names, cm). Ok (name_new_data def_symbol i # names, cm))))"

definition declare_tables ::
  "('sig, 'cm) clif_ops \<Rightarrow> 'sig module_info \<Rightarrow> 'cm \<Rightarrow> (lucetc_error, (name \<times> name list) \<times> 'cm) rresult" where
  "declare_tables ops info cm =
     rbind (declare_table_names ops [0..<length (tables info)] cm) (\<lambda>(names, cm).
     rbind (map_err L_ClifModuleError (co_declare_data ops TABLE_SYM LinkLocal cm)) (\<lambda>(i, cm).
     Ok ((name_new_data TABLE_SYM i, names), cm)))"

section \<open>Functions\<close>

definition declare_function ::
  "('sig, 'cm) clif_ops \<Rightarrow> string \<Rightarrow> linkage \<Rightarrow> nat \<Rightarrow> 'sig module_decls \<times> 'cm \<Rightarrow> (lucetc_error, nat \<times> 'sig module_decls \<times> 'cm) rresult" where
  "declare_function ops decl_sym decl_linkage func_ix = (\<lambda>(decls, cm).
     rbind (signature_for_function (dc_info decls) func_ix) (\<lambda>(sig, _).
     rbind (map_err L_ClifModuleError (co_declare_function ops decl_sym decl_linkage sig cm)) (\<lambda>(funcid, cm).
     let n = length (dc_function_names decls) in
     if func_ix \<ge> n
     then (if func_ix \<noteq> n then Panic ''assertion failed: func_ix == function_names.len()''
           else Ok (n, decls\<lparr>dc_function_names := dc_function_names decls @ [name_new_func decl_sym funcid]\<rparr>, cm))
     else Ok (n - 1, decls, cm))))"

definition import_name_for ::
  "bindings \<Rightarrow> nat \<Rightarrow> 'sig module_decls \<Rightarrow> (lucetc_error, string option \<times> 'sig module_decls) rresult" where
  "import_name_for b func_ix decls =
     (if func_ix < length (imported_funcs (dc_info decls))
      then (case imported_funcs (dc_info decls) ! func_ix of (import_mod, import_fld) \<Rightarrow>
        rbind (map_err L_LucetModule (translate b import_mod import_fld)) (\<lambda>import_symbol.
          Ok (Some import_symbol,
              decls\<lparr>dc_imports := dc_imports decls @
                [\<lparr>imp_fn_idx = of_nat (length (dc_function_names decls)), imp_module = import_mod, imp_name = import_fld\<rparr>]\<rparr>)))
      else Ok (None, decls))"

definition export_name_for :: "nat \<Rightarrow> 'sig module_decls \<Rightarrow> string option \<times> 'sig module_decls" where
  "export_name_for func_ix decls =
     (case ex_names (funcs (dc_info decls) ! func_ix) of
        [] \<Rightarrow> (None, decls)
      | n # ns \<Rightarrow>
          (Some (''guest_func_'' @ n),
           decls\<lparr>dc_exports := dc_exports decls @
             [\<lparr>exp_fn_idx = of_nat (length (dc_function_names decls)), exp_names = n # ns\<rparr>]\<rparr>))"

definition custom_name_for :: "nat \<Rightarrow> 'sig module_decls \<Rightarrow> string option" where
  "custom_name_for ix decls =
     (if ix < length (function_names (dc_info decls))
      then Some (function_names (dc_info decls) ! ix @ ''_'' @ show_nat ix) else None)"

definition declare_func ::
  "('sig, 'cm) clif_ops \<Rightarrow> bindings \<Rightarrow> nat \<Rightarrow> 'sig module_decls \<times> 'cm \<Rightarrow> (lucetc_error, 'sig module_decls \<times> 'cm) rresult" where
  "declare_func ops b ix = (\<lambda>(decls, cm).
     rbind (import_name_for b ix decls) (\<lambda>(import_info, decls).
     let (export_info, decls) = export_name_for ix decls in
     map_res snd
       (case (import_info, export_info) of
          (Some import_sym, _) \<Rightarrow> declare_function ops import_sym LinkImport ix (decls, cm)
        | (None, Some export_sym) \<Rightarrow> declare_function ops export_sym LinkExport ix (decls, cm)
        | (None, None) \<Rightarrow>
            declare_function ops (case custom_name_for ix decls of Some s \<Rightarrow> s | None \<Rightarrow> ''guest_func_'' @ show_nat ix)
              LinkLocal ix (decls, cm))))"

fun declare_funcs ::
  "('sig, 'cm) clif_ops \<Rightarrow> bindings \<Rightarrow> nat list \<Rightarrow> 'sig module_decls \<times> 'cm \<Rightarrow> (lucetc_error, 'sig module_decls \<times> 'cm) rresult" where
  "declare_funcs ops b [] s = Ok s"
| "declare_funcs ops b (ix # ixs) s = rbind (declare_func ops b ix s) (declare_funcs ops b ixs)"

definition declare_new_function ::
  "('sig, 'cm) clif_ops \<Rightarrow> ('sig \<Rightarrow> 'sig) \<Rightarrow> string \<Rightarrow> linkage \<Rightarrow> wasm_func_type \<Rightarrow> 'sig \<Rightarrow> 'sig module_decls \<times> 'cm \<Rightarrow>
   (lucetc_error, nat \<times> 'sig module_decls \<times> 'cm) rresult" where
  "declare_new_function ops add_vmctx decl_sym decl_linkage ft sig = (\<lambda>(decls, cm).
     case declare_func_with_sig add_vmctx ft sig (dc_info decls) of
       ((new_funcidx, _), info) \<Rightarrow>
         rbind (declare_function ops decl_sym decl_linkage new_funcidx (decls\<lparr>dc_info := info\<rparr>, cm)) (\<lambda>(_, s). Ok (new_funcidx, s)))"

fun declare_runtime ::
  "('sig, 'cm) clif_ops \<Rightarrow> ('sig \<Rightarrow> 'sig) \<Rightarrow> (runtime_func, 'sig runtime_func_type) hash_map \<Rightarrow> 'sig module_decls \<times> 'cm \<Rightarrow>
   (lucetc_error, 'sig module_decls \<times> 'cm) rresult" where
  "declare_runtime ops add_vmctx [] s = Ok s"
| "declare_runtime ops add_vmctx ((func, functype) # rest) s =
     rbind (declare_new_function ops add_vmctx (rf_name functype) LinkImport (rf_type functype) (rf_signature functype) s)
       (\<lambda>(func_id, decls, cm).
         declare_runtime ops add_vmctx rest (decls\<lparr>dc_runtime_names := AList.update func func_id (dc_runtime_names decls)\<rparr>, cm))"

definition module_decls_new ::
  "('sig, 'cm) clif_ops \<Rightarrow> ('sig \<Rightarrow> 'sig) \<Rightarrow> 'sig module_info \<Rightarrow> bindings \<Rightarrow> (runtime_func, 'sig runtime_func_type) hash_map \<Rightarrow>
   heap_settings \<Rightarrow> 'cm \<Rightarrow> (lucetc_error, 'sig module_decls \<times> 'cm) rresult" where
  "module_decls_new ops add_vmctx info b runtime settings cm =
     rbind (declare_tables ops info cm) (\<lambda>((list_name, names), cm).
     rbind (build_globals_spec info) (\<lambda>gs.
     rbind (build_linear_memory_spec info settings) (\<lambda>lm.
     rbind (declare_funcs ops b [0..<length (funcs info)]
         (\<lparr>dc_info = info, dc_function_names = [], dc_imports = [], dc_exports = [], dc_tables_list_name = list_name,
           dc_table_names = names, dc_runtime_names = [], dc_globals_spec = gs, dc_linear_memory_spec = lm\<rparr>, cm))
       (declare_runtime ops add_vmctx runtime))))"

section \<open>The public interface\<close>

definition get_signature_uid :: "'sig module_decls \<Rightarrow> nat \<Rightarrow> (lucetc_error, nat) rresult" where
  "get_signature_uid decls ix =
     (if ix < length (signature_mapping (dc_info decls)) then Ok (signature_mapping (dc_info decls) ! ix)
      else Err (L_Signature ''signature out of bounds''))"

definition decls_get_signature :: "'sig module_decls \<Rightarrow> nat \<Rightarrow> (lucetc_error, 'sig) rresult" where
  "decls_get_signature decls ix =
     rbind (get_signature_uid decls ix) (\<lambda>uid.
       if uid < length (signatures (dc_info decls)) then Ok (fst (signatures (dc_info decls) ! uid))
       else Err (L_Signature ''signature out of bounds''))"

record 'sig function_decl =
  fd_import_name :: "(string \<times> string) option"
  fd_export_names :: "string list"
  fd_signature_index :: nat
  fd_signature :: 'sig
  fd_name :: name

definition fd_defined :: "'sig function_decl \<Rightarrow> bool" where
  "fd_defined d = (fd_import_name d = None)"

definition list_get :: "'a list \<Rightarrow> nat \<Rightarrow> 'a option" where
  "list_get xs i = (if i < length xs then Some (xs ! i) else None)"

text \<open>\<open>unwrap\<close> on an \<open>Option\<close> and on a \<open>Result\<close>.\<close>

definition unwrap_option :: "'a option \<Rightarrow> ('e, 'a) rresult" where
  "unwrap_option x = (case x of Some v \<Rightarrow> Ok v | None \<Rightarrow> Panic ''unwrap on None'')"

definition unwrap_result :: "('f, 'a) rresult \<Rightarrow> ('e, 'a) rresult" where
  "unwrap_result x = (case x of Ok v \<Rightarrow> Ok v | Err _ \<Rightarrow> Panic ''unwrap on Err'' | Panic p \<Rightarrow> Panic p)"

definition get_func :: "'sig module_decls \<Rightarrow> nat \<Rightarrow> (lucetc_error, 'sig function_decl option) rresult" where
  "get_func decls func_index =
     rbind (unwrap_option (list_get (dc_function_names decls) func_index)) (\<lambda>nm.
     rbind (unwrap_option (list_get (funcs (dc_info decls)) func_index)) (\<lambda>exportable_sigix.
     rbind (unwrap_result (get_signature_uid decls (entity exportable_sigix))) (\<lambda>signature_index.
     rbind (unwrap_option (list_get (signatures (dc_info decls)) signature_index)) (\<lambda>(sig, _).
     Ok (Some \<lparr>fd_import_name = list_get (imported_funcs (dc_info decls)) func_index,
               fd_export_names = ex_names exportable_sigix, fd_signature_index = signature_index,
               fd_signature = sig, fd_name = nm\<rparr>)))))"

definition get_runtime :: "'sig module_decls \<Rightarrow> runtime_func \<Rightarrow> (lucetc_error, 'sig \<times> name) rresult" where
  "get_runtime decls runtime_func =
     rbind (unwrap_option (map_of (dc_runtime_names decls) runtime_func)) (\<lambda>func_id.
     rbind (unwrap_option (list_get (dc_function_names decls) func_id)) (\<lambda>nm.
     rbind (signature_for_function (dc_info decls) func_id) (\<lambda>(sig, _). Ok (sig, nm))))"

record table_decl =
  td_import_name :: "(string \<times> string) option"
  td_export_names :: "string list"
  td_table :: wasm_table
  td_elems :: "table_elems list"
  td_contents_name :: name

definition get_table :: "'sig module_decls \<Rightarrow> nat \<Rightarrow> (lucetc_error, table_decl) rresult" where
  "get_table decls table_index =
     rbind (rresult_of_option (L_TableIndexError table_index) (list_get (dc_table_names decls) table_index)) (\<lambda>contents_name.
     rbind (unwrap_option (list_get (tables (dc_info decls)) table_index)) (\<lambda>exportable_tbl.
     rbind (rresult_of_option (L_Unsupported ''table is not local'') (map_of (table_elems_of (dc_info decls)) table_index)) (\<lambda>elems.
     Ok \<lparr>td_import_name = list_get (imported_tables (dc_info decls)) table_index, td_export_names = ex_names exportable_tbl,
         td_table = entity exportable_tbl, td_elems = elems, td_contents_name = contents_name\<rparr>)))"

definition get_global :: "'sig module_decls \<Rightarrow> nat \<Rightarrow> (lucetc_error, global_init exportable) rresult" where
  "get_global decls ix = rresult_of_option (L_GlobalIndexError ix) (list_get (wasm_globals (dc_info decls)) ix)"

definition get_heap :: "'sig module_decls \<Rightarrow> heap_spec option" where
  "get_heap decls = map_option olm_heap (dc_linear_memory_spec decls)"

definition get_module_data :: "module_features \<Rightarrow> 'sig module_decls \<Rightarrow> (lucetc_error, module_data) rresult" where
  "get_module_data features decls =
     rbind (case dc_linear_memory_spec decls of
          Some spec \<Rightarrow> map_err L_LucetModule (map_res Some (owned_linear_memory_to_ref spec))
        | None \<Rightarrow> Ok None) (\<lambda>linear_memory.
     rbind (collect_results (map (\<lambda>fn_index.
         rbind (get_func decls fn_index) (\<lambda>d. rbind (unwrap_option d) (\<lambda>d.
           Ok \<lparr>fm_signature = of_nat (fd_signature_index d), fm_name = Some (symbol (dc_function_names decls ! fn_index))\<rparr>)))
         [0..<length (dc_function_names decls)])) (\<lambda>function_info.
     rbind (collect_results (map (\<lambda>(_, wft). map_err L_SignatureConversion (to_lucet_signature wft)) (signatures (dc_info decls)))) (\<lambda>sigs.
     Ok \<lparr>md_linear_memory = linear_memory, md_globals_spec = dc_globals_spec decls, md_function_info = function_info,
         md_import_functions = dc_imports decls, md_export_functions = dc_exports decls, md_signatures = sigs,
         md_features = features,
         md_start_function = (case start_func (dc_info decls) of
             Some f \<Rightarrow> if f < length (dc_function_names decls) then Some (of_nat f) else None
           | None \<Rightarrow> None)\<rparr>)))"

section \<open>Lemmas\<close>

text \<open>What the compiler relies on from the object module: its declarations return or fail.\<close>

definition clif_ok :: "('sig, 'cm) clif_ops \<Rightarrow> bool" where
  "clif_ok ops \<longleftrightarrow> (\<forall>n l s cm p. co_declare_function ops n l s cm \<noteq> Panic p) \<and> (\<forall>n l cm p. co_declare_data ops n l cm \<noteq> Panic p)"

fun no_panic :: "('e, 'a) rresult \<Rightarrow> bool" where
  "no_panic (Panic _) = False"
| "no_panic _ = True"

lemma no_panic_rbind: "no_panic r \<Longrightarrow> (\<And>x. r = Ok x \<Longrightarrow> no_panic (f x)) \<Longrightarrow> no_panic (rbind r f)"
  by (cases r) auto

lemma no_panic_map_err [simp]: "no_panic (map_err g r) = no_panic r"
  by (cases r) auto

lemma no_panic_map_res [simp]: "no_panic (map_res g r) = no_panic r"
  by (cases r) auto

lemma signature_for_function_Ok:
  assumes "info_wf info" and "f < length (funcs info)"
  shows "signature_for_function info f = Ok (signatures info ! (signature_mapping info ! entity (funcs info ! f)))"
  using assms signature_by_id_Ok [of info "entity (funcs info ! f)"]
  by (auto simp: signature_for_function_def info_wf_def funcs_wf_def)

subsection \<open>Declaring the functions of the module\<close>

definition import_entry :: "'sig module_info \<Rightarrow> nat \<Rightarrow> import_function" where
  "import_entry info i = \<lparr>imp_fn_idx = of_nat i, imp_module = fst (imported_funcs info ! i), imp_name = snd (imported_funcs info ! i)\<rparr>"

definition export_entry :: "'sig module_info \<Rightarrow> nat \<Rightarrow> export_function" where
  "export_entry info i = \<lparr>exp_fn_idx = of_nat i, exp_names = ex_names (funcs info ! i)\<rparr>"

definition funcs_declared :: "'sig module_info \<Rightarrow> nat \<Rightarrow> 'sig module_decls \<Rightarrow> bool" where
  "funcs_declared info k decls \<longleftrightarrow> dc_info decls = info \<and> length (dc_function_names decls) = k \<and>
     dc_imports decls = map (import_entry info) (filter (\<lambda>i. i < length (imported_funcs info)) [0..<k]) \<and>
     dc_exports decls = map (export_entry info) (filter (\<lambda>i. ex_names (funcs info ! i) \<noteq> []) [0..<k])"

lemma declare_function_new:
  assumes "clif_ok ops" and "info_wf (dc_info decls)" and "ix < length (funcs (dc_info decls))" and "ix = length (dc_function_names decls)"
  shows "case declare_function ops sm l ix (decls, cm) of
      Ok (_, decls', cm') \<Rightarrow> \<exists>nm. decls' = decls\<lparr>dc_function_names := dc_function_names decls @ [nm]\<rparr> \<and> symbol nm = sm
    | Err _ \<Rightarrow> True | Panic _ \<Rightarrow> False"
proof -
  note sig = signature_for_function_Ok [OF assms(2,3)]
  show ?thesis
  proof (cases "co_declare_function ops sm l (fst (signatures (dc_info decls) ! (signature_mapping (dc_info decls) ! entity (funcs (dc_info decls) ! ix)))) cm")
    case (Ok r)
    then show ?thesis
      by (cases r) (simp add: sig declare_function_def case_prod_beta name_new_func_def flip: assms(4), metis name.select_convs(1))
  qed (use assms(1) in \<open>auto simp: sig declare_function_def case_prod_beta clif_ok_def\<close>)
qed

lemma declare_func_step:
  assumes ops: "clif_ok ops" and wf: "info_wf info" and k: "k < length (funcs info)" and inv: "funcs_declared info k decls"
  shows "case declare_func ops b k (decls, cm) of
      Ok (decls', cm') \<Rightarrow> funcs_declared info (Suc k) decls' \<and> dc_globals_spec decls' = dc_globals_spec decls \<and>
        dc_linear_memory_spec decls' = dc_linear_memory_spec decls \<and> dc_table_names decls' = dc_table_names decls
    | Err _ \<Rightarrow> True | Panic _ \<Rightarrow> False"
proof -
  have info: "dc_info decls = info" and len: "length (dc_function_names decls) = k" using inv by (simp_all add: funcs_declared_def)
  let ?im = "if k < length (imported_funcs info) then [import_entry info k] else []"
  let ?ex = "if ex_names (funcs info ! k) \<noteq> [] then [export_entry info k] else []"
  let ?d = "decls\<lparr>dc_imports := dc_imports decls @ ?im, dc_exports := dc_exports decls @ ?ex\<rparr>"
  have fin: "case map_res snd (declare_function ops sm l k (?d, cm)) of
      Ok (decls', cm') \<Rightarrow> funcs_declared info (Suc k) decls' \<and> dc_globals_spec decls' = dc_globals_spec decls \<and>
        dc_linear_memory_spec decls' = dc_linear_memory_spec decls \<and> dc_table_names decls' = dc_table_names decls
    | Err _ \<Rightarrow> True | Panic _ \<Rightarrow> False" for sm l
    using declare_function_new [OF ops, of ?d k sm l cm] wf k info len inv
    by (cases "declare_function ops sm l k (?d, cm)") (auto simp: funcs_declared_def)
  show ?thesis
  proof (cases "k < length (imported_funcs info)")
    case True
    obtain m f where mf: "imported_funcs info ! k = (m, f)" by (cases "imported_funcs info ! k")
    then have im: "?im = [\<lparr>imp_fn_idx = of_nat k, imp_module = m, imp_name = f\<rparr>]" using True by (simp add: import_entry_def)
    show ?thesis
    proof (cases "translate b m f")
      case (Ok sm)
      have "declare_func ops b k (decls, cm) = map_res snd (declare_function ops sm LinkImport k (?d, cm))"
        using True mf Ok info len im
        by (cases "ex_names (funcs info ! k)")
          (simp_all add: declare_func_def import_name_for_def export_name_for_def export_entry_def)
      with fin show ?thesis by simp
    qed (use True mf info in \<open>auto simp: declare_func_def import_name_for_def translate_def split: option.splits\<close>)
  next
    case False
    show ?thesis
    proof (cases "ex_names (funcs info ! k)")
      case Nil
      then have "?d = decls" using False by simp
      with fin [of _ LinkLocal] False Nil info show ?thesis
        by (simp add: declare_func_def import_name_for_def export_name_for_def)
    next
      case (Cons n ns)
      then have "declare_func ops b k (decls, cm) = map_res snd (declare_function ops (''guest_func_'' @ n) LinkExport k (?d, cm))"
        using False info len by (simp add: declare_func_def import_name_for_def export_name_for_def export_entry_def)
      with fin show ?thesis by simp
    qed
  qed
qed

lemma declare_funcs_run:
  assumes ops: "clif_ok ops" and wf: "info_wf info" and "k \<le> length (funcs info)" and "funcs_declared info k decls"
  shows "case declare_funcs ops b [k..<length (funcs info)] (decls, cm) of
      Ok (decls', cm') \<Rightarrow> funcs_declared info (length (funcs info)) decls' \<and> dc_globals_spec decls' = dc_globals_spec decls \<and>
        dc_linear_memory_spec decls' = dc_linear_memory_spec decls \<and> dc_table_names decls' = dc_table_names decls
    | Err _ \<Rightarrow> True | Panic _ \<Rightarrow> False"
  using assms(3,4)
proof (induction k arbitrary: decls cm rule: inc_induct)
  case base
  then show ?case by simp
next
  case (step k)
  note one = declare_func_step [OF ops wf step.hyps(2) step.prems, of b cm]
  have unfold: "declare_funcs ops b [k..<length (funcs info)] (decls, cm) =
      rbind (declare_func ops b k (decls, cm)) (declare_funcs ops b [Suc k..<length (funcs info)])"
    using step.hyps(2) by (simp add: upt_conv_Cons)
  show ?case
  proof (cases "declare_func ops b k (decls, cm)")
    case (Ok r)
    then obtain decls' cm' where r: "r = (decls', cm')" by (cases r)
    with one Ok have "funcs_declared info (Suc k) decls'" by simp
    from step.IH [OF this, of cm'] one Ok r unfold show ?thesis by (auto split: rresult.splits)
  qed (use one unfold in simp_all)
qed

subsection \<open>Declaring the runtime functions\<close>

definition info_extends :: "'sig module_info \<Rightarrow> 'sig module_info \<Rightarrow> nat \<Rightarrow> bool" where
  "info_extends info info' n \<longleftrightarrow> info_wf info' \<and>
     (\<exists>fs. funcs info' = funcs info @ fs \<and> length fs = n) \<and>
     (\<exists>ms. signature_mapping info' = signature_mapping info @ ms) \<and>
     (\<exists>ss. signatures info' = signatures info @ ss) \<and>
     imported_funcs info' = imported_funcs info \<and> start_func info' = start_func info"

lemma info_extends_refl: "info_wf info \<Longrightarrow> info_extends info info 0"
  by (simp add: info_extends_def)

lemma info_extends_trans: "info_extends a b n \<Longrightarrow> info_extends b c m \<Longrightarrow> info_extends a c (n + m)"
  by (force simp: info_extends_def)

lemma declare_func_with_sig_extends:
  assumes "info_wf info"
  obtains info' where "declare_func_with_sig add_vmctx ft sig info = ((length (funcs info), length (signature_mapping info)), info')"
    "info_extends info info' 1"
proof -
  let ?i = "info_declare_type_func add_vmctx ft sig info"
  let ?j = "info_declare_func_type (length (signature_mapping info)) ?i"
  have i: "info_wf ?i" "funcs ?i = funcs info" "imported_funcs ?i = imported_funcs info" "start_func ?i = start_func info"
    "\<exists>k. signature_mapping ?i = signature_mapping info @ [k]" "\<exists>ss. signatures ?i = signatures info @ ss"
    using wf_declare_type_func [OF assms]
    by (auto simp: info_declare_type_func_def Let_def split: option.split)
  then have "info_wf ?j" by (intro wf_declare_func_type) auto
  with i have "info_extends info ?j 1" by (auto simp: info_extends_def info_declare_func_type_def)
  moreover have "declare_func_with_sig add_vmctx ft sig info = ((length (funcs info), length (signature_mapping info)), ?j)"
    using i(2) by (simp add: declare_func_with_sig_def Let_def)
  ultimately show ?thesis using that by blast
qed

lemma declare_runtime_run:
  assumes "clif_ok ops" and "info_wf (dc_info decls)" and "length (dc_function_names decls) = length (funcs (dc_info decls))"
  shows "case declare_runtime ops add_vmctx rt (decls, cm) of
      Ok (decls', cm') \<Rightarrow> info_extends (dc_info decls) (dc_info decls') (length rt) \<and>
        length (dc_function_names decls') = length (funcs (dc_info decls')) \<and> dc_imports decls' = dc_imports decls \<and>
        dc_exports decls' = dc_exports decls \<and> dc_globals_spec decls' = dc_globals_spec decls \<and>
        dc_linear_memory_spec decls' = dc_linear_memory_spec decls
    | Err _ \<Rightarrow> True | Panic _ \<Rightarrow> False"
  using assms(2,3)
proof (induction rt arbitrary: decls cm)
  case Nil
  then show ?case by (simp add: info_extends_refl)
next
  case (Cons a rt)
  obtain f ft where a: "a = (f, ft)" by (cases a)
  obtain info' where d: "declare_func_with_sig add_vmctx (rf_type ft) (rf_signature ft) (dc_info decls) =
      ((length (funcs (dc_info decls)), length (signature_mapping (dc_info decls))), info')" "info_extends (dc_info decls) info' 1"
    using declare_func_with_sig_extends [OF Cons.prems(1)] by blast
  let ?d = "decls\<lparr>dc_info := info'\<rparr>"
  have wf: "info_wf info'" and len: "length (funcs info') = Suc (length (funcs (dc_info decls)))"
    using d(2) by (auto simp: info_extends_def)
  have new: "case declare_function ops (rf_name ft) LinkImport (length (funcs (dc_info decls))) (?d, cm) of
      Ok (_, decls', cm') \<Rightarrow> \<exists>nm. decls' = ?d\<lparr>dc_function_names := dc_function_names ?d @ [nm]\<rparr> \<and> symbol nm = rf_name ft
    | Err _ \<Rightarrow> True | Panic _ \<Rightarrow> False"
    by (rule declare_function_new [OF assms(1)]) (use wf len Cons.prems(2) in simp_all)
  show ?case
  proof (cases "declare_function ops (rf_name ft) LinkImport (length (funcs (dc_info decls))) (?d, cm)")
    case (Ok r)
    obtain n decls1 cm1 where r: "r = (n, decls1, cm1)" by (cases r)
    from new obtain nm where d1: "decls1 = ?d\<lparr>dc_function_names := dc_function_names decls @ [nm]\<rparr>"
      unfolding Ok r by (simp only: rresult.case prod.case) auto
    let ?d2 = "decls1\<lparr>dc_runtime_names := AList.update f (length (funcs (dc_info decls))) (dc_runtime_names decls1)\<rparr>"
    have run: "declare_runtime ops add_vmctx (a # rt) (decls, cm) = declare_runtime ops add_vmctx rt (?d2, cm1)"
      using a d(1) Ok r by (simp add: declare_new_function_def)
    have "info_wf (dc_info ?d2)" "length (dc_function_names ?d2) = length (funcs (dc_info ?d2))"
      using wf len d1 Cons.prems(2) by simp_all
    note ih = Cons.IH [OF this, of cm1]
    show ?thesis
    proof (cases "declare_runtime ops add_vmctx rt (?d2, cm1)")
      case ok2: (Ok r2)
      obtain decls3 cm3 where "r2 = (decls3, cm3)" by (cases r2)
      with ih ok2 run d1 info_extends_trans [OF d(2), of "dc_info decls3" "length rt"] show ?thesis by simp
    qed (use ih run in simp_all)
  qed (use new a d(1) in \<open>simp_all add: declare_new_function_def\<close>)
qed

subsection \<open>The module's data\<close>

lemma collect_results_Ok: "(\<And>x. x \<in> set xs \<Longrightarrow> f x = Ok (g x)) \<Longrightarrow> collect_results (map f xs) = Ok (map g xs)"
  by (induction xs) auto

lemma collect_results_inv: "collect_results rs = Ok xs \<Longrightarrow> length xs = length rs \<and> (\<forall>i < length rs. rs ! i = Ok (xs ! i))"
proof (induction rs arbitrary: xs)
  case (Cons r rs)
  then obtain y ys where "r = Ok y" "collect_results rs = Ok ys" "xs = y # ys" by auto
  with Cons.IH [of ys] show ?case by (auto simp: nth_Cons split: nat.split)
qed simp

lemma collect_no_panic: "(\<And>r. r \<in> set rs \<Longrightarrow> no_panic r) \<Longrightarrow> no_panic (collect_results rs)"
proof (induction rs)
  case (Cons r rs)
  then have "no_panic r" "no_panic (collect_results rs)" by simp_all
  then show ?case by (cases r; cases "collect_results rs") simp_all
qed simp

lemma to_lucet_signature_no_panic: "no_panic (to_lucet_signature ft)"
proof -
  have v: "no_panic (to_lucet_valuetype t)" for t by (cases t) simp_all
  show ?thesis unfolding to_lucet_signature_def
    by (intro no_panic_rbind collect_no_panic) (auto simp: v split: list.split)
qed

lemma get_func_Ok:
  assumes "info_wf (dc_info decls)" and "length (dc_function_names decls) = length (funcs (dc_info decls))" and "i < length (dc_function_names decls)"
  shows "\<exists>d. get_func decls i = Ok (Some d) \<and>
    fd_signature_index d = signature_mapping (dc_info decls) ! entity (funcs (dc_info decls) ! i)"
proof -
  let ?info = "dc_info decls"
  have e: "entity (funcs ?info ! i) < length (signature_mapping ?info)" using assms by (simp add: info_wf_def funcs_wf_def)
  then have s: "signature_mapping ?info ! entity (funcs ?info ! i) < length (signatures ?info)" using assms(1) by (simp add: info_wf_def sigs_wf_def)
  show ?thesis
    using assms e s by (simp add: get_func_def list_get_def unwrap_option_def unwrap_result_def get_signature_uid_def case_prod_beta)
qed

text \<open>The type of a function of the module.\<close>

definition function_type :: "'sig module_info \<Rightarrow> nat \<Rightarrow> wasm_func_type" where
  "function_type info f = snd (signatures info ! (signature_mapping info ! entity (funcs info ! f)))"

lemma function_type_extends:
  assumes "info_extends info info' n" and "info_wf info" and "f < length (funcs info)"
  shows "function_type info' f = function_type info f"
proof -
  have e: "entity (funcs info ! f) < length (signature_mapping info)" using assms(2,3) by (simp add: info_wf_def funcs_wf_def)
  then have "signature_mapping info ! entity (funcs info ! f) < length (signatures info)" using assms(2) by (simp add: info_wf_def sigs_wf_def)
  with assms(1,3) e show ?thesis by (auto simp: function_type_def info_extends_def nth_append)
qed

lemma find_map_filter:
  assumes "\<And>x. x \<in> set xs \<Longrightarrow> P (f x) \<Longrightarrow> Q x"
  shows "find P (map f (filter Q xs)) = map_option f (find (P \<circ> f) xs)"
  using assms by (induction xs) auto

lemma get_module_data_cases:
  assumes wf: "info_wf (dc_info decls)" and len: "length (dc_function_names decls) = length (funcs (dc_info decls))"
    and lm: "\<And>s. dc_linear_memory_spec decls = Some s \<Longrightarrow> list_all page_ok (owned_pages (olm_initializer s))"
  shows "case get_module_data features decls of
      Ok md \<Rightarrow> length (md_function_info md) = length (funcs (dc_info decls)) \<and> length (md_signatures md) = length (signatures (dc_info decls)) \<and>
        (\<forall>i < length (funcs (dc_info decls)). fm_signature (md_function_info md ! i) =
           of_nat (signature_mapping (dc_info decls) ! entity (funcs (dc_info decls) ! i))) \<and>
        (\<forall>k < length (signatures (dc_info decls)). to_lucet_signature (snd (signatures (dc_info decls) ! k)) = Ok (md_signatures md ! k)) \<and>
        md_import_functions md = dc_imports decls \<and> md_export_functions md = dc_exports decls \<and>
        md_start_function md = map_option of_nat (start_func (dc_info decls)) \<and>
        md_linear_memory md = map_option (\<lambda>s. \<lparr>heap = olm_heap s, initializer = \<lparr>pages = owned_pages (olm_initializer s)\<rparr>\<rparr>) (dc_linear_memory_spec decls)
    | Err e \<Rightarrow> \<exists>ft \<in> set (map snd (signatures (dc_info decls))). \<not> is_ok (to_lucet_signature ft)
    | Panic _ \<Rightarrow> False"
proof -
  let ?info = "dc_info decls" and ?n = "length (dc_function_names decls)"
  let ?lm = "map_option (\<lambda>s. \<lparr>heap = olm_heap s, initializer = \<lparr>pages = owned_pages (olm_initializer s)\<rparr>\<rparr>) (dc_linear_memory_spec decls)"
  have lmr: "(case dc_linear_memory_spec decls of
      Some spec \<Rightarrow> map_err L_LucetModule (map_res Some (owned_linear_memory_to_ref spec)) | None \<Rightarrow> Ok None) = Ok ?lm"
  proof (cases "dc_linear_memory_spec decls")
    case (Some s)
    have "owned_sparse_data_new (owned_pages (olm_initializer s)) = Ok (olm_initializer s)"
      using lm [OF Some] by (simp add: owned_sparse_data_new_def)
    from owned_sparse_data_to_ref_Ok [OF this] Some show ?thesis by (simp add: owned_linear_memory_to_ref_def)
  qed simp
  let ?g = "\<lambda>i. \<lparr>fm_signature = of_nat (signature_mapping ?info ! entity (funcs ?info ! i)), fm_name = Some (symbol (dc_function_names decls ! i))\<rparr>"
  have fi: "collect_results (map (\<lambda>fn_index.
         rbind (get_func decls fn_index) (\<lambda>d. rbind (unwrap_option d) (\<lambda>d.
           Ok \<lparr>fm_signature = of_nat (fd_signature_index d), fm_name = Some (symbol (dc_function_names decls ! fn_index))\<rparr>))) [0..<?n]) =
      Ok (map ?g [0..<?n])"
    by (rule collect_results_Ok) (use get_func_Ok [OF wf len] in \<open>fastforce simp: unwrap_option_def\<close>)
  have start: "(case start_func ?info of Some f \<Rightarrow> if f < ?n then Some (of_nat f) else None | None \<Rightarrow> None) = map_option of_nat (start_func ?info)"
    using wf len by (auto simp: info_wf_def funcs_wf_def split: option.split)
  let ?sr = "map (\<lambda>(_, wft). map_err L_SignatureConversion (to_lucet_signature wft)) (signatures ?info)"
  let ?md = "\<lambda>sigs. \<lparr>md_linear_memory = ?lm, md_globals_spec = dc_globals_spec decls, md_function_info = map ?g [0..<?n],
         md_import_functions = dc_imports decls, md_export_functions = dc_exports decls, md_signatures = sigs,
         md_features = features, md_start_function = map_option of_nat (start_func ?info)\<rparr>"
  have eval: "get_module_data features decls = rbind (collect_results ?sr) (\<lambda>sigs. Ok (?md sigs))"
    by (simp only: get_module_data_def lmr fi start rbind.simps)
  show ?thesis
  proof (cases "collect_results ?sr")
    case (Ok sigs)
    have "length sigs = length (signatures ?info)" "\<forall>k < length (signatures ?info). to_lucet_signature (snd (signatures ?info ! k)) = Ok (sigs ! k)"
      using collect_results_inv [OF Ok] by (simp_all add: case_prod_beta)
    moreover have "get_module_data features decls = Ok (?md sigs)" using Ok by (simp add: eval)
    ultimately show ?thesis using len by simp
  next
    case (Err e)
    have "\<exists>ft \<in> set (map snd (signatures ?info)). \<not> is_ok (to_lucet_signature ft)"
    proof (rule ccontr)
      assume "\<not> ?thesis"
      then have "\<forall>p \<in> set (signatures ?info). \<exists>x. to_lucet_signature (snd p) = Ok x" by (auto simp: is_ok_iff)
      then obtain g where "\<And>p. p \<in> set (signatures ?info) \<Longrightarrow> to_lucet_signature (snd p) = Ok (g p)" by metis
      then have "collect_results ?sr = Ok (map g (signatures ?info))" by (intro collect_results_Ok) (auto simp: case_prod_beta)
      with Err show False by simp
    qed
    with Err show ?thesis by (simp add: eval)
  next
    case (Panic p)
    have "no_panic (collect_results ?sr)" by (rule collect_no_panic) (auto simp: to_lucet_signature_no_panic)
    with Panic show ?thesis by simp
  qed
qed

end
