(* ===== verification/Module_Output.thy ===== *)
theory Module_Output
  imports Module_Decls
begin

text \<open>
  What the compiler promises the runtime about a module's metadata (\<open>lucetc/src/decls.rs\<close>) and its
  function tables (\<open>lucetc/src/table.rs\<close>).
\<close>

section \<open>The heap specification\<close>

lemma unat_pages: "unat (ucast (n :: u32) * 65536 :: u64) = unat n * 65536"
proof -
  have "unat n * 65536 < 2 ^ 64" using unat_lt32 [of n] by (simp del: unat_lt32)
  then show ?thesis by (simp add: unat_mult_lem [THEN iffD1] unat_ucast_32_64)
qed

lemma build_heap_spec_pages:
  assumes "build_heap_spec info settings = Ok (Some hs)"
  shows "unat (initial_size hs) mod 4096 = 0"
proof -
  have "\<exists>n :: u32. initial_size hs = ucast n * 65536"
    using assms by (auto simp: build_heap_spec_def Let_def split: list.splits if_splits)
  then obtain n :: u32 where "initial_size hs = ucast n * 65536" ..
  then show ?thesis using mod_mult_right_eq [of "unat n" 65536 4096] by (simp add: unat_pages)
qed

lemma build_linear_memory_pages:
  assumes "build_linear_memory_spec info settings = Ok (Some s)"
  shows "list_all page_ok (owned_pages (olm_initializer s))"
proof -
  obtain hs dis d where "build_heap_spec info settings = Ok (Some hs)" "owned_sparse_data_from_initializers dis hs = Ok d" "s = \<lparr>olm_heap = hs, olm_initializer = d\<rparr>"
  proof (cases "build_heap_spec info settings")
    case (Ok spec)
    with assms that show thesis by (cases spec) (auto simp: build_linear_memory_spec_def split: option.splits)
  qed (use assms in \<open>simp_all add: build_linear_memory_spec_def\<close>)
  with sparse_data_image [OF build_heap_spec_pages, of info settings hs dis] show ?thesis by simp
qed

lemma build_linear_memory_no_panic:
  assumes "info_wf info"
  shows "no_panic (build_linear_memory_spec info settings)"
proof (cases "build_heap_spec info settings")
  case (Ok spec)
  show ?thesis
  proof (cases spec)
    case (Some hs)
    then have "memories info \<noteq> []" using Ok by (auto simp: build_heap_spec_def)
    then obtain dis where "map_of (data_initializers info) 0 = Some dis" using assms by (auto simp: info_wf_def mems_wf_def)
    then show ?thesis using Ok Some sparse_data_image [OF build_heap_spec_pages, of info settings hs dis]
      by (auto simp: build_linear_memory_spec_def split: rresult.splits)
  qed (use Ok in \<open>simp add: build_linear_memory_spec_def\<close>)
qed (auto simp: build_linear_memory_spec_def build_heap_spec_def Let_def split: list.splits if_splits)

text \<open>The heap specification is what the memory declares: without a memory there is none; with one, the initial and
  maximum sizes are its page counts times 64 KiB without overflow, and the reservation covers the initial size and the
  configured minimum and stays below the configured maximum; with more memories it is refused.\<close>

theorem heap_spec_exact:
  "case memories info of
     [] \<Rightarrow> build_heap_spec info settings = Ok None
   | [m] \<Rightarrow>
       (if unat (wm_minimum (entity m)) * 65536 \<le> unat (max_reserved_size settings) \<and> min_reserved_size settings \<le> max_reserved_size settings
        then (\<exists>hs. build_heap_spec info settings = Ok (Some hs) \<and>
          unat (initial_size hs) = unat (wm_minimum (entity m)) * 65536 \<and>
          map_option unat (max_size hs) = map_option (\<lambda>p. unat p * 65536) (wm_maximum (entity m)) \<and>
          initial_size hs \<le> reserved_size hs \<and> min_reserved_size settings \<le> reserved_size hs \<and>
          reserved_size hs \<le> max_reserved_size settings \<and> guard_size hs = hset_guard_size settings)
        else (\<exists>r. build_heap_spec info settings = Err (L_MemorySpecs r (max_reserved_size settings))))
   | _ \<Rightarrow> (\<exists>e. build_heap_spec info settings = Err e)"
proof (cases "memories info")
  case (Cons m ms)
  show ?thesis
  proof (cases ms)
    case Nil
    have le: "ucast (wm_minimum (entity m)) * 65536 \<le> max_reserved_size settings \<longleftrightarrow>
        unat (wm_minimum (entity m)) * 65536 \<le> unat (max_reserved_size settings)"
      by (simp add: word_le_nat_alt unat_pages)
    have mx: "map_option unat (map_option (\<lambda>p. ucast p * 65536 :: u64) x) = map_option (\<lambda>p. unat p * 65536) x" for x :: "u32 option"
      by (cases x) (simp_all add: unat_pages)
    show ?thesis
    proof (cases "max (ucast (wm_minimum (entity m)) * 65536) (min_reserved_size settings) \<le> max_reserved_size settings")
      case True
      then show ?thesis using Cons Nil le mx [of "wm_maximum (entity m)"]
        by (simp add: build_heap_spec_def Let_def unat_pages not_less)
    next
      case False
      then show ?thesis using Cons Nil le by (auto simp: build_heap_spec_def Let_def not_less)
    qed
  qed (use Cons in \<open>simp add: build_heap_spec_def\<close>)
qed (simp add: build_heap_spec_def)

section \<open>Constructing the declarations\<close>

text \<open>In a valid module a global initialized from another refers to one that exists.\<close>

definition globals_valid :: "'sig module_info \<Rightarrow> bool" where
  "globals_valid info \<longleftrightarrow>
     (\<forall>g \<in> set (wasm_globals info). \<forall>r. entity g = GI_GetGlobal r \<longrightarrow> r < length (wasm_globals info))"

lemma imported_global_no_panic: "no_panic (imported_global info ix)"
  by (simp add: imported_global_def split: prod.split)

lemma build_globals_no_panic:
  assumes "globals_valid info"
  shows "no_panic (build_globals_spec info)"
  unfolding build_globals_spec_def
proof (rule collect_no_panic)
  fix r :: "(lucetc_error, global_spec) rresult"
  assume "r \<in> set (map (build_global info) [0..<length (wasm_globals info)])"
  then obtain ix where ix: "ix < length (wasm_globals info)" "r = build_global info ix" by auto
  have "g = GI_GetGlobal k \<longrightarrow> k < length (wasm_globals info)" if "g = entity (wasm_globals info ! ix)" for g k
    using assms ix(1) that by (auto simp: globals_valid_def)
  with ix(2) imported_global_no_panic show "no_panic r"
    by (cases "entity (wasm_globals info ! ix)") (auto simp: build_global_def Let_def)
qed

lemma declare_table_names_no_panic: "clif_ok ops \<Longrightarrow> no_panic (declare_table_names ops ixs cm)"
proof (induction ixs arbitrary: cm)
  case (Cons ix ixs)
  then show ?case
    by (cases "co_declare_data ops (''guest_table_'' @ show_nat ix) LinkLocal cm")
      (auto simp: Let_def clif_ok_def case_prod_beta intro!: no_panic_rbind)
qed simp

lemma declare_tables_no_panic:
  assumes "clif_ok ops"
  shows "no_panic (declare_tables ops info cm)"
proof (cases "declare_table_names ops [0..<length (tables info)] cm")
  case (Ok x)
  then show ?thesis using assms
    by (cases x; cases "co_declare_data ops TABLE_SYM LinkLocal (snd x)") (auto simp: declare_tables_def clif_ok_def)
next
  case (Panic p)
  with declare_table_names_no_panic [OF assms, of "[0..<length (tables info)]" cm] show ?thesis by simp
qed (simp add: declare_tables_def)

lemma module_decls_new_cases:
  assumes ops: "clif_ok ops" and wf: "info_wf info" and gv: "globals_valid info"
  shows "case module_decls_new ops add_vmctx info b runtime settings cm of
      Ok (decls, cm') \<Rightarrow> info_extends info (dc_info decls) (length runtime) \<and>
        length (dc_function_names decls) = length (funcs (dc_info decls)) \<and>
        dc_imports decls = map (import_entry info) [0..<length (imported_funcs info)] \<and>
        dc_exports decls = map (export_entry info) (filter (\<lambda>i. ex_names (funcs info ! i) \<noteq> []) [0..<length (funcs info)]) \<and>
        build_linear_memory_spec info settings = Ok (dc_linear_memory_spec decls) \<and>
        build_globals_spec info = Ok (dc_globals_spec decls)
    | Err _ \<Rightarrow> True | Panic _ \<Rightarrow> False"
proof (cases "declare_tables ops info cm")
  case tab: (Ok t)
  obtain ln ns cm1 where t: "t = ((ln, ns), cm1)" by (metis surj_pair)
  show ?thesis
  proof (cases "build_globals_spec info")
    case gs: (Ok gs)
    show ?thesis
    proof (cases "build_linear_memory_spec info settings")
      case lm: (Ok lm)
      let ?d = "\<lparr>dc_info = info, dc_function_names = [], dc_imports = [], dc_exports = [], dc_tables_list_name = ln,
           dc_table_names = ns, dc_runtime_names = [], dc_globals_spec = gs, dc_linear_memory_spec = lm\<rparr>"
      have run: "module_decls_new ops add_vmctx info b runtime settings cm =
          rbind (declare_funcs ops b [0..<length (funcs info)] (?d, cm1)) (declare_runtime ops add_vmctx runtime)"
        using tab t gs lm by (simp add: module_decls_new_def)
      have "funcs_declared info 0 ?d" by (simp add: funcs_declared_def)
      note f = declare_funcs_run [OF ops wf _ this, of b cm1, simplified]
      show ?thesis
      proof (cases "declare_funcs ops b [0..<length (funcs info)] (?d, cm1)")
        case fs: (Ok r)
        obtain d1 cm2 where r: "r = (d1, cm2)" by (cases r)
        from f fs r have d1: "funcs_declared info (length (funcs info)) d1" "dc_globals_spec d1 = gs" "dc_linear_memory_spec d1 = lm" by simp_all
        have imps: "filter (\<lambda>i. i < length (imported_funcs info)) [0..<length (funcs info)] = [0..<length (imported_funcs info)]"
        proof -
          have le: "length (imported_funcs info) \<le> length (funcs info)" using wf by (simp add: info_wf_def funcs_wf_def)
          have "filter (\<lambda>i. i < n) [0..<n + m] = [0..<n]" for n m :: nat by (induction m) simp_all
          from this [of "length (imported_funcs info)" "length (funcs info) - length (imported_funcs info)"] le show ?thesis by simp
        qed
        from declare_runtime_run [OF ops, of d1 runtime add_vmctx cm2] d1 imps wf run fs r gs lm show ?thesis
          by (auto simp: funcs_declared_def split: rresult.splits)
      qed (use f run in simp_all)
    next
      case (Panic p)
      with build_linear_memory_no_panic [OF wf, of settings] show ?thesis by simp
    qed (use tab t gs in \<open>simp add: module_decls_new_def\<close>)
  next
    case (Panic p)
    with build_globals_no_panic [OF gv] show ?thesis by simp
  qed (use tab t in \<open>simp add: module_decls_new_def\<close>)
next
  case (Panic p)
  with declare_tables_no_panic [OF ops, of info cm] show ?thesis by simp
qed (simp add: module_decls_new_def)

section \<open>The metadata\<close>

text \<open>Metadata with everything the runtime looks up: an entry for each function of the module and \<open>n\<close> runtime functions, the
  types of the functions, imports, exports and the start function.\<close>

definition metadata_complete :: "'sig module_info \<Rightarrow> nat \<Rightarrow> module_data \<Rightarrow> bool" where
  "metadata_complete info n md \<longleftrightarrow>
     length (md_function_info md) = length (funcs info) + n \<and>
     (\<forall>f < length (funcs info). \<exists>sig. md_get_signature md (of_nat f) = (Ok sig :: (lucetc_error, signature) rresult) \<and>
        to_lucet_signature (function_type info f) = Ok sig) \<and>
     md_import_functions md = map (import_entry info) [0..<length (imported_funcs info)] \<and>
     (\<forall>s. md_get_export_func_id md s =
        map_option of_nat (find (\<lambda>f. s \<in> set (ex_names (funcs info ! f))) [0..<length (funcs info)])) \<and>
     md_start_function md = map_option of_nat (start_func info)"

lemma md_get_signature_type:
  assumes wf: "info_wf info" and small: "length (funcs info) < 2 ^ 32" "length (signatures info) < 2 ^ 32" and f: "f < length (funcs info)"
    and md: "length (md_function_info md) = length (funcs info)" "length (md_signatures md) = length (signatures info)"
      "\<forall>i < length (funcs info). fm_signature (md_function_info md ! i) = of_nat (signature_mapping info ! entity (funcs info ! i))"
      "\<forall>k < length (signatures info). to_lucet_signature (snd (signatures info ! k)) = Ok (md_signatures md ! k)"
  shows "\<exists>sig. md_get_signature md (of_nat f) = (Ok sig :: (lucetc_error, signature) rresult) \<and> to_lucet_signature (function_type info f) = Ok sig"
proof -
  let ?k = "signature_mapping info ! entity (funcs info ! f)"
  have "entity (funcs info ! f) < length (signature_mapping info)" using wf f by (simp add: info_wf_def funcs_wf_def)
  then have k: "?k < length (signatures info)" using wf by (simp add: info_wf_def sigs_wf_def)
  then have "unat (of_nat ?k :: u32) = ?k" "unat (of_nat f :: u32) = f" using small f by (simp_all add: unsigned_of_nat take_bit_nat_eq_self_iff)
  with md f k show ?thesis by (simp add: md_get_signature_def function_type_def)
qed

lemma md_export_lookup:
  assumes "md_export_functions md = map (export_entry info) (filter (\<lambda>i. ex_names (funcs info ! i) \<noteq> []) [0..<length (funcs info)])"
  shows "md_get_export_func_id md s = map_option of_nat (find (\<lambda>f. s \<in> set (ex_names (funcs info ! f))) [0..<length (funcs info)])"
proof -
  have "find (\<lambda>e. s \<in> set (exp_names e)) (md_export_functions md) =
      map_option (export_entry info) (find ((\<lambda>e. s \<in> set (exp_names e)) \<circ> export_entry info) [0..<length (funcs info)])"
    unfolding assms by (rule find_map_filter) (auto simp: export_entry_def)
  then show ?thesis by (simp add: md_get_export_func_id_def option.map_comp comp_def export_entry_def)
qed

lemma metadata_cases:
  assumes ops: "clif_ok ops" and wf: "info_wf info" and gv: "globals_valid info"
    and new: "module_decls_new ops add_vmctx info b runtime settings cm = Ok (decls, cm')"
    and small: "length (dc_function_names decls) < 2 ^ 32" "length (signatures (dc_info decls)) < 2 ^ 32"
  shows "case get_module_data features decls of
      Ok md \<Rightarrow> metadata_complete info (length runtime) md \<and>
        md_linear_memory md = map_option (\<lambda>s. \<lparr>heap = olm_heap s, initializer = \<lparr>pages = owned_pages (olm_initializer s)\<rparr>\<rparr>) (dc_linear_memory_spec decls)
    | Err e \<Rightarrow> \<exists>ft \<in> set (map snd (signatures (dc_info decls))). \<not> is_ok (to_lucet_signature ft)
    | Panic _ \<Rightarrow> False"
proof -
  let ?info = "dc_info decls"
  have ext: "info_extends info ?info (length runtime)" and len: "length (dc_function_names decls) = length (funcs ?info)"
    and ie: "dc_imports decls = map (import_entry info) [0..<length (imported_funcs info)]"
      "dc_exports decls = map (export_entry info) (filter (\<lambda>i. ex_names (funcs info ! i) \<noteq> []) [0..<length (funcs info)])"
    and lm: "build_linear_memory_spec info settings = Ok (dc_linear_memory_spec decls)"
    using module_decls_new_cases [OF ops wf gv, where add_vmctx = add_vmctx and b = b and runtime = runtime and settings = settings and cm = cm]
    unfolding new by simp_all
  have ext': "info_wf ?info" "length (funcs ?info) = length (funcs info) + length runtime" "start_func ?info = start_func info"
    using ext by (auto simp: info_extends_def)
  have "\<And>s. dc_linear_memory_spec decls = Some s \<Longrightarrow> list_all page_ok (owned_pages (olm_initializer s))"
    using lm build_linear_memory_pages by metis
  note gm = get_module_data_cases [OF ext'(1) len this, where features = features]
  show ?thesis
  proof (cases "get_module_data features decls")
    case (Ok md)
    have "\<exists>sig. md_get_signature md (of_nat f) = (Ok sig :: (lucetc_error, signature) rresult) \<and> to_lucet_signature (function_type info f) = Ok sig"
      if f: "f < length (funcs info)" for f
      using md_get_signature_type [OF ext'(1) _ small(2), of f md] gm Ok small(1) len f ext'(2) function_type_extends [OF ext wf f] by simp
    moreover have "md_get_export_func_id md s = map_option of_nat (find (\<lambda>f. s \<in> set (ex_names (funcs info ! f))) [0..<length (funcs info)])" for s
      using gm Ok ie(2) by (intro md_export_lookup) simp
    ultimately show ?thesis using gm Ok ext'(2,3) ie(1) by (simp add: metadata_complete_def)
  qed (use gm in simp_all)
qed

text \<open>The linear memory of the metadata: the initial size of the declared memory and the image of its data segments.\<close>

lemma metadata_memory:
  assumes ops: "clif_ok ops" and wf: "info_wf info" and gv: "globals_valid info"
    and new: "module_decls_new ops add_vmctx info b runtime settings cm = Ok (decls, cm')"
    and small: "length (dc_function_names decls) < 2 ^ 32" "length (signatures (dc_info decls)) < 2 ^ 32"
    and md: "get_module_data features decls = Ok md"
    and mem: "memories info = [mm]" and dis: "map_of (data_initializers info) 0 = Some dis"
  obtains hs ps where "md_linear_memory md = Some \<lparr>heap = hs, initializer = \<lparr>pages = ps\<rparr>\<rparr>"
    "unat (initial_size hs) = unat (wm_minimum (entity mm)) * 65536" "list_all page_ok ps"
    "length ps = unat (initial_size hs) div 4096" "unat (initial_size hs) mod 4096 = 0"
    "\<And>a. a < unat (initial_size hs) \<Longrightarrow> sparse_byte ps a = data_image dis a"
proof -
  have lm: "build_linear_memory_spec info settings = Ok (dc_linear_memory_spec decls)"
    using module_decls_new_cases [OF ops wf gv, where add_vmctx = add_vmctx and b = b and runtime = runtime and settings = settings and cm = cm]
    unfolding new by simp
  obtain hs where hs: "build_heap_spec info settings = Ok (Some hs)" "initial_size hs = ucast (wm_minimum (entity mm)) * 65536"
    using lm mem by (auto simp: build_linear_memory_spec_def build_heap_spec_def Let_def split: if_splits)
  then obtain d where d: "owned_sparse_data_from_initializers dis hs = Ok d" "dc_linear_memory_spec decls = Some \<lparr>olm_heap = hs, olm_initializer = d\<rparr>"
    using lm dis by (auto simp: build_linear_memory_spec_def)
  have "md_linear_memory md = Some \<lparr>heap = hs, initializer = \<lparr>pages = owned_pages d\<rparr>\<rparr>"
    using metadata_cases [OF ops wf gv new small, where features = features] md d(2) by simp
  with that [of hs "owned_pages d"] hs(2) sparse_data_image [OF build_heap_spec_pages [OF hs(1)], of dis] d(1) build_heap_spec_pages [OF hs(1)]
  show thesis by (simp add: unat_pages)
qed

section \<open>Properties\<close>

text \<open>C6: The metadata of a compiled module is complete and consistent: compiling well-formed module information
  against an object module that does not panic never panics, and the metadata has an entry for every function of the module and every runtime
  function, whose signature lookup succeeds and gives the function's WebAssembly type; the imports are those of the
  module in order, looking up an exported name gives the first function exported under it, and the start
  function is the module's. The metadata is refused only for a type that has no representation.\<close>

theorem module_data_consistent:
  assumes "clif_ok ops" and "info_wf info" and "globals_valid info"
    and "module_decls_new ops add_vmctx info b runtime settings cm = r"
  shows "no_panic r \<and>
    (\<forall>decls cm'. r = Ok (decls, cm') \<longrightarrow> length (dc_function_names decls) < 2 ^ 32 \<longrightarrow> length (signatures (dc_info decls)) < 2 ^ 32 \<longrightarrow>
      (case get_module_data features decls of
         Ok md \<Rightarrow> metadata_complete info (length runtime) md
       | Err e \<Rightarrow> (\<exists>ft \<in> set (map snd (signatures (dc_info decls))). \<not> is_ok (to_lucet_signature ft))
       | Panic _ \<Rightarrow> False))"
proof -
  have "case get_module_data features decls of
         Ok md \<Rightarrow> metadata_complete info (length runtime) md
       | Err e \<Rightarrow> (\<exists>ft \<in> set (map snd (signatures (dc_info decls))). \<not> is_ok (to_lucet_signature ft))
       | Panic _ \<Rightarrow> False"
    if "r = Ok (decls, cm')" "length (dc_function_names decls) < 2 ^ 32" "length (signatures (dc_info decls)) < 2 ^ 32" for decls cm'
    using metadata_cases [OF assms(1,2,3) assms(4) [unfolded that(1)] that(2,3), where features = features] by (auto split: rresult.splits)
  moreover have "no_panic r"
    using module_decls_new_cases [OF assms(1,2,3), where add_vmctx = add_vmctx and b = b and runtime = runtime and settings = settings and cm = cm]
    unfolding assms(4) by (cases r) simp_all
  ultimately show ?thesis by blast
qed

text \<open>A module that imports \<open>env.print\<close> and exports \<open>main\<close>, declared in an object module that numbers what it is given.\<close>

definition demo_ops :: "(nat list, nat) clif_ops" where
  "demo_ops = \<lparr>co_declare_function = (\<lambda>_ _ _ n. Ok (n, Suc n)), co_declare_data = (\<lambda>_ _ n. Ok (n, Suc n))\<rparr>"

definition demo_info :: "nat list module_info" where
  "demo_info = module_info_new\<lparr>signature_mapping := [0, 1],
     signatures := [([0, 1], \<lparr>wf_params = [W_I32], wf_returns = []\<rparr>), ([0], \<lparr>wf_params = [], wf_returns = []\<rparr>)],
     imported_funcs := [(''env'', ''print'')], function_mapping := [0, 1],
     funcs := [\<lparr>entity = 0, ex_names = []\<rparr>, \<lparr>entity = 1, ex_names = [''main'', ''_start'']\<rparr>], start_func := Some 1\<rparr>"

lemmas decls_eval = module_decls_new_def declare_tables_def build_globals_spec_def build_linear_memory_spec_def build_heap_spec_def
  declare_func_def import_name_for_def export_name_for_def declare_function_def signature_for_function_def signature_by_id_def
  declare_new_function_def declare_func_with_sig_def info_declare_type_func_def info_declare_func_type_def exportable_new_def
  translate_def name_new_data_def name_new_func_def

lemma demo_compiles:
  "\<exists>decls cm. module_decls_new demo_ops (Cons 0) demo_info demo_bindings (runtime_lucet (\<lambda>ps rs. [length ps, length rs]))
       heap_settings_default 0 = Ok (decls, cm) \<and> length (dc_function_names decls) = 5 \<and> length (signatures (dc_info decls)) = 5 \<and>
     (\<forall>ft \<in> set (map snd (signatures (dc_info decls))). is_ok (to_lucet_signature ft))"
  by (simp add: decls_eval demo_ops_def demo_info_def module_info_new_def demo_bindings_def bindings_env_def bindings_new_def
      runtime_lucet_def upt_rec Let_def to_lucet_signature_def)

theorem module_data_consistent_witness:
  "\<exists>decls cm md. module_decls_new demo_ops (Cons 0) demo_info demo_bindings (runtime_lucet (\<lambda>ps rs. [length ps, length rs]))
       heap_settings_default 0 = Ok (decls, cm) \<and> get_module_data features_none decls = Ok md \<and>
     metadata_complete demo_info 3 md \<and> md_get_export_func_id md ''_start'' = Some 1"
proof -
  have wf: "clif_ok demo_ops" "info_wf demo_info" "globals_valid demo_info"
    by (auto simp: clif_ok_def demo_ops_def demo_info_def module_info_new_def wf_defs globals_valid_def)
  let ?rt = "runtime_lucet (\<lambda>ps rs. [length ps, length rs])"
  obtain decls cm where d: "module_decls_new demo_ops (Cons 0) demo_info demo_bindings ?rt heap_settings_default 0 = Ok (decls, cm)"
    "length (dc_function_names decls) = 5" "length (signatures (dc_info decls)) = 5"
    "\<forall>ft \<in> set (map snd (signatures (dc_info decls))). is_ok (to_lucet_signature ft)"
    using demo_compiles by blast
  from module_data_consistent [OF wf d(1), where features = features_none] d(2,3,4) obtain md
    where md: "get_module_data features_none decls = Ok md" "metadata_complete demo_info (length ?rt) md"
    by (auto split: rresult.splits)
  have "length ?rt = 3" by (simp add: runtime_lucet_def)
  with md have c: "metadata_complete demo_info 3 md" by simp
  then have "md_get_export_func_id md ''_start'' = Some 1"
    by (simp add: metadata_complete_def demo_info_def module_info_new_def upt_rec)
  with d(1) md(1) c show ?thesis by blast
qed

end
