(* ===== verification/Table_Data.thy ===== *)
theory Table_Data
  imports Module_Output
begin

text \<open>
  The function table of a compiled module (\<open>lucetc/src/table.rs\<close>) and the calls through it
  (\<open>translate_call_indirect\<close> of \<open>lucetc/src/function.rs\<close>). The rows of the table are written with their relocations;
  the lemmas give the linked rows and show that an indirect call reaches exactly the function that the element segments
  put at its index, and only at its own type.
\<close>

section \<open>Data\<close>

datatype elem = El_Func nat | El_Empty

text \<open>A data object under construction: its bytes, and the places where the linker puts addresses of functions and of other data.\<close>

record data_context =
  dx_bytes :: "u8 list"
  dx_function_addrs :: "(nat \<times> name) list"
  dx_data_addrs :: "(nat \<times> nat) list"

section \<open>The contents of a table\<close>

fun put_elements :: "nat \<Rightarrow> nat list \<Rightarrow> elem list \<Rightarrow> elem list" where
  "put_elements i [] elems = elems"
| "put_elements i (f # fs) elems = put_elements (Suc i) fs (elems[i := El_Func f])"

fun place_initializers :: "wasm_table \<Rightarrow> table_elems list \<Rightarrow> elem list \<Rightarrow> (lucetc_error, elem list) rresult" where
  "place_initializers table [] elems = Ok elems"
| "place_initializers table (ini # rest) elems =
     (if tel_base ini \<noteq> None then Err (L_Unsupported ''table elements with global index base'')
      else
        let final_len = tel_offset ini + length (tel_elements ini) in
        if final_len \<ge> 2 ^ 64 then Panic ''table length overflowed usize''
        else if final_len > length elems then Err (L_ElementInitializerOutOfRange ini table)
        else place_initializers table rest (put_elements (tel_offset ini) (tel_elements ini) elems))"

definition table_elements :: "table_decl \<Rightarrow> (lucetc_error, elem list) rresult" where
  "table_elements decl =
     (if wt_ty (td_table decl) \<noteq> TE_Func then Err (L_Unsupported ''table with non-function elements'')
      else place_initializers (td_table decl) (td_elems decl) (replicate (unat (wt_minimum (td_table decl))) El_Empty))"

text \<open>The rows of the table: a signature index and a function address, the latter left to the linker.\<close>

fun write_rows ::
  "'sig module_decls \<Rightarrow> elem list \<Rightarrow> u8 list \<times> (nat \<times> name) list \<Rightarrow> (lucetc_error, u8 list \<times> (nat \<times> name) list) rresult" where
  "write_rows decls [] s = Ok s"
| "write_rows decls (El_Func func_index # elements) (table_data, addrs) =
     rbind (get_func decls func_index) (\<lambda>func.
       case func of
         Some func \<Rightarrow>
           (let table_data = table_data @ word_bytes 8 (of_nat (fd_signature_index func) :: u64);
                position = length table_data
            in if \<not> position < 2 ^ 32 - 1 then Panic ''assertion failed: position < <u32>::max_value() as u64''
               else write_rows decls elements (table_data @ word_bytes 8 (0 :: u64), addrs @ [(position, fd_name func)]))
       | None \<Rightarrow> Err (L_FunctionIndexError func_index))"
| "write_rows decls (El_Empty # elements) (table_data, addrs) =
     write_rows decls elements (table_data @ word_bytes 8 (- 1 :: u64) @ word_bytes 8 (0 :: u64), addrs)"

definition expect_some :: "string \<Rightarrow> 'a option \<Rightarrow> ('e, 'a) rresult" where
  "expect_some msg x = (case x of Some v \<Rightarrow> Ok v | None \<Rightarrow> Panic msg)"

text \<open>\<open>define_data\<close> is the object module's. The list of tables has one entry, an address and a length, or none.\<close>

definition write_table_data ::
  "(nat \<Rightarrow> data_context \<Rightarrow> 'cm \<Rightarrow> (string, 'cm) rresult) \<Rightarrow> 'sig module_decls \<Rightarrow> 'cm \<Rightarrow> (lucetc_error, (nat \<times> nat) \<times> 'cm) rresult" where
  "write_table_data define_data decls cm =
     rbind (case get_table decls 0 of
          Ok table_decl \<Rightarrow>
            rbind (table_elements table_decl) (\<lambda>elements.
            rbind (write_rows decls elements ([], [])) (\<lambda>(table_data, addrs).
            rbind (expect_some ''tables are data'' (as_dataid (td_contents_name table_decl))) (\<lambda>table_id.
            rbind (map_err L_ClifModuleError
                (define_data table_id \<lparr>dx_bytes = table_data, dx_function_addrs = addrs, dx_data_addrs = []\<rparr> cm)) (\<lambda>cm.
            Ok (\<lparr>dx_bytes = word_bytes 8 (0 :: u64) @ word_bytes 8 (of_nat (length elements) :: u64),
                 dx_function_addrs = [], dx_data_addrs = [(0, table_id)]\<rparr>, 1, cm)))))
        | Err _ \<Rightarrow> Ok (\<lparr>dx_bytes = [], dx_function_addrs = [], dx_data_addrs = []\<rparr>, 0, cm)
        | Panic p \<Rightarrow> Panic p) (\<lambda>(table_ctx, tables_count, cm).
     rbind (expect_some ''lucet_tables is declared as data'' (as_dataid (dc_tables_list_name decls))) (\<lambda>table_id.
     rbind (map_err L_ClifModuleError (define_data table_id table_ctx cm)) (\<lambda>cm.
     Ok ((table_id, tables_count), cm))))"

section \<open>Indirect calls\<close>

text \<open>The table as the generated code finds it: the linker has put the addresses of functions into the rows.\<close>

definition link_rows :: "(name \<Rightarrow> u64) \<Rightarrow> data_context \<Rightarrow> table_element list" where
  "link_rows addr dx =
     map (\<lambda>k. \<lparr>te_ty = word_of_bytes (slice_range (16 * k) (16 * k + 8) (dx_bytes dx)),
               te_func = (case map_of (dx_function_addrs dx) (16 * k + 8) of
                  Some nm \<Rightarrow> addr nm
                | None \<Rightarrow> word_of_bytes (slice_range (16 * k + 8) (16 * k + 16) (dx_bytes dx)))\<rparr>)
       [0..<length (dx_bytes dx) div 16]"

text \<open>The length of the first table in the list of tables, at the offset \<open>make_table\<close> computes for table 0.\<close>

definition linked_bound :: "data_context \<Rightarrow> u64" where
  "linked_bound lst = word_of_bytes (slice_range 8 16 (dx_bytes lst))"

datatype call_outcome = Call_Address u64 | Call_Trap trap_code

text \<open>What the code of an indirect call does: the index is sign-extended and checked against the bound, the row's signature
  index is compared with the unique index of the expected type, and the address of the row is called.\<close>

definition call_indirect ::
  "'sig module_decls \<Rightarrow> u64 \<Rightarrow> table_element list \<Rightarrow> nat \<Rightarrow> u32 \<Rightarrow> (lucetc_error, call_outcome) rresult" where
  "call_indirect decls table_bound rows sig_index callee =
     (let callee_u64 = scast callee :: u64 in
      rbind (unwrap_result (get_signature_uid decls sig_index)) (\<lambda>unique_sig_index.
        Ok (if \<not> callee_u64 < table_bound then Call_Trap TableOutOfBounds
            else
              let entry = rows ! unat callee_u64 in
              if te_ty entry = of_nat unique_sig_index then Call_Address (te_func entry) else Call_Trap BadSignature)))"

section \<open>Lemmas\<close>

text \<open>The function that the initializers, taken in order, put at an index.\<close>

fun placed :: "table_elems list \<Rightarrow> nat \<Rightarrow> nat option" where
  "placed [] i = None"
| "placed (e # es) i =
     (case placed es i of
        Some f \<Rightarrow> Some f
      | None \<Rightarrow>
          if tel_offset e \<le> i \<and> i < tel_offset e + length (tel_elements e) then Some (tel_elements e ! (i - tel_offset e)) else None)"

lemma put_elements_nth:
  assumes "i + length fs \<le> length elems"
  shows "length (put_elements i fs elems) = length elems"
    and "k < length elems \<Longrightarrow> put_elements i fs elems ! k = (if i \<le> k \<and> k < i + length fs then El_Func (fs ! (k - i)) else elems ! k)"
  using assms by (induction i fs elems rule: put_elements.induct) (auto simp: nth_Cons' nth_list_update)

lemma place_initializers_Ok:
  assumes "place_initializers table es elems = Ok elems'"
  shows "length elems' = length elems \<and>
    (\<forall>k < length elems. elems' ! k = (case placed es k of Some f \<Rightarrow> El_Func f | None \<Rightarrow> elems ! k))"
  using assms
proof (induction table es elems rule: place_initializers.induct)
  case (2 table e es elems)
  let ?p = "put_elements (tel_offset e) (tel_elements e) elems"
  have fit: "tel_offset e + length (tel_elements e) \<le> length elems" and run: "place_initializers table es ?p = Ok elems'"
    using 2(2) by (auto simp: Let_def split: if_splits)
  have "length elems' = length ?p \<and> (\<forall>k < length ?p. elems' ! k = (case placed es k of Some f \<Rightarrow> El_Func f | None \<Rightarrow> ?p ! k))"
    using 2(1) [OF _ refl _ _ run] 2(2) fit by (auto simp: Let_def split: if_splits)
  then show ?case using put_elements_nth [OF fit] by (auto split: option.split)
qed simp

lemma placed_in: "placed es i = Some f \<Longrightarrow> \<exists>e \<in> set es. f \<in> set (tel_elements e)"
  by (induction es) (auto split: option.splits if_splits)

fun row_ty :: "'sig module_decls \<Rightarrow> elem \<Rightarrow> u64" where
  "row_ty decls (El_Func f) = of_nat (signature_mapping (dc_info decls) ! entity (funcs (dc_info decls) ! f))"
| "row_ty decls El_Empty = - 1"

fun row_addrs :: "'sig module_decls \<Rightarrow> nat \<Rightarrow> elem list \<Rightarrow> (nat \<times> name) list" where
  "row_addrs decls k [] = []"
| "row_addrs decls k (El_Func f # es) = (16 * k + 8, dc_function_names decls ! f) # row_addrs decls (Suc k) es"
| "row_addrs decls k (El_Empty # es) = row_addrs decls (Suc k) es"

definition rows_bytes :: "'sig module_decls \<Rightarrow> elem list \<Rightarrow> u8 list" where
  "rows_bytes decls es = concat (map (\<lambda>e. word_bytes 8 (row_ty decls e) @ word_bytes 8 (0 :: u64)) es)"

lemma rows_bytes_simps [simp]:
  "rows_bytes decls [] = []" "rows_bytes decls (e # es) = word_bytes 8 (row_ty decls e) @ word_bytes 8 (0 :: u64) @ rows_bytes decls es"
  by (simp_all add: rows_bytes_def)

lemma length_rows_bytes [simp]: "length (rows_bytes decls es) = 16 * length es"
  by (induction es) simp_all

definition decls_wf :: "'sig module_decls \<Rightarrow> bool" where
  "decls_wf decls \<longleftrightarrow> info_wf (dc_info decls) \<and> length (dc_function_names decls) = length (funcs (dc_info decls))"

lemma get_func_exact:
  assumes "decls_wf decls" and "f < length (funcs (dc_info decls))"
  obtains d where "get_func decls f = Ok (Some d)" "fd_name d = dc_function_names decls ! f"
    "fd_signature_index d = signature_mapping (dc_info decls) ! entity (funcs (dc_info decls) ! f)"
  using get_func_Ok [of decls f] assms that
  by (auto simp: decls_wf_def get_func_def list_get_def unwrap_option_def unwrap_result_def case_prod_beta split: rresult.splits option.splits if_splits)

lemma write_rows_Ok:
  assumes "decls_wf decls" and "\<forall>f. El_Func f \<in> set es \<longrightarrow> f < length (funcs (dc_info decls))"
    and "length td = 16 * k" and "16 * (k + length es) < 2 ^ 32"
  shows "write_rows decls es (td, addrs) = Ok (td @ rows_bytes decls es, addrs @ row_addrs decls k es)"
  using assms(2-)
proof (induction es arbitrary: td addrs k)
  case (Cons e es)
  show ?case
  proof (cases e)
    case (El_Func f)
    obtain d where d: "get_func decls f = Ok (Some d)" "fd_name d = dc_function_names decls ! f"
      "fd_signature_index d = signature_mapping (dc_info decls) ! entity (funcs (dc_info decls) ! f)"
      using get_func_exact [OF assms(1), of f] Cons.prems(1) El_Func by auto
    with El_Func Cons.prems Cons.IH [of "td @ word_bytes 8 (row_ty decls e) @ word_bytes 8 (0 :: u64)" "Suc k" "addrs @ [(16 * k + 8, fd_name d)]"]
    show ?thesis by (simp add: Let_def)
  next
    case El_Empty
    with Cons.prems Cons.IH [of "td @ word_bytes 8 (row_ty decls e) @ word_bytes 8 (0 :: u64)" "Suc k" addrs] show ?thesis by simp
  qed
qed simp

lemma rows_bytes_slice:
  "k < length es \<Longrightarrow> slice_range (16 * k) (16 * k + 8) (rows_bytes decls es) = word_bytes 8 (row_ty decls (es ! k))"
  "k < length es \<Longrightarrow> slice_range (16 * k + 8) (16 * k + 16) (rows_bytes decls es) = word_bytes 8 (0 :: u64)"
proof (induction es arbitrary: k)
  case (Cons e es)
  { case 1
    then show ?case using Cons.IH(1) [of "k - 1"] by (cases k) (simp_all add: slice_range_def) }
  { case 2
    then show ?case using Cons.IH(2) [of "k - 1"] by (cases k) (simp_all add: slice_range_def add.commute) }
qed simp_all

lemma row_addrs_from: "(p, nm) \<in> set (row_addrs decls k es) \<Longrightarrow> 16 * k + 8 \<le> p"
  by (induction decls k es rule: row_addrs.induct) fastforce+

lemma map_of_row_addrs:
  "map_of (row_addrs decls k es) (16 * (k + j) + 8) =
     (if j < length es then (case es ! j of El_Func f \<Rightarrow> Some (dc_function_names decls ! f) | El_Empty \<Rightarrow> None) else None)"
proof (induction decls k es arbitrary: j rule: row_addrs.induct)
  case (2 decls k f es)
  then show ?case by (cases j) simp_all
next
  case (3 decls k es)
  have "map_of (row_addrs decls (Suc k) es) (16 * k + 8) = None"
    using row_addrs_from [of "16 * k + 8" _ decls "Suc k" es] by (auto simp: map_of_eq_None_iff)
  with 3 show ?case by (cases j) simp_all
qed simp

lemma link_rows_nth:
  assumes "j < length es"
  shows "link_rows addr \<lparr>dx_bytes = rows_bytes decls es, dx_function_addrs = row_addrs decls 0 es, dx_data_addrs = ds\<rparr> ! j =
    \<lparr>te_ty = row_ty decls (es ! j), te_func = (case es ! j of El_Func f \<Rightarrow> addr (dc_function_names decls ! f) | El_Empty \<Rightarrow> 0)\<rparr>"
  using assms map_of_row_addrs [of decls 0 es j] by (simp add: link_rows_def rows_bytes_slice split: elem.split)

text \<open>The object module as a record of what is defined in it.\<close>

definition record_data :: "nat \<Rightarrow> data_context \<Rightarrow> (nat \<rightharpoonup> data_context) \<Rightarrow> (string, nat \<rightharpoonup> data_context) rresult" where
  "record_data i dx objs = Ok (objs(i \<mapsto> dx))"

lemma table_elements_nth:
  assumes "table_elements td = Ok es"
  shows "length es = unat (wt_minimum (td_table td))"
    and "k < length es \<Longrightarrow> es ! k = (case placed (td_elems td) k of Some f \<Rightarrow> El_Func f | None \<Rightarrow> El_Empty)"
  using assms place_initializers_Ok [of "td_table td" "td_elems td" "replicate (unat (wt_minimum (td_table td))) El_Empty" es]
  by (auto simp: table_elements_def split: if_splits option.split)

lemma table_functions_valid:
  assumes "decls_wf decls" and "get_table decls 0 = Ok td" and "placed (td_elems td) k = Some f"
  shows "f < length (funcs (dc_info decls))"
proof -
  have "map_of (table_elems_of (dc_info decls)) 0 = Some (td_elems td)"
    using assms(2) by (auto simp: get_table_def list_get_def unwrap_option_def elim!: rresult_of_option.elims split: if_splits)
  then show ?thesis using assms(1) placed_in [OF assms(3)] by (auto simp: decls_wf_def info_wf_def tables_wf_def)
qed

lemma write_table_data_objects:
  assumes wf: "decls_wf decls" and td: "get_table decls 0 = Ok td" and small: "unat (wt_minimum (td_table td)) < 2 ^ 28"
    and run: "write_table_data record_data decls objs = Ok ((list_id, n), objs')"
  obtains es table_id where "table_elements td = Ok es" "as_dataid (td_contents_name td) = Some table_id" "n = 1"
    "objs' = objs(table_id \<mapsto> \<lparr>dx_bytes = rows_bytes decls es, dx_function_addrs = row_addrs decls 0 es, dx_data_addrs = []\<rparr>,
       list_id \<mapsto> \<lparr>dx_bytes = word_bytes 8 (0 :: u64) @ word_bytes 8 (of_nat (length es) :: u64), dx_function_addrs = [],
         dx_data_addrs = [(0, table_id)]\<rparr>)"
proof -
  obtain es where es: "table_elements td = Ok es" using run td by (auto simp: write_table_data_def)
  have "\<forall>f. El_Func f \<in> set es \<longrightarrow> f < length (funcs (dc_info decls))"
    using table_functions_valid [OF wf td] table_elements_nth [OF es] by (auto simp: in_set_conv_nth split: option.splits)
  from write_rows_Ok [OF wf this, of "[]" 0 "[]"] table_elements_nth(1) [OF es] small
  have "write_rows decls es ([], []) = Ok (rows_bytes decls es, row_addrs decls 0 es)" by simp
  with run td es that show thesis
    by (auto simp: write_table_data_def record_data_def expect_some_def split: option.splits)
qed

section \<open>Properties\<close>

text \<open>C10: Indirect calls are type-safe. In a compiled module with a local table, a call through index \<open>callee\<close> with an expected type calls
  exactly the function that the element segments last put there, and only when that function has the expected
  unique signature; a wrong type and an empty entry trap with \<open>BadSignature\<close>, and an index that is not below the
  table's size with \<open>TableOutOfBounds\<close>.\<close>

theorem indirect_call_exact:
  assumes "decls_wf decls" and "length (signatures (dc_info decls)) < 2 ^ 32"
    and "get_table decls 0 = Ok td" and "unat (wt_minimum (td_table td)) < 2 ^ 28"
    and "write_table_data record_data decls objs = Ok ((list_id, n), objs')"
    and "as_dataid (td_contents_name td) = Some table_id" and "table_id \<noteq> list_id"
    and "sig_index < length (signature_mapping (dc_info decls))"
  shows "\<exists>tbl lst. objs' table_id = Some tbl \<and> objs' list_id = Some lst \<and>
    call_indirect decls (linked_bound lst) (link_rows addr tbl) sig_index callee = Ok
      (if unat callee < unat (wt_minimum (td_table td)) then
         (case placed (td_elems td) (unat callee) of
            Some f \<Rightarrow>
              if signature_mapping (dc_info decls) ! entity (funcs (dc_info decls) ! f) = signature_mapping (dc_info decls) ! sig_index
              then Call_Address (addr (dc_function_names decls ! f)) else Call_Trap BadSignature
          | None \<Rightarrow> Call_Trap BadSignature)
       else Call_Trap TableOutOfBounds)"
proof -
  obtain es where es: "table_elements td = Ok es"
    and objs: "objs' = objs(table_id \<mapsto> \<lparr>dx_bytes = rows_bytes decls es, dx_function_addrs = row_addrs decls 0 es, dx_data_addrs = []\<rparr>,
       list_id \<mapsto> \<lparr>dx_bytes = word_bytes 8 (0 :: u64) @ word_bytes 8 (of_nat (length es) :: u64), dx_function_addrs = [],
         dx_data_addrs = [(0, table_id)]\<rparr>)"
    using write_table_data_objects [OF assms(1,3,4,5)] assms(6) by (metis option.inject)
  let ?uid = "signature_mapping (dc_info decls) ! sig_index"
  have sigs: "k < length (signatures (dc_info decls))" if "k \<in> set (signature_mapping (dc_info decls))" for k
    using that assms(1) by (auto simp: decls_wf_def info_wf_def sigs_wf_def)
  have small: "length es < 2 ^ 31" and len: "length es = unat (wt_minimum (td_table td))"
    using table_elements_nth(1) [OF es] assms(4) by simp_all
  have uid: "?uid < 2 ^ 32" using sigs [of ?uid] assms(2,8) by simp
  have fuid: "signature_mapping (dc_info decls) ! entity (funcs (dc_info decls) ! f) < 2 ^ 32" if "placed (td_elems td) k = Some f" for k f
  proof -
    have "f < length (funcs (dc_info decls))" by (rule table_functions_valid [OF assms(1,3) that])
    then have "entity (funcs (dc_info decls) ! f) < length (signature_mapping (dc_info decls))"
      using assms(1) by (simp add: decls_wf_def info_wf_def funcs_wf_def)
    then show ?thesis using sigs [of "signature_mapping (dc_info decls) ! entity (funcs (dc_info decls) ! f)"] assms(2) by simp
  qed
  have bnd: "linked_bound \<lparr>dx_bytes = word_bytes 8 (0 :: u64) @ word_bytes 8 (of_nat (length es) :: u64), dx_function_addrs = [],
         dx_data_addrs = [(0, table_id)]\<rparr> = of_nat (length es)"
    by (simp add: linked_bound_def slice_range_def)
  have "get_signature_uid decls sig_index = Ok ?uid" using assms(8) by (simp add: get_signature_uid_def)
  then have "call_indirect decls (of_nat (length es)) (link_rows addr tbl) sig_index callee = Ok
      (if unat callee < unat (wt_minimum (td_table td)) then
         (case placed (td_elems td) (unat callee) of
            Some f \<Rightarrow>
              if signature_mapping (dc_info decls) ! entity (funcs (dc_info decls) ! f) = signature_mapping (dc_info decls) ! sig_index
              then Call_Address (addr (dc_function_names decls ! f)) else Call_Trap BadSignature
          | None \<Rightarrow> Call_Trap BadSignature)
       else Call_Trap TableOutOfBounds)"
    if "tbl = \<lparr>dx_bytes = rows_bytes decls es, dx_function_addrs = row_addrs decls 0 es, dx_data_addrs = []\<rparr>" for tbl
    using that table_elements_nth(2) [OF es, of "unat callee"] link_rows_nth [of "unat callee" es addr decls "[]"] fuid [of "unat callee"] uid
      of_nat_not_max [OF uid]
    by (auto simp: call_indirect_def unwrap_result_def scast_index_bound [OF small] of_nat_u64_inj Let_def len [symmetric]
        split: option.split)
  with objs bnd assms(7) show ?thesis by auto
qed


text \<open>A module with two functions of different types and a table of three entries, the second of which is empty.\<close>

definition demo_table_decls :: "nat list module_decls" where
  "demo_table_decls =
     \<lparr>dc_info = demo_info\<lparr>tables := [\<lparr>entity = \<lparr>wt_ty = TE_Func, wt_minimum = 3, wt_maximum = None\<rparr>, ex_names = []\<rparr>],
        table_elems_of := [(0, [\<lparr>tel_base = None, tel_offset = 0, tel_elements = [0]\<rparr>,
          \<lparr>tel_base = None, tel_offset = 2, tel_elements = [0]\<rparr>, \<lparr>tel_base = None, tel_offset = 0, tel_elements = [1]\<rparr>])]\<rparr>,
      dc_function_names = [name_new_func ''host_print'' 1, name_new_func ''guest_func_main'' 2], dc_imports = [], dc_exports = [],
      dc_tables_list_name = name_new_data TABLE_SYM 7, dc_table_names = [name_new_data ''guest_table_0'' 6], dc_runtime_names = [],
      dc_globals_spec = [], dc_linear_memory_spec = None\<rparr>"

lemma demo_table_wf: "decls_wf demo_table_decls" "length (signatures (dc_info demo_table_decls)) < 2 ^ 32"
  by (simp_all add: demo_table_decls_def demo_info_def module_info_new_def decls_wf_def wf_defs)

lemma demo_get_table:
  "\<exists>td. get_table demo_table_decls 0 = Ok td \<and> td_table td = \<lparr>wt_ty = TE_Func, wt_minimum = 3, wt_maximum = None\<rparr> \<and>
     td_contents_name td = name_new_data ''guest_table_0'' 6 \<and>
     td_elems td = [\<lparr>tel_base = None, tel_offset = 0, tel_elements = [0]\<rparr>,
       \<lparr>tel_base = None, tel_offset = 2, tel_elements = [0]\<rparr>, \<lparr>tel_base = None, tel_offset = 0, tel_elements = [1]\<rparr>]"
  by (simp add: demo_table_decls_def demo_info_def module_info_new_def get_table_def list_get_def unwrap_option_def)

lemma demo_write_table: "\<exists>objs. write_table_data record_data demo_table_decls Map.empty = Ok ((7, 1), objs)"
proof -
  obtain td where td: "get_table demo_table_decls 0 = Ok td" "td_table td = \<lparr>wt_ty = TE_Func, wt_minimum = 3, wt_maximum = None\<rparr>"
    "td_contents_name td = name_new_data ''guest_table_0'' 6"
    "td_elems td = [\<lparr>tel_base = None, tel_offset = 0, tel_elements = [0]\<rparr>,
       \<lparr>tel_base = None, tel_offset = 2, tel_elements = [0]\<rparr>, \<lparr>tel_base = None, tel_offset = 0, tel_elements = [1]\<rparr>]"
    using demo_get_table by blast
  have es: "table_elements td = Ok [El_Func 1, El_Empty, El_Func 0]"
  proof -
    have "unat (3 :: u32) = Suc (Suc (Suc 0))" by simp
    then have "replicate (unat (3 :: u32)) El_Empty = [El_Empty, El_Empty, El_Empty]" by (simp only: replicate.simps)
    then show ?thesis unfolding table_elements_def td by (simp add: Let_def del: unsigned_numeral)
  qed
  have "\<forall>f. El_Func f \<in> set [El_Func 1, El_Empty, El_Func 0] \<longrightarrow> f < length (funcs (dc_info demo_table_decls))"
    by (simp add: demo_table_decls_def demo_info_def)
  from write_rows_Ok [OF demo_table_wf(1) this, of "[]" 0 "[]"]
  have "write_rows demo_table_decls [El_Func 1, El_Empty, El_Func 0] ([], []) =
      Ok (rows_bytes demo_table_decls [El_Func 1, El_Empty, El_Func 0], row_addrs demo_table_decls 0 [El_Func 1, El_Empty, El_Func 0])" by simp
  moreover have "dc_tables_list_name demo_table_decls = name_new_data TABLE_SYM 7" by (simp add: demo_table_decls_def)
  ultimately show ?thesis unfolding write_table_data_def td(1) using td(3) es
    by (simp add: record_data_def expect_some_def name_new_data_def del: write_rows.simps row_addrs.simps rows_bytes_simps)
qed

theorem indirect_call_exact_witness:
  "\<exists>objs tbl lst. write_table_data record_data demo_table_decls Map.empty = Ok ((7, 1), objs) \<and> objs 6 = Some tbl \<and> objs 7 = Some lst \<and>
     call_indirect demo_table_decls (linked_bound lst) (link_rows (\<lambda>n. if symbol n = ''guest_func_main'' then 0x4000 else 0) tbl) 1 0 =
       Ok (Call_Address 0x4000) \<and>
     call_indirect demo_table_decls (linked_bound lst) (link_rows (\<lambda>n. if symbol n = ''guest_func_main'' then 0x4000 else 0) tbl) 1 1 =
       Ok (Call_Trap BadSignature) \<and>
     call_indirect demo_table_decls (linked_bound lst) (link_rows (\<lambda>n. if symbol n = ''guest_func_main'' then 0x4000 else 0) tbl) 1 0xFFFFFFFF =
       Ok (Call_Trap TableOutOfBounds)"
proof -
  obtain td objs where td: "get_table demo_table_decls 0 = Ok td" "wt_minimum (td_table td) = 3" "as_dataid (td_contents_name td) = Some 6"
    "placed (td_elems td) 0 = Some 1" "placed (td_elems td) 1 = None"
    and objs: "write_table_data record_data demo_table_decls Map.empty = Ok ((7, 1), objs)"
    using demo_get_table demo_write_table by (auto simp: name_new_data_def)
  have "unat (wt_minimum (td_table td)) < 2 ^ 28" "6 \<noteq> (7::nat)" "1 < length (signature_mapping (dc_info demo_table_decls))"
    by (simp_all add: td demo_table_decls_def demo_info_def)
  note call = indirect_call_exact [OF demo_table_wf td(1) this(1) objs td(3) this(2,3),
    where addr = "\<lambda>n. if symbol n = ''guest_func_main'' then 0x4000 else 0"]
  obtain tbl lst where o: "objs 6 = Some tbl" "objs 7 = Some lst" using call by blast
  have f: "dc_function_names demo_table_decls ! Suc 0 = name_new_func ''guest_func_main'' 2"
    "signature_mapping (dc_info demo_table_decls) ! entity (funcs (dc_info demo_table_decls) ! Suc 0) = signature_mapping (dc_info demo_table_decls) ! Suc 0"
    by (simp_all add: demo_table_decls_def demo_info_def)
  have "unat (3 :: u32) = 3" "unat (0xFFFFFFFF :: u32) = 0xFFFFFFFF" by simp_all
  note vals = this f name_new_func_def name.select_convs
  from call [of 0] o td(2,4) have "call_indirect demo_table_decls (linked_bound lst)
      (link_rows (\<lambda>n. if symbol n = ''guest_func_main'' then 0x4000 else 0) tbl) 1 0 = Ok (Call_Address 0x4000)"
    by (simp add: vals)
  moreover from call [of 1] o td(2,5) have "call_indirect demo_table_decls (linked_bound lst)
      (link_rows (\<lambda>n. if symbol n = ''guest_func_main'' then 0x4000 else 0) tbl) 1 1 = Ok (Call_Trap BadSignature)"
    by simp
  moreover from call [of "0xFFFFFFFF"] o td(2) have "call_indirect demo_table_decls (linked_bound lst)
      (link_rows (\<lambda>n. if symbol n = ''guest_func_main'' then 0x4000 else 0) tbl) 1 0xFFFFFFFF = Ok (Call_Trap TableOutOfBounds)"
    by (simp add: vals)
  ultimately show ?thesis using objs o by blast
qed

end
