(* ===== verification/Instr_Count.thy ===== *)
theory Instr_Count
  imports Instance_Data Module_Info
begin

text \<open>
  Instruction counting in generated code (\<open>update_instruction_count_instrumentation_*\<close> of \<open>lucetc/src/function.rs\<close>). While a
  function body is translated, the compiler keeps a stack of scopes with the instructions counted but not yet added to the counter,
  and emits code that adds them, saves and reloads the counter around calls, and checks the bound. The emitted code is a
  datatype with an executor over the counter variable and the runtime data of the instance; what the hostcall for
  an expired bound and the called functions do is a parameter. The lemmas show that the translation does not
  panic and that on every path through the function the counter is exact.
\<close>

section \<open>Data\<close>

text \<open>The operators of WebAssembly that the instrumentation names; all others are alike for it.\<close>

datatype operator =
    Op_Unreachable | Op_Nop | Op_Block | Op_Loop | Op_If | Op_Else | Op_End | Op_Br nat | Op_BrIf nat | Op_BrTable | Op_Return
  | Op_Call | Op_CallIndirect | Op_Drop | Op_Other string

text \<open>The last scope of \<open>scope_costs\<close> is the head of the list.\<close>

record scope_info =
  si_cost :: nat
  si_is_loop :: bool

text \<open>The code that is emitted: adding to the counter variable, loading and saving it, the hostcall, and a block that is entered when
  the bound is reached.\<close>

datatype count_code = CC_Add nat | CC_Load | CC_Save | CC_YieldHostcall | CC_IfBoundReached "count_code list"

section \<open>Emission\<close>

definition func_info_scopes :: "scope_info list" where
  "func_info_scopes = [\<lparr>si_cost = 0, si_is_loop = False\<rparr>]"

fun op_cost :: "operator \<Rightarrow> nat" where
  "op_cost Op_Block = 0"
| "op_cost Op_Unreachable = 0"
| "op_cost Op_Return = 0"
| "op_cost Op_Call = 1"
| "op_cost Op_CallIndirect = 2"
| "op_cost Op_If = 1"
| "op_cost Op_Else = 0"
| "op_cost Op_Loop = 0"
| "op_cost Op_End = 0"
| "op_cost (Op_Br _) = 1"
| "op_cost (Op_BrIf _) = 1"
| "op_cost Op_BrTable = 2"
| "op_cost Op_Nop = 0"
| "op_cost Op_Drop = 0"
| "op_cost (Op_Other _) = 1"

text \<open>\<open>info.cost += n\<close> on the last scope, if there is one; the cost is a \<open>u32\<close>.\<close>

fun add_cost :: "nat \<Rightarrow> scope_info list \<Rightarrow> (wasm_error, scope_info list) rresult" where
  "add_cost n [] = Ok []"
| "add_cost n (info # rest) =
     (if si_cost info + n < 2 ^ 32 then Ok (info\<lparr>si_cost := si_cost info + n\<rparr> # rest) else Panic ''attempt to add with overflow'')"

fun flush_counter :: "scope_info list \<Rightarrow> (wasm_error, count_code list \<times> scope_info list) rresult" where
  "flush_counter [] = Panic ''unwrap on None''"
| "flush_counter (info # rest) =
     (if si_cost info = 0 then Ok ([], info # rest) else Ok ([CC_Add (si_cost info)], info\<lparr>si_cost := 0\<rparr> # rest))"

definition do_check :: "count_code list" where
  "do_check = [CC_IfBoundReached [CC_Save, CC_YieldHostcall, CC_Load]]"

definition is_loop_at :: "nat \<Rightarrow> scope_info list \<Rightarrow> (wasm_error, bool) rresult" where
  "is_loop_at d scopes = (if d < length scopes then Ok (si_is_loop (scopes ! d)) else Panic ''attempt to subtract with overflow'')"

fun do_check_and_save :: "operator \<Rightarrow> scope_info list \<Rightarrow> (wasm_error, bool) rresult" where
  "do_check_and_save Op_Call scopes = Ok True"
| "do_check_and_save Op_CallIndirect scopes = Ok True"
| "do_check_and_save Op_Return scopes = Ok True"
| "do_check_and_save Op_BrTable scopes = Ok True"
| "do_check_and_save (Op_Br d) scopes = is_loop_at d scopes"
| "do_check_and_save (Op_BrIf d) scopes = is_loop_at d scopes"
| "do_check_and_save _ scopes = Ok False"

fun flushes :: "operator \<Rightarrow> bool" where
  "flushes Op_Nop = False"
| "flushes Op_Drop = False"
| "flushes (Op_Other _) = False"
| "flushes Op_End = False"
| "flushes _ = True"

definition flush_for :: "operator \<Rightarrow> scope_info list \<Rightarrow> (wasm_error, count_code list \<times> scope_info list) rresult" where
  "flush_for op scopes =
     (if flushes op then
        rbind (do_check_and_save op scopes) (\<lambda>check.
        rbind (flush_counter scopes) (\<lambda>(code, scopes).
        Ok (if check then code @ [CC_Save] @ do_check else code, scopes)))
      else if op = Op_End then flush_counter scopes
      else Ok ([], scopes))"

fun is_call :: "operator \<Rightarrow> bool" where
  "is_call Op_Call = True"
| "is_call Op_CallIndirect = True"
| "is_call _ = False"

text \<open>Opening and closing scopes, and the return from a called function.\<close>

fun fix_scopes :: "operator \<Rightarrow> bool \<Rightarrow> scope_info list \<Rightarrow> (wasm_error, scope_info list) rresult" where
  "fix_scopes Op_Block reachable scopes = Ok (\<lparr>si_cost = 0, si_is_loop = False\<rparr> # scopes)"
| "fix_scopes Op_If reachable scopes = Ok (\<lparr>si_cost = 0, si_is_loop = False\<rparr> # scopes)"
| "fix_scopes Op_Loop reachable scopes = Ok (\<lparr>si_cost = 0, si_is_loop = True\<rparr> # scopes)"
| "fix_scopes Op_End reachable scopes = Ok (tl scopes)"
| "fix_scopes op reachable scopes = (if is_call op \<and> reachable then add_cost 1 scopes else Ok scopes)"

definition instrumentation_pre ::
  "operator \<Rightarrow> bool \<Rightarrow> scope_info list \<Rightarrow> (wasm_error, count_code list \<times> scope_info list) rresult" where
  "instrumentation_pre op reachable scopes =
     rbind (if reachable then rbind (add_cost (op_cost op) scopes) (flush_for op)
            else (case scopes of
                    [] \<Rightarrow> Panic ''unwrap on None''
                  | info # _ \<Rightarrow> if si_cost info = 0 then Ok ([], scopes) else Panic ''assertion failed: cost == 0'')) (\<lambda>(code, scopes).
     rbind (fix_scopes op reachable scopes) (\<lambda>scopes. Ok (code, scopes)))"

definition instrumentation_post :: "operator \<Rightarrow> bool \<Rightarrow> count_code list" where
  "instrumentation_post op reachable = (if reachable \<and> is_call op then [CC_Load] else [])"

definition instrumentation_before_func :: "bool \<Rightarrow> count_code list" where
  "instrumentation_before_func count_instructions = (if count_instructions then [CC_Load] else [])"

definition instrumentation_after_func :: "bool \<Rightarrow> count_code list" where
  "instrumentation_after_func reachable = (if reachable then [CC_Save] else [])"

text \<open>A function body: its operators with whether each is reachable, and for each the code before and after it. A call
  leaves the translation as reachable as it was.\<close>

fun instrument :: "(operator \<times> bool) list \<Rightarrow> scope_info list \<Rightarrow>
    (wasm_error, (count_code list \<times> count_code list) list \<times> scope_info list) rresult" where
  "instrument [] scopes = Ok ([], scopes)"
| "instrument ((op, reachable) # ops) scopes =
     rbind (instrumentation_pre op reachable scopes) (\<lambda>(code, scopes).
     rbind (instrument ops scopes) (\<lambda>(codes, scopes).
     Ok ((code, instrumentation_post op reachable) # codes, scopes)))"

section \<open>Execution\<close>

text \<open>The counter variable of the function, the runtime data in memory, and how much called functions have counted.\<close>

record count_state =
  cs_var :: i64
  cs_data :: instance_runtime_data
  cs_callees :: i64

definition data_count :: "instance_runtime_data \<Rightarrow> i64" where
  "data_count d = instruction_count_adj d + instruction_count_bound d"

fun exec_code :: "(instance_runtime_data \<Rightarrow> instance_runtime_data) \<Rightarrow> count_code list \<Rightarrow> count_state \<Rightarrow> count_state" where
  "exec_code yield [] s = s"
| "exec_code yield (CC_Add n # cs) s = exec_code yield cs (s\<lparr>cs_var := cs_var s + of_nat n\<rparr>)"
| "exec_code yield (CC_Load # cs) s = exec_code yield cs (s\<lparr>cs_var := instruction_count_adj (cs_data s)\<rparr>)"
| "exec_code yield (CC_Save # cs) s = exec_code yield cs (s\<lparr>cs_data := (cs_data s)\<lparr>instruction_count_adj := cs_var s\<rparr>\<rparr>)"
| "exec_code yield (CC_YieldHostcall # cs) s = exec_code yield cs (s\<lparr>cs_data := yield (cs_data s)\<rparr>)"
| "exec_code yield (CC_IfBoundReached body # cs) s =
     exec_code yield cs (if bound_reached (cs_var s) then exec_code yield body s else s)"

text \<open>A call at a position runs other code, which counts on its own.\<close>

definition call_at :: "(nat \<Rightarrow> instance_runtime_data \<Rightarrow> instance_runtime_data) \<Rightarrow> operator \<Rightarrow> nat \<Rightarrow> count_state \<Rightarrow> count_state" where
  "call_at callee op i s =
     (if is_call op then
        s\<lparr>cs_data := callee i (cs_data s), cs_callees := cs_callees s + (data_count (callee i (cs_data s)) - data_count (cs_data s))\<rparr>
      else s)"

fun run_path ::
  "(instance_runtime_data \<Rightarrow> instance_runtime_data) \<Rightarrow> (nat \<Rightarrow> instance_runtime_data \<Rightarrow> instance_runtime_data) \<Rightarrow>
   (operator \<times> bool) list \<Rightarrow> (count_code list \<times> count_code list) list \<Rightarrow> nat list \<Rightarrow> count_state \<Rightarrow> count_state" where
  "run_path yield callee ops codes [] s = s"
| "run_path yield callee ops codes (i # is) s =
     run_path yield callee ops codes is
       (exec_code yield (snd (codes ! i)) (call_at callee (fst (ops ! i)) i (exec_code yield (fst (codes ! i)) s)))"

text \<open>Where control can go: to the next operator, or from a branch behind the operator that opens a loop, ends a
  block or starts the other arm of a conditional.\<close>

fun falls_through :: "operator \<Rightarrow> bool" where
  "falls_through Op_Unreachable = False"
| "falls_through Op_Return = False"
| "falls_through (Op_Br _) = False"
| "falls_through Op_BrTable = False"
| "falls_through _ = True"

fun branches :: "operator \<Rightarrow> bool" where
  "branches (Op_Br _) = True"
| "branches (Op_BrIf _) = True"
| "branches Op_BrTable = True"
| "branches Op_If = True"
| "branches Op_Else = True"
| "branches _ = False"

fun joins :: "operator \<Rightarrow> bool" where
  "joins Op_Loop = True"
| "joins Op_Else = True"
| "joins Op_End = True"
| "joins _ = False"

definition follows :: "(operator \<times> bool) list \<Rightarrow> nat \<Rightarrow> nat \<Rightarrow> bool" where
  "follows ops i j \<longleftrightarrow> (falls_through (fst (ops ! i)) \<and> j = Suc i) \<or>
     (branches (fst (ops ! i)) \<and> 0 < j \<and> j \<le> length ops \<and> joins (fst (ops ! (j - 1))))"

text \<open>An execution of the function from a position on: up to a return or the end of the body.\<close>

fun path_from :: "(operator \<times> bool) list \<Rightarrow> nat \<Rightarrow> nat list \<Rightarrow> bool" where
  "path_from ops i [] = (i = length ops)"
| "path_from ops i (k # ks) =
     (k = i \<and> i < length ops \<and> snd (ops ! i) \<and>
      (if fst (ops ! i) = Op_Return then ks = []
       else follows ops i (case ks of [] \<Rightarrow> length ops | j # _ \<Rightarrow> j) \<and> path_from ops (case ks of [] \<Rightarrow> length ops | j # _ \<Rightarrow> j) ks))"

definition run_function ::
  "(instance_runtime_data \<Rightarrow> instance_runtime_data) \<Rightarrow> (nat \<Rightarrow> instance_runtime_data \<Rightarrow> instance_runtime_data) \<Rightarrow>
   (operator \<times> bool) list \<Rightarrow> (count_code list \<times> count_code list) list \<Rightarrow> nat list \<Rightarrow> count_state \<Rightarrow> count_state" where
  "run_function yield callee ops codes is s =
     (let s = run_path yield callee ops codes is (exec_code yield (instrumentation_before_func True) s) in
      if is \<noteq> [] \<and> fst (ops ! last is) = Op_Return then s else exec_code yield (instrumentation_after_func True) s)"

text \<open>What an operator counts: its cost, and one more for the return from a called function.\<close>

definition counted :: "operator \<Rightarrow> nat" where
  "counted op = op_cost op + (if is_call op then 1 else 0)"

section \<open>Lemmas\<close>

fun pending :: "scope_info list \<Rightarrow> nat" where
  "pending [] = 0"
| "pending (info # _) = si_cost info"

fun adds :: "count_code list \<Rightarrow> nat" where
  "adds (CC_Add n # _) = n"
| "adds _ = 0"

definition outer_zero :: "scope_info list \<Rightarrow> bool" where
  "outer_zero scopes \<longleftrightarrow> list_all (\<lambda>info. si_cost info = 0) (tl scopes)"

lemma outer_zero_tl: "outer_zero scopes \<Longrightarrow> pending (tl scopes) = 0 \<and> outer_zero (tl scopes)"
  by (cases scopes; cases "tl scopes") (auto simp: outer_zero_def)

subsection \<open>One operator\<close>

definition pre_effect :: "operator \<Rightarrow> bool \<Rightarrow> scope_info list \<Rightarrow> count_code list \<Rightarrow> scope_info list \<Rightarrow> bool" where
  "pre_effect op reachable scopes cc scopes' \<longleftrightarrow>
     outer_zero scopes' \<and> length scopes' = length scopes + (if op \<in> {Op_Block, Op_Loop, Op_If} then 1 else 0) - (if op = Op_End then 1 else 0) \<and>
     (joins op \<or> \<not> reachable \<longrightarrow> pending scopes' = 0) \<and>
     (if reachable then
        (cc = (if adds cc = 0 then [] else [CC_Add (adds cc)]) \<or>
         cc = (if adds cc = 0 then [] else [CC_Add (adds cc)]) @ [CC_Save] @ do_check) \<and>
        adds cc + pending scopes' = pending scopes + counted op \<and>
        (branches op \<or> \<not> falls_through op \<longrightarrow> pending scopes' = 0) \<and>
        (is_call op \<or> op = Op_Return \<longrightarrow> cc = (if adds cc = 0 then [] else [CC_Add (adds cc)]) @ [CC_Save] @ do_check)
      else cc = [])"

lemma add_cost_Ok: "add_cost n scopes = Ok scopes' \<Longrightarrow> scopes \<noteq> [] \<Longrightarrow>
    \<exists>info rest. scopes = info # rest \<and> scopes' = info\<lparr>si_cost := si_cost info + n\<rparr> # rest"
  by (cases scopes) (auto split: if_splits)

lemma flush_for_Ok:
  assumes "flush_for op (info # rest) = Ok (cc, scopes')" and "si_cost info = n"
  shows "\<exists>check. cc = (if (flushes op \<or> op = Op_End) \<and> n \<noteq> 0 then [CC_Add n] else []) @
      (if check then [CC_Save] @ do_check else []) \<and> (check \<longrightarrow> flushes op) \<and> (is_call op \<or> op = Op_Return \<longrightarrow> check) \<and>
      scopes' = (if flushes op \<or> op = Op_End then info\<lparr>si_cost := 0\<rparr> else info) # rest"
proof (cases "flushes op")
  case True
  then obtain check where "do_check_and_save op (info # rest) = Ok check"
    using assms by (auto simp: flush_for_def)
  moreover have "is_call op \<or> op = Op_Return \<Longrightarrow> do_check_and_save op (info # rest) = Ok True" by (cases op) auto
  ultimately show ?thesis using True assms by (intro exI [of _ check]) (auto simp: flush_for_def split: if_splits)
next
  case False
  then have "\<not> is_call op" "op \<noteq> Op_Return" by (cases op; simp)+
  with False assms show ?thesis by (intro exI [of _ False]) (auto simp: flush_for_def split: if_splits)
qed

lemma pre_Ok:
  assumes run: "instrumentation_pre op reachable scopes = Ok (cc, scopes')" and zero: "outer_zero scopes" and ne: "scopes \<noteq> []"
  shows "pre_effect op reachable scopes cc scopes'"
proof -
  obtain info rest where sc: "scopes = info # rest" using ne by (cases scopes) auto
  have rest: "outer_zero rest" "pending rest = 0" "list_all (\<lambda>i. si_cost i = 0) rest"
    using zero outer_zero_tl [OF zero] by (auto simp: sc outer_zero_def)
  show ?thesis
  proof (cases reachable)
    case True
    let ?n = "si_cost info + op_cost op"
    obtain mid where fl: "flush_for op (info\<lparr>si_cost := ?n\<rparr> # rest) = Ok (cc, mid)" and fx: "fix_scopes op True mid = Ok scopes'"
      using run True by (auto simp: instrumentation_pre_def sc split: if_splits)
    have "si_cost (info\<lparr>si_cost := ?n\<rparr>) = ?n" by simp
    from flush_for_Ok [OF fl this] obtain check where
      cc: "cc = (if (flushes op \<or> op = Op_End) \<and> ?n \<noteq> 0 then [CC_Add ?n] else []) @ (if check then [CC_Save] @ do_check else [])"
        "is_call op \<or> op = Op_Return \<longrightarrow> check" "check \<longrightarrow> flushes op"
      and mid: "mid = (if flushes op \<or> op = Op_End then info\<lparr>si_cost := 0\<rparr> else info\<lparr>si_cost := ?n\<rparr>) # rest" by (elim exE conjE) (rule that; simp)
    have ad: "adds cc = (if flushes op \<or> op = Op_End then ?n else 0)" using cc(1,3) by (auto simp: do_check_def)
    show ?thesis
      unfolding pre_effect_def using True fx rest cc ad mid
      by (cases op) (auto simp: sc counted_def outer_zero_def split: if_splits)
  next
    case False
    then have "si_cost info = 0" "cc = []" and fx: "fix_scopes op False scopes = Ok scopes'"
      using run by (auto simp: instrumentation_pre_def sc split: if_splits)
    then show ?thesis unfolding pre_effect_def using False rest fx
      by (cases op) (auto simp: sc outer_zero_def)
  qed
qed

fun op_valid :: "nat \<Rightarrow> operator \<Rightarrow> bool" where
  "op_valid depth (Op_Br d) = (d < depth)"
| "op_valid depth (Op_BrIf d) = (d < depth)"
| "op_valid depth _ = True"

lemma pre_valid:
  assumes "op_valid (length scopes) op" and "scopes \<noteq> []" and "outer_zero scopes" and "pending scopes + 3 < 2 ^ 32"
    and "\<not> reachable \<Longrightarrow> pending scopes = 0"
  shows "\<exists>cc scopes'. instrumentation_pre op reachable scopes = Ok (cc, scopes') \<and> pending scopes' \<le> pending scopes + 3"
proof -
  obtain info rest where sc: "scopes = info # rest" using assms(2) by (cases scopes) auto
  then have "pending rest = 0" using outer_zero_tl [OF assms(3)] by simp
  then show ?thesis using assms
    by (cases reachable; cases op) (auto simp: instrumentation_pre_def sc flush_for_def is_loop_at_def)
qed

subsection \<open>Executing the emitted code\<close>

definition yield_ok :: "(instance_runtime_data \<Rightarrow> instance_runtime_data) \<Rightarrow> bool" where
  "yield_ok yield \<longleftrightarrow> (\<forall>d. data_count (yield d) = data_count d)"

lemma exec_append: "exec_code yield (xs @ ys) s = exec_code yield ys (exec_code yield xs s)"
  by (induction yield xs s rule: exec_code.induct) simp_all

definition var_count :: "count_state \<Rightarrow> i64" where
  "var_count s = cs_var s + instruction_count_bound (cs_data s)"

lemma exec_add: "exec_code yield (if n = 0 then [] else [CC_Add n]) s = s\<lparr>cs_var := cs_var s + of_nat n\<rparr>"
  by simp

lemma exec_save_check:
  assumes "yield_ok yield"
  shows "let s' = exec_code yield ([CC_Save] @ do_check) s in
    var_count s' = var_count s \<and> instruction_count_adj (cs_data s') = cs_var s' \<and> cs_callees s' = cs_callees s"
  using assms by (auto simp: do_check_def var_count_def yield_ok_def data_count_def Let_def)

lemma exec_pre:
  assumes eff: "pre_effect op True scopes cc scopes'" and y: "yield_ok yield"
  shows "var_count (exec_code yield cc s) = var_count s + of_nat (adds cc)"
    and "cs_callees (exec_code yield cc s) = cs_callees s"
    and "is_call op \<or> op = Op_Return \<Longrightarrow> instruction_count_adj (cs_data (exec_code yield cc s)) = cs_var (exec_code yield cc s)"
proof -
  let ?a = "if adds cc = 0 then [] else [CC_Add (adds cc)]"
  let ?s = "s\<lparr>cs_var := cs_var s + of_nat (adds cc)\<rparr>"
  consider (plain) "cc = ?a" | (check) "cc = ?a @ [CC_Save] @ do_check" using eff by (auto simp: pre_effect_def)
  then have "var_count (exec_code yield cc s) = var_count s + of_nat (adds cc) \<and> cs_callees (exec_code yield cc s) = cs_callees s \<and>
      (is_call op \<or> op = Op_Return \<longrightarrow> instruction_count_adj (cs_data (exec_code yield cc s)) = cs_var (exec_code yield cc s))"
  proof cases
    case plain
    have "\<not> (is_call op \<or> op = Op_Return)" using eff plain by (auto simp: pre_effect_def split: if_splits)
    moreover have "exec_code yield cc s = ?s" by (subst plain) (rule exec_add)
    ultimately show ?thesis by (simp add: var_count_def)
  next
    case check
    have "exec_code yield cc s = exec_code yield ([CC_Save] @ do_check) ?s"
      by (subst check) (simp only: exec_append exec_add)
    with exec_save_check [OF y, of ?s] show ?thesis by (simp add: Let_def var_count_def)
  qed
  then show "var_count (exec_code yield cc s) = var_count s + of_nat (adds cc)" "cs_callees (exec_code yield cc s) = cs_callees s"
    "is_call op \<or> op = Op_Return \<Longrightarrow> instruction_count_adj (cs_data (exec_code yield cc s)) = cs_var (exec_code yield cc s)" by blast+
qed

subsection \<open>Function bodies\<close>

text \<open>The body of a validated function: scopes are closed in order, branches stay inside the function, and code becomes
  unreachable only behind an operator that does not fall through.\<close>

fun body_valid :: "nat \<Rightarrow> (operator \<times> bool) list \<Rightarrow> bool" where
  "body_valid depth [] = (depth = 0)"
| "body_valid depth ((op, reachable) # ops) =
     (0 < depth \<and> op_valid depth op \<and> (ops \<noteq> [] \<and> reachable \<and> \<not> snd (hd ops) \<longrightarrow> \<not> falls_through op) \<and>
      body_valid (depth + (if op \<in> {Op_Block, Op_Loop, Op_If} then 1 else 0) - (if op = Op_End then 1 else 0)) ops)"

definition body_states ::
  "(operator \<times> bool) list \<Rightarrow> (count_code list \<times> count_code list) list \<Rightarrow> (nat \<Rightarrow> scope_info list) \<Rightarrow> bool" where
  "body_states ops codes S \<longleftrightarrow> length codes = length ops \<and> pending (S (length ops)) = 0 \<and>
     (\<forall>i < length ops. pre_effect (fst (ops ! i)) (snd (ops ! i)) (S i) (fst (codes ! i)) (S (Suc i)) \<and>
        snd (codes ! i) = instrumentation_post (fst (ops ! i)) (snd (ops ! i)))"

lemma body_states_Cons:
  assumes "body_states ops codes S" and "pre_effect op reachable scopes cc (S 0)"
  shows "body_states ((op, reachable) # ops) ((cc, instrumentation_post op reachable) # codes) (\<lambda>i. case i of 0 \<Rightarrow> scopes | Suc j \<Rightarrow> S j)"
  using assms by (auto simp: body_states_def nth_Cons split: nat.split)

lemma instrument_valid:
  assumes "body_valid (length scopes) ops" and "outer_zero scopes" and "pending scopes + 3 * length ops < 2 ^ 32"
    and "ops \<noteq> [] \<and> \<not> snd (hd ops) \<longrightarrow> pending scopes = 0"
  shows "\<exists>codes S. instrument ops scopes = Ok (codes, []) \<and> S 0 = scopes \<and> body_states ops codes S"
  using assms
proof (induction ops arbitrary: scopes)
  case Nil
  then show ?case by (auto simp: body_states_def)
next
  case (Cons a ops)
  obtain op r where a: "a = (op, r)" by (cases a)
  have ne: "scopes \<noteq> []" and valid: "op_valid (length scopes) op" using Cons.prems(1) a by auto
  obtain cc scopes' where pre: "instrumentation_pre op r scopes = Ok (cc, scopes')" "pending scopes' \<le> pending scopes + 3"
    using pre_valid [OF valid ne Cons.prems(2), of r] Cons.prems(3,4) a by auto
  note eff = pre_Ok [OF pre(1) Cons.prems(2) ne]
  have "body_valid (length scopes') ops" using eff Cons.prems(1) a by (simp add: pre_effect_def)
  moreover have "outer_zero scopes'" using eff by (simp add: pre_effect_def)
  moreover have "pending scopes' + 3 * length ops < 2 ^ 32" using pre(2) Cons.prems(3) by simp
  moreover have "ops \<noteq> [] \<and> \<not> snd (hd ops) \<longrightarrow> pending scopes' = 0"
    using eff Cons.prems(1) a by (auto simp: pre_effect_def split: if_splits)
  ultimately obtain codes S where IH: "instrument ops scopes' = Ok (codes, [])" "S 0 = scopes'" "body_states ops codes S"
    using Cons.IH by blast
  have "body_states (a # ops) ((cc, instrumentation_post op r) # codes) (\<lambda>i. case i of 0 \<Rightarrow> scopes | Suc j \<Rightarrow> S j)"
    unfolding a by (rule body_states_Cons [OF IH(3)]) (use eff IH(2) in simp)
  moreover have "instrument (a # ops) scopes = Ok ((cc, instrumentation_post op r) # codes, [])" using a pre(1) IH(1) by simp
  ultimately show ?case by (intro exI conjI) (auto split: nat.split)
qed

lemma call_count:
  assumes "is_call op \<Longrightarrow> instruction_count_adj (cs_data s) = cs_var s"
  shows "let s' = exec_code yield (instrumentation_post op True) (call_at callee op i s) in
    var_count s' = var_count s + (cs_callees s' - cs_callees s) \<and> (\<not> is_call op \<longrightarrow> s' = s)"
  using assms by (auto simp: instrumentation_post_def call_at_def var_count_def data_count_def Let_def)

lemma follows_pending:
  assumes st: "body_states ops codes S" and i: "i < length ops" "snd (ops ! i)" and f: "follows ops i j"
  shows "pending (S j) = pending (S (Suc i))"
proof (cases "falls_through (fst (ops ! i)) \<and> j = Suc i")
  case False
  then have b: "branches (fst (ops ! i))" "0 < j" "j - 1 < length ops" "joins (fst (ops ! (j - 1)))"
    using f by (auto simp: follows_def)
  have "pending (S (Suc i)) = 0" using st i b(1) by (auto simp: body_states_def pre_effect_def)
  moreover have "pending (S (Suc (j - 1))) = 0" using st b(3,4) by (simp add: body_states_def pre_effect_def)
  ultimately show ?thesis using b(2) by simp
qed simp

lemma run_path_count:
  assumes st: "body_states ops codes S" and y: "yield_ok yield" and "path_from ops i is" and "s' = run_path yield callee ops codes is s"
  shows "var_count s' = var_count s + of_nat (pending (S i) + (\<Sum>k \<leftarrow> is. counted (fst (ops ! k)))) + (cs_callees s' - cs_callees s) \<and>
    (is \<noteq> [] \<and> fst (ops ! last is) = Op_Return \<longrightarrow> instruction_count_adj (cs_data s') = cs_var s')"
  using assms(3,4)
proof (induction "is" arbitrary: i s)
  case Nil
  then show ?case using st by (simp add: body_states_def)
next
  case (Cons k ks)
  let ?op = "fst (ops ! i)" and ?cc = "fst (codes ! i)"
  have i: "k = i" "i < length ops" "snd (ops ! i)" using Cons.prems(1) by auto
  have eff: "pre_effect ?op True (S i) ?cc (S (Suc i))" and post: "snd (codes ! i) = instrumentation_post ?op True"
    using st i by (auto simp: body_states_def)
  define s1 where "s1 = exec_code yield ?cc s"
  define s3 where "s3 = exec_code yield (instrumentation_post ?op True) (call_at callee ?op i s1)"
  note ex = exec_pre [OF eff y, of s, folded s1_def]
  have c3: "var_count s3 = var_count s1 + (cs_callees s3 - cs_callees s1)" "\<not> is_call ?op \<longrightarrow> s3 = s1"
    using call_count [of ?op s1 yield callee i] ex(3) by (auto simp: s3_def Let_def)
  have run: "s' = run_path yield callee ops codes ks s3" using Cons.prems(2) i post by (simp add: s1_def s3_def)
  have "adds ?cc + pending (S (Suc i)) = pending (S i) + counted ?op" using eff by (simp add: pre_effect_def)
  then have bal: "of_nat (adds ?cc) + of_nat (pending (S (Suc i))) = (of_nat (pending (S i)) + of_nat (counted ?op) :: i64)"
    by (metis of_nat_add)
  show ?case
  proof (cases "?op = Op_Return")
    case True
    then have ks: "ks = []" "s3 = s1" "pending (S (Suc i)) = 0"
      using Cons.prems(1) i c3(2) eff by (auto simp: pre_effect_def)
    then show ?thesis using run ex True i(1) bal by simp
  next
    case False
    let ?j = "case ks of [] \<Rightarrow> length ops | j # _ \<Rightarrow> j"
    have f: "follows ops i ?j" "path_from ops ?j ks" using Cons.prems(1) False i by simp_all
    have "of_nat (pending (S ?j)) = (of_nat (pending (S (Suc i))) :: i64)" using follows_pending [OF st i(2,3) f(1)] by simp
    with Cons.IH [OF f(2) run] c3(1) ex(1,2) bal i(1) False show ?thesis
      by (auto simp: algebra_simps)
  qed
qed

text \<open>The runtime's answer to an expired bound, a new bound for the instance, keeps the count.\<close>

lemma bound_delta_keeps_count:
  "set_instruction_bound_delta delta i = Ok i' \<Longrightarrow> data_count (inst_implicits i') = data_count (inst_implicits i)"
  by (auto simp: set_instruction_bound_delta_def data_count_def Let_def)

section \<open>Properties\<close>

text \<open>C9: Generated code counts instructions exactly. Translating the body of a validated function never panics, and on every execution of
  the function, through any branches, loops and calls, from its entry to a return or its end, the count in the instance's runtime
  data grows by exactly the costs of the executed operators, one for every call that returns, and what
  the called functions counted, in wrapping 64-bit arithmetic and however often the bound expires on the way.\<close>

theorem instruction_count_exact:
  assumes "body_valid 1 ops" and "3 * length ops < 2 ^ 32" and "yield_ok yield"
  shows "\<exists>codes. instrument ops func_info_scopes = Ok (codes, []) \<and>
    (\<forall>is callee s. path_from ops 0 is \<longrightarrow>
      (let s' = run_function yield callee ops codes is s in
       data_count (cs_data s') = data_count (cs_data s) + of_nat (\<Sum>k \<leftarrow> is. counted (fst (ops ! k))) + (cs_callees s' - cs_callees s)))"
proof -
  obtain codes S where run: "instrument ops func_info_scopes = Ok (codes, [])" and S: "S 0 = func_info_scopes" "body_states ops codes S"
    using instrument_valid [of func_info_scopes ops] assms(1,2) by (auto simp: func_info_scopes_def outer_zero_def)
  have "data_count (cs_data s') = data_count (cs_data s) + of_nat (\<Sum>k \<leftarrow> is. counted (fst (ops ! k))) + (cs_callees s' - cs_callees s)"
    if path: "path_from ops 0 is" and s': "s' = run_function yield callee ops codes is s" for "is" callee s s'
  proof -
    let ?s0 = "s\<lparr>cs_var := instruction_count_adj (cs_data s)\<rparr>"
    define s1 where "s1 = run_path yield callee ops codes is ?s0"
    have "pending (S 0) = 0" by (simp add: S func_info_scopes_def)
    with run_path_count [OF S(2) assms(3) path s1_def]
    have cnt: "var_count s1 = data_count (cs_data s) + of_nat (\<Sum>k \<leftarrow> is. counted (fst (ops ! k))) + (cs_callees s1 - cs_callees s)"
      and adj: "is \<noteq> [] \<and> fst (ops ! last is) = Op_Return \<longrightarrow> instruction_count_adj (cs_data s1) = cs_var s1"
      by (simp_all add: var_count_def data_count_def)
    have "s' = (if is \<noteq> [] \<and> fst (ops ! last is) = Op_Return then s1 else s1\<lparr>cs_data := (cs_data s1)\<lparr>instruction_count_adj := cs_var s1\<rparr>\<rparr>)"
      by (simp add: s' run_function_def instrumentation_before_func_def instrumentation_after_func_def s1_def Let_def)
    with cnt adj show ?thesis by (auto simp: var_count_def data_count_def)
  qed
  with run show ?thesis by (auto simp: Let_def)
qed

text \<open>A loop that is run twice, and a call of a function that counts ten; the bound expires on the way.\<close>

definition demo_body :: "(operator \<times> bool) list" where
  "demo_body = [(Op_Loop, True), (Op_Other ''i32.const'', True), (Op_BrIf 0, True), (Op_End, True), (Op_Call, True), (Op_End, True)]"

definition demo_yield :: "instance_runtime_data \<Rightarrow> instance_runtime_data" where
  "demo_yield d = d\<lparr>instruction_count_bound := instruction_count_adj d + instruction_count_bound d + 5, instruction_count_adj := - 5\<rparr>"

definition demo_callee :: "nat \<Rightarrow> instance_runtime_data \<Rightarrow> instance_runtime_data" where
  "demo_callee i d = d\<lparr>instruction_count_adj := instruction_count_adj d + 10\<rparr>"

theorem instruction_count_exact_witness:
  "\<exists>codes. instrument demo_body func_info_scopes = Ok (codes, []) \<and>
     (let s' = run_function demo_yield demo_callee demo_body codes [0, 1, 2, 1, 2, 3, 4, 5]
        \<lparr>cs_var = 0, cs_data = \<lparr>globals_ptr = 0, instruction_count_adj = - 3, instruction_count_bound = 3, stack_limit = 0\<rparr>, cs_callees = 0\<rparr> in
      data_count (cs_data s') = 6 + cs_callees s')"
proof -
  have v: "body_valid 1 demo_body" "3 * length demo_body < 2 ^ 32" "yield_ok demo_yield"
    by (simp_all add: demo_body_def yield_ok_def demo_yield_def data_count_def)
  have p: "path_from demo_body 0 [0, 1, 2, 1, 2, 3, 4, 5]" by (simp add: demo_body_def follows_def)
  have c: "(\<Sum>k \<leftarrow> [0, 1, 2, 1, 2, 3, 4, 5]. counted (fst (demo_body ! k))) = 6" by (simp add: demo_body_def counted_def)
  obtain codes where codes: "instrument demo_body func_info_scopes = Ok (codes, [])"
    and cnt: "\<And>is callee s. path_from demo_body 0 is \<Longrightarrow>
      (let s' = run_function demo_yield callee demo_body codes is s in
       data_count (cs_data s') = data_count (cs_data s) + of_nat (\<Sum>k \<leftarrow> is. counted (fst (demo_body ! k))) + (cs_callees s' - cs_callees s))"
    using instruction_count_exact [OF v] by blast
  from cnt [OF p, of demo_callee "\<lparr>cs_var = 0, cs_data = \<lparr>globals_ptr = 0, instruction_count_adj = - 3, instruction_count_bound = 3, stack_limit = 0\<rparr>, cs_callees = 0\<rparr>"]
  have "let s' = run_function demo_yield demo_callee demo_body codes [0, 1, 2, 1, 2, 3, 4, 5]
        \<lparr>cs_var = 0, cs_data = \<lparr>globals_ptr = 0, instruction_count_adj = - 3, instruction_count_bound = 3, stack_limit = 0\<rparr>, cs_callees = 0\<rparr> in
      data_count (cs_data s') = 6 + cs_callees s'"
    unfolding c by (simp add: Let_def data_count_def)
  with codes show ?thesis by blast
qed

end
