(* ===== verification/Region_Uffd.thy ===== *)
theory Region_Uffd
  imports Region_Instances
begin

text \<open>
  The userfaultfd region (\<open>internals/region/uffd.rs\<close>): slots in one mapping whose pages are missing until they are
  touched; a worker thread answers the page faults of guests. The system calls are a parameter (\<open>uffd_ops\<close>) with their documented
  laws as the locale \<open>uffd_memory\<close>. A memory has for every address whether its page is present. What a guest sees is
  the view of the memory: the byte of a present page, and of a missing one what the handler will put there. The lemmas show
  that handling a fault leaves the view as it is, that a fault is answered, and that a reset makes the view the module's
  initial image, so that the lazy region keeps the contract of the eager one.
\<close>

section \<open>The system interface\<close>

datatype uffd_error = U_ENOENT | U_Failed string

text \<open>\<open>um_woken\<close> are the ranges whose waiting threads have been woken; \<open>um_clock\<close> changes with the calls, so that a repeated call may
  end differently.\<close>

record uffd_mem =
  um_byte :: "u64 \<Rightarrow> u8"
  um_present :: "u64 \<Rightarrow> bool"
  um_woken :: "(u64 \<times> usize) list"
  um_clock :: nat

record uffd_ops =
  uf_zeropage :: "u64 \<Rightarrow> usize \<Rightarrow> bool \<Rightarrow> uffd_mem \<Rightarrow> (uffd_error, unit) rresult \<times> uffd_mem"
  uf_copy :: "u8 list \<Rightarrow> u64 \<Rightarrow> usize \<Rightarrow> bool \<Rightarrow> uffd_mem \<Rightarrow> (uffd_error, unit) rresult \<times> uffd_mem"
  uf_wake :: "u64 \<Rightarrow> usize \<Rightarrow> uffd_mem \<Rightarrow> (uffd_error, unit) rresult \<times> uffd_mem"
  uf_dontneed :: "u64 \<Rightarrow> usize \<Rightarrow> uffd_mem \<Rightarrow> bool \<times> uffd_mem"

definition same_pages :: "uffd_mem \<Rightarrow> uffd_mem \<Rightarrow> bool" where
  "same_pages m m' \<longleftrightarrow> um_byte m' = um_byte m \<and> um_present m' = um_present m"

definition woken :: "bool \<Rightarrow> u64 \<Rightarrow> usize \<Rightarrow> uffd_mem \<Rightarrow> (u64 \<times> usize) list" where
  "woken wake a n m = (if wake then (a, n) # um_woken m else um_woken m)"

text \<open>The ioctls of userfaultfd(2) fill a range only when all of it is missing. When they fail with \<open>ENOENT\<close>, or on a single page, they have changed
  nothing; after another failure on several pages some of these may have been filled. \<open>madvise\<close> with
  \<open>MADV_DONTNEED\<close> makes the pages of a range missing.\<close>

locale uffd_memory =
  fixes ops :: uffd_ops
  assumes zeropage_ok: "uf_zeropage ops a n wake m = (Ok u, m') \<Longrightarrow>
      (\<forall>x. in_range a n x \<longrightarrow> \<not> um_present m x) \<and>
      um_present m' = (\<lambda>x. in_range a n x \<or> um_present m x) \<and>
      um_byte m' = (\<lambda>x. if in_range a n x then 0 else um_byte m x) \<and> um_woken m' = woken wake a n m"
    and zeropage_err: "uf_zeropage ops a n wake m = (Err e, m') \<Longrightarrow> n = 4096 \<or> e = U_ENOENT \<Longrightarrow> same_pages m m'"
    and copy_ok: "uf_copy ops p a n wake m = (Ok u, m') \<Longrightarrow> length p = unat n \<Longrightarrow>
      (\<forall>x. in_range a n x \<longrightarrow> \<not> um_present m x) \<and>
      um_present m' = (\<lambda>x. in_range a n x \<or> um_present m x) \<and>
      um_byte m' = (\<lambda>x. if in_range a n x then p ! unat (x - a) else um_byte m x) \<and> um_woken m' = woken wake a n m"
    and copy_err: "uf_copy ops p a n wake m = (Err e, m') \<Longrightarrow> n = 4096 \<or> e = U_ENOENT \<Longrightarrow> same_pages m m'"
    and wake_ok: "uf_wake ops a n m = (Ok u, m') \<Longrightarrow> same_pages m m' \<and> um_woken m' = woken True a n m"
    and wake_err: "uf_wake ops a n m = (Err e, m') \<Longrightarrow> same_pages m m'"
    and no_panic: "uf_zeropage ops a n wake m \<noteq> (Panic msg, m')" "uf_copy ops p a n wake m \<noteq> (Panic msg, m')" "uf_wake ops a n m \<noteq> (Panic msg, m')"
    and dontneed_ok: "uf_dontneed ops a n m = (True, m') \<Longrightarrow>
      um_present m' = (\<lambda>x. um_present m x \<and> \<not> in_range a n x) \<and> (\<forall>x. \<not> in_range a n x \<longrightarrow> um_byte m' x = um_byte m x)"
    and dontneed_err: "uf_dontneed ops a n m = (False, m') \<Longrightarrow> same_pages m m'"

section \<open>Configuration and region\<close>

datatype disposition = Eager | Lazy

datatype heap_page_size = HPS_Host | HPS_Wasm

record uffd_config =
  uc_heap_page_size :: heap_page_size
  uc_heap_init :: disposition
  uc_stack_init :: disposition
  uc_abort_on_handler_error :: bool
  uc_enoent_retry_limit :: nat

definition uffd_config_default :: uffd_config where
  "uffd_config_default =
     \<lparr>uc_heap_page_size = HPS_Wasm, uc_heap_init = Lazy, uc_stack_init = Lazy, uc_abort_on_handler_error = False,
      uc_enoent_retry_limit = 4\<rparr>"

record uffd_region =
  ur_id :: nat
  ur_config :: uffd_config
  ur_start :: u64
  ur_limits :: limits
  ur_freelist :: "slot list"
  ur_instance_capacity :: nat

definition uffd_free_slots :: "uffd_region \<Rightarrow> nat" where
  "uffd_free_slots r = length (ur_freelist r)"

definition uffd_used_slots :: "uffd_region \<Rightarrow> nat" where
  "uffd_used_slots r = ur_instance_capacity r - uffd_free_slots r"

section \<open>Filling pages\<close>

function zeropage :: "uffd_ops \<Rightarrow> u64 \<Rightarrow> usize \<Rightarrow> bool \<Rightarrow> nat \<Rightarrow> nat \<Rightarrow> uffd_mem \<Rightarrow> (uffd_error, unit) rresult \<times> uffd_mem" where
  "zeropage ops start len wake retry_limit retries m =
     (case uf_zeropage ops start len wake m of
        (Err U_ENOENT, m') \<Rightarrow>
          if retries + 1 \<ge> retry_limit then (Err U_ENOENT, m')
          else zeropage ops start len wake retry_limit (retries + 1) m'
      | res \<Rightarrow> res)"
  by pat_completeness auto
termination by (relation "measure (\<lambda>(_, _, _, _, limit, retries, _). limit - retries)") auto

function copy_page :: "uffd_ops \<Rightarrow> u8 list \<Rightarrow> u64 \<Rightarrow> usize \<Rightarrow> bool \<Rightarrow> nat \<Rightarrow> nat \<Rightarrow> uffd_mem \<Rightarrow> (uffd_error, unit) rresult \<times> uffd_mem" where
  "copy_page ops src dst len wake retry_limit retries m =
     (case uf_copy ops src dst len wake m of
        (Err U_ENOENT, m') \<Rightarrow>
          if retries + 1 \<ge> retry_limit then (Err U_ENOENT, m')
          else copy_page ops src dst len wake retry_limit (retries + 1) m'
      | res \<Rightarrow> res)"
  by pat_completeness auto
termination by (relation "measure (\<lambda>(_, _, _, _, _, limit, retries, _). limit - retries)") auto

declare zeropage.simps [simp del] copy_page.simps [simp del]

text \<open>\<open>map_err(|e| Error::InternalError(e.into()))\<close>.\<close>

definition internal :: "(uffd_error, unit) rresult \<times> uffd_mem \<Rightarrow> unit run_res \<times> uffd_mem" where
  "internal r = (map_err (\<lambda>_. InternalError ''userfaultfd error'') (fst r), snd r)"

definition and_then :: "unit run_res \<times> uffd_mem \<Rightarrow> (uffd_mem \<Rightarrow> unit run_res \<times> uffd_mem) \<Rightarrow> unit run_res \<times> uffd_mem" where
  "and_then r f = (case r of (Ok _, m) \<Rightarrow> f m | (e, m) \<Rightarrow> (e, m))"

text \<open>The body both strategies share: copy the module's page, or zero the page.\<close>

definition fill_page :: "uffd_ops \<Rightarrow> uffd_config \<Rightarrow> module_ops \<Rightarrow> nat \<Rightarrow> u64 \<Rightarrow> bool \<Rightarrow> uffd_mem \<Rightarrow> unit run_res \<times> uffd_mem" where
  "fill_page ops config module pages_into_heap addr wake m =
     internal
       (case mo_sparse_page module pages_into_heap of
          Some page \<Rightarrow> copy_page ops page addr host_page_size wake (uc_enoent_retry_limit config) 0 m
        | None \<Rightarrow> zeropage ops addr host_page_size wake (uc_enoent_retry_limit config) 0 m)"

definition stack_fault :: "uffd_ops \<Rightarrow> uffd_config \<Rightarrow> u64 \<Rightarrow> uffd_mem \<Rightarrow> unit run_res \<times> uffd_mem" where
  "stack_fault ops config fault_page m = internal (zeropage ops fault_page host_page_size True (uc_enoent_retry_limit config) 0 m)"

definition host_heap_fault :: "uffd_ops \<Rightarrow> uffd_config \<Rightarrow> module_ops \<Rightarrow> alloc \<Rightarrow> u64 \<Rightarrow> uffd_mem \<Rightarrow> unit run_res \<times> uffd_mem" where
  "host_heap_fault ops config module al fault_page m =
     (case alloc_slot al of
        Ok s \<Rightarrow> fill_page ops config module (unat ((fault_page - slot_heap s) div host_page_size)) fault_page True m
      | Err e \<Rightarrow> (Err e, m)
      | Panic p \<Rightarrow> (Panic p, m))"

fun wasm_page_loop ::
  "uffd_ops \<Rightarrow> uffd_config \<Rightarrow> module_ops \<Rightarrow> alloc \<Rightarrow> u64 \<Rightarrow> nat \<Rightarrow> nat list \<Rightarrow> uffd_mem \<Rightarrow> unit run_res \<times> uffd_mem" where
  "wasm_page_loop ops config module al wasm_page_base_addr base_pages_into_heap [] m = (Ok (), m)"
| "wasm_page_loop ops config module al wasm_page_base_addr base_pages_into_heap (page_num # rest) m =
     (let pages_into_heap = base_pages_into_heap + page_num;
          host_page_addr = wasm_page_base_addr + of_nat page_num * host_page_size
      in case addr_location al host_page_addr of
           Ok loc \<Rightarrow>
             if loc \<noteq> Heap then (Ok (), m)
             else and_then (fill_page ops config module pages_into_heap host_page_addr False m)
                    (wasm_page_loop ops config module al wasm_page_base_addr base_pages_into_heap rest)
         | Err e \<Rightarrow> (Err e, m)
         | Panic p \<Rightarrow> (Panic p, m))"

definition wasm_heap_fault :: "uffd_ops \<Rightarrow> uffd_config \<Rightarrow> module_ops \<Rightarrow> alloc \<Rightarrow> u64 \<Rightarrow> uffd_mem \<Rightarrow> unit run_res \<times> uffd_mem" where
  "wasm_heap_fault ops config module al fault_page m =
     (case alloc_slot_opt al of
        None \<Rightarrow> (Panic ''unwrap on None'', m)
      | Some s \<Rightarrow>
          let rel_fault_addr = fault_page - slot_heap s;
              rel_wasm_page_base_addr = rel_fault_addr - rel_fault_addr mod ucast WASM_PAGE_SIZE;
              wasm_page_base_addr = slot_heap s + rel_wasm_page_base_addr;
              base_pages_into_heap = unat (rel_wasm_page_base_addr div host_page_size);
              host_pages_per_wasm_page = unat (ucast WASM_PAGE_SIZE div host_page_size :: u64)
          in and_then
               (wasm_page_loop ops config module al wasm_page_base_addr base_pages_into_heap [0..<host_pages_per_wasm_page] m)
               (\<lambda>m. internal (uf_wake ops wasm_page_base_addr (ucast WASM_PAGE_SIZE) m)))"

section \<open>Answering a page fault\<close>

text \<open>\<open>insts\<close> gives the instance whose page starts at an address, when its magic is valid.\<close>

definition page_fault_handler ::
  "uffd_ops \<Rightarrow> uffd_config \<Rightarrow> limits \<Rightarrow> u64 \<Rightarrow> nat \<Rightarrow> (u64 \<Rightarrow> (module_ops \<times> alloc) option) \<Rightarrow> u64 \<Rightarrow> uffd_mem \<Rightarrow> unit run_res \<times> uffd_mem" where
  "page_fault_handler ops config l region_start instance_capacity insts fault_addr m =
     (let fault_page = fault_addr - fault_addr mod host_page_size in
      case total_memory_size l of
        Err e \<Rightarrow> (Err e, m)
      | Panic p \<Rightarrow> (Panic p, m)
      | Ok instance_size \<Rightarrow>
          if \<not> (fault_addr \<ge> region_start \<and> fault_addr < region_start + instance_size * of_nat instance_capacity)
          then (Err (InternalError ''fault addr outside uffd region''), m)
          else
            let fault_offs = fault_addr - region_start;
                fault_base = fault_offs - fault_offs mod instance_size;
                inst_base = region_start + fault_base
            in if inst_base = 0 then (Err (InternalError ''instance pointer is non-null''), m)
               else (case insts inst_base of
                   None \<Rightarrow> (Err (InternalError ''instance magic incorrect''), m)
                 | Some (module, al) \<Rightarrow>
                     (case addr_location al fault_addr of
                        Err e \<Rightarrow> (Err e, m)
                      | Panic p \<Rightarrow> (Panic p, m)
                      | Ok loc \<Rightarrow>
                          (case loc of
                             Stack \<Rightarrow>
                               (case uc_stack_init config of
                                  Lazy \<Rightarrow> internal (zeropage ops fault_page host_page_size True (uc_enoent_retry_limit config) 0 m)
                                | Eager \<Rightarrow> (Err (InternalError ''fault in eagerly initialized stack should be unreachable''), m))
                           | Heap \<Rightarrow>
                               (case uc_heap_page_size config of
                                  HPS_Host \<Rightarrow> host_heap_fault ops config module al fault_page m
                                | HPS_Wasm \<Rightarrow> wasm_heap_fault ops config module al fault_page m)
                           | _ \<Rightarrow> internal (uf_wake ops fault_page host_page_size m)))))"

text \<open>What \<open>poll\<close> and \<open>read_event\<close> report in one round of the worker's loop.\<close>

datatype worker_round =
    WR_PollError | WR_Timeout | WR_PipeError | WR_PipeReadable | WR_UnexpectedFlags | WR_ReadError | WR_NoEvent
  | WR_OtherEvent | WR_Pagefault u64

fun uffd_worker_thread ::
  "(u64 \<Rightarrow> uffd_mem \<Rightarrow> unit run_res \<times> uffd_mem) \<Rightarrow> worker_round list \<Rightarrow> uffd_mem \<Rightarrow> (unit run_res \<times> uffd_mem) option" where
  "uffd_worker_thread handler [] m = None"
| "uffd_worker_thread handler (WR_PollError # rest) m = Some (Err nix_error, m)"
| "uffd_worker_thread handler (WR_Timeout # rest) m = uffd_worker_thread handler rest m"
| "uffd_worker_thread handler (WR_PipeError # rest) m = Some (Err (InternalError ''pipe event error''), m)"
| "uffd_worker_thread handler (WR_PipeReadable # rest) m = Some (Ok (), m)"
| "uffd_worker_thread handler (WR_UnexpectedFlags # rest) m = Some (Err (InternalError ''unexpected uffd event flags''), m)"
| "uffd_worker_thread handler (WR_ReadError # rest) m = Some (Err (InternalError ''error reading event from uffd''), m)"
| "uffd_worker_thread handler (WR_NoEvent # rest) m = Some (Err (InternalError ''uffd had POLLIN set, but could not be read''), m)"
| "uffd_worker_thread handler (WR_OtherEvent # rest) m = Some (Err (InternalError ''unexpected uffd event''), m)"
| "uffd_worker_thread handler (WR_Pagefault addr # rest) m =
     (case handler addr m of
        (Ok _, m) \<Rightarrow> uffd_worker_thread handler rest m
      | (e, m) \<Rightarrow> Some (e, m))"

section \<open>The region's operations\<close>

definition uffd_drop_alloc :: "uffd_ops \<Rightarrow> uffd_region \<Rightarrow> alloc \<Rightarrow> uffd_mem \<Rightarrow> unit run_res \<times> uffd_region \<times> alloc \<times> uffd_mem" where
  "uffd_drop_alloc ops region al m =
     (case alloc_slot_opt al of
        None \<Rightarrow> (Panic ''alloc didn't have a slot during drop; dropped twice?'', region, al, m)
      | Some s \<Rightarrow>
          let al = al\<lparr>alloc_slot_opt := None\<rparr> in
          if slot_heap s mod host_page_size \<noteq> 0 then (Panic ''heap is not page-aligned'', region, al, m)
          else (case total_memory_size (slot_limits s) of
              Ok total_size \<Rightarrow>
                (case uf_dontneed ops (slot_start s + instance_heap_offset) (total_size - instance_heap_offset) m of
                   (True, m) \<Rightarrow> (Ok (), region\<lparr>ur_freelist := ur_freelist region @ [s]\<rparr>, al, m)
                 | (False, m) \<Rightarrow> (Panic ''madvise succeeds during drop'', region, al, m))
            | Err e \<Rightarrow> (Err e, region, al, m)
            | Panic p \<Rightarrow> (Panic p, region, al, m)))"

definition uffd_expand_heap :: "slot \<Rightarrow> u32 \<Rightarrow> u32 \<Rightarrow> uffd_mem \<Rightarrow> unit run_res \<times> uffd_mem" where
  "uffd_expand_heap s start len m = (Ok (), m)"

definition uffd_reset_heap :: "uffd_ops \<Rightarrow> alloc \<Rightarrow> module_ops \<Rightarrow> uffd_mem \<Rightarrow> unit run_res \<times> alloc \<times> uffd_mem" where
  "uffd_reset_heap ops al module m =
     (case alloc_slot al of
        Err e \<Rightarrow> (Err e, al, m)
      | Panic p \<Rightarrow> (Panic p, al, m)
      | Ok s \<Rightarrow>
          (case (if heap_accessible_size al > 0 then uf_dontneed ops (slot_heap s) (heap_accessible_size al) m else (True, m)) of
             (False, m) \<Rightarrow> (Err nix_error, al, m)
           | (True, m) \<Rightarrow>
               (Ok (), al\<lparr>heap_accessible_size := heap_initial_size module,
                  heap_inaccessible_size := heap_address_space_size (slot_limits s) - heap_initial_size module\<rparr>, m)))"

text \<open>What \<open>new_instance_with\<close> does before it calls \<open>new_instance_handle\<close>: the slot, its initialized sections and the allocation.\<close>

fun zero_sections :: "uffd_ops \<Rightarrow> uffd_config \<Rightarrow> (u64 \<times> usize) list \<Rightarrow> uffd_mem \<Rightarrow> unit run_res \<times> uffd_mem" where
  "zero_sections ops config [] m = (Ok (), m)"
| "zero_sections ops config ((ptr, len) # rest) m =
     (if len > 0 then
        (case zeropage ops ptr len True (uc_enoent_retry_limit config) 0 m of
           (Ok _, m) \<Rightarrow> zero_sections ops config rest m
         | (_, m) \<Rightarrow> (Panic ''zeropage succeeds'', m))
      else zero_sections ops config rest m)"

fun write_pages :: "module_ops \<Rightarrow> u64 \<Rightarrow> nat list \<Rightarrow> uffd_mem \<Rightarrow> unit run_res \<times> uffd_mem" where
  "write_pages module heap_ptr [] m = (Ok (), m)"
| "write_pages module heap_ptr (k # ks) m =
     (case mo_sparse_page module k of
        None \<Rightarrow> write_pages module heap_ptr ks m
      | Some init_contents \<Rightarrow>
          if length init_contents \<noteq> unat host_page_size then (Panic ''source slice length does not match destination slice length'', m)
          else
            let page_addr = heap_ptr + of_nat k * host_page_size in
            write_pages module heap_ptr ks
              (m\<lparr>um_byte := (\<lambda>x. if in_range page_addr host_page_size x then init_contents ! unat (x - page_addr) else um_byte m x)\<rparr>))"

definition eager_heap :: "uffd_ops \<Rightarrow> uffd_config \<Rightarrow> module_ops \<Rightarrow> slot \<Rightarrow> uffd_mem \<Rightarrow> unit run_res \<times> uffd_mem" where
  "eager_heap ops config module s m =
     (case (uc_heap_init config, mo_heap_spec module) of
        (Eager, Some hs) \<Rightarrow>
          if initial_size hs mod host_page_size \<noteq> 0 then (Panic ''initial heap is page divisible'', m)
          else and_then (internal (zeropage ops (slot_heap s) (initial_size hs) False (uc_enoent_retry_limit config) 0 m))
                 (write_pages module (slot_heap s) [0..<unat (initial_size hs div host_page_size)])
      | _ \<Rightarrow> (Ok (), m))"

definition uffd_prepare_instance ::
  "uffd_ops \<Rightarrow> (nat \<Rightarrow> nat) \<Rightarrow> uffd_region \<Rightarrow> new_instance_args \<Rightarrow> uffd_mem \<Rightarrow> alloc run_res \<times> uffd_region \<times> uffd_mem" where
  "uffd_prepare_instance ops gen_range region args m =
     (let l = ur_limits region; config = ur_config region in
      case rbind (validate_runtime_spec (na_module args) l (na_heap_memory_size_limit args)) (\<lambda>_.
           rbind (alloc_strategy_next gen_range (na_alloc_strategy args) (length (ur_freelist region)) (ur_instance_capacity region))
           (\<lambda>k. swap_remove k (ur_freelist region))) of
        Err e \<Rightarrow> (Err e, region, m)
      | Panic p \<Rightarrow> (Panic p, region, m)
      | Ok (s, freelist) \<Rightarrow>
          let region = region\<lparr>ur_freelist := freelist\<rparr> in
          if slot_heap s mod host_page_size \<noteq> 0 then (Panic ''heap must be page-aligned'', region, m)
          else (case and_then
              (zero_sections ops config
                ([(slot_globals s, globals_size l), (slot_sigstack s, signal_stack_size l)] @
                 (if uc_stack_init config = Eager then [(slot_stack s, stack_size l)] else [])) m)
              (eager_heap ops config (na_module args) s) of
              (Ok _, m) \<Rightarrow>
                (Ok \<lparr>heap_accessible_size = heap_initial_size (na_module args),
                     heap_inaccessible_size = heap_address_space_size (slot_limits s),
                     heap_memory_size_limit = na_heap_memory_size_limit args, alloc_slot_opt = Some s\<rparr>, region, m)
            | (Err e, m) \<Rightarrow> (Err e, region, m)
            | (Panic p, m) \<Rightarrow> (Panic p, region, m)))"

definition uffd_create_slot :: "uffd_ops \<Rightarrow> uffd_region \<Rightarrow> nat \<Rightarrow> uffd_mem \<Rightarrow> slot run_res \<times> uffd_mem" where
  "uffd_create_slot ops region index m =
     (let l = ur_limits region in
      case total_memory_size l of
        Err e \<Rightarrow> (Err e, m)
      | Panic p \<Rightarrow> (Panic p, m)
      | Ok total_size \<Rightarrow>
          let start = ur_start region + of_nat index * total_size;
              heap = start + instance_heap_offset;
              stack = heap + heap_address_space_size l + host_page_size;
              globals = stack + stack_size l;
              sigstack = globals + globals_size l + host_page_size
          in (case internal (zeropage ops start host_page_size True (uc_enoent_retry_limit (ur_config region)) 0 m) of
                (Ok _, m) \<Rightarrow> (Ok \<lparr>slot_start = start, slot_heap = heap, slot_stack = stack, slot_globals = globals,
                                slot_sigstack = sigstack, slot_limits = l, slot_region = ur_id region\<rparr>, m)
              | (Err e, m) \<Rightarrow> (Err e, m)
              | (Panic p, m) \<Rightarrow> (Panic p, m)))"

fun uffd_create_slots :: "uffd_ops \<Rightarrow> nat list \<Rightarrow> uffd_region \<Rightarrow> uffd_mem \<Rightarrow> uffd_region run_res \<times> uffd_mem" where
  "uffd_create_slots ops [] region m = (Ok region, m)"
| "uffd_create_slots ops (i # is) region m =
     (case uffd_create_slot ops region i m of
        (Ok s, m) \<Rightarrow> uffd_create_slots ops is (region\<lparr>ur_freelist := ur_freelist region @ [s]\<rparr>) m
      | (Err e, m) \<Rightarrow> (Err e, m)
      | (Panic p, m) \<Rightarrow> (Panic p, m))"

text \<open>\<open>uffd_new\<close> stands for the creation of the userfaultfd object, and \<open>uffd_setup\<close> for the mapping, its registration and the start of
  the worker thread: it gives the start of the mapping, all of whose pages are missing.\<close>

definition uffd_create ::
  "uffd_ops \<Rightarrow> unit run_res \<Rightarrow> (usize \<Rightarrow> uffd_mem \<Rightarrow> u64 run_res \<times> uffd_mem) \<Rightarrow> nat \<Rightarrow> nat \<Rightarrow> limits \<Rightarrow> uffd_config \<Rightarrow> uffd_mem \<Rightarrow>
    uffd_region run_res \<times> uffd_mem" where
  "uffd_create ops uffd_new uffd_setup rid instance_capacity l config m =
     (if instance_capacity = 0 then (Err (InvalidArgument ''region must be able to hold at least one instance''), m)
      else (case rbind (limits_validate l) (\<lambda>_. rbind uffd_new (\<lambda>_. total_memory_size l)) of
          Err e \<Rightarrow> (Err e, m)
        | Panic p \<Rightarrow> (Panic p, m)
        | Ok total_size \<Rightarrow>
            (case checked_mul (of_nat instance_capacity) total_size of
               None \<Rightarrow> (Err (InvalidArgument ''requested region size too large''), m)
             | Some total_region_size \<Rightarrow>
                 (case uffd_setup total_region_size m of
                    (Ok start, m) \<Rightarrow>
                      uffd_create_slots ops [0..<instance_capacity]
                        \<lparr>ur_id = rid, ur_config = config, ur_start = start, ur_limits = l, ur_freelist = [],
                         ur_instance_capacity = instance_capacity\<rparr> m
                  | (Err e, m) \<Rightarrow> (Err e, m)
                  | (Panic p, m) \<Rightarrow> (Panic p, m)))))"

section \<open>What a guest sees\<close>

text \<open>What the handler puts into a missing page of a slot: the module's page data in the heap, and zeros everywhere else.\<close>

definition lazy_byte :: "module_ops \<Rightarrow> slot \<Rightarrow> u64 \<Rightarrow> u8" where
  "lazy_byte mo s a =
     (if in_range (slot_heap s) (heap_address_space_size (slot_limits s)) a then
        (case mo_sparse_page mo (unat (a - slot_heap s) div 4096) of
           Some p \<Rightarrow> p ! (unat (a - slot_heap s) mod 4096) | None \<Rightarrow> 0)
      else 0)"

definition view :: "module_ops \<Rightarrow> slot \<Rightarrow> uffd_mem \<Rightarrow> u64 \<Rightarrow> u8" where
  "view mo s m a = (if um_present m a then um_byte m a else lazy_byte mo s a)"

section \<open>Lemmas\<close>

definition filled :: "u64 \<Rightarrow> usize \<Rightarrow> (u64 \<Rightarrow> u8) \<Rightarrow> uffd_mem \<Rightarrow> uffd_mem \<Rightarrow> bool" where
  "filled a n f m m' \<longleftrightarrow> (\<forall>x. in_range a n x \<longrightarrow> \<not> um_present m x) \<and>
     um_present m' = (\<lambda>x. in_range a n x \<or> um_present m x) \<and> um_byte m' = (\<lambda>x. if in_range a n x then f x else um_byte m x)"

lemma same_pages_refl [simp]: "same_pages m m"
  by (simp add: same_pages_def)

lemma same_pages_trans: "same_pages m m' \<Longrightarrow> same_pages m' m'' \<Longrightarrow> same_pages m m''"
  by (simp add: same_pages_def)

lemma filled_same: "same_pages m m1 \<Longrightarrow> filled a n f m1 m' \<Longrightarrow> filled a n f m m'"
  by (auto simp: same_pages_def filled_def fun_eq_iff)

lemma same_view: "same_pages m m' \<Longrightarrow> view mo s m' = view mo s m"
  by (simp add: same_pages_def view_def fun_eq_iff)

lemma filled_view:
  assumes "filled a n f m m'" and "\<And>x. in_range a n x \<Longrightarrow> f x = lazy_byte mo s x"
  shows "view mo s m' = view mo s m"
  using assms by (auto simp: filled_def view_def fun_eq_iff)

context uffd_memory
begin

lemma zeropage_cases:
  "zeropage ops a n wake lim k m = (r, m') \<Longrightarrow>
     (r = Ok () \<and> filled a n (\<lambda>_. 0) m m' \<and> (wake \<longrightarrow> (a, n) \<in> set (um_woken m'))) \<or> (\<exists>e. r = Err e \<and> (n = 4096 \<longrightarrow> same_pages m m'))"
proof (induction "lim - k" arbitrary: k m rule: less_induct)
  case less
  obtain q m1 where c: "uf_zeropage ops a n wake m = (q, m1)" by fastforce
  note unf = less.prems [unfolded zeropage.simps [of ops a n wake lim k m] c]
  show ?case
  proof (cases q)
    case (Ok u)
    with unf c zeropage_ok [of a n wake m u m1] show ?thesis by (auto simp: filled_def woken_def)
  next
    case (Err e)
    then have same: "n = 4096 \<or> e = U_ENOENT \<Longrightarrow> same_pages m m1" using c zeropage_err by blast
    show ?thesis
    proof (cases "e = U_ENOENT \<and> \<not> k + 1 \<ge> lim")
      case True
      then have "zeropage ops a n wake lim (k + 1) m1 = (r, m')" using unf Err by simp
      moreover have "lim - (k + 1) < lim - k" using True by auto
      ultimately show ?thesis using less.hyps [of "k + 1" m1] True filled_same [OF same] same_pages_trans [OF same] by blast
    next
      case False
      then show ?thesis using unf Err same by (cases e) (auto split: if_splits)
    qed
  next
    case (Panic p)
    with c no_panic show ?thesis by blast
  qed
qed

lemma copy_page_cases:
  assumes "length p = unat n"
  shows "copy_page ops p a n wake lim k m = (r, m') \<Longrightarrow>
     (r = Ok () \<and> filled a n (\<lambda>x. p ! unat (x - a)) m m' \<and> (wake \<longrightarrow> (a, n) \<in> set (um_woken m'))) \<or> (\<exists>e. r = Err e \<and> (n = 4096 \<longrightarrow> same_pages m m'))"
proof (induction "lim - k" arbitrary: k m rule: less_induct)
  case less
  obtain q m1 where c: "uf_copy ops p a n wake m = (q, m1)" by fastforce
  note unf = less.prems [unfolded copy_page.simps [of ops p a n wake lim k m] c]
  show ?case
  proof (cases q)
    case (Ok u)
    with unf c copy_ok [of p a n wake m u m1, OF _ assms] show ?thesis by (auto simp: filled_def woken_def)
  next
    case (Err e)
    then have same: "n = 4096 \<or> e = U_ENOENT \<Longrightarrow> same_pages m m1" using c copy_err by blast
    show ?thesis
    proof (cases "e = U_ENOENT \<and> \<not> k + 1 \<ge> lim")
      case True
      then have "copy_page ops p a n wake lim (k + 1) m1 = (r, m')" using unf Err by simp
      moreover have "lim - (k + 1) < lim - k" using True by auto
      ultimately show ?thesis using less.hyps [of "k + 1" m1] True filled_same [OF same] same_pages_trans [OF same] by blast
    next
      case False
      then show ?thesis using unf Err same by (cases e) (auto split: if_splits)
    qed
  next
    case (Panic q)
    with c no_panic show ?thesis by blast
  qed
qed

end

subsection \<open>Pages of the heap and the stack\<close>

lemma host_page_size_4096: "host_page_size = (4096 :: u64)"
  by (simp add: host_page_size_def)

text \<open>The bytes of the \<open>k\<close>th page of the heap, at the offset \<open>ofs\<close>.\<close>

lemma heap_page_offset:
  assumes "unat ofs = 4096 * k" and "4096 * k + 4096 \<le> unat HAS" and "in_range (h + ofs) 4096 x"
  shows "unat (x - h) = 4096 * k + unat (x - (h + ofs))" and "unat (x - (h + ofs)) < 4096" and "in_range h HAS x"
proof -
  show d: "unat (x - (h + ofs)) < 4096" using assms(3) by (simp add: in_range_def word_less_nat_alt)
  have "unat (ofs + (x - (h + ofs))) = unat ofs + unat (x - (h + ofs))"
    using assms(1,2) d unat_lt64 [of HAS] by (intro unat_add_small) (simp del: unat_lt64)
  then show e: "unat (x - h) = 4096 * k + unat (x - (h + ofs))" using assms(1) by simp
  show "in_range h HAS x" using d assms(2) unfolding in_range_def word_less_nat_alt e by simp
qed

lemma lazy_byte_page:
  assumes "unat ofs = 4096 * k" and "4096 * k + 4096 \<le> unat (heap_address_space_size (slot_limits s))" and "in_range (slot_heap s + ofs) 4096 x"
  shows "lazy_byte mo s x = (case mo_sparse_page mo k of Some p \<Rightarrow> p ! unat (x - (slot_heap s + ofs)) | None \<Rightarrow> 0)"
proof -
  note off = heap_page_offset [OF assms]
  have "unat (x - slot_heap s) div 4096 = k" "unat (x - slot_heap s) mod 4096 = unat (x - (slot_heap s + ofs))"
    unfolding off(1) using off(2) by simp_all
  then show ?thesis using off(3) unfolding lazy_byte_def by (simp split: option.split)
qed

definition page_filled :: "module_ops \<Rightarrow> slot \<Rightarrow> u64 \<Rightarrow> uffd_mem \<Rightarrow> uffd_mem \<Rightarrow> bool" where
  "page_filled mo s a m m' \<longleftrightarrow> view mo s m' = view mo s m \<and> um_present m' = (\<lambda>x. in_range a 4096 x \<or> um_present m x)"

context uffd_memory
begin

lemma fill_page_cases:
  assumes "fill_page ops config mo k (slot_heap s + ofs) wake m = (r, m')" and "module_pages_ok mo"
    and "unat ofs = 4096 * k" and "4096 * k + 4096 \<le> unat (heap_address_space_size (slot_limits s))"
  shows "(r = Ok () \<and> page_filled mo s (slot_heap s + ofs) m m' \<and>
      (wake \<longrightarrow> (slot_heap s + ofs, 4096) \<in> set (um_woken m'))) \<or> (\<exists>e. r = Err e \<and> same_pages m m')"
proof (cases "mo_sparse_page mo k")
  case None
  obtain q where z: "zeropage ops (slot_heap s + ofs) 4096 wake (uc_enoent_retry_limit config) 0 m = (q, m')"
    and r: "r = map_err (\<lambda>_. InternalError ''userfaultfd error'') q"
    using assms(1) None by (cases "zeropage ops (slot_heap s + ofs) 4096 wake (uc_enoent_retry_limit config) 0 m")
      (auto simp: fill_page_def internal_def host_page_size_4096)
  from zeropage_cases [OF z] show ?thesis
  proof (elim disjE conjE exE)
    assume f: "filled (slot_heap s + ofs) 4096 (\<lambda>_. 0) m m'"
    then have "view mo s m' = view mo s m" by (rule filled_view) (simp add: lazy_byte_page [OF assms(3,4)] None)
    moreover assume "q = Ok ()" "wake \<longrightarrow> (slot_heap s + ofs, 4096) \<in> set (um_woken m')"
    ultimately show ?thesis using r f by (simp add: page_filled_def filled_def)
  qed (use r in simp)
next
  case (Some p)
  have len: "length p = unat (4096 :: usize)" using assms(2) Some by (simp add: module_pages_ok_def)
  obtain q where z: "copy_page ops p (slot_heap s + ofs) 4096 wake (uc_enoent_retry_limit config) 0 m = (q, m')"
    and r: "r = map_err (\<lambda>_. InternalError ''userfaultfd error'') q"
    using assms(1) Some by (cases "copy_page ops p (slot_heap s + ofs) 4096 wake (uc_enoent_retry_limit config) 0 m")
      (auto simp: fill_page_def internal_def host_page_size_4096)
  from copy_page_cases [OF len z] show ?thesis
  proof (elim disjE conjE exE)
    assume f: "filled (slot_heap s + ofs) 4096 (\<lambda>x. p ! unat (x - (slot_heap s + ofs))) m m'"
    then have "view mo s m' = view mo s m" by (rule filled_view) (simp add: lazy_byte_page [OF assms(3,4)] Some)
    moreover assume "q = Ok ()" "wake \<longrightarrow> (slot_heap s + ofs, 4096) \<in> set (um_woken m')"
    ultimately show ?thesis using r f by (simp add: page_filled_def filled_def)
  qed (use r in simp)
qed

end

text \<open>An address in the accessible heap lies in a page of it.\<close>

lemma heap_page_fits:
  assumes inv: "alloc_inv al" and s: "alloc_slot_opt al = Some s" and loc: "location al s (slot_heap s + ofs) = Heap" and al: "unat ofs = 4096 * k"
  shows "4096 * k + 4096 \<le> unat (heap_address_space_size (slot_limits s))" and "ofs < heap_accessible_size al"
proof -
  have wf: "slot_wf s" and sum: "unat (heap_accessible_size al) + unat (heap_inaccessible_size al) = unat (heap_address_space_size (slot_limits s))"
    using inv s by (auto simp: alloc_inv_def)
  show o: "ofs < heap_accessible_size al" using loc location_ranges(1) [OF inv s, of "slot_heap s + ofs"] by (simp add: in_range_def)
  have "4096 dvd unat (heap_address_space_size (slot_limits s))"
    using slot_wf_aligned(5) [OF wf] by (simp add: page_aligned_unat mod_eq_0_iff_dvd)
  then obtain n where "unat (heap_address_space_size (slot_limits s)) = 4096 * n" by blast
  moreover have "4096 * k < unat (heap_address_space_size (slot_limits s))" using o sum al by (simp add: word_less_nat_alt)
  ultimately show "4096 * k + 4096 \<le> unat (heap_address_space_size (slot_limits s))" by simp
qed

lemma stack_page_lazy:
  assumes inv: "alloc_inv al" and s: "alloc_slot_opt al = Some s" and st: "in_range (slot_stack s) (stack_size (slot_limits s)) x"
  shows "lazy_byte mo s x = 0"
  using location_ranges(2,3) [OF inv s, of x] st by (simp add: lazy_byte_def)

lemma heap_page_location:
  assumes inv: "alloc_inv al" and s: "alloc_slot_opt al = Some s" and acc: "page_aligned (heap_accessible_size al)"
    and loc: "location al s (slot_heap s + ofs) = Heap" and al: "unat ofs = 4096 * k" and x: "in_range (slot_heap s + ofs) 4096 x"
  shows "location al s x = Heap"
proof -
  obtain n where n: "unat (heap_accessible_size al) = 4096 * n" using acc by (auto simp: page_aligned_unat)
  have "4096 * k < unat (heap_accessible_size al)" using heap_page_fits(2) [OF inv s loc al] al by (simp add: word_less_nat_alt)
  then have "4096 * k + 4096 \<le> unat (heap_accessible_size al)" using n by simp
  from heap_page_offset(3) [OF al this x] show ?thesis using location_ranges(1) [OF inv s] by blast
qed

text \<open>What a step adds to the present pages lies in the accessible heap or the stack.\<close>

definition adds_only :: "alloc \<Rightarrow> slot \<Rightarrow> uffd_mem \<Rightarrow> uffd_mem \<Rightarrow> bool" where
  "adds_only al s m m' \<longleftrightarrow> (\<forall>x. um_present m x \<longrightarrow> um_present m' x) \<and>
     (\<forall>x. um_present m' x \<longrightarrow> um_present m x \<or> location al s x \<in> {Heap, Stack})"

lemma adds_only_same [simp]: "same_pages m m' \<Longrightarrow> adds_only al s m m'"
  by (simp add: same_pages_def adds_only_def)

lemma adds_only_trans: "adds_only al s m m' \<Longrightarrow> adds_only al s m' m'' \<Longrightarrow> adds_only al s m m''"
  unfolding adds_only_def by blast

lemma adds_only_heap_page:
  assumes "alloc_inv al" and "alloc_slot_opt al = Some s" and "page_aligned (heap_accessible_size al)"
    and "location al s (slot_heap s + ofs) = Heap" and "unat ofs = 4096 * k" and "page_filled mo s (slot_heap s + ofs) m m'"
  shows "adds_only al s m m'"
  using heap_page_location [OF assms(1-5)] assms(6) by (auto simp: page_filled_def adds_only_def)

context uffd_memory
begin

lemma wasm_loop_cases:
  fixes base :: u64
  assumes pages: "module_pages_ok mo" and inv: "alloc_inv al" and s: "alloc_slot_opt al = Some s" and acc: "page_aligned (heap_accessible_size al)"
    and base: "\<And>n. n \<in> set ns \<Longrightarrow> unat (base + of_nat n * 4096) = 4096 * (bk + n)"
    and run: "wasm_page_loop ops config mo al (slot_heap s + base) bk ns m = (r, m')"
  shows "view mo s m' = view mo s m \<and> adds_only al s m m' \<and> (\<forall>p. r \<noteq> Panic p) \<and>
    (r = Ok () \<longrightarrow> (\<forall>ns1 j ns2. ns = ns1 @ j # ns2 \<longrightarrow> (\<forall>n \<in> set (ns1 @ [j]). location al s (slot_heap s + (base + of_nat n * 4096)) = Heap) \<longrightarrow>
       (\<forall>x. in_range (slot_heap s + (base + of_nat j * 4096)) 4096 x \<longrightarrow> um_present m' x)))"
  using base run
proof (induction ns arbitrary: m)
  case Nil
  then show ?case by auto
next
  case (Cons n ns)
  let ?a = "slot_heap s + (base + of_nat n * 4096)"
  have eq: "slot_heap s + base + of_nat n * host_page_size = ?a" by (simp add: host_page_size_4096)
  have loc: "addr_location al ?a = Ok (location al s ?a)" using addr_location_locate [OF inv s] by (simp add: location_def)
  have ofs: "unat (base + of_nat n * 4096) = 4096 * (bk + n)" using Cons.prems(1) by simp
  show ?case
  proof (cases "location al s ?a = Heap")
    case False
    then have "r = Ok ()" "m' = m" using Cons.prems(2) loc eq by (simp_all add: Let_def)
    with False show ?thesis by (auto simp: append_eq_Cons_conv Cons_eq_append_conv)
  next
    case True
    obtain q m1 where f: "fill_page ops config mo (bk + n) ?a False m = (q, m1)" by fastforce
    have run: "(r, m') = and_then (q, m1) (wasm_page_loop ops config mo al (slot_heap s + base) bk ns)"
      using Cons.prems(2) True loc eq f by (simp add: Let_def)
    from fill_page_cases [OF f pages ofs heap_page_fits(1) [OF inv s True ofs]] show ?thesis
    proof (elim disjE conjE exE)
      assume q: "q = Ok ()" and pf: "page_filled mo s ?a m m1"
      then have rest: "wasm_page_loop ops config mo al (slot_heap s + base) bk ns m1 = (r, m')" using run by (simp add: and_then_def)
      note ih = Cons.IH [OF Cons.prems(1) rest, OF list.set_intros(2)]
      have add: "adds_only al s m m1" by (rule adds_only_heap_page [OF inv s acc True ofs pf])
      have new: "um_present m' x" if "in_range ?a 4096 x" for x
        using ih pf that by (simp add: page_filled_def adds_only_def)
      show ?thesis using ih pf new adds_only_trans [OF add]
        by (auto simp: page_filled_def Cons_eq_append_conv) blast
    next
      fix e assume "q = Err e" "same_pages m m1"
      then show ?thesis using run same_view [of m m1] by (auto simp: and_then_def)
    qed
  qed
qed

end

subsection \<open>The page of a fault\<close>

lemma fault_page_aligned:
  fixes a :: u64
  shows "unat (a - a mod host_page_size) = 4096 * (unat a div 4096)" and "in_range (a - a mod host_page_size) 4096 a"
proof -
  have m: "unat (a mod host_page_size) = unat a mod 4096" by (simp add: unat_mod host_page_size_4096)
  then have "a mod host_page_size \<le> a" by (simp add: word_le_nat_alt)
  then have "unat (a - a mod host_page_size) = unat a - unat a mod 4096" using m by (simp add: unat_sub)
  then show "unat (a - a mod host_page_size) = 4096 * (unat a div 4096)" by (simp add: minus_mod_eq_mult_div)
  have "a - (a - a mod host_page_size) = a mod host_page_size" by simp
  then show "in_range (a - a mod host_page_size) 4096 a" by (simp add: in_range_def word_less_nat_alt m)
qed

text \<open>The page of an address above a page-aligned base.\<close>

lemma fault_page_offset:
  fixes a h :: u64
  assumes "page_aligned h" and "unat h \<le> unat a"
  shows "\<exists>k. unat (a - a mod host_page_size - h) = 4096 * k \<and> 4096 * k \<le> unat a - unat h"
proof -
  let ?fp = "a - a mod host_page_size"
  obtain n where n: "unat h = 4096 * n" using assms(1) by (auto simp: page_aligned_unat)
  have fp: "unat ?fp = 4096 * (unat a div 4096)" by (rule fault_page_aligned)
  have "n \<le> unat a div 4096" using assms(2) n by (metis div_le_mono nonzero_mult_div_cancel_left zero_neq_numeral)
  then have le: "unat h \<le> unat ?fp" using n fp by simp
  then have "unat (?fp - h) = unat ?fp - unat h" by (simp add: unat_sub word_le_nat_alt)
  then have "unat (?fp - h) = 4096 * (unat a div 4096 - n)" using n fp by (simp add: diff_mult_distrib2)
  moreover have "unat ?fp \<le> unat a" using fp by simp
  ultimately show ?thesis using n fp by (metis diff_le_mono diff_mult_distrib2)
qed

lemma heap_fault_page:
  assumes inv: "alloc_inv al" and s: "alloc_slot_opt al = Some s" and loc: "location al s a = Heap"
  obtains k where "unat (a - a mod host_page_size - slot_heap s) = 4096 * k" "location al s (a - a mod host_page_size) = Heap"
    "4096 * k + 4096 \<le> unat (heap_address_space_size (slot_limits s))"
proof -
  have wf: "slot_wf s" using inv s by (auto simp: alloc_inv_def)
  have r: "unat (slot_heap s) \<le> unat a" "unat a < unat (slot_heap s) + unat (heap_accessible_size al)"
    using loc by (auto simp: location_def slot_sections_def locate_iff)
  obtain k where k: "unat (a - a mod host_page_size - slot_heap s) = 4096 * k" "4096 * k \<le> unat a - unat (slot_heap s)"
    using fault_page_offset [OF slot_wf_aligned(1) [OF wf] r(1)] by blast
  have "in_range (slot_heap s) (heap_accessible_size al) (a - a mod host_page_size)"
    using k r by (simp add: in_range_def word_less_nat_alt)
  then have h: "location al s (a - a mod host_page_size) = Heap" using location_ranges(1) [OF inv s] by blast
  then show thesis using that [OF k(1) h] heap_page_fits(1) [OF inv s _ k(1)] by simp
qed

text \<open>The WebAssembly page of a fault: its host pages, and the one of the fault among them.\<close>

lemma wasm_page_of:
  fixes rel :: u64
  assumes "unat rel = 4096 * k"
  defines "base \<equiv> rel - rel mod ucast WASM_PAGE_SIZE"
  shows "unat (base div host_page_size) = 16 * (k div 16)"
    and "n < 16 \<Longrightarrow> unat (base + of_nat n * 4096) = 4096 * (16 * (k div 16) + n)"
    and "base + of_nat (k mod 16) * 4096 = rel"
    and "unat d < 4096 \<Longrightarrow> in_range base (ucast WASM_PAGE_SIZE) (rel + d)"
proof -
  have w: "(ucast WASM_PAGE_SIZE :: u64) = 65536" by (simp add: WASM_PAGE_SIZE_def)
  have m: "unat (rel mod ucast WASM_PAGE_SIZE) = 4096 * (k mod 16)"
    using assms(1) mult_mod_right [of 4096 k 16] by (simp add: w unat_mod)
  have "rel mod ucast WASM_PAGE_SIZE \<le> rel" using m assms(1) by (simp add: word_le_nat_alt)
  then have b: "unat base = 4096 * (16 * (k div 16))"
    using assms(1) m minus_mod_eq_mult_div [of k 16] by (simp add: base_def unat_sub diff_mult_distrib2 [symmetric])
  show "unat (base div host_page_size) = 16 * (k div 16)" using b by (simp add: unat_div host_page_size_4096)
  show u: "unat (base + of_nat n * 4096) = 4096 * (16 * (k div 16) + n)" if "n < 16" for n
  proof -
    have n: "unat (of_nat n * 4096 :: u64) = 4096 * n"
      using that by (simp add: unat_word_ariths unat_of_nat)
    have "unat base < 2 ^ 64" by (simp del: unat_lt64 add: unat_lt64 [simplified])
    then have "k div 16 < 2 ^ 48" using b by simp
    then have "unat base + 4096 * n < 2 ^ 64" using b that by simp
    then show ?thesis using n b by (simp add: unat_add_small)
  qed
  have "unat (base + of_nat (k mod 16) * 4096) = unat rel" using u [of "k mod 16"] assms(1) by simp
  then show r: "base + of_nat (k mod 16) * 4096 = rel" by (simp only: word_unat_eq_iff)
  show "in_range base (ucast WASM_PAGE_SIZE) (rel + d)" if "unat d < 4096"
  proof -
    have "k mod 16 < 16" by simp
    then have "unat (of_nat (k mod 16) * 4096 :: u64) = 4096 * (k mod 16)" by (simp add: unat_word_ariths unat_of_nat)
    then have "unat (of_nat (k mod 16) * 4096 + d) = 4096 * (k mod 16) + unat d" using that \<open>k mod 16 < 16\<close> by (simp add: unat_add_small)
    then have "unat (of_nat (k mod 16) * 4096 + d) < 65536" using that \<open>k mod 16 < 16\<close> by linarith
    moreover have "rel + d - base = of_nat (k mod 16) * 4096 + d" unfolding r [symmetric] by simp
    ultimately show ?thesis unfolding in_range_def w word_less_nat_alt by (simp only:) simp
  qed
qed

definition fault_answered :: "module_ops \<Rightarrow> alloc \<Rightarrow> slot \<Rightarrow> u64 \<Rightarrow> unit run_res \<Rightarrow> uffd_mem \<Rightarrow> uffd_mem \<Rightarrow> bool" where
  "fault_answered mo al s a r m m' \<longleftrightarrow> view mo s m' = view mo s m \<and> adds_only al s m m' \<and> (\<forall>p. r \<noteq> Panic p) \<and>
     (r = Ok () \<longrightarrow> um_present m' a \<and> (\<exists>(b, n) \<in> set (um_woken m'). in_range b n a))"

context uffd_memory
begin

lemma host_fault_answered:
  assumes inv: "alloc_inv al" and s: "alloc_slot_opt al = Some s" and acc: "page_aligned (heap_accessible_size al)"
    and loc: "location al s a = Heap" and pages: "module_pages_ok mo"
    and run: "host_heap_fault ops config mo al (a - a mod host_page_size) m = (r, m')"
  shows "fault_answered mo al s a r m m'"
proof -
  let ?fp = "a - a mod host_page_size"
  obtain k where k: "unat (?fp - slot_heap s) = 4096 * k" "4096 * k + 4096 \<le> unat (heap_address_space_size (slot_limits s))"
    and fp: "location al s ?fp = Heap" using heap_fault_page [OF inv s loc] by blast
  have "unat ((?fp - slot_heap s) div host_page_size) = k" using k(1) by (simp add: unat_div host_page_size_4096)
  then have "fill_page ops config mo k (slot_heap s + (?fp - slot_heap s)) True m = (r, m')"
    using run s by (simp add: host_heap_fault_def alloc_slot_def)
  from fill_page_cases [OF this pages k] show ?thesis
    using fault_page_aligned(2) [of a] same_view [of m m'] adds_only_heap_page [OF inv s acc _ k(1), of mo m m'] fp
    by (auto simp: fault_answered_def page_filled_def)
qed

lemma wasm_fault_answered:
  assumes inv: "alloc_inv al" and s: "alloc_slot_opt al = Some s" and acc: "page_aligned (heap_accessible_size al)"
    and loc: "location al s a = Heap" and pages: "module_pages_ok mo"
    and run: "wasm_heap_fault ops config mo al (a - a mod host_page_size) m = (r, m')"
  shows "fault_answered mo al s a r m m'"
proof -
  let ?fp = "a - a mod host_page_size" and ?w = "ucast WASM_PAGE_SIZE :: u64"
  let ?rel = "?fp - slot_heap s"
  let ?base = "?rel - ?rel mod ?w"
  obtain k where k: "unat ?rel = 4096 * k" and fp: "location al s ?fp = Heap"
    using heap_fault_page [OF inv s loc] by blast
  note wp = wasm_page_of [OF k]
  have w16: "unat (?w div host_page_size) = 16" by (simp add: WASM_PAGE_SIZE_def host_page_size_4096)
  obtain q m1 where l: "wasm_page_loop ops config mo al (slot_heap s + ?base) (16 * (k div 16)) [0..<16] m = (q, m1)" by fastforce
  have r: "(r, m') = and_then (q, m1) (\<lambda>m. internal (uf_wake ops (slot_heap s + ?base) ?w m))"
    using run s l wp(1) w16 by (simp add: wasm_heap_fault_def Let_def)
  have lc: "view mo s m1 = view mo s m" "adds_only al s m m1" "\<forall>p. q \<noteq> Panic p"
    and filled: "q = Ok () \<longrightarrow> (\<forall>ns1 j ns2. [0..<16] = ns1 @ j # ns2 \<longrightarrow>
      (\<forall>n \<in> set (ns1 @ [j]). location al s (slot_heap s + (?base + of_nat n * 4096)) = Heap) \<longrightarrow>
      (\<forall>x. in_range (slot_heap s + (?base + of_nat j * 4096)) 4096 x \<longrightarrow> um_present m1 x))"
    using wasm_loop_cases [OF pages inv s acc _ l] wp(2) by auto
  have split: "[0..<16] = [0..<k mod 16] @ k mod 16 # [Suc (k mod 16)..<16]"
  proof -
    have "k mod 16 < 16" by simp
    then have "[0..<16] = [0..<k mod 16] @ [k mod 16..<16]" using upt_add_eq_append [of 0 "k mod 16" "16 - k mod 16"] by simp
    with \<open>k mod 16 < 16\<close> show ?thesis by (simp add: upt_conv_Cons)
  qed
  have heap: "location al s (slot_heap s + (?base + of_nat n * 4096)) = Heap" if "n \<le> k mod 16" for n
  proof -
    have "n < 16" "k mod 16 < 16" using that by (auto intro: le_less_trans)
    moreover have "16 * (k div 16) + n \<le> k" using that div_mult_mod_eq [of k 16] by linarith
    ultimately have "unat (?base + of_nat n * 4096) \<le> unat ?rel" using wp(2) [of n] k by simp
    then have "?base + of_nat n * 4096 \<le> ?rel" unfolding word_le_nat_alt .
    moreover have "?rel < heap_accessible_size al" using heap_page_fits(2) [OF inv s _ k] fp by simp
    ultimately have "in_range (slot_heap s) (heap_accessible_size al) (slot_heap s + (?base + of_nat n * 4096))"
      unfolding in_range_def add_diff_cancel_left' by (rule le_less_trans)
    then show ?thesis using location_ranges(1) [OF inv s] by blast
  qed
  have present: "um_present m1 a" if "q = Ok ()"
  proof -
    have "\<forall>n \<in> set ([0..<k mod 16] @ [k mod 16]). location al s (slot_heap s + (?base + of_nat n * 4096)) = Heap"
    proof
      fix n assume "n \<in> set ([0..<k mod 16] @ [k mod 16])"
      then have "n \<le> k mod 16" by auto
      then show "location al s (slot_heap s + (?base + of_nat n * 4096)) = Heap" by (rule heap)
    qed
    with filled that split have "\<forall>x. in_range (slot_heap s + (?base + of_nat (k mod 16) * 4096)) 4096 x \<longrightarrow> um_present m1 x" by blast
    moreover have "slot_heap s + (?base + of_nat (k mod 16) * 4096) = ?fp" unfolding wp(3) by simp
    ultimately show ?thesis using fault_page_aligned(2) [of a] by simp
  qed
  show ?thesis
  proof (cases q)
    case (Ok u)
    obtain q2 m2 where wk: "uf_wake ops (slot_heap s + ?base) ?w m1 = (q2, m2)" by fastforce
    have d: "unat (a mod host_page_size) < 4096" by (simp add: unat_mod host_page_size_4096)
    have "in_range (slot_heap s + ?base) ?w a \<longleftrightarrow> in_range ?base ?w (?rel + a mod host_page_size)"
      by (simp add: in_range_def algebra_simps)
    then have cov: "in_range (slot_heap s + ?base) ?w a" using wp(4) [OF d] by simp
    show ?thesis
    proof (cases q2)
      case ok2: (Ok u2)
      then have "same_pages m1 m2" "um_woken m2 = woken True (slot_heap s + ?base) ?w m1" using wk wake_ok by blast+
      then show ?thesis using r Ok ok2 wk lc present cov same_view [of m1 m2] adds_only_trans [OF lc(2), of m2] adds_only_same [of m1 m2 al s]
        by (auto simp: fault_answered_def and_then_def internal_def woken_def same_pages_def)
    next
      case (Err e)
      then have "same_pages m1 m2" using wk wake_err by blast
      then show ?thesis using r Ok Err wk lc same_view [of m1 m2] adds_only_trans [OF lc(2), of m2] adds_only_same [of m1 m2 al s]
        by (auto simp: fault_answered_def and_then_def internal_def)
    next
      case (Panic p)
      then show ?thesis using wk no_panic by blast
    qed
  next
    case (Err e)
    then show ?thesis using r lc by (auto simp: fault_answered_def and_then_def)
  qed (use lc in simp)
qed

end

text \<open>The slot with a number in the region, and the instance the handler finds for an address in it.\<close>

definition slot_in_region :: "u64 \<Rightarrow> limits \<Rightarrow> nat \<Rightarrow> slot \<Rightarrow> bool" where
  "slot_in_region region_start l instance_capacity s \<longleftrightarrow> slot_limits s = l \<and> 0 < unat region_start \<and>
     unat region_start + slot_bytes l * instance_capacity < 2 ^ 64 \<and>
     (\<exists>k < instance_capacity. unat (slot_start s) = unat region_start + k * slot_bytes l)"

lemma fault_inst_base:
  assumes reg: "slot_in_region rs l cap s" and size: "total_memory_size l = Ok isz"
    and a: "unat (slot_start s) \<le> unat a" "unat a < unat (slot_start s) + slot_bytes l"
  shows "rs \<le> a \<and> a < rs + isz * of_nat cap" and "rs + ((a - rs) - (a - rs) mod isz) = slot_start s"
proof -
  have sz: "unat isz = slot_bytes l" "0 < slot_bytes l" using size total_memory_size_Ok by (auto simp: slot_bytes_def)
  obtain k where k: "k < cap" "unat (slot_start s) = unat rs + k * slot_bytes l"
    and fit: "unat rs + slot_bytes l * cap < 2 ^ 64" using reg by (auto simp: slot_in_region_def)
  have "1 * cap \<le> slot_bytes l * cap" using sz(2) by (intro mult_le_mono1) simp
  then have "cap < 2 ^ 64" using fit by linarith
  then have c: "unat (of_nat cap :: u64) = cap" by (simp add: unat_of_nat)
  have prod: "unat (isz * of_nat cap) = slot_bytes l * cap" using fit sz(1) c by (subst unat_mult_small) simp_all
  have top: "unat (rs + isz * of_nat cap) = unat rs + slot_bytes l * cap" using fit prod by (simp add: unat_add_small)
  have "Suc k * slot_bytes l \<le> cap * slot_bytes l" using k(1) by (intro mult_le_mono1) simp
  then have lt: "unat a < unat rs + slot_bytes l * cap" using a(2) k(2) by (simp add: mult.commute)
  have le: "rs \<le> a" using a(1) k(2) by (simp add: word_le_nat_alt)
  with lt top show "rs \<le> a \<and> a < rs + isz * of_nat cap" by (simp add: word_less_nat_alt)
  obtain d where d: "unat a = unat rs + k * slot_bytes l + d" "d < slot_bytes l"
    using a k(2) by (metis add.assoc add_less_cancel_left le_Suc_ex)
  have off: "unat (a - rs) = k * slot_bytes l + d" using le d(1) by (simp add: unat_sub)
  then have "unat ((a - rs) mod isz) = d" using d(2) sz(1) by (simp add: unat_mod)
  moreover then have "(a - rs) mod isz \<le> a - rs" using off by (simp add: word_le_nat_alt)
  ultimately have "unat ((a - rs) - (a - rs) mod isz) = k * slot_bytes l" using off by (simp add: unat_sub)
  then have "unat (rs + ((a - rs) - (a - rs) mod isz)) = unat (slot_start s)"
    using k(2) unat_lt64 [of "slot_start s"] by (subst unat_add_small) (simp_all del: unat_lt64 diff_add_eq add_diff_eq)
  then show "rs + ((a - rs) - (a - rs) mod isz) = slot_start s" by (simp only: word_unat_eq_iff)
qed

context uffd_memory
begin

lemma stack_fault_answered:
  assumes inv: "alloc_inv al" and s: "alloc_slot_opt al = Some s" and loc: "location al s a = Stack"
    and run: "internal (zeropage ops (a - a mod host_page_size) host_page_size True lim 0 m) = (r, m')"
  shows "fault_answered mo al s a r m m'"
proof -
  let ?fp = "a - a mod host_page_size"
  have wf: "slot_wf s" using inv s by (auto simp: alloc_inv_def)
  have st: "in_range (slot_stack s) (stack_size (slot_limits s)) a" using location_ranges(3) [OF inv s] loc by blast
  have r: "unat (slot_stack s) \<le> unat a" "unat a < unat (slot_stack s) + unat (stack_size (slot_limits s))"
    using st slot_wf_unat [OF wf] by (auto simp: in_range_nat)
  obtain k where k: "unat (?fp - slot_stack s) = 4096 * k" "4096 * k \<le> unat a - unat (slot_stack s)"
    using fault_page_offset [OF slot_wf_aligned(2) [OF wf] r(1)] by blast
  obtain n where n: "unat (stack_size (slot_limits s)) = 4096 * n" using slot_wf_aligned(6) [OF wf] by (auto simp: page_aligned_unat)
  have "4096 * k < 4096 * n" using k(2) r n by linarith
  then have "4096 * k + 4096 \<le> unat (stack_size (slot_limits s))" using n by simp
  from heap_page_offset(3) [OF k(1) this, of "slot_stack s"]
  have zero: "0 = lazy_byte mo s x" and stk: "location al s x = Stack" if "in_range ?fp 4096 x" for x
    using stack_page_lazy [OF inv s, of x mo] location_ranges(3) [OF inv s, of x] that by simp_all
  obtain q where z: "zeropage ops ?fp host_page_size True lim 0 m = (q, m')" and rq: "r = map_err (\<lambda>_. InternalError ''userfaultfd error'') q"
    using run by (cases "zeropage ops ?fp host_page_size True lim 0 m") (auto simp: internal_def)
  from zeropage_cases [OF z] show ?thesis
  proof (elim disjE conjE exE)
    assume f: "filled ?fp host_page_size (\<lambda>_. 0) m m'" and w: "True \<longrightarrow> (?fp, host_page_size) \<in> set (um_woken m')" and q: "q = Ok ()"
    have "view mo s m' = view mo s m" by (rule filled_view [OF f]) (simp add: zero host_page_size_4096)
    moreover have "adds_only al s m m'" using f stk by (auto simp: filled_def adds_only_def host_page_size_4096)
    ultimately show ?thesis using f w q rq fault_page_aligned(2) [of a]
      by (auto simp: fault_answered_def filled_def host_page_size_4096)
  next
    fix e assume "q = Err e" "host_page_size = (4096 :: u64) \<longrightarrow> same_pages m m'"
    then show ?thesis using rq same_view by (simp add: fault_answered_def host_page_size_4096)
  qed
qed

lemma wake_fault:
  assumes "internal (uf_wake ops (a - a mod host_page_size) host_page_size m) = (r, m')"
  shows "same_pages m m' \<and> (\<forall>p. r \<noteq> Panic p) \<and> (r = Ok () \<longrightarrow> (\<exists>(b, n) \<in> set (um_woken m'). in_range b n a))"
proof -
  obtain q where w: "uf_wake ops (a - a mod host_page_size) host_page_size m = (q, m')" and rq: "r = map_err (\<lambda>_. InternalError ''userfaultfd error'') q"
    using assms by (cases "uf_wake ops (a - a mod host_page_size) host_page_size m") (auto simp: internal_def)
  show ?thesis
  proof (cases q)
    case (Ok u)
    with wake_ok w rq fault_page_aligned(2) [of a] show ?thesis by (fastforce simp: woken_def host_page_size_4096)
  next
    case (Err e)
    with wake_err w rq show ?thesis by auto
  next
    case (Panic p)
    with w no_panic show ?thesis by blast
  qed
qed

end

lemma total_memory_size_wf: "slot_wf s \<Longrightarrow> total_memory_size (slot_limits s) = Ok (of_nat (slot_bytes (slot_limits s)))"
  by (simp add: total_memory_size_Ok slot_wf_def unat_of_nat)

lemma handler_location:
  assumes inv: "alloc_inv al" and s: "alloc_slot_opt al = Some s" and reg: "slot_in_region rs l cap s"
    and inst: "insts (slot_start s) = Some (mo, al)" and a: "in_slot s a"
  shows "page_fault_handler ops config l rs cap insts a m =
    (let fault_page = a - a mod host_page_size in
     case location al s a of
       Stack \<Rightarrow> (case uc_stack_init config of
           Lazy \<Rightarrow> internal (zeropage ops fault_page host_page_size True (uc_enoent_retry_limit config) 0 m)
         | Eager \<Rightarrow> (Err (InternalError ''fault in eagerly initialized stack should be unreachable''), m))
     | Heap \<Rightarrow> (case uc_heap_page_size config of
           HPS_Host \<Rightarrow> host_heap_fault ops config mo al fault_page m
         | HPS_Wasm \<Rightarrow> wasm_heap_fault ops config mo al fault_page m)
     | _ \<Rightarrow> internal (uf_wake ops fault_page host_page_size m))"
proof -
  have wf: "slot_wf s" using inv s by (auto simp: alloc_inv_def)
  have l: "slot_limits s = l" and pos: "0 < unat (slot_start s)" using reg by (auto simp: slot_in_region_def)
  have tot: "total_memory_size l = Ok (of_nat (slot_bytes l))" using total_memory_size_wf [OF wf] l by simp
  have r: "unat (slot_start s) \<le> unat a" "unat a < unat (slot_start s) + slot_bytes l"
    using a slot_wf_unat(1) [OF wf] l by (auto simp: in_slot_def)
  note b = fault_inst_base [OF reg tot r]
  have "slot_start s \<noteq> 0" using pos by auto
  moreover have "addr_location al a = Ok (location al s a)" using addr_location_locate [OF inv s] by (simp add: location_def)
  ultimately show ?thesis using tot b inst
    by (simp only: page_fault_handler_def Let_def rresult.case not_False_eq_True if_True if_False simp_thms option.case prod.case)
qed

text \<open>The guard pages and the inaccessible heap stay missing.\<close>

definition guards_missing :: "uffd_mem \<Rightarrow> alloc \<Rightarrow> slot \<Rightarrow> bool" where
  "guards_missing m al s \<longleftrightarrow> (\<forall>a. location al s a \<in> {InaccessibleHeap, StackGuard, SigStackGuard} \<longrightarrow> \<not> um_present m a)"

lemma adds_only_guards: "adds_only al s m m' \<Longrightarrow> guards_missing m al s \<Longrightarrow> guards_missing m' al s"
  unfolding adds_only_def guards_missing_def by (metis addr_location.distinct insert_iff singletonD)

context uffd_memory
begin

lemma handler_answers:
  assumes pages: "module_pages_ok mo" and inv: "alloc_inv al" and s: "alloc_slot_opt al = Some s"
    and acc: "page_aligned (heap_accessible_size al)" and reg: "slot_in_region rs l cap s"
    and inst: "insts (slot_start s) = Some (mo, al)" and a: "in_slot s a"
    and run: "page_fault_handler ops config l rs cap insts a m = (r, m')"
  shows "view mo s m' = view mo s m \<and> adds_only al s m m' \<and> (\<forall>p. r \<noteq> Panic p) \<and>
    (location al s a \<notin> {Heap, Stack} \<longrightarrow> same_pages m m') \<and>
    (r = Ok () \<longrightarrow> (\<exists>(b, n) \<in> set (um_woken m'). in_range b n a) \<and> (location al s a \<in> {Heap, Stack} \<longrightarrow> um_present m' a))"
proof -
  let ?fp = "a - a mod host_page_size"
  note h = run [unfolded handler_location [where insts = insts, OF inv s reg inst a] Let_def]
  consider (stack) "location al s a = Stack" | (heap) "location al s a = Heap" | (other) "location al s a \<notin> {Heap, Stack}" by blast
  then show ?thesis
  proof cases
    case stack
    show ?thesis
    proof (cases "uc_stack_init config")
      case Lazy
      then have "internal (zeropage ops ?fp host_page_size True (uc_enoent_retry_limit config) 0 m) = (r, m')" using h stack by simp
      from stack_fault_answered [OF inv s stack this, of mo] show ?thesis using stack by (simp add: fault_answered_def)
    next
      case Eager
      then show ?thesis using h stack by auto
    qed
  next
    case heap
    have "fault_answered mo al s a r m m'"
      using h heap host_fault_answered [OF inv s acc heap pages] wasm_fault_answered [OF inv s acc heap pages]
      by (cases "uc_heap_page_size config") simp_all
    then show ?thesis using heap by (simp add: fault_answered_def)
  next
    case other
    then have "internal (uf_wake ops ?fp host_page_size m) = (r, m')" using h by (cases "location al s a") simp_all
    from wake_fault [OF this] show ?thesis using other same_view [of m m'] by auto
  qed
qed

end

subsection \<open>Resetting and dropping\<close>

lemma reset_guards:
  assumes inv: "alloc_inv al" "alloc_inv al'" and s: "alloc_slot_opt al = Some s" "alloc_slot_opt al' = Some s"
    and guards: "guards_missing m al s" and heap: "\<And>a. in_range (slot_heap s) (heap_address_space_size (slot_limits s)) a \<Longrightarrow> \<not> um_present m' a"
    and keep: "\<And>a. \<not> in_range (slot_heap s) (heap_address_space_size (slot_limits s)) a \<Longrightarrow> um_present m' a = um_present m a"
  shows "guards_missing m' al' s"
  unfolding guards_missing_def
proof (intro allI impI)
  fix a assume loc: "location al' s a \<in> {InaccessibleHeap, StackGuard, SigStackGuard}"
  show "\<not> um_present m' a"
  proof (cases "in_range (slot_heap s) (heap_address_space_size (slot_limits s)) a")
    case False
    have "unat (heap_accessible_size al') + unat (heap_inaccessible_size al') = unat (heap_accessible_size al) + unat (heap_inaccessible_size al)"
      using inv s by (simp add: alloc_inv_def)
    moreover have "location al' s a \<noteq> InaccessibleHeap" using False location_ranges(2) [OF inv(2) s(2), of a] by blast
    ultimately have "location al s a \<in> {StackGuard, SigStackGuard}"
      using loc by (auto simp: location_def slot_sections_def locate_iff)
    then show ?thesis using guards keep [OF False] unfolding guards_missing_def by auto
  qed (rule heap)
qed

lemma in_range_of_nat:
  fixes h n :: u64
  assumes "off < unat n"
  shows "in_range h n (h + of_nat off)" and "unat (h + of_nat off - h) = off"
proof -
  have "off < 18446744073709551616" using assms unat_lt64 [of n] by linarith
  then show u: "unat (h + of_nat off - h) = off" by (simp add: unat_of_nat)
  show "in_range h n (h + of_nat off)" unfolding in_range_def word_less_nat_alt u by (rule assms)
qed

lemma lazy_initial_byte:
  assumes "\<forall>i p. mo_sparse_page mo i = Some p \<longrightarrow> i < unat (heap_initial_size mo) div 4096"
    and "off < unat (heap_address_space_size (slot_limits s))"
  shows "lazy_byte mo s (slot_heap s + of_nat off) = initial_byte mo off"
  using assms(1) in_range_of_nat [OF assms(2), of "slot_heap s"]
  by (auto simp: lazy_byte_def initial_byte_def simp del: add_diff_cancel_left' split: option.split)

context uffd_memory
begin

lemma reset_raw:
  assumes s: "alloc_slot_opt al = Some s" and run: "uffd_reset_heap ops al mo m = (r, al', m')"
  shows "(r = Ok () \<and> al' = al\<lparr>heap_accessible_size := heap_initial_size mo,
        heap_inaccessible_size := heap_address_space_size (slot_limits s) - heap_initial_size mo\<rparr> \<and>
      (\<forall>a. um_present m' a \<longleftrightarrow> um_present m a \<and> \<not> in_range (slot_heap s) (heap_accessible_size al) a) \<and>
      (\<forall>a. \<not> in_range (slot_heap s) (heap_accessible_size al) a \<longrightarrow> um_byte m' a = um_byte m a)) \<or>
    (r = Err nix_error \<and> al' = al \<and> same_pages m m')"
proof (cases "heap_accessible_size al > 0")
  case True
  obtain q m1 where d: "uf_dontneed ops (slot_heap s) (heap_accessible_size al) m = (q, m1)" by fastforce
  show ?thesis
  proof (cases q)
    case True
    note ok = dontneed_ok [OF d [unfolded eqTrueI [OF True]]]
    then show ?thesis using run d True \<open>heap_accessible_size al > 0\<close> s by (auto simp: uffd_reset_heap_def alloc_slot_def)
  next
    case False
    then have "same_pages m m1" using d dontneed_err by auto
    then show ?thesis using run d False \<open>heap_accessible_size al > 0\<close> s by (auto simp: uffd_reset_heap_def alloc_slot_def)
  qed
next
  case False
  then have "heap_accessible_size al = 0" by (simp add: word_gt_0)
  then show ?thesis using run s by (auto simp: uffd_reset_heap_def alloc_slot_def in_range_def)
qed

lemma reset_effect:
  assumes inv: "alloc_inv al" and s: "alloc_slot_opt al = Some s" and guards: "guards_missing m al s"
    and n: "heap_initial_size mo \<le> heap_memory_size_limit al"
    and run: "uffd_reset_heap ops al mo m = (r, al', m')"
  shows "(r = Ok () \<and> alloc_inv al' \<and> alloc_slot_opt al' = Some s \<and> guards_missing m' al' s \<and>
      heap_accessible_size al' = heap_initial_size mo \<and>
      (\<forall>a. in_range (slot_heap s) (heap_address_space_size (slot_limits s)) a \<longrightarrow> \<not> um_present m' a) \<and>
      (\<forall>a. \<not> in_range (slot_heap s) (heap_address_space_size (slot_limits s)) a \<longrightarrow>
         um_present m' a = um_present m a \<and> um_byte m' a = um_byte m a)) \<or>
    (r = Err nix_error \<and> al' = al \<and> same_pages m m')"
  using reset_raw [OF s run]
proof (elim disjE conjE)
  let ?h = "in_range (slot_heap s) (heap_address_space_size (slot_limits s))" and ?acc = "in_range (slot_heap s) (heap_accessible_size al)"
  let ?new = "al\<lparr>heap_accessible_size := heap_initial_size mo, heap_inaccessible_size := heap_address_space_size (slot_limits s) - heap_initial_size mo\<rparr>"
  assume ok: "r = Ok ()" "al' = ?new" and eff: "\<forall>a. um_present m' a \<longleftrightarrow> um_present m a \<and> \<not> ?acc a" "\<forall>a. \<not> ?acc a \<longrightarrow> um_byte m' a = um_byte m a"
  have inaccessible: "\<not> um_present m a" if "?h a" "\<not> ?acc a" for a
    using that guards location_ranges(1,2) [OF inv s, of a] by (auto simp: guards_missing_def)
  have acc_heap: "?acc a \<Longrightarrow> ?h a" for a using location_ranges(1,2) [OF inv s, of a] by blast
  have inv': "alloc_inv ?new" by (rule reset_sizes [OF inv s n])
  have gone: "\<not> um_present m' a" if "?h a" for a using eff inaccessible that by blast
  have keep: "um_present m' a = um_present m a \<and> um_byte m' a = um_byte m a" if "\<not> ?h a" for a using eff acc_heap that by blast
  have "guards_missing m' ?new s" using gone keep by (intro reset_guards [OF inv inv' s _ guards]) (simp_all add: s)
  then show ?thesis using ok s gone keep inv' by simp
qed simp

lemma drop_effect:
  assumes wf: "slot_wf s" and s: "alloc_slot_opt al = Some s"
    and run: "uffd_drop_alloc ops region al m = (r, region', al', m')"
  shows "(r = Ok () \<and> region' = region\<lparr>ur_freelist := ur_freelist region @ [s]\<rparr> \<and> alloc_slot_opt al' = None \<and>
      (\<forall>a. in_slot s a \<longrightarrow> \<not> um_present m' a) \<and>
      (\<forall>a. \<not> in_slot s a \<longrightarrow> um_present m' a = um_present m a \<and> um_byte m' a = um_byte m a)) \<or>
    ((\<exists>p. r = Panic p) \<and> region' = region \<and> same_pages m m')"
proof -
  let ?l = "slot_limits s"
  let ?n = "of_nat (slot_bytes ?l) - instance_heap_offset :: u64"
  have fit: "unat (slot_start s) + slot_bytes ?l < 2 ^ 64" and h: "slot_heap s = slot_start s + instance_heap_offset"
    using wf by (simp_all add: slot_wf_def instance_heap_offset_def host_page_size_4096)
  have tot: "unat (of_nat (slot_bytes ?l) :: u64) = slot_bytes ?l" using fit by (simp add: unat_of_nat)
  have "(instance_heap_offset :: u64) \<le> of_nat (slot_bytes ?l)"
    using tot by (simp add: word_le_nat_alt instance_heap_offset_def host_page_size_4096 slot_bytes_def)
  then have n: "unat ?n = slot_bytes ?l - 4096" using tot by (simp add: unat_sub instance_heap_offset_def host_page_size_4096)
  have range: "in_range (slot_start s + instance_heap_offset) ?n a \<longleftrightarrow> in_slot s a" for a
    using fit slot_wf_unat(1) [OF wf] n unfolding h [symmetric] by (subst in_range_nat) (auto simp: in_slot_def slot_bytes_def)
  have al: "slot_heap s mod host_page_size = 0" using slot_wf_aligned(1) [OF wf] by (simp add: mod_host_page_size)
  obtain q m1 where d: "uf_dontneed ops (slot_start s + instance_heap_offset) ?n m = (q, m1)" by fastforce
  have eq: "uffd_drop_alloc ops region al m =
      (if q then (Ok (), region\<lparr>ur_freelist := ur_freelist region @ [s]\<rparr>, al\<lparr>alloc_slot_opt := None\<rparr>, m1)
       else (Panic ''madvise succeeds during drop'', region, al\<lparr>alloc_slot_opt := None\<rparr>, m1))"
    using s al d by (simp add: uffd_drop_alloc_def total_memory_size_wf [OF wf] Let_def)
  show ?thesis
  proof (cases q)
    case True
    note ok = dontneed_ok [OF d [unfolded eqTrueI [OF True]]]
    then show ?thesis using run eq True range by auto
  next
    case False
    then have "same_pages m m1" using d dontneed_err by auto
    then show ?thesis using run eq False by auto
  qed
qed

end

section \<open>The calls on a concrete memory\<close>

text \<open>An instance of the calls in which those at the times \<open>busy\<close> find the memory map in change.\<close>

definition linux_fill :: "(nat \<Rightarrow> bool) \<Rightarrow> u64 \<Rightarrow> usize \<Rightarrow> bool \<Rightarrow> (u64 \<Rightarrow> u8) \<Rightarrow> uffd_mem \<Rightarrow> (uffd_error, unit) rresult \<times> uffd_mem" where
  "linux_fill busy a n wake f m =
     (let m' = m\<lparr>um_clock := um_clock m + 1\<rparr> in
      if busy (um_clock m) then (Err U_ENOENT, m')
      else if \<exists>x. in_range a n x \<and> um_present m x then (Err (U_Failed ''EEXIST''), m')
      else (Ok (), m'\<lparr>um_byte := (\<lambda>x. if in_range a n x then f x else um_byte m x),
              um_present := (\<lambda>x. in_range a n x \<or> um_present m x), um_woken := woken wake a n m\<rparr>))"

definition linux_uffd :: "(nat \<Rightarrow> bool) \<Rightarrow> uffd_ops" where
  "linux_uffd busy =
     \<lparr>uf_zeropage = (\<lambda>a n wake. linux_fill busy a n wake (\<lambda>_. 0)),
      uf_copy = (\<lambda>p a n wake. linux_fill busy a n wake (\<lambda>x. p ! unat (x - a))),
      uf_wake = (\<lambda>a n m. (Ok (), m\<lparr>um_woken := woken True a n m\<rparr>)),
      uf_dontneed = (\<lambda>a n m. (True, m\<lparr>um_present := (\<lambda>x. um_present m x \<and> \<not> in_range a n x)\<rparr>))\<rparr>"

interpretation linux_uffd: uffd_memory "linux_uffd busy"
  by unfold_locales (auto simp: linux_uffd_def linux_fill_def same_pages_def woken_def Let_def split: if_splits)

section \<open>Properties\<close>

text \<open>C21: Lazy memory is transparent. When the handler answers a page fault at an address of an instance's slot, what a guest
  sees of the slot does not change, the guard pages and the inaccessible heap get no page, and nothing is filled unless the fault is in the
  accessible heap or the stack. When it succeeds, the faulting thread is woken, with the page of the fault present if it is in
  the heap or the stack. It never panics.\<close>

theorem uffd_fault_transparent:
  assumes "uffd_memory ops" and "module_pages_ok mo" and "alloc_inv al" and "alloc_slot_opt al = Some s"
    and "page_aligned (heap_accessible_size al)" and "slot_in_region region_start l instance_capacity s"
    and "insts (slot_start s) = Some (mo, al)" and "in_slot s a" and "guards_missing m al s"
    and "page_fault_handler ops config l region_start instance_capacity insts a m = (r, m')"
  shows "view mo s m' = view mo s m \<and> guards_missing m' al s \<and> (\<forall>p. r \<noteq> Panic p) \<and>
    (location al s a \<notin> {Heap, Stack} \<longrightarrow> same_pages m m') \<and>
    (r = Ok () \<longrightarrow> (\<exists>(b, n) \<in> set (um_woken m'). in_range b n a) \<and> (location al s a \<in> {Heap, Stack} \<longrightarrow> um_present m' a))"
  using uffd_memory.handler_answers [where insts = insts, OF assms(1-8,10)] adds_only_guards [OF _ assms(9)] by blast

definition demo_uffd_mem :: uffd_mem where
  "demo_uffd_mem = \<lparr>um_byte = (\<lambda>_. 9),
     um_present = (\<lambda>a. location demo_alloc demo_slot a \<in> {Globals, SigStack} \<or> (location demo_alloc demo_slot a = Heap \<and> a < 0x10002000)),
     um_woken = [], um_clock = 0\<rparr>"

definition demo_uffd_config :: uffd_config where
  "demo_uffd_config = uffd_config_default\<lparr>uc_heap_page_size := HPS_Host\<rparr>"

definition demo_insts :: "u64 \<Rightarrow> (module_ops \<times> alloc) option" where
  "demo_insts b = (if b = 0x10000000 then Some (demo_module, demo_alloc) else None)"

lemma demo_guards: "guards_missing demo_uffd_mem demo_alloc demo_slot"
  by (auto simp: guards_missing_def demo_uffd_mem_def)

lemma demo_in_region: "slot_in_region 0x10000000 limits_default 2 demo_slot"
  unfolding slot_in_region_def
  by (intro conjI exI [of _ 0]) (simp_all add: demo_slot_def limits_default_def slot_bytes_def DEFAULT_SIGNAL_STACK_SIZE_def)

lemma demo_fault_addr:
  "location demo_alloc demo_slot 0x10002000 = Heap" "in_slot demo_slot 0x10002000" "demo_insts (slot_start demo_slot) = Some (demo_module, demo_alloc)"
  "page_aligned (heap_accessible_size demo_alloc)" "slot_heap demo_slot = 0x10001000"
  by (simp_all add: location_def slot_sections_def locate_iff demo_slot_def demo_alloc_def in_slot_def slot_bytes_def limits_default_def
      demo_insts_def page_aligned_def)

lemma demo_second_page: "in_range 0x10002000 4096 x \<Longrightarrow> \<not> um_present demo_uffd_mem x"
proof -
  assume x: "in_range 0x10002000 4096 x"
  have "location demo_alloc demo_slot x = Heap"
    using heap_page_location [OF demo_inv demo_fault_addr(4), where ofs = 4096 and k = 1 and x = x] demo_fault_addr x by simp
  moreover have "\<not> x < 0x10002000"
    using x by (simp add: in_range_nat word_less_nat_alt)
  ultimately show ?thesis by (simp add: demo_uffd_mem_def)
qed

lemma linux_copy:
  "busy (um_clock m) \<Longrightarrow> uf_copy (linux_uffd busy) p a n wake m = (Err U_ENOENT, m\<lparr>um_clock := um_clock m + 1\<rparr>)"
  "\<not> busy (um_clock m) \<Longrightarrow> \<forall>x. in_range a n x \<longrightarrow> \<not> um_present m x \<Longrightarrow> fst (uf_copy (linux_uffd busy) p a n wake m) = Ok ()"
  by (auto simp: linux_uffd_def linux_fill_def Let_def)

lemma demo_copy: "fst (copy_page (linux_uffd (\<lambda>t. t < 2)) p 0x10002000 4096 True 4 0 demo_uffd_mem) = Ok ()"
proof -
  let ?ops = "linux_uffd (\<lambda>t. t < 2)" and ?m2 = "demo_uffd_mem\<lparr>um_clock := 2\<rparr>"
  have "um_clock demo_uffd_mem = 0" by (simp add: demo_uffd_mem_def)
  then have eq: "copy_page ?ops p 0x10002000 4096 True 4 0 demo_uffd_mem = copy_page ?ops p 0x10002000 4096 True 4 2 ?m2"
    by (subst copy_page.simps, subst linux_copy(1), simp, simp, subst copy_page.simps, subst linux_copy(1)) (simp_all add: numeral_2_eq_2)
  have "fst (uf_copy ?ops p 0x10002000 4096 True ?m2) = Ok ()"
    by (rule linux_copy(2)) (use demo_second_page in \<open>simp_all\<close>)
  then show ?thesis unfolding eq by (subst copy_page.simps) (auto split: prod.split)
qed

lemma demo_fault_runs:
  "\<exists>m'. page_fault_handler (linux_uffd (\<lambda>t. t < 2)) demo_uffd_config limits_default 0x10000000 2 demo_insts 0x10002000 demo_uffd_mem = (Ok (), m')"
proof -
  let ?ops = "linux_uffd (\<lambda>t. t < 2)"
  have "page_fault_handler ?ops demo_uffd_config limits_default 0x10000000 2 demo_insts 0x10002000 demo_uffd_mem =
      internal (copy_page ?ops (replicate 4096 7) 0x10002000 4096 True 4 0 demo_uffd_mem)"
    unfolding handler_location [where insts = demo_insts, OF demo_inv demo_in_region demo_fault_addr(3,2)]
    by (simp add: demo_fault_addr demo_uffd_config_def uffd_config_default_def host_heap_fault_def alloc_slot_def demo_inv fill_page_def
        host_page_size_4096 demo_page)
  then show ?thesis using demo_copy by (simp add: internal_def)
qed

lemma demo_lazy_view: "\<not> um_present demo_uffd_mem 0x10002000" "view demo_module demo_slot demo_uffd_mem 0x10002000 = 7"
proof -
  show miss: "\<not> um_present demo_uffd_mem 0x10002000" by (rule demo_second_page) (simp add: in_range_def)
  show "view demo_module demo_slot demo_uffd_mem 0x10002000 = 7"
    by (simp add: view_def miss lazy_byte_def demo_fault_addr in_range_def demo_page) (simp add: demo_slot_def limits_default_def)
qed

text \<open>The first read of the second heap page, where the first two fills find the memory map in change.\<close>

theorem uffd_fault_transparent_witness:
  "\<exists>m'. page_fault_handler (linux_uffd (\<lambda>t. t < 2)) demo_uffd_config limits_default 0x10000000 2 demo_insts 0x10002000 demo_uffd_mem = (Ok (), m') \<and>
    \<not> um_present demo_uffd_mem 0x10002000 \<and> um_present m' 0x10002000 \<and> um_byte m' 0x10002000 = 7"
proof -
  obtain m' where run: "page_fault_handler (linux_uffd (\<lambda>t. t < 2)) demo_uffd_config limits_default 0x10000000 2 demo_insts 0x10002000 demo_uffd_mem =
      (Ok (), m')" using demo_fault_runs by blast
  have "view demo_module demo_slot m' 0x10002000 = 7 \<and> um_present m' 0x10002000"
    using uffd_fault_transparent [where insts = demo_insts, OF linux_uffd.uffd_memory_axioms demo_module_hyps(1) demo_inv demo_fault_addr(4)
        demo_in_region demo_fault_addr(3,2) demo_guards run] demo_lazy_view demo_fault_addr(1) by simp
  then show ?thesis using run demo_lazy_view(1) by (auto simp: view_def)
qed

text \<open>A reset of a lazily backed heap restores the module's initial image: afterwards exactly the initial size is
  accessible, no page of the heap is present, and what a guest sees at each of its offsets is the byte of the module's page data
  there or zero; nothing else changes. The only other outcome is the system's error, with nothing changed.\<close>

theorem uffd_reset_restores_image:
  assumes "uffd_memory ops" and "alloc_inv al" and "alloc_slot_opt al = Some s" and "guards_missing m al s"
    and "heap_initial_size mo \<le> heap_memory_size_limit al"
    and "\<forall>i p. mo_sparse_page mo i = Some p \<longrightarrow> i < unat (heap_initial_size mo) div 4096"
    and "uffd_reset_heap ops al mo m = (r, al', m')"
  shows "(r = Ok () \<and> alloc_inv al' \<and> guards_missing m' al' s \<and> heap_accessible_size al' = heap_initial_size mo \<and>
      (\<forall>off < unat (heap_address_space_size (slot_limits s)).
         \<not> um_present m' (slot_heap s + of_nat off) \<and> view mo s m' (slot_heap s + of_nat off) = initial_byte mo off) \<and>
      (\<forall>a. \<not> in_range (slot_heap s) (heap_address_space_size (slot_limits s)) a \<longrightarrow>
         um_present m' a = um_present m a \<and> um_byte m' a = um_byte m a)) \<or>
    (r = Err nix_error \<and> al' = al \<and> same_pages m m')"
proof -
  have "\<not> um_present m' (slot_heap s + of_nat off) \<and> view mo s m' (slot_heap s + of_nat off) = initial_byte mo off"
    if "\<forall>a. in_range (slot_heap s) (heap_address_space_size (slot_limits s)) a \<longrightarrow> \<not> um_present m' a" "off < unat (heap_address_space_size (slot_limits s))" for off
  proof -
    have "\<not> um_present m' (slot_heap s + of_nat off)" using that in_range_of_nat [OF that(2)] by blast
    then show ?thesis using lazy_initial_byte [OF assms(6) that(2)] by (simp add: view_def)
  qed
  then show ?thesis using uffd_memory.reset_effect [OF assms(1-5,7)] by blast
qed

definition demo_uffd_region :: uffd_region where
  "demo_uffd_region = \<lparr>ur_id = 0, ur_config = uffd_config_default, ur_start = 0x10000000, ur_limits = limits_default, ur_freelist = [],
     ur_instance_capacity = 1\<rparr>"

lemma demo_first_page: "um_present demo_uffd_mem 0x10001000 \<and> um_byte demo_uffd_mem 0x10001000 = 9"
  by (simp add: demo_uffd_mem_def location_def slot_sections_def locate_iff demo_slot_def demo_alloc_def)

theorem uffd_reset_restores_image_witness:
  "\<exists>al' m'. uffd_reset_heap (linux_uffd (\<lambda>_. False)) demo_alloc demo_module demo_uffd_mem = (Ok (), al', m') \<and>
    um_present demo_uffd_mem 0x10001000 \<and> um_byte demo_uffd_mem 0x10001000 = 9 \<and> \<not> um_present m' 0x10001000 \<and>
    view demo_module demo_slot m' 0x10001000 = 0 \<and> view demo_module demo_slot m' 0x10002000 = 7"
proof -
  let ?ops = "linux_uffd (\<lambda>_. False)"
  obtain r al' m' where run: "uffd_reset_heap ?ops demo_alloc demo_module demo_uffd_mem = (r, al', m')" using prod_cases3 by blast
  have ok: "r = Ok ()"
    using run by (auto simp: uffd_reset_heap_def alloc_slot_def demo_inv linux_uffd_def split: if_splits)
  have hyps: "heap_initial_size demo_module \<le> heap_memory_size_limit demo_alloc"
    "\<forall>i p. mo_sparse_page demo_module i = Some p \<longrightarrow> i < unat (heap_initial_size demo_module) div 4096"
    by (simp_all add: demo_initial demo_alloc_def demo_page)
  have img: "\<forall>off < unat (heap_address_space_size (slot_limits demo_slot)). \<not> um_present m' (slot_heap demo_slot + of_nat off) \<and>
      view demo_module demo_slot m' (slot_heap demo_slot + of_nat off) = initial_byte demo_module off"
    using uffd_reset_restores_image [OF linux_uffd.uffd_memory_axioms demo_inv demo_guards hyps run] ok by simp
  have "\<not> um_present m' 0x10001000 \<and> view demo_module demo_slot m' 0x10001000 = 0 \<and> view demo_module demo_slot m' 0x10002000 = 7"
    using img [rule_format, of 0] img [rule_format, of 4096]
    by (simp add: demo_fault_addr initial_byte_def demo_page demo_initial) (simp add: demo_slot_def limits_default_def)
  then show ?thesis using run ok demo_first_page by blast
qed

text \<open>Isolation between the instances of the lazy region: after a drop every page of the slot beyond the instance page is
  missing, so that the next instance, of whatever module, sees its own initial image and zeros there; the slot is the last of the free
  list and no memory outside it changes. The only other outcome is a panic with nothing changed.\<close>

theorem uffd_drop_isolates:
  assumes "uffd_memory ops" and "slot_wf s" and "alloc_slot_opt al = Some s"
    and "uffd_drop_alloc ops region al m = (r, region', al', m')"
  shows "(r = Ok () \<and> region' = region\<lparr>ur_freelist := ur_freelist region @ [s]\<rparr> \<and> alloc_slot_opt al' = None \<and>
      (\<forall>mo a. in_slot s a \<longrightarrow> \<not> um_present m' a \<and> view mo s m' a = lazy_byte mo s a) \<and>
      (\<forall>a. \<not> in_slot s a \<longrightarrow> um_present m' a = um_present m a \<and> um_byte m' a = um_byte m a)) \<or>
    ((\<exists>p. r = Panic p) \<and> region' = region \<and> same_pages m m')"
  using uffd_memory.drop_effect [OF assms] by (auto simp: view_def)

theorem uffd_drop_isolates_witness:
  "\<exists>r' al' m'. uffd_drop_alloc (linux_uffd (\<lambda>_. False)) demo_uffd_region demo_alloc demo_uffd_mem = (Ok (), r', al', m') \<and>
    um_present demo_uffd_mem 0x10001000 \<and> um_byte demo_uffd_mem 0x10001000 = 9 \<and> ur_freelist r' = [demo_slot] \<and>
    view demo_module demo_slot m' 0x10001000 = 0"
proof -
  let ?ops = "linux_uffd (\<lambda>_. False)"
  obtain r r' al' m' where run: "uffd_drop_alloc ?ops demo_uffd_region demo_alloc demo_uffd_mem = (r, r', al', m')"
    using prod_cases4 by blast
  have wf: "slot_wf demo_slot" using demo_inv by (simp add: alloc_inv_def)
  have np: "r \<noteq> Panic p" for p
    using run demo_inv slot_wf_aligned(1) [OF wf]
    by (auto simp: uffd_drop_alloc_def Let_def mod_host_page_size total_memory_size_wf [OF wf] linux_uffd_def)
  have slot: "in_slot demo_slot 0x10001000" by (simp add: demo_slot_def in_slot_def slot_bytes_def limits_default_def)
  have "lazy_byte demo_module demo_slot 0x10001000 = 0" by (simp add: lazy_byte_def demo_fault_addr demo_page)
  then have "r = Ok ()" "ur_freelist r' = [demo_slot]" "view demo_module demo_slot m' 0x10001000 = 0"
    using uffd_drop_isolates [OF linux_uffd.uffd_memory_axioms wf demo_inv(2) run] np slot by (auto simp: demo_uffd_region_def)
  then show ?thesis using run demo_first_page by simp
qed

end
