(* ===== verification/Uffd_Lifecycle.thy ===== *)
theory Uffd_Lifecycle
  imports Region_Uffd
begin

text \<open>
  The life of a slot of the userfaultfd region: the creation of the region gives every slot its place and leaves its pages
  missing, and a new instance, whose heap is reset once its slot is prepared, starts from its module's initial image whatever the
  dispositions of the configuration. With the drop of \<open>Region_Uffd\<close> the cycle closes: a dropped slot is as a created one.
\<close>

section \<open>Preparing a slot\<close>

definition in_ranges :: "(u64 \<times> usize) list \<Rightarrow> u64 \<Rightarrow> bool" where
  "in_ranges rs a \<longleftrightarrow> (\<exists>(p, n) \<in> set rs. in_range p n a)"

lemma in_ranges_simps [simp]: "\<not> in_ranges [] a" "in_ranges ((p, n) # rs) a \<longleftrightarrow> in_range p n a \<or> in_ranges rs a"
  by (auto simp: in_ranges_def)

lemma in_range_zero [simp]: "\<not> in_range p 0 a"
  by (simp add: in_range_def)

lemma write_pages_Ok:
  "write_pages mo h ks m = (Ok u, m') \<Longrightarrow> um_present m' = um_present m \<and>
     (\<forall>a. (\<forall>k \<in> set ks. \<not> in_range (h + of_nat k * host_page_size) host_page_size a) \<longrightarrow> um_byte m' a = um_byte m a)"
proof (induction ks arbitrary: m)
  case (Cons k ks)
  show ?case
  proof (cases "mo_sparse_page mo k")
    case None
    then show ?thesis using Cons by simp
  next
    case (Some p)
    let ?m = "m\<lparr>um_byte := (\<lambda>x. if in_range (h + of_nat k * host_page_size) host_page_size x
        then p ! unat (x - (h + of_nat k * host_page_size)) else um_byte m x)\<rparr>"
    have "write_pages mo h ks ?m = (Ok u, m')" using Cons.prems Some by (simp add: Let_def split: if_splits)
    from Cons.IH [OF this] show ?thesis by simp
  qed
qed simp

context uffd_memory
begin

lemma zero_sections_Ok:
  "zero_sections ops config rs m = (Ok u, m') \<Longrightarrow>
     um_present m' = (\<lambda>a. in_ranges rs a \<or> um_present m a) \<and> um_byte m' = (\<lambda>a. if in_ranges rs a then 0 else um_byte m a)"
proof (induction rs arbitrary: m)
  case (Cons r rs)
  obtain p n where r: "r = (p, n)" by fastforce
  show ?case
  proof (cases "n > 0")
    case True
    obtain q m1 where z: "zeropage ops p n True (uc_enoent_retry_limit config) 0 m = (q, m1)" by fastforce
    have rest: "q = Ok ()" "zero_sections ops config rs m1 = (Ok u, m')"
      using Cons.prems z True r by (auto split: rresult.splits)
    have "filled p n (\<lambda>_. 0) m m1" using zeropage_cases [OF z] rest(1) by auto
    with Cons.IH [OF rest(2)] show ?thesis by (auto simp: filled_def r fun_eq_iff)
  next
    case False
    then have "n = 0" by (simp add: word_gt_0)
    with Cons r show ?thesis by simp
  qed
qed simp

lemma eager_heap_Ok:
  assumes run: "eager_heap ops config mo s m = (Ok u, m')"
  shows "um_present m a \<Longrightarrow> um_present m' a" and "um_present m' a \<Longrightarrow> um_present m a \<or> in_range (slot_heap s) (heap_initial_size mo) a"
    and "\<not> in_range (slot_heap s) (heap_initial_size mo) a \<Longrightarrow> um_byte m' a = um_byte m a"
proof -
  let ?in = "in_range (slot_heap s) (heap_initial_size mo)"
  have "(um_present m a \<longrightarrow> um_present m' a) \<and> (um_present m' a \<longrightarrow> um_present m a \<or> ?in a) \<and> (\<not> ?in a \<longrightarrow> um_byte m' a = um_byte m a)"
  proof (cases "uc_heap_init config = Eager \<and> mo_heap_spec mo \<noteq> None")
    case False
    then show ?thesis using run by (cases "uc_heap_init config") (auto simp: eager_heap_def)
  next
    case True
    then obtain hs where hs: "mo_heap_spec mo = Some hs" "uc_heap_init config = Eager" by auto
    let ?n = "initial_size hs"
    have n: "heap_initial_size mo = ?n" using hs by (simp add: heap_initial_size_def)
    obtain q m1 where z: "zeropage ops (slot_heap s) ?n False (uc_enoent_retry_limit config) 0 m = (q, m1)" by fastforce
    have al: "?n mod host_page_size = 0" and q: "q = Ok ()" and w: "write_pages mo (slot_heap s) [0..<unat (?n div host_page_size)] m1 = (Ok u, m')"
      using run hs z by (auto simp: eager_heap_def and_then_def internal_def split: if_splits rresult.splits prod.splits)
    have f: "filled (slot_heap s) ?n (\<lambda>_. 0) m m1" using zeropage_cases [OF z] q by auto
    obtain k0 where k0: "unat ?n = 4096 * k0" using al by (auto simp: mod_host_page_size page_aligned_unat)
    have page: "in_range (slot_heap s) ?n a" if "k < unat (?n div host_page_size)" "in_range (slot_heap s + of_nat k * host_page_size) host_page_size a" for k
    proof -
      have "k < k0" using that(1) k0 by (simp add: unat_div host_page_size_4096)
      then have fit: "4096 * k + 4096 \<le> unat ?n" using k0 by simp
      then have lt: "4096 * k < 18446744073709551616" using unat_lt64 [of ?n] by linarith
      then have "unat (of_nat k * 4096 :: u64) = 4096 * k" by (simp add: unat_word_ariths unat_of_nat)
      from heap_page_offset(3) [OF this fit] that(2) show ?thesis by (simp add: host_page_size_4096)
    qed
    have pr: "um_present m' = um_present m1" and
      bytes: "(\<forall>k \<in> {0..<unat (?n div host_page_size)}. \<not> in_range (slot_heap s + of_nat k * host_page_size) host_page_size a) \<longrightarrow> um_byte m' a = um_byte m1 a"
      using write_pages_Ok [OF w] by simp_all
    have "um_byte m' a = um_byte m1 a" if "\<not> ?in a" using page that n by (intro bytes [rule_format]) auto
    with pr have "um_present m' = um_present m1" "\<not> ?in a \<longrightarrow> um_byte m' a = um_byte m1 a" by simp_all
    then show ?thesis using f n by (auto simp: filled_def)
  qed
  then show "um_present m a \<Longrightarrow> um_present m' a" "um_present m' a \<Longrightarrow> um_present m a \<or> ?in a" "\<not> ?in a \<Longrightarrow> um_byte m' a = um_byte m a"
    by blast+
qed

end

definition initial_sections :: "uffd_config \<Rightarrow> slot \<Rightarrow> limits \<Rightarrow> (u64 \<times> usize) list" where
  "initial_sections config s l = [(slot_globals s, globals_size l), (slot_sigstack s, signal_stack_size l)] @
     (if uc_stack_init config = Eager then [(slot_stack s, stack_size l)] else [])"

lemma prepare_Ok:
  assumes "uffd_prepare_instance ops gen region args m = (Ok al, region', m')"
  obtains s m1 where "s \<in> set (ur_freelist region)" "mset (ur_freelist region) = add_mset s (mset (ur_freelist region'))"
    "region' = region\<lparr>ur_freelist := ur_freelist region'\<rparr>"
    "heap_initial_size (na_module args) \<le> na_heap_memory_size_limit args" "na_heap_memory_size_limit args \<le> heap_memory_size (ur_limits region)"
    "zero_sections ops (ur_config region) (initial_sections (ur_config region) s (ur_limits region)) m = (Ok (), m1)"
    "eager_heap ops (ur_config region) (na_module args) s m1 = (Ok (), m')"
    "al = \<lparr>heap_accessible_size = heap_initial_size (na_module args), heap_inaccessible_size = heap_address_space_size (slot_limits s),
       heap_memory_size_limit = na_heap_memory_size_limit args, alloc_slot_opt = Some s\<rparr>"
proof (cases "rbind (validate_runtime_spec (na_module args) (ur_limits region) (na_heap_memory_size_limit args)) (\<lambda>_.
    rbind (alloc_strategy_next gen (na_alloc_strategy args) (length (ur_freelist region)) (ur_instance_capacity region))
      (\<lambda>k. swap_remove k (ur_freelist region)))")
  case (Ok res)
  then obtain s fl where res: "res = (s, fl)" by fastforce
  with Ok obtain k where v: "validate_runtime_spec (na_module args) (ur_limits region) (na_heap_memory_size_limit args) = Ok ()"
    and sw: "swap_remove k (ur_freelist region) = (Ok (s, fl) :: (error, _) rresult)"
    by auto
  obtain q m1 where z: "zero_sections ops (ur_config region) (initial_sections (ur_config region) s (ur_limits region)) m = (q, m1)" by fastforce
  obtain q2 m2 where e: "eager_heap ops (ur_config region) (na_module args) s m1 = (q2, m2)" by fastforce
  note run = assms [unfolded uffd_prepare_instance_def Let_def Ok res rresult.case prod.case initial_sections_def [symmetric]]
  have "q = Ok ()" using run z by (cases q) (auto simp: and_then_def initial_sections_def split: if_splits)
  moreover have "q2 = Ok ()" "m2 = m'" "region' = region\<lparr>ur_freelist := fl\<rparr>" "al = \<lparr>heap_accessible_size = heap_initial_size (na_module args),
      heap_inaccessible_size = heap_address_space_size (slot_limits s),
      heap_memory_size_limit = na_heap_memory_size_limit args, alloc_slot_opt = Some s\<rparr>"
    using run z e calculation by (cases q2; auto simp: and_then_def initial_sections_def split: if_splits)+
  ultimately show thesis
    using that [of s m1] z e swap_remove_mem [OF sw] swap_remove_mset [OF sw] validate_runtime_spec_Ok [OF v] by simp
qed (use assms in \<open>auto simp: uffd_prepare_instance_def Let_def\<close>)

lemma sections_located:
  assumes "alloc_inv al" and "alloc_slot_opt al = Some s"
  shows "in_ranges (initial_sections config s (slot_limits s)) a \<longleftrightarrow>
    location al s a \<in> {Globals, SigStack} \<or> uc_stack_init config = Eager \<and> location al s a = Stack"
  using location_ranges(3-5) [OF assms, of a] by (auto simp: initial_sections_def)

context uffd_memory
begin

lemma new_instance_image:
  assumes free: "\<forall>s \<in> set (ur_freelist region). slot_wf s \<and> slot_limits s = ur_limits region \<and> (\<forall>a. in_slot s a \<longrightarrow> \<not> um_present m a)"
    and prep: "uffd_prepare_instance ops gen region args m = (Ok al, region', m1)"
    and reset: "uffd_reset_heap ops al (na_module args) m1 = (Ok u, al', m')"
  shows "\<exists>s \<in> set (ur_freelist region). alloc_slot_opt al' = Some s \<and> mset (ur_freelist region) = add_mset s (mset (ur_freelist region')) \<and>
    alloc_inv al' \<and> guards_missing m' al' s \<and> heap_accessible_size al' = heap_initial_size (na_module args) \<and>
    (\<forall>a. in_slot s a \<longrightarrow> view (na_module args) s m' a = lazy_byte (na_module args) s a) \<and>
    (\<forall>a. location al' s a = Heap \<longrightarrow> \<not> um_present m' a) \<and>
    (\<forall>a. location al' s a \<in> {Globals, SigStack} \<longrightarrow> um_present m' a) \<and>
    (\<forall>a. \<not> in_slot s a \<longrightarrow> um_present m' a = um_present m a \<and> um_byte m' a = um_byte m a)"
proof (rule prepare_Ok [OF prep])
  fix s m0
  let ?mo = "na_module args" and ?l = "ur_limits region"
  assume s: "s \<in> set (ur_freelist region)" and ms: "mset (ur_freelist region) = add_mset s (mset (ur_freelist region'))"
    and le: "heap_initial_size ?mo \<le> na_heap_memory_size_limit args" "na_heap_memory_size_limit args \<le> heap_memory_size ?l"
    and z: "zero_sections ops (ur_config region) (initial_sections (ur_config region) s ?l) m = (Ok (), m0)"
    and e: "eager_heap ops (ur_config region) ?mo s m0 = (Ok (), m1)"
    and al: "al = \<lparr>heap_accessible_size = heap_initial_size ?mo, heap_inaccessible_size = heap_address_space_size (slot_limits s),
       heap_memory_size_limit = na_heap_memory_size_limit args, alloc_slot_opt = Some s\<rparr>"
  have wf: "slot_wf s" and l: "slot_limits s = ?l" and miss: "\<And>a. in_slot s a \<Longrightarrow> \<not> um_present m a" using free s by auto
  have "heap_memory_size ?l \<le> heap_address_space_size ?l" using wf l by (simp add: slot_wf_def validate_Ok_iff)
  then have "heap_initial_size ?mo \<le> heap_address_space_size ?l" using le by (meson order_trans)
  then have sum: "unat (heap_initial_size ?mo) + unat (heap_address_space_size ?l - heap_initial_size ?mo) = unat (heap_address_space_size ?l)"
    by (simp add: unat_sub word_le_nat_alt)
  have sl: "alloc_slot_opt al = Some s" using al by simp
  note raw = reset_raw [OF sl reset]
  then have al': "al' = al\<lparr>heap_accessible_size := heap_initial_size ?mo, heap_inaccessible_size := heap_address_space_size ?l - heap_initial_size ?mo\<rparr>"
    using l by simp
  have inv: "alloc_inv al'" and sl': "alloc_slot_opt al' = Some s" and acc: "heap_accessible_size al' = heap_initial_size ?mo"
    using al' al wf le l sum by (simp_all add: alloc_inv_def)
  have heap: "in_range (slot_heap s) (heap_initial_size ?mo) a \<longleftrightarrow> location al' s a = Heap" for a
    using location_ranges(1) [OF inv sl', of a] acc by simp
  have m': "um_present m' a \<longleftrightarrow> um_present m1 a \<and> location al' s a \<noteq> Heap" "location al' s a \<noteq> Heap \<Longrightarrow> um_byte m' a = um_byte m1 a" for a
    using raw heap al by auto
  have m1: "location al' s a \<noteq> Heap \<Longrightarrow> um_present m1 a = um_present m0 a \<and> um_byte m1 a = um_byte m0 a" for a
    using eager_heap_Ok [OF e, of a] heap by blast
  let ?sec = "\<lambda>a. location al' s a \<in> {Globals, SigStack} \<or> uc_stack_init (ur_config region) = Eager \<and> location al' s a = Stack"
  have m0: "um_present m0 a \<longleftrightarrow> ?sec a \<or> um_present m a" "um_byte m0 a = (if ?sec a then 0 else um_byte m a)" for a
    using zero_sections_Ok [OF z] sections_located [OF inv sl', of "ur_config region" a] l by simp_all
  have slot: "in_slot s a \<longleftrightarrow> location al' s a \<noteq> Unknown" for a by (rule location_ranges(6) [OF inv sl'])
  have pres: "um_present m' a \<longleftrightarrow> ?sec a \<or> (um_present m a \<and> location al' s a \<noteq> Heap)" for a using m'(1) m1 m0(1) by auto
  have "lazy_byte ?mo s a = 0" if "?sec a" for a
    using that location_ranges(2) [OF inv sl', of a] by (auto simp: lazy_byte_def)
  then have "view ?mo s m' a = lazy_byte ?mo s a" if "in_slot s a" for a
    using pres m'(2) m1 m0(2) miss [OF that] by (auto simp: view_def)
  moreover have "guards_missing m' al' s" using pres miss slot by (auto simp: guards_missing_def)
  moreover have "location al' s a = Heap \<longrightarrow> \<not> um_present m' a" "location al' s a \<in> {Globals, SigStack} \<longrightarrow> um_present m' a" for a
    using pres by auto
  moreover have "um_present m' a = um_present m a \<and> um_byte m' a = um_byte m a" if "\<not> in_slot s a" for a
    using that slot pres m'(2) m1 m0(2) by auto
  ultimately show ?thesis using s ms inv sl' acc by blast
qed

end

section \<open>Creating the region\<close>

definition slot_layout :: "uffd_region \<Rightarrow> usize \<Rightarrow> nat \<Rightarrow> slot" where
  "slot_layout region n i =
     (let l = ur_limits region; start = ur_start region + of_nat i * n; heap = start + instance_heap_offset;
          stack = heap + heap_address_space_size l + host_page_size; globals = stack + stack_size l
      in \<lparr>slot_start = start, slot_heap = heap, slot_stack = stack, slot_globals = globals,
          slot_sigstack = globals + globals_size l + host_page_size, slot_limits = l, slot_region = ur_id region\<rparr>)"

lemma slot_layout_freelist [simp]: "slot_layout (region\<lparr>ur_freelist := fl\<rparr>) n i = slot_layout region n i"
  by (simp add: slot_layout_def)

lemma slot_layout_ok:
  assumes val: "limits_validate (ur_limits region) = Ok ()" and n: "unat n = slot_bytes (ur_limits region)"
    and al: "page_aligned (ur_start region)" and pos: "0 < unat (ur_start region)"
    and fit: "unat (ur_start region) + slot_bytes (ur_limits region) * cap < 2 ^ 64" and i: "i < cap"
  shows "unat (slot_start (slot_layout region n i)) = unat (ur_start region) + i * slot_bytes (ur_limits region)"
    and "slot_wf (slot_layout region n i)" and "slot_in_region (ur_start region) (ur_limits region) cap (slot_layout region n i)"
proof -
  let ?l = "ur_limits region" and ?b = "slot_bytes (ur_limits region)"
  have top: "Suc i * ?b \<le> ?b * cap" using i by (subst mult.commute) (intro mult_le_mono2, simp)
  have b: "4096 \<le> ?b" by (simp add: slot_bytes_def)
  have "i * 1 \<le> i * ?b" using b by (intro mult_le_mono2) simp
  moreover have "i * ?b < 18446744073709551616" using fit top by simp
  ultimately have "i < 18446744073709551616" by linarith
  then have ui: "unat (of_nat i :: u64) = i" by (simp add: unat_of_nat)
  then have p: "unat (of_nat i * n) = i * ?b" using fit top n by (subst unat_mult_small) simp_all
  then show st: "unat (slot_start (slot_layout region n i)) = unat (ur_start region) + i * ?b"
    using fit top by (simp add: slot_layout_def Let_def unat_add_small)
  have "4096 dvd i * ?b" using slot_bytes_aligned [OF val _ n] fit top b n by (simp add: page_aligned_unat mod_eq_0_iff_dvd)
  then have "page_aligned (slot_start (slot_layout region n i))"
    using al unfolding page_aligned_unat st mod_eq_0_iff_dvd by (rule dvd_add [rotated])
  then show "slot_wf (slot_layout region n i)"
    using val st fit top by (simp add: slot_wf_def slot_layout_def Let_def instance_heap_offset_def host_page_size_4096)
  show "slot_in_region (ur_start region) ?l cap (slot_layout region n i)"
    using st pos fit i by (auto simp: slot_in_region_def) (simp add: slot_layout_def Let_def)
qed

context uffd_memory
begin

lemma create_slots_Ok:
  assumes n: "total_memory_size (ur_limits region) = Ok n"
  shows "uffd_create_slots ops is region m = (Ok region', m') \<Longrightarrow>
    region' = region\<lparr>ur_freelist := ur_freelist region @ map (slot_layout region n) is\<rparr> \<and>
    (\<forall>a. um_present m' a \<longleftrightarrow> um_present m a \<or> (\<exists>i \<in> set is. in_range (slot_start (slot_layout region n i)) host_page_size a))"
  using n
proof (induction "is" arbitrary: region m)
  case (Cons i js)
  let ?s = "slot_layout region n i"
  obtain q m1 where z: "zeropage ops (slot_start ?s) host_page_size True (uc_enoent_retry_limit (ur_config region)) 0 m = (q, m1)" by fastforce
  have c: "uffd_create_slot ops region i m = (rbind (map_err (\<lambda>_. InternalError ''userfaultfd error'') q) (\<lambda>_. Ok ?s), m1)"
    using z Cons.prems(2) by (cases q) (simp_all add: uffd_create_slot_def Let_def slot_layout_def internal_def)
  show ?case
  proof (cases q)
    case (Ok u)
    then have rest: "uffd_create_slots ops js (region\<lparr>ur_freelist := ur_freelist region @ [?s]\<rparr>) m1 = (Ok region', m')"
      using Cons.prems(1) c by simp
    have "filled (slot_start ?s) host_page_size (\<lambda>_. 0) m m1" using zeropage_cases [OF z] Ok by auto
    with Cons.IH [OF rest] Cons.prems(2) show ?thesis by (auto simp: filled_def)
  qed (use Cons.prems(1) c in auto)
qed simp

end

text \<open>What the system promises of a mapping registered with the userfaultfd object: it is page-aligned, not at address zero, within the address
  space, and none of its pages is present.\<close>

definition setup_ok :: "(usize \<Rightarrow> uffd_mem \<Rightarrow> u64 run_res \<times> uffd_mem) \<Rightarrow> bool" where
  "setup_ok uffd_setup \<longleftrightarrow> (\<forall>n m start m'. uffd_setup n m = (Ok start, m') \<longrightarrow>
     page_aligned start \<and> 0 < unat start \<and> unat start + unat n < 2 ^ 64 \<and> (\<forall>a. in_range start n a \<longrightarrow> \<not> um_present m' a))"

lemma slots_apart:
  fixes b :: nat
  assumes "4096 \<le> b" and "r + i * b + 4096 \<le> x" and "x < r + i * b + b"
  shows "\<not> (r + j * b \<le> x \<and> x < r + j * b + 4096)"
proof (cases i j rule: linorder_cases)
  case less
  then have "Suc i * b \<le> j * b" by (intro mult_le_mono1) simp
  with assms show ?thesis by simp
next
  case greater
  then have "Suc j * b \<le> i * b" by (intro mult_le_mono1) simp
  with assms show ?thesis by simp
qed (use assms in simp)

section \<open>The worker and the instances of the region\<close>

definition insts_ok :: "u64 \<Rightarrow> limits \<Rightarrow> nat \<Rightarrow> (u64 \<Rightarrow> (module_ops \<times> alloc) option) \<Rightarrow> bool" where
  "insts_ok region_start l instance_capacity insts \<longleftrightarrow> (\<forall>b mo al. insts b = Some (mo, al) \<longrightarrow>
     module_pages_ok mo \<and> alloc_inv al \<and> page_aligned (heap_accessible_size al) \<and>
     (\<exists>s. alloc_slot_opt al = Some s \<and> slot_start s = b \<and> slot_in_region region_start l instance_capacity s))"

definition slot_of :: "(u64 \<Rightarrow> (module_ops \<times> alloc) option) \<Rightarrow> module_ops \<Rightarrow> alloc \<Rightarrow> slot \<Rightarrow> bool" where
  "slot_of insts mo al s \<longleftrightarrow> insts (slot_start s) = Some (mo, al) \<and> alloc_slot_opt al = Some s"

lemma slot_of_ok:
  assumes "insts_ok rs l cap insts" and "slot_of insts mo al s"
  shows "module_pages_ok mo" "alloc_inv al" "alloc_slot_opt al = Some s" "page_aligned (heap_accessible_size al)" "slot_in_region rs l cap s"
    "insts (slot_start s) = Some (mo, al)" "slot_wf s"
proof -
  have i: "insts (slot_start s) = Some (mo, al)" and s: "alloc_slot_opt al = Some s" using assms(2) by (auto simp: slot_of_def)
  from assms(1) i have "module_pages_ok mo \<and> alloc_inv al \<and> page_aligned (heap_accessible_size al) \<and>
      (\<exists>s'. alloc_slot_opt al = Some s' \<and> slot_start s' = slot_start s \<and> slot_in_region rs l cap s')" unfolding insts_ok_def by blast
  then show "module_pages_ok mo" "alloc_inv al" "alloc_slot_opt al = Some s" "page_aligned (heap_accessible_size al)" "slot_in_region rs l cap s"
    "insts (slot_start s) = Some (mo, al)" "slot_wf s" using s i by (auto simp: alloc_inv_def)
qed

text \<open>Slots of two instances share no address.\<close>

lemma slots_disjoint:
  assumes ok: "insts_ok rs l cap insts" and a: "slot_of insts mo al s" "in_slot s x" and b: "slot_of insts mo' al' s'" "in_slot s' x"
  shows "mo' = mo \<and> al' = al \<and> s' = s"
proof -
  have r: "slot_in_region rs l cap s" "slot_wf s" "slot_in_region rs l cap s'" "slot_wf s'"
    using slot_of_ok [OF ok a(1)] slot_of_ok [OF ok b(1)] by auto
  obtain i j where ij: "unat (slot_start s) = unat rs + i * slot_bytes l" "unat (slot_start s') = unat rs + j * slot_bytes l"
    and l: "slot_limits s = l" "slot_limits s' = l" using r(1,3) by (auto simp: slot_in_region_def)
  have x: "unat rs + i * slot_bytes l \<le> unat x" "unat x < unat rs + i * slot_bytes l + slot_bytes l"
    "unat rs + j * slot_bytes l \<le> unat x" "unat x < unat rs + j * slot_bytes l + slot_bytes l"
    using a(2) b(2) slot_wf_unat(1) [OF r(2)] slot_wf_unat(1) [OF r(4)] ij l by (simp_all add: in_slot_def)
  have "i = j"
  proof (rule linorder_cases [of i j])
    assume "i < j"
    then have "Suc i * slot_bytes l \<le> j * slot_bytes l" by (intro mult_le_mono1) simp
    with x show ?thesis by simp
  next
    assume "j < i"
    then have "Suc j * slot_bytes l \<le> i * slot_bytes l" by (intro mult_le_mono1) simp
    with x show ?thesis by simp
  qed
  then have "slot_start s' = slot_start s" using ij by (simp add: word_unat_eq_iff)
  then show ?thesis using a(1) b(1) by (simp add: slot_of_def)
qed

definition views_kept :: "(u64 \<Rightarrow> (module_ops \<times> alloc) option) \<Rightarrow> uffd_mem \<Rightarrow> uffd_mem \<Rightarrow> bool" where
  "views_kept insts m m' \<longleftrightarrow> (\<forall>mo al s. slot_of insts mo al s \<longrightarrow>
     (\<forall>a. in_slot s a \<longrightarrow> view mo s m' a = view mo s m a) \<and> (guards_missing m al s \<longrightarrow> guards_missing m' al s))"

lemma views_kept_refl [simp]: "views_kept insts m m"
  by (simp add: views_kept_def)

lemma views_kept_trans: "views_kept insts m m' \<Longrightarrow> views_kept insts m' m'' \<Longrightarrow> views_kept insts m m''"
  by (simp add: views_kept_def)

text \<open>What a fault in one slot leaves of another.\<close>

lemma other_slot_kept:
  assumes ok: "insts_ok rs l cap insts" and a: "slot_of insts mo al s" and b: "slot_of insts mo' al' s'" and ne: "s' \<noteq> s"
    and v: "view mo s m' = view mo s m" and add: "adds_only al s m m'" and x: "in_slot s' x"
  shows "um_present m' x = um_present m x" and "view mo' s' m' x = view mo' s' m x"
proof -
  have "\<not> in_slot s x" using slots_disjoint [OF ok a _ b x] ne by blast
  then have "location al s x = Unknown" using location_ranges(6) [OF slot_of_ok(2,3) [OF ok a], of x] by blast
  then show p: "um_present m' x = um_present m x" using add by (auto simp: adds_only_def)
  show "view mo' s' m' x = view mo' s' m x" using fun_cong [OF v, of x] p by (auto simp: view_def)
qed

context uffd_memory
begin

lemma handler_keeps_views:
  assumes ok: "insts_ok rs l cap insts" and a: "slot_of insts mo al s" "in_slot s x"
    and run: "page_fault_handler ops config l rs cap insts x m = (r, m')"
  shows "views_kept insts m m' \<and> (\<forall>p. r \<noteq> Panic p)"
proof -
  note h = slot_of_ok(1-6) [OF ok a(1)]
  have eff: "view mo s m' = view mo s m" "adds_only al s m m'" and np: "\<forall>p. r \<noteq> Panic p"
    using handler_answers [where insts = insts, OF h a(2) run] by blast+
  have "(\<forall>y. in_slot s' y \<longrightarrow> view mo' s' m' y = view mo' s' m y) \<and> (guards_missing m al' s' \<longrightarrow> guards_missing m' al' s')"
    if b: "slot_of insts mo' al' s'" for mo' al' s'
  proof (cases "s' = s")
    case True
    then have "mo' = mo" "al' = al" using a(1) b by (auto simp: slot_of_def)
    then show ?thesis using True eff adds_only_guards by auto
  next
    case False
    note inv = slot_of_ok(2,3) [OF ok b]
    note k = other_slot_kept [OF ok a(1) b False eff]
    have "in_slot s' y" if "location al' s' y \<in> {InaccessibleHeap, StackGuard, SigStackGuard}" for y
      using that location_ranges(6) [OF inv, of y] by auto
    then show ?thesis using k by (simp add: guards_missing_def)
  qed
  then show ?thesis using np by (simp add: views_kept_def)
qed

lemma worker_keeps_views:
  assumes ok: "insts_ok rs l cap insts"
  shows "\<forall>x. WR_Pagefault x \<in> set rounds \<longrightarrow> (\<exists>mo al s. slot_of insts mo al s \<and> in_slot s x) \<Longrightarrow>
    uffd_worker_thread (page_fault_handler ops config l rs cap insts) rounds m = Some (r, m') \<Longrightarrow> views_kept insts m m' \<and> (\<forall>p. r \<noteq> Panic p)"
proof (induction rounds arbitrary: m)
  case (Cons w rounds)
  show ?case
  proof (cases w)
    case (WR_Pagefault x)
    then obtain mo al s where s: "slot_of insts mo al s" "in_slot s x" using Cons.prems(1) by auto
    obtain q m1 where h: "page_fault_handler ops config l rs cap insts x m = (q, m1)" by fastforce
    note step = handler_keeps_views [OF ok s h]
    show ?thesis
    proof (cases q)
      case (Ok u)
      then have "uffd_worker_thread (page_fault_handler ops config l rs cap insts) rounds m1 = Some (r, m')"
        using Cons.prems(2) h WR_Pagefault by simp
      from Cons.IH [OF _ this] Cons.prems(1) show ?thesis using step views_kept_trans by auto
    qed (use Cons.prems(2) h WR_Pagefault step in auto)
  qed (use Cons in auto)
qed simp

end

section \<open>Properties\<close>

text \<open>A region that is created has one free slot for each instance it can hold, one after the other from the start of its mapping, each well
  formed, and no page of a slot beyond its instance page is present: what \<open>new_instance_with\<close> and the fault handler require of a
  slot holds from the start.\<close>

theorem uffd_create_ready:
  assumes "uffd_memory ops" and "setup_ok uffd_setup" and "instance_capacity < 2 ^ 64"
    and "uffd_create ops uffd_new uffd_setup rid instance_capacity l config m = (Ok region, m')"
  shows "ur_limits region = l \<and> length (ur_freelist region) = instance_capacity \<and> uffd_used_slots region = 0 \<and>
    (\<forall>i < instance_capacity. slot_wf (ur_freelist region ! i) \<and> slot_in_region (ur_start region) l instance_capacity (ur_freelist region ! i) \<and>
       unat (slot_start (ur_freelist region ! i)) = unat (ur_start region) + i * slot_bytes l \<and>
       (\<forall>a. in_slot (ur_freelist region ! i) a \<longrightarrow> \<not> um_present m' a))"
proof -
  from assms(4) obtain n tot m1 st0 where val: "limits_validate l = Ok ()" and n: "total_memory_size l = Ok n"
    and mul: "checked_mul (of_nat instance_capacity) n = Some tot" and su: "uffd_setup tot m = (Ok st0, m1)"
    and run: "uffd_create_slots ops [0..<instance_capacity] \<lparr>ur_id = rid, ur_config = config, ur_start = st0, ur_limits = l,
        ur_freelist = [], ur_instance_capacity = instance_capacity\<rparr> m1 = (Ok region, m')"
    by (auto simp: uffd_create_def split: if_splits rresult.splits option.splits prod.splits)
  let ?r = "\<lparr>ur_id = rid, ur_config = config, ur_start = st0, ur_limits = l, ur_freelist = [], ur_instance_capacity = instance_capacity\<rparr>"
  let ?s = "slot_layout ?r n"
  have st: "page_aligned st0" "0 < unat st0" "unat st0 + unat tot < 2 ^ 64" "\<And>a. in_range st0 tot a \<Longrightarrow> \<not> um_present m1 a"
    using assms(2) su by (auto simp: setup_ok_def)
  have un: "unat n = slot_bytes l" using n by (simp add: total_memory_size_Ok)
  have t: "unat tot = slot_bytes l * instance_capacity" using checked_mul_Some [OF mul] assms(3) un by (simp add: unat_of_nat)
  note c = uffd_memory.create_slots_Ok [OF assms(1) _ run, of n]
  have reg: "region = ?r\<lparr>ur_freelist := map ?s [0..<instance_capacity]\<rparr>"
    and pres: "um_present m' a \<longleftrightarrow> um_present m1 a \<or> (\<exists>i < instance_capacity. in_range (slot_start (?s i)) host_page_size a)" for a
    using c n by auto
  note lay = slot_layout_ok [of ?r, simplified, OF val un st(1,2), of instance_capacity]
  have "\<not> um_present m' a" if i: "i < instance_capacity" and a: "in_slot (?s i) a" for i a
  proof -
    have u: "unat (slot_start (?s j)) = unat st0 + j * slot_bytes l" "slot_wf (?s j)" if "j < instance_capacity" for j
      using lay that t st(3) by (simp_all add: mult.commute)
    have top: "Suc j * slot_bytes l \<le> instance_capacity * slot_bytes l" if "j < instance_capacity" for j
      using that by (intro mult_le_mono1) simp
    have r: "unat st0 + i * slot_bytes l + 4096 \<le> unat a" "unat a < unat st0 + i * slot_bytes l + slot_bytes l"
      using a u [OF i] slot_wf_unat(1) [OF u(2) [OF i]] by (simp_all add: in_slot_def) (simp add: slot_layout_def Let_def)
    then have "in_range st0 tot a" using t st(3) top [OF i] by (subst in_range_nat) (simp_all add: mult.commute)
    moreover have "\<not> in_range (slot_start (?s j)) host_page_size a" if j: "j < instance_capacity" for j
      using slots_apart [OF _ r, of j] u(1) [OF j] top [OF j] t st(3)
      by (subst in_range_nat) (simp_all add: host_page_size_4096 slot_bytes_def mult.commute)
    ultimately show ?thesis using pres st(4) by blast
  qed
  then show ?thesis using reg lay t st(3) by (simp add: uffd_used_slots_def uffd_free_slots_def mult.commute)
qed

definition demo_setup :: "usize \<Rightarrow> uffd_mem \<Rightarrow> u64 run_res \<times> uffd_mem" where
  "demo_setup n m = (if unat n < 2 ^ 40 then (Ok 0x10000000, m\<lparr>um_present := (\<lambda>_. False)\<rparr>) else (Err nix_error, m))"

lemma demo_setup_ok: "setup_ok demo_setup"
  by (auto simp: setup_ok_def demo_setup_def page_aligned_def split: if_splits)

lemma linux_zeropage:
  assumes "\<forall>x. in_range a n x \<longrightarrow> \<not> um_present m x"
  shows "zeropage (linux_uffd (\<lambda>_. False)) a n wake lim k m =
    (Ok (), m\<lparr>um_clock := um_clock m + 1, um_byte := (\<lambda>x. if in_range a n x then 0 else um_byte m x),
       um_present := (\<lambda>x. in_range a n x \<or> um_present m x), um_woken := woken wake a n m\<rparr>)"
  using assms by (subst zeropage.simps) (simp add: linux_uffd_def linux_fill_def Let_def)

lemma demo_total: "total_memory_size limits_default = Ok (of_nat (slot_bytes limits_default))"
  using total_memory_size_wf [OF demo_slot_wf] by (simp add: demo_slot_def)

lemma demo_mapped:
  "limits_validate limits_default = Ok ()" "checked_mul (of_nat 1) (of_nat (slot_bytes limits_default) :: u64) = Some (of_nat (slot_bytes limits_default))"
  "demo_setup (of_nat (slot_bytes limits_default)) m = (Ok 0x10000000, m\<lparr>um_present := (\<lambda>_. False)\<rparr>)"
proof -
  show "limits_validate limits_default = Ok ()" using demo_slot_wf by (simp add: slot_wf_def demo_slot_def)
  have b: "slot_bytes limits_default = 8590090240" by (simp add: slot_bytes_def limits_default_def DEFAULT_SIGNAL_STACK_SIZE_def)
  show "checked_mul (of_nat 1) (of_nat (slot_bytes limits_default) :: u64) = Some (of_nat (slot_bytes limits_default))"
    "demo_setup (of_nat (slot_bytes limits_default)) m = (Ok 0x10000000, m\<lparr>um_present := (\<lambda>_. False)\<rparr>)"
    unfolding b by (simp_all add: checked_mul_def demo_setup_def)
qed

theorem uffd_create_ready_witness:
  "\<exists>region m'. uffd_create (linux_uffd (\<lambda>_. False)) (Ok ()) demo_setup 0 1 limits_default uffd_config_default demo_uffd_mem = (Ok region, m') \<and>
     slot_start (ur_freelist region ! 0) = 0x10000000 \<and> \<not> um_present m' 0x10001000 \<and> um_present demo_uffd_mem 0x10001000"
proof -
  let ?ops = "linux_uffd (\<lambda>_. False)"
  have "\<exists>region m'. uffd_create ?ops (Ok ()) demo_setup 0 1 limits_default uffd_config_default demo_uffd_mem = (Ok region, m') \<and> ur_start region = 0x10000000"
    using demo_mapped by (simp add: uffd_create_def demo_total uffd_create_slot_def linux_zeropage internal_def Let_def)
  then obtain region m' where run: "uffd_create ?ops (Ok ()) demo_setup 0 1 limits_default uffd_config_default demo_uffd_mem = (Ok region, m')"
    and st: "ur_start region = 0x10000000" by blast
  let ?s = "ur_freelist region ! 0"
  have r: "slot_wf ?s" "unat (slot_start ?s) = unat (ur_start region)" "slot_limits ?s = limits_default" "\<And>a. in_slot ?s a \<Longrightarrow> \<not> um_present m' a"
    using uffd_create_ready [OF linux_uffd.uffd_memory_axioms demo_setup_ok _ run] by (auto simp: slot_in_region_def)
  have "slot_start ?s = 0x10000000" using r(2) st by (simp only: word_unat_eq_iff)
  moreover have "in_slot ?s 0x10001000"
    using slot_wf_unat(1) [OF r(1)] calculation r(3) by (simp add: in_slot_def slot_bytes_def limits_default_def)
  ultimately show ?thesis using run r(4) demo_first_page by blast
qed

text \<open>C22: The worker thread serves all instances of the region without one of them noticing: after any number of rounds in which the faults are in slots of
  instances, every instance sees the same memory in its slot as before, its guard pages are still missing, and the worker has not
  panicked, whether it ended by the message on its pipe or with an error.\<close>

theorem uffd_worker_transparent:
  assumes "uffd_memory ops" and "insts_ok region_start l instance_capacity insts"
    and "\<forall>x. WR_Pagefault x \<in> set rounds \<longrightarrow> (\<exists>mo al s. slot_of insts mo al s \<and> in_slot s x)"
    and "uffd_worker_thread (page_fault_handler ops config l region_start instance_capacity insts) rounds m = Some (r, m')"
  shows "(\<forall>mo al s. slot_of insts mo al s \<longrightarrow>
       (\<forall>a. in_slot s a \<longrightarrow> view mo s m' a = view mo s m a) \<and> (guards_missing m al s \<longrightarrow> guards_missing m' al s)) \<and>
     (\<forall>p. r \<noteq> Panic p)"
  using uffd_memory.worker_keeps_views [OF assms] unfolding views_kept_def .

lemma demo_insts_ok: "insts_ok 0x10000000 limits_default 2 demo_insts"
  using demo_module_hyps(1) demo_inv demo_fault_addr(4) demo_in_region
  by (auto simp: insts_ok_def demo_insts_def split: if_splits) (auto simp: demo_slot_def)

text \<open>A round that times out, a fault in the second heap page, and the message that ends the worker.\<close>

theorem uffd_worker_transparent_witness:
  "\<exists>m'. uffd_worker_thread (page_fault_handler (linux_uffd (\<lambda>t. t < 2)) demo_uffd_config limits_default 0x10000000 2 demo_insts)
       [WR_Timeout, WR_Pagefault 0x10002000, WR_PipeReadable] demo_uffd_mem = Some (Ok (), m') \<and>
     view demo_module demo_slot m' 0x10001000 = 9 \<and> view demo_module demo_slot m' 0x10002000 = 7"
proof -
  let ?h = "page_fault_handler (linux_uffd (\<lambda>t. t < 2)) demo_uffd_config limits_default 0x10000000 2 demo_insts"
  let ?rounds = "[WR_Timeout, WR_Pagefault 0x10002000, WR_PipeReadable]"
  obtain m' where h: "?h 0x10002000 demo_uffd_mem = (Ok (), m')" using demo_fault_runs by blast
  then have run: "uffd_worker_thread ?h ?rounds demo_uffd_mem = Some (Ok (), m')" by simp
  have s: "slot_of demo_insts demo_module demo_alloc demo_slot" using demo_inv demo_fault_addr(3) by (simp add: slot_of_def)
  have "in_slot demo_slot 0x10001000" by (simp add: demo_slot_def in_slot_def slot_bytes_def limits_default_def)
  moreover have "\<forall>x. WR_Pagefault x \<in> set ?rounds \<longrightarrow> (\<exists>mo al s. slot_of demo_insts mo al s \<and> in_slot s x)" using s demo_fault_addr(2) by auto
  ultimately have "view demo_module demo_slot m' 0x10001000 = view demo_module demo_slot demo_uffd_mem 0x10001000"
    "view demo_module demo_slot m' 0x10002000 = view demo_module demo_slot demo_uffd_mem 0x10002000"
    using uffd_worker_transparent [OF linux_uffd.uffd_memory_axioms demo_insts_ok _ run] s demo_fault_addr(2) by blast+
  then show ?thesis using run demo_first_page demo_lazy_view by (simp add: view_def)
qed

text \<open>C23: A new instance of the lazy region starts from its module's initial image. When the slot is prepared and the heap is
  reset, as \<open>new_instance_handle\<close> does, the slot leaves the free list, the allocation invariant holds, a guest sees the module's page data in
  the heap and zeros in the rest of the slot, the globals and the signal stack are present and no page of the heap is: whatever \<open>heap_init\<close> says, the
  heap is lazy. Nothing outside the slot changes.\<close>

theorem uffd_new_instance_image:
  assumes "uffd_memory ops"
    and "\<forall>s \<in> set (ur_freelist region). slot_wf s \<and> slot_limits s = ur_limits region \<and> (\<forall>a. in_slot s a \<longrightarrow> \<not> um_present m a)"
    and "uffd_prepare_instance ops gen_range region args m = (Ok al, region', m1)"
    and "uffd_reset_heap ops al (na_module args) m1 = (Ok u, al', m')"
  shows "\<exists>s \<in> set (ur_freelist region). alloc_slot_opt al' = Some s \<and> mset (ur_freelist region) = add_mset s (mset (ur_freelist region')) \<and>
    alloc_inv al' \<and> guards_missing m' al' s \<and> heap_accessible_size al' = heap_initial_size (na_module args) \<and>
    (\<forall>a. in_slot s a \<longrightarrow> view (na_module args) s m' a = lazy_byte (na_module args) s a) \<and>
    (\<forall>a. location al' s a = Heap \<longrightarrow> \<not> um_present m' a) \<and>
    (\<forall>a. location al' s a \<in> {Globals, SigStack} \<longrightarrow> um_present m' a) \<and>
    (\<forall>a. \<not> in_slot s a \<longrightarrow> um_present m' a = um_present m a \<and> um_byte m' a = um_byte m a)"
  by (rule uffd_memory.new_instance_image [OF assms])

definition demo_missing :: uffd_mem where
  "demo_missing = demo_uffd_mem\<lparr>um_present := (\<lambda>_. False)\<rparr>"

lemma demo_sections_apart:
  "in_range (slot_sigstack demo_slot) (signal_stack_size limits_default) x \<Longrightarrow> \<not> in_range (slot_globals demo_slot) (globals_size limits_default) x"
proof -
  have l: "slot_limits demo_slot = limits_default" by (simp add: demo_slot_def)
  show "in_range (slot_sigstack demo_slot) (signal_stack_size limits_default) x \<Longrightarrow> \<not> in_range (slot_globals demo_slot) (globals_size limits_default) x"
    using location_ranges(4,5) [OF demo_inv, of x] unfolding l by simp
qed

lemma demo_prepare:
  "\<exists>al region' m1. uffd_prepare_instance (linux_uffd (\<lambda>_. False)) gen (demo_uffd_region\<lparr>ur_freelist := [demo_slot]\<rparr>) demo_args demo_missing = (Ok al, region', m1)"
proof -
  have val: "validate_runtime_spec demo_module limits_default (heap_memory_size limits_default) = Ok ()"
    by (simp add: validate_runtime_spec_def demo_heap_spec heap_spec_new_def limits_default_def Let_def
        initial_globals_size_def demo_module_fields)
  have args: "na_module demo_args = demo_module" "na_heap_memory_size_limit demo_args = heap_memory_size limits_default" "na_alloc_strategy demo_args = Linear"
    by (simp_all add: demo_args_def instance_builder_new_def demo_free_region_def demo_region_def)
  have al: "slot_heap demo_slot mod host_page_size = 0" by (simp add: demo_slot_def host_page_size_def)
  have "\<exists>m1. zero_sections (linux_uffd (\<lambda>_. False)) uffd_config_default
      [(slot_globals demo_slot, globals_size limits_default), (slot_sigstack demo_slot, signal_stack_size limits_default)] demo_missing = (Ok (), m1)"
    using demo_sections_apart by (auto simp: demo_missing_def linux_zeropage)
  then show ?thesis using val args al
    by (auto simp: uffd_prepare_instance_def demo_uffd_region_def uffd_config_default_def Let_def alloc_strategy_next_def swap_remove_def
        and_then_def eager_heap_def)
qed

theorem uffd_new_instance_image_witness:
  "\<exists>al region' m1 al' m'.
     uffd_prepare_instance (linux_uffd (\<lambda>_. False)) (\<lambda>_. 0) (demo_uffd_region\<lparr>ur_freelist := [demo_slot]\<rparr>) demo_args demo_missing = (Ok al, region', m1) \<and>
     uffd_reset_heap (linux_uffd (\<lambda>_. False)) al demo_module m1 = (Ok (), al', m') \<and> ur_freelist region' = [] \<and>
     view demo_module demo_slot m' 0x10002000 = 7"
proof -
  let ?ops = "linux_uffd (\<lambda>_. False)" and ?r = "demo_uffd_region\<lparr>ur_freelist := [demo_slot]\<rparr>"
  have mo: "na_module demo_args = demo_module" by (simp add: demo_args_def instance_builder_new_def)
  obtain al region' m1 where prep: "uffd_prepare_instance ?ops (\<lambda>_. 0) ?r demo_args demo_missing = (Ok al, region', m1)" using demo_prepare by blast
  obtain s where s: "alloc_slot_opt al = Some s" using prepare_Ok [OF prep] by (metis alloc.select_convs(4))
  obtain r al' m' where run: "uffd_reset_heap ?ops al demo_module m1 = (r, al', m')" using prod_cases3 by blast
  then have ok: "r = Ok ()" using s by (auto simp: uffd_reset_heap_def alloc_slot_def linux_uffd_def split: if_splits)
  have free: "\<forall>s \<in> set (ur_freelist ?r). slot_wf s \<and> slot_limits s = ur_limits ?r \<and> (\<forall>a. in_slot s a \<longrightarrow> \<not> um_present demo_missing a)"
    using demo_slot_wf by (simp add: demo_missing_def demo_uffd_region_def) (simp add: demo_slot_def)
  have "view demo_module demo_slot m' 0x10002000 = lazy_byte demo_module demo_slot 0x10002000 \<and> ur_freelist region' = []"
    using uffd_new_instance_image [OF linux_uffd.uffd_memory_axioms free prep, of "()" al' m'] run ok mo demo_fault_addr(2) by auto
  moreover have "lazy_byte demo_module demo_slot 0x10002000 = 7"
    by (simp add: lazy_byte_def demo_fault_addr in_range_def demo_page) (simp add: demo_slot_def limits_default_def)
  ultimately show ?thesis using prep run ok by auto
qed

end
