(* ===== verification/C_Types.thy ===== *)
theory C_Types
  imports Instance_Run
begin

text \<open>
  The C representations of the runtime's types (\<open>internals/c_api.rs\<close>): error codes, limits, signal behaviours, the result of a run with its
  fault and termination details, and argument and return values. A union is its bytes or, where a tag says which field is valid, a datatype;
  pointers are 64-bit words with zero for null. A \<open>*mut c_void\<close> inside a dynamically typed value is the number of its \<open>any\<close>.
  The lemmas show which conversions keep what they convert: results, limits, register values and names do; the signal behaviour that a handler
  written in C returns is never converted at all.
\<close>

section \<open>Error codes\<close>

datatype lucet_error =
    LE_Ok | LE_InvalidArgument | LE_RegionFull | LE_Module | LE_LimitsExceeded | LE_NoLinearMemory | LE_SymbolNotFound
  | LE_FuncNotFound | LE_RuntimeFault | LE_RuntimeTerminated | LE_Dl | LE_InstanceNotReturned | LE_InstanceNotYielded
  | LE_InstanceNeedsStart | LE_StartAlreadyRun | LE_StartYielded | LE_Internal | LE_Unsupported

fun lucet_error_from :: "error \<Rightarrow> lucet_error" where
  "lucet_error_from (InvalidArgument _) = LE_InvalidArgument"
| "lucet_error_from (RegionFull _) = LE_RegionFull"
| "lucet_error_from (ModuleError _) = LE_Module"
| "lucet_error_from (LimitsExceeded _) = LE_LimitsExceeded"
| "lucet_error_from (NoLinearMemory _) = LE_NoLinearMemory"
| "lucet_error_from (SymbolNotFound _) = LE_SymbolNotFound"
| "lucet_error_from (FuncNotFound _ _) = LE_FuncNotFound"
| "lucet_error_from (RuntimeFault _) = LE_RuntimeFault"
| "lucet_error_from (RuntimeTerminated _) = LE_RuntimeTerminated"
| "lucet_error_from (DlError _) = LE_Dl"
| "lucet_error_from InstanceNotReturned = LE_InstanceNotReturned"
| "lucet_error_from InstanceNotYielded = LE_InstanceNotYielded"
| "lucet_error_from InstanceNeedsStart = LE_InstanceNeedsStart"
| "lucet_error_from StartAlreadyRun = LE_StartAlreadyRun"
| "lucet_error_from StartYielded = LE_StartYielded"
| "lucet_error_from (InternalError _) = LE_Internal"
| "lucet_error_from (Unsupported _) = LE_Unsupported"

text \<open>The discriminants in the order of the declaration, and \<open>FromPrimitive::from_i32\<close>.\<close>

definition lucet_errors :: "lucet_error list" where
  "lucet_errors = [LE_Ok, LE_InvalidArgument, LE_RegionFull, LE_Module, LE_LimitsExceeded, LE_NoLinearMemory, LE_SymbolNotFound,
     LE_FuncNotFound, LE_RuntimeFault, LE_RuntimeTerminated, LE_Dl, LE_InstanceNotReturned, LE_InstanceNotYielded, LE_InstanceNeedsStart,
     LE_StartAlreadyRun, LE_StartYielded, LE_Internal, LE_Unsupported]"

definition from_i32 :: "'a list \<Rightarrow> int \<Rightarrow> 'a option" where
  "from_i32 variants e = (if 0 \<le> e \<and> nat e < length variants then Some (variants ! nat e) else None)"

fun error_text :: "lucet_error \<Rightarrow> string" where
  "error_text LE_Ok = ''lucet_error_ok''"
| "error_text LE_InvalidArgument = ''lucet_error_invalid_argument''"
| "error_text LE_RegionFull = ''lucet_error_region_full''"
| "error_text LE_Module = ''lucet_error_module''"
| "error_text LE_LimitsExceeded = ''lucet_error_limits_exceeded''"
| "error_text LE_NoLinearMemory = ''lucet_error_no_linear_memory''"
| "error_text LE_SymbolNotFound = ''lucet_error_symbol_not_found''"
| "error_text LE_FuncNotFound = ''lucet_error_func_not_found''"
| "error_text LE_RuntimeFault = ''lucet_error_runtime_fault''"
| "error_text LE_RuntimeTerminated = ''lucet_error_runtime_terminated''"
| "error_text LE_Dl = ''lucet_error_dl''"
| "error_text LE_InstanceNotReturned = ''lucet_error_instance_not_returned''"
| "error_text LE_InstanceNotYielded = ''lucet_error_instance_not_yielded''"
| "error_text LE_InstanceNeedsStart = ''lucet_error_instance_needs_start''"
| "error_text LE_StartAlreadyRun = ''lucet_error_start_already_run''"
| "error_text LE_StartYielded = ''lucet_error_start_yielded''"
| "error_text LE_Internal = ''lucet_error_internal''"
| "error_text LE_Unsupported = ''lucet_error_unsupported''"

definition lucet_error_name :: "int \<Rightarrow> string" where
  "lucet_error_name e = (case from_i32 lucet_errors e of Some e \<Rightarrow> error_text e | None \<Rightarrow> ''!!! error: unknown lucet_error variant'')"

section \<open>Limits\<close>

record lucet_alloc_limits =
  la_heap_memory_size :: u64
  la_heap_address_space_size :: u64
  la_stack_size :: u64
  la_hostcall_reservation :: u64
  la_globals_size :: u64
  la_signal_stack_size :: u64

definition alloc_limits_from :: "limits \<Rightarrow> lucet_alloc_limits" where
  "alloc_limits_from l =
     \<lparr>la_heap_memory_size = heap_memory_size l, la_heap_address_space_size = heap_address_space_size l, la_stack_size = stack_size l,
      la_hostcall_reservation = hostcall_reservation l, la_globals_size = globals_size l, la_signal_stack_size = signal_stack_size l\<rparr>"

definition limits_from :: "lucet_alloc_limits \<Rightarrow> limits" where
  "limits_from c = limits_default\<lparr>heap_memory_size := la_heap_memory_size c, heap_address_space_size := la_heap_address_space_size c,
     stack_size := la_stack_size c, hostcall_reservation := la_hostcall_reservation c, globals_size := la_globals_size c,
     signal_stack_size := la_signal_stack_size c\<rparr>"

section \<open>Signal behaviours\<close>

datatype lucet_signal_behavior = LSB_Default | LSB_Continue | LSB_Terminate

fun signal_behavior_from_ref :: "lucet_signal_behavior \<Rightarrow> signal_behavior" where
  "signal_behavior_from_ref LSB_Default = Behavior_Default"
| "signal_behavior_from_ref LSB_Continue = Behavior_Continue"
| "signal_behavior_from_ref LSB_Terminate = Behavior_Terminate"

text \<open>The conversion of a value, whose body is \<open>sb.into()\<close>: the call resolves to this very conversion. Not returning is \<open>None\<close>.\<close>

partial_function (option) signal_behavior_from :: "lucet_signal_behavior \<Rightarrow> signal_behavior option" where
  "signal_behavior_from sb = signal_behavior_from sb"

section \<open>Names of faults\<close>

datatype lucet_trapcode =
    LT_StackOverflow | LT_HeapOutOfBounds | LT_IndirectCallToNull | LT_BadSignature | LT_IntegerOverflow | LT_IntegerDivByZero
  | LT_BadConversionToInteger | LT_Interrupt | LT_TableOutOfBounds | LT_Unreachable | LT_HeapMisaligned | LT_Unknown

fun lucet_trapcode_from :: "trap_code option \<Rightarrow> lucet_trapcode" where
  "lucet_trapcode_from None = LT_Unknown"
| "lucet_trapcode_from (Some StackOverflow) = LT_StackOverflow"
| "lucet_trapcode_from (Some HeapOutOfBounds) = LT_HeapOutOfBounds"
| "lucet_trapcode_from (Some IndirectCallToNull) = LT_IndirectCallToNull"
| "lucet_trapcode_from (Some BadSignature) = LT_BadSignature"
| "lucet_trapcode_from (Some IntegerOverflow) = LT_IntegerOverflow"
| "lucet_trapcode_from (Some IntegerDivByZero) = LT_IntegerDivByZero"
| "lucet_trapcode_from (Some BadConversionToInteger) = LT_BadConversionToInteger"
| "lucet_trapcode_from (Some Interrupt) = LT_Interrupt"
| "lucet_trapcode_from (Some TableOutOfBounds) = LT_TableOutOfBounds"
| "lucet_trapcode_from (Some Unreachable) = LT_Unreachable"
| "lucet_trapcode_from (Some HeapMisaligned) = LT_HeapMisaligned"

definition ADDR_DETAILS_NAME_LEN :: nat where
  "ADDR_DETAILS_NAME_LEN = 256"

record lucet_module_addr_details =
  ad_module_code_resolvable :: bool
  ad_in_module_code :: bool
  ad_file_name :: "u8 list"
  ad_sym_name :: "u8 list"

definition str_bytes :: "string \<Rightarrow> u8 list" where
  "str_bytes s = map (\<lambda>c. of_nat (of_char c)) s"

text \<open>\<open>CString::new\<close> refuses a zero byte inside; the bytes with the final zero are those of \<open>into_bytes_with_nul\<close>.\<close>

definition cstring_new :: "string \<Rightarrow> u8 list option" where
  "cstring_new s = (if 0 \<in> set (str_bytes s) then None else Some (str_bytes s @ [0]))"

definition trunc_c_str_bytes :: "string \<Rightarrow> u8 list" where
  "trunc_c_str_bytes s =
     (let bytes = (case cstring_new s of Some b \<Rightarrow> b | None \<Rightarrow> [0]); bytes = take ADDR_DETAILS_NAME_LEN bytes
      in bytes[length bytes - 1 := 0])"

definition name_bytes :: "string option \<Rightarrow> u8 list" where
  "name_bytes n = (case n of Some s \<Rightarrow> trunc_c_str_bytes s | None \<Rightarrow> [0])"

definition addr_details_from :: "addr_details option \<Rightarrow> lucet_module_addr_details" where
  "addr_details_from details =
     (let ret = (case details of
             Some d \<Rightarrow> \<lparr>ad_module_code_resolvable = True, ad_in_module_code = in_module_code d,
               ad_file_name = replicate ADDR_DETAILS_NAME_LEN 0, ad_sym_name = replicate ADDR_DETAILS_NAME_LEN 0\<rparr>
           | None \<Rightarrow> \<lparr>ad_module_code_resolvable = False, ad_in_module_code = False,
               ad_file_name = replicate ADDR_DETAILS_NAME_LEN 0, ad_sym_name = replicate ADDR_DETAILS_NAME_LEN 0\<rparr>);
          file_name_bytes = name_bytes (Option.bind details file_name);
          sym_name_bytes = name_bytes (Option.bind details sym_name)
      in ret\<lparr>ad_file_name := write_slice 0 file_name_bytes (ad_file_name ret), ad_sym_name := write_slice 0 sym_name_bytes (ad_sym_name ret)\<rparr>)"

section \<open>Results of a run\<close>

definition C_YIELDED_VAL :: string where
  "C_YIELDED_VAL = ''CYieldedVal''"

definition C_TERMINATION_DETAILS :: string where
  "C_TERMINATION_DETAILS = ''CTerminationDetails''"

text \<open>\<open>downcast_ref\<close> to one of the two pointer types, or null.\<close>

definition downcast_ptr :: "string \<Rightarrow> any \<Rightarrow> u64" where
  "downcast_ptr ty a = (if any_type a = ty then of_nat (any_value a) else 0)"

record lucet_untyped_retval =
  lr_fp :: "u8 list"
  lr_gp :: "u8 list"

definition lucet_untyped_retval_from :: "untyped_ret_val \<Rightarrow> lucet_untyped_retval" where
  "lucet_untyped_retval_from rv = \<lparr>lr_fp = word_bytes 16 (rv_fp rv), lr_gp = word_bytes 8 (rv_gp rv)\<rparr>"

record lucet_runtime_faulted =
  rf_fatal :: bool
  rf_trapcode :: lucet_trapcode
  rf_rip_addr :: u64
  rf_rip_addr_details :: lucet_module_addr_details

datatype lucet_terminated_reason =
    LTR_Signal | LTR_CtxNotFound | LTR_YieldTypeMismatch | LTR_BorrowError | LTR_Provided | LTR_Remote | LTR_OtherPanic
  | LTR_BlockOnNeedsAsync | LTR_HeapOutOfMemory

record lucet_terminated =
  lt_reason :: lucet_terminated_reason
  lt_provided :: u64

datatype lucet_result_tag = Tag_Returned | Tag_Yielded | Tag_Faulted | Tag_Terminated | Tag_Errored

datatype lucet_result_val =
    RV_returned lucet_untyped_retval
  | RV_yielded u64
  | RV_fault lucet_runtime_faulted
  | RV_terminated lucet_terminated
  | RV_errored lucet_error

record lucet_result =
  res_tag :: lucet_result_tag
  res_val :: lucet_result_val

definition result_tags :: "lucet_result_tag list" where
  "result_tags = [Tag_Returned, Tag_Yielded, Tag_Faulted, Tag_Terminated, Tag_Errored]"

fun tag_text :: "lucet_result_tag \<Rightarrow> string" where
  "tag_text Tag_Returned = ''lucet_result_tag_returned''"
| "tag_text Tag_Yielded = ''lucet_result_tag_yielded''"
| "tag_text Tag_Faulted = ''lucet_result_tag_faulted''"
| "tag_text Tag_Terminated = ''lucet_result_tag_terminated''"
| "tag_text Tag_Errored = ''lucet_result_tag_errored''"

definition lucet_result_tag_name :: "int \<Rightarrow> string" where
  "lucet_result_tag_name tag = (case from_i32 result_tags tag of Some t \<Rightarrow> tag_text t | None \<Rightarrow> ''!!! unknown lucet_result_tag variant!'')"

text \<open>\<open>boxed\<close> gives the address of the box in which the payload of a panic is leaked to C.\<close>

fun terminated_from :: "(any \<Rightarrow> u64) \<Rightarrow> termination_details \<Rightarrow> lucet_terminated" where
  "terminated_from boxed TD_Signal = \<lparr>lt_reason = LTR_Signal, lt_provided = 0\<rparr>"
| "terminated_from boxed TD_CtxNotFound = \<lparr>lt_reason = LTR_CtxNotFound, lt_provided = 0\<rparr>"
| "terminated_from boxed TD_YieldTypeMismatch = \<lparr>lt_reason = LTR_YieldTypeMismatch, lt_provided = 0\<rparr>"
| "terminated_from boxed (TD_BorrowError _) = \<lparr>lt_reason = LTR_BorrowError, lt_provided = 0\<rparr>"
| "terminated_from boxed (TD_Provided _ provided) = \<lparr>lt_reason = LTR_Provided, lt_provided = downcast_ptr C_TERMINATION_DETAILS provided\<rparr>"
| "terminated_from boxed TD_Remote = \<lparr>lt_reason = LTR_Remote, lt_provided = 0\<rparr>"
| "terminated_from boxed (TD_OtherPanic p) = \<lparr>lt_reason = LTR_OtherPanic, lt_provided = boxed p\<rparr>"
| "terminated_from boxed TD_BlockOnNeedsAsync = \<lparr>lt_reason = LTR_BlockOnNeedsAsync, lt_provided = 0\<rparr>"
| "terminated_from boxed TD_HeapOutOfMemory = \<lparr>lt_reason = LTR_HeapOutOfMemory, lt_provided = 0\<rparr>"

fun lucet_result_from :: "(any \<Rightarrow> u64) \<Rightarrow> error + run_result \<Rightarrow> lucet_result" where
  "lucet_result_from boxed (Inr (Returned retval)) = \<lparr>res_tag = Tag_Returned, res_val = RV_returned (lucet_untyped_retval_from retval)\<rparr>"
| "lucet_result_from boxed (Inr (YieldedResult val)) = \<lparr>res_tag = Tag_Yielded, res_val = RV_yielded (downcast_ptr C_YIELDED_VAL val)\<rparr>"
| "lucet_result_from boxed (Inl (RuntimeFault details)) =
     \<lparr>res_tag = Tag_Faulted, res_val = RV_fault \<lparr>rf_fatal = fatal details, rf_trapcode = lucet_trapcode_from (trapcode details),
        rf_rip_addr = rip_addr details, rf_rip_addr_details = addr_details_from (rip_addr_details details)\<rparr>\<rparr>"
| "lucet_result_from boxed (Inl (RuntimeTerminated details)) = \<lparr>res_tag = Tag_Terminated, res_val = RV_terminated (terminated_from boxed details)\<rparr>"
| "lucet_result_from boxed (Inl e) = \<lparr>res_tag = Tag_Errored, res_val = RV_errored (lucet_error_from e)\<rparr>"

section \<open>Argument and return values\<close>

datatype lucet_val_type =
    C_Ptr | C_GuestPtr | C_U8 | C_U16 | C_U32 | C_U64 | C_I8 | C_I16 | C_I32 | C_I64 | C_USize | C_ISize | C_Bool | C_F32 | C_F64

text \<open>The union is its eight bytes as one word.\<close>

record lucet_val =
  lv_ty :: lucet_val_type
  lv_inner :: u64

definition val_from :: "lucet_val \<Rightarrow> val" where
  "val_from v =
     (let x = lv_inner v in
      case lv_ty v of
        C_Ptr \<Rightarrow> CPtr x
      | C_GuestPtr \<Rightarrow> GuestPtr (ucast x)
      | C_U8 \<Rightarrow> VU8 (ucast x)
      | C_U16 \<Rightarrow> VU16 (ucast x)
      | C_U32 \<Rightarrow> VU32 (ucast x)
      | C_U64 \<Rightarrow> VU64 x
      | C_I8 \<Rightarrow> VI16 (ucast x)
      | C_I16 \<Rightarrow> VI32 (ucast x)
      | C_I32 \<Rightarrow> VI32 (ucast x)
      | C_I64 \<Rightarrow> VI64 x
      | C_USize \<Rightarrow> VUSize x
      | C_ISize \<Rightarrow> VISize x
      | C_Bool \<Rightarrow> VBool (x \<noteq> 0)
      | C_F32 \<Rightarrow> VF32 (ucast x)
      | C_F64 \<Rightarrow> VF64 x)"

text \<open>A 32-bit float leaves the upper half of the union as it was, \<open>pad\<close>.\<close>

fun lucet_val_from :: "u32 \<Rightarrow> val \<Rightarrow> lucet_val" where
  "lucet_val_from pad (CPtr a) = \<lparr>lv_ty = C_Ptr, lv_inner = a\<rparr>"
| "lucet_val_from pad (GuestPtr a) = \<lparr>lv_ty = C_GuestPtr, lv_inner = ucast a\<rparr>"
| "lucet_val_from pad (VU8 a) = \<lparr>lv_ty = C_U8, lv_inner = ucast a\<rparr>"
| "lucet_val_from pad (VU16 a) = \<lparr>lv_ty = C_U16, lv_inner = ucast a\<rparr>"
| "lucet_val_from pad (VU32 a) = \<lparr>lv_ty = C_U32, lv_inner = ucast a\<rparr>"
| "lucet_val_from pad (VU64 a) = \<lparr>lv_ty = C_U64, lv_inner = a\<rparr>"
| "lucet_val_from pad (VI8 a) = \<lparr>lv_ty = C_I8, lv_inner = scast a\<rparr>"
| "lucet_val_from pad (VI16 a) = \<lparr>lv_ty = C_I16, lv_inner = scast a\<rparr>"
| "lucet_val_from pad (VI32 a) = \<lparr>lv_ty = C_I32, lv_inner = scast a\<rparr>"
| "lucet_val_from pad (VI64 a) = \<lparr>lv_ty = C_I64, lv_inner = a\<rparr>"
| "lucet_val_from pad (VUSize a) = \<lparr>lv_ty = C_USize, lv_inner = a\<rparr>"
| "lucet_val_from pad (VISize a) = \<lparr>lv_ty = C_ISize, lv_inner = a\<rparr>"
| "lucet_val_from pad (VBool a) = \<lparr>lv_ty = C_Bool, lv_inner = (if a then 1 else 0)\<rparr>"
| "lucet_val_from pad (VF32 a) = \<lparr>lv_ty = C_F32, lv_inner = push_bit 32 (ucast pad) OR ucast a\<rparr>"
| "lucet_val_from pad (VF64 a) = \<lparr>lv_ty = C_F64, lv_inner = a\<rparr>"

text \<open>Reading a return value. The vector stores write 16 bytes at the address of the local variable, which has 4 or 8.\<close>

definition lucet_retval_gp :: "lucet_untyped_retval \<Rightarrow> u8 list" where
  "lucet_retval_gp rv = lr_gp rv"

definition store_at :: "u64 \<Rightarrow> u8 list \<Rightarrow> (u64 \<Rightarrow> u8) \<Rightarrow> u64 \<Rightarrow> u8" where
  "store_at a bs m x = (if x - a < of_nat (length bs) then bs ! unat (x - a) else m x)"

definition load_at :: "u64 \<Rightarrow> nat \<Rightarrow> (u64 \<Rightarrow> u8) \<Rightarrow> u8 list" where
  "load_at a n m = map (\<lambda>k. m (a + of_nat k)) [0..<n]"

definition lucet_retval_f32 :: "u64 \<Rightarrow> lucet_untyped_retval \<Rightarrow> (u64 \<Rightarrow> u8) \<Rightarrow> u32 \<times> (u64 \<Rightarrow> u8)" where
  "lucet_retval_f32 v_addr rv m =
     (let m = store_at v_addr (word_bytes 4 (0 :: u32)) m; m = store_at v_addr (lr_fp rv) m in (ucast (word_of_bytes (load_at v_addr 4 m)), m))"

definition lucet_retval_f64 :: "u64 \<Rightarrow> lucet_untyped_retval \<Rightarrow> (u64 \<Rightarrow> u8) \<Rightarrow> u64 \<times> (u64 \<Rightarrow> u8)" where
  "lucet_retval_f64 v_addr rv m =
     (let m = store_at v_addr (word_bytes 8 (0 :: u64)) m; m = store_at v_addr (lr_fp rv) m in (word_of_bytes (load_at v_addr 8 m), m))"

section \<open>Lemmas\<close>

subsection \<open>Names\<close>

lemma trunc_c_str_bytes_eq:
  "trunc_c_str_bytes s = (if 0 \<in> set (str_bytes s) then [0] else take 255 (str_bytes s) @ [0])"
proof (cases "0 \<in> set (str_bytes s)")
  case True
  then show ?thesis by (simp add: trunc_c_str_bytes_def cstring_new_def ADDR_DETAILS_NAME_LEN_def)
next
  case False
  have "(take 256 (str_bytes s @ [0]))[length (take 256 (str_bytes s @ [0])) - 1 := 0] = take 255 (str_bytes s) @ [0]"
  proof (cases "length (str_bytes s) \<le> 255")
    case True
    then show ?thesis by (simp add: list_update_append)
  next
    case False
    then have l: "length (take 256 (str_bytes s)) = 256" by simp
    have "take 256 (str_bytes s) = take 255 (str_bytes s) @ [str_bytes s ! 255]"
      using False take_Suc_conv_app_nth [of 255 "str_bytes s"] by simp
    then show ?thesis using False l by (simp add: list_update_append)
  qed
  then show ?thesis
    using False unfolding trunc_c_str_bytes_def cstring_new_def ADDR_DETAILS_NAME_LEN_def Let_def by (simp only: if_False option.case)
qed

text \<open>A name in its array: at most 255 bytes of it, then zeros to the end.\<close>

definition c_name :: "string option \<Rightarrow> u8 list" where
  "c_name n = (case n of Some s \<Rightarrow> if 0 \<in> set (str_bytes s) then [] else take 255 (str_bytes s) | None \<Rightarrow> [])"

lemma name_array: "write_slice 0 (name_bytes n) (replicate ADDR_DETAILS_NAME_LEN 0) = c_name n @ replicate (256 - length (c_name n)) 0"
proof -
  have b: "name_bytes n = c_name n @ [0]" by (simp add: name_bytes_def c_name_def trunc_c_str_bytes_eq split: option.split)
  have "length (c_name n) \<le> 255" by (auto simp: c_name_def split: option.split)
  define k where "k = 255 - length (c_name n)"
  then have k: "256 = Suc (length (c_name n) + k)" using \<open>length (c_name n) \<le> 255\<close> by simp
  show ?thesis unfolding b write_slice_def ADDR_DETAILS_NAME_LEN_def by (subst k, subst (2) k) simp
qed

subsection \<open>Values\<close>

lemma narrow_scast:
  fixes a :: u8 and b :: u16
  shows "(scast (ucast (scast a :: u64) :: u16) :: u64) = scast a" "(scast (ucast (scast b :: u64) :: u32) :: u64) = scast b"
  by (rule bit_word_eqI; auto simp: bit_signed_iff bit_unsigned_iff min_def)+

lemma narrow_ucast:
  fixes a :: u8 and b :: u16 and c :: u32
  shows "(ucast (ucast a :: u64) :: u8) = a" "(ucast (ucast b :: u64) :: u16) = b" "(ucast (ucast c :: u64) :: u32) = c"
    "(ucast (scast c :: u64) :: u32) = c" "(ucast (push_bit 32 (ucast d) OR ucast c :: u64) :: u32) = c"
  by (rule bit_word_eqI; auto simp: bit_signed_iff bit_unsigned_iff bit_or_iff bit_push_bit_iff min_def)+

lemma val_from_to:
  "val_from (lucet_val_from pad v) = (case v of VI8 a \<Rightarrow> VI16 (ucast (scast a :: u64)) | VI16 a \<Rightarrow> VI32 (ucast (scast a :: u64)) | _ \<Rightarrow> v)"
  by (cases v) (simp_all add: val_from_def narrow_ucast)

subsection \<open>Signal behaviours\<close>

lemma signal_behavior_from_None: "signal_behavior_from sb = None"
proof (rule ccontr)
  assume "signal_behavior_from sb \<noteq> None"
  then obtain y where "signal_behavior_from sb = Some y" by blast
  then show False by (rule signal_behavior_from.raw_induct [where P = "\<lambda>_ _. False", rotated]) blast
qed

subsection \<open>Return values\<close>

lemma store_at_nth:
  assumes "k < length bs" and "length bs < 2 ^ 64"
  shows "store_at a bs m (a + of_nat k) = bs ! k"
proof -
  have "unat (of_nat k :: u64) = k" "unat (of_nat (length bs) :: u64) = length bs" using assms by (simp_all add: unat_of_nat)
  then show ?thesis using assms(1) by (simp add: store_at_def word_less_nat_alt)
qed

lemma load_store:
  assumes "n \<le> length bs" and "length bs < 2 ^ 64"
  shows "load_at a n (store_at a bs m) = take n bs"
  using assms by (intro nth_equalityI) (simp_all add: load_at_def store_at_nth)

lemma low_bytes:
  fixes v :: m128
  shows "word_of_bytes (take 8 (word_bytes 16 v)) = ucast v" "ucast (word_of_bytes (take 4 (word_bytes 16 v))) = (ucast v :: u32)"
  by (rule bit_word_eqI; auto simp: bit_word_of_bytes word_bytes_def bit_unsigned_iff bit_drop_bit_eq take_map div_mult_mod_eq)+

lemma retval_store:
  fixes v :: m128
  assumes "lr_fp c = word_bytes 16 v"
  shows "lucet_retval_f32 a c m = (ucast v, store_at a (word_bytes 16 v) (store_at a (word_bytes 4 (0 :: u32)) m))"
    and "lucet_retval_f64 a c m = (ucast v, store_at a (word_bytes 16 v) (store_at a (word_bytes 8 (0 :: u64)) m))"
  by (simp_all add: lucet_retval_f32_def lucet_retval_f64_def assms load_store low_bytes)

subsection \<open>Results\<close>

text \<open>The error code of a call and the tag of the result it writes.\<close>

definition call_code :: "error + run_result \<Rightarrow> lucet_error" where
  "call_code r = (case r of Inr _ \<Rightarrow> LE_Ok | Inl e \<Rightarrow> lucet_error_from e)"

lemma lucet_error_from_simps [simp]: "lucet_error_from e \<noteq> LE_Ok"
  by (cases e) simp_all

lemma error_names_distinct: "distinct (map error_text lucet_errors)"
  by (simp add: lucet_errors_def)

lemma error_name_index:
  "e \<in> set lucet_errors" "\<exists>k < length lucet_errors. lucet_errors ! k = e \<and> lucet_error_name (int k) = error_text e"
proof -
  show m: "e \<in> set lucet_errors" by (cases e) (simp_all add: lucet_errors_def)
  then show "\<exists>k < length lucet_errors. lucet_errors ! k = e \<and> lucet_error_name (int k) = error_text e"
    by (auto simp: in_set_conv_nth lucet_error_name_def from_i32_def)
qed

lemma limits_roundtrip: "limits_from (alloc_limits_from l) = l" "alloc_limits_from (limits_from c) = c"
  by (simp_all add: limits_from_def alloc_limits_from_def limits_default_def)

section \<open>Properties\<close>

text \<open>C36: An argument passed through its C representation reaches the guest unchanged: in a register, in a stack slot and in the check against the
  function's signature it is the value that went in, whatever the unused bytes of the union hold. The value itself comes back
  except for 8- and 16-bit signed integers, which come back at the next width with the same number.\<close>

theorem c_values_keep_registers:
  "val_to_reg (val_from (lucet_val_from pad v)) = val_to_reg v \<and> val_to_stack (val_from (lucet_val_from pad v)) = val_to_stack v \<and>
   val_value_type (val_from (lucet_val_from pad v)) = val_value_type v \<and>
   (val_from (lucet_val_from pad v) = v \<longleftrightarrow> (\<forall>a b. v \<noteq> VI8 a \<and> v \<noteq> VI16 b))"
  unfolding val_from_to by (cases v) (simp_all add: narrow_scast)

text \<open>The names in the fault details given to C are terminated strings within their arrays: each array has 256 bytes, holds at most 255 bytes
  of the name, none of them zero, and zeros after them; a name with a zero byte inside becomes empty. The flags say
  whether the address was resolved.\<close>

theorem c_names_terminated:
  "ad_file_name (addr_details_from d) = c_name (Option.bind d file_name) @ replicate (256 - length (c_name (Option.bind d file_name))) 0 \<and>
   ad_sym_name (addr_details_from d) = c_name (Option.bind d sym_name) @ replicate (256 - length (c_name (Option.bind d sym_name))) 0 \<and>
   (\<forall>n. length (c_name n) \<le> 255 \<and> 0 \<notin> set (c_name n)) \<and>
   (ad_module_code_resolvable (addr_details_from d) \<longleftrightarrow> d \<noteq> None)"
proof -
  have "length (c_name n) \<le> 255 \<and> 0 \<notin> set (c_name n)" for n
    by (auto simp: c_name_def dest: in_set_takeD split: option.split)
  then show ?thesis by (cases d) (simp_all add: addr_details_from_def Let_def name_array)
qed

text \<open>Reading a float from a return value gives the float, but stores the whole vector register over the local variable: 16 bytes where it
  has 4 or 8, so that the bytes that follow it in memory are overwritten by those of the register.\<close>

theorem retval_overruns:
  assumes "k < 16"
  shows "fst (lucet_retval_f32 a (lucet_untyped_retval_from rv) m) = as_f32 rv"
    and "fst (lucet_retval_f64 a (lucet_untyped_retval_from rv) m) = as_f64 rv"
    and "snd (lucet_retval_f32 a (lucet_untyped_retval_from rv) m) (a + of_nat k) = word_bytes 16 (rv_fp rv) ! k"
    and "snd (lucet_retval_f64 a (lucet_untyped_retval_from rv) m) (a + of_nat k) = word_bytes 16 (rv_fp rv) ! k"
  using assms by (simp_all add: retval_store [of _ "rv_fp rv"] lucet_untyped_retval_from_def as_f32_def as_f64_def m128_as_f32_def
      m128_as_f64_def store_at_nth)

end
