(* ===== verification/C_Api.thy ===== *)
theory C_Api
  imports C_Types Run_Examples
begin

text \<open>
  The functions the runtime exports to C (\<open>lucet-runtime/src/c_api.rs\<close>, with the macros of \<open>internals/c_api.rs\<close>) on top of the modelled
  operations. Handles of regions and modules are raw pointers of an \<open>Arc\<close>: a table gives for each pointer what it refers to and its count of
  strong references. An \<open>extern\<close> function trusts its caller, so a pointer outside the tables is \<open>C_Undefined\<close>, and a panic
  that would unwind into C is \<open>C_Panic\<close>. A run that has not come back is \<open>None\<close>.
\<close>

datatype 'a c_out = C_Return 'a | C_Panic string | C_Undefined

section \<open>Handles\<close>

type_synonym 'a arcs = "u64 \<Rightarrow> ('a \<times> nat) option"

text \<open>An \<open>Arc\<close> that goes out of scope: the last reference frees the value, and the pointer dangles.\<close>

definition arc_drop :: "u64 \<Rightarrow> 'a arcs \<Rightarrow> 'a arcs" where
  "arc_drop p t = (case t p of Some (x, Suc (Suc n)) \<Rightarrow> t(p \<mapsto> (x, Suc n)) | _ \<Rightarrow> t(p := None))"

definition arc_clone :: "u64 \<Rightarrow> 'a arcs \<Rightarrow> 'a arcs" where
  "arc_clone p t = (case t p of Some (x, n) \<Rightarrow> t(p \<mapsto> (x, Suc n)) | None \<Rightarrow> t)"

text \<open>Regions are named by their identity; an instance handle remembers the module it holds a reference to. \<open>cw_handles\<close> holds the handles
  written through the \<open>_out\<close> pointers of the caller.\<close>

record c_world =
  cw_region_ptrs :: "nat arcs"
  cw_module_ptrs :: "module_ops arcs"
  cw_regions :: "nat \<Rightarrow> mmap_region option"
  cw_insts :: "u64 \<Rightarrow> (inst \<times> u64) option"
  cw_handles :: "u64 \<Rightarrow> u64 option"
  cw_host :: run_host

abbreviation cw_mem :: "c_world \<Rightarrow> memory" where
  "cw_mem w \<equiv> rh_mem (cw_host w)"

definition set_mem :: "memory \<Rightarrow> c_world \<Rightarrow> c_world" where
  "set_mem m w = w\<lparr>cw_host := (cw_host w)\<lparr>rh_mem := m\<rparr>\<rparr>"

text \<open>\<open>with_ffi_arcs\<close> for a region and a module. Each \<open>from_raw\<close> makes an \<open>Arc\<close> that \<open>into_raw\<close> gives back at the end; leaving early, by the
  null check of the second pointer or by a panic, drops those already made.\<close>

definition with_ffi_arcs ::
  "u64 \<Rightarrow> u64 \<Rightarrow> (nat \<Rightarrow> module_ops \<Rightarrow> c_world \<Rightarrow> lucet_error c_out \<times> c_world) \<Rightarrow> c_world \<Rightarrow> lucet_error c_out \<times> c_world" where
  "with_ffi_arcs region module body w =
     (if region = 0 then (C_Return LE_InvalidArgument, w)
      else case cw_region_ptrs w region of
        None \<Rightarrow> (C_Undefined, w)
      | Some (rid, _) \<Rightarrow>
          if module = 0 then (C_Return LE_InvalidArgument, w\<lparr>cw_region_ptrs := arc_drop region (cw_region_ptrs w)\<rparr>)
          else (case cw_module_ptrs w module of
            None \<Rightarrow> (C_Undefined, w)
          | Some (mo, _) \<Rightarrow>
              (case body rid mo w of
                 (C_Panic p, w) \<Rightarrow>
                   (C_Panic p, w\<lparr>cw_region_ptrs := arc_drop region (cw_region_ptrs w), cw_module_ptrs := arc_drop module (cw_module_ptrs w)\<rparr>)
               | res \<Rightarrow> res)))"

text \<open>\<open>with_instance_ptr\<close>.\<close>

definition with_instance_ptr :: "u64 \<Rightarrow> (inst \<Rightarrow> u64 \<Rightarrow> 'b) \<Rightarrow> (lucet_error c_out \<Rightarrow> 'b) \<Rightarrow> c_world \<Rightarrow> 'b" where
  "with_instance_ptr inst body out w =
     (if inst = 0 then out (C_Return LE_InvalidArgument)
      else case cw_insts w inst of None \<Rightarrow> out C_Undefined | Some (i, mp) \<Rightarrow> body i mp)"

section \<open>Regions and modules\<close>

text \<open>\<open>ptr\<close> is the address of the new \<open>Arc\<close>, written to \<open>region_out\<close>; \<open>limits\<close> is null or points to the limits.\<close>

definition lucet_mmap_region_create ::
  "sys_ops \<Rightarrow> nat \<Rightarrow> u64 \<Rightarrow> u64 \<Rightarrow> lucet_alloc_limits option \<Rightarrow> u64 \<Rightarrow> c_world \<Rightarrow> lucet_error c_out \<times> c_world" where
  "lucet_mmap_region_create sys rid ptr instance_capacity limits region_out w =
     (if region_out = 0 then (C_Return LE_InvalidArgument, w)
      else case mmap_create sys rid (unat instance_capacity) (case limits of Some l \<Rightarrow> limits_from l | None \<Rightarrow> limits_default) (cw_mem w) of
        (Ok region, m) \<Rightarrow>
          (C_Return LE_Ok, (set_mem m w)\<lparr>cw_regions := (cw_regions w)(rid \<mapsto> region), cw_region_ptrs := (cw_region_ptrs w)(ptr \<mapsto> (rid, 1)),
             cw_handles := (cw_handles w)(region_out \<mapsto> ptr)\<rparr>)
      | (Err e, m) \<Rightarrow> (C_Return (lucet_error_from e), set_mem m w)
      | (Panic p, m) \<Rightarrow> (C_Panic p, set_mem m w))"

definition lucet_region_release :: "u64 \<Rightarrow> c_world \<Rightarrow> unit c_out \<times> c_world" where
  "lucet_region_release region w =
     (case cw_region_ptrs w region of
        None \<Rightarrow> (C_Undefined, w)
      | Some _ \<Rightarrow> (C_Return (), w\<lparr>cw_region_ptrs := arc_drop region (cw_region_ptrs w)\<rparr>))"

text \<open>\<open>dl_load\<close> stands for \<open>DlModule::load\<close> on the path.\<close>

definition lucet_dl_module_load ::
  "(u8 list \<Rightarrow> module_ops run_res) \<Rightarrow> u64 \<Rightarrow> u8 list option \<Rightarrow> u64 \<Rightarrow> c_world \<Rightarrow> lucet_error c_out \<times> c_world" where
  "lucet_dl_module_load dl_load ptr path mod_out w =
     (if mod_out = 0 then (C_Return LE_InvalidArgument, w)
      else case path of
        None \<Rightarrow> (C_Undefined, w)
      | Some bs \<Rightarrow>
          (case dl_load bs of
             Ok mo \<Rightarrow> (C_Return LE_Ok, w\<lparr>cw_module_ptrs := (cw_module_ptrs w)(ptr \<mapsto> (mo, 1)), cw_handles := (cw_handles w)(mod_out \<mapsto> ptr)\<rparr>)
           | Err e \<Rightarrow> (C_Return (lucet_error_from e), w)
           | Panic p \<Rightarrow> (C_Panic p, w)))"

definition lucet_dl_module_release :: "u64 \<Rightarrow> c_world \<Rightarrow> unit c_out \<times> c_world" where
  "lucet_dl_module_release module w =
     (case cw_module_ptrs w module of
        None \<Rightarrow> (C_Undefined, w)
      | Some _ \<Rightarrow> (C_Return (), w\<lparr>cw_module_ptrs := arc_drop module (cw_module_ptrs w)\<rparr>))"

definition C_VOID_PTR :: string where
  "C_VOID_PTR = ''*mut c_void''"

text \<open>The body of \<open>lucet_region_new_instance_with_ctx\<close>. \<open>module.clone()\<close> is a reference of the new instance, given back when there is none.\<close>

definition new_instance_body ::
  "sys_ops \<Rightarrow> u32 \<Rightarrow> instance_runtime_data \<Rightarrow> u64 \<Rightarrow> u64 \<Rightarrow> u64 \<Rightarrow> nat \<Rightarrow> module_ops \<Rightarrow> c_world \<Rightarrow> lucet_error c_out \<times> c_world" where
  "new_instance_body sys pad implicits embed_ctx module inst_out rid mo w =
     (case cw_regions w rid of
        None \<Rightarrow> (C_Undefined, w)
      | Some region \<Rightarrow>
          (case with_embed_ctx (Any C_VOID_PTR (unat embed_ctx)) (instance_builder_new region mo) of
             Ok args \<Rightarrow>
               (case new_instance_with sys (\<lambda>_. 0) pad implicits region args (cw_mem w) of
                  (Ok i, region', m) \<Rightarrow>
                    (C_Return LE_Ok, (set_mem m w)\<lparr>cw_regions := (cw_regions w)(rid \<mapsto> region'),
                       cw_module_ptrs := arc_clone module (cw_module_ptrs w), cw_insts := (cw_insts w)(inst_ptr i \<mapsto> (i, module)),
                       cw_handles := (cw_handles w)(inst_out \<mapsto> inst_ptr i)\<rparr>)
                | (Err e, region', m) \<Rightarrow>
                    (C_Return (lucet_error_from e), (set_mem m w)\<lparr>cw_regions := (cw_regions w)(rid \<mapsto> region')\<rparr>)
                | (Panic p, region', m) \<Rightarrow> (C_Panic p, (set_mem m w)\<lparr>cw_regions := (cw_regions w)(rid \<mapsto> region')\<rparr>))
           | Err e \<Rightarrow> (C_Return (lucet_error_from e), w)
           | Panic p \<Rightarrow> (C_Panic p, w)))"

definition lucet_region_new_instance_with_ctx ::
  "sys_ops \<Rightarrow> u32 \<Rightarrow> instance_runtime_data \<Rightarrow> u64 \<Rightarrow> u64 \<Rightarrow> u64 \<Rightarrow> u64 \<Rightarrow> c_world \<Rightarrow> lucet_error c_out \<times> c_world" where
  "lucet_region_new_instance_with_ctx sys pad implicits region module embed_ctx inst_out w =
     (if inst_out = 0 then (C_Return LE_InvalidArgument, w)
      else with_ffi_arcs region module (new_instance_body sys pad implicits embed_ctx module inst_out) w)"

definition lucet_region_new_instance ::
  "sys_ops \<Rightarrow> u32 \<Rightarrow> instance_runtime_data \<Rightarrow> u64 \<Rightarrow> u64 \<Rightarrow> u64 \<Rightarrow> c_world \<Rightarrow> lucet_error c_out \<times> c_world" where
  "lucet_region_new_instance sys pad implicits region module inst_out w =
     lucet_region_new_instance_with_ctx sys pad implicits region module 0 inst_out w"

section \<open>Running\<close>

text \<open>\<open>str::from_utf8\<close>, by the table of well-formed byte sequences.\<close>

definition cont :: "u8 \<Rightarrow> bool" where
  "cont b \<longleftrightarrow> 0x80 \<le> b \<and> b \<le> 0xBF"

fun utf8_valid :: "u8 list \<Rightarrow> bool" where
  "utf8_valid [] = True"
| "utf8_valid (b # bs) =
     (if b < 0x80 then utf8_valid bs
      else if 0xC2 \<le> b \<and> b \<le> 0xDF then (case bs of b1 # r \<Rightarrow> cont b1 \<and> utf8_valid r | _ \<Rightarrow> False)
      else if 0xE0 \<le> b \<and> b \<le> 0xEF then
        (case bs of b1 # b2 # r \<Rightarrow>
           cont b1 \<and> cont b2 \<and> (b = 0xE0 \<longrightarrow> 0xA0 \<le> b1) \<and> (b = 0xED \<longrightarrow> b1 \<le> 0x9F) \<and> utf8_valid r
         | _ \<Rightarrow> False)
      else if 0xF0 \<le> b \<and> b \<le> 0xF4 then
        (case bs of b1 # b2 # b3 # r \<Rightarrow>
           cont b1 \<and> cont b2 \<and> cont b3 \<and> (b = 0xF0 \<longrightarrow> 0x90 \<le> b1) \<and> (b = 0xF4 \<longrightarrow> b1 \<le> 0x8F) \<and> utf8_valid r
         | _ \<Rightarrow> False)
      else False)"

definition bytes_str :: "u8 list \<Rightarrow> string" where
  "bytes_str bs = map (\<lambda>b. char_of (unat b)) bs"

text \<open>The arguments: \<open>argv\<close> is null or points to values of which \<open>argc\<close> are read.\<close>

definition c_args :: "nat \<Rightarrow> lucet_val list option \<Rightarrow> val list c_out option" where
  "c_args argc argv =
     (if argc \<noteq> 0 \<and> argv = None then None
      else if argc = 0 then Some (C_Return [])
      else case argv of Some vs \<Rightarrow> Some (if argc \<le> length vs then C_Return (map val_from (take argc vs)) else C_Undefined) | None \<Rightarrow> None)"

text \<open>What a call returns, and the result it writes when \<open>result_out\<close> is not null.\<close>

type_synonym c_call = "lucet_error c_out \<times> lucet_result option \<times> c_world"

definition c_result :: "(any \<Rightarrow> u64) \<Rightarrow> u64 \<Rightarrow> run_result run_res \<Rightarrow> lucet_error c_out \<times> lucet_result option" where
  "c_result boxed result_out r =
     (case r of
        Panic p \<Rightarrow> (C_Panic p, None)
      | Ok x \<Rightarrow> (C_Return LE_Ok, if result_out \<noteq> 0 then Some (lucet_result_from boxed (Inr x)) else None)
      | Err e \<Rightarrow> (C_Return (lucet_error_from e), if result_out \<noteq> 0 then Some (lucet_result_from boxed (Inl e)) else None))"

definition finish_call ::
  "(any \<Rightarrow> u64) \<Rightarrow> u64 \<Rightarrow> u64 \<Rightarrow> u64 \<Rightarrow> (run_result run_res \<times> inst \<times> run_host) option \<Rightarrow> c_world \<Rightarrow> c_call option" where
  "finish_call boxed result_out inst mp r w =
     map_option (\<lambda>(r, i, h). (fst (c_result boxed result_out r), snd (c_result boxed result_out r),
       w\<lparr>cw_insts := (cw_insts w)(inst \<mapsto> (i, mp)), cw_host := h\<rparr>)) r"

definition lucet_instance_run ::
  "run_env \<Rightarrow> (any \<Rightarrow> u64) \<Rightarrow> u64 \<Rightarrow> u8 list option \<Rightarrow> nat \<Rightarrow> lucet_val list option \<Rightarrow> u64 \<Rightarrow> c_world \<Rightarrow> c_call option" where
  "lucet_instance_run env boxed inst entrypoint argc argv result_out w =
     (case entrypoint of
        None \<Rightarrow> Some (C_Return LE_InvalidArgument, None, w)
      | Some name \<Rightarrow>
          (case c_args argc argv of
             None \<Rightarrow> Some (C_Return LE_InvalidArgument, None, w)
           | Some (C_Return args) \<Rightarrow>
               if \<not> utf8_valid name then Some (C_Return LE_SymbolNotFound, None, w)
               else with_instance_ptr inst
                 (\<lambda>i mp. finish_call boxed result_out inst mp (instance_run env (bytes_str name) args i (cw_host w)) w)
                 (\<lambda>e. Some (e, None, w)) w
           | Some _ \<Rightarrow> Some (C_Undefined, None, w)))"

definition lucet_instance_run_func_idx ::
  "run_env \<Rightarrow> (any \<Rightarrow> u64) \<Rightarrow> u64 \<Rightarrow> u32 \<Rightarrow> u32 \<Rightarrow> nat \<Rightarrow> lucet_val list option \<Rightarrow> u64 \<Rightarrow> c_world \<Rightarrow> c_call option" where
  "lucet_instance_run_func_idx env boxed inst table_idx func_idx argc argv result_out w =
     (case c_args argc argv of
        None \<Rightarrow> Some (C_Return LE_InvalidArgument, None, w)
      | Some (C_Return args) \<Rightarrow>
          with_instance_ptr inst
            (\<lambda>i mp. finish_call boxed result_out inst mp (run_func_idx env table_idx func_idx args i (cw_host w)) w)
            (\<lambda>e. Some (e, None, w)) w
      | Some _ \<Rightarrow> Some (C_Undefined, None, w))"

definition lucet_instance_resume :: "run_env \<Rightarrow> (any \<Rightarrow> u64) \<Rightarrow> u64 \<Rightarrow> u64 \<Rightarrow> u64 \<Rightarrow> c_world \<Rightarrow> c_call option" where
  "lucet_instance_resume env boxed inst val result_out w =
     with_instance_ptr inst
       (\<lambda>i mp. finish_call boxed result_out inst mp (resume_with_val env (Any C_YIELDED_VAL (unat val)) i (cw_host w)) w)
       (\<lambda>e. Some (e, None, w)) w"

definition unit_code :: "unit run_res \<Rightarrow> lucet_error c_out" where
  "unit_code r = (case r of Ok _ \<Rightarrow> C_Return LE_Ok | Err e \<Rightarrow> C_Return (lucet_error_from e) | Panic p \<Rightarrow> C_Panic p)"

definition lucet_instance_run_start :: "run_env \<Rightarrow> u64 \<Rightarrow> c_world \<Rightarrow> (lucet_error c_out \<times> c_world) option" where
  "lucet_instance_run_start env inst w =
     with_instance_ptr inst
       (\<lambda>i mp. map_option (\<lambda>(r, i, h). (unit_code r, w\<lparr>cw_insts := (cw_insts w)(inst \<mapsto> (i, mp)), cw_host := h\<rparr>)) (run_start env i (cw_host w)))
       (\<lambda>e. Some (e, w)) w"

definition lucet_instance_reset :: "region_ops \<Rightarrow> u32 \<Rightarrow> u64 \<Rightarrow> c_world \<Rightarrow> lucet_error c_out \<times> c_world" where
  "lucet_instance_reset region pad inst w =
     with_instance_ptr inst
       (\<lambda>i mp. case reset region pad i (cw_mem w) of (r, i, m) \<Rightarrow> (unit_code r, (set_mem m w)\<lparr>cw_insts := (cw_insts w)(inst \<mapsto> (i, mp))\<rparr>))
       (\<lambda>e. (e, w)) w"

text \<open>The handle is made again and dropped: the instance gives back its slot and its reference to the module.\<close>

definition lucet_instance_release :: "sys_ops \<Rightarrow> u64 \<Rightarrow> c_world \<Rightarrow> unit c_out \<times> c_world" where
  "lucet_instance_release sys inst w =
     (case cw_insts w inst of
        None \<Rightarrow> (C_Undefined, w)
      | Some (i, mp) \<Rightarrow>
          (case map_option slot_region (alloc_slot_opt (inst_alloc i)) of
             None \<Rightarrow> (C_Undefined, w)
           | Some rid \<Rightarrow>
               (case cw_regions w rid of
                  None \<Rightarrow> (C_Undefined, w)
                | Some region \<Rightarrow>
                    (case drop_instance sys region inst i (cw_mem w) of
                       (r, region', i', m) \<Rightarrow>
                         (case r of Ok _ \<Rightarrow> C_Return () | Err e \<Rightarrow> C_Undefined | Panic p \<Rightarrow> C_Panic p,
                          (set_mem m w)\<lparr>cw_regions := (cw_regions w)(rid \<mapsto> region'), cw_insts := (cw_insts w)(inst := None),
                             cw_module_ptrs := arc_drop mp (cw_module_ptrs w)\<rparr>)))))"

section \<open>The heap and the context of an instance\<close>

text \<open>\<open>with_instance_ptr_unchecked\<close>.\<close>

definition with_instance_ptr_unchecked :: "u64 \<Rightarrow> (inst \<Rightarrow> 'b run_res) \<Rightarrow> c_world \<Rightarrow> 'b c_out" where
  "with_instance_ptr_unchecked inst body w =
     (case cw_insts w inst of
        None \<Rightarrow> C_Undefined
      | Some (i, _) \<Rightarrow> (case body i of Ok x \<Rightarrow> C_Return x | Err e \<Rightarrow> C_Undefined | Panic p \<Rightarrow> C_Panic p))"

definition lucet_instance_heap :: "u64 \<Rightarrow> c_world \<Rightarrow> u64 c_out" where
  "lucet_instance_heap inst w = with_instance_ptr_unchecked inst (\<lambda>i. map_res slot_heap (alloc_slot (inst_alloc i))) w"

definition lucet_instance_heap_len :: "u64 \<Rightarrow> c_world \<Rightarrow> u32 c_out" where
  "lucet_instance_heap_len inst w =
     with_instance_ptr_unchecked inst (\<lambda>i. map_res (\<lambda>_. ucast (heap_accessible_size (inst_alloc i))) (alloc_slot (inst_alloc i))) w"

definition lucet_instance_check_heap :: "u64 \<Rightarrow> u64 \<Rightarrow> usize \<Rightarrow> c_world \<Rightarrow> bool c_out" where
  "lucet_instance_check_heap inst ptr len w = with_instance_ptr_unchecked inst (\<lambda>i. mem_in_heap (inst_alloc i) ptr len) w"

definition lucet_instance_grow_heap :: "region_ops \<Rightarrow> u64 \<Rightarrow> u32 \<Rightarrow> u64 \<Rightarrow> c_world \<Rightarrow> lucet_error c_out \<times> u32 option \<times> c_world" where
  "lucet_instance_grow_heap region inst additional_pages previous_pages_out w =
     with_instance_ptr inst
       (\<lambda>i mp. case grow_memory region additional_pages i (cw_mem w) of (r, i, m) \<Rightarrow>
          let w' = (set_mem m w)\<lparr>cw_insts := (cw_insts w)(inst \<mapsto> (i, mp))\<rparr> in
          case r of
            Ok previous_pages \<Rightarrow> (C_Return LE_Ok, if previous_pages_out \<noteq> 0 then Some previous_pages else None, w')
          | Err e \<Rightarrow> (C_Return (lucet_error_from e), None, w')
          | Panic p \<Rightarrow> (C_Panic p, None, w'))
       (\<lambda>e. (e, None, w)) w"

text \<open>The pointer an embedder stored; the borrow ends with the expression.\<close>

definition embed_ctx_ptr :: "inst \<Rightarrow> u64 run_res" where
  "embed_ctx_ptr i =
     (case ctx_try_get C_VOID_PTR (inst_embed_ctx i) of
        Ok (Some (Ok x), m) \<Rightarrow> Ok (of_nat (any_value x))
      | Ok (Some (Err _), m) \<Rightarrow> Ok 0
      | Ok (Some (Panic p), m) \<Rightarrow> Panic p
      | Ok (None, m) \<Rightarrow> Ok 0
      | Err e \<Rightarrow> Err e
      | Panic p \<Rightarrow> Panic p)"

definition lucet_instance_embed_ctx :: "u64 \<Rightarrow> c_world \<Rightarrow> u64 c_out" where
  "lucet_instance_embed_ctx inst w = with_instance_ptr_unchecked inst embed_ctx_ptr w"

section \<open>Handlers\<close>

text \<open>The closure around a C signal handler. \<open>c_handler\<close> gets the instance, the trap code and the signal.\<close>

definition signal_handler_closure ::
  "(inst \<Rightarrow> lucet_trapcode \<Rightarrow> signal \<Rightarrow> siginfo \<Rightarrow> ucontext \<Rightarrow> lucet_signal_behavior) \<Rightarrow>
   inst \<Rightarrow> trap_code option \<Rightarrow> signal \<Rightarrow> siginfo \<Rightarrow> ucontext \<Rightarrow> signal_behavior option" where
  "signal_handler_closure c_handler i trap signum siginfo context =
     signal_behavior_from (c_handler i (lucet_trapcode_from trap) signum siginfo context)"

text \<open>\<open>handler\<close> is the number of the closure or the C function.\<close>

definition lucet_instance_set_signal_handler :: "u64 \<Rightarrow> nat \<Rightarrow> c_world \<Rightarrow> lucet_error c_out \<times> c_world" where
  "lucet_instance_set_signal_handler inst handler w =
     with_instance_ptr inst
       (\<lambda>i mp. (C_Return LE_Ok, w\<lparr>cw_insts := (cw_insts w)(inst \<mapsto> (set_signal_handler handler i, mp))\<rparr>)) (\<lambda>e. (e, w)) w"

definition lucet_instance_set_fatal_handler :: "u64 \<Rightarrow> nat \<Rightarrow> c_world \<Rightarrow> lucet_error c_out \<times> c_world" where
  "lucet_instance_set_fatal_handler inst handler w =
     with_instance_ptr inst
       (\<lambda>i mp. (C_Return LE_Ok, w\<lparr>cw_insts := (cw_insts w)(inst \<mapsto> (set_c_fatal_handler handler i, mp))\<rparr>)) (\<lambda>e. (e, w)) w"

section \<open>Hostcalls\<close>

definition lucet_vmctx_terminate :: "u64 \<Rightarrow> unit hc_res" where
  "lucet_vmctx_terminate details = Err (td_provide (Any C_TERMINATION_DETAILS (unat details)))"

definition lucet_vmctx_get_delegate :: "inst \<Rightarrow> u64 run_res" where
  "lucet_vmctx_get_delegate i = embed_ctx_ptr i"

text \<open>\<open>yield_val_try_val\<close> up to the switch to the host, and from there when the guest is resumed.\<close>

definition lucet_vmctx_yield :: "u64 \<Rightarrow> vmctx \<Rightarrow> inst \<Rightarrow> inst hc_res" where
  "lucet_vmctx_yield val v i = yield_impl (Any C_YIELDED_VAL (unat val)) C_YIELDED_VAL True False v i"

definition lucet_vmctx_yield_resumed :: "inst \<Rightarrow> u64 \<times> inst" where
  "lucet_vmctx_yield_resumed i =
     (case try_take_resumed_val C_YIELDED_VAL i of
        (Some x, i') \<Rightarrow> (of_nat (any_value x), i')
      | (None, i') \<Rightarrow> (0, i'))"

definition lucet_vmctx_yield_at_bound_expiration :: "vmctx \<Rightarrow> inst \<Rightarrow> inst hc_res" where
  "lucet_vmctx_yield_at_bound_expiration v i = yield_impl (Any ''()'' 0) ''()'' False True v i"

section \<open>Lemmas\<close>

lemma arc_drop_at: "t p = Some (x, n) \<Longrightarrow> arc_drop p t p = (if n \<le> 1 then None else Some (x, n - 1))"
  by (cases n rule: nat.exhaust; cases "n - 1") (auto simp: arc_drop_def split: nat.split)

lemma arc_drop_other: "q \<noteq> p \<Longrightarrow> arc_drop p t q = t q"
  by (auto simp: arc_drop_def split: option.split nat.split)

lemma new_instance_body_refs:
  assumes "new_instance_body sys pad implicits ctx module inst_out rid mo w = (C_Return e, w')"
  shows "cw_region_ptrs w' = cw_region_ptrs w \<and> cw_module_ptrs w' = (if e = LE_Ok then arc_clone module (cw_module_ptrs w) else cw_module_ptrs w) \<and>
    (if e = LE_Ok then \<exists>i. cw_handles w' = (cw_handles w)(inst_out \<mapsto> inst_ptr i) \<and> cw_insts w' = (cw_insts w)(inst_ptr i \<mapsto> (i, module))
     else cw_handles w' = cw_handles w \<and> cw_insts w' = cw_insts w)"
  using assms by (auto simp: new_instance_body_def set_mem_def split: option.splits rresult.splits prod.splits)

lemma c_args_take: "argc \<le> length vs \<Longrightarrow> c_args argc (Some vs) = Some (C_Return (map val_from (take argc vs)))"
  by (simp add: c_args_def)

lemma retval_read:
  "lucet_retval_gp (lucet_untyped_retval_from v) = word_bytes 8 (rv_gp v)" "word_of_bytes (lucet_retval_gp (lucet_untyped_retval_from v)) = rv_gp v"
  by (simp_all add: lucet_retval_gp_def lucet_untyped_retval_from_def)

lemma c_ptr_roundtrip [simp]: "downcast_ptr t (Any t (unat p)) = p"
  by (simp add: downcast_ptr_def)

section \<open>What C is told\<close>

text \<open>The names of traps and of the reasons for a termination on the two sides of the interface.\<close>

definition trap_names :: "(trap_code \<times> lucet_trapcode) list" where
  "trap_names = [(StackOverflow, LT_StackOverflow), (HeapOutOfBounds, LT_HeapOutOfBounds), (IndirectCallToNull, LT_IndirectCallToNull),
     (BadSignature, LT_BadSignature), (IntegerOverflow, LT_IntegerOverflow), (IntegerDivByZero, LT_IntegerDivByZero),
     (BadConversionToInteger, LT_BadConversionToInteger), (Interrupt, LT_Interrupt), (TableOutOfBounds, LT_TableOutOfBounds),
     (Unreachable, LT_Unreachable), (HeapMisaligned, LT_HeapMisaligned)]"

definition plain_reasons :: "(termination_details \<times> lucet_terminated_reason) list" where
  "plain_reasons = [(TD_Signal, LTR_Signal), (TD_CtxNotFound, LTR_CtxNotFound), (TD_YieldTypeMismatch, LTR_YieldTypeMismatch),
     (TD_Remote, LTR_Remote), (TD_BlockOnNeedsAsync, LTR_BlockOnNeedsAsync), (TD_HeapOutOfMemory, LTR_HeapOutOfMemory)]"

text \<open>\<open>fault_told d f\<close>: the C record \<open>f\<close> tells everything about the fault \<open>d\<close>, its names as terminated strings of 256 bytes.\<close>

definition fault_told :: "fault_details \<Rightarrow> lucet_runtime_faulted \<Rightarrow> bool" where
  "fault_told d f \<longleftrightarrow> rf_fatal f = fatal d \<and> rf_rip_addr f = rip_addr d \<and>
     (case trapcode d of None \<Rightarrow> rf_trapcode f = LT_Unknown | Some t \<Rightarrow> (t, rf_trapcode f) \<in> set trap_names) \<and>
     (let a = rf_rip_addr_details f; pad = (\<lambda>n. c_name n @ replicate (256 - length (c_name n)) 0) in
      case rip_addr_details d of
        None \<Rightarrow> \<not> ad_module_code_resolvable a \<and> \<not> ad_in_module_code a \<and> ad_file_name a = replicate 256 0 \<and> ad_sym_name a = replicate 256 0
      | Some r \<Rightarrow> ad_module_code_resolvable a \<and> ad_in_module_code a = in_module_code r \<and>
          ad_file_name a = pad (file_name r) \<and> ad_sym_name a = pad (sym_name r))"

text \<open>\<open>end_told d t\<close>: the C record \<open>t\<close> tells why the guest was terminated: a pointer provided by C comes back, the payload of a panic is the address
  of its box, and every other reason comes with the null pointer.\<close>

definition end_told :: "(any \<Rightarrow> u64) \<Rightarrow> termination_details \<Rightarrow> lucet_terminated \<Rightarrow> bool" where
  "end_told boxed d t \<longleftrightarrow>
     (case d of
        TD_Provided _ (Any ty p) \<Rightarrow> lt_reason t = LTR_Provided \<and> lt_provided t = (if ty = C_TERMINATION_DETAILS then of_nat p else 0)
      | TD_OtherPanic p \<Rightarrow> lt_reason t = LTR_OtherPanic \<and> lt_provided t = boxed p
      | TD_BorrowError _ \<Rightarrow> lt_reason t = LTR_BorrowError \<and> lt_provided t = 0
      | _ \<Rightarrow> (d, lt_reason t) \<in> set plain_reasons \<and> lt_provided t = 0)"

text \<open>\<open>outcome_told boxed r e res\<close>: the code \<open>e\<close> and the result \<open>res\<close> tell C how the run that gave \<open>r\<close> ended.\<close>

definition outcome_told :: "(any \<Rightarrow> u64) \<Rightarrow> run_result run_res \<Rightarrow> lucet_error \<Rightarrow> lucet_result \<Rightarrow> bool" where
  "outcome_told boxed r e res \<longleftrightarrow>
     (case r of
        Ok (Returned v) \<Rightarrow> e = LE_Ok \<and> res_tag res = Tag_Returned \<and>
          (\<exists>c. res_val res = RV_returned c \<and> word_of_bytes (lucet_retval_gp c) = rv_gp v \<and>
             (\<forall>a m. fst (lucet_retval_f32 a c m) = as_f32 v \<and> fst (lucet_retval_f64 a c m) = as_f64 v))
      | Ok (YieldedResult (Any ty p)) \<Rightarrow> e = LE_Ok \<and> res_tag res = Tag_Yielded \<and> res_val res = RV_yielded (if ty = C_YIELDED_VAL then of_nat p else 0)
      | Err (RuntimeFault d) \<Rightarrow> e = LE_RuntimeFault \<and> res_tag res = Tag_Faulted \<and> (\<exists>f. res_val res = RV_fault f \<and> fault_told d f)
      | Err (RuntimeTerminated d) \<Rightarrow> e = LE_RuntimeTerminated \<and> res_tag res = Tag_Terminated \<and> (\<exists>t. res_val res = RV_terminated t \<and> end_told boxed d t)
      | Err er \<Rightarrow> e = lucet_error_from er \<and> e \<notin> {LE_Ok, LE_RuntimeFault, LE_RuntimeTerminated} \<and> res_tag res = Tag_Errored \<and> res_val res = RV_errored e
      | Panic _ \<Rightarrow> False)"

lemma fault_told_from:
  "fault_told d \<lparr>rf_fatal = fatal d, rf_trapcode = lucet_trapcode_from (trapcode d), rf_rip_addr = rip_addr d,
     rf_rip_addr_details = addr_details_from (rip_addr_details d)\<rparr>"
proof -
  have "case trapcode d of None \<Rightarrow> lucet_trapcode_from (trapcode d) = LT_Unknown | Some t \<Rightarrow> (t, lucet_trapcode_from (trapcode d)) \<in> set trap_names"
    by (cases "trapcode d" rule: lucet_trapcode_from.cases) (simp_all add: trap_names_def)
  moreover have "c_name None = []" by (simp add: c_name_def)
  ultimately show ?thesis by (auto simp: fault_told_def addr_details_from_def Let_def name_array split: option.split)
qed

lemma end_told_from: "end_told boxed d (terminated_from boxed d)"
  by (cases d) (simp_all add: end_told_def plain_reasons_def downcast_ptr_def split: any.split)

lemma outcome_told_from:
  assumes "case r of Ok x \<Rightarrow> y = Inr x | Err er \<Rightarrow> y = Inl er | Panic p \<Rightarrow> False"
  shows "outcome_told boxed r (call_code y) (lucet_result_from boxed y)"
proof (cases r)
  case (Ok x)
  have "fst (lucet_retval_f32 a (lucet_untyped_retval_from v) m) = as_f32 v \<and> fst (lucet_retval_f64 a (lucet_untyped_retval_from v) m) = as_f64 v" for v a m
    by (simp add: retval_store [of _ "rv_fp v"] lucet_untyped_retval_from_def as_f32_def as_f64_def m128_as_f32_def m128_as_f64_def)
  then show ?thesis using assms Ok
    by (cases x) (simp_all add: outcome_told_def call_code_def retval_read downcast_ptr_def split: any.split)
next
  case (Err er)
  then show ?thesis using assms
    by (cases er) (simp_all add: outcome_told_def call_code_def fault_told_from end_told_from)
qed (use assms in simp)

section \<open>Properties\<close>

text \<open>C35: The references behind the handles of C when an instance is created. Without a place for the instance or a region, nothing happens. With all
  pointers given, the region keeps its count, and the module gains exactly the reference of the new instance, whose handle the caller finds at its
  pointer, or none after an error, which writes no handle. But a null module costs the caller's region a reference: with the last one the region handle
  dangles, although the call only reported an invalid argument.\<close>

theorem c_new_instance_references:
  assumes "lucet_region_new_instance_with_ctx sys pad implicits region module embed_ctx inst_out w = (C_Return e, w')"
    and "cw_region_ptrs w region = Some (rid, n)" and "cw_module_ptrs w module = Some (mo, k) \<or> module = 0"
  shows "(inst_out = 0 \<or> region = 0 \<longrightarrow> e = LE_InvalidArgument \<and> w' = w) \<and>
    (inst_out \<noteq> 0 \<and> region \<noteq> 0 \<and> module = 0 \<longrightarrow> e = LE_InvalidArgument \<and>
       cw_region_ptrs w' region = (if n \<le> 1 then None else Some (rid, n - 1))) \<and>
    (inst_out \<noteq> 0 \<and> region \<noteq> 0 \<and> module \<noteq> 0 \<longrightarrow> cw_region_ptrs w' = cw_region_ptrs w \<and>
       cw_module_ptrs w' module = Some (mo, if e = LE_Ok then k + 1 else k) \<and>
       (if e = LE_Ok then \<exists>i. cw_handles w' = (cw_handles w)(inst_out \<mapsto> inst_ptr i) \<and> cw_insts w' = (cw_insts w)(inst_ptr i \<mapsto> (i, module))
        else cw_handles w' = cw_handles w \<and> cw_insts w' = cw_insts w))"
proof (cases "inst_out = 0 \<or> region = 0 \<or> module = 0")
  case True
  with assms show ?thesis
    by (auto simp: lucet_region_new_instance_with_ctx_def with_ffi_arcs_def arc_drop_at split: if_splits)
next
  case False
  then have "new_instance_body sys pad implicits embed_ctx module inst_out rid mo w = (C_Return e, w')"
    using assms by (auto simp: lucet_region_new_instance_with_ctx_def with_ffi_arcs_def split: c_out.splits prod.splits)
  from new_instance_body_refs [OF this] show ?thesis using False assms(3) by (auto simp: arc_clone_def)
qed

text \<open>C34: A C caller that runs a function gets exactly the outcome of the run, in the code and in the written result. After a return the result is
  tagged as such, and the integer and the floating-point values read back from it are the guest's; after a yield it is tagged so and holds the pointer
  the guest yielded, null when the value is not of the pointer type of the C interface; a fault comes with its trap, address, fatality and the
  names around the address; a termination with its reason and the pointer provided to it; any other error with its code. The instance and the host are
  left as the run left them.\<close>

theorem c_run_exact:
  assumes "inst \<noteq> 0" and "cw_insts w inst = Some (i, mp)" and "utf8_valid name" and "argc \<le> length vs" and "result_out \<noteq> 0"
    and "instance_run env (bytes_str name) (map val_from (take argc vs)) i (cw_host w) = Some (r, i', h')" and "\<forall>p. r \<noteq> Panic p"
  shows "\<exists>e res. lucet_instance_run env boxed inst (Some name) argc (Some vs) result_out w =
      Some (C_Return e, Some res, w\<lparr>cw_insts := (cw_insts w)(inst \<mapsto> (i', mp)), cw_host := h'\<rparr>) \<and> outcome_told boxed r e res"
proof -
  obtain y where y: "case r of Ok x \<Rightarrow> y = Inr x | Err er \<Rightarrow> y = Inl er | Panic p \<Rightarrow> False" using assms(7) by (cases r) auto
  have "lucet_instance_run env boxed inst (Some name) argc (Some vs) result_out w =
      Some (C_Return (call_code y), Some (lucet_result_from boxed y), w\<lparr>cw_insts := (cw_insts w)(inst \<mapsto> (i', mp)), cw_host := h'\<rparr>)"
    using assms y by (cases r) (simp_all add: lucet_instance_run_def c_args_take with_instance_ptr_def finish_call_def c_result_def call_code_def)
  then show ?thesis using outcome_told_from [OF y] by blast
qed

text \<open>A signal handler written in C never returns a behaviour: converting the result of the C function calls the conversion
  itself without end, so that the first signal after \<open>lucet_instance_set_signal_handler\<close> exhausts the stack, whatever the handler decides.\<close>

theorem c_signal_handler_diverges:
  "signal_handler_closure c_handler i trap signum siginfo context = None"
  by (simp add: signal_handler_closure_def signal_behavior_from_None)

text \<open>Pointers pass unchanged through a yield in both directions: the pointer the guest yields is the one the C caller finds in its result, with the
  instance waiting for a pointer, and the pointer the caller resumes with is the one the guest's hostcall returns, once.\<close>

theorem c_yield_roundtrip:
  assumes "lucet_vmctx_yield val v i = Ok i1" and "finish_swap i1 = (r, i2)"
    and "inst_resumed_val i3 = Some (Any C_YIELDED_VAL (unat back))"
  shows "r = Ok (Normal (YieldedResult (Any C_YIELDED_VAL (unat val)))) \<and> inst_state i2 = Yielded C_YIELDED_VAL \<and>
    res_val (lucet_result_from boxed (Inr (YieldedResult (Any C_YIELDED_VAL (unat val))))) = RV_yielded val \<and>
    fst (lucet_vmctx_yield_resumed i3) = back \<and> fst (lucet_vmctx_yield_resumed (snd (lucet_vmctx_yield_resumed i3))) = 0"
proof -
  have "inst_state i1 = Yielding (Any C_YIELDED_VAL (unat val)) C_YIELDED_VAL"
    using assms(1) by (auto simp: lucet_vmctx_yield_def yield_impl_def)
  then show ?thesis using assms(2,3)
    by (auto simp: finish_swap_def Let_def lucet_vmctx_yield_resumed_def try_take_resumed_val_def)
qed

section \<open>Properties at concrete inputs\<close>

definition demo_world :: "guest_event list \<Rightarrow> c_world" where
  "demo_world es = \<lparr>cw_region_ptrs = [0x5000 \<mapsto> (0, 1)], cw_module_ptrs = [0x6000 \<mapsto> (demo_module, 1)], cw_regions = [0 \<mapsto> demo_region],
     cw_insts = [0x10000000 \<mapsto> (demo_c_inst, 0x6000)], cw_handles = Map.empty, cw_host = demo_run_host es\<rparr>"

text \<open>A null module releases the caller's only reference to the region.\<close>

theorem c_new_instance_references_witness:
  "\<exists>w'. lucet_region_new_instance_with_ctx demo_sys 0 demo_implicits 0x5000 0 0 0x9000 (demo_world []) = (C_Return LE_InvalidArgument, w') \<and>
     cw_region_ptrs (demo_world []) 0x5000 = Some (0, 1) \<and> cw_region_ptrs w' 0x5000 = None"
proof -
  have r: "cw_region_ptrs (demo_world []) 0x5000 = Some (0, 1)" by (simp add: demo_world_def)
  obtain w' where run: "lucet_region_new_instance_with_ctx demo_sys 0 demo_implicits 0x5000 0 0 0x9000 (demo_world []) = (C_Return LE_InvalidArgument, w')"
    by (simp add: lucet_region_new_instance_with_ctx_def with_ffi_arcs_def r)
  then show ?thesis using c_new_instance_references [OF run r] r by simp
qed

text \<open>C runs \<open>f(7)\<close>, and the guest returns 5.\<close>

theorem c_run_exact_witness:
  "\<exists>res w'. lucet_instance_run demo_env (\<lambda>_. 1) 0x10000000 (Some [0x66]) 1 (Some [lucet_val_from 0 (VI32 7)]) 0x9000 (demo_world [G_Return 5 0 0]) =
      Some (C_Return LE_Ok, Some res, w') \<and> res_tag res = Tag_Returned \<and> (\<exists>c. res_val res = RV_returned c \<and> word_of_bytes (lucet_retval_gp c) = 5)"
proof -
  let ?w = "demo_world [G_Return 5 0 0]" and ?vs = "[lucet_val_from 0 (VI32 7)]"
  have args: "map val_from (take 1 ?vs) = [VI32 7]" by (simp add: val_from_def narrow_ucast)
  have name: "bytes_str [0x66] = ''f''" by code_simp
  have h: "cw_host ?w = demo_run_host [G_Return 5 0 0]" by (simp add: demo_world_def)
  obtain i' h' where "run_func demo_env demo_func [VI32 7] False None demo_c_inst (demo_run_host [G_Return 5 0 0]) =
      Some (Ok (Normal (Returned (untyped_ret_val_new 5 0))), i', h')"
    using run_func_return_event [OF demo_region_internal demo_c_life demo_args_fit(1) demo_bound demo_c_check demo_run_host_fields(3)] by blast
  then have run: "instance_run demo_env (bytes_str [0x66]) (map val_from (take 1 ?vs)) demo_c_inst (cw_host ?w) =
      Some (Ok (Returned (untyped_ret_val_new 5 0)), i', h')"
    unfolding args h name by (simp add: instance_run_def demo_c_inst_def unwrap_internal_def)
  have "cw_insts ?w 0x10000000 = Some (demo_c_inst, 0x6000)" "utf8_valid [0x66]" "1 \<le> length ?vs" by (simp_all add: demo_world_def)
  from c_run_exact [where result_out = "0x9000" and boxed = "\<lambda>_. 1", OF _ this _ run] show ?thesis by (auto simp: outcome_told_def untyped_ret_val_new_def)
qed

theorem c_yield_roundtrip_witness:
  "\<exists>i1 r i2. lucet_vmctx_yield 0x1234 demo_vmctx demo_c_inst = Ok i1 \<and> finish_swap i1 = (r, i2) \<and> inst_state i2 = Yielded C_YIELDED_VAL \<and>
     fst (lucet_vmctx_yield_resumed (demo_c_inst\<lparr>inst_resumed_val := Some (Any C_YIELDED_VAL 0x5678)\<rparr>)) = 0x5678"
proof -
  have "inst_embed_ctx demo_c_inst = ctx_map_new"
    using demo_inst_fields by (simp add: demo_c_inst_def demo_run_inst_def)
  then obtain i1 where y: "lucet_vmctx_yield 0x1234 demo_vmctx demo_c_inst = Ok i1"
    by (simp add: lucet_vmctx_yield_def yield_impl_def ensure_no_borrows_def ensure_no_heap_borrows_def demo_vmctx_def is_any_value_borrowed_def ctx_map_new_def)
  obtain r i2 where f: "finish_swap i1 = (r, i2)" by fastforce
  have "inst_resumed_val (demo_c_inst\<lparr>inst_resumed_val := Some (Any C_YIELDED_VAL 0x5678)\<rparr>) = Some (Any C_YIELDED_VAL (unat (0x5678 :: u64)))" by simp
  from c_yield_roundtrip [OF y f this] show ?thesis using y f by blast
qed

end
