(* ===== verification/Module_Signing.thy ===== *)
theory Module_Signing
  imports Module_Data
begin

text \<open>
  Signing compiled modules (\<open>lucet-module/src/signature.rs\<close>, \<open>module_data.rs\<close>): the signature covers the whole object file and is stored inside
  it, in the module data. The object parser, the \<open>bincode\<close> encoding of the module data and \<open>minisign\<close> are parameters
  (\<open>sig_ops\<close>), with what the code relies on as the locale \<open>sig_codec\<close>. A file system maps paths to contents.
  The lemmas show that a freshly compiled module verifies once it is signed, and that a signed one does not when it is signed again.
\<close>

section \<open>Parameters\<close>

text \<open>The symbols and sections of an object file as the \<open>object\<close> crate reports them.\<close>

record obj_symbol =
  sy_is_data :: bool
  sy_name :: "string option"
  sy_section :: "nat option"
  sy_address :: u64
  sy_size :: u64

record obj_file =
  ob_symbols :: "obj_symbol list"
  ob_section :: "nat \<Rightarrow> (u64 \<times> (u64 \<times> u64) option) option"

text \<open>\<open>ModuleData\<close> with the field for its signature.\<close>

record signed_data =
  sd_data :: module_data
  sd_signature :: "u8 list"

record sig_ops =
  so_parse :: "u8 list \<Rightarrow> obj_file option"
  so_deserialize :: "u8 list \<Rightarrow> signed_data option"
  so_serialize :: "signed_data \<Rightarrow> u8 list option"
  so_bytes :: nat
  so_from_bytes :: "u8 list \<Rightarrow> u8 list option"
  so_to_bytes :: "u8 list \<Rightarrow> u8 list"
  so_sign :: "nat \<Rightarrow> u8 list \<Rightarrow> u8 list option"
  so_verify :: "nat \<Rightarrow> u8 list \<Rightarrow> u8 list \<Rightarrow> bool"

type_synonym 'a sig_res = "(module_error, 'a) rresult"

type_synonym file_system = "string \<Rightarrow> u8 list option"

section \<open>Module data\<close>

definition unsigned_data :: "sig_ops \<Rightarrow> module_data \<Rightarrow> signed_data" where
  "unsigned_data ops d = \<lparr>sd_data = d, sd_signature = replicate (so_bytes ops) 0\<rparr>"

definition md_serialize :: "sig_ops \<Rightarrow> signed_data \<Rightarrow> u8 list sig_res" where
  "md_serialize ops x = (case so_serialize ops x of Some b \<Rightarrow> Ok b | None \<Rightarrow> Err SerializationError)"

definition md_deserialize :: "sig_ops \<Rightarrow> u8 list \<Rightarrow> signed_data sig_res" where
  "md_deserialize ops b = (case so_deserialize ops b of Some x \<Rightarrow> Ok x | None \<Rightarrow> Err DeserializationError)"

definition patch_module_signature :: "sig_ops \<Rightarrow> u8 list \<Rightarrow> u8 list \<Rightarrow> u8 list sig_res" where
  "patch_module_signature ops module_data_bin module_signature =
     (if length module_signature \<noteq> so_bytes ops then Panic ''assertion failed: module_signature.len() == SignatureBones::BYTES''
      else rbind (md_deserialize ops module_data_bin) (\<lambda>module_data.
        rbind (md_serialize ops (module_data\<lparr>sd_signature := module_signature\<rparr>)) (\<lambda>patched.
          if length patched \<noteq> length module_data_bin then Panic ''assertion failed: patched_module_data_bin.len() == module_data_bin.len()''
          else Ok patched)))"

definition clear_module_signature :: "sig_ops \<Rightarrow> u8 list \<Rightarrow> u8 list sig_res" where
  "clear_module_signature ops module_data_bin = patch_module_signature ops module_data_bin (replicate (so_bytes ops) 0)"

section \<open>The object file\<close>

record symbol_place =
  sym_offset :: usize
  sym_len :: usize

record raw_module =
  rm_obj_bin :: "u8 list"
  rm_module_data_offset :: usize
  rm_module_data_len :: usize

definition symbol_matches :: "string \<Rightarrow> obj_symbol \<Rightarrow> bool" where
  "symbol_matches name symb \<longleftrightarrow> sy_is_data symb \<and> sy_name symb = Some name \<and> sy_section symb \<noteq> None"

definition symbol_data :: "sig_ops \<Rightarrow> u8 list \<Rightarrow> string \<Rightarrow> symbol_place option sig_res" where
  "symbol_data ops obj_bin symbol_name =
     (case so_parse ops obj_bin of
        None \<Rightarrow> Err IOError
      | Some obj \<Rightarrow>
          (case find (symbol_matches symbol_name) (ob_symbols obj) of
             None \<Rightarrow> Ok None
           | Some symb \<Rightarrow>
               (case ob_section obj (the (sy_section symb)) of
                  None \<Rightarrow> Panic ''called Result::unwrap() on an Err value''
                | Some (section_address, None) \<Rightarrow> Err IOError
                | Some (section_address, Some (section_offset, _)) \<Rightarrow>
                    Ok (Some \<lparr>sym_offset = sy_address symb - section_address + section_offset, sym_len = sy_size symb\<rparr>))))"

text \<open>\<open>offset_of!(SerializedModule, module_data_len)\<close>: the version takes 16 bytes and \<open>module_data_ptr\<close> 8.\<close>

definition MODULE_DATA_LEN_OFFSET :: usize where
  "MODULE_DATA_LEN_OFFSET = 24"

definition from_file :: "sig_ops \<Rightarrow> file_system \<Rightarrow> string \<Rightarrow> raw_module sig_res" where
  "from_file ops fs path =
     (case fs path of
        None \<Rightarrow> Err IOError
      | Some obj_bin \<Rightarrow>
          rbind (symbol_data ops obj_bin ''lucet_module'') (\<lambda>native.
          rbind (case native of Some s \<Rightarrow> Ok s | None \<Rightarrow> Err IOError) (\<lambda>native.
          rbind (symbol_data ops obj_bin ''lucet_module_data'') (\<lambda>data.
          rbind (case data of Some s \<Rightarrow> Ok s | None \<Rightarrow> Err IOError) (\<lambda>data.
            let start = unat (sym_offset native + MODULE_DATA_LEN_OFFSET) in
            if length obj_bin < start then Panic ''range start index out of range for slice''
            else if length obj_bin - start < 8 then Panic ''range end index 8 out of range for slice''
            else Ok \<lparr>rm_obj_bin = obj_bin, rm_module_data_offset = sym_offset data,
                     rm_module_data_len = word_of_bytes (slice_range start (start + 8) obj_bin)\<rparr>)))))"

definition module_data_bin :: "raw_module \<Rightarrow> u8 list sig_res" where
  "module_data_bin r =
     (let a = unat (rm_module_data_offset r); b = unat (rm_module_data_offset r + rm_module_data_len r) in
      if b < a \<or> length (rm_obj_bin r) < b then Panic ''range out of range for slice'' else Ok (slice_range a b (rm_obj_bin r)))"

definition patch_module_data :: "u8 list \<Rightarrow> raw_module \<Rightarrow> raw_module sig_res" where
  "patch_module_data bin r =
     rbind (module_data_bin r) (\<lambda>old.
       if length old \<noteq> length bin then Panic ''source slice length does not match destination slice length''
       else Ok (r\<lparr>rm_obj_bin := write_slice (unat (rm_module_data_offset r)) bin (rm_obj_bin r)\<rparr>))"

text \<open>The file is opened for writing without truncation; a write past its end would extend it with zeros in between.\<close>

definition write_patched_module_data :: "raw_module \<Rightarrow> string \<Rightarrow> u8 list \<Rightarrow> file_system \<Rightarrow> unit sig_res \<times> file_system" where
  "write_patched_module_data r path bin fs =
     (case fs path of
        None \<Rightarrow> (Err IOError, fs)
      | Some old \<Rightarrow>
          let off = unat (rm_module_data_offset r); old' = old @ replicate (off + length bin - length old) 0 in
          (Ok (), fs(path \<mapsto> write_slice off bin old')))"

section \<open>Signing and verifying\<close>

definition sign_module :: "sig_ops \<Rightarrow> string \<Rightarrow> nat \<Rightarrow> file_system \<Rightarrow> unit sig_res \<times> file_system" where
  "sign_module ops path sk fs =
     (case rbind (from_file ops fs path) (\<lambda>raw.
           rbind (case so_sign ops sk (rm_obj_bin raw) of Some s \<Rightarrow> Ok s | None \<Rightarrow> Err ModuleSignatureError) (\<lambda>signature_box.
           rbind (module_data_bin raw) (\<lambda>bin.
           rbind (patch_module_signature ops bin (so_to_bytes ops signature_box)) (\<lambda>patched. Ok (raw, patched))))) of
        Ok (raw, patched) \<Rightarrow> write_patched_module_data raw path patched fs
      | Err e \<Rightarrow> (Err e, fs)
      | Panic p \<Rightarrow> (Panic p, fs))"

text \<open>\<open>signature\<close> is the one of the module data that was loaded.\<close>

definition verify_module :: "sig_ops \<Rightarrow> string \<Rightarrow> nat \<Rightarrow> u8 list \<Rightarrow> file_system \<Rightarrow> unit sig_res" where
  "verify_module ops path pk signature fs =
     rbind (case so_from_bytes ops signature of Some s \<Rightarrow> Ok s | None \<Rightarrow> Err ModuleSignatureError) (\<lambda>signature_box.
     rbind (from_file ops fs path) (\<lambda>raw.
     rbind (module_data_bin raw) (\<lambda>bin.
     rbind (clear_module_signature ops bin) (\<lambda>cleared.
     rbind (patch_module_data cleared raw) (\<lambda>raw.
       if so_verify ops pk signature_box (rm_obj_bin raw) then Ok () else Err ModuleSignatureError)))))"

section \<open>What the code relies on\<close>

text \<open>Decoding inverts encoding, the array of the signature has a fixed width, signatures survive their bytes, and the public key \<open>pk\<close> accepts what the
  secret key \<open>sk\<close> signed.\<close>

locale sig_codec =
  fixes ops :: sig_ops and sk pk :: nat
  assumes de_ser: "so_serialize ops x = Some b \<Longrightarrow> length (sd_signature x) = so_bytes ops \<Longrightarrow> so_deserialize ops b = Some x"
    and ser_width: "so_serialize ops x = Some b \<Longrightarrow> length (sd_signature x) = so_bytes ops \<Longrightarrow> length s = so_bytes ops \<Longrightarrow>
      \<exists>b'. so_serialize ops (x\<lparr>sd_signature := s\<rparr>) = Some b' \<and> length b' = length b"
    and from_to: "so_sign ops sk m = Some s \<Longrightarrow> so_from_bytes ops (so_to_bytes ops s) = Some s"
    and to_width: "so_sign ops sk m = Some s \<Longrightarrow> length (so_to_bytes ops s) = so_bytes ops"
    and verify_sign: "so_sign ops sk m = Some s \<Longrightarrow> so_verify ops pk s m"

text \<open>An object file of a module with its data at \<open>off\<close>: the two symbols are found, the recorded length is that of the encoded data, which lies in
  the file apart from the length, and what is written over the data does not change what the parser reports.\<close>

definition module_file :: "sig_ops \<Rightarrow> signed_data \<Rightarrow> usize \<Rightarrow> u8 list \<Rightarrow> u8 list \<Rightarrow> bool" where
  "module_file ops x off b obj \<longleftrightarrow> (\<exists>n d. symbol_data ops obj ''lucet_module'' = Ok (Some n) \<and> symbol_data ops obj ''lucet_module_data'' = Ok (Some d) \<and>
     sym_offset d = off \<and> so_serialize ops x = Some b \<and> length (sd_signature x) = so_bytes ops \<and>
     unat (sym_offset n) + 32 \<le> length obj \<and> length obj < 2 ^ 64 \<and> unat off + length b \<le> length obj \<and>
     (unat (sym_offset n) + 32 \<le> unat off \<or> unat off + length b \<le> unat (sym_offset n) + 24) \<and>
     word_of_bytes (slice_range (unat (sym_offset n) + 24) (unat (sym_offset n) + 32) obj) = (of_nat (length b) :: u64) \<and>
     slice_range (unat off) (unat off + length b) obj = b \<and>
     (\<forall>b'. length b' = length b \<longrightarrow> so_parse ops (write_slice (unat off) b' obj) = so_parse ops obj))"

section \<open>Lemmas\<close>

lemma write_read_apart:
  assumes "i + length ys \<le> length xs" and "b \<le> length xs" and "b \<le> i \<or> i + length ys \<le> a"
  shows "slice_range a b (write_slice i ys xs) = slice_range a b xs"
proof (rule nth_equalityI)
  show "length (slice_range a b (write_slice i ys xs)) = length (slice_range a b xs)" using assms by simp
  fix k assume "k < length (slice_range a b (write_slice i ys xs))"
  then have k: "a + k < b" using assms by simp
  then have "write_slice i ys xs ! (a + k) = xs ! (a + k)" using assms by (subst nth_write_slice) auto
  then show "slice_range a b (write_slice i ys xs) ! k = slice_range a b xs ! k" using k assms by (simp add: nth_slice_range)
qed

lemma write_read_same: "i + length ys \<le> length xs \<Longrightarrow> slice_range i (i + length ys) (write_slice i ys xs) = ys"
  by (simp add: slice_range_def write_slice_def)

lemma write_slice_twice: "i + length ys \<le> length xs \<Longrightarrow> length zs = length ys \<Longrightarrow> write_slice i zs (write_slice i ys xs) = write_slice i zs xs"
  by (simp add: write_slice_def)

lemma write_slice_same: "slice_range i (i + length ys) xs = ys \<Longrightarrow> write_slice i ys xs = xs"
  unfolding slice_range_def write_slice_def
  using append_take_drop_id [of "length ys" "drop i xs"] append_take_drop_id [of i xs] by (simp add: add.commute)

text \<open>Reading a module file.\<close>

lemma module_file_read:
  assumes "module_file ops x off b obj"
  shows "from_file ops (fs(path \<mapsto> obj)) path = Ok \<lparr>rm_obj_bin = obj, rm_module_data_offset = off, rm_module_data_len = of_nat (length b)\<rparr>"
    and "module_data_bin \<lparr>rm_obj_bin = obj, rm_module_data_offset = off, rm_module_data_len = of_nat (length b)\<rparr> = Ok b"
    and "patch_module_data c \<lparr>rm_obj_bin = obj, rm_module_data_offset = off, rm_module_data_len = of_nat (length b)\<rparr> =
      (if length b \<noteq> length c then Panic ''source slice length does not match destination slice length''
       else Ok \<lparr>rm_obj_bin = write_slice (unat off) c obj, rm_module_data_offset = off, rm_module_data_len = of_nat (length b)\<rparr>)"
proof -
  obtain n d where sn: "symbol_data ops obj ''lucet_module'' = Ok (Some n)" and sd: "symbol_data ops obj ''lucet_module_data'' = Ok (Some d)"
    and off: "sym_offset d = off"
    and nl: "unat (sym_offset n) + 32 \<le> length obj" and len: "length obj < 2 ^ 64" and dl: "unat off + length b \<le> length obj"
    and wl: "word_of_bytes (slice_range (unat (sym_offset n) + 24) (unat (sym_offset n) + 32) obj) = (of_nat (length b) :: u64)"
    and at: "slice_range (unat off) (unat off + length b) obj = b"
    using assms unfolding module_file_def by blast
  have st: "unat (sym_offset n + MODULE_DATA_LEN_OFFSET) = unat (sym_offset n) + 24"
    using nl len by (simp add: MODULE_DATA_LEN_OFFSET_def unat_add_small)
  have room: "\<not> length obj < unat (sym_offset n) + 24" "\<not> length obj - (unat (sym_offset n) + 24) < 8" using nl by linarith+
  have ub: "unat (of_nat (length b) :: u64) = length b" using dl len by (simp add: unat_of_nat)
  then have ue: "unat (off + of_nat (length b)) = unat off + length b" using dl len by (simp add: unat_add_small)
  show "from_file ops (fs(path \<mapsto> obj)) path = Ok \<lparr>rm_obj_bin = obj, rm_module_data_offset = off, rm_module_data_len = of_nat (length b)\<rparr>"
    using sn sd wl off room by (simp add: from_file_def st Let_def add.commute [of 32])
  show bin: "module_data_bin \<lparr>rm_obj_bin = obj, rm_module_data_offset = off, rm_module_data_len = of_nat (length b)\<rparr> = Ok b"
    using dl at by (simp add: module_data_bin_def ue Let_def)
  then show "patch_module_data c \<lparr>rm_obj_bin = obj, rm_module_data_offset = off, rm_module_data_len = of_nat (length b)\<rparr> =
      (if length b \<noteq> length c then Panic ''source slice length does not match destination slice length''
       else Ok \<lparr>rm_obj_bin = write_slice (unat off) c obj, rm_module_data_offset = off, rm_module_data_len = of_nat (length b)\<rparr>)"
    by (simp add: patch_module_data_def)
qed

text \<open>Other data of the same length can take the place of the data.\<close>

lemma module_file_write:
  assumes "module_file ops x off b obj" and "so_serialize ops y = Some c" and "length c = length b" and "length (sd_signature y) = so_bytes ops"
  shows "module_file ops y off c (write_slice (unat off) c obj)"
proof -
  obtain n d where f: "symbol_data ops obj ''lucet_module'' = Ok (Some n)" "symbol_data ops obj ''lucet_module_data'' = Ok (Some d)"
    "sym_offset d = off" and nl: "unat (sym_offset n) + 32 \<le> length obj" and len: "length obj < 2 ^ 64" and dl: "unat off + length b \<le> length obj"
    and apart: "unat (sym_offset n) + 32 \<le> unat off \<or> unat off + length b \<le> unat (sym_offset n) + 24"
    and wl: "word_of_bytes (slice_range (unat (sym_offset n) + 24) (unat (sym_offset n) + 32) obj) = (of_nat (length b) :: u64)"
    and stable: "\<And>b'. length b' = length b \<Longrightarrow> so_parse ops (write_slice (unat off) b' obj) = so_parse ops obj"
    using assms(1) unfolding module_file_def by blast
  let ?o = "write_slice (unat off) c obj"
  have l: "length ?o = length obj" using dl assms(3) by simp
  have sy: "symbol_data ops ?o m = symbol_data ops obj m" for m using stable [OF assms(3)] by (simp add: symbol_data_def)
  have w: "slice_range (unat (sym_offset n) + 24) (unat (sym_offset n) + 32) ?o = slice_range (unat (sym_offset n) + 24) (unat (sym_offset n) + 32) obj"
    using apart nl dl assms(3) by (intro write_read_apart) auto
  have st: "so_parse ops (write_slice (unat off) b' ?o) = so_parse ops ?o" if "length b' = length c" for b'
    using stable [of b'] stable [OF assms(3)] dl that assms(3) by (simp add: write_slice_twice)
  have at: "slice_range (unat off) (unat off + length c) ?o = c" using dl assms(3) by (intro write_read_same) simp
  show ?thesis unfolding module_file_def
    by (intro exI [of _ n] exI [of _ d] conjI allI impI) (use f sy nl len dl apart wl w l at st assms in auto)
qed

lemma patch_ok:
  assumes "so_deserialize ops b = Some x" and "length sg = so_bytes ops" and "so_serialize ops (x\<lparr>sd_signature := sg\<rparr>) = Some c" and "length c = length b"
  shows "patch_module_signature ops b sg = Ok c"
  using assms by (simp add: patch_module_signature_def md_deserialize_def md_serialize_def)

context sig_codec
begin

text \<open>Signing writes the signature into the file, and verifying checks it against the file with the signature cleared.\<close>

lemma sign_then_verify:
  assumes mf: "module_file ops x off b obj" and sg: "so_sign ops sk obj = Some s"
  obtains c z where "sign_module ops path sk (fs(path \<mapsto> obj)) = (Ok (), fs(path \<mapsto> write_slice (unat off) c obj))"
    "module_file ops (x\<lparr>sd_signature := so_to_bytes ops s\<rparr>) off c (write_slice (unat off) c obj)" "length c = length b"
    "so_serialize ops (unsigned_data ops (sd_data x)) = Some z" "length z = length b"
    "verify_module ops path pk (so_to_bytes ops s) (fs(path \<mapsto> write_slice (unat off) c obj)) =
      (if so_verify ops pk s (write_slice (unat off) z obj) then Ok () else Err ModuleSignatureError)"
proof -
  note tw = to_width [OF sg]
  have ser: "so_serialize ops x = Some b" "length (sd_signature x) = so_bytes ops" and dl: "unat off + length b \<le> length obj"
    using mf unfolding module_file_def by auto
  let ?y = "x\<lparr>sd_signature := so_to_bytes ops s\<rparr>" and ?u = "unsigned_data ops (sd_data x)"
  obtain c where c: "so_serialize ops ?y = Some c" "length c = length b" using ser_width [OF ser tw] by blast
  have u: "?u = x\<lparr>sd_signature := replicate (so_bytes ops) 0\<rparr>" "?u = ?y\<lparr>sd_signature := replicate (so_bytes ops) 0\<rparr>"
    by (simp_all add: unsigned_data_def)
  obtain z where z: "so_serialize ops ?u = Some z" "length z = length b" using ser_width [OF ser, of "replicate (so_bytes ops) 0"] u(1) by auto
  have wf: "module_file ops ?y off c (write_slice (unat off) c obj)" using module_file_write [OF mf c] tw by simp
  have sign: "sign_module ops path sk (fs(path \<mapsto> obj)) = (Ok (), fs(path \<mapsto> write_slice (unat off) c obj))"
    using dl c(2) by (simp add: sign_module_def module_file_read [OF mf] sg patch_ok [OF de_ser [OF ser] tw c]
        write_patched_module_data_def Let_def)
  have clear: "clear_module_signature ops c = Ok z"
    unfolding clear_module_signature_def using z c u(2) de_ser [OF c(1)] tw by (intro patch_ok [where x = ?y]) simp_all
  have zc: "length z = length c" using c(2) z(2) by simp
  have "write_slice (unat off) z (write_slice (unat off) c obj) = write_slice (unat off) z obj" using dl c(2) z(2) by (simp add: write_slice_twice)
  then have "verify_module ops path pk (so_to_bytes ops s) (fs(path \<mapsto> write_slice (unat off) c obj)) =
      (if so_verify ops pk s (write_slice (unat off) z obj) then Ok () else Err ModuleSignatureError)"
    by (simp add: verify_module_def from_to [OF sg] module_file_read [OF wf] clear zc)
  from that [OF sign wf c(2) z this] show thesis .
qed

lemma sign_fresh:
  assumes "module_file ops (unsigned_data ops d) off b obj" and "so_sign ops sk obj = Some s"
  shows "\<exists>c. length c = length b \<and> sign_module ops path sk (fs(path \<mapsto> obj)) = (Ok (), fs(path \<mapsto> write_slice (unat off) c obj)) \<and>
    module_file ops \<lparr>sd_data = d, sd_signature = so_to_bytes ops s\<rparr> off c (write_slice (unat off) c obj) \<and>
    verify_module ops path pk (so_to_bytes ops s) (fs(path \<mapsto> write_slice (unat off) c obj)) = Ok ()"
proof -
  obtain c z where f: "sign_module ops path sk (fs(path \<mapsto> obj)) = (Ok (), fs(path \<mapsto> write_slice (unat off) c obj))"
    "module_file ops ((unsigned_data ops d)\<lparr>sd_signature := so_to_bytes ops s\<rparr>) off c (write_slice (unat off) c obj)" "length c = length b"
    and z: "so_serialize ops (unsigned_data ops (sd_data (unsigned_data ops d))) = Some z"
    and v: "verify_module ops path pk (so_to_bytes ops s) (fs(path \<mapsto> write_slice (unat off) c obj)) =
      (if so_verify ops pk s (write_slice (unat off) z obj) then Ok () else Err ModuleSignatureError)"
    using sign_then_verify [OF assms] by metis
  have "z = b" and "slice_range (unat off) (unat off + length b) obj = b" using z assms(1) by (auto simp: module_file_def unsigned_data_def)
  then have "write_slice (unat off) z obj = obj" using write_slice_same by metis
  then show ?thesis using f v verify_sign [OF assms(2)] by (auto simp: unsigned_data_def)
qed

lemma sign_again:
  assumes "module_file ops x off b obj" and "sd_signature x \<noteq> replicate (so_bytes ops) 0" and "so_sign ops sk obj = Some s"
    and "\<And>m. so_verify ops pk s m \<Longrightarrow> m = obj"
  shows "\<exists>c. length c = length b \<and> sign_module ops path sk (fs(path \<mapsto> obj)) = (Ok (), fs(path \<mapsto> write_slice (unat off) c obj)) \<and>
    module_file ops (x\<lparr>sd_signature := so_to_bytes ops s\<rparr>) off c (write_slice (unat off) c obj) \<and>
    verify_module ops path pk (so_to_bytes ops s) (fs(path \<mapsto> write_slice (unat off) c obj)) = Err ModuleSignatureError"
proof -
  obtain c z where f: "sign_module ops path sk (fs(path \<mapsto> obj)) = (Ok (), fs(path \<mapsto> write_slice (unat off) c obj))"
    "module_file ops (x\<lparr>sd_signature := so_to_bytes ops s\<rparr>) off c (write_slice (unat off) c obj)" "length c = length b"
    and z: "so_serialize ops (unsigned_data ops (sd_data x)) = Some z" "length z = length b"
    and v: "verify_module ops path pk (so_to_bytes ops s) (fs(path \<mapsto> write_slice (unat off) c obj)) =
      (if so_verify ops pk s (write_slice (unat off) z obj) then Ok () else Err ModuleSignatureError)"
    using sign_then_verify [OF assms(1,3)] by metis
  have b: "so_serialize ops x = Some b" "length (sd_signature x) = so_bytes ops" "slice_range (unat off) (unat off + length b) obj = b"
    "unat off + length b \<le> length obj" using assms(1) by (auto simp: module_file_def)
  have "write_slice (unat off) z obj \<noteq> obj"
  proof
    assume eq: "write_slice (unat off) z obj = obj"
    have "slice_range (unat off) (unat off + length z) (write_slice (unat off) z obj) = z" using b(4) z(2) by (intro write_read_same) simp
    then have "z = b" unfolding eq z(2) b(3) by simp
    then have "unsigned_data ops (sd_data x) = x" using de_ser [OF z(1)] de_ser [OF b(1,2)] by (simp add: unsigned_data_def)
    then show False using assms(2) by (metis signed_data.select_convs(2) unsigned_data_def)
  qed
  then have "verify_module ops path pk (so_to_bytes ops s) (fs(path \<mapsto> write_slice (unat off) c obj)) = Err ModuleSignatureError"
    using v assms(4) by auto
  with f show ?thesis by blast
qed

end

section \<open>Properties\<close>

text \<open>C37: A compiled module verifies once it is signed: signing a module file whose signature is still empty succeeds, changes only the bytes of the module
  data, puts the signature there, and verification with the matching public key accepts the file.\<close>

theorem signed_module_verifies:
  assumes "sig_codec ops sk pk" and "module_file ops (unsigned_data ops d) off b obj" and "so_sign ops sk obj = Some s"
  shows "\<exists>c. length c = length b \<and> sign_module ops path sk (fs(path \<mapsto> obj)) = (Ok (), fs(path \<mapsto> write_slice (unat off) c obj)) \<and>
    module_file ops \<lparr>sd_data = d, sd_signature = so_to_bytes ops s\<rparr> off c (write_slice (unat off) c obj) \<and>
    verify_module ops path pk (so_to_bytes ops s) (fs(path \<mapsto> write_slice (unat off) c obj)) = Ok ()"
  by (rule sig_codec.sign_fresh [OF assms])

text \<open>C38: Signing a module that already has a signature makes it invalid: signing reports success and the file then holds the new signature in its
  module data, all other bytes kept; but that signature was computed over the file with the old one in it, while verification checks it against
  the file with an empty signature, and refuses the file.\<close>

theorem resigned_module_invalid:
  assumes "sig_codec ops sk pk" and "module_file ops x off b obj" and "sd_signature x \<noteq> replicate (so_bytes ops) 0"
    and "so_sign ops sk obj = Some s" and "\<And>m. so_verify ops pk s m \<Longrightarrow> m = obj"
  shows "\<exists>c. length c = length b \<and> sign_module ops path sk (fs(path \<mapsto> obj)) = (Ok (), fs(path \<mapsto> write_slice (unat off) c obj)) \<and>
    module_file ops (x\<lparr>sd_signature := so_to_bytes ops s\<rparr>) off c (write_slice (unat off) c obj) \<and>
    verify_module ops path pk (so_to_bytes ops s) (fs(path \<mapsto> write_slice (unat off) c obj)) = Err ModuleSignatureError"
  by (rule sig_codec.sign_again [OF assms])

section \<open>Properties at concrete inputs\<close>

text \<open>A file of 41 bytes: the serialized module at 0, with the length of the data at 24, and one byte of data, the signature, at 40. A signature of a file is
  its last byte plus one.\<close>

definition demo_header :: "u8 list" where
  "demo_header = replicate 24 0 @ [1] @ replicate 15 0"

definition demo_sig_ops :: sig_ops where
  "demo_sig_ops = \<lparr>so_parse = (\<lambda>_. Some \<lparr>ob_symbols = [\<lparr>sy_is_data = True, sy_name = Some ''lucet_module'', sy_section = Some 0, sy_address = 0x1000, sy_size = 40\<rparr>,
         \<lparr>sy_is_data = True, sy_name = Some ''lucet_module_data'', sy_section = Some 0, sy_address = 0x1028, sy_size = 1\<rparr>],
       ob_section = (\<lambda>_. Some (0x1000, Some (0, 41)))\<rparr>),
     so_deserialize = (\<lambda>b. if length b = 1 then Some \<lparr>sd_data = module_data_empty, sd_signature = b\<rparr> else None),
     so_serialize = (\<lambda>x. if sd_data x = module_data_empty then Some (sd_signature x) else None), so_bytes = 1,
     so_from_bytes = (\<lambda>b. if length b = 1 then Some b else None), so_to_bytes = (\<lambda>s. s),
     so_sign = (\<lambda>sk m. if length m = 41 \<and> take 40 m = demo_header then Some [m ! 40 + 1] else None),
     so_verify = (\<lambda>pk s m. length m = 41 \<and> take 40 m = demo_header \<and> s = [m ! 40 + 1])\<rparr>"

interpretation demo_sig: sig_codec demo_sig_ops 0 0
  by unfold_locales (auto simp: demo_sig_ops_def split: if_splits)

lemma demo_symbols:
  "symbol_data demo_sig_ops obj ''lucet_module'' = Ok (Some \<lparr>sym_offset = 0, sym_len = 40\<rparr>)"
  "symbol_data demo_sig_ops obj ''lucet_module_data'' = Ok (Some \<lparr>sym_offset = 40, sym_len = 1\<rparr>)"
  by (simp_all add: symbol_data_def demo_sig_ops_def symbol_matches_def)

lemma demo_module_file: "module_file demo_sig_ops \<lparr>sd_data = module_data_empty, sd_signature = [y]\<rparr> 40 [y] (demo_header @ [y])"
proof -
  have "word_of_bytes (slice_range 24 32 (demo_header @ [y])) = (1 :: u64)"
    by (simp add: demo_header_def slice_range_def word_of_bytes_def numeral_eq_Suc)
  then show ?thesis unfolding module_file_def
    by (intro exI [of _ "\<lparr>sym_offset = 0, sym_len = 40\<rparr>"] exI [of _ "\<lparr>sym_offset = 40, sym_len = 1\<rparr>"])
      (simp add: demo_symbols, simp add: demo_sig_ops_def demo_header_def slice_range_def)
qed

lemma demo_signs: "so_sign demo_sig_ops 0 (demo_header @ [y]) = Some [y + 1]" "so_verify demo_sig_ops 0 [y + 1] m \<Longrightarrow> m = demo_header @ [y]"
proof -
  show "so_sign demo_sig_ops 0 (demo_header @ [y]) = Some [y + 1]" by (simp add: demo_sig_ops_def demo_header_def nth_append)
  assume "so_verify demo_sig_ops 0 [y + 1] m"
  then have m: "length m = 41" "take 40 m = demo_header" "m ! 40 = y" by (simp_all add: demo_sig_ops_def)
  then show "m = demo_header @ [y]" using take_Suc_conv_app_nth [of 40 m] by simp
qed

text \<open>The empty signature becomes 1, and the file verifies.\<close>

theorem signed_module_verifies_witness:
  "\<exists>fs'. sign_module demo_sig_ops ''m.so'' 0 [''m.so'' \<mapsto> demo_header @ [0]] = (Ok (), fs') \<and> verify_module demo_sig_ops ''m.so'' 0 [1] fs' = Ok ()"
proof -
  have u: "unsigned_data demo_sig_ops module_data_empty = \<lparr>sd_data = module_data_empty, sd_signature = [0]\<rparr>" "so_to_bytes demo_sig_ops s = s" for s
    by (simp_all add: unsigned_data_def demo_sig_ops_def)
  have "so_sign demo_sig_ops 0 (demo_header @ [0]) = Some [1]" using demo_signs(1) [of 0] by simp
  from signed_module_verifies [OF demo_sig.sig_codec_axioms demo_module_file [of 0, folded u(1)] this] show ?thesis unfolding u(2) by blast
qed

text \<open>Signing it again replaces 1 by 2, which does not verify.\<close>

theorem resigned_module_invalid_witness:
  "sign_module demo_sig_ops ''m.so'' 0 [''m.so'' \<mapsto> demo_header @ [1]] = (Ok (), [''m.so'' \<mapsto> demo_header @ [2]]) \<and>
     verify_module demo_sig_ops ''m.so'' 0 [2] [''m.so'' \<mapsto> demo_header @ [2]] = Err ModuleSignatureError"
proof -
  have ops: "so_to_bytes demo_sig_ops s = s" "[1] \<noteq> replicate (so_bytes demo_sig_ops) (0 :: u8)" for s by (simp_all add: demo_sig_ops_def)
  have s: "so_sign demo_sig_ops 0 (demo_header @ [1]) = Some [2]" and v: "\<And>m. so_verify demo_sig_ops 0 [2] m \<Longrightarrow> m = demo_header @ [1]"
    using demo_signs [of 1] by simp_all
  obtain c where c: "sign_module demo_sig_ops ''m.so'' 0 [''m.so'' \<mapsto> demo_header @ [1]] = (Ok (), [''m.so'' \<mapsto> write_slice 40 c (demo_header @ [1])])"
    "module_file demo_sig_ops \<lparr>sd_data = module_data_empty, sd_signature = [2]\<rparr> 40 c (write_slice 40 c (demo_header @ [1]))"
    "verify_module demo_sig_ops ''m.so'' 0 [2] [''m.so'' \<mapsto> write_slice 40 c (demo_header @ [1])] = Err ModuleSignatureError"
    using resigned_module_invalid [OF demo_sig.sig_codec_axioms demo_module_file [of 1] _ s v, where fs = Map.empty] ops(2) unfolding ops(1) by auto
  have "c = [2]" using c(2) by (auto simp: module_file_def demo_sig_ops_def)
  then have "write_slice 40 c (demo_header @ [1]) = demo_header @ [2]" by (simp add: write_slice_def demo_header_def)
  with c(1,3) show ?thesis by simp
qed

end
