(* ===== verification/Future.thy ===== *)
theory Future
  imports Run_Examples
begin

text \<open>
  Running an instance from an async context (\<open>internals/future.rs\<close>). An \<open>async fn\<close> is a state machine that an executor polls: \<open>async_at\<close> says
  where it is suspended, and a poll runs it to its next \<open>.await\<close> that is pending or to its end. The futures hostcalls block on are
  the embedder's: \<open>fut id k\<close> is the outcome of the \<open>k\<close>-th poll of the future \<open>id\<close>, and their values are numbers. The guest's events come in
  legs, one for each time it is entered; a poll that needs more legs than there are has not come back (\<open>None\<close>).
\<close>

section \<open>Futures\<close>

datatype 'a poll = Poll_Pending | Poll_Ready 'a

text \<open>\<open>YieldNow\<close>: the outcome and the field \<open>yielded\<close> after the poll; a pending poll has woken the task.\<close>

definition yield_now_new :: bool where
  "yield_now_new = False"

definition yield_now_poll :: "bool \<Rightarrow> unit poll \<times> bool" where
  "yield_now_poll yielded = (if yielded then (Poll_Ready (), yielded) else (Poll_Pending, True))"

type_synonym futures = "nat \<Rightarrow> nat \<Rightarrow> nat option"

datatype await_point = Aw_Future nat nat | Aw_YieldNow bool

datatype async_at = At_Start | At_Run function_handle await_point | At_Done

type_synonym 'a async_out = "('a run_res poll \<times> async_at \<times> guest_event list list \<times> inst \<times> run_host) option"

section \<open>The loop of \<open>run_async_internal\<close>\<close>

text \<open>The guest is entered: resumed with the value of the future, resumed after its bound, or called for the first time.\<close>

definition async_enter ::
  "run_env \<Rightarrow> function_handle \<Rightarrow> val list \<Rightarrow> u64 option \<Rightarrow> any option \<Rightarrow> inst \<Rightarrow> run_host \<Rightarrow>
   (internal_run_result run_res \<times> inst \<times> run_host) option" where
  "async_enter env func args runtime_bound resume i h =
     (if is_yielded (inst_state i)
      then (case resume of
              Some v \<Rightarrow> resume_with_val_impl env v True runtime_bound i h
            | None \<Rightarrow> Some (Panic ''is_yielded implies resume_value is some'', i, h))
      else if is_bound_expired (inst_state i)
      then (case runtime_bound of
              Some n \<Rightarrow> resume_bounded env n i h
            | None \<Rightarrow> Some (Panic ''should have bound if guest had expired bound'', i, h))
      else run_func env func args True runtime_bound i h)"

fun async_loop ::
  "run_env \<Rightarrow> futures \<Rightarrow> function_handle \<Rightarrow> val list \<Rightarrow> u64 option \<Rightarrow> any option \<Rightarrow> guest_event list list \<Rightarrow> inst \<Rightarrow> run_host \<Rightarrow>
   untyped_ret_val async_out" where
  "async_loop env fut func args runtime_bound resume [] i h = None"
| "async_loop env fut func args runtime_bound resume (leg # legs) i h =
     (case async_enter env func args runtime_bound resume i (h\<lparr>rh_guest := leg\<rparr>) of
        None \<Rightarrow> None
      | Some (Err e, i, h) \<Rightarrow> Some (Poll_Ready (Err e), At_Done, legs, i, h)
      | Some (Panic p, i, h) \<Rightarrow> Some (Poll_Ready (Panic p), At_Done, legs, i, h)
      | Some (Ok (Normal (Returned rval)), i, h) \<Rightarrow> Some (Poll_Ready (Ok rval), At_Done, legs, i, h)
      | Some (Ok (Normal (YieldedResult yval)), i, h) \<Rightarrow>
          if any_type yval = yielded_future
          then (case fut (any_value yval) 0 of
                  Some x \<Rightarrow> async_loop env fut func args runtime_bound (Some (Any resume_val x)) legs i h
                | None \<Rightarrow> Some (Poll_Pending, At_Run func (Aw_Future (any_value yval) 1), legs, i, h))
          else Some (Poll_Ready (Err (Unsupported ''cannot yield anything besides a future in Instance::run_async'')), At_Done, legs, i, h)
      | Some (Ok InternalBoundExpired, i, h) \<Rightarrow>
          (case yield_now_poll yield_now_new of
             (Poll_Ready _, _) \<Rightarrow> async_loop env fut func args runtime_bound None legs i h
           | (Poll_Pending, y) \<Rightarrow> Some (Poll_Pending, At_Run func (Aw_YieldNow y), legs, i, h)))"

definition run_async_internal ::
  "run_env \<Rightarrow> futures \<Rightarrow> function_handle \<Rightarrow> val list \<Rightarrow> u64 option \<Rightarrow> guest_event list list \<Rightarrow> inst \<Rightarrow> run_host \<Rightarrow> untyped_ret_val async_out" where
  "run_async_internal env fut func args runtime_bound legs i h =
     (if is_yielded (inst_state i) then Some (Poll_Ready (Err (Unsupported ''cannot run_async a yielded instance'')), At_Done, legs, i, h)
      else async_loop env fut func args runtime_bound None legs i h)"

text \<open>A later poll, at the await point where the loop is suspended.\<close>

definition poll_await ::
  "run_env \<Rightarrow> futures \<Rightarrow> function_handle \<Rightarrow> val list \<Rightarrow> u64 option \<Rightarrow> await_point \<Rightarrow> guest_event list list \<Rightarrow> inst \<Rightarrow> run_host \<Rightarrow>
   untyped_ret_val async_out" where
  "poll_await env fut func args runtime_bound pt legs i h =
     (case pt of
        Aw_Future f k \<Rightarrow>
          (case fut f k of
             None \<Rightarrow> Some (Poll_Pending, At_Run func (Aw_Future f (Suc k)), legs, i, h)
           | Some x \<Rightarrow> async_loop env fut func args runtime_bound (Some (Any resume_val x)) legs i h)
      | Aw_YieldNow y \<Rightarrow>
          (case yield_now_poll y of
             (Poll_Pending, y') \<Rightarrow> Some (Poll_Pending, At_Run func (Aw_YieldNow y'), legs, i, h)
           | (Poll_Ready _, _) \<Rightarrow> async_loop env fut func args runtime_bound None legs i h))"

section \<open>The futures of an instance\<close>

definition run_async ::
  "run_env \<Rightarrow> futures \<Rightarrow> string \<Rightarrow> val list \<Rightarrow> u64 option \<Rightarrow> async_at \<Rightarrow> guest_event list list \<Rightarrow> inst \<Rightarrow> run_host \<Rightarrow> untyped_ret_val async_out" where
  "run_async env fut entrypoint args runtime_bound at legs i h =
     (case at of
        At_Start \<Rightarrow>
          (case mo_export_func (inst_module i) entrypoint of
             Ok func \<Rightarrow> run_async_internal env fut func args runtime_bound legs i h
           | Err e \<Rightarrow> Some (Poll_Ready (Err e), At_Done, legs, i, h)
           | Panic p \<Rightarrow> Some (Poll_Ready (Panic p), At_Done, legs, i, h))
      | At_Run func pt \<Rightarrow> poll_await env fut func args runtime_bound pt legs i h
      | At_Done \<Rightarrow> Some (Poll_Ready (Panic ''async fn resumed after completion''), At_Done, legs, i, h))"

definition ready_unit :: "untyped_ret_val run_res poll \<Rightarrow> unit run_res poll" where
  "ready_unit p = (case p of Poll_Pending \<Rightarrow> Poll_Pending | Poll_Ready r \<Rightarrow> Poll_Ready (map_res (\<lambda>_. ()) r))"

definition run_async_start ::
  "run_env \<Rightarrow> futures \<Rightarrow> u64 option \<Rightarrow> async_at \<Rightarrow> guest_event list list \<Rightarrow> inst \<Rightarrow> run_host \<Rightarrow> unit async_out" where
  "run_async_start env fut runtime_bound at legs i h =
     (case at of
        At_Start \<Rightarrow>
          if \<not> is_not_started (inst_state i) then Some (Poll_Ready (Err StartAlreadyRun), At_Done, legs, i, h)
          else (case mo_start_func (inst_module i) of
              Ok None \<Rightarrow> Some (Poll_Ready (Ok ()), At_Done, legs, i, h)
            | Ok (Some start) \<Rightarrow>
                map_option (\<lambda>(p, y). (ready_unit p, y)) (run_async_internal env fut start [] runtime_bound legs i h)
            | Err e \<Rightarrow> Some (Poll_Ready (Err e), At_Done, legs, i, h)
            | Panic p \<Rightarrow> Some (Poll_Ready (Panic p), At_Done, legs, i, h))
      | At_Run func pt \<Rightarrow> map_option (\<lambda>(p, y). (ready_unit p, y)) (poll_await env fut func [] runtime_bound pt legs i h)
      | At_Done \<Rightarrow> Some (Poll_Ready (Panic ''async fn resumed after completion''), At_Done, legs, i, h))"


section \<open>Invariants\<close>

abbreviation susp :: "inst \<Rightarrow> bool" where
  "susp i \<equiv> is_yielded (inst_state i) \<or> is_bound_expired (inst_state i)"

text \<open>A leg starts in generated code when the guest is called, and in the hostcall it is suspended in otherwise.\<close>

definition legs_wf :: "slot \<Rightarrow> inst \<Rightarrow> guest_event list list \<Rightarrow> bool" where
  "legs_wf s i legs \<longleftrightarrow>
     (case legs of [] \<Rightarrow> True | leg # rest \<Rightarrow> guest_wf (slot_heap s) (susp i) leg \<and> list_all (guest_wf (slot_heap s) True) rest)"

fun at_ok :: "u64 option \<Rightarrow> async_at \<Rightarrow> inst \<Rightarrow> bool" where
  "at_ok bound At_Start i = True"
| "at_ok bound (At_Run func (Aw_Future f k)) i = is_yielded (inst_state i)"
| "at_ok bound (At_Run func (Aw_YieldNow y)) i = (is_bound_expired (inst_state i) \<and> y)"
| "at_ok bound At_Done i = True"

text \<open>What the call of a function needs.\<close>

definition callable :: "slot \<Rightarrow> val list \<Rightarrow> function_handle \<Rightarrow> inst \<Rightarrow> bool" where
  "callable s args func i \<longleftrightarrow> args_fit s args \<and> (\<exists>sig. mo_signature (inst_module i) (fh_id func) = Ok sig)"

text \<open>How a poll can panic: as a call can, or because a bound has expired although none was given.\<close>

definition panic_ok :: "module_ops \<Rightarrow> u64 option \<Rightarrow> string \<Rightarrow> state \<Rightarrow> bool" where
  "panic_ok mo bound p st \<longleftrightarrow> res_matches mo (Panic p) st \<or> is_bound_expired st \<and> bound = None"

definition ready_ok ::
  "(signal \<Rightarrow> sig_action) \<Rightarrow> panic_hook \<Rightarrow> nat \<times> bool \<Rightarrow> slot \<Rightarrow> module_ops \<Rightarrow> u64 option \<Rightarrow> untyped_ret_val run_res poll \<Rightarrow> async_at \<Rightarrow>
   guest_event list list \<Rightarrow> inst \<Rightarrow> run_host \<Rightarrow> bool" where
  "ready_ok sa0 hook0 u s mo bound p at legs i h \<longleftrightarrow>
     (p \<noteq> Poll_Ready (Panic strong_count_panic) \<longrightarrow> idle_host sa0 hook0 u h) \<and> inst_module i = mo \<and>
     (case p of
        Poll_Pending \<Rightarrow> life_ok sa0 hook0 u s i h \<and> (\<exists>func pt. at = At_Run func pt) \<and> at_ok bound at i \<and> legs_wf s i legs
      | Poll_Ready (Ok v) \<Rightarrow> life_ok sa0 hook0 u s i h \<and> is_ready (inst_state i) \<and> at = At_Done
      | Poll_Ready (Err e) \<Rightarrow> life_ok sa0 hook0 u s i h \<and> at = At_Done
      | Poll_Ready (Panic e) \<Rightarrow> panic_ok mo bound e (inst_state i))"

text \<open>The value the guest takes out of its hostcall when it is resumed.\<close>

definition delivered :: "any option \<Rightarrow> inst \<Rightarrow> run_host \<Rightarrow> any list" where
  "delivered resume i h =
     (case resume of
        Some v \<Rightarrow> if inst_state i = Yielded (any_type v) then first_taken (i\<lparr>inst_resumed_val := Some v\<rparr>) h else []
      | None \<Rightarrow> [])"

section \<open>Lemmas\<close>

lemma async_enter_ok:
  assumes region: "region_internal (e_region env)" and life: "life_ok sa0 hook0 (n, b) s i h"
    and wf: "guest_wf (slot_heap s) (susp i) (rh_guest h)" and bound: "bound_ok bound"
    and call: "\<not> susp i \<longrightarrow> callable s args func i" and rv: "is_yielded (inst_state i) \<longrightarrow> resume \<noteq> None"
    and run: "async_enter env func args bound resume i h = Some (r, i', h')"
  shows "(r \<noteq> Panic strong_count_panic \<longrightarrow> idle_host sa0 hook0 (n, b) h') \<and> inst_module i' = inst_module i \<and>
    ((\<forall>p. r \<noteq> Panic p) \<longrightarrow> life_ok sa0 hook0 (n, b) s i' h') \<and>
    (\<forall>x. r = Ok x \<longrightarrow> res_matches (inst_module i) r (inst_state i')) \<and>
    (\<forall>p. r = Panic p \<longrightarrow> panic_ok (inst_module i) bound p (inst_state i')) \<and>
    (susp i \<longrightarrow> (\<exists>ts. rh_taken h' = ts @ delivered resume i h @ rh_taken h))"
proof -
  have idle: "idle_host sa0 hook0 (n, b) h" using life by (simp add: life_ok_def)
  consider (yielded) v where "is_yielded (inst_state i)" "resume = Some v" | (bounded) "\<not> is_yielded (inst_state i)" "is_bound_expired (inst_state i)"
    | (call) "\<not> susp i" using rv by blast
  then show ?thesis
  proof cases
    case yielded
    then have run': "resume_with_val_impl env v True bound i h = Some (r, i', h')" using run by (simp add: async_enter_def)
    obtain t where t: "inst_state i = Yielded t" using yielded(1) by (cases "inst_state i") simp_all
    show ?thesis
    proof (cases "t = any_type v")
      case False
      with run' t life idle yielded(2) show ?thesis by (auto simp: resume_with_val_impl_def delivered_def)
    next
      case True
      obtain im where d: "set_instruction_bound_delta bound (i\<lparr>inst_resumed_val := Some v\<rparr>) = Ok (i\<lparr>inst_resumed_val := Some v, inst_implicits := im\<rparr>)"
        using bound_delta_ok [OF bound] by blast
      then have sw: "swap_and_return env True (i\<lparr>inst_resumed_val := Some v, inst_implicits := im\<rparr>) h = Some (r, i', h')"
        using run' t True by (simp add: resume_with_val_impl_def)
      have wf': "guest_wf (slot_heap s) True (rh_guest h)" using wf yielded(1) by simp
      from resume_life [OF region life wf' _ bound d sw] yielded t True show ?thesis by (auto simp: delivered_def panic_ok_def inst_fixed_def)
    qed
  next
    case bounded
    then have nd: "delivered resume i h = []" by (auto simp: delivered_def split: option.split)
    show ?thesis
    proof (cases bound)
      case None
      with run bounded idle nd show ?thesis by (auto simp: async_enter_def panic_ok_def)
    next
      case (Some k)
      obtain im where d: "set_instruction_bound_delta bound (i\<lparr>inst_resumed_val := inst_resumed_val i\<rparr>) = Ok (i\<lparr>inst_resumed_val := inst_resumed_val i, inst_implicits := im\<rparr>)"
        using bound_delta_ok [OF bound] by blast
      then have sw: "swap_and_return env True (i\<lparr>inst_resumed_val := inst_resumed_val i, inst_implicits := im\<rparr>) h = Some (r, i', h')"
        using run bounded Some by (simp add: async_enter_def resume_bounded_def)
      have wf': "guest_wf (slot_heap s) True (rh_guest h)" using wf bounded by simp
      from resume_life [OF region life wf' _ bound d sw] bounded nd show ?thesis by (auto simp: panic_ok_def inst_fixed_def)
    qed
  next
    case call
    then have run': "run_func env func args True bound i h = Some (r, i', h')" using run by (simp add: async_enter_def)
    have c: "args_fit s args" "\<exists>sig. mo_signature (inst_module i) (fh_id func) = Ok sig" using assms(5) call by (auto simp: callable_def)
    show ?thesis
    proof (cases "run_func_check func args i")
      case (Ok u)
      have wf': "guest_wf (slot_heap s) False (rh_guest h)" using wf call by simp
      from run_func_life [OF region life wf' c(1) bound _ run'] Ok call show ?thesis by (auto simp: panic_ok_def)
    next
      case (Err e)
      with run' life idle call show ?thesis by (auto simp: run_func_def)
    next
      case (Panic p)
      with c(2) show ?thesis by (auto simp: run_func_check_def Let_def split: if_splits)
    qed
  qed
qed

lemma async_loop_ok:
  assumes "region_internal (e_region env)" and "bound_ok bound"
  shows "async_loop env fut func args bound resume legs i h = Some (p, at, legs', i', h') \<Longrightarrow> life_ok sa0 hook0 (n, b) s i h \<Longrightarrow> legs_wf s i legs \<Longrightarrow>
    (\<not> susp i \<longrightarrow> callable s args func i) \<Longrightarrow> (is_yielded (inst_state i) \<longrightarrow> resume \<noteq> None) \<Longrightarrow>
    ready_ok sa0 hook0 (n, b) s (inst_module i) bound p at legs' i' h' \<and>
    (susp i \<longrightarrow> (\<exists>ts. rh_taken h' = ts @ delivered resume i (h\<lparr>rh_guest := hd legs\<rparr>) @ rh_taken h))"
proof (induction legs arbitrary: resume i h)
  case (Cons leg legs)
  obtain r i1 h1 where run: "async_enter env func args bound resume i (h\<lparr>rh_guest := leg\<rparr>) = Some (r, i1, h1)"
    using Cons.prems(1) by (auto split: option.splits)
  have wf: "guest_wf (slot_heap s) (susp i) (rh_guest (h\<lparr>rh_guest := leg\<rparr>))" and rest: "list_all (guest_wf (slot_heap s) True) legs"
    using Cons.prems(3) by (simp_all add: legs_wf_def)
  have life: "life_ok sa0 hook0 (n, b) s i (h\<lparr>rh_guest := leg\<rparr>)" using Cons.prems(2) by simp
  note ok = async_enter_ok [OF assms(1) life wf assms(2) Cons.prems(4,5) run]
  have taken: "susp i \<longrightarrow> (\<exists>ts. rh_taken h1 = ts @ delivered resume i (h\<lparr>rh_guest := hd (leg # legs)\<rparr>) @ rh_taken h)" using ok by simp
  have wf1: "legs_wf s i1 legs" if "susp i1" using rest that by (cases legs) (simp_all add: legs_wf_def)
  show ?case
  proof (cases r)
    case (Ok x)
    then have life1: "life_ok sa0 hook0 (n, b) s i1 h1" "idle_host sa0 hook0 (n, b) h1" and m: "res_matches (inst_module i) (Ok x) (inst_state i1)" and mo: "inst_module i1 = inst_module i" using ok by simp_all
    show ?thesis
    proof (cases x)
      case (Normal y)
      show ?thesis
      proof (cases y)
        case (Returned v)
        with Cons.prems(1) run Ok Normal life1 m mo taken show ?thesis by (auto simp: ready_ok_def)
      next
        case (YieldedResult yv)
        then have y1: "is_yielded (inst_state i1)" using m Normal by simp
        show ?thesis
        proof (cases "any_type yv = yielded_future \<and> fut (any_value yv) 0 \<noteq> None")
          case True
          then obtain z where "async_loop env fut func args bound (Some (Any resume_val z)) legs i1 h1 = Some (p, at, legs', i', h')"
            using Cons.prems(1) run Ok Normal YieldedResult by auto
          from Cons.IH [OF this life1(1) wf1] y1 taken mo show ?thesis by fastforce
        next
          case False
          with Cons.prems(1) run Ok Normal YieldedResult life1 y1 wf1 taken mo show ?thesis by (auto simp: ready_ok_def split: if_splits)
        qed
      qed
    next
      case InternalBoundExpired
      with Cons.prems(1) run Ok life1 m wf1 taken mo show ?thesis by (auto simp: ready_ok_def yield_now_poll_def yield_now_new_def)
    qed
  next
    case (Err e)
    with Cons.prems(1) run ok taken show ?thesis by (auto simp: ready_ok_def)
  next
    case (Panic e)
    with Cons.prems(1) run ok taken show ?thesis by (auto simp: ready_ok_def)
  qed
qed simp

section \<open>Guests that block on futures\<close>






section \<open>Polls\<close>








text \<open>A suspended guest that leaves its hostcall and returns, having taken the value it was resumed with or not.\<close>

lemma suspended_returns:
  assumes region: "region_internal (e_region env)" and life: "life_ok sa0 hook0 (n, b) s i h" and st: "susp i"
    and ks: "ks_domain (inst_kill_state i) = D_Hostcall" "ks_upgraded (inst_kill_state i) = 0"
    and guest: "rh_guest h = ts @ [G_HostcallReturn, G_Return rax rdx fp]"
    and ts: "ts = [] \<or> (\<exists>val. rv = Some val \<and> ts = [G_TakeResumed (any_type val)])"
  shows "\<exists>i' h'. swap_and_return env async (i\<lparr>inst_resumed_val := rv, inst_implicits := im\<rparr>) h =
    Some (Ok (Normal (Returned (untyped_ret_val_new rax fp))), i', h') \<and> inst_state i' = Ready \<and> rh_guest h' = []"
proof -
  have wf: "guest_wf (slot_heap s) True (rh_guest h)" using guest ts by auto
  obtain i0 h0 where ru: "running_ok s True i0 h0" and rv: "inst_resumed_val i0 = rv" and dom: "ks_domain (inst_kill_state i0) = D_Hostcall"
    and up: "ks_upgraded (inst_kill_state i0) = 0"
    and via: "host_returns (idle_host sa0 hook0 (n, b)) (guest_run env (rh_guest h) i0 h0)
      (swap_and_return env async (i\<lparr>inst_resumed_val := rv, inst_implicits := im\<rparr>) h)"
    by (rule resume_via [OF region life wf st, where rv = rv and im = im and async = async]) (use ks in \<open>simp add: that\<close>)
  obtain v where v: "rh_vmctx h0 = Some (slot_heap s, v)" using ru by (auto simp: running_ok_def)
  let ?ret = "[G_HostcallReturn, G_Return rax rdx fp]"
  have tail: "\<exists>j h1. guest_run env ?ret i1 h1' = Some (Ok (), j, h1) \<and> rh_guest h1 = [] \<and> is_running (inst_state j) \<and>
      retvals_gp (inst_ctx j) = (rax, rdx) \<and> retval_fp (inst_ctx j) = fp"
    if "inst_kill_state i1 = inst_kill_state i0" "inst_state i1 = inst_state i0" for i1 h1'
    using that dom up ru by (auto simp: hostcall_return_def end_hostcall_def exit_guest_region_def disable_termination_def
        exit_guest_check_def Let_def running_ok_def ks_hostcall_def)
  have "\<exists>i1 h1. guest_run env (rh_guest h) i0 h0 = guest_run env ?ret i1 h1 \<and> inst_kill_state i1 = inst_kill_state i0 \<and> inst_state i1 = inst_state i0"
  proof (cases "ts = []")
    case True
    with guest show ?thesis by auto
  next
    case False
    then obtain val where val: "rv = Some val" "ts = [G_TakeResumed (any_type val)]" using ts by auto
    from guest_take_first [OF v, of i0 val env] rv val(1)
    have "guest_run env (G_TakeResumed (any_type val) # ?ret) i0 h0 =
        guest_run env ?ret (i0\<lparr>inst_resumed_val := None\<rparr>) (h0\<lparr>rh_taken := val # rh_taken h0\<rparr>)"
      by (simp del: guest_step.simps guest_run.simps add: guest_run.simps(2) [of env "G_TakeResumed (any_type val)"])
    then show ?thesis using guest val(2)
      by (intro exI [of _ "i0\<lparr>inst_resumed_val := None\<rparr>"] exI [of _ "h0\<lparr>rh_taken := val # rh_taken h0\<rparr>"]) (simp del: guest_run.simps)
  qed
  then obtain j h1 where "guest_run env (rh_guest h) i0 h0 = Some (Ok (), j, h1)" "rh_guest h1 = []" "is_running (inst_state j)"
      "retvals_gp (inst_ctx j) = (rax, rdx)" "retval_fp (inst_ctx j) = fp" using tail by (metis (no_types))
  then show ?thesis using via finish_returned [of j] by (auto simp: host_returns_def dest: more_fields)
qed


lemma resume_with_val_returns:
  assumes "region_internal (e_region env)" and "life_ok sa0 hook0 (n, b) s i h" and bound: "bound_ok bound" and st: "inst_state i = Yielded (any_type val)"
    and "ks_domain (inst_kill_state i) = D_Hostcall" "ks_upgraded (inst_kill_state i) = 0"
    and "rh_guest h = [G_TakeResumed (any_type val), G_HostcallReturn, G_Return rax rdx fp]"
  shows "\<exists>i' h'. resume_with_val_impl env val async bound i h = Some (Ok (Normal (Returned (untyped_ret_val_new rax fp))), i', h') \<and> inst_state i' = Ready"
proof -
  obtain im where d: "set_instruction_bound_delta bound (i\<lparr>inst_resumed_val := Some val\<rparr>) = Ok (i\<lparr>inst_resumed_val := Some val, inst_implicits := im\<rparr>)"
    using bound_delta_ok [OF bound] by blast
  have "\<exists>i' h'. swap_and_return env async (i\<lparr>inst_resumed_val := Some val, inst_implicits := im\<rparr>) h =
      Some (Ok (Normal (Returned (untyped_ret_val_new rax fp))), i', h') \<and> inst_state i' = Ready \<and> rh_guest h' = []"
    by (rule suspended_returns [OF assms(1,2) _ assms(5,6), where ts = "[G_TakeResumed (any_type val)]"]) (use assms(4,7) in simp_all)
  with d st show ?thesis by (auto simp: resume_with_val_impl_def)
qed

section \<open>Properties\<close>


text \<open>Blocking on a future delivers its value. While the future is pending a poll changes nothing but asks it again; once it is ready, the guest is resumed
  and its hostcall takes exactly the future's value.\<close>

theorem block_on_delivers:
  assumes "region_internal (e_region env)" and "bound_ok bound" and "life_ok sa0 hook0 (n, b) s i h" and "inst_state i = Yielded resume_val"
    and "legs_wf s i ((G_TakeResumed resume_val # es) # legs)"
  shows "case fut f k of
      None \<Rightarrow> run_async env fut entrypoint args bound (At_Run func (Aw_Future f k)) ((G_TakeResumed resume_val # es) # legs) i h =
        Some (Poll_Pending, At_Run func (Aw_Future f (Suc k)), (G_TakeResumed resume_val # es) # legs, i, h)
    | Some x \<Rightarrow> (\<forall>p at legs' i' h'. run_async env fut entrypoint args bound (At_Run func (Aw_Future f k)) ((G_TakeResumed resume_val # es) # legs) i h =
        Some (p, at, legs', i', h') \<longrightarrow> (\<exists>ts. rh_taken h' = ts @ Any resume_val x # rh_taken h))"
proof (cases "fut f k")
  case None
  then show ?thesis by (simp add: run_async_def poll_await_def)
next
  case (Some x)
  have "\<not> rh_at_entry h" using assms(3,4) by (auto simp: life_ok_def inst_idle_def suspended_def)
  then have d: "delivered (Some (Any resume_val x)) i (h\<lparr>rh_guest := G_TakeResumed resume_val # es\<rparr>) = [Any resume_val x]"
    using assms(4) by (simp add: delivered_def first_taken_def)
  show ?thesis using Some assms(4) d
    async_loop_ok [OF assms(1,2) _ assms(3,5), of fut func args "Some (Any resume_val x)"]
    by (auto simp: run_async_def poll_await_def)
qed


text \<open>C33: When a bounded run is given up at its bound, the next \<open>run_async\<close>, of whatever function and with whatever arguments, goes on with the old run: for an
  instance whose bound has expired it sets the new bound and switches back into the suspended guest, which executes its next event; what that guest returns,
  fails or panics with is the outcome of the poll, a new expiry of the bound leaves it pending, and the entrypoint stays the old one. When the guest gets to
  its return, its value is the outcome. \<open>run\<close> refuses such an instance, and \<open>run_async\<close> without a bound panics.\<close>

theorem expired_run_continues:
  assumes region: "region_internal (e_region env)" and life: "life_ok sa0 hook0 (n, b) s i h" and exp: "is_bound_expired (inst_state i)"
    and ep: "mo_export_func (inst_module i) g = Ok func" and bound: "bound_ok (Some k)"
    and leg: "leg = pre @ G_Return rax rdx fp # es" "guest_wf (slot_heap s) True leg"
  shows "(\<exists>i0 r i' h'. set_instruction_bound_delta (Some k) i = Ok i0 \<and>
      swap_and_return env True i0 (h\<lparr>rh_guest := leg\<rparr>) = Some (r, i', h') \<and>
      length (rh_guest h') < length leg \<and> inst_entrypoint i' = inst_entrypoint i \<and>
      (length (rh_guest h') \<le> length es \<longrightarrow> r = Ok (Normal (Returned (untyped_ret_val_new rax fp))) \<and> inst_state i' = Ready \<or>
         r = Panic strong_count_panic \<and> exit_raced i') \<and>
      (case r of
         Ok (Normal (Returned v)) \<Rightarrow>
           run_async env fut g args (Some k) At_Start (leg # legs) i h = Some (Poll_Ready (Ok v), At_Done, legs, i', h')
       | Ok InternalBoundExpired \<Rightarrow>
           run_async env fut g args (Some k) At_Start (leg # legs) i h = Some (Poll_Pending, At_Run func (Aw_YieldNow True), legs, i', h')
       | Err e \<Rightarrow> run_async env fut g args (Some k) At_Start (leg # legs) i h = Some (Poll_Ready (Err e), At_Done, legs, i', h')
       | Panic p \<Rightarrow> run_async env fut g args (Some k) At_Start (leg # legs) i h = Some (Poll_Ready (Panic p), At_Done, legs, i', h')
       | _ \<Rightarrow> True)) \<and>
    run_async env fut g args None At_Start (leg # legs) i h =
      Some (Poll_Ready (Panic ''should have bound if guest had expired bound''), At_Done, legs, i, h\<lparr>rh_guest := leg\<rparr>) \<and>
    instance_run env g args i h = Some (Err (InvalidArgument ''instance must be ready, starting, or non-fatally faulted''), i, h)"
proof -
  have ny: "\<not> is_yielded (inst_state i)" "\<not> is_ready (inst_state i)" "\<not> is_not_started (inst_state i)" "\<not> is_faulted (inst_state i)"
    using exp by (cases "inst_state i"; simp)+
  have chk: "run_func_check func args i = Err (InvalidArgument ''instance must be ready, starting, or non-fatally faulted'')"
    using ny by (simp add: run_func_check_def Let_def)
  obtain im where d: "set_instruction_bound_delta (Some k) (i\<lparr>inst_resumed_val := inst_resumed_val i\<rparr>) =
      Ok (i\<lparr>inst_resumed_val := inst_resumed_val i, inst_implicits := im\<rparr>)" using bound_delta_ok [OF bound] by blast
  let ?i = "i\<lparr>inst_resumed_val := inst_resumed_val i, inst_implicits := im\<rparr>" and ?h = "h\<lparr>rh_guest := leg\<rparr>"
  have lf: "life_ok sa0 hook0 (n, b) s i ?h" and wf: "guest_wf (slot_heap s) True (rh_guest ?h)" using life leg by simp_all
  obtain i0 h0 where ru: "running_ok s True i0 h0"
    and via: "host_returns (idle_host sa0 hook0 (n, b)) (guest_run env (rh_guest ?h) i0 h0) (swap_and_return env True ?i ?h)"
    by (rule resume_via [OF region lf wf]) (use exp in simp)
  have via': "host_returns (idle_host sa0 hook0 (n, b)) (guest_run env (pre @ G_Return rax rdx fp # es) i0 h0) (swap_and_return env True ?i ?h)"
    using via leg(1) by simp
  obtain r i' h' where run: "swap_and_return env True ?i ?h = Some (r, i', h')" and len: "length (rh_guest h') < length leg"
    and ret: "length (rh_guest h') \<le> length es \<longrightarrow> returned_or_raced r i' rax fp"
    using call_returns [OF region ru leg(2) [unfolded leg(1)] via'] leg(1) by blast
  have ent: "async_enter env func args (Some k) None i ?h = Some (r, i', h')"
    using run d exp ny by (simp add: async_enter_def resume_bounded_def)
  have "inst_entrypoint i' = inst_entrypoint i"
    using resume_life [OF region lf wf _ bound d run] exp by (simp add: inst_fixed_def)
  then have "(\<exists>i0 r i' h'. set_instruction_bound_delta (Some k) i = Ok i0 \<and>
      swap_and_return env True i0 (h\<lparr>rh_guest := leg\<rparr>) = Some (r, i', h') \<and>
      length (rh_guest h') < length leg \<and> inst_entrypoint i' = inst_entrypoint i \<and>
      (length (rh_guest h') \<le> length es \<longrightarrow> r = Ok (Normal (Returned (untyped_ret_val_new rax fp))) \<and> inst_state i' = Ready \<or>
         r = Panic strong_count_panic \<and> exit_raced i') \<and>
      (case r of
         Ok (Normal (Returned v)) \<Rightarrow>
           run_async env fut g args (Some k) At_Start (leg # legs) i h = Some (Poll_Ready (Ok v), At_Done, legs, i', h')
       | Ok InternalBoundExpired \<Rightarrow>
           run_async env fut g args (Some k) At_Start (leg # legs) i h = Some (Poll_Pending, At_Run func (Aw_YieldNow True), legs, i', h')
       | Err e \<Rightarrow> run_async env fut g args (Some k) At_Start (leg # legs) i h = Some (Poll_Ready (Err e), At_Done, legs, i', h')
       | Panic p \<Rightarrow> run_async env fut g args (Some k) At_Start (leg # legs) i h = Some (Poll_Ready (Panic p), At_Done, legs, i', h')
       | _ \<Rightarrow> True))"
    using d run len ret ent ny ep
    by (intro exI [of _ ?i] exI [of _ r] exI [of _ i'] exI [of _ h'])
      (auto simp: run_async_def run_async_internal_def returned_or_raced_def yield_now_poll_def yield_now_new_def
        split: rresult.split internal_run_result.split run_result.split)
  then show ?thesis using exp ny ep chk
    by (simp add: run_async_def run_async_internal_def async_enter_def instance_run_def run_func_def unwrap_internal_def)
qed

section \<open>Properties at concrete inputs\<close>

lemma demo_export: "mo_export_func (inst_module demo_c_inst) ''f'' = Ok demo_func"
  "mo_export_func (inst_module demo_c_inst) ''g'' = Ok (demo_func\<lparr>fh_ptr := 0x1100\<rparr>)"
  by (simp_all add: demo_c_inst_def)


definition demo_blocked :: inst where
  "demo_blocked = demo_yielded\<lparr>inst_state := Yielded resume_val\<rparr>"

lemma demo_blocked_life: "life_ok (h_sigaction demo_host) (HostHook 1) (0, False) demo_slot demo_blocked (demo_suspended_host es)"
  using demo_yielded_life [of es] by (simp add: demo_blocked_def life_ok_def inst_idle_def suspended_def demo_yielded_def)

text \<open>The future is ready with 42, and the guest gets it.\<close>

theorem block_on_delivers_witness:
  "\<exists>p at legs i h. run_async demo_env (\<lambda>_ _. Some 42) ''f'' [] None (At_Run demo_func (Aw_Future 3 1))
      [[G_TakeResumed resume_val, G_HostcallReturn, G_Return 5 0 0]] demo_blocked (demo_suspended_host []) = Some (p, at, legs, i, h) \<and>
    (\<exists>ts. rh_taken h = ts @ [Any resume_val 42])"
proof -
  let ?es = "[G_TakeResumed resume_val, G_HostcallReturn, G_Return 5 0 0]"
  let ?h = "(demo_suspended_host [])\<lparr>rh_guest := ?es\<rparr>"
  have st: "inst_state demo_blocked = Yielded resume_val" and ks: "ks_domain (inst_kill_state demo_blocked) = D_Hostcall"
      "ks_upgraded (inst_kill_state demo_blocked) = 0"
    by (simp_all add: demo_blocked_def demo_yielded_def kill_state_new_def)
  have life: "life_ok (h_sigaction demo_host) (HostHook 1) (0, False) demo_slot demo_blocked ?h" using demo_blocked_life [of "[]"] by simp
  obtain i h where "resume_with_val_impl demo_env (Any resume_val 42) True None demo_blocked ?h =
      Some (Ok (Normal (Returned (untyped_ret_val_new 5 0))), i, h)"
    using resume_with_val_returns [OF demo_region_internal life demo_bound, of "Any resume_val 42" 5 0 0 True] st ks by auto
  then have run: "run_async demo_env (\<lambda>_ _. Some 42) ''f'' [] None (At_Run demo_func (Aw_Future 3 1)) [?es] demo_blocked (demo_suspended_host []) =
      Some (Poll_Ready (Ok (untyped_ret_val_new 5 0)), At_Done, [], i, h)" using st by (simp add: run_async_def poll_await_def async_enter_def)
  have wf: "legs_wf demo_slot demo_blocked [?es]" using st by (simp add: legs_wf_def)
  have "rh_taken (demo_suspended_host []) = []" by (simp add: demo_suspended_host_def)
  then show ?thesis
    using block_on_delivers [OF demo_region_internal demo_bound demo_blocked_life [of "[]"] st wf, where fut = "\<lambda>_ _. Some 42" and f = 3 and k = 1 and
        entrypoint = "''f''" and args = "[]" and func = demo_func] run by auto
qed


text \<open>A call of \<open>g\<close> on an instance suspended in \<open>f\<close> at its bound returns what \<open>f\<close> returns.\<close>

definition demo_expired :: inst where
  "demo_expired = demo_yielded\<lparr>inst_state := BoundExpired, inst_module := inst_module demo_c_inst\<rparr>"

lemma demo_expired_life: "life_ok (h_sigaction demo_host) (HostHook 1) (0, False) demo_slot demo_expired (demo_suspended_host es)"
  using demo_yielded_life [of es] demo_c_life [of es]
  by (simp add: demo_expired_def life_ok_def inst_idle_def suspended_def demo_yielded_def inst_basic_def valid_magic_def wants_signals_def
      demo_c_inst_def demo_run_inst_def)

theorem expired_run_continues_witness:
  "\<exists>i h. run_async demo_env (\<lambda>_ _. None) ''g'' [] (Some 9) At_Start [[G_HostcallReturn, G_Return 5 0 0]] demo_expired (demo_suspended_host []) =
      Some (Poll_Ready (Ok (untyped_ret_val_new 5 0)), At_Done, [], i, h) \<and> inst_entrypoint i = Some demo_func"
proof -
  let ?leg = "[G_HostcallReturn, G_Return 5 0 0]" and ?h = "(demo_suspended_host [])\<lparr>rh_guest := [G_HostcallReturn, G_Return 5 0 0]\<rparr>"
  have ex: "mo_export_func (inst_module demo_expired) ''g'' = Ok (demo_func\<lparr>fh_ptr := 0x1100\<rparr>)" and st: "is_bound_expired (inst_state demo_expired)"
    and ks: "ks_domain (inst_kill_state demo_expired) = D_Hostcall" "ks_upgraded (inst_kill_state demo_expired) = 0"
    and ep: "inst_entrypoint demo_expired = Some demo_func"
    using demo_export by (simp_all add: demo_expired_def demo_yielded_def kill_state_new_def)
  have bound: "bound_ok (Some 9)" by (simp add: bound_ok_def)
  obtain i0 r i h where i0: "set_instruction_bound_delta (Some 9) demo_expired = Ok i0" and sw: "swap_and_return demo_env True i0 ?h = Some (r, i, h)"
    and en: "inst_entrypoint i = inst_entrypoint demo_expired"
    and out: "case r of
         Ok (Normal (Returned v)) \<Rightarrow>
           run_async demo_env (\<lambda>_ _. None) ''g'' [] (Some 9) At_Start [?leg] demo_expired (demo_suspended_host []) = Some (Poll_Ready (Ok v), At_Done, [], i, h)
       | Ok InternalBoundExpired \<Rightarrow>
           run_async demo_env (\<lambda>_ _. None) ''g'' [] (Some 9) At_Start [?leg] demo_expired (demo_suspended_host []) =
             Some (Poll_Pending, At_Run (demo_func\<lparr>fh_ptr := 0x1100\<rparr>) (Aw_YieldNow True), [], i, h)
       | Err e \<Rightarrow> run_async demo_env (\<lambda>_ _. None) ''g'' [] (Some 9) At_Start [?leg] demo_expired (demo_suspended_host []) = Some (Poll_Ready (Err e), At_Done, [], i, h)
       | Panic p \<Rightarrow> run_async demo_env (\<lambda>_ _. None) ''g'' [] (Some 9) At_Start [?leg] demo_expired (demo_suspended_host []) = Some (Poll_Ready (Panic p), At_Done, [], i, h)
       | _ \<Rightarrow> True"
  proof -
    have "?leg = [G_HostcallReturn] @ G_Return 5 0 0 # []" "guest_wf (slot_heap demo_slot) True ?leg" by simp_all
    note expired_run_continues [OF demo_region_internal demo_expired_life [of "[]"] st ex bound this, where fut = "\<lambda>_ _. None" and args = "[]" and legs = "[]"]
    from this [THEN conjunct1] show thesis by (elim exE conjE) (rule that; assumption)
  qed
  obtain im where "set_instruction_bound_delta (Some 9) demo_expired = Ok (demo_expired\<lparr>inst_implicits := im\<rparr>)" using bound_delta_ok [OF bound] by blast
  then have "i0 = demo_expired\<lparr>inst_resumed_val := inst_resumed_val demo_expired, inst_implicits := im\<rparr>" using i0 by simp
  moreover have "life_ok (h_sigaction demo_host) (HostHook 1) (0, False) demo_slot demo_expired ?h" using demo_expired_life [of "[]"] by simp
  ultimately have "r = Ok (Normal (Returned (untyped_ret_val_new 5 0)))"
    using suspended_returns [OF demo_region_internal, of "h_sigaction demo_host" "HostHook 1" 0 False demo_slot demo_expired ?h "[]" 5 0 0
        "inst_resumed_val demo_expired" True im] st ks sw by auto
  with out en ep show ?thesis by auto
qed

end
