(* ===== verification/Object_File.thy ===== *)
theory Object_File
  imports Table_Data Module_Interface
begin

text \<open>
  The object file of a compiled module (\<open>object_file\<close> of \<open>lucetc/src/compiler.rs\<close>, with \<open>traps.rs\<close>, \<open>stack_probe.rs\<close> and the trampolines of
  \<open>function.rs\<close>): the compiled functions with their trap tables, the function manifest, and the structure that ties them together. The code
  Cranelift makes of a function is a parameter, and so is its object module, whose laws are the locale \<open>object_module\<close>. Functions
  are compiled in parallel; \<open>order\<close> is the order in which they get to the object module. The lemmas show what the
  linked manifest holds and that the runtime finds in it exactly the traps of the compiled code.
\<close>

section \<open>Trap tables\<close>

datatype ir_trap_code =
    IR_StackOverflow | IR_HeapOutOfBounds | IR_HeapMisaligned | IR_TableOutOfBounds | IR_IndirectCallToNull | IR_BadSignature
  | IR_IntegerOverflow | IR_IntegerDivisionByZero | IR_BadConversionToInteger | IR_UnreachableCodeReached | IR_Interrupt | IR_User u16

record ir_trap_site =
  its_offset :: u32
  its_code :: ir_trap_code

fun translate_trapcode :: "ir_trap_code \<Rightarrow> ('e, trap_code) rresult" where
  "translate_trapcode IR_StackOverflow = Ok StackOverflow"
| "translate_trapcode IR_HeapOutOfBounds = Ok HeapOutOfBounds"
| "translate_trapcode IR_IndirectCallToNull = Ok IndirectCallToNull"
| "translate_trapcode IR_BadSignature = Ok BadSignature"
| "translate_trapcode IR_IntegerOverflow = Ok IntegerOverflow"
| "translate_trapcode IR_IntegerDivisionByZero = Ok IntegerDivByZero"
| "translate_trapcode IR_BadConversionToInteger = Ok BadConversionToInteger"
| "translate_trapcode IR_Interrupt = Ok Interrupt"
| "translate_trapcode IR_TableOutOfBounds = Ok TableOutOfBounds"
| "translate_trapcode IR_UnreachableCodeReached = Ok Unreachable"
| "translate_trapcode IR_HeapMisaligned = Ok HeapMisaligned"
| "translate_trapcode (IR_User _) = Panic ''we should never emit a user trapcode''"

text \<open>The numbers of the trap codes, \<open>#[repr(u32)]\<close>, and the bytes of a trap site, \<open>#[repr(C)]\<close>.\<close>

definition trap_codes :: "trap_code list" where
  "trap_codes = [StackOverflow, HeapOutOfBounds, IndirectCallToNull, BadSignature, IntegerOverflow, IntegerDivByZero, BadConversionToInteger, Interrupt,
     TableOutOfBounds, Unreachable, HeapMisaligned]"

fun trap_code_num :: "trap_code \<Rightarrow> u32" where
  "trap_code_num StackOverflow = 0"
| "trap_code_num HeapOutOfBounds = 1"
| "trap_code_num IndirectCallToNull = 2"
| "trap_code_num BadSignature = 3"
| "trap_code_num IntegerOverflow = 4"
| "trap_code_num IntegerDivByZero = 5"
| "trap_code_num BadConversionToInteger = 6"
| "trap_code_num Interrupt = 7"
| "trap_code_num TableOutOfBounds = 8"
| "trap_code_num Unreachable = 9"
| "trap_code_num HeapMisaligned = 10"

definition site_bytes :: "trap_site \<Rightarrow> u8 list" where
  "site_bytes t = word_bytes 4 (offset t) @ word_bytes 4 (trap_code_num (code t))"

fun translate_sites :: "ir_trap_site list \<Rightarrow> ('e, trap_site list) rresult" where
  "translate_sites [] = Ok []"
| "translate_sites (s # ss) =
     rbind (translate_trapcode (its_code s)) (\<lambda>c. rbind (translate_sites ss) (\<lambda>ts. Ok (\<lparr>offset = its_offset s, code = c\<rparr> # ts)))"

definition serialize_traps :: "ir_trap_site list \<Rightarrow> ('e, u8 list) rresult" where
  "serialize_traps sites = rbind (translate_sites sites) (\<lambda>ts. Ok (concat (map site_bytes ts)))"

definition trap_sym_for_func :: "string \<Rightarrow> string" where
  "trap_sym_for_func symb = ''lucet_trap_table_'' @ symb"

section \<open>The object module\<close>

text \<open>A data object: its bytes, and where addresses of functions and of data go.\<close>

record reloc_data =
  rd_bytes :: "u8 list"
  rd_funcs :: "(nat \<times> nat) list"
  rd_datas :: "(nat \<times> nat) list"

record ('sig, 'cm) obj_ops = "('sig, 'cm) clif_ops" +
  co_define_data :: "nat \<Rightarrow> reloc_data \<Rightarrow> 'cm \<Rightarrow> (string, 'cm) rresult"
  co_define_function :: "nat \<Rightarrow> u8 list \<Rightarrow> 'cm \<Rightarrow> (string, u32 \<times> 'cm) rresult"
  co_functions :: "'cm \<Rightarrow> nat list"

abbreviation clif_of :: "('sig, 'cm) obj_ops \<Rightarrow> ('sig, 'cm) clif_ops" where
  "clif_of ops \<equiv> clif_ops.truncate ops"

text \<open>The table's data objects name functions; in the object module they are numbers.\<close>

definition reloc_of :: "data_context \<Rightarrow> reloc_data" where
  "reloc_of dx = \<lparr>rd_bytes = dx_bytes dx, rd_funcs = List.map_filter (\<lambda>(pos, n). map_option (Pair pos) (as_funcid n)) (dx_function_addrs dx),
     rd_datas = dx_data_addrs dx\<rparr>"

definition plain_data :: "u8 list \<Rightarrow> reloc_data" where
  "plain_data bs = \<lparr>rd_bytes = bs, rd_funcs = [], rd_datas = []\<rparr>"

record trap_metadata =
  func_size :: u32
  trap_data_id :: nat
  trap_len :: nat

text \<open>\<open>TrapSites::write\<close>.\<close>

definition write_traps :: "('sig, 'cm) obj_ops \<Rightarrow> ir_trap_site list \<Rightarrow> string \<Rightarrow> 'cm \<Rightarrow> (lucetc_error, nat \<times> 'cm) rresult" where
  "write_traps ops sites func_name cm =
     rbind (serialize_traps sites) (\<lambda>bytes.
     rbind (map_err L_ClifModuleError (co_declare_data ops (trap_sym_for_func func_name) LinkLocal cm)) (\<lambda>(trap_data_id, cm).
     rbind (map_err L_ClifModuleError (co_define_data ops trap_data_id (plain_data bytes) cm)) (\<lambda>cm. Ok (trap_data_id, cm))))"

section \<open>Functions\<close>

text \<open>What Cranelift makes of a function: the imported functions it calls, its code and its trap sites.\<close>

record generated =
  gn_calls :: "nat list"
  gn_code :: "u8 list"
  gn_traps :: "ir_trap_site list"

definition clif_compile ::
  "('sig, 'cm) obj_ops \<Rightarrow> u8 list \<Rightarrow> ir_trap_site list \<Rightarrow> nat \<Rightarrow> string \<Rightarrow> 'cm \<Rightarrow> (lucetc_error, trap_metadata \<times> 'cm) rresult" where
  "clif_compile ops emitted sites func_id symb cm =
     rbind (map_err (\<lambda>_. L_FunctionDefinition symb) (co_define_function ops func_id emitted cm)) (\<lambda>(func_size, cm).
     rbind (write_traps ops sites symb cm) (\<lambda>(trap_data_id, cm).
     Ok (\<lparr>func_size = func_size, trap_data_id = trap_data_id, trap_len = length sites\<rparr>, cm)))"

type_synonym trampolines = "(string, nat \<times> nat) hash_map"

definition get_trampoline_func ::
  "('sig, 'cm) obj_ops \<Rightarrow> nat \<Rightarrow> 'sig function_decl \<Rightarrow> trampolines \<times> 'cm \<Rightarrow> (string, nat \<times> trampolines \<times> 'cm) rresult" where
  "get_trampoline_func ops hostcall_index func_decl = (\<lambda>(tramps, cm).
     case map_of tramps (symbol (fd_name func_decl)) of
       Some (funcid, _) \<Rightarrow> Ok (funcid, tramps, cm)
     | None \<Rightarrow>
         rbind (co_declare_function ops (''trampoline_'' @ symbol (fd_name func_decl)) LinkLocal (fd_signature func_decl) cm) (\<lambda>(funcid, cm).
         Ok (funcid, AList.update (symbol (fd_name func_decl)) (funcid, hostcall_index) tramps, cm)))"

text \<open>\<open>make_direct_func\<close> for each call of an imported function.\<close>

fun make_trampolines ::
  "('sig, 'cm) obj_ops \<Rightarrow> 'sig module_decls \<Rightarrow> nat list \<Rightarrow> trampolines \<times> 'cm \<Rightarrow> (lucetc_error, trampolines \<times> 'cm) rresult" where
  "make_trampolines ops decls [] s = Ok s"
| "make_trampolines ops decls (f # fs) s =
     rbind (get_func decls f) (\<lambda>d. rbind (unwrap_option d) (\<lambda>d.
     rbind (map_err L_Input (get_trampoline_func ops f d s)) (\<lambda>(_, s). make_trampolines ops decls fs s)))"

type_synonym function_map = "(nat, trap_metadata) hash_map"

text \<open>The translation of one body, \<open>gen\<close>, and its compilation.\<close>

definition compile_function ::
  "('sig, 'cm) obj_ops \<Rightarrow> 'sig module_decls \<Rightarrow> (nat \<Rightarrow> (lucetc_error, generated) rresult) \<Rightarrow> nat \<Rightarrow> trampolines \<times> 'cm \<Rightarrow>
   (lucetc_error, (nat \<times> trap_metadata) \<times> trampolines \<times> 'cm) rresult" where
  "compile_function ops decls gen f s =
     rbind (get_func decls f) (\<lambda>func. rbind (expect_some ''decl exists for func body'' func) (\<lambda>func.
     rbind (map_err (L_FunctionTranslation (symbol (fd_name func))) (rbind (gen f) (\<lambda>g. map_res (Pair g) (make_trampolines ops decls (gn_calls g) s))))
       (\<lambda>(g, tramps, cm).
     rbind (unwrap_option (as_funcid (fd_name func))) (\<lambda>func_id.
     rbind (clif_compile ops (gn_code g) (gn_traps g) func_id (symbol (fd_name func)) cm) (\<lambda>(trap_metadata, cm).
     Ok ((func_id, trap_metadata), tramps, cm))))))"

fun compile_functions ::
  "('sig, 'cm) obj_ops \<Rightarrow> 'sig module_decls \<Rightarrow> (nat \<Rightarrow> (lucetc_error, generated) rresult) \<Rightarrow> nat list \<Rightarrow> function_map \<times> trampolines \<times> 'cm \<Rightarrow>
   (lucetc_error, function_map \<times> trampolines \<times> 'cm) rresult" where
  "compile_functions ops decls gen [] (fm, s) = Ok (fm, s)"
| "compile_functions ops decls gen (f # order) (fm, s) =
     rbind (compile_function ops decls gen f s) (\<lambda>((func_id, meta), s).
       compile_functions ops decls gen order (AList.update func_id meta fm, s))"

text \<open>\<open>synthesize_trampoline\<close>: the code it builds checks the stack limit and calls the hostcall; \<open>tramp_code\<close> is what Cranelift makes of it.\<close>

definition synthesize_trampoline ::
  "('sig, 'cm) obj_ops \<Rightarrow> 'sig module_decls \<Rightarrow> ('sig \<Rightarrow> name \<Rightarrow> u8 list \<times> ir_trap_site list) \<Rightarrow> string \<Rightarrow> nat \<Rightarrow> nat \<Rightarrow> 'cm \<Rightarrow>
   (lucetc_error, trap_metadata \<times> 'cm) rresult" where
  "synthesize_trampoline ops decls tramp_code hostcall_name trampoline_id hostcall_func_index cm =
     rbind (signature_for_function (dc_info decls) hostcall_func_index) (\<lambda>(hostcall_sig, _).
     rbind (get_func decls hostcall_func_index) (\<lambda>d. rbind (expect_some ''hostcall has been declared'' d) (\<lambda>hostcall_decl.
       case tramp_code hostcall_sig (fd_name hostcall_decl) of (emitted, sites) \<Rightarrow>
         clif_compile ops emitted sites trampoline_id (''trampoline_'' @ hostcall_name) cm)))"

fun compile_trampolines ::
  "('sig, 'cm) obj_ops \<Rightarrow> 'sig module_decls \<Rightarrow> ('sig \<Rightarrow> name \<Rightarrow> u8 list \<times> ir_trap_site list) \<Rightarrow> trampolines \<Rightarrow> function_map \<times> 'cm \<Rightarrow>
   (lucetc_error, function_map \<times> 'cm) rresult" where
  "compile_trampolines ops decls tramp_code [] s = Ok s"
| "compile_trampolines ops decls tramp_code ((hostcall_name, (trampoline_id, hostcall_func_index)) # rest) (fm, cm) =
     rbind (synthesize_trampoline ops decls tramp_code hostcall_name trampoline_id hostcall_func_index cm) (\<lambda>(meta, cm).
       compile_trampolines ops decls tramp_code rest (AList.update trampoline_id meta fm, cm))"

section \<open>The stack probe\<close>

definition STACK_PROBE_SYM :: string where
  "STACK_PROBE_SYM = ''lucet_probestack''"

definition STACK_PROBE_BINARY :: "u8 list" where
  "STACK_PROBE_BINARY = [0x49, 0x89, 0xc3, 0x48, 0x81, 0xec, 0x00, 0x10, 0x00, 0x00, 0x48, 0x85, 0x64, 0x24, 0x08, 0x49,
     0x81, 0xeb, 0x00, 0x10, 0x00, 0x00, 0x49, 0x81, 0xfb, 0x00, 0x10, 0x00, 0x00, 0x77, 0xe4, 0x4c,
     0x29, 0xdc, 0x48, 0x85, 0x64, 0x24, 0x08, 0x48, 0x01, 0xc4, 0xc3]"

definition stack_probe_trap_sites :: "ir_trap_site list" where
  "stack_probe_trap_sites = [\<lparr>its_offset = 10, its_code = IR_StackOverflow\<rparr>, \<lparr>its_offset = 34, its_code = IR_StackOverflow\<rparr>]"

definition stack_probe_declare ::
  "('sig, 'cm) obj_ops \<Rightarrow> ('sig \<Rightarrow> 'sig) \<Rightarrow> 'sig \<Rightarrow> 'sig module_decls \<times> 'cm \<Rightarrow> (lucetc_error, nat \<times> 'sig module_decls \<times> 'cm) rresult" where
  "stack_probe_declare ops add_vmctx probe_sig s =
     unwrap_result (declare_new_function (clif_of ops) add_vmctx STACK_PROBE_SYM LinkLocal \<lparr>wf_params = [], wf_returns = [W_I32]\<rparr> probe_sig s)"

section \<open>The object file\<close>

definition MODULE_DATA_SYM :: string where
  "MODULE_DATA_SYM = ''lucet_module_data''"

definition FUNCTION_MANIFEST_SYM :: string where
  "FUNCTION_MANIFEST_SYM = ''lucet_function_manifest''"

definition LUCET_MODULE_SYM :: string where
  "LUCET_MODULE_SYM = ''lucet_module''"

definition write_module_data :: "('sig, 'cm) obj_ops \<Rightarrow> u8 list \<Rightarrow> 'cm \<Rightarrow> (lucetc_error, nat \<times> 'cm) rresult" where
  "write_module_data ops module_data_bytes cm =
     rbind (map_err L_ClifModuleError (co_declare_data ops MODULE_DATA_SYM LinkLocal cm)) (\<lambda>(module_data_decl, cm).
     rbind (map_err L_ClifModuleError (co_define_data ops module_data_decl (plain_data module_data_bytes) cm)) (\<lambda>cm. Ok (module_data_decl, cm)))"

text \<open>A row of the manifest. Positions are cast to \<open>u32\<close>.\<close>

definition position_u32 :: "u8 list \<Rightarrow> nat" where
  "position_u32 bytes = unat (of_nat (length bytes) :: u32)"

definition write_function_spec :: "nat \<Rightarrow> trap_metadata option \<Rightarrow> reloc_data \<Rightarrow> reloc_data" where
  "write_function_spec func_id metadata ctx =
     (let fsize = (case metadata of Some m \<Rightarrow> func_size m | None \<Rightarrow> 0);
          ctx = ctx\<lparr>rd_funcs := rd_funcs ctx @ [(position_u32 (rd_bytes ctx), func_id)],
                    rd_bytes := rd_bytes ctx @ word_bytes 8 (0 :: u64) @ word_bytes 8 (ucast fsize :: u64)\<rparr>;
          ctx = (case metadata of
              Some m \<Rightarrow> if trap_len m > 0 then ctx\<lparr>rd_datas := rd_datas ctx @ [(position_u32 (rd_bytes ctx), trap_data_id m)]\<rparr> else ctx
            | None \<Rightarrow> ctx);
          len = (case metadata of Some m \<Rightarrow> trap_len m | None \<Rightarrow> 0)
      in ctx\<lparr>rd_bytes := rd_bytes ctx @ word_bytes 8 (0 :: u64) @ word_bytes 8 (of_nat len :: u64)\<rparr>)"

definition write_manifest :: "function_map \<Rightarrow> nat list \<Rightarrow> reloc_data" where
  "write_manifest fm ids = fold (\<lambda>func_id. write_function_spec func_id (map_of fm func_id)) ids (plain_data [])"

text \<open>\<open>write_slice\<close> of \<open>object_file\<close>: an address and a length.\<close>

definition write_slice_ref :: "nat \<Rightarrow> nat \<Rightarrow> reloc_data \<Rightarrow> reloc_data" where
  "write_slice_ref i len ctx = ctx\<lparr>rd_datas := rd_datas ctx @ [(position_u32 (rd_bytes ctx), i)],
     rd_bytes := rd_bytes ctx @ word_bytes 8 (0 :: u64) @ word_bytes 8 (of_nat len :: u64)\<rparr>"

definition native_data :: "version_info \<Rightarrow> nat \<times> nat \<Rightarrow> nat \<times> nat \<Rightarrow> nat \<times> nat \<Rightarrow> reloc_data" where
  "native_data version md tbl mf =
     write_slice_ref (fst mf) (snd mf) (write_slice_ref (fst tbl) (snd tbl) (write_slice_ref (fst md) (snd md) (plain_data (version_write_to version))))"

definition define_named :: "('sig, 'cm) obj_ops \<Rightarrow> string \<Rightarrow> linkage \<Rightarrow> reloc_data \<Rightarrow> 'cm \<Rightarrow> (lucetc_error, nat \<times> 'cm) rresult" where
  "define_named ops symb link d cm =
     rbind (map_err L_ClifModuleError (co_declare_data ops symb link cm)) (\<lambda>(i, cm).
     rbind (map_err L_ClifModuleError (co_define_data ops i d cm)) (\<lambda>cm. Ok (i, cm)))"

text \<open>The function map after all functions, trampolines and the probe are compiled.\<close>

definition compile_all ::
  "('sig, 'cm) obj_ops \<Rightarrow> ('sig \<Rightarrow> 'sig) \<Rightarrow> 'sig \<Rightarrow> (nat \<Rightarrow> (lucetc_error, generated) rresult) \<Rightarrow> ('sig \<Rightarrow> name \<Rightarrow> u8 list \<times> ir_trap_site list) \<Rightarrow>
   nat list \<Rightarrow> 'sig module_decls \<Rightarrow> 'cm \<Rightarrow> (lucetc_error, function_map \<times> 'sig module_decls \<times> 'cm) rresult" where
  "compile_all ops add_vmctx probe_sig gen tramp_code order decls cm =
     rbind (compile_functions ops decls gen order ([], [], cm)) (\<lambda>(fm, tramps, cm).
     rbind (compile_trampolines ops decls tramp_code tramps (fm, cm)) (\<lambda>(fm, cm).
     rbind (stack_probe_declare ops add_vmctx probe_sig (decls, cm)) (\<lambda>(probe_id, decls, cm).
     rbind (get_func decls probe_id) (\<lambda>d. rbind (unwrap_option d) (\<lambda>probe_func.
     rbind (unwrap_option (as_funcid (fd_name probe_func))) (\<lambda>probe_func_id.
     rbind (map_err L_ClifModuleError (co_define_function ops probe_func_id STACK_PROBE_BINARY cm)) (\<lambda>(func_size, cm).
     rbind (write_traps ops stack_probe_trap_sites (symbol (fd_name probe_func)) cm) (\<lambda>(trap_data_id, cm).
     Ok (AList.update probe_func_id \<lparr>func_size = func_size, trap_data_id = trap_data_id, trap_len = length stack_probe_trap_sites\<rparr> fm, decls, cm)))))))))"

text \<open>\<open>bincode\<close> is \<open>serialize\<close>. The result is the number of the data object \<open>lucet_module\<close>.\<close>

definition object_file ::
  "('sig, 'cm) obj_ops \<Rightarrow> ('sig \<Rightarrow> 'sig) \<Rightarrow> 'sig \<Rightarrow> (module_data \<Rightarrow> (lucetc_error, u8 list) rresult) \<Rightarrow> version_info \<Rightarrow>
   (nat \<Rightarrow> (lucetc_error, generated) rresult) \<Rightarrow> ('sig \<Rightarrow> name \<Rightarrow> u8 list \<times> ir_trap_site list) \<Rightarrow> nat list \<Rightarrow> module_features \<Rightarrow>
   'sig module_decls \<Rightarrow> 'cm \<Rightarrow> (lucetc_error, nat \<times> 'cm) rresult" where
  "object_file ops add_vmctx probe_sig serialize version gen tramp_code order features decls cm =
     rbind (get_module_data features decls) (\<lambda>md. rbind (serialize md) (\<lambda>module_data_bytes.
     rbind (compile_all ops add_vmctx probe_sig gen tramp_code order decls cm) (\<lambda>(fm, decls, cm).
     rbind (write_module_data ops module_data_bytes cm) (\<lambda>(module_data_id, cm).
     rbind (write_table_data (\<lambda>i dx. co_define_data ops i (reloc_of dx)) decls cm) (\<lambda>((table_id, table_len), cm).
     let ids = co_functions ops cm in
     rbind (define_named ops FUNCTION_MANIFEST_SYM LinkLocal (write_manifest fm ids) cm) (\<lambda>(manifest_data_id, cm).
     define_named ops LUCET_MODULE_SYM LinkExport
       (native_data version (module_data_id, length module_data_bytes) (table_id, table_len) (manifest_data_id, length ids)) cm))))))"

section \<open>Linking and loading\<close>

text \<open>The linker puts the addresses into the data objects: \<open>faddr\<close> of functions and \<open>daddr\<close> of data.\<close>

definition link_word :: "(nat \<Rightarrow> u64) \<Rightarrow> (nat \<Rightarrow> u64) \<Rightarrow> reloc_data \<Rightarrow> nat \<Rightarrow> u64" where
  "link_word faddr daddr rd p =
     (case map_of (rd_funcs rd) p of
        Some f \<Rightarrow> faddr f
      | None \<Rightarrow> (case map_of (rd_datas rd) p of Some d \<Rightarrow> daddr d | None \<Rightarrow> word_of_bytes (slice_range p (p + 8) (rd_bytes rd))))"

text \<open>The manifest read as \<open>FunctionSpec\<close>s, 32 bytes each with the padding after \<open>code_len\<close>, and a trap table read as \<open>TrapSite\<close>s.\<close>

definition link_spec :: "(nat \<Rightarrow> u64) \<Rightarrow> (nat \<Rightarrow> u64) \<Rightarrow> reloc_data \<Rightarrow> nat \<Rightarrow> function_spec" where
  "link_spec faddr daddr rd k =
     \<lparr>code_addr = link_word faddr daddr rd (32 * k), code_len = ucast (link_word faddr daddr rd (32 * k + 8)),
      traps_addr = link_word faddr daddr rd (32 * k + 16), traps_len = link_word faddr daddr rd (32 * k + 24)\<rparr>"

definition link_manifest :: "(nat \<Rightarrow> u64) \<Rightarrow> (nat \<Rightarrow> u64) \<Rightarrow> reloc_data \<Rightarrow> function_spec list" where
  "link_manifest faddr daddr rd = map (link_spec faddr daddr rd) [0..<length (rd_bytes rd) div 32]"

definition parse_traps :: "nat \<Rightarrow> u8 list \<Rightarrow> trap_site list" where
  "parse_traps n bs = map (\<lambda>j. \<lparr>offset = ucast (word_of_bytes (slice_range (8 * j) (8 * j + 4) bs)),
     code = trap_codes ! unat (ucast (word_of_bytes (slice_range (8 * j + 4) (8 * j + 8) bs)) :: u32)\<rparr>) [0..<n]"

section \<open>What the code relies on\<close>

text \<open>Cranelift's object module, seen through the names of the declared functions in the order of their numbers, and the code and data
  defined so far. A function declared again under the same name is the same function, and nothing is defined twice.\<close>

locale object_module =
  fixes ops :: "('sig, 'cm) obj_ops" and fnames :: "'cm \<Rightarrow> string list" and fcode :: "'cm \<Rightarrow> nat \<rightharpoonup> u8 list" and fdata :: "'cm \<Rightarrow> nat \<rightharpoonup> reloc_data"
  assumes declares_function: "co_declare_function ops s l sg cm = Ok (k, cm') \<Longrightarrow> fcode cm' = fcode cm \<and> fdata cm' = fdata cm \<and>
      fnames cm' = (if s \<in> set (fnames cm) then fnames cm else fnames cm @ [s]) \<and> k < length (fnames cm') \<and> fnames cm' ! k = s"
    and declares_data: "co_declare_data ops s l cm = Ok (d, cm') \<Longrightarrow> fcode cm' = fcode cm \<and> fdata cm' = fdata cm \<and> fnames cm' = fnames cm"
    and defines_data: "co_define_data ops d rd cm = Ok cm' \<Longrightarrow>
      fdata cm d = None \<and> fdata cm' = (fdata cm)(d \<mapsto> rd) \<and> fcode cm' = fcode cm \<and> fnames cm' = fnames cm"
    and defines_function: "co_define_function ops k bs cm = Ok (n, cm') \<Longrightarrow>
      fcode cm k = None \<and> fcode cm' = (fcode cm)(k \<mapsto> bs) \<and> fdata cm' = fdata cm \<and> fnames cm' = fnames cm \<and>
      k < length (fnames cm) \<and> length bs < 2 ^ 32 \<and> n = of_nat (length bs)"
    and functions_listed: "co_functions ops cm = [0..<length (fnames cm)]"

section \<open>Lemmas\<close>

lemma unwrap_Ok_iff [simp]: "unwrap_option x = Ok v \<longleftrightarrow> x = Some v" "expect_some msg x = Ok v \<longleftrightarrow> x = Some v"
  "unwrap_result r = Ok v \<longleftrightarrow> r = Ok v"
  by (auto simp: unwrap_option_def expect_some_def unwrap_result_def split: option.split rresult.split)

lemma slice_block:
  assumes "\<And>x. length (f x) = m" and "k < length xs" and "b \<le> m"
  shows "slice_range (m * k + a) (m * k + b) (concat (map f xs)) = slice_range a b (f (xs ! k))"
  using assms(2)
proof (induction xs arbitrary: k)
  case (Cons x xs)
  show ?case
  proof (cases k)
    case 0
    then show ?thesis using assms(1,3) by (simp add: slice_range_def)
  next
    case (Suc j)
    then have "slice_range (m * k + a) (m * k + b) (concat (map f (x # xs))) = slice_range (m * j + a) (m * j + b) (concat (map f xs))"
      using assms(1) by (simp add: slice_range_def algebra_simps)
    then show ?thesis using Cons Suc by simp
  qed
qed simp

lemma length_concat_block: "(\<And>x. length (f x) = m) \<Longrightarrow> length (concat (map f xs)) = m * length xs"
  by (induction xs) simp_all

lemma trap_codes_num [simp]: "trap_codes ! unat (trap_code_num c) = c"
  by (cases c) (simp_all add: trap_codes_def)

lemma word_of_word_bytes_4 [simp]: "ucast (word_of_bytes (word_bytes 4 (v :: u32))) = v"
proof (rule bit_word_eqI)
  fix n assume "n < LENGTH(32)"
  then have "n div 8 < 4" by (simp add: div_less_iff_less_mult)
  with \<open>n < LENGTH(32)\<close> show "bit (ucast (word_of_bytes (word_bytes 4 v)) :: u32) n = bit v n"
    by (simp add: bit_word_of_bytes word_bytes_def bit_unsigned_iff bit_drop_bit_eq)
qed

lemma parse_serialized: "parse_traps (length ts) (concat (map site_bytes ts)) = ts"
proof (rule nth_equalityI)
  fix j assume "j < length (parse_traps (length ts) (concat (map site_bytes ts)))"
  then have j: "j < length ts" by (simp add: parse_traps_def)
  have l: "length (site_bytes t) = 8" for t by (simp add: site_bytes_def)
  have "slice_range (8 * j) (8 * j + 4) (concat (map site_bytes ts)) = word_bytes 4 (offset (ts ! j))"
    "slice_range (8 * j + 4) (8 * j + 8) (concat (map site_bytes ts)) = word_bytes 4 (trap_code_num (code (ts ! j)))"
    using slice_block [of site_bytes 8 j ts 4 0] slice_block [of site_bytes 8 j ts 8 4] l j by (simp_all add: site_bytes_def slice_range_def)
  then show "parse_traps (length ts) (concat (map site_bytes ts)) ! j = ts ! j" using j by (simp add: parse_traps_def)
qed (simp add: parse_traps_def)

lemma translate_sites_Ok:
  "translate_sites sites = (Ok ts :: (lucetc_error, trap_site list) rresult) \<Longrightarrow> map offset ts = map its_offset sites \<and> length ts = length sites \<and>
    ((\<exists>t \<in> set ts. offset t = o' \<and> code t = c) \<longleftrightarrow>
     (\<exists>site \<in> set sites. its_offset site = o' \<and> translate_trapcode (its_code site) = (Ok c :: (lucetc_error, trap_code) rresult)))"
  by (induction sites arbitrary: ts) auto

definition spec_bytes :: "function_map \<Rightarrow> nat \<Rightarrow> u8 list" where
  "spec_bytes fm i = word_bytes 8 (0 :: u64) @ word_bytes 8 (ucast (case map_of fm i of Some m \<Rightarrow> func_size m | None \<Rightarrow> 0) :: u64) @
     word_bytes 8 (0 :: u64) @ word_bytes 8 (of_nat (case map_of fm i of Some m \<Rightarrow> trap_len m | None \<Rightarrow> 0) :: u64)"

lemma length_spec_bytes [simp]: "length (spec_bytes fm i) = 32"
  by (simp add: spec_bytes_def)

lemma write_manifest_snoc: "write_manifest fm (ids @ [i]) = write_function_spec i (map_of fm i) (write_manifest fm ids)"
  by (simp add: write_manifest_def)

lemma manifest_bytes: "rd_bytes (write_manifest fm ids) = concat (map (spec_bytes fm) ids)"
proof (induction ids rule: rev_induct)
  case (snoc i ids)
  then show ?case by (simp add: write_manifest_snoc write_function_spec_def spec_bytes_def Let_def split: option.split)
qed (simp add: write_manifest_def plain_data_def)

lemma manifest_relocs:
  assumes "32 * length ids < 2 ^ 32"
  shows "map_of (rd_funcs (write_manifest fm ids)) p = (if p mod 32 = 0 \<and> p div 32 < length ids then Some (ids ! (p div 32)) else None)"
    and "map_of (rd_datas (write_manifest fm ids)) p = (if p mod 32 = 16 \<and> p div 32 < length ids
      then (case map_of fm (ids ! (p div 32)) of Some m \<Rightarrow> if trap_len m > 0 then Some (trap_data_id m) else None | None \<Rightarrow> None) else None)"
  using assms
proof (induction ids rule: rev_induct)
  case (snoc i ids)
  let ?n = "length ids"
  have len: "length (rd_bytes (write_manifest fm ids)) = 32 * ?n" by (simp add: manifest_bytes length_concat_block)
  have u: "unat (of_nat m :: u32) = m" if "m < 2 ^ 32" for m using that by (simp add: unat_of_nat)
  have pos: "position_u32 (rd_bytes (write_manifest fm ids)) = 32 * ?n" if "32 * Suc ?n < 2 ^ 32"
    unfolding position_u32_def len by (rule u) (use that in simp)
  have pos': "position_u32 (rd_bytes (write_manifest fm ids) @ word_bytes 8 a @ word_bytes 8 b) = 32 * ?n + 16" if "32 * Suc ?n < 2 ^ 32" for a b :: u64
    unfolding position_u32_def length_append len length_word_bytes using u [of "32 * ?n + 16"] that by simp
  have split: "p div 32 < Suc ?n \<longleftrightarrow> p div 32 < ?n \<or> p div 32 = ?n" "p mod 32 = c \<and> p div 32 = ?n \<longleftrightarrow> p = 32 * ?n + c" if "c < 32" for c
    using that by (auto simp: less_Suc_eq) (metis mult_div_mod_eq)
  { case 1
    then show ?case using snoc.IH(1) pos split [of 0]
      by (auto simp: write_manifest_snoc write_function_spec_def Let_def nth_append map_add_def split: option.split if_splits) }
  { case 2
    then show ?case using snoc.IH(2) pos pos' split [of 16] len
      by (auto simp: write_manifest_snoc write_function_spec_def Let_def nth_append map_add_def split: option.split if_splits) }
qed (simp_all add: write_manifest_def plain_data_def)

text \<open>The linked rows.\<close>

lemma link_manifest_nth:
  assumes "32 * length ids < 2 ^ 32" and "k < length ids"
  shows "link_manifest faddr daddr (write_manifest fm ids) ! k = (case map_of fm (ids ! k) of
      None \<Rightarrow> \<lparr>code_addr = faddr (ids ! k), code_len = 0, traps_addr = 0, traps_len = 0\<rparr>
    | Some m \<Rightarrow> \<lparr>code_addr = faddr (ids ! k), code_len = func_size m, traps_addr = if trap_len m > 0 then daddr (trap_data_id m) else 0,
        traps_len = of_nat (trap_len m)\<rparr>)"
    and "length (link_manifest faddr daddr (write_manifest fm ids)) = length ids"
proof -
  note sl = slice_block [of "spec_bytes fm" 32 k ids, OF length_spec_bytes assms(2), folded manifest_bytes]
  have w: "slice_range (32 * k + 8) (32 * k + 16) (rd_bytes (write_manifest fm ids)) = word_bytes 8 (ucast (case map_of fm (ids ! k) of Some m \<Rightarrow> func_size m | None \<Rightarrow> 0) :: u64)"
    "slice_range (32 * k + 16) (32 * k + 24) (rd_bytes (write_manifest fm ids)) = word_bytes 8 (0 :: u64)"
    "slice_range (32 * k + 24) (32 * k + 32) (rd_bytes (write_manifest fm ids)) = word_bytes 8 (of_nat (case map_of fm (ids ! k) of Some m \<Rightarrow> trap_len m | None \<Rightarrow> 0) :: u64)"
    using sl [of 16 8] sl [of 24 16] sl [of 32 24] by (simp_all add: spec_bytes_def slice_range_def)
  have m: "(32 * k + c) mod 32 = c" "(32 * k + c) div 32 = k" if "c < 32" for c using that by simp_all
  have len: "length (rd_bytes (write_manifest fm ids)) div 32 = length ids" by (simp add: manifest_bytes length_concat_block)
  have uc: "(ucast (ucast n :: u64) :: u32) = n" for n :: u32 by (rule bit_word_eqI) (simp add: bit_simps)
  show "length (link_manifest faddr daddr (write_manifest fm ids)) = length ids" by (simp add: link_manifest_def len)
  show "link_manifest faddr daddr (write_manifest fm ids) ! k = (case map_of fm (ids ! k) of
      None \<Rightarrow> \<lparr>code_addr = faddr (ids ! k), code_len = 0, traps_addr = 0, traps_len = 0\<rparr>
    | Some m \<Rightarrow> \<lparr>code_addr = faddr (ids ! k), code_len = func_size m, traps_addr = if trap_len m > 0 then daddr (trap_data_id m) else 0,
        traps_len = of_nat (trap_len m)\<rparr>)"
    using assms m [of 0] m [of 8] m [of 16] m [of 24] w
    by (auto simp: link_manifest_def len link_spec_def link_word_def manifest_relocs [OF assms(1)] uc add.commute split: option.split)
qed

lemma native_words:
  assumes "length (version_hash version) = 8"
  shows "link_word faddr daddr (native_data version md tbl (mid, n)) 48 = daddr mid" "link_word faddr daddr (native_data version md tbl (mid, n)) 56 = of_nat n"
  using length_version_write_to [OF assms]
  by (simp_all add: link_word_def native_data_def write_slice_ref_def plain_data_def position_u32_def slice_range_def)

section \<open>Compilation\<close>

definition sites_sorted :: "ir_trap_site list \<Rightarrow> bool" where
  "sites_sorted sites \<longleftrightarrow> sorted (map its_offset sites) \<and> distinct (map its_offset sites)"

text \<open>A function in the map and in the object module.\<close>

definition entry_ok ::
  "(nat \<rightharpoonup> u8 list) \<Rightarrow> (nat \<rightharpoonup> reloc_data) \<Rightarrow> function_map \<Rightarrow> nat \<Rightarrow> u8 list \<Rightarrow> ir_trap_site list \<Rightarrow> bool" where
  "entry_ok codes datas fm k bs sites \<longleftrightarrow> (\<exists>m ts. map_of fm k = Some m \<and> codes k = Some bs \<and> length bs < 2 ^ 32 \<and> func_size m = of_nat (length bs) \<and>
     trap_len m = length sites \<and> translate_sites sites = (Ok ts :: (lucetc_error, trap_site list) rresult) \<and>
     datas (trap_data_id m) = Some (plain_data (concat (map site_bytes ts))))"

text \<open>What the linker and the loader do: the code of the functions does not overlap or wrap around, and a data object is found in memory at its
  address.\<close>

definition code_apart :: "(nat \<rightharpoonup> u8 list) \<Rightarrow> (nat \<Rightarrow> u64) \<Rightarrow> bool" where
  "code_apart codes faddr \<longleftrightarrow> (\<forall>k bs. codes k = Some bs \<longrightarrow> unat (faddr k) + length bs \<le> 2 ^ 64) \<and>
     (\<forall>k k' bs bs'. k \<noteq> k' \<longrightarrow> codes k = Some bs \<longrightarrow> codes k' = Some bs' \<longrightarrow>
        unat (faddr k) + length bs \<le> unat (faddr k') \<or> unat (faddr k') + length bs' \<le> unat (faddr k))"

definition data_loaded :: "(nat \<rightharpoonup> reloc_data) \<Rightarrow> (nat \<Rightarrow> u64) \<Rightarrow> (u64 \<Rightarrow> u64 \<Rightarrow> trap_site list) \<Rightarrow> bool" where
  "data_loaded datas daddr trap_mem \<longleftrightarrow> (\<forall>d rd. datas d = Some rd \<longrightarrow> daddr d \<noteq> 0 \<and>
     (\<forall>n. 8 * unat n \<le> length (rd_bytes rd) \<longrightarrow> trap_mem (daddr d) n = parse_traps (unat n) (rd_bytes rd)))"

lemma distinct_u32_length: "distinct (xs :: u32 list) \<Longrightarrow> length xs \<le> 2 ^ 32"
  using card_mono [of UNIV "set xs"] by (simp add: distinct_card [symmetric] card_word)

lemma within_offset:
  fixes a :: u64
  assumes "i < n" and "unat a + n \<le> 2 ^ 64"
  shows "unat (a + of_nat i) = unat a + i" and "unat (a + of_nat i - a) = i"
proof -
  have i: "unat (of_nat i :: u64) = i" using assms by (simp add: unat_of_nat)
  then show "unat (a + of_nat i) = unat a + i" using unat_add_small [of a "of_nat i"] assms by simp
  show "unat (a + of_nat i - a) = i" using i by simp
qed

context object_module
begin

definition grows :: "'cm \<Rightarrow> 'cm \<Rightarrow> bool" where
  "grows cm cm' \<longleftrightarrow> fcode cm \<subseteq>\<^sub>m fcode cm' \<and> fdata cm \<subseteq>\<^sub>m fdata cm' \<and> (\<exists>ns. fnames cm' = fnames cm @ ns)"

lemma grows_refl [simp]: "grows cm cm"
  by (simp add: grows_def)

lemma grows_trans: "grows cm cm1 \<Longrightarrow> grows cm1 cm2 \<Longrightarrow> grows cm cm2"
  by (auto simp: grows_def intro: map_le_trans)

text \<open>The invariant of the function map.\<close>

definition fm_ok :: "function_map \<Rightarrow> 'cm \<Rightarrow> bool" where
  "fm_ok fm cm \<longleftrightarrow> (\<forall>k m. map_of fm k = Some m \<longrightarrow> k < length (fnames cm) \<and>
     (\<exists>bs sites. sites_sorted sites \<and> entry_ok (fcode cm) (fdata cm) fm k bs sites))"

lemma entry_grows: "entry_ok (fcode cm) (fdata cm) fm k bs sites \<Longrightarrow> grows cm cm' \<Longrightarrow> entry_ok (fcode cm') (fdata cm') fm k bs sites"
  by (fastforce simp: entry_ok_def grows_def map_le_def dom_def)

lemma fm_grows: "fm_ok fm cm \<Longrightarrow> grows cm cm' \<Longrightarrow> fm_ok fm cm'"
  unfolding fm_ok_def using entry_grows by (fastforce simp: grows_def)

lemma define_data_grows: "co_define_data ops d rd cm = Ok cm' \<Longrightarrow> grows cm cm'"
  by (drule defines_data) (auto simp: grows_def map_le_def)

lemma declare_data_grows: "co_declare_data ops s l cm = Ok (d, cm') \<Longrightarrow> grows cm cm'"
  by (drule declares_data) (auto simp: grows_def)

lemma declare_function_grows: "co_declare_function ops s l sg cm = Ok (k, cm') \<Longrightarrow> grows cm cm'"
  by (drule declares_function) (auto simp: grows_def)

lemma write_traps_Ok:
  assumes "write_traps ops sites s cm = Ok (d, cm')"
  shows "\<exists>ts. translate_sites sites = (Ok ts :: (lucetc_error, trap_site list) rresult) \<and> fdata cm' d = Some (plain_data (concat (map site_bytes ts))) \<and>
    grows cm cm' \<and> fcode cm' = fcode cm \<and> fnames cm' = fnames cm"
proof -
  obtain ts cm1 where "translate_sites sites = (Ok ts :: (lucetc_error, trap_site list) rresult)"
    and d: "co_declare_data ops (trap_sym_for_func s) LinkLocal cm = Ok (d, cm1)"
    and e: "co_define_data ops d (plain_data (concat (map site_bytes ts))) cm1 = Ok cm'"
    using assms by (auto simp: write_traps_def serialize_traps_def)
  with declares_data [OF d] defines_data [OF e] grows_trans [OF declare_data_grows [OF d] define_data_grows [OF e]] show ?thesis by auto
qed

text \<open>A compiled function joins the map; those before it keep their entries, since nothing is defined twice.\<close>

lemma define_entry:
  assumes "co_define_function ops k bs cm = Ok (n, cm1)" and "write_traps ops sites s cm1 = Ok (d, cm')" and "fm_ok fm cm" and "sites_sorted sites"
  defines "fm' \<equiv> AList.update k \<lparr>func_size = n, trap_data_id = d, trap_len = length sites\<rparr> fm"
  shows "fm_ok fm' cm' \<and> entry_ok (fcode cm') (fdata cm') fm' k bs sites \<and> grows cm cm' \<and>
    (\<forall>k' bs' sites'. entry_ok (fcode cm) (fdata cm) fm k' bs' sites' \<longrightarrow> entry_ok (fcode cm') (fdata cm') fm' k' bs' sites')"
proof -
  obtain ts where ts: "translate_sites sites = (Ok ts :: (lucetc_error, trap_site list) rresult)" "fdata cm' d = Some (plain_data (concat (map site_bytes ts)))"
    "grows cm1 cm'" "fcode cm' = fcode cm1" "fnames cm' = fnames cm1" using write_traps_Ok [OF assms(2)] by blast
  note df = defines_function [OF assms(1)]
  have g: "grows cm cm'" using df ts by (auto simp: grows_def map_le_def)
  have new: "entry_ok (fcode cm') (fdata cm') fm' k bs sites"
    using df ts by (auto simp: entry_ok_def fm'_def update_conv')
  have old: "entry_ok (fcode cm') (fdata cm') fm' k' bs' sites'" if e: "entry_ok (fcode cm) (fdata cm) fm k' bs' sites'" for k' bs' sites'
  proof -
    have "k' \<noteq> k" using e df by (auto simp: entry_ok_def)
    with entry_grows [OF e g] show ?thesis by (simp add: entry_ok_def fm'_def update_conv')
  qed
  have "fm_ok fm' cm'" unfolding fm_ok_def
  proof (intro allI impI)
    fix k' m assume m: "map_of fm' k' = Some m"
    show "k' < length (fnames cm') \<and> (\<exists>bs sites. sites_sorted sites \<and> entry_ok (fcode cm') (fdata cm') fm' k' bs sites)"
    proof (cases "k' = k")
      case True
      with new assms(4) df ts show ?thesis by auto
    next
      case False
      then have "map_of fm k' = Some m" using m by (simp add: fm'_def update_conv')
      with assms(3) old df ts show ?thesis unfolding fm_ok_def by fastforce
    qed
  qed
  with new old g show ?thesis by blast
qed

lemma clif_compile_entry:
  assumes "clif_compile ops bs sites k s cm = Ok (m, cm')" and "fm_ok fm cm" and "sites_sorted sites"
  shows "fm_ok (AList.update k m fm) cm' \<and> entry_ok (fcode cm') (fdata cm') (AList.update k m fm) k bs sites \<and> grows cm cm' \<and>
    (\<forall>k' bs' sites'. entry_ok (fcode cm) (fdata cm) fm k' bs' sites' \<longrightarrow> entry_ok (fcode cm') (fdata cm') (AList.update k m fm) k' bs' sites')"
proof -
  obtain n cm1 d where "co_define_function ops k bs cm = Ok (n, cm1)" "write_traps ops sites s cm1 = Ok (d, cm')"
    "m = \<lparr>func_size = n, trap_data_id = d, trap_len = length sites\<rparr>"
    using assms(1) by (auto simp: clif_compile_def)
  with define_entry [OF this(1,2) assms(2,3)] show ?thesis by simp
qed

lemma make_trampolines_grows: "make_trampolines ops decls fs (tr, cm) = Ok (tr', cm') \<Longrightarrow> grows cm cm'"
proof (induction fs arbitrary: tr cm)
  case (Cons f fs)
  obtain d k tr1 cm1 where g: "get_trampoline_func ops f d (tr, cm) = Ok (k, tr1, cm1)" and r: "make_trampolines ops decls fs (tr1, cm1) = Ok (tr', cm')"
    using Cons.prems by auto
  have "grows cm cm1" using g declare_function_grows by (auto simp: get_trampoline_func_def split: option.splits)
  then show ?case using Cons.IH [OF r] by (rule grows_trans)
qed simp

lemma get_func_name: "get_func decls f = Ok (Some d) \<Longrightarrow> fd_name d = dc_function_names decls ! f \<and> f < length (dc_function_names decls)"
  by (auto simp: get_func_def list_get_def split: if_splits)

lemma compile_functions_ok:
  assumes sorted: "\<forall>f g. gen f = Ok g \<longrightarrow> sites_sorted (gn_traps g)"
  shows "compile_functions ops decls gen order (fm, tr, cm) = Ok (fm', tr', cm') \<Longrightarrow> fm_ok fm cm \<Longrightarrow>
    fm_ok fm' cm' \<and> grows cm cm' \<and> (\<forall>k bs sites. entry_ok (fcode cm) (fdata cm) fm k bs sites \<longrightarrow> entry_ok (fcode cm') (fdata cm') fm' k bs sites) \<and>
    (\<forall>f \<in> set order. \<exists>g k. gen f = Ok g \<and> f < length (dc_function_names decls) \<and> as_funcid (dc_function_names decls ! f) = Some k \<and>
      entry_ok (fcode cm') (fdata cm') fm' k (gn_code g) (gn_traps g))"
proof (induction order arbitrary: fm tr cm)
  case (Cons f order)
  obtain k m tr1 cm1 where c: "compile_function ops decls gen f (tr, cm) = Ok ((k, m), tr1, cm1)"
    and r: "compile_functions ops decls gen order (AList.update k m fm, tr1, cm1) = Ok (fm', tr', cm')" using Cons.prems(1) by auto
  obtain d g cm0 where d: "get_func decls f = Ok (Some d)" and g: "gen f = Ok g" and t: "make_trampolines ops decls (gn_calls g) (tr, cm) = Ok (tr1, cm0)"
    and k: "as_funcid (fd_name d) = Some k" and cc: "clif_compile ops (gn_code g) (gn_traps g) k (symbol (fd_name d)) cm0 = Ok (m, cm1)"
    using c by (clarsimp simp: compile_function_def simp del: as_funcid.simps)
  have g0: "grows cm cm0" by (rule make_trampolines_grows [OF t])
  note ce = clif_compile_entry [OF cc fm_grows [OF Cons.prems(2) g0] sorted [rule_format, OF g]]
  note ih = Cons.IH [OF r]
  have gr: "grows cm cm1" using g0 ce grows_trans by blast
  show ?case using ih ce g k get_func_name [OF d] grows_trans [OF gr] entry_grows [OF _ g0] by auto
qed simp

lemma compile_trampolines_ok:
  assumes sorted: "\<forall>sg n. sites_sorted (snd (tramp_code sg n))"
  shows "compile_trampolines ops decls tramp_code trs (fm, cm) = Ok (fm', cm') \<Longrightarrow> fm_ok fm cm \<Longrightarrow>
    fm_ok fm' cm' \<and> grows cm cm' \<and> (\<forall>k bs sites. entry_ok (fcode cm) (fdata cm) fm k bs sites \<longrightarrow> entry_ok (fcode cm') (fdata cm') fm' k bs sites)"
proof (induction trs arbitrary: fm cm)
  case (Cons x trs)
  obtain s k f where x: "x = (s, k, f)" by (rule prod_cases3)
  obtain m cm1 where c: "synthesize_trampoline ops decls tramp_code s k f cm = Ok (m, cm1)"
    and r: "compile_trampolines ops decls tramp_code trs (AList.update k m fm, cm1) = Ok (fm', cm')" using Cons.prems(1) x by auto
  obtain bs sites sg n where tc: "tramp_code sg n = (bs, sites)" and cc: "clif_compile ops bs sites k (''trampoline_'' @ s) cm = Ok (m, cm1)"
    using c by (clarsimp simp: synthesize_trampoline_def case_prod_beta simp del: append_Cons) (metis prod.collapse)
  have "sites_sorted sites" using sorted tc by (metis snd_conv)
  note ce = clif_compile_entry [OF cc Cons.prems(2) this]
  show ?case using Cons.IH [OF r] ce grows_trans by blast
qed simp

lemma compile_all_ok:
  assumes "\<forall>f g. gen f = Ok g \<longrightarrow> sites_sorted (gn_traps g)" and "\<forall>sg n. sites_sorted (snd (tramp_code sg n))"
    and "compile_all ops add_vmctx probe_sig gen tramp_code order decls cm = Ok (fm, decls', cm')"
  shows "fm_ok fm cm' \<and> grows cm cm' \<and> (\<forall>f \<in> set order. \<exists>g k. gen f = Ok g \<and> f < length (dc_function_names decls) \<and> as_funcid (dc_function_names decls ! f) = Some k \<and>
      entry_ok (fcode cm') (fdata cm') fm k (gn_code g) (gn_traps g))"
proof -
  have "\<exists>fm1 tr cm1 fm2 cm2 p cm3 sy k n cm4 t. compile_functions ops decls gen order ([], [], cm) = Ok (fm1, tr, cm1) \<and>
    compile_trampolines ops decls tramp_code tr (fm1, cm1) = Ok (fm2, cm2) \<and> stack_probe_declare ops add_vmctx probe_sig (decls, cm2) = Ok (p, decls', cm3) \<and>
    co_define_function ops k STACK_PROBE_BINARY cm3 = Ok (n, cm4) \<and> write_traps ops stack_probe_trap_sites sy cm4 = Ok (t, cm') \<and>
    fm = AList.update k \<lparr>func_size = n, trap_data_id = t, trap_len = length stack_probe_trap_sites\<rparr> fm2"
    using assms(3) by (clarsimp simp: compile_all_def simp del: as_funcid.simps) (intro exI conjI, (assumption | rule refl)+)
  then obtain fm1 tr cm1 fm2 cm2 p cm3 sy k n cm4 t where c1: "compile_functions ops decls gen order ([], [], cm) = Ok (fm1, tr, cm1)"
    and c2: "compile_trampolines ops decls tramp_code tr (fm1, cm1) = Ok (fm2, cm2)"
    and c3: "stack_probe_declare ops add_vmctx probe_sig (decls, cm2) = Ok (p, decls', cm3)"
    and c4: "co_define_function ops k STACK_PROBE_BINARY cm3 = Ok (n, cm4)" and c5: "write_traps ops stack_probe_trap_sites sy cm4 = Ok (t, cm')"
    and fm: "fm = AList.update k \<lparr>func_size = n, trap_data_id = t, trap_len = length stack_probe_trap_sites\<rparr> fm2" by blast
  have "fm_ok [] cm" by (simp add: fm_ok_def)
  note o1 = compile_functions_ok [OF assms(1) c1 this]
  note o2 = compile_trampolines_ok [OF assms(2) c2]
  have g3: "grows cm2 cm3"
    using c3 declare_function_grows
    by (fastforce simp: stack_probe_declare_def declare_new_function_def declare_function_def clif_ops.truncate_def Let_def split: prod.splits if_splits)
  have s: "sites_sorted stack_probe_trap_sites" by (simp add: sites_sorted_def stack_probe_trap_sites_def)
  have f3: "fm_ok fm2 cm3" using o1 o2 g3 fm_grows by blast
  note o3 = define_entry [OF c4 c5 f3 s, folded fm]
  have "grows cm cm1" "grows cm1 cm2" "grows cm3 cm'" using o1 o2 o3 by simp_all
  then have "grows cm cm'" using g3 by (meson grows_trans)
  then show ?thesis using o1 o2 o3 g3 entry_grows by (meson order_refl)
qed

lemma write_table_grows:
  assumes "write_table_data (\<lambda>i dx. co_define_data ops i (reloc_of dx)) decls cm = Ok (r, cm')"
  shows "grows cm cm' \<and> fnames cm' = fnames cm"
proof -
  have "\<exists>x cm1 t. (cm1 = cm \<or> (\<exists>i rd. co_define_data ops i rd cm = Ok cm1)) \<and> co_define_data ops t (reloc_of x) cm1 = Ok cm'"
    using assms by (clarsimp simp: write_table_data_def simp del: as_dataid.simps split: rresult.splits) blast+
  then show ?thesis using define_data_grows grows_trans defines_data by (metis (no_types, lifting))
qed

lemma define_named_Ok:
  assumes "define_named ops s l rd cm = Ok (i, cm')"
  shows "fdata cm' i = Some rd \<and> grows cm cm' \<and> fnames cm' = fnames cm"
proof -
  obtain cm1 where d: "co_declare_data ops s l cm = Ok (i, cm1)" and e: "co_define_data ops i rd cm1 = Ok cm'"
    using assms by (auto simp: define_named_def)
  show ?thesis using declares_data [OF d] defines_data [OF e] grows_trans [OF declare_data_grows [OF d] define_data_grows [OF e]] by simp
qed

text \<open>The object file: every compiled function has its entry, and \<open>lucet_module\<close> leads to the manifest over all declared functions.\<close>

lemma object_file_manifest:
  assumes "\<forall>f g. gen f = Ok g \<longrightarrow> sites_sorted (gn_traps g)" and "\<forall>sg n. sites_sorted (snd (tramp_code sg n))"
    and "object_file ops add_vmctx probe_sig serialize version gen tramp_code order features decls cm = Ok (nid, cm')"
  shows "\<exists>fm md tbl mid. fdata cm' mid = Some (write_manifest fm [0..<length (fnames cm')]) \<and>
    fdata cm' nid = Some (native_data version md tbl (mid, length (fnames cm'))) \<and> fm_ok fm cm' \<and> grows cm cm' \<and>
    (\<forall>f \<in> set order. \<exists>g k. gen f = Ok g \<and> f < length (dc_function_names decls) \<and> as_funcid (dc_function_names decls ! f) = Some k \<and>
      entry_ok (fcode cm') (fdata cm') fm k (gn_code g) (gn_traps g))"
proof -
  obtain bytes fm decls1 cm1 mdid cm2 tbl cm3 mid cm4 where
    c1: "compile_all ops add_vmctx probe_sig gen tramp_code order decls cm = Ok (fm, decls1, cm1)"
    and c2: "write_module_data ops bytes cm1 = Ok (mdid, cm2)"
    and c3: "write_table_data (\<lambda>i dx. co_define_data ops i (reloc_of dx)) decls1 cm2 = Ok (tbl, cm3)"
    and c4: "define_named ops FUNCTION_MANIFEST_SYM LinkLocal (write_manifest fm (co_functions ops cm3)) cm3 = Ok (mid, cm4)"
    and c5: "define_named ops LUCET_MODULE_SYM LinkExport
       (native_data version (mdid, length bytes) tbl (mid, length (co_functions ops cm3))) cm4 = Ok (nid, cm')"
    using assms(3) by (auto simp: object_file_def Let_def)
  note o1 = compile_all_ok [OF assms(1,2) c1]
  note o2 = define_named_Ok [OF c2 [unfolded write_module_data_def, folded define_named_def]]
  note o3 = write_table_grows [OF c3]
  note o4 = define_named_Ok [OF c4, unfolded functions_listed]
  note o5 = define_named_Ok [OF c5, unfolded functions_listed]
  have names: "fnames cm' = fnames cm3" using o4 o5 by simp
  have g: "grows cm1 cm'" using o2 o3 o4 o5 grows_trans by blast
  have "fdata cm' mid = Some (write_manifest fm [0..<length (fnames cm3)])" using o4 o5 by (auto simp: grows_def map_le_def dom_def)
  moreover have "fdata cm' nid = Some (native_data version (mdid, length bytes) tbl (mid, length (fnames cm3)))" using o5 by simp
  moreover have "fm_ok fm cm'" "grows cm cm'" using o1 fm_grows [OF _ g] grows_trans [OF _ g] by simp_all
  moreover have "\<forall>f \<in> set order. \<exists>g k. gen f = Ok g \<and> f < length (dc_function_names decls) \<and> as_funcid (dc_function_names decls ! f) = Some k \<and>
      entry_ok (fcode cm') (fdata cm') fm k (gn_code g) (gn_traps g)" using o1 entry_grows [OF _ g] by blast
  ultimately show ?thesis unfolding names by blast
qed

lemma manifest_traps:
  assumes fm: "fm_ok fm cm" and e: "entry_ok (fcode cm) (fdata cm) fm k bs sites" and sites: "sites_sorted sites"
    and small: "32 * length (fnames cm) < 2 ^ 32" and apart: "code_apart (fcode cm) faddr" and loaded: "data_loaded (fdata cm) daddr trap_mem"
    and off: "off < length bs"
  shows "lookup_trapcode trap_mem (link_manifest faddr daddr (write_manifest fm [0..<length (fnames cm)])) (faddr k + of_nat off) = Some c \<longleftrightarrow>
    (\<exists>site \<in> set sites. unat (its_offset site) = off \<and> translate_trapcode (its_code site) = (Ok c :: (lucetc_error, trap_code) rresult))"
proof -
  let ?ids = "[0..<length (fnames cm)]" and ?rip = "faddr k + of_nat off"
  let ?fs = "link_manifest faddr daddr (write_manifest fm ?ids)"
  have small': "32 * length ?ids < 2 ^ 32" using small by simp
  note row = link_manifest_nth(1) [OF small']
  obtain m ts where m: "map_of fm k = Some m" "fcode cm k = Some bs" "length bs < 2 ^ 32" "func_size m = of_nat (length bs)" "trap_len m = length sites"
    "translate_sites sites = (Ok ts :: (lucetc_error, trap_site list) rresult)" "fdata cm (trap_data_id m) = Some (plain_data (concat (map site_bytes ts)))"
    using e by (auto simp: entry_ok_def)
  have k: "k < length (fnames cm)" using fm m(1) by (auto simp: fm_ok_def)
  have len: "length ?fs = length (fnames cm)" using link_manifest_nth(2) [OF small', of k faddr daddr fm] k by simp
  have fit: "unat (faddr k) + length bs \<le> 2 ^ 64" using apart m(2) by (auto simp: code_apart_def)
  note rip = within_offset [OF off fit]
  define f where "f = ?fs ! k"
  have f: "f = \<lparr>code_addr = faddr k, code_len = of_nat (length bs), traps_addr = if sites \<noteq> [] then daddr (trap_data_id m) else 0, traps_len = of_nat (length sites)\<rparr>"
    using row [of k faddr daddr fm] k m by (simp add: f_def)
  have "f \<in> set ?fs" using len k by (simp add: f_def)
  moreover have rel: "relative_addr f ?rip = Some (of_nat off)"
    unfolding relative_addr_Some_iff using rip off m(3) by (simp add: f word_le_nat_alt unat_of_nat)
  moreover have "g = f" if g: "g \<in> set ?fs" "fn_contains g ?rip" for g
  proof -
    obtain j where j: "j < length (fnames cm)" "g = ?fs ! j" using g(1) len by (auto simp: in_set_conv_nth)
    have "\<exists>m'. map_of fm j = Some m'" using row [of j faddr daddr fm] j g(2) by (auto simp: fn_contains_iff split: option.splits)
    then obtain m' bs' where m': "map_of fm j = Some m'" "fcode cm j = Some bs'" "length bs' < 2 ^ 32" "func_size m' = of_nat (length bs')"
      using fm by (fastforce simp: fm_ok_def entry_ok_def)
    have "faddr j \<le> ?rip" "unat (?rip - faddr j) < length bs'"
      using row [of j faddr daddr fm] j g(2) m' by (auto simp: fn_contains_iff unat_of_nat)
    then have r: "unat (faddr j) \<le> unat ?rip" "unat ?rip < unat (faddr j) + length bs'" by (auto simp: word_le_nat_alt unat_sub)
    have "unat (faddr j) + length bs' \<le> unat (faddr k) \<or> unat (faddr k) + length bs \<le> unat (faddr j)" if "j \<noteq> k"
      using apart m(2) m'(2) that unfolding code_apart_def by blast
    with r rip(1) off have "j = k" by linarith
    then show ?thesis using j by (simp add: f_def)
  qed
  ultimately have hit: "lookup_trapcode trap_mem ?fs ?rip = (case fn_traps trap_mem f of Some ts \<Rightarrow> lookup_addr ts (of_nat off) | None \<Rightarrow> None)"
    by (rule lookup_trapcode_hit)
  note tr = translate_sites_Ok [OF m(6)]
  have eq: "its_offset site = of_nat off \<longleftrightarrow> unat (its_offset site) = off" for site
    using off m(3) by (auto simp: unat_of_nat)
  show ?thesis
  proof (cases "sites = []")
    case True
    then show ?thesis using hit f by (simp add: fn_traps_def)
  next
    case False
    have n: "unat (of_nat (length sites) :: u64) = length sites"
      using distinct_u32_length [of "map its_offset sites"] sites by (simp add: sites_sorted_def unat_of_nat)
    have "length (concat (map site_bytes ts)) = 8 * length ts" by (rule length_concat_block) (simp add: site_bytes_def)
    then have "fn_traps trap_mem f = Some ts"
      using False loaded m(7) n tr parse_serialized [of ts] by (auto simp: fn_traps_def f data_loaded_def plain_data_def)
    moreover have "lookup_addr ts (of_nat off) = Some c \<longleftrightarrow> (\<exists>t \<in> set ts. offset t = of_nat off \<and> code t = c)"
      using lookup_addr_Some_iff [of ts "of_nat off" c] conjunct1 [OF tr] sites by (auto simp: sites_sorted_def)
    ultimately have "lookup_trapcode trap_mem ?fs ?rip = Some c \<longleftrightarrow> (\<exists>t \<in> set ts. offset t = of_nat off \<and> code t = c)" using hit by simp
    then show ?thesis using tr [of "of_nat off" c] unfolding eq by blast
  qed
qed

text \<open>The numbers of the functions are their indices when no two functions share a symbol.\<close>

definition ids_ok :: "'sig module_decls \<Rightarrow> 'cm \<Rightarrow> bool" where
  "ids_ok decls cm \<longleftrightarrow> (distinct (map symbol (dc_function_names decls)) \<longrightarrow>
     fnames cm = map symbol (dc_function_names decls) \<and> (\<forall>i < length (dc_function_names decls). as_funcid (dc_function_names decls ! i) = Some i))"

lemma declare_function_ids:
  assumes run: "declare_function (clif_of ops) s l (length (dc_function_names decls)) (decls, cm) = Ok (n, decls', cm')" and ids: "ids_ok decls cm"
  shows "ids_ok decls' cm' \<and> dc_info decls' = dc_info decls \<and> length (dc_function_names decls') = Suc (length (dc_function_names decls))"
proof -
  obtain sg k where d: "co_declare_function ops s l sg cm = Ok (k, cm')"
    and decls': "decls' = decls\<lparr>dc_function_names := dc_function_names decls @ [name_new_func s k]\<rparr>"
    using run by (auto simp: declare_function_def clif_ops.truncate_def Let_def)
  have "fnames cm' = map symbol (dc_function_names decls) @ [s] \<and> k = length (dc_function_names decls)"
    if "distinct (map symbol (dc_function_names decls))" "fnames cm = map symbol (dc_function_names decls)" "s \<notin> set (fnames cm)"
  proof -
    note dn = declares_function [OF d, THEN conjunct2, THEN conjunct2, unfolded if_not_P [OF that(3)]]
    note n = conjunct1 [OF dn] and k = conjunct2 [OF dn]
    have "k = length (fnames cm)" using k that(3) unfolding n by (auto simp: nth_append less_Suc_eq split: if_splits)
    then show ?thesis using n that(2) by simp
  qed
  then show ?thesis using ids by (auto simp: ids_ok_def decls' name_new_func_def nth_append less_Suc_eq)
qed

lemma declare_func_ids:
  assumes run: "declare_func (clif_of ops) b (length (dc_function_names decls)) (decls, cm) = Ok (decls', cm')" and ids: "ids_ok decls cm"
  shows "ids_ok decls' cm' \<and> dc_info decls' = dc_info decls \<and> length (dc_function_names decls') = Suc (length (dc_function_names decls))"
proof -
  have "\<exists>s l d n. declare_function (clif_of ops) s l (length (dc_function_names decls)) (d, cm) = Ok (n, decls', cm') \<and>
      dc_function_names d = dc_function_names decls \<and> dc_info d = dc_info decls"
    using run by (clarsimp simp: declare_func_def import_name_for_def export_name_for_def split: if_splits prod.splits list.splits)
      (force split: option.splits)+
  then obtain s l d n where f: "declare_function (clif_of ops) s l (length (dc_function_names d)) (d, cm) = Ok (n, decls', cm')"
    and d: "dc_function_names d = dc_function_names decls" "dc_info d = dc_info decls" by metis
  have "ids_ok d cm" using ids d by (simp add: ids_ok_def)
  from declare_function_ids [OF f this] d show ?thesis by simp
qed

lemma declare_funcs_ids:
  "declare_funcs (clif_of ops) b [k..<n] (decls, cm) = Ok (decls', cm') \<Longrightarrow> k \<le> n \<Longrightarrow> length (dc_function_names decls) = k \<Longrightarrow> ids_ok decls cm \<Longrightarrow>
   ids_ok decls' cm' \<and> dc_info decls' = dc_info decls \<and> length (dc_function_names decls') = n"
proof (induction "n - k" arbitrary: k decls cm)
  case (Suc m)
  then have k: "[k..<n] = k # [Suc k..<n]" by (simp add: upt_rec)
  obtain d1 cm1 where f: "declare_func (clif_of ops) b k (decls, cm) = Ok (d1, cm1)" and r: "declare_funcs (clif_of ops) b [Suc k..<n] (d1, cm1) = Ok (decls', cm')"
    using Suc.prems(1) unfolding k by auto
  note d1 = declare_func_ids [of b decls cm d1 cm1, unfolded Suc.prems(3), OF f Suc.prems(4)]
  show ?case using Suc.hyps(1) [OF _ r] Suc.hyps(2) d1 by auto
qed simp

lemma declare_runtime_ids:
  "declare_runtime (clif_of ops) add_vmctx rt (decls, cm) = Ok (decls', cm') \<Longrightarrow> length (dc_function_names decls) = length (funcs (dc_info decls)) \<Longrightarrow>
   ids_ok decls cm \<Longrightarrow> ids_ok decls' cm'"
proof (induction rt arbitrary: decls cm)
  case (Cons x rt)
  obtain f ft where x: "x = (f, ft)" by (cases x)
  obtain j u info where info: "declare_func_with_sig add_vmctx (rf_type ft) (rf_signature ft) (dc_info decls) = ((j, u), info)" by (metis surj_pair)
  have j: "j = length (dc_function_names decls)" "length (funcs info) = Suc j"
    using info Cons.prems(2) by (auto simp: declare_func_with_sig_def Let_def info_declare_type_func_def info_declare_func_type_def split: prod.splits option.splits)
  obtain n d1 cm1 where f: "declare_function (clif_of ops) (rf_name ft) LinkImport j (decls\<lparr>dc_info := info\<rparr>, cm) = Ok (n, d1, cm1)"
    and r: "declare_runtime (clif_of ops) add_vmctx rt (d1\<lparr>dc_runtime_names := AList.update f j (dc_runtime_names d1)\<rparr>, cm1) = Ok (decls', cm')"
    using Cons.prems(1) info by (auto simp: x declare_new_function_def)
  have "ids_ok (decls\<lparr>dc_info := info\<rparr>) cm" using Cons.prems(3) by (simp add: ids_ok_def)
  from declare_function_ids [of "rf_name ft" LinkImport "decls\<lparr>dc_info := info\<rparr>" cm n d1 cm1, OF _ this] f j Cons.IH [OF r] show ?case
    by (simp add: ids_ok_def)
qed simp

lemma declare_table_names_fnames: "declare_table_names (clif_of ops) ixs cm = Ok (ns, cm') \<Longrightarrow> fnames cm' = fnames cm"
proof (induction ixs arbitrary: cm ns)
  case (Cons ix ixs)
  then show ?case using declares_data by (fastforce simp: Let_def clif_ops.truncate_def)
qed simp

lemma module_decls_ids:
  assumes "module_decls_new (clif_of ops) add_vmctx info b runtime settings cm = Ok (decls, cm')" and "fnames cm = []"
  shows "ids_ok decls cm'"
proof -
  obtain ln ns cm1 gs lm d1 cm2 where t: "declare_tables (clif_of ops) info cm = Ok ((ln, ns), cm1)"
    and f: "declare_funcs (clif_of ops) b [0..<length (funcs info)] (\<lparr>dc_info = info, dc_function_names = [], dc_imports = [], dc_exports = [],
        dc_tables_list_name = ln, dc_table_names = ns, dc_runtime_names = [], dc_globals_spec = gs, dc_linear_memory_spec = lm\<rparr>, cm1) = Ok (d1, cm2)"
    and r: "declare_runtime (clif_of ops) add_vmctx runtime (d1, cm2) = Ok (decls, cm')"
    using assms(1) by (auto simp: module_decls_new_def)
  have "fnames cm1 = []"
    using t assms(2) declare_table_names_fnames declares_data by (fastforce simp: declare_tables_def clif_ops.truncate_def)
  then show ?thesis using declare_funcs_ids [OF f] declare_runtime_ids [OF r] by (simp add: ids_ok_def)
qed

end

section \<open>Properties\<close>

text \<open>C12: Traps of compiled code are found. In the object file of a compiled module, loaded with its code apart and its data in place, the pointer and
  the length in \<open>lucet_module\<close> lead to a manifest in which, for every compiled function and every offset in its code, the
  runtime's lookup finds a trap code exactly when the code generator recorded a trap there, and then it is the translation of the recorded code.\<close>

theorem compiled_traps_found:
  assumes "object_module ops fnames fcode fdata" and "\<forall>f g. gen f = Ok g \<longrightarrow> sites_sorted (gn_traps g)"
    and "\<forall>sg n. sites_sorted (snd (tramp_code sg n))" and "length (version_hash version) = 8"
    and "object_file ops add_vmctx probe_sig serialize version gen tramp_code order features decls cm = Ok (nid, cm')"
    and "32 * length (fnames cm') < 2 ^ 32" and "code_apart (fcode cm') faddr" and "data_loaded (fdata cm') daddr trap_mem"
  shows "\<exists>native mid manifest. fdata cm' nid = Some native \<and> link_word faddr daddr native 48 = daddr mid \<and>
    link_word faddr daddr native 56 = of_nat (length (fnames cm')) \<and> fdata cm' mid = Some manifest \<and>
    length (link_manifest faddr daddr manifest) = length (fnames cm') \<and>
    (\<forall>f \<in> set order. \<exists>g k. gen f = Ok g \<and> as_funcid (dc_function_names decls ! f) = Some k \<and> fcode cm' k = Some (gn_code g) \<and>
      function_spec_ptr (link_manifest faddr daddr manifest ! k) = faddr k \<and>
      (\<forall>off < length (gn_code g). \<forall>c. lookup_trapcode trap_mem (link_manifest faddr daddr manifest) (faddr k + of_nat off) = Some c \<longleftrightarrow>
        (\<exists>site \<in> set (gn_traps g). unat (its_offset site) = off \<and>
          translate_trapcode (its_code site) = (Ok c :: (lucetc_error, trap_code) rresult))))"
proof -
  note om = object_module.object_file_manifest [OF assms(1-3,5)] object_module.manifest_traps [OF assms(1) _ _ _ assms(6-8)]
  obtain fm md tbl mid where mid: "fdata cm' mid = Some (write_manifest fm [0..<length (fnames cm')])"
    and nid: "fdata cm' nid = Some (native_data version md tbl (mid, length (fnames cm')))" and fm: "object_module.fm_ok fnames fcode fdata fm cm'"
    and ord: "\<forall>f \<in> set order. \<exists>g k. gen f = Ok g \<and> f < length (dc_function_names decls) \<and> as_funcid (dc_function_names decls ! f) = Some k \<and>
      entry_ok (fcode cm') (fdata cm') fm k (gn_code g) (gn_traps g)" using om(1) by blast
  let ?rd = "write_manifest fm [0..<length (fnames cm')]" and ?n = "native_data version md tbl (mid, length (fnames cm'))"
  note w = native_words [OF assms(4), of faddr daddr md tbl mid "length (fnames cm')"]
  have len: "length (link_manifest faddr daddr ?rd) = length (fnames cm')" by (simp add: link_manifest_def manifest_bytes length_concat_block)
  have "\<exists>g k. gen f = Ok g \<and> as_funcid (dc_function_names decls ! f) = Some k \<and> fcode cm' k = Some (gn_code g) \<and>
      function_spec_ptr (link_manifest faddr daddr ?rd ! k) = faddr k \<and>
      (\<forall>off < length (gn_code g). \<forall>c. lookup_trapcode trap_mem (link_manifest faddr daddr ?rd) (faddr k + of_nat off) = Some c \<longleftrightarrow>
        (\<exists>site \<in> set (gn_traps g). unat (its_offset site) = off \<and>
          translate_trapcode (its_code site) = (Ok c :: (lucetc_error, trap_code) rresult)))" if f: "f \<in> set order" for f
  proof -
    obtain g k where g: "gen f = Ok g" "as_funcid (dc_function_names decls ! f) = Some k" and e: "entry_ok (fcode cm') (fdata cm') fm k (gn_code g) (gn_traps g)"
      using ord f by blast
    obtain m where m: "map_of fm k = Some m" "fcode cm' k = Some (gn_code g)" using e by (auto simp: entry_ok_def)
    have "k < length (fnames cm')" using fm m(1) by (auto simp: object_module.fm_ok_def [OF assms(1)])
    then have "function_spec_ptr (link_manifest faddr daddr ?rd ! k) = faddr k"
      using link_manifest_nth(1) [of "[0..<length (fnames cm')]" k faddr daddr fm] assms(6) m(1) by (simp add: function_spec_ptr_def)
    with g m(2) om(2) [OF fm e assms(2) [rule_format, OF g(1)]] show ?thesis by blast
  qed
  with mid nid w len show ?thesis by blast
qed

text \<open>Exports lead to their code. When no two functions of a module share a symbol, the function handle the runtime gets for an exported name
  has the address of the function that the module exports under it, a name that is not exported is refused, and every compiled function is
  found in the object module under its own index.\<close>

theorem exports_reach_code:
  assumes "object_module ops fnames fcode fdata" and "\<forall>f g. gen f = Ok g \<longrightarrow> sites_sorted (gn_traps g)"
    and "\<forall>sg n. sites_sorted (snd (tramp_code sg n))" and "length (version_hash version) = 8"
    and "clif_ok (clif_of ops)" and "info_wf info" and "globals_valid info" and "fnames cm0 = []"
    and "module_decls_new (clif_of ops) add_vmctx info b runtime settings cm0 = Ok (decls, cm)"
    and "distinct (map symbol (dc_function_names decls))" and "length (signatures (dc_info decls)) < 2 ^ 32"
    and "object_file ops add_vmctx probe_sig serialize version gen tramp_code order features decls cm = Ok (nid, cm')"
    and "32 * length (fnames cm') < 2 ^ 32"
  shows "\<exists>md native mid manifest. get_module_data features decls = Ok md \<and> fdata cm' nid = Some native \<and>
    link_word faddr daddr native 48 = daddr mid \<and> fdata cm' mid = Some manifest \<and>
    (\<forall>d s. dl_module_data d = md \<longrightarrow> dl_function_manifest d = link_manifest faddr daddr manifest \<longrightarrow>
      dl_get_export_func d s =
        (case find (\<lambda>f. s \<in> set (ex_names (funcs info ! f))) [0..<length (funcs info)] of
           None \<Rightarrow> Err (SymbolNotFound s) | Some f \<Rightarrow> Ok \<lparr>fh_ptr = faddr f, fh_id = of_nat f, is_start_func = False\<rparr>)) \<and>
    (\<forall>f \<in> set order. \<exists>g. gen f = Ok g \<and> as_funcid (dc_function_names decls ! f) = Some f \<and> fcode cm' f = Some (gn_code g))"
proof -
  obtain fm md0 tbl mid where mid: "fdata cm' mid = Some (write_manifest fm [0..<length (fnames cm')])"
    and nid: "fdata cm' nid = Some (native_data version md0 tbl (mid, length (fnames cm')))" and g: "object_module.grows fnames fcode fdata cm cm'"
    and ord: "\<forall>f \<in> set order. \<exists>g k. gen f = Ok g \<and> f < length (dc_function_names decls) \<and> as_funcid (dc_function_names decls ! f) = Some k \<and>
      entry_ok (fcode cm') (fdata cm') fm k (gn_code g) (gn_traps g)" using object_module.object_file_manifest [OF assms(1-3,12)] by blast
  let ?rd = "write_manifest fm [0..<length (fnames cm')]"
  have ids: "fnames cm = map symbol (dc_function_names decls)" "\<forall>i < length (dc_function_names decls). as_funcid (dc_function_names decls ! i) = Some i"
    using object_module.module_decls_ids [OF assms(1,9,8)] assms(10) by (auto simp: object_module.ids_ok_def [OF assms(1)])
  then have le: "length (dc_function_names decls) \<le> length (fnames cm')" using g by (auto simp: object_module.grows_def [OF assms(1)])
  obtain md where md: "get_module_data features decls = Ok md" using assms(12) by (auto simp: object_file_def)
  have small: "length (dc_function_names decls) < 2 ^ 32" using le assms(13) by simp
  have mc: "metadata_complete info (length runtime) md" using metadata_cases [OF assms(5-7,9) small assms(11), of features] md by simp
  have nf: "length (funcs info) \<le> length (dc_function_names decls)"
    using module_decls_new_cases [OF assms(5-7), where add_vmctx = add_vmctx and b = b and runtime = runtime and settings = settings and cm = cm0]
    unfolding assms(9) by (auto simp: info_extends_def)
  have ex: "dl_get_export_func d s = (case find (\<lambda>f. s \<in> set (ex_names (funcs info ! f))) [0..<length (funcs info)] of
      None \<Rightarrow> Err (SymbolNotFound s) | Some f \<Rightarrow> Ok \<lparr>fh_ptr = faddr f, fh_id = of_nat f, is_start_func = False\<rparr>)"
    if d: "dl_module_data d = md" "dl_function_manifest d = link_manifest faddr daddr ?rd" for d s
  proof (cases "find (\<lambda>f. s \<in> set (ex_names (funcs info ! f))) [0..<length (funcs info)]")
    case None
    then show ?thesis using mc d by (simp add: dl_get_export_func_def metadata_complete_def)
  next
    case (Some f)
    then have "f < length (funcs info)" by (auto simp: find_Some_iff)
    then have f: "f < length (fnames cm')" using nf le by simp
    then have "unat (of_nat f :: u32) = f" using assms(13) by (simp add: unat_of_nat)
    moreover have "length (link_manifest faddr daddr ?rd) = length (fnames cm')" "code_addr (link_manifest faddr daddr ?rd ! f) = faddr f"
      using link_manifest_nth [of "[0..<length (fnames cm')]" f faddr daddr fm] f assms(13) by (auto split: option.split)
    ultimately show ?thesis using mc d Some f by (simp add: dl_get_export_func_def metadata_complete_def manifest_ptr_def function_spec_ptr_def)
  qed
  have "\<exists>g. gen f = Ok g \<and> as_funcid (dc_function_names decls ! f) = Some f \<and> fcode cm' f = Some (gn_code g)" if "f \<in> set order" for f
    using ord that ids(2) by (auto simp: entry_ok_def)
  with md mid nid native_words(1) [OF assms(4), of faddr daddr md0 tbl mid "length (fnames cm')"] ex show ?thesis by blast
qed

end
