(* ===== verification/Object_Example.thy ===== *)
theory Object_Example
  imports Object_File
begin

text \<open>An object module as Cranelift documents it: symbols are numbered in the order of their declaration, a symbol declared again keeps its number,
  and nothing is defined twice.\<close>

record 'sig object_state =
  ob_funcs :: "(string \<times> 'sig) list"
  ob_code :: "nat \<rightharpoonup> u8 list"
  ob_datas :: "string list"
  ob_contents :: "nat \<rightharpoonup> reloc_data"

definition object_empty :: "'sig object_state" where
  "object_empty = \<lparr>ob_funcs = [], ob_code = Map.empty, ob_datas = [], ob_contents = Map.empty\<rparr>"

definition index_of :: "'a \<Rightarrow> 'a list \<Rightarrow> nat" where
  "index_of x xs = length (takeWhile (\<lambda>y. y \<noteq> x) xs)"

definition object_ops :: "('sig, 'sig object_state) obj_ops" where
  "object_ops = \<lparr>
     co_declare_function = (\<lambda>s l sg cm.
       case map_of (ob_funcs cm) s of
         Some sg' \<Rightarrow> if sg' = sg then Ok (index_of s (map fst (ob_funcs cm)), cm) else Err ''Incompatible signature''
       | None \<Rightarrow> Ok (length (ob_funcs cm), cm\<lparr>ob_funcs := ob_funcs cm @ [(s, sg)]\<rparr>)),
     co_declare_data = (\<lambda>s l cm.
       if s \<in> set (ob_datas cm) then Ok (index_of s (ob_datas cm), cm)
       else Ok (length (ob_datas cm), cm\<lparr>ob_datas := ob_datas cm @ [s]\<rparr>)),
     co_define_data = (\<lambda>d rd cm.
       if \<not> d < length (ob_datas cm) then Panic ''index out of bounds''
       else if ob_contents cm d \<noteq> None then Err ''Duplicate definition''
       else Ok (cm\<lparr>ob_contents := (ob_contents cm)(d \<mapsto> rd)\<rparr>)),
     co_define_function = (\<lambda>k bs cm.
       if \<not> k < length (ob_funcs cm) then Panic ''index out of bounds''
       else if ob_code cm k \<noteq> None then Err ''Duplicate definition''
       else if \<not> length bs < 2 ^ 32 then Err ''Backend error''
       else Ok (of_nat (length bs), cm\<lparr>ob_code := (ob_code cm)(k \<mapsto> bs)\<rparr>)),
     co_functions = (\<lambda>cm. [0..<length (ob_funcs cm)])\<rparr>"

lemma index_of_nth: "x \<in> set xs \<Longrightarrow> index_of x xs < length xs \<and> xs ! index_of x xs = x"
  by (induction xs) (auto simp: index_of_def)

lemma fst_set_image: "(s, x) \<in> set xs \<Longrightarrow> s \<in> fst ` set xs"
  by force

lemma object_ops_laws: "object_module (object_ops :: ('sig, 'sig object_state) obj_ops) (\<lambda>cm. map fst (ob_funcs cm)) ob_code ob_contents"
proof
  fix s l sg k and cm cm' :: "'sig object_state"
  assume "co_declare_function object_ops s l sg cm = Ok (k, cm')"
  then show "ob_code cm' = ob_code cm \<and> ob_contents cm' = ob_contents cm \<and>
      map fst (ob_funcs cm') = (if s \<in> set (map fst (ob_funcs cm)) then map fst (ob_funcs cm) else map fst (ob_funcs cm) @ [s]) \<and>
      k < length (map fst (ob_funcs cm')) \<and> map fst (ob_funcs cm') ! k = s"
    using index_of_nth [of s "map fst (ob_funcs cm)"]
    by (auto simp: object_ops_def map_of_eq_None_iff nth_append split: option.splits if_splits dest: map_of_SomeD [THEN fst_set_image])
qed (auto simp: object_ops_def split: if_splits)

interpretation obj: object_module object_ops "\<lambda>cm. map fst (ob_funcs cm)" ob_code ob_contents
  by (rule object_ops_laws)

definition demo_gen :: "nat \<Rightarrow> (lucetc_error, generated) rresult" where
  "demo_gen f = (if f = 1 then Ok \<lparr>gn_calls = [0], gn_code = [0x48, 0x99, 0x48, 0xf7, 0xf9, 0xe8, 0, 0, 0, 0, 0x0f, 0x0b],
       gn_traps = [\<lparr>its_offset = 2, its_code = IR_IntegerDivisionByZero\<rparr>, \<lparr>its_offset = 10, its_code = IR_UnreachableCodeReached\<rparr>]\<rparr>
     else Err (L_Unsupported ''not compiled''))"

definition demo_tramp_code :: "nat list \<Rightarrow> name \<Rightarrow> u8 list \<times> ir_trap_site list" where
  "demo_tramp_code sg n = ([0x48, 0x3b, 0x67, 0xf8, 0x0f, 0x0b], [\<lparr>its_offset = 4, its_code = IR_StackOverflow\<rparr>])"

lemmas object_eval = object_file_def compile_all_def compile_function_def clif_compile_def write_traps_def serialize_traps_def get_trampoline_func_def
  synthesize_trampoline_def stack_probe_declare_def stack_probe_trap_sites_def write_module_data_def define_named_def clif_ops.truncate_def
  write_table_data_def trap_sym_for_func_def STACK_PROBE_SYM_def MODULE_DATA_SYM_def FUNCTION_MANIFEST_SYM_def LUCET_MODULE_SYM_def TABLE_SYM_def get_func_def
  list_get_def unwrap_option_def unwrap_result_def expect_some_def get_signature_uid_def index_of_def get_table_def get_module_data_def

lemmas declare_eval = decls_eval module_info_new_def bindings_env_def bindings_new_def runtime_lucet_def to_lucet_signature_def object_ops_def
  object_empty_def clif_ops.truncate_def TABLE_SYM_def

lemma demo_object:
  obtains decls cm nid cm' where
    "module_decls_new (clif_of object_ops) (Cons 0) demo_info demo_bindings (runtime_lucet (\<lambda>ps rs. [length ps, length rs])) heap_settings_default object_empty =
       Ok (decls, cm)"
    "object_file object_ops (Cons 0) [0, 1] (\<lambda>md. Ok [1, 2, 3]) (version_info_new 0 7 0 (replicate 8 0)) demo_gen demo_tramp_code [1] features_none decls cm =
       Ok (nid, cm')"
    "distinct (map symbol (dc_function_names decls))" "length (signatures (dc_info decls)) = 5" "length (ob_funcs cm') = 7"
    "\<forall>k \<in> dom (ob_code cm'). k < 8" "\<forall>d \<in> dom (ob_contents cm'). d < 8" "\<forall>bs \<in> ran (ob_code cm'). length bs < 64"
    "as_funcid (dc_function_names decls ! 1) = Some 1"
proof -
  have "\<exists>decls cm nid cm'. module_decls_new (clif_of object_ops) (Cons 0) demo_info demo_bindings (runtime_lucet (\<lambda>ps rs. [length ps, length rs]))
       heap_settings_default object_empty = Ok (decls, cm) \<and>
     object_file object_ops (Cons 0) [0, 1] (\<lambda>md. Ok [1, 2, 3]) (version_info_new 0 7 0 (replicate 8 0)) demo_gen demo_tramp_code [1] features_none decls cm =
       Ok (nid, cm') \<and> distinct (map symbol (dc_function_names decls)) \<and> length (signatures (dc_info decls)) = 5 \<and> length (ob_funcs cm') = 7 \<and>
     (\<forall>k \<in> dom (ob_code cm'). k < 8) \<and> (\<forall>d \<in> dom (ob_contents cm'). d < 8) \<and> (\<forall>bs \<in> ran (ob_code cm'). length bs < 64) \<and>
     as_funcid (dc_function_names decls ! 1) = Some 1"
    by (simp add: declare_eval demo_info_def demo_bindings_def upt_rec Let_def)
      (simp add: object_eval declare_eval demo_gen_def demo_tramp_code_def STACK_PROBE_BINARY_def upt_rec Let_def)
  then show thesis by (elim exE conjE) (rule that)
qed

definition demo_faddr :: "nat \<Rightarrow> u64" where
  "demo_faddr k = 0x400000 + of_nat (0x100 * k)"

definition demo_daddr :: "nat \<Rightarrow> u64" where
  "demo_daddr d = 0x600000 + of_nat (0x1000 * d)"

definition demo_memory :: "'sig object_state \<Rightarrow> u64 \<Rightarrow> u64 \<Rightarrow> trap_site list" where
  "demo_memory cm a n = (case ob_contents cm (unat (a - 0x600000) div 0x1000) of Some rd \<Rightarrow> parse_traps (unat n) (rd_bytes rd) | None \<Rightarrow> [])"

lemma demo_placed:
  assumes "\<forall>k \<in> dom (ob_code cm). k < 8" and "\<forall>d \<in> dom (ob_contents cm). d < 8" and "\<forall>bs \<in> ran (ob_code cm). length bs < 64"
  shows "code_apart (ob_code cm) demo_faddr" and "data_loaded (ob_contents cm) demo_daddr (demo_memory cm)"
proof -
  have f: "unat (demo_faddr k) = 0x400000 + 0x100 * k" if "k < 8" for k
    using that unat_add_small [of "0x400000 :: u64" "of_nat (0x100 * k)"] by (simp add: demo_faddr_def unat_of_nat del: of_nat_mult)
  have d: "demo_daddr d \<noteq> 0 \<and> unat (demo_daddr d - 0x600000) div 0x1000 = d" if "d < 8" for d
  proof -
    have "unat (demo_daddr d) = 0x600000 + 0x1000 * d"
      using that unat_add_small [of "0x600000 :: u64" "of_nat (0x1000 * d)"] by (simp add: demo_daddr_def unat_of_nat del: of_nat_mult)
    then have "demo_daddr d \<noteq> 0" by auto
    moreover have "unat (demo_daddr d - 0x600000) = 0x1000 * d" using that by (simp add: demo_daddr_def unat_of_nat del: of_nat_mult)
    ultimately show ?thesis by simp
  qed
  have c: "k < 8 \<and> length bs < 64" if "ob_code cm k = Some bs" for k bs using assms(1,3) that by (auto simp: ran_def)
  show "code_apart (ob_code cm) demo_faddr" unfolding code_apart_def
  proof (intro conjI allI impI)
    fix k bs assume "ob_code cm k = Some bs"
    then show "unat (demo_faddr k) + length bs \<le> 2 ^ 64" using c f by fastforce
  next
    fix k k' bs bs' assume "k \<noteq> k'" "ob_code cm k = Some bs" "ob_code cm k' = Some bs'"
    then have "unat (demo_faddr k) = 0x400000 + 0x100 * k" "unat (demo_faddr k') = 0x400000 + 0x100 * k'" "length bs < 64" "length bs' < 64" "k \<noteq> k'"
      using c f by blast+
    then show "unat (demo_faddr k) + length bs \<le> unat (demo_faddr k') \<or> unat (demo_faddr k') + length bs' \<le> unat (demo_faddr k)" by linarith
  qed
  show "data_loaded (ob_contents cm) demo_daddr (demo_memory cm)"
    unfolding data_loaded_def
  proof (intro allI impI conjI)
    fix i rd assume "ob_contents cm i = Some rd"
    then have "demo_daddr i \<noteq> 0" and "unat (demo_daddr i - 0x600000) div 0x1000 = i" and c: "ob_contents cm i = Some rd" using assms(2) d by blast+
    then show "demo_daddr i \<noteq> 0" and "demo_memory cm (demo_daddr i) n = parse_traps (unat n) (rd_bytes rd)" for n
      by (simp_all add: demo_memory_def)
  qed
qed

lemma demo_sorted: "\<forall>f g. demo_gen f = Ok g \<longrightarrow> sites_sorted (gn_traps g)" "\<forall>sg n. sites_sorted (snd (demo_tramp_code sg n))"
  by (simp_all add: demo_gen_def demo_tramp_code_def sites_sorted_def)

lemma demo_version_hash: "length (version_hash (version_info_new 0 7 0 (replicate 8 0))) = 8"
  by (simp add: version_info_new_def)

theorem compiled_traps_found_witness:
  "\<exists>decls cm nid cm' manifest.
     object_file object_ops (Cons 0) [0, 1] (\<lambda>md. Ok [1, 2, 3]) (version_info_new 0 7 0 (replicate 8 0)) demo_gen demo_tramp_code [1] features_none decls cm =
       Ok (nid, cm') \<and>
     lookup_trapcode (demo_memory cm') (link_manifest demo_faddr demo_daddr manifest) 0x400102 = Some IntegerDivByZero \<and>
     lookup_trapcode (demo_memory cm') (link_manifest demo_faddr demo_daddr manifest) 0x40010A = Some Unreachable \<and>
     lookup_trapcode (demo_memory cm') (link_manifest demo_faddr demo_daddr manifest) 0x400103 = None"
proof -
  obtain decls cm nid cm' where d: "object_file object_ops (Cons 0) [0, 1] (\<lambda>md. Ok [1, 2, 3]) (version_info_new 0 7 0 (replicate 8 0)) demo_gen demo_tramp_code [1]
       features_none decls cm = Ok (nid, cm')" "length (ob_funcs cm') = 7" and placed: "\<forall>k \<in> dom (ob_code cm'). k < 8" "\<forall>d \<in> dom (ob_contents cm'). d < 8"
       "\<forall>bs \<in> ran (ob_code cm'). length bs < 64" and k: "as_funcid (dc_function_names decls ! 1) = Some 1"
    by (rule demo_object)
  have "32 * length (map fst (ob_funcs cm')) < 2 ^ 32" by (simp add: d(2))
  note t = compiled_traps_found [OF object_ops_laws demo_sorted demo_version_hash d(1) this demo_placed [OF placed]]
  obtain manifest g where g: "demo_gen 1 = Ok g"
    and l: "\<forall>off < length (gn_code g). \<forall>c. lookup_trapcode (demo_memory cm') (link_manifest demo_faddr demo_daddr manifest) (demo_faddr 1 + of_nat off) = Some c \<longleftrightarrow>
        (\<exists>site \<in> set (gn_traps g). unat (its_offset site) = off \<and> translate_trapcode (its_code site) = (Ok c :: (lucetc_error, trap_code) rresult))"
    using t k by fastforce
  have g': "length (gn_code g) = 12" "set (gn_traps g) = {\<lparr>its_offset = 2, its_code = IR_IntegerDivisionByZero\<rparr>, \<lparr>its_offset = 10, its_code = IR_UnreachableCodeReached\<rparr>}"
    using g by (auto simp: demo_gen_def)
  let ?l = "lookup_trapcode (demo_memory cm') (link_manifest demo_faddr demo_daddr manifest)"
  have "?l 0x400102 = Some IntegerDivByZero" "?l 0x40010A = Some Unreachable" "\<forall>c. ?l 0x400103 \<noteq> Some c"
    using l [rule_format, of 2] l [rule_format, of 10] l [rule_format, of 3] unfolding g' by (auto simp: demo_faddr_def)
  with d(1) show ?thesis by (metis not_Some_eq)
qed

theorem exports_reach_code_witness:
  "\<exists>decls cm nid cm' md manifest.
     object_file object_ops (Cons 0) [0, 1] (\<lambda>md. Ok [1, 2, 3]) (version_info_new 0 7 0 (replicate 8 0)) demo_gen demo_tramp_code [1] features_none decls cm =
       Ok (nid, cm') \<and> get_module_data features_none decls = Ok md \<and>
     (\<forall>d. dl_module_data d = md \<longrightarrow> dl_function_manifest d = link_manifest demo_faddr demo_daddr manifest \<longrightarrow>
        dl_get_export_func d ''_start'' = Ok \<lparr>fh_ptr = 0x400100, fh_id = 1, is_start_func = False\<rparr> \<and>
        dl_get_export_func d ''nope'' = Err (SymbolNotFound ''nope''))"
proof -
  obtain decls cm nid cm' where d:
    "module_decls_new (clif_of object_ops) (Cons 0) demo_info demo_bindings (runtime_lucet (\<lambda>ps rs. [length ps, length rs])) heap_settings_default object_empty =
       Ok (decls, cm)" "distinct (map symbol (dc_function_names decls))"
    and o: "object_file object_ops (Cons 0) [0, 1] (\<lambda>md. Ok [1, 2, 3]) (version_info_new 0 7 0 (replicate 8 0)) demo_gen demo_tramp_code [1]
       features_none decls cm = Ok (nid, cm')" and l: "length (ob_funcs cm') = 7" "length (signatures (dc_info decls)) = 5"
    by (rule demo_object)
  have wf: "clif_ok (clif_of (object_ops :: (nat list, nat list object_state) obj_ops))" "info_wf demo_info" "globals_valid demo_info"
    "map fst (ob_funcs (object_empty :: nat list object_state)) = []" "length (signatures (dc_info decls)) < 2 ^ 32"
    by (auto simp: clif_ok_def object_ops_def clif_ops.truncate_def object_empty_def demo_info_def module_info_new_def wf_defs globals_valid_def l split: option.split)
  have "32 * length (map fst (ob_funcs cm')) < 2 ^ 32" by (simp add: l)
  note e = exports_reach_code [OF object_ops_laws demo_sorted demo_version_hash wf(1-4) d wf(5) o this, of demo_faddr demo_daddr]
  have fs: "find (\<lambda>f. ''_start'' \<in> set (ex_names (funcs demo_info ! f))) [0..<length (funcs demo_info)] = Some 1"
    "find (\<lambda>f. ''nope'' \<in> set (ex_names (funcs demo_info ! f))) [0..<length (funcs demo_info)] = None"
    by (simp_all add: demo_info_def upt_rec)
  have "demo_faddr 1 = 0x400100" by (simp add: demo_faddr_def)
  with e o fs show ?thesis by fastforce
qed

text \<open>Two imports bound to one symbol get one number, so that every later function is one row above its index in the manifest: the export
  \<open>main\<close>, function 2, leads to the address of the first runtime function, while its code is function 1 of the object module.\<close>

definition shift_info :: "nat list module_info" where
  "shift_info = module_info_new\<lparr>signature_mapping := [0], signatures := [([0], \<lparr>wf_params = [], wf_returns = []\<rparr>)],
     imported_funcs := [(''env'', ''print''), (''env'', ''log'')], function_mapping := [0, 1, 2],
     funcs := [\<lparr>entity = 0, ex_names = []\<rparr>, \<lparr>entity = 0, ex_names = []\<rparr>, \<lparr>entity = 0, ex_names = [''main'']\<rparr>]\<rparr>"

definition shift_bindings :: bindings where
  "shift_bindings = bindings_env [(''print'', ''host_print''), (''log'', ''host_print'')]"

definition shift_gen :: "nat \<Rightarrow> (lucetc_error, generated) rresult" where
  "shift_gen f = Ok \<lparr>gn_calls = [], gn_code = [0xc3], gn_traps = []\<rparr>"

lemma shift_object:
  obtains decls cm nid cm' md where
    "module_decls_new (clif_of object_ops) (Cons 0) shift_info shift_bindings (runtime_lucet (\<lambda>ps rs. [length ps, length rs])) heap_settings_default object_empty =
       Ok (decls, cm)"
    "object_file object_ops (Cons 0) [0, 1] (\<lambda>md. Ok [1, 2, 3]) (version_info_new 0 7 0 (replicate 8 0)) shift_gen demo_tramp_code [2] features_none decls cm =
       Ok (nid, cm')"
    "get_module_data features_none decls = Ok md" "as_funcid (dc_function_names decls ! 2) = Some 1"
    "map fst (ob_funcs cm') = [''host_print'', ''guest_func_main'', ''lucet_vmctx_current_memory'', ''lucet_vmctx_grow_memory'',
       ''lucet_vmctx_yield_at_bound_expiration'', ''lucet_probestack'']"
    "ob_code cm' 1 = Some [0xc3]" "md_get_export_func_id md ''main'' = Some 2"
proof -
  have "\<exists>decls cm nid cm' md.
     module_decls_new (clif_of object_ops) (Cons 0) shift_info shift_bindings (runtime_lucet (\<lambda>ps rs. [length ps, length rs])) heap_settings_default object_empty =
       Ok (decls, cm) \<and>
     object_file object_ops (Cons 0) [0, 1] (\<lambda>md. Ok [1, 2, 3]) (version_info_new 0 7 0 (replicate 8 0)) shift_gen demo_tramp_code [2] features_none decls cm =
       Ok (nid, cm') \<and> get_module_data features_none decls = Ok md \<and> as_funcid (dc_function_names decls ! 2) = Some 1 \<and>
     map fst (ob_funcs cm') = [''host_print'', ''guest_func_main'', ''lucet_vmctx_current_memory'', ''lucet_vmctx_grow_memory'',
       ''lucet_vmctx_yield_at_bound_expiration'', ''lucet_probestack''] \<and> ob_code cm' 1 = Some [0xc3] \<and> md_get_export_func_id md ''main'' = Some 2"
    by (simp add: declare_eval shift_info_def shift_bindings_def upt_rec Let_def index_of_def)
      (simp add: object_eval declare_eval shift_gen_def demo_tramp_code_def STACK_PROBE_BINARY_def upt_rec Let_def md_get_export_func_id_def)
  then show thesis by (elim exE conjE) (rule that)
qed

theorem shared_symbol_shifts_exports:
  "\<exists>decls cm nid cm' md native mid manifest.
     module_decls_new (clif_of object_ops) (Cons 0) shift_info shift_bindings (runtime_lucet (\<lambda>ps rs. [length ps, length rs])) heap_settings_default object_empty =
       Ok (decls, cm) \<and>
     object_file object_ops (Cons 0) [0, 1] (\<lambda>md. Ok [1, 2, 3]) (version_info_new 0 7 0 (replicate 8 0)) shift_gen demo_tramp_code [2] features_none decls cm =
       Ok (nid, cm') \<and> get_module_data features_none decls = Ok md \<and> ob_contents cm' nid = Some native \<and>
     link_word faddr daddr native 48 = daddr mid \<and> ob_contents cm' mid = Some manifest \<and>
     as_funcid (dc_function_names decls ! 2) = Some 1 \<and> map fst (ob_funcs cm') ! 1 = ''guest_func_main'' \<and> ob_code cm' 1 = Some [0xc3] \<and>
     map fst (ob_funcs cm') ! 2 = ''lucet_vmctx_current_memory'' \<and>
     (\<forall>d. dl_module_data d = md \<and> dl_function_manifest d = link_manifest faddr daddr manifest \<longrightarrow>
        dl_get_export_func d ''main'' = Ok \<lparr>fh_ptr = faddr 2, fh_id = 2, is_start_func = False\<rparr>)"
proof -
  obtain decls cm nid cm' md where d:
    "module_decls_new (clif_of object_ops) (Cons 0) shift_info shift_bindings (runtime_lucet (\<lambda>ps rs. [length ps, length rs])) heap_settings_default object_empty =
       Ok (decls, cm)"
    and o: "object_file object_ops (Cons 0) [0, 1] (\<lambda>md. Ok [1, 2, 3]) (version_info_new 0 7 0 (replicate 8 0)) shift_gen demo_tramp_code [2] features_none decls cm =
       Ok (nid, cm')"
    and md: "get_module_data features_none decls = Ok md" "md_get_export_func_id md ''main'' = Some 2"
    and names: "as_funcid (dc_function_names decls ! 2) = Some 1"
    "map fst (ob_funcs cm') = [''host_print'', ''guest_func_main'', ''lucet_vmctx_current_memory'', ''lucet_vmctx_grow_memory'',
       ''lucet_vmctx_yield_at_bound_expiration'', ''lucet_probestack'']" and c: "ob_code cm' 1 = Some [0xc3]"
    by (rule shift_object)
  have "\<forall>f g. shift_gen f = Ok g \<longrightarrow> sites_sorted (gn_traps g)" by (simp add: shift_gen_def sites_sorted_def)
  from obj.object_file_manifest [OF this demo_sorted(2) o] obtain fm md0 tbl mid where
    m: "ob_contents cm' mid = Some (write_manifest fm [0..<length (map fst (ob_funcs cm'))])"
      "ob_contents cm' nid = Some (native_data (version_info_new 0 7 0 (replicate 8 0)) md0 tbl (mid, length (map fst (ob_funcs cm'))))" by blast
  have "dl_get_export_func d ''main'' = Ok \<lparr>fh_ptr = faddr 2, fh_id = 2, is_start_func = False\<rparr>"
    if "dl_module_data d = md" "dl_function_manifest d = link_manifest faddr daddr (write_manifest fm [0..<length (map fst (ob_funcs cm'))])" for d
  proof -
    have "2 < length (map fst (ob_funcs cm'))" "32 * length (map fst (ob_funcs cm')) < 2 ^ 32" unfolding names(2) by simp_all
    with link_manifest_nth [of "[0..<length (map fst (ob_funcs cm'))]" 2 faddr daddr fm] md that show ?thesis
      by (auto simp: dl_get_export_func_def manifest_ptr_def function_spec_ptr_def simp flip: numeral_2_eq_2 simp del: length_map split: option.splits)
  qed
  with d o md m native_words(1) [OF demo_version_hash] names(1) c show ?thesis
    by (intro exI [of _ decls] exI [of _ cm] exI [of _ nid] exI [of _ cm'] exI [of _ md] exI conjI) (assumption | simp add: names(2))+
qed

end
