(* ===== verification/Cpu_Features.thy ===== *)
theory Cpu_Features
  imports Module_Info Module_Interface
begin

text \<open>
  The CPU features of a compilation (\<open>lucetc/src/compiler/cpu_features.rs\<close>): a profile with features added and taken away, the features written
  into the module (\<open>ModuleFeatures\<close>), and the flags given to the code generator. What \<open>raw_cpuid\<close> reports is the record
  \<open>cpu_features\<close> of \<open>Module_Interface\<close>; the code generator's settings are a parameter with the laws of the locale
  \<open>isa_settings\<close>. The lemmas show that generated code uses only features the module declares, so that the check at load time protects it.
\<close>

section \<open>Profiles\<close>

datatype target_cpu = Native | Baseline | Nehalem | Sandybridge | Haswell | Broadwell | Skylake | Cannonlake | Icelake | Znver1

datatype specific_feature = SF_SSE3 | SF_SSSE3 | SF_SSE41 | SF_SSE42 | SF_Popcnt | SF_AVX | SF_BMI1 | SF_BMI2 | SF_Lzcnt

text \<open>A family is described through the one before it.\<close>

fun generation :: "target_cpu \<Rightarrow> nat" where
  "generation Sandybridge = 1"
| "generation Haswell = 2"
| "generation Broadwell = 3"
| "generation Skylake = 4"
| "generation Cannonlake = 5"
| "generation Icelake = 6"
| "generation _ = 0"

function target_cpu_features :: "target_cpu \<Rightarrow> specific_feature list" where
  "target_cpu_features Native = []"
| "target_cpu_features Baseline = []"
| "target_cpu_features Nehalem = [SF_SSE3, SF_SSSE3, SF_SSE41, SF_SSE42, SF_Popcnt]"
| "target_cpu_features Sandybridge = target_cpu_features Nehalem @ [SF_AVX]"
| "target_cpu_features Haswell = target_cpu_features Sandybridge @ [SF_BMI1, SF_BMI2, SF_Lzcnt]"
| "target_cpu_features Broadwell = target_cpu_features Haswell"
| "target_cpu_features Skylake = target_cpu_features Broadwell"
| "target_cpu_features Cannonlake = target_cpu_features Skylake"
| "target_cpu_features Icelake = target_cpu_features Cannonlake"
| "target_cpu_features Znver1 = [SF_SSE3, SF_SSSE3, SF_SSE41, SF_SSE42, SF_Popcnt, SF_AVX, SF_BMI1, SF_BMI2, SF_Lzcnt]"
  by (metis target_cpu.exhaust) simp_all
termination
  by (relation "measure generation") simp_all

record cpu_config =
  cc_cpu :: target_cpu
  cc_specific :: "(specific_feature, bool) hash_map"

definition cpu_config_new :: "target_cpu \<Rightarrow> (specific_feature, bool) hash_map \<Rightarrow> cpu_config" where
  "cpu_config_new cpu specific = \<lparr>cc_cpu = cpu, cc_specific = specific\<rparr>"

definition detect_cpuid :: cpu_config where
  "detect_cpuid = \<lparr>cc_cpu = Native, cc_specific = []\<rparr>"

definition baseline :: cpu_config where
  "baseline = \<lparr>cc_cpu = Baseline, cc_specific = []\<rparr>"

definition set_feature :: "specific_feature \<Rightarrow> bool \<Rightarrow> cpu_config \<Rightarrow> cpu_config" where
  "set_feature sf enabled c = c\<lparr>cc_specific := AList.update sf enabled (cc_specific c)\<rparr>"

section \<open>The features of the module\<close>

definition detect_features :: "cpu_features \<Rightarrow> module_features \<Rightarrow> module_features" where
  "detect_features cpu features =
     (let features = (case cpu_feature_info cpu of
            Some info \<Rightarrow> features\<lparr>ft_sse3 := ''sse3'' \<in> info, ft_ssse3 := ''ssse3'' \<in> info, ft_sse41 := ''sse41'' \<in> info,
              ft_sse42 := ''sse42'' \<in> info, ft_avx := ''avx'' \<in> info, ft_popcnt := ''popcnt'' \<in> info\<rparr>
          | None \<Rightarrow> features);
          features = (case cpu_extended_info cpu of
            Some info \<Rightarrow> features\<lparr>ft_bmi1 := ''bmi1'' \<in> info, ft_bmi2 := ''bmi2'' \<in> info\<rparr>
          | None \<Rightarrow> features)
      in (case cpu_extended_function cpu of
            Some info \<Rightarrow> features\<lparr>ft_lzcnt := ''lzcnt'' \<in> info\<rparr>
          | None \<Rightarrow> features))"

text \<open>The two loops of \<open>From<&CpuFeatures> for ModuleFeatures\<close>.\<close>

fun adjust_features :: "(specific_feature \<times> bool) list \<Rightarrow> specific_feature set \<Rightarrow> specific_feature set" where
  "adjust_features [] feature_set = feature_set"
| "adjust_features ((feature, enabled) # rest) feature_set =
     adjust_features rest (if enabled then insert feature feature_set else feature_set - {feature})"

fun declare_feature :: "specific_feature \<Rightarrow> module_features \<Rightarrow> module_features" where
  "declare_feature SF_SSE3 mf = mf\<lparr>ft_sse3 := True\<rparr>"
| "declare_feature SF_SSSE3 mf = mf\<lparr>ft_ssse3 := True\<rparr>"
| "declare_feature SF_SSE41 mf = mf\<lparr>ft_sse41 := True\<rparr>"
| "declare_feature SF_SSE42 mf = mf\<lparr>ft_sse42 := True\<rparr>"
| "declare_feature SF_AVX mf = mf\<lparr>ft_avx := True\<rparr>"
| "declare_feature SF_BMI1 mf = mf\<lparr>ft_bmi1 := True\<rparr>"
| "declare_feature SF_BMI2 mf = mf\<lparr>ft_bmi2 := True\<rparr>"
| "declare_feature SF_Popcnt mf = mf\<lparr>ft_popcnt := True\<rparr>"
| "declare_feature SF_Lzcnt mf = mf\<lparr>ft_lzcnt := True\<rparr>"

definition all_features :: "specific_feature list" where
  "all_features = [SF_SSE3, SF_SSSE3, SF_SSE41, SF_SSE42, SF_Popcnt, SF_AVX, SF_BMI1, SF_BMI2, SF_Lzcnt]"

text \<open>The set is walked in some order; each feature sets its own flag, so that the order makes no difference.\<close>

definition module_features_from :: "cpu_features \<Rightarrow> cpu_config \<Rightarrow> module_features" where
  "module_features_from cpuid c =
     (let (module_features, feature_set) =
            (if cc_cpu c = Native then (detect_features cpuid features_none, {}) else (features_none, set (target_cpu_features (cc_cpu c))));
          feature_set = adjust_features (cc_specific c) feature_set
      in fold declare_feature (filter (\<lambda>f. f \<in> feature_set) all_features) module_features)"

text \<open>\<open>Compiler::module_features\<close>.\<close>

definition compiler_module_features :: "cpu_features \<Rightarrow> cpu_config \<Rightarrow> bool \<Rightarrow> module_features" where
  "compiler_module_features cpuid c count_instructions = (module_features_from cpuid c)\<lparr>ft_instruction_count := count_instructions\<rparr>"

section \<open>The flags of the code generator\<close>

fun flag_name :: "specific_feature \<Rightarrow> string" where
  "flag_name SF_SSE3 = ''has_sse3''"
| "flag_name SF_SSSE3 = ''has_ssse3''"
| "flag_name SF_SSE41 = ''has_sse41''"
| "flag_name SF_SSE42 = ''has_sse42''"
| "flag_name SF_Popcnt = ''has_popcnt''"
| "flag_name SF_AVX = ''has_avx''"
| "flag_name SF_BMI1 = ''has_bmi1''"
| "flag_name SF_BMI2 = ''has_bmi2''"
| "flag_name SF_Lzcnt = ''has_lzcnt''"

text \<open>\<open>entry(..).or_insert(true)\<close> for each feature of the profile.\<close>

fun add_profile :: "specific_feature list \<Rightarrow> (specific_feature, bool) hash_map \<Rightarrow> (specific_feature, bool) hash_map" where
  "add_profile [] m = m"
| "add_profile (f # fs) m = add_profile fs (if map_of m f = None then AList.update f True m else m)"

fun set_flags :: "(string \<Rightarrow> string \<Rightarrow> 'isa \<Rightarrow> (string, 'isa) rresult) \<Rightarrow> (specific_feature \<times> bool) list \<Rightarrow> 'isa \<Rightarrow> (lucetc_error, 'isa) rresult" where
  "set_flags isa_set [] b = Ok b"
| "set_flags isa_set ((feature, enabled) # rest) b =
     (case isa_set (flag_name feature) (if enabled then ''true'' else ''false'') b of
        Ok b \<Rightarrow> set_flags isa_set rest b
      | Err _ \<Rightarrow> Panic ''unwrap on Err''
      | Panic p \<Rightarrow> Panic p)"

text \<open>\<open>native\<close> is the builder for the host, \<open>looked_up\<close> the one for the target.\<close>

definition isa_builder ::
  "(string \<Rightarrow> string \<Rightarrow> 'isa \<Rightarrow> (string, 'isa) rresult) \<Rightarrow> 'isa option \<Rightarrow> (string, 'isa) rresult \<Rightarrow> cpu_config \<Rightarrow> (lucetc_error, 'isa) rresult" where
  "isa_builder isa_set native looked_up c =
     rbind (if cc_cpu c = Native then (case native of Some b \<Rightarrow> Ok b | None \<Rightarrow> Err (L_Unsupported ''host machine is not a supported target''))
        else map_err (\<lambda>_. L_UnsupportedIsa) looked_up) (\<lambda>isa_builder.
       set_flags isa_set (add_profile (target_cpu_features (cc_cpu c)) (cc_specific c)) isa_builder)"

section \<open>What the code relies on\<close>

text \<open>The code generator's settings: every feature has a flag that can be set to true and false, and setting one leaves the others as they are.\<close>

locale isa_settings =
  fixes isa_set :: "string \<Rightarrow> string \<Rightarrow> 'isa \<Rightarrow> (string, 'isa) rresult" and isa_flag :: "'isa \<Rightarrow> string \<Rightarrow> bool"
  assumes set_total: "v \<in> {''true'', ''false''} \<Longrightarrow> \<exists>b'. isa_set (flag_name f) v b = Ok b'"
    and set_flag: "isa_set n v b = Ok b' \<Longrightarrow> isa_flag b' m = (if m = n then v = ''true'' else isa_flag b m)"

section \<open>Lemmas\<close>

lemma flag_name_inj [simp]: "flag_name f = flag_name g \<longleftrightarrow> f = g"
  by (cases f; cases g) simp_all

lemma in_all_features [simp]: "f \<in> set all_features"
  by (cases f) (simp_all add: all_features_def)

fun declared :: "module_features \<Rightarrow> specific_feature \<Rightarrow> bool" where
  "declared mf SF_SSE3 = ft_sse3 mf"
| "declared mf SF_SSSE3 = ft_ssse3 mf"
| "declared mf SF_SSE41 = ft_sse41 mf"
| "declared mf SF_SSE42 = ft_sse42 mf"
| "declared mf SF_AVX = ft_avx mf"
| "declared mf SF_BMI1 = ft_bmi1 mf"
| "declared mf SF_BMI2 = ft_bmi2 mf"
| "declared mf SF_Popcnt = ft_popcnt mf"
| "declared mf SF_Lzcnt = ft_lzcnt mf"

fun cpuid_name :: "specific_feature \<Rightarrow> string" where
  "cpuid_name SF_SSE3 = ''sse3''"
| "cpuid_name SF_SSSE3 = ''ssse3''"
| "cpuid_name SF_SSE41 = ''sse41''"
| "cpuid_name SF_SSE42 = ''sse42''"
| "cpuid_name SF_AVX = ''avx''"
| "cpuid_name SF_BMI1 = ''bmi1''"
| "cpuid_name SF_BMI2 = ''bmi2''"
| "cpuid_name SF_Popcnt = ''popcnt''"
| "cpuid_name SF_Lzcnt = ''lzcnt''"

lemma declared_declare [simp]: "declared (declare_feature f mf) g \<longleftrightarrow> g = f \<or> declared mf g"
  by (cases f; cases g) simp_all

lemma declared_fold: "declared (fold declare_feature fs mf) g \<longleftrightarrow> g \<in> set fs \<or> declared mf g"
  by (induction fs arbitrary: mf) auto

lemma declared_none [simp]: "\<not> declared features_none f"
  by (cases f) (simp_all add: features_none_def)

lemma declared_count [simp]: "declared (mf\<lparr>ft_instruction_count := b\<rparr>) f = declared mf f"
  by (cases f) simp_all

lemma declared_required: "declared mf f \<longleftrightarrow> cpuid_name f \<in> required_features mf"
  by (cases f) (auto simp: required_features_def)

lemma adjust_features_iff:
  "distinct (map fst m) \<Longrightarrow> f \<in> adjust_features m S \<longleftrightarrow> (case map_of m f of Some e \<Rightarrow> e | None \<Rightarrow> f \<in> S)"
proof (induction m arbitrary: S)
  case (Cons x m)
  obtain g e where x: "x = (g, e)" by (cases x)
  then have "map_of m g = None" "distinct (map fst m)" using Cons.prems by (simp_all add: map_of_eq_None_iff)
  with Cons.IH x show ?case by (auto split: option.splits simp del: map_of_eq_Some_iff)
qed simp

lemma module_features_declared:
  assumes "distinct (map fst (cc_specific c))"
  shows "declared (compiler_module_features cpuid c n) f \<longleftrightarrow>
    (if cc_cpu c = Native then map_of (cc_specific c) f = Some True \<or> declared (detect_features cpuid features_none) f
     else (case map_of (cc_specific c) f of Some e \<Rightarrow> e | None \<Rightarrow> f \<in> set (target_cpu_features (cc_cpu c))))"
  using assms by (auto simp: compiler_module_features_def module_features_from_def Let_def declared_fold adjust_features_iff
      simp del: map_of_eq_Some_iff split: option.splits)

lemma add_profile_map_of: "map_of (add_profile fs m) f = (case map_of m f of Some e \<Rightarrow> Some e | None \<Rightarrow> if f \<in> set fs then Some True else None)"
  by (induction fs arbitrary: m) (auto simp: update_conv' split: option.splits)

lemma add_profile_distinct: "distinct (map fst m) \<Longrightarrow> distinct (map fst (add_profile fs m))"
  by (induction fs arbitrary: m) (auto simp: distinct_update)

context isa_settings
begin

lemma set_flags_run:
  "distinct (map fst m) \<Longrightarrow> \<exists>b'. set_flags isa_set m b = Ok b' \<and> (\<forall>f. isa_flag b' (flag_name f) = (case map_of m f of Some e \<Rightarrow> e | None \<Rightarrow> isa_flag b (flag_name f)))"
proof (induction m arbitrary: b)
  case (Cons x m)
  obtain f e where x: "x = (f, e)" by (cases x)
  obtain b1 where b1: "isa_set (flag_name f) (if e then ''true'' else ''false'') b = Ok b1" using set_total [of "if e then ''true'' else ''false''" f b] by (cases e) auto
  have n: "map_of m f = None" and "distinct (map fst m)" using Cons.prems x by (simp_all add: map_of_eq_None_iff)
  with Cons.IH obtain b' where "set_flags isa_set m b1 = Ok b'"
    "\<forall>g. isa_flag b' (flag_name g) = (case map_of m g of Some e \<Rightarrow> e | None \<Rightarrow> isa_flag b1 (flag_name g))" by blast
  with n x b1 set_flag [OF b1] show ?case
    by (auto split: option.splits simp del: map_of_eq_Some_iff)
qed simp

lemma isa_builder_flags:
  assumes "distinct (map fst (cc_specific c))" and "isa_builder isa_set native looked_up c = r"
  shows "(case (if cc_cpu c = Native then native else (case looked_up of Ok b \<Rightarrow> Some b | _ \<Rightarrow> None)) of
      Some b \<Rightarrow> \<exists>b'. r = Ok b' \<and> (\<forall>f. isa_flag b' (flag_name f) = (case map_of (cc_specific c) f of Some e \<Rightarrow> e
          | None \<Rightarrow> f \<in> set (target_cpu_features (cc_cpu c)) \<or> isa_flag b (flag_name f)))
    | None \<Rightarrow> \<not> is_ok r)"
proof -
  let ?src = "if cc_cpu c = Native then native else (case looked_up of Ok b \<Rightarrow> Some b | _ \<Rightarrow> None)"
  have run: "\<exists>b'. set_flags isa_set (add_profile (target_cpu_features (cc_cpu c)) (cc_specific c)) b = Ok b' \<and>
      (\<forall>f. isa_flag b' (flag_name f) = (case map_of (cc_specific c) f of Some e \<Rightarrow> e | None \<Rightarrow> f \<in> set (target_cpu_features (cc_cpu c)) \<or> isa_flag b (flag_name f)))" for b
    using set_flags_run [OF add_profile_distinct [OF assms(1)], of "target_cpu_features (cc_cpu c)" b]
    by (force simp: add_profile_map_of simp del: map_of_eq_Some_iff split: option.splits if_splits)
  show ?thesis
  proof (cases ?src)
    case None
    then have "\<not> is_ok r" using assms(2) by (auto simp: isa_builder_def split: if_splits rresult.splits)
    with None show ?thesis by simp
  next
    case (Some b)
    then have "r = set_flags isa_set (add_profile (target_cpu_features (cc_cpu c)) (cc_specific c)) b"
      using assms(2) by (auto simp: isa_builder_def split: if_splits rresult.splits)
    with Some run [of b] show ?thesis by simp
  qed
qed

end

lemma load_checks_features:
  assumes "load_and_maybe_verify loaded deserialize host verify base rt_version enforce = Ok d"
  shows "check_feature_support host (md_features (dl_module_data d)) = Ok ()"
  using assms by (cases loaded) (auto simp: load_and_maybe_verify_def Let_def)

text \<open>The settings as a record of the flags.\<close>

definition flags_set :: "string \<Rightarrow> string \<Rightarrow> (string \<Rightarrow> bool) \<Rightarrow> (string, string \<Rightarrow> bool) rresult" where
  "flags_set n v b = (if n \<notin> flag_name ` set all_features then Err ''BadName'' else if v \<notin> {''true'', ''false''} then Err ''BadValue''
     else Ok (b(n := (v = ''true''))))"

lemma flags_set_laws: "isa_settings flags_set (\<lambda>b. b)"
  by unfold_locales (auto simp: flags_set_def split: if_splits)

interpretation flags: isa_settings flags_set "\<lambda>b. b"
  by (rule flags_set_laws)

section \<open>Properties\<close>

text \<open>C13: Generated code runs only where its instructions exist. Whatever profile and features are asked for, every CPU feature
  the code generator may use is declared in the module, exactly those when the profile is not the host's own, and a host on which the module loads
  has every one of them.\<close>

theorem code_features_checked:
  assumes "isa_settings isa_set isa_flag" and "distinct (map fst (cc_specific c))"
    and "\<forall>b f. native = Some b \<longrightarrow> isa_flag b (flag_name f) \<longrightarrow> declared (detect_features cpuid features_none) f"
    and "\<forall>b f. looked_up = Ok b \<longrightarrow> \<not> isa_flag b (flag_name f)"
    and "isa_builder isa_set native looked_up c = Ok b"
  shows "(\<forall>f. isa_flag b (flag_name f) \<longrightarrow> declared (compiler_module_features cpuid c n) f) \<and>
    (cc_cpu c \<noteq> Native \<longrightarrow> (\<forall>f. declared (compiler_module_features cpuid c n) f \<longleftrightarrow> isa_flag b (flag_name f))) \<and>
    (\<forall>loaded deserialize host verify base rt_version enforce d.
       load_and_maybe_verify loaded deserialize host verify base rt_version enforce = Ok d \<longrightarrow>
       md_features (dl_module_data d) = compiler_module_features cpuid c n \<longrightarrow>
       (\<forall>f. isa_flag b (flag_name f) \<longrightarrow> cpuid_name f \<in> host_features host))"
proof -
  note fl = isa_settings.isa_builder_flags [OF assms(1,2,5)]
  note mf = module_features_declared [OF assms(2), of cpuid n]
  have native: "isa_flag b (flag_name f) \<longrightarrow> declared (compiler_module_features cpuid c n) f" if "cc_cpu c = Native" for f
  proof -
    from fl that obtain b0 where "native = Some b0" "isa_flag b (flag_name f) = (case map_of (cc_specific c) f of Some e \<Rightarrow> e | None \<Rightarrow> isa_flag b0 (flag_name f))"
      by (auto split: option.splits)
    with mf [of f] that assms(3) show ?thesis by (auto simp del: map_of_eq_Some_iff split: option.splits)
  qed
  have other: "declared (compiler_module_features cpuid c n) f \<longleftrightarrow> isa_flag b (flag_name f)" if "cc_cpu c \<noteq> Native" for f
  proof -
    from fl that obtain b0 where "looked_up = Ok b0"
      "isa_flag b (flag_name f) = (case map_of (cc_specific c) f of Some e \<Rightarrow> e | None \<Rightarrow> f \<in> set (target_cpu_features (cc_cpu c)) \<or> isa_flag b0 (flag_name f))"
      by (auto split: rresult.splits)
    with mf [of f] that assms(4) show ?thesis by (simp split: option.splits)
  qed
  have used: "declared (compiler_module_features cpuid c n) f" if "isa_flag b (flag_name f)" for f using native other that by blast
  have "cpuid_name f \<in> host_features host"
    if "load_and_maybe_verify loaded deserialize host verify base rt_version enforce = Ok d" "md_features (dl_module_data d) = compiler_module_features cpuid c n"
      "isa_flag b (flag_name f)" for loaded deserialize host verify base rt_version enforce d f
    using check_feature_support_sound [OF load_checks_features [OF that(1)]] that(2) used [OF that(3)] by (auto simp: declared_required)
  with used other show ?thesis by blast
qed

text \<open>Haswell without AVX but with the rest of its profile.\<close>

definition demo_config :: cpu_config where
  "demo_config = set_feature SF_AVX False (cpu_config_new Haswell [])"

definition demo_cpuid :: cpu_features where
  "demo_cpuid = \<lparr>cpu_feature_info = Some {''sse3'', ''avx''}, cpu_extended_info = None, cpu_extended_function = None\<rparr>"

theorem code_features_checked_witness:
  "\<exists>b. isa_builder flags_set None (Ok (\<lambda>_. False)) demo_config = Ok b \<and> b ''has_bmi2'' \<and> \<not> b ''has_avx'' \<and>
     declared (compiler_module_features demo_cpuid demo_config True) SF_BMI2 \<and> \<not> declared (compiler_module_features demo_cpuid demo_config True) SF_AVX"
proof -
  have dist: "distinct (map fst (cc_specific demo_config))" by (simp add: demo_config_def set_feature_def cpu_config_new_def)
  have cpu: "cc_cpu demo_config = Haswell" "map_of (cc_specific demo_config) SF_BMI2 = None" "map_of (cc_specific demo_config) SF_AVX = Some False"
    by (simp_all add: demo_config_def set_feature_def cpu_config_new_def)
  obtain b where b: "isa_builder flags_set None (Ok (\<lambda>_. False)) demo_config = Ok b"
    "\<forall>f. b (flag_name f) = (case map_of (cc_specific demo_config) f of Some e \<Rightarrow> e | None \<Rightarrow> f \<in> set (target_cpu_features Haswell))"
    using flags.isa_builder_flags [OF dist refl, of None "Ok (\<lambda>_. False)"] unfolding cpu(1) by (auto cong: option.case_cong)
  have fl: "b (flag_name SF_BMI2)" "\<not> b (flag_name SF_AVX)" using b(2) [rule_format, of SF_BMI2] b(2) [rule_format, of SF_AVX] cpu(2,3) by simp_all
  have "\<forall>b f. (None :: (string \<Rightarrow> bool) option) = Some b \<longrightarrow> b (flag_name f) \<longrightarrow> declared (detect_features demo_cpuid features_none) f"
    "\<forall>b f. Ok (\<lambda>_. False) = (Ok b :: (string, string \<Rightarrow> bool) rresult) \<longrightarrow> \<not> b (flag_name f)" by auto
  note t = code_features_checked [OF flags_set_laws dist this b(1), of True]
  then have "declared (compiler_module_features demo_cpuid demo_config True) f \<longleftrightarrow> b (flag_name f)" for f using cpu(1) by simp
  with b(1) fl show ?thesis by (simp del: declared.simps)
qed

text \<open>With the host's own profile a feature that is switched off is not used, and still required of every host that loads the module.\<close>

theorem native_disabled_still_required:
  assumes "isa_settings isa_set isa_flag" and "distinct (map fst (cc_specific c))" and "cc_cpu c = Native" and "map_of (cc_specific c) f = Some False"
    and "declared (detect_features cpuid features_none) f" and "isa_builder isa_set native looked_up c = Ok b"
  shows "\<not> isa_flag b (flag_name f) \<and> declared (compiler_module_features cpuid c n) f \<and>
    (cpuid_name f \<notin> host_features host \<longrightarrow> check_feature_support host (compiler_module_features cpuid c n) \<noteq> Ok ())"
proof -
  have "\<not> isa_flag b (flag_name f)" using isa_settings.isa_builder_flags [OF assms(1,2,6)] assms(3,4) by (auto simp del: map_of_eq_Some_iff split: option.splits)
  moreover have req: "declared (compiler_module_features cpuid c n) f" using module_features_declared [OF assms(2)] assms(3,5) by simp
  ultimately show ?thesis using check_feature_support_sound [of host "compiler_module_features cpuid c n"] by (auto simp: declared_required)
qed

end
