(* ===== verification/Lucetc_Driver.thy ===== *)
theory Lucetc_Driver
  imports Object_File Cpu_Features Module_Signing Module_Info_Wf
begin

text \<open>
  The compiler as a program uses it (\<open>lucetc/src/lib.rs\<close>, \<open>load.rs\<close>, \<open>signature.rs\<close>, \<open>output.rs\<close> and the construction of a
  \<open>Compiler\<close> in \<open>compiler.rs\<close>): options, reading and verifying the input, compilation, linking and signing. Cranelift,
  \<open>wasmparser\<close>, \<open>wabt\<close>, \<open>minisign\<close>, the linker and the environment are the fields of \<open>toolchain\<close>; the file system maps paths to
  contents, and paths are UTF-8. The lemmas show what is accepted as input, and that the exports of a compiled module reach the
  code generated for them.
\<close>

section \<open>Options\<close>

datatype operating_system = OS_Linux | OS_Freebsd | OS_Dragonfly | OS_Netbsd | OS_Openbsd | OS_Darwin | OS_MacOSX | OS_Windows | OS_Other string

datatype triple_env = Env_Gnu | Env_Msvc | Env_Other string

record triple =
  tr_os :: operating_system
  tr_env :: triple_env

datatype backend_variant = Legacy | MachInst

datatype opt_level = OL_None | OL_Speed | OL_SpeedAndSize

fun to_flag :: "opt_level \<Rightarrow> string" where
  "to_flag OL_None = ''none''"
| "to_flag OL_Speed = ''speed''"
| "to_flag OL_SpeedAndSize = ''speed_and_size''"

text \<open>\<open>TargetVersion\<close> is empty except on macOS, and the feature \<open>old-x64-backend\<close> is off.\<close>

record compiler_builder =
  cb_target :: triple
  cb_variant :: backend_variant
  cb_opt_level :: opt_level
  cb_cpu_features :: cpu_config
  cb_heap_settings :: heap_settings
  cb_count_instructions :: bool
  cb_canonicalize_nans :: bool
  cb_validator :: "validator option"

definition compiler_builder_new :: "triple \<Rightarrow> compiler_builder" where
  "compiler_builder_new host = \<lparr>cb_target = host, cb_variant = MachInst, cb_opt_level = OL_SpeedAndSize, cb_cpu_features = detect_cpuid,
     cb_heap_settings = heap_settings_default, cb_count_instructions = False, cb_canonicalize_nans = False, cb_validator = None\<rparr>"

datatype lucetc_input = In_Bytes "u8 list" | In_Path string

record lucetc =
  lc_input :: lucetc_input
  lc_bindings :: "bindings list"
  lc_builder :: compiler_builder
  lc_sk :: "nat option"
  lc_pk :: "nat option"
  lc_sign :: bool
  lc_verify :: bool
  lc_translate_wat :: bool

definition lucetc_new :: "triple \<Rightarrow> string \<Rightarrow> lucetc" where
  "lucetc_new host path = \<lparr>lc_input = In_Path path, lc_bindings = [], lc_builder = compiler_builder_new host, lc_sk = None, lc_pk = None,
     lc_sign = False, lc_verify = False, lc_translate_wat = True\<rparr>"

text \<open>The methods of \<open>LucetcOpts\<close>, as data; each has a form that changes the compiler and one that returns the changed compiler.\<close>

datatype lucetc_opt =
    O_Bindings bindings | O_Target triple | O_BackendVariant backend_variant | O_OptLevel opt_level | O_CpuFeatures cpu_config | O_Validator validator
  | O_MinReservedSize u64 | O_MaxReservedSize u64 | O_ReservedSize u64 | O_GuardSize u64 | O_Pk nat | O_Sk nat | O_Verify | O_Sign
  | O_CountInstructions bool | O_CanonicalizeNans bool | O_TranslateWat bool

definition on_builder :: "(compiler_builder \<Rightarrow> compiler_builder) \<Rightarrow> lucetc \<Rightarrow> lucetc" where
  "on_builder f self = self\<lparr>lc_builder := f (lc_builder self)\<rparr>"

definition on_heap_settings :: "(heap_settings \<Rightarrow> heap_settings) \<Rightarrow> lucetc \<Rightarrow> lucetc" where
  "on_heap_settings f = on_builder (\<lambda>b. b\<lparr>cb_heap_settings := f (cb_heap_settings b)\<rparr>)"

fun set_opt :: "lucetc_opt \<Rightarrow> lucetc \<Rightarrow> lucetc" where
  "set_opt (O_Bindings b) self = self\<lparr>lc_bindings := lc_bindings self @ [b]\<rparr>"
| "set_opt (O_Target t) self = on_builder (\<lambda>b. b\<lparr>cb_target := t\<rparr>) self"
| "set_opt (O_BackendVariant v) self = on_builder (\<lambda>b. b\<lparr>cb_variant := v\<rparr>) self"
| "set_opt (O_OptLevel l) self = on_builder (\<lambda>b. b\<lparr>cb_opt_level := l\<rparr>) self"
| "set_opt (O_CpuFeatures c) self = on_builder (\<lambda>b. b\<lparr>cb_cpu_features := c\<rparr>) self"
| "set_opt (O_Validator v) self = on_builder (\<lambda>b. b\<lparr>cb_validator := Some v\<rparr>) self"
| "set_opt (O_MinReservedSize n) self = on_heap_settings (\<lambda>h. h\<lparr>min_reserved_size := n\<rparr>) self"
| "set_opt (O_MaxReservedSize n) self = on_heap_settings (\<lambda>h. h\<lparr>max_reserved_size := n\<rparr>) self"
| "set_opt (O_ReservedSize n) self = on_heap_settings (\<lambda>h. h\<lparr>min_reserved_size := n, max_reserved_size := n\<rparr>) self"
| "set_opt (O_GuardSize n) self = on_heap_settings (\<lambda>h. h\<lparr>hset_guard_size := n\<rparr>) self"
| "set_opt (O_Pk k) self = self\<lparr>lc_pk := Some k\<rparr>"
| "set_opt (O_Sk k) self = self\<lparr>lc_sk := Some k\<rparr>"
| "set_opt O_Verify self = self\<lparr>lc_verify := True\<rparr>"
| "set_opt O_Sign self = self\<lparr>lc_sign := True\<rparr>"
| "set_opt (O_CountInstructions e) self = on_builder (\<lambda>b. b\<lparr>cb_count_instructions := e\<rparr>) self"
| "set_opt (O_CanonicalizeNans e) self = on_builder (\<lambda>b. b\<lparr>cb_canonicalize_nans := e\<rparr>) self"
| "set_opt (O_TranslateWat e) self = self\<lparr>lc_translate_wat := e\<rparr>"

section \<open>The toolchain\<close>

record ('sig, 'body, 'isa, 'tisa, 'cm) toolchain =
  tc_wat2wasm :: "u8 list \<Rightarrow> (string, u8 list) rresult"
  tc_box_from_file :: "u8 list option \<Rightarrow> (string, u8 list) rresult"
  tc_minisign_verify :: "nat \<Rightarrow> u8 list \<Rightarrow> u8 list \<Rightarrow> (string, unit) rresult"
  tc_parse :: "u8 list \<Rightarrow> ('sig, 'body) decl list \<times> wasm_error option"
  tc_isa_set :: "string \<Rightarrow> string \<Rightarrow> 'isa \<Rightarrow> (string, 'isa) rresult"
  tc_native :: "backend_variant \<Rightarrow> 'isa option"
  tc_lookup :: "triple \<Rightarrow> backend_variant \<Rightarrow> (string, 'isa) rresult"
  tc_finish :: "(string \<times> string) list \<Rightarrow> 'isa \<Rightarrow> 'tisa"
  tc_debug :: bool
  tc_cpuid :: cpu_features
  tc_new_module :: "'tisa \<Rightarrow> (string, 'cm) rresult"
  tc_ops :: "('sig, 'cm) obj_ops"
  tc_add_vmctx :: "'sig \<Rightarrow> 'sig"
  tc_ir_sig :: "'tisa \<Rightarrow> wasm_type list \<Rightarrow> wasm_type list \<Rightarrow> 'sig"
  tc_probe_sig :: 'sig
  tc_codegen :: "'tisa \<Rightarrow> 'sig module_decls \<Rightarrow> bool \<Rightarrow> nat \<Rightarrow> 'body \<Rightarrow> (lucetc_error, generated) rresult"
  tc_trampoline :: "'tisa \<Rightarrow> 'sig \<Rightarrow> name \<Rightarrow> u8 list \<times> ir_trap_site list"
  tc_order :: "nat list \<Rightarrow> nat list"
  tc_serialize :: "module_data \<Rightarrow> (lucetc_error, u8 list) rresult"
  tc_version :: version_info
  tc_emit :: "'cm \<Rightarrow> (string, u8 list) rresult"
  tc_creatable :: "string \<Rightarrow> bool"
  tc_tempdir :: "(lucetc_error, string) rresult"
  tc_env_var :: "string \<Rightarrow> string option"
  tc_run :: "string list \<Rightarrow> file_system \<Rightarrow> (lucetc_error, bool \<times> string) rresult \<times> file_system"
  tc_sig :: sig_ops

section \<open>Reading the input\<close>

definition signature_path :: "string \<Rightarrow> string" where
  "signature_path path = path @ ''.minisig''"

definition signature_box_for_module_path ::
  "('sig, 'body, 'isa, 'tisa, 'cm) toolchain \<Rightarrow> file_system \<Rightarrow> string \<Rightarrow> (lucetc_error, u8 list) rresult" where
  "signature_box_for_module_path tc fs path =
     map_err (\<lambda>e. L_Signature (''Unable to load the signature file: '' @ e)) (tc_box_from_file tc (fs (signature_path path)))"

definition verify_source_code ::
  "('sig, 'body, 'isa, 'tisa, 'cm) toolchain \<Rightarrow> u8 list \<Rightarrow> u8 list \<Rightarrow> nat \<Rightarrow> (lucetc_error, unit) rresult" where
  "verify_source_code tc buf signature_box pk = map_err L_Signature (tc_minisign_verify tc pk signature_box buf)"

definition wasm_preamble :: "u8 list \<Rightarrow> bool" where
  "wasm_preamble buf \<longleftrightarrow> length buf > 4 \<and> take 4 buf = [0, 97, 115, 109]"

definition read_input_bytes :: "('sig, 'body, 'isa, 'tisa, 'cm) toolchain \<Rightarrow> u8 list \<Rightarrow> (lucetc_error, u8 list) rresult" where
  "read_input_bytes tc bytes = (if wasm_preamble bytes then Ok bytes else map_err (\<lambda>err. L_Input (''wat2wasm '' @ err)) (tc_wat2wasm tc bytes))"

definition read_module ::
  "('sig, 'body, 'isa, 'tisa, 'cm) toolchain \<Rightarrow> file_system \<Rightarrow> string \<Rightarrow> nat option \<Rightarrow> bool \<Rightarrow> bool \<Rightarrow> (lucetc_error, u8 list) rresult" where
  "read_module tc fs path pk verify translate_wat =
     rbind (rresult_of_option L_IOError (fs path)) (\<lambda>contents.
     rbind (if verify then
              rbind (signature_box_for_module_path tc fs path) (\<lambda>signature_box.
              rbind (rresult_of_option (L_Signature ''public key is missing'') pk) (\<lambda>pk. verify_source_code tc contents signature_box pk))
            else Ok ()) (\<lambda>_.
     if translate_wat then read_input_bytes tc contents
     else if wasm_preamble contents then Ok contents
     else Err L_MissingWasmPreamble))"

definition try_from_bytes :: "('sig, 'body, 'isa, 'tisa, 'cm) toolchain \<Rightarrow> triple \<Rightarrow> u8 list \<Rightarrow> (lucetc_error, lucetc) rresult" where
  "try_from_bytes tc host bytes =
     rbind (read_input_bytes tc bytes) (\<lambda>input.
       Ok \<lparr>lc_input = In_Bytes input, lc_bindings = [], lc_builder = compiler_builder_new host, lc_sk = None, lc_pk = None,
           lc_sign = False, lc_verify = False, lc_translate_wat = False\<rparr>)"

fun extend_all :: "bindings list \<Rightarrow> bindings \<Rightarrow> (lucetc_error, bindings) rresult" where
  "extend_all [] acc = Ok acc"
| "extend_all (binding # rest) acc =
     (case bindings_extend binding acc of
        (Ok _, acc) \<Rightarrow> extend_all rest acc
      | (Err e, _) \<Rightarrow> Err (L_LucetModule e)
      | (Panic p, _) \<Rightarrow> Panic p)"

definition build :: "('sig, 'body, 'isa, 'tisa, 'cm) toolchain \<Rightarrow> file_system \<Rightarrow> lucetc \<Rightarrow> (lucetc_error, u8 list \<times> bindings) rresult" where
  "build tc fs self =
     rbind (case lc_input self of
         In_Bytes bytes \<Rightarrow> Ok bytes
       | In_Path path \<Rightarrow> read_module tc fs path (lc_pk self) (lc_verify self) (lc_translate_wat self)) (\<lambda>module_binary.
     rbind (extend_all (lc_bindings self) bindings_empty) (\<lambda>b. Ok (module_binary, b)))"

section \<open>Compiling\<close>

definition shared_flags :: "bool \<Rightarrow> opt_level \<Rightarrow> bool \<Rightarrow> (string \<times> string) list" where
  "shared_flags debug level canonicalize_nans =
     [(''enable_verifier'', if debug then ''true'' else ''false''), (''is_pic'', ''true''), (''opt_level'', to_flag level)] @
     (if canonicalize_nans then [(''enable_nan_canonicalization'', ''true'')] else [])"

definition target_isa :: "('sig, 'body, 'isa, 'tisa, 'cm) toolchain \<Rightarrow> compiler_builder \<Rightarrow> (lucetc_error, 'tisa) rresult" where
  "target_isa tc b =
     rbind (isa_builder (tc_isa_set tc) (tc_native tc (cb_variant b)) (tc_lookup tc (cb_target b) (cb_variant b)) (cb_cpu_features b)) (\<lambda>isa.
       Ok (tc_finish tc (shared_flags (tc_debug tc) (cb_opt_level b) (cb_canonicalize_nans b)) isa))"

text \<open>\<open>translate_module\<close>: Cranelift's calls in order, until one fails or the parser does.\<close>

fun run_decls ::
  "('sig \<Rightarrow> 'sig) \<Rightarrow> ('sig, 'body) decl list \<Rightarrow> ('sig, 'body) module_validation \<Rightarrow> (wasm_error, ('sig, 'body) module_validation) rresult" where
  "run_decls add_vmctx [] mv = Ok mv"
| "run_decls add_vmctx (d # ds) mv = rbind (declare_decl add_vmctx d mv) (run_decls add_vmctx ds)"

definition translate_module ::
  "('sig, 'body, 'isa, 'tisa, 'cm) toolchain \<Rightarrow> u8 list \<Rightarrow> ('sig, 'body) module_validation \<Rightarrow> (lucetc_error, ('sig, 'body) module_validation) rresult" where
  "translate_module tc wasm_binary mv =
     (case tc_parse tc wasm_binary of (ds, failed) \<Rightarrow>
        map_err from_wasm_error (rbind (run_decls (tc_add_vmctx tc) ds mv) (\<lambda>mv. case failed of None \<Rightarrow> Ok mv | Some e \<Rightarrow> Err e)))"

record ('sig, 'body, 'tisa, 'cm) compiler =
  cp_decls :: "'sig module_decls"
  cp_module :: 'cm
  cp_isa :: 'tisa
  cp_cpu_features :: cpu_config
  cp_count_instructions :: bool
  cp_function_bodies :: "(nat \<times> 'body) list"

definition compiler_new ::
  "('sig, 'body, 'isa, 'tisa, 'cm) toolchain \<Rightarrow> compiler_builder \<Rightarrow> u8 list \<Rightarrow> bindings \<Rightarrow> (lucetc_error, ('sig, 'body, 'tisa, 'cm) compiler) rresult" where
  "compiler_new tc b wasm_binary bs =
     rbind (target_isa tc b) (\<lambda>isa.
     rbind (translate_module tc wasm_binary (module_validation_new (cb_validator b))) (\<lambda>mv.
     rbind (validation_errors mv) (\<lambda>_.
     rbind (target_isa tc b) (\<lambda>isa_copy.
     rbind (map_err L_ClifModuleError (tc_new_module tc isa_copy)) (\<lambda>cm.
     rbind (module_decls_new (clif_of (tc_ops tc)) (tc_add_vmctx tc) (mv_info mv) bs (runtime_lucet (tc_ir_sig tc isa)) (cb_heap_settings b) cm) (\<lambda>(decls, cm).
     Ok \<lparr>cp_decls = decls, cp_module = cm, cp_isa = isa, cp_cpu_features = cb_cpu_features b, cp_count_instructions = cb_count_instructions b,
         cp_function_bodies = function_bodies mv\<rparr>))))))"

definition compiler_gen :: "('sig, 'body, 'isa, 'tisa, 'cm) toolchain \<Rightarrow> ('sig, 'body, 'tisa, 'cm) compiler \<Rightarrow> nat \<Rightarrow> (lucetc_error, generated) rresult" where
  "compiler_gen tc c f =
     (case map_of (cp_function_bodies c) f of
        Some body \<Rightarrow> tc_codegen tc (cp_isa c) (cp_decls c) (cp_count_instructions c) f body
      | None \<Rightarrow> Panic ''no function body'')"

definition compiler_object_file ::
  "('sig, 'body, 'isa, 'tisa, 'cm) toolchain \<Rightarrow> ('sig, 'body, 'tisa, 'cm) compiler \<Rightarrow> (lucetc_error, nat \<times> 'cm) rresult" where
  "compiler_object_file tc c =
     object_file (tc_ops tc) (tc_add_vmctx tc) (tc_probe_sig tc) (tc_serialize tc) (tc_version tc) (compiler_gen tc c)
       (tc_trampoline tc (cp_isa c)) (tc_order tc (map fst (cp_function_bodies c)))
       (compiler_module_features (tc_cpuid tc) (cp_cpu_features c) (cp_count_instructions c)) (cp_decls c) (cp_module c)"

section \<open>Writing, linking and signing\<close>

text \<open>\<open>ObjectFile::write\<close>: the file is created before the object is encoded.\<close>

definition object_write ::
  "('sig, 'body, 'isa, 'tisa, 'cm) toolchain \<Rightarrow> 'cm \<Rightarrow> string \<Rightarrow> file_system \<Rightarrow> (lucetc_error, unit) rresult \<times> file_system" where
  "object_write tc cm path fs =
     (if \<not> tc_creatable tc path then (Err L_IOError, fs)
      else let fs = fs(path \<mapsto> []) in
        (case map_err (\<lambda>e. L_ObjectArtifact ''Write error'') (tc_emit tc cm) of
           Ok bytes \<Rightarrow> (Ok (), fs(path \<mapsto> bytes))
         | Err e \<Rightarrow> (Err e, fs)
         | Panic p \<Rightarrow> (Panic p, fs)))"

definition compile_input ::
  "('sig, 'body, 'isa, 'tisa, 'cm) toolchain \<Rightarrow> lucetc \<Rightarrow> file_system \<Rightarrow> (lucetc_error, nat \<times> 'cm) rresult" where
  "compile_input tc self fs =
     rbind (build tc fs self) (\<lambda>(module_contents, b).
     rbind (compiler_new tc (lc_builder self) module_contents b) (compiler_object_file tc))"

definition lucetc_object_file ::
  "('sig, 'body, 'isa, 'tisa, 'cm) toolchain \<Rightarrow> lucetc \<Rightarrow> string \<Rightarrow> file_system \<Rightarrow> (lucetc_error, unit) rresult \<times> file_system" where
  "lucetc_object_file tc self output fs =
     (case compile_input tc self fs of
        Ok (_, cm) \<Rightarrow> object_write tc cm output fs
      | Err e \<Rightarrow> (Err e, fs)
      | Panic p \<Rightarrow> (Panic p, fs))"

text \<open>\<open>split_whitespace\<close>, and \<open>{:?}\<close> of a path of printable characters.\<close>

definition is_space :: "char \<Rightarrow> bool" where
  "is_space c \<longleftrightarrow> of_char c = (32 :: nat) \<or> 9 \<le> (of_char c :: nat) \<and> of_char c \<le> (13 :: nat)"

function split_whitespace :: "string \<Rightarrow> string list" where
  "split_whitespace s =
     (let rest = dropWhile is_space s in
      if rest = [] then [] else takeWhile (\<lambda>c. \<not> is_space c) rest # split_whitespace (dropWhile (\<lambda>c. \<not> is_space c) rest))"
  by pat_completeness auto
termination
proof (relation "measure length")
  fix s rest :: string assume "rest = dropWhile is_space s" "rest \<noteq> []"
  then have "dropWhile is_space s \<noteq> []" and r: "rest = dropWhile is_space s" by simp_all
  then have "\<not> is_space (hd rest)" "rest \<noteq> []" using hd_dropWhile [of is_space s] by simp_all
  then have "length (dropWhile (\<lambda>c. \<not> is_space c) rest) < length rest" by (cases rest) (auto simp: le_imp_less_Suc length_dropWhile_le)
  with r length_dropWhile_le [of is_space s] show "(dropWhile (\<lambda>c. \<not> is_space c) rest, s) \<in> measure length" by simp
qed simp

declare split_whitespace.simps [simp del]

fun debug_char :: "char \<Rightarrow> string" where
  "debug_char c =
     (if c = CHR 0x22 then [CHR 0x5C, CHR 0x22] else if c = CHR 0x5C then [CHR 0x5C, CHR 0x5C] else [c])"

definition debug_path :: "string \<Rightarrow> string" where
  "debug_path s = [CHR 0x22] @ concat (map debug_char s) @ [CHR 0x22]"

definition ldflags_default :: "triple \<Rightarrow> (lucetc_error, string) rresult" where
  "ldflags_default target =
     (case tr_os target of
        OS_Linux \<Rightarrow> Ok ''-shared'' | OS_Freebsd \<Rightarrow> Ok ''-shared'' | OS_Dragonfly \<Rightarrow> Ok ''-shared'' | OS_Netbsd \<Rightarrow> Ok ''-shared''
      | OS_Openbsd \<Rightarrow> Ok ''-shared''
      | OS_Darwin \<Rightarrow> Ok ''-dylib -dead_strip -export_dynamic -undefined dynamic_lookup''
      | OS_MacOSX \<Rightarrow> Ok ''-dylib -dead_strip -export_dynamic -undefined dynamic_lookup''
      | _ \<Rightarrow> Panic ''Cannot determine default flags'')"

definition output_arg_for :: "triple \<Rightarrow> string \<Rightarrow> (lucetc_error, string list) rresult" where
  "output_arg_for target sopath =
     (if tr_os target \<noteq> OS_Windows \<or> tr_env target = Env_Gnu then Ok [''-o'', sopath]
      else if tr_env target \<noteq> Env_Msvc then Panic ''assertion failed: target.environment == Environment::Msvc''
      else Ok [''/out:'' @ debug_path sopath])"

definition ld_command :: "('sig, 'body, 'isa, 'tisa, 'cm) toolchain \<Rightarrow> string \<Rightarrow> triple \<Rightarrow> string \<Rightarrow> (lucetc_error, string list) rresult" where
  "ld_command tc objpath target sopath =
     (case split_whitespace (case tc_env_var tc ''LD'' of Some s \<Rightarrow> s | None \<Rightarrow> ''ld'') of
        [] \<Rightarrow> Panic ''LD must not be empty''
      | ld \<Rightarrow>
          rbind (case tc_env_var tc ''LDFLAGS'' of Some s \<Rightarrow> Ok s | None \<Rightarrow> ldflags_default target) (\<lambda>ldflags.
          rbind (output_arg_for target sopath) (\<lambda>out. Ok (ld @ [objpath] @ split_whitespace ldflags @ out))))"

definition link_so ::
  "('sig, 'body, 'isa, 'tisa, 'cm) toolchain \<Rightarrow> string \<Rightarrow> triple \<Rightarrow> string \<Rightarrow> file_system \<Rightarrow> (lucetc_error, unit) rresult \<times> file_system" where
  "link_so tc objpath target sopath fs =
     (case ld_command tc objpath target sopath of
        Ok cmd \<Rightarrow>
          (case tc_run tc cmd fs of
             (Ok (success, stderr), fs) \<Rightarrow> (if success then Ok () else Err (L_LdError (''ld of '' @ objpath @ '' failed: '' @ stderr)), fs)
           | (Err e, fs) \<Rightarrow> (Err e, fs)
           | (Panic p, fs) \<Rightarrow> (Panic p, fs))
      | Err e \<Rightarrow> (Err e, fs)
      | Panic p \<Rightarrow> (Panic p, fs))"

definition sign_output ::
  "('sig, 'body, 'isa, 'tisa, 'cm) toolchain \<Rightarrow> lucetc \<Rightarrow> string \<Rightarrow> file_system \<Rightarrow> (lucetc_error, unit) rresult \<times> file_system" where
  "sign_output tc self output fs =
     (if lc_sign self then
        (case lc_sk self of
           Some sk \<Rightarrow> (case sign_module (tc_sig tc) output sk fs of (r, fs) \<Rightarrow> (map_err L_LucetModule r, fs))
         | None \<Rightarrow> (Err (L_Signature ''signing requires a secret key''), fs))
      else (Ok (), fs))"

text \<open>The temporary directory goes away when the function returns.\<close>

definition shared_object_file ::
  "('sig, 'body, 'isa, 'tisa, 'cm) toolchain \<Rightarrow> lucetc \<Rightarrow> string \<Rightarrow> file_system \<Rightarrow> (lucetc_error, unit) rresult \<times> file_system" where
  "shared_object_file tc self output fs =
     (case tc_tempdir tc of
        Ok dir \<Rightarrow>
          (let objpath = dir @ ''/tmp.o'';
               (r, fs) =
                 (case lucetc_object_file tc self objpath fs of
                    (Ok _, fs) \<Rightarrow>
                      (case link_so tc objpath (cb_target (lc_builder self)) output fs of
                         (Ok _, fs) \<Rightarrow> sign_output tc self output fs
                       | (e, fs) \<Rightarrow> (e, fs))
                  | (e, fs) \<Rightarrow> (e, fs))
           in (r, fs(objpath := None)))
      | Err e \<Rightarrow> (Err e, fs)
      | Panic p \<Rightarrow> (Panic p, fs))"

section \<open>Lemmas\<close>

lemma extend_all_union:
  "extend_all bs acc = Ok b \<Longrightarrow> bindings_inv (bound acc) \<Longrightarrow> \<forall>b' \<in> set bs. bindings_inv (bound b') \<Longrightarrow>
   translate b m s = Ok x \<longleftrightarrow> translate acc m s = Ok x \<or> (\<exists>b' \<in> set bs. translate b' m s = Ok x)"
proof (induction bs arbitrary: acc)
  case (Cons b1 bs)
  obtain r acc' where e: "bindings_extend b1 acc = (r, acc')" by (cases "bindings_extend b1 acc")
  then obtain u where r: "r = Ok u" and run: "extend_all bs acc' = Ok b" using Cons.prems(1) by (cases r) auto
  note u = extend_is_union [OF Cons.prems(2) _ e, unfolded r]
  show ?case using Cons.IH [OF run] u Cons.prems(3) by auto
qed simp

lemma run_decls_append: "run_decls av (ds @ es) mv = rbind (run_decls av ds mv) (run_decls av es)"
proof (induction ds arbitrary: mv)
  case (Cons d ds)
  then show ?case by (cases "declare_decl av d mv") simp_all
qed simp

text \<open>Cranelift validates a module while it translates it: each of its calls is valid where it makes it.\<close>

definition calls_valid :: "('sig \<Rightarrow> 'sig) \<Rightarrow> ('sig, 'body) decl list \<Rightarrow> ('sig, 'body) module_validation \<Rightarrow> bool" where
  "calls_valid av ds mv \<longleftrightarrow> (\<forall>ds1 d ds2 mv1. ds = ds1 @ d # ds2 \<longrightarrow> run_decls av ds1 mv = Ok mv1 \<longrightarrow> decl_valid mv1 d)"

lemma run_decls_translates:
  "run_decls av ds (module_validation_new v) = Ok mv \<Longrightarrow> calls_valid av ds (module_validation_new v) \<Longrightarrow> translates av v ds mv"
proof (induction ds arbitrary: mv rule: rev_induct)
  case (snoc d ds)
  obtain mv1 where r: "run_decls av ds (module_validation_new v) = Ok mv1" and d: "declare_decl av d mv1 = Ok mv"
    using snoc.prems(1) by (auto simp: run_decls_append)
  have valid: "decl_valid mv1 d" using snoc.prems(2) r unfolding calls_valid_def by blast
  have "calls_valid av ds (module_validation_new v)" unfolding calls_valid_def
  proof (intro allI impI)
    fix ds1 e ds2 mv2 assume "ds = ds1 @ e # ds2" "run_decls av ds1 (module_validation_new v) = Ok mv2"
    then show "decl_valid mv2 e" using snoc.prems(2) unfolding calls_valid_def by (metis append.assoc append_Cons)
  qed
  from translates_decl [OF snoc.IH [OF r this] valid d] show ?case .
qed (simp add: translates_start)

section \<open>Properties\<close>

text \<open>C14: Only verified input is compiled. A module read from a file is compiled from exactly the contents of the file, or what \<open>wat2wasm\<close> makes of a text
  module when that is allowed; when verification is asked for, those contents carry a signature, in the file next to them, that the given public key accepts. The
  bindings used are the union of all bindings given.\<close>

theorem input_verified:
  assumes "build tc fs self = Ok (bytes, b)" and "lc_input self = In_Path path" and "\<forall>b' \<in> set (lc_bindings self). bindings_inv (bound b')"
  shows "(\<exists>contents. fs path = Some contents \<and>
      (lc_verify self \<longrightarrow> (\<exists>pk box. lc_pk self = Some pk \<and> tc_box_from_file tc (fs (path @ ''.minisig'')) = Ok box \<and>
         tc_minisign_verify tc pk box contents = Ok ())) \<and>
      (if wasm_preamble contents then bytes = contents else lc_translate_wat self \<and> tc_wat2wasm tc contents = Ok bytes)) \<and>
    (\<forall>m s x. translate b m s = Ok x \<longleftrightarrow> (\<exists>b' \<in> set (lc_bindings self). translate b' m s = Ok x))"
proof -
  have ext: "extend_all (lc_bindings self) bindings_empty = Ok b" using assms(1) by (auto simp: build_def)
  have inv: "bindings_inv (bound bindings_empty)" and none: "translate bindings_empty m s \<noteq> Ok x" for m s x
    by (simp_all add: bindings_empty_def bindings_new_def bindings_inv_def translate_def)
  have "\<forall>m s x. translate b m s = Ok x \<longleftrightarrow> (\<exists>b' \<in> set (lc_bindings self). translate b' m s = Ok x)"
    using extend_all_union [OF ext inv assms(3)] none by simp
  moreover have "read_module tc fs path (lc_pk self) (lc_verify self) (lc_translate_wat self) = Ok bytes" using assms(1,2) by (auto simp: build_def)
  then have "\<exists>contents. fs path = Some contents \<and>
      (lc_verify self \<longrightarrow> (\<exists>pk box. lc_pk self = Some pk \<and> tc_box_from_file tc (fs (path @ ''.minisig'')) = Ok box \<and>
         tc_minisign_verify tc pk box contents = Ok ())) \<and>
      (if wasm_preamble contents then bytes = contents else lc_translate_wat self \<and> tc_wat2wasm tc contents = Ok bytes)"
    by (auto simp: read_module_def read_input_bytes_def signature_box_for_module_path_def signature_path_def verify_source_code_def
        elim!: rresult_of_option.elims split: if_splits)
  ultimately show ?thesis by blast
qed

text \<open>Without a key the linked file stays, unsigned, although an error is returned.\<close>

theorem unsigned_output_left:
  assumes "tc_tempdir tc = Ok dir" and "lucetc_object_file tc self (dir @ ''/tmp.o'') fs = (Ok (), fs1)"
    and "link_so tc (dir @ ''/tmp.o'') (cb_target (lc_builder self)) output fs1 = (Ok (), fs2)" and "lc_sign self" and "lc_sk self = None"
  shows "shared_object_file tc self output fs = (Err (L_Signature ''signing requires a secret key''), fs2(dir @ ''/tmp.o'' := None))"
  using assms by (simp add: shared_object_file_def sign_output_def)

text \<open>C11: From the binary to the code behind the exports. When the compiler returns an object file for a module whose functions have different symbols, the
  validator had no complaint, every function body was compiled, and the runtime's lookup of an exported name in the linked module gives the address of the code
  generated for the body of the function that the module exports under that name.\<close>

theorem compiled_exports_reach_bodies:
  assumes ops: "object_module (tc_ops tc) fnames fcode fdata" "clif_ok (clif_of (tc_ops tc))" "\<forall>isa cm. tc_new_module tc isa = Ok cm \<longrightarrow> fnames cm = []"
    and sorted: "\<forall>isa decls n f body g. tc_codegen tc isa decls n f body = Ok g \<longrightarrow> sites_sorted (gn_traps g)"
      "\<forall>isa sg n. sites_sorted (snd (tc_trampoline tc isa sg n))"
    and tc: "length (version_hash (tc_version tc)) = 8" "\<forall>xs. set (tc_order tc xs) = set xs"
    and ds: "tc_parse tc bytes = (ds, None)" "calls_valid (tc_add_vmctx tc) ds (module_validation_new (cb_validator b))"
      "\<forall>mv. translates (tc_add_vmctx tc) (cb_validator b) ds mv \<longrightarrow> globals_valid (mv_info mv)" "validator_wf (cb_validator b)"
    and run: "compiler_new tc b bytes bs = Ok c" "compiler_object_file tc c = Ok (nid, cm')"
    and names: "distinct (map symbol (dc_function_names (cp_decls c)))"
    and small: "length (signatures (dc_info (cp_decls c))) < 2 ^ 32" "32 * length (fnames cm') < 2 ^ 32"
  shows "\<exists>mv md native mid manifest. translates (tc_add_vmctx tc) (cb_validator b) ds mv \<and> validation_errors mv = Ok () \<and>
    get_module_data (compiler_module_features (tc_cpuid tc) (cb_cpu_features b) (cb_count_instructions b)) (cp_decls c) = Ok md \<and>
    fdata cm' nid = Some native \<and> link_word faddr daddr native 48 = daddr mid \<and> fdata cm' mid = Some manifest \<and>
    (\<forall>(f, body) \<in> set (function_bodies mv). \<exists>g. tc_codegen tc (cp_isa c) (cp_decls c) (cb_count_instructions b) f body = Ok g \<and>
      fcode cm' f = Some (gn_code g)) \<and>
    (\<forall>d s. dl_module_data d = md \<longrightarrow> dl_function_manifest d = link_manifest faddr daddr manifest \<longrightarrow>
      dl_get_export_func d s =
        (case find (\<lambda>f. s \<in> set (ex_names (funcs (mv_info mv) ! f))) [0..<length (funcs (mv_info mv))] of
           None \<Rightarrow> Err (SymbolNotFound s) | Some f \<Rightarrow> Ok \<lparr>fh_ptr = faddr f, fh_id = of_nat f, is_start_func = False\<rparr>))"
proof -
  obtain isa mv cm0 cm where mv: "run_decls (tc_add_vmctx tc) ds (module_validation_new (cb_validator b)) = Ok mv" "validation_errors mv = Ok ()"
    and cm0: "tc_new_module tc isa = Ok cm0"
    and new: "module_decls_new (clif_of (tc_ops tc)) (tc_add_vmctx tc) (mv_info mv) bs (runtime_lucet (tc_ir_sig tc isa)) (cb_heap_settings b) cm0 = Ok (cp_decls c, cm)"
    and c: "cp_module c = cm" "cp_cpu_features c = cb_cpu_features b" "cp_count_instructions c = cb_count_instructions b" "cp_function_bodies c = function_bodies mv"
    using run(1) ds(1) by (fastforce simp: compiler_new_def translate_module_def)
  have tr: "translates (tc_add_vmctx tc) (cb_validator b) ds mv" by (rule run_decls_translates [OF mv(1) ds(2)])
  have wf: "info_wf (mv_info mv)" "bodies_wf mv" using translates_wf [OF tr ds(4)] by (simp_all add: validation_wf_def)
  have gen: "\<forall>f g. compiler_gen tc c f = Ok g \<longrightarrow> sites_sorted (gn_traps g)" using sorted(1) by (auto simp: compiler_gen_def split: option.splits)
  have tramp: "\<forall>sg n. sites_sorted (snd (tc_trampoline tc (cp_isa c) sg n))" using sorted(2) by blast
  have empty: "fnames cm0 = []" using cm0 ops(3) by blast
  note obj = run(2) [unfolded compiler_object_file_def c]
  have order: "set (tc_order tc xs) = set xs" for xs using tc(2) by blast
  note reach = exports_reach_code [OF ops(1) gen tramp tc(1) ops(2) wf(1) ds(3) [rule_format, OF tr] empty new names small(1) obj small(2), of faddr daddr, unfolded order]
  then obtain md native mid manifest where
    md: "get_module_data (compiler_module_features (tc_cpuid tc) (cb_cpu_features b) (cb_count_instructions b)) (cp_decls c) = Ok md"
    and na: "fdata cm' nid = Some native" "link_word faddr daddr native 48 = daddr mid" "fdata cm' mid = Some manifest"
    and ex: "\<forall>d s. dl_module_data d = md \<longrightarrow> dl_function_manifest d = link_manifest faddr daddr manifest \<longrightarrow>
      dl_get_export_func d s =
        (case find (\<lambda>f. s \<in> set (ex_names (funcs (mv_info mv) ! f))) [0..<length (funcs (mv_info mv))] of
           None \<Rightarrow> Err (SymbolNotFound s) | Some f \<Rightarrow> Ok \<lparr>fh_ptr = faddr f, fh_id = of_nat f, is_start_func = False\<rparr>)"
    and ord: "\<forall>f \<in> set (map fst (function_bodies mv)). \<exists>g. compiler_gen tc c f = Ok g \<and> as_funcid (dc_function_names (cp_decls c) ! f) = Some f \<and>
      fcode cm' f = Some (gn_code g)" by (elim exE conjE) (rule that)
  have dist: "distinct (map fst (function_bodies mv))" using wf(2) by (simp add: bodies_wf_def Let_def)
  have "\<exists>g. tc_codegen tc (cp_isa c) (cp_decls c) (cb_count_instructions b) f body = Ok g \<and> fcode cm' f = Some (gn_code g)"
    if "(f, body) \<in> set (function_bodies mv)" for f body
  proof -
    have "map_of (function_bodies mv) f = Some body" using that dist by simp
    moreover have "f \<in> set (map fst (function_bodies mv))" using that by force
    ultimately show ?thesis using ord c by (auto simp: compiler_gen_def)
  qed
  with tr mv(2) md na ex show ?thesis by blast
qed

end
