(* ===== verification/Lucetc_Example.thy ===== *)
theory Lucetc_Example
  imports Lucetc_Driver Object_Example
begin

text \<open>
  A small toolchain, on which the theorems about the compiler are applied: it translates one module, with an import and an exported function, and keeps
  the object module of \<open>Object_Example\<close>.
\<close>

lemma calls_valid_simps:
  "calls_valid av [] mv"
  "calls_valid av (d # ds) mv \<longleftrightarrow> decl_valid mv d \<and> (\<forall>mv'. declare_decl av d mv = Ok mv' \<longrightarrow> calls_valid av ds mv')"
proof -
  show "calls_valid av [] mv" by (simp add: calls_valid_def)
  show "calls_valid av (d # ds) mv \<longleftrightarrow> decl_valid mv d \<and> (\<forall>mv'. declare_decl av d mv = Ok mv' \<longrightarrow> calls_valid av ds mv')"
  proof
    assume v: "calls_valid av (d # ds) mv"
    have "decl_valid mv d" using v unfolding calls_valid_def by (metis append_Nil run_decls.simps(1))
    moreover have "calls_valid av ds mv'" if m: "declare_decl av d mv = Ok mv'" for mv'
      unfolding calls_valid_def
    proof (intro allI impI)
      fix ds1 e ds2 mv1 assume "ds = ds1 @ e # ds2" "run_decls av ds1 mv' = Ok mv1"
      with m have "d # ds = (d # ds1) @ e # ds2" "run_decls av (d # ds1) mv = Ok mv1" by simp_all
      then show "decl_valid mv1 e" using v unfolding calls_valid_def by blast
    qed
    ultimately show "decl_valid mv d \<and> (\<forall>mv'. declare_decl av d mv = Ok mv' \<longrightarrow> calls_valid av ds mv')" by blast
  next
    assume v: "decl_valid mv d \<and> (\<forall>mv'. declare_decl av d mv = Ok mv' \<longrightarrow> calls_valid av ds mv')"
    show "calls_valid av (d # ds) mv" unfolding calls_valid_def
    proof (intro allI impI)
      fix ds1 e ds2 mv1 assume s: "d # ds = ds1 @ e # ds2" and r: "run_decls av ds1 mv = Ok mv1"
      show "decl_valid mv1 e"
      proof (cases ds1)
        case (Cons d' ds1')
        then obtain mv' where "declare_decl av d mv = Ok mv'" "run_decls av ds1' mv' = Ok mv1" using s r by auto
        then show ?thesis using v s Cons unfolding calls_valid_def by auto
      qed (use s r v in simp)
    qed
  qed
qed

lemma translates_run: "translates av v ds mv \<Longrightarrow> run_decls av ds (module_validation_new v) = Ok mv"
  by (induction rule: translates.induct) (simp_all add: run_decls_append)

definition tiny_decls :: "(nat list, unit) decl list" where
  "tiny_decls = [D_Type \<lparr>wf_params = [W_I32], wf_returns = []\<rparr> [1], D_Type \<lparr>wf_params = [], wf_returns = []\<rparr> [],
     D_FuncImport 0 ''env'' (Some ''print''), D_Func 1, D_FuncExport 1 ''main'', D_Body ()]"

definition demo_tc :: "(nat list, unit, string \<Rightarrow> bool, string \<Rightarrow> bool, nat list object_state) toolchain" where
  "demo_tc = \<lparr>tc_wat2wasm = (\<lambda>_. Err ''no text''), tc_box_from_file = rresult_of_option ''no file'',
     tc_minisign_verify = (\<lambda>pk box contents. if box = [of_nat pk] then Ok () else Err ''bad signature''),
     tc_parse = (\<lambda>_. (tiny_decls, None)), tc_isa_set = flags_set, tc_native = (\<lambda>_. Some (\<lambda>_. False)), tc_lookup = (\<lambda>_ _. Ok (\<lambda>_. False)),
     tc_finish = (\<lambda>_ b. b), tc_debug = False, tc_cpuid = demo_cpuid, tc_new_module = (\<lambda>_. Ok object_empty), tc_ops = object_ops,
     tc_add_vmctx = Cons 0, tc_ir_sig = (\<lambda>_ ps rs. [length ps, length rs]), tc_probe_sig = [0, 1], tc_codegen = (\<lambda>_ _ _ f _. demo_gen f),
     tc_trampoline = (\<lambda>_. demo_tramp_code), tc_order = rev, tc_serialize = (\<lambda>_. Ok [1, 2, 3]), tc_version = version_info_new 0 7 0 (replicate 8 0),
     tc_emit = (\<lambda>_. Ok [0]), tc_creatable = (\<lambda>_. True), tc_tempdir = Ok ''/tmp/lucetc'', tc_env_var = (\<lambda>_. None),
     tc_run = (\<lambda>cmd fs. (Ok (True, []), fs)),
     tc_sig = \<lparr>so_parse = (\<lambda>_. None), so_deserialize = (\<lambda>_. None), so_serialize = (\<lambda>_. None), so_bytes = 0, so_from_bytes = (\<lambda>_. None),
       so_to_bytes = (\<lambda>b. b), so_sign = (\<lambda>_ _. None), so_verify = (\<lambda>_ _ _. False)\<rparr>\<rparr>"

definition demo_host :: triple where
  "demo_host = \<lparr>tr_os = OS_Linux, tr_env = Env_Gnu\<rparr>"

definition tiny_builder :: compiler_builder where
  "tiny_builder = compiler_builder_new demo_host"

lemmas translate_eval = module_validation_new_def module_info_new_def tiny_decls_def on_info_def info_declare_type_func_def declare_func_import_def
  import_field_def signature_by_id_def validator_register_def info_declare_func_type_def exportable_new_def declare_func_export_def unique_func_def push_export_def
  define_function_body_def export_at_def signature_for_function_def

lemma demo_translated:
  "run_decls (Cons 0) tiny_decls (module_validation_new None) = Ok \<lparr>mv_validator = None, mv_info = module_info_new\<lparr>signature_mapping := [0, 1],
     signatures := [([0, 1], \<lparr>wf_params = [W_I32], wf_returns = []\<rparr>), ([0], \<lparr>wf_params = [], wf_returns = []\<rparr>)],
     imported_funcs := [(''env'', ''print'')], function_mapping := [0, 1],
     funcs := [\<lparr>entity = 0, ex_names = []\<rparr>, \<lparr>entity = 1, ex_names = [''main'']\<rparr>]\<rparr>, function_bodies = [(1, ())]\<rparr>"
  by (simp add: translate_eval Let_def)

lemma demo_calls_valid: "calls_valid (Cons 0) tiny_decls (module_validation_new None)"
  by (simp add: calls_valid_simps translate_eval Let_def)

lemma demo_compiled:
  obtains c nid cm' where "compiler_new demo_tc tiny_builder bytes demo_bindings = Ok c" "compiler_object_file demo_tc c = Ok (nid, cm')"
    "distinct (map symbol (dc_function_names (cp_decls c)))" "length (signatures (dc_info (cp_decls c))) = 5" "length (ob_funcs cm') = 7"
proof -
  have "\<exists>c nid cm'. compiler_new demo_tc tiny_builder bytes demo_bindings = Ok c \<and> compiler_object_file demo_tc c = Ok (nid, cm') \<and>
    distinct (map symbol (dc_function_names (cp_decls c))) \<and> length (signatures (dc_info (cp_decls c))) = 5 \<and> length (ob_funcs cm') = 7"
    by (simp add: compiler_new_def demo_tc_def tiny_builder_def compiler_builder_new_def target_isa_def isa_builder_def detect_cpuid_def translate_module_def
        demo_translated validation_errors_def declare_eval demo_bindings_def upt_rec Let_def)
      (simp add: compiler_object_file_def compiler_gen_def object_eval declare_eval demo_gen_def demo_tramp_code_def STACK_PROBE_BINARY_def upt_rec Let_def)
  then show thesis by (elim exE conjE) (rule that)
qed

theorem compiled_exports_reach_bodies_witness:
  "\<exists>c nid cm' md mid manifest. compiler_new demo_tc tiny_builder [0] demo_bindings = Ok c \<and> compiler_object_file demo_tc c = Ok (nid, cm') \<and> ob_contents cm' mid = Some manifest \<and>
     get_module_data (compiler_module_features demo_cpuid detect_cpuid False) (cp_decls c) = Ok md \<and>
     (\<exists>g. demo_gen 1 = Ok g \<and> ob_code cm' 1 = Some (gn_code g)) \<and>
     (\<forall>d. dl_module_data d = md \<longrightarrow> dl_function_manifest d = link_manifest demo_faddr demo_daddr manifest \<longrightarrow>
        dl_get_export_func d ''main'' = Ok \<lparr>fh_ptr = 0x400100, fh_id = 1, is_start_func = False\<rparr>)"
proof -
  obtain c nid cm' where c: "compiler_new demo_tc tiny_builder [0] demo_bindings = Ok c" "compiler_object_file demo_tc c = Ok (nid, cm')"
    "distinct (map symbol (dc_function_names (cp_decls c)))" and l: "length (signatures (dc_info (cp_decls c))) = 5" "length (ob_funcs cm') = 7"
    by (rule demo_compiled)
  have ops: "object_module (tc_ops demo_tc) (\<lambda>cm. map fst (ob_funcs cm)) ob_code ob_contents" by (simp add: demo_tc_def object_ops_laws)
  have laws: "clif_ok (clif_of (tc_ops demo_tc))" "\<forall>isa cm. tc_new_module demo_tc isa = Ok cm \<longrightarrow> map fst (ob_funcs cm) = []"
    "\<forall>isa decls n f body g. tc_codegen demo_tc isa decls n f body = Ok g \<longrightarrow> sites_sorted (gn_traps g)"
    "\<forall>isa sg n. sites_sorted (snd (tc_trampoline demo_tc isa sg n))" "length (version_hash (tc_version demo_tc)) = 8"
    "\<forall>xs. set (tc_order demo_tc xs) = set xs" "tc_parse demo_tc [0] = (tiny_decls, None)"
    using demo_sorted by (auto simp: demo_tc_def clif_ok_def object_ops_def clif_ops.truncate_def object_empty_def version_info_new_def split: option.split)
  have v: "cb_validator tiny_builder = None" "tc_add_vmctx demo_tc = Cons 0" by (simp_all add: tiny_builder_def compiler_builder_new_def demo_tc_def)
  have valid: "calls_valid (tc_add_vmctx demo_tc) tiny_decls (module_validation_new (cb_validator tiny_builder))" using demo_calls_valid by (simp add: v)
  have tr: "mv = \<lparr>mv_validator = None, mv_info = module_info_new\<lparr>signature_mapping := [0, 1],
     signatures := [([0, 1], \<lparr>wf_params = [W_I32], wf_returns = []\<rparr>), ([0], \<lparr>wf_params = [], wf_returns = []\<rparr>)],
     imported_funcs := [(''env'', ''print'')], function_mapping := [0, 1],
     funcs := [\<lparr>entity = 0, ex_names = []\<rparr>, \<lparr>entity = 1, ex_names = [''main'']\<rparr>]\<rparr>, function_bodies = [(1, ())]\<rparr>"
    if "translates (tc_add_vmctx demo_tc) (cb_validator tiny_builder) tiny_decls mv" for mv
    using translates_run [OF that] demo_translated by (simp add: v)
  have glob: "\<forall>mv. translates (tc_add_vmctx demo_tc) (cb_validator tiny_builder) tiny_decls mv \<longrightarrow> globals_valid (mv_info mv)"
  proof (intro allI impI)
    fix mv assume m: "translates (tc_add_vmctx demo_tc) (cb_validator tiny_builder) tiny_decls mv"
    show "globals_valid (mv_info mv)" unfolding tr [OF m] by (simp add: globals_valid_def module_info_new_def)
  qed
  have rest: "validator_wf (cb_validator tiny_builder)" "length (signatures (dc_info (cp_decls c))) < 2 ^ 32" "32 * length (map fst (ob_funcs cm')) < 2 ^ 32"
    by (simp_all add: v validator_wf_def l)
  from compiled_exports_reach_bodies [OF ops laws valid glob rest(1) c rest(2,3), of demo_faddr demo_daddr]
  obtain mv md native mid manifest where mv: "translates (tc_add_vmctx demo_tc) (cb_validator tiny_builder) tiny_decls mv"
    and md: "get_module_data (compiler_module_features (tc_cpuid demo_tc) (cb_cpu_features tiny_builder) (cb_count_instructions tiny_builder)) (cp_decls c) = Ok md"
    and mid: "ob_contents cm' mid = Some manifest"
    and bodies: "\<forall>(f, body) \<in> set (function_bodies mv). \<exists>g. tc_codegen demo_tc (cp_isa c) (cp_decls c) (cb_count_instructions tiny_builder) f body = Ok g \<and>
      ob_code cm' f = Some (gn_code g)"
    and ex: "\<forall>d s. dl_module_data d = md \<longrightarrow> dl_function_manifest d = link_manifest demo_faddr demo_daddr manifest \<longrightarrow>
      dl_get_export_func d s =
        (case find (\<lambda>f. s \<in> set (ex_names (funcs (mv_info mv) ! f))) [0..<length (funcs (mv_info mv))] of
           None \<Rightarrow> Err (SymbolNotFound s) | Some f \<Rightarrow> Ok \<lparr>fh_ptr = demo_faddr f, fh_id = of_nat f, is_start_func = False\<rparr>)"
    by (elim exE conjE) (rule that)
  have md': "get_module_data (compiler_module_features demo_cpuid detect_cpuid False) (cp_decls c) = Ok md"
    using md by (simp add: demo_tc_def tiny_builder_def compiler_builder_new_def)
  have "demo_faddr 1 = 0x400100" by (simp add: demo_faddr_def)
  moreover have "find (\<lambda>f. ''main'' \<in> set (ex_names (funcs (mv_info mv) ! f))) [0..<length (funcs (mv_info mv))] = Some 1"
    by (simp add: tr [OF mv] upt_rec)
  ultimately have "\<forall>d. dl_module_data d = md \<longrightarrow> dl_function_manifest d = link_manifest demo_faddr demo_daddr manifest \<longrightarrow>
      dl_get_export_func d ''main'' = Ok \<lparr>fh_ptr = 0x400100, fh_id = 1, is_start_func = False\<rparr>" using ex by simp
  moreover have "\<exists>g. demo_gen 1 = Ok g \<and> ob_code cm' 1 = Some (gn_code g)" using bodies by (simp add: tr [OF mv] demo_tc_def)
  ultimately show ?thesis using c(1,2) md' mid by blast
qed

definition demo_files :: file_system where
  "demo_files = [''m.wasm'' \<mapsto> [0, 97, 115, 109, 1, 0, 0, 0], ''m.wasm.minisig'' \<mapsto> [7]]"

definition demo_lucetc :: lucetc where
  "demo_lucetc = set_opt (O_Bindings demo_bindings) (set_opt (O_Pk 7) (set_opt O_Verify (lucetc_new demo_host ''m.wasm'')))"

theorem input_verified_witness:
  "\<exists>b. build demo_tc demo_files demo_lucetc = Ok ([0, 97, 115, 109, 1, 0, 0, 0], b) \<and> translate b ''env'' ''print'' = Ok ''host_print''"
proof -
  have ext: "\<exists>b. extend_all [demo_bindings] bindings_empty = Ok b"
    by (simp add: bindings_extend_def demo_bindings_def bindings_empty_def bindings_env_def bindings_new_def)
  then obtain b where b: "build demo_tc demo_files demo_lucetc = Ok ([0, 97, 115, 109, 1, 0, 0, 0], b)"
    by (auto simp: build_def demo_lucetc_def lucetc_new_def read_module_def demo_files_def demo_tc_def signature_box_for_module_path_def signature_path_def
        verify_source_code_def read_input_bytes_def wasm_preamble_def simp del: extend_all.simps)
  have "lc_input demo_lucetc = In_Path ''m.wasm''" "\<forall>b' \<in> set (lc_bindings demo_lucetc). bindings_inv (bound b')"
    using demo_bindings_inv(1) by (simp_all add: demo_lucetc_def lucetc_new_def)
  from input_verified [OF b this] have "\<forall>m s x. translate b m s = Ok x \<longleftrightarrow> (\<exists>b' \<in> set (lc_bindings demo_lucetc). translate b' m s = Ok x)" by blast
  moreover have "translate demo_bindings ''env'' ''print'' = Ok ''host_print''"
    by (simp add: translate_def demo_bindings_def bindings_env_def bindings_new_def)
  ultimately have "translate b ''env'' ''print'' = Ok ''host_print''" by (simp add: demo_lucetc_def lucetc_new_def)
  with b show ?thesis by blast
qed

end
