(* ===== verification/Spec2Isabelle.thy ===== *)
theory Spec2Isabelle
  imports Version_Info Module_Interface Val_Repr Context_Switch Region_Mmap Kill_Protocol Embed_Ctx
    Region_Instances Signals Vmctx Instance_Life Run_Examples Table_Data Instr_Count Uffd_Lifecycle C_Api Module_Signing Future
    Object_Example Lucetc_Example
begin

text \<open>
  A verification of Lucet: the runtime, Rust crates that load WebAssembly modules compiled to native code, give
  each instance a slot of memory, run guest functions on their own stacks and return control, results and
  faults to the host; and the part of the compiler that collects a module's declarations and makes the metadata the
  runtime relies on. Paths are below \<open>src/\<close>; \<open>internals\<close> stands for
  \<open>lucet-runtime/lucet-runtime-internals/src\<close>.

  \<^bold>\<open>The program and its theories.\<close>

  \<^item> \<open>Prelude\<close>: Rust's results with a panic outcome (\<open>rresult\<close>), machine integers at their width, checked
    arithmetic, the page sizes of \<open>internals/sysdeps/unix.rs\<close> and \<open>internals/lib.rs\<close>.
  \<^item> \<open>Module_Data\<close>, \<open>Version_Info\<close>, \<open>Runtime_Error\<close>, \<open>Module_Interface\<close>: what a compiled module carries
    (\<open>lucet-module/src\<close>), its version header, the runtime's errors (\<open>internals/error.rs\<close>,
    \<open>internals/instance.rs\<close>), and modules as the runtime sees them (\<open>internals/module.rs\<close>, \<open>module/dl.rs\<close>,
    \<open>module/mock.rs\<close>). The trait \<open>ModuleInternal\<close> is the record \<open>module_ops\<close>; its contract is the locale
    \<open>module_interface\<close>, interpreted for both implementations.
  \<^item> \<open>Module_Signing\<close>: signatures of module files (\<open>lucet-module/src/signature.rs\<close>). The object parser, \<open>bincode\<close> and \<open>minisign\<close> are a
    parameter (\<open>sig_ops\<close>) with their laws as the locale \<open>sig_codec\<close>, met by an executable instance.
  \<^item> \<open>Val_Repr\<close>, \<open>Context_Switch\<close>: argument and result values (\<open>internals/val.rs\<close>) and the guest context
    (\<open>internals/context/mod.rs\<close>, \<open>context_asm.S\<close>) on a machine with the registers the assembly touches.
  \<^item> \<open>Os_Memory\<close>: memory with page protections and the system calls \<open>mmap\<close>, \<open>mprotect\<close>, \<open>madvise\<close> and
    \<open>munmap\<close>. The calls are a parameter \<open>sys_ops\<close> with their documented laws as the locale \<open>os_memory\<close>; an
    executable instance shows that the laws can be met.
  \<^item> \<open>Alloc\<close>, \<open>Region_Mmap\<close>, \<open>Region_Instances\<close>: limits, slots and allocations (\<open>internals/alloc/mod.rs\<close>), the
    mmap region (\<open>internals/region/mmap.rs\<close>), and instances on its slots (\<open>internals/region.rs\<close>, \<open>Instance::new\<close>,
    \<open>reset\<close>, the drop of a handle). What an allocation relies on is the locale \<open>region_internal\<close>, and what a reset relies on is its extension
    \<open>region_reset\<close>; the mmap region meets both for every \<open>os_memory\<close> by sublocales.
  \<^item> \<open>Region_Uffd\<close>, \<open>Uffd_Lifecycle\<close>: the lazy region (\<open>internals/region/uffd.rs\<close>), whose pages a worker thread fills when they are
    touched. The calls of userfaultfd are a parameter with their documented laws as the locale \<open>uffd_memory\<close>, interpreted
    on a concrete memory; what a guest sees of a memory is its \<open>view\<close>. A retried call ends by its retry limit.
  \<^item> \<open>Kill_State\<close>, \<open>Kill_Protocol\<close>: \<open>internals/instance/execution.rs\<close>. The first has each method run
    alone; the second interleaves the instance's thread and any number of kill switches, one step per
    atomic action (a lock, a swap, a signal).
  \<^item> \<open>Embed_Ctx\<close>: the embedder contexts (\<open>internals/embed_ctx.rs\<close>), with the locale \<open>typed_map\<close>.
  \<^item> \<open>Instance_Data\<close>, \<open>Signals\<close>, \<open>Vmctx\<close>, \<open>Instance_Run\<close>: the instance and its states
    (\<open>internals/instance.rs\<close>, \<open>instance/state.rs\<close>), the signal handlers and the handler itself
    (\<open>instance/signals.rs\<close>), the view of an instance from a hostcall (\<open>internals/vmctx.rs\<close>, \<open>lucet-runtime/src/c_api.rs\<close>,
    the wrapper of \<open>lucet-runtime-macros\<close>), and running and resuming it.
  \<^item> \<open>Instance_Life\<close>, \<open>Run_Examples\<close>: the invariant of an instance over the calls of an embedder, as the step relation \<open>life_step\<close> (runs, the start
    function, resumes, growth, resets, writes to the heap, contexts, handlers, counters, and kill switches), the outcome of each run, and concrete
    runs on which the theorems are applied.
  \<^item> \<open>Future\<close>: running from an async context (\<open>internals/future.rs\<close>). The future of a run is a state machine; an executor polls it, each poll runs the guest to
    its next pending await, and the guest's events come in one list for each time it is entered. \<open>blocking_run\<close> is the synchronous reference of a run
    that blocks on futures.
  \<^item> \<open>C_Types\<close>, \<open>C_Api\<close>: the C interface (\<open>internals/c_api.rs\<close>, \<open>lucet-runtime/src/c_api.rs\<close>): error codes, results, values and fault
    details as C sees them with their conversions, and the exported functions over handles with reference counts. What a caller
    could break is an outcome of its own (\<open>C_Undefined\<close>), and a conversion that does not return is \<open>None\<close>.
  \<^item> \<open>Bindings\<close>, \<open>Validate\<close>, \<open>Module_Info\<close>, \<open>Module_Info_Wf\<close>: the compiler's front end: import bindings
    (\<open>lucet-module/src/bindings.rs\<close>), the check against Witx documents (\<open>lucetc/src/validate.rs\<close>), and the module information that the
    translation of a WebAssembly module fills in (\<open>lucetc/src/module.rs\<close>, \<open>types.rs\<close>, \<open>error.rs\<close>).
  \<^item> \<open>Sparse_Init\<close>, \<open>Module_Decls\<close>, \<open>Module_Output\<close>: the page data made of the data segments
    (\<open>lucetc/src/sparsedata.rs\<close>), and the declarations and metadata of the compiled module (\<open>lucetc/src/decls.rs\<close>, \<open>heap.rs\<close>,
    \<open>name.rs\<close>, \<open>runtime.rs\<close>). Cranelift's object module is a parameter (\<open>clif_ops\<close>), its signatures a type.
  \<^item> \<open>Table_Data\<close>, \<open>Instr_Count\<close>: the function table and the calls through it (\<open>lucetc/src/table.rs\<close>, \<open>function.rs\<close>), and the
    instrumentation of generated code that counts instructions (\<open>function.rs\<close>), with an executor for the emitted code. The
    counter is the runtime's own \<open>instance_runtime_data\<close>.
  \<^item> \<open>Object_File\<close>, \<open>Object_Example\<close>: the object file of a compiled module (\<open>object_file\<close> of \<open>lucetc/src/compiler.rs\<close>,
    \<open>traps.rs\<close>, \<open>stack_probe.rs\<close>): trap tables, trampolines, the function manifest, and what linking makes of them. The machine code of a
    function is a parameter; the laws of Cranelift's object module are the locale \<open>object_module\<close>, met by an executable instance.
  \<^item> \<open>Cpu_Features\<close>: CPU profiles, the features a module declares and the flags of the code generator (\<open>lucetc/src/compiler/cpu_features.rs\<close>), whose
    settings are the locale \<open>isa_settings\<close>.
  \<^item> \<open>Lucetc_Driver\<close>, \<open>Lucetc_Example\<close>: the compiler as a program uses it (\<open>lucetc/src/lib.rs\<close>, \<open>load.rs\<close>, \<open>signature.rs\<close>,
    \<open>output.rs\<close>, \<open>Compiler::new\<close>): options, input, compilation, linking and signing, over a record \<open>toolchain\<close> of the external programs and crates.
  \<^item> This theory: the composition of compiler and runtime on the contents of the heap.

  \<^bold>\<open>How a run is modelled.\<close> A call such as \<open>run_func\<close> takes the instance and the state of the thread and of the process
  (\<open>run_host\<close>: memory, current instance, signal actions, panic hook, signal stack) and returns them
  updated. Guest code is not under the runtime's control, so it is a list of events (\<open>guest_event\<close>): stores, counted
  instructions, signals, kill switches, hostcalls with what they do, yields and the return. A kill switch acts between two events; that it upgrades its reference to the
  kill state and drops it are events of their own, so that the strong count asserted at a return varies. Each event is carried
  out by the runtime's own operations, so a store into a guard page goes through \<open>handle_signal\<close>, a
  panic in a hostcall through the wrapper, and a return through \<open>exit_guest_region\<close>. There is no
  fuel: a run consumes its list, and a list that ends early is a guest that is still running
  (\<open>None\<close>). That calls return is stated as such (\<open>run_returns_value\<close>, \<open>guard_store_faults\<close>).

  \<^bold>\<open>What is shown.\<close>

  \<^item> Memory: heap growth is exact and keeps every limit; faults are classified by the slot's layout; a reset restores the
    module's image byte for byte; a dropped allocation leaves a zeroed, inaccessible slot; created
    instances depend on nothing an earlier one left, and slots are conserved. In the lazy region page faults are
    invisible to all instances, guard pages stay missing, and new instances see their module's image.
  \<^item> Control: the guest is entered by the System V ABI, its return value comes back, stores to guard pages become
    faults with the right trap code, resumed values are delivered, bounds are exact in wrapping arithmetic.
  \<^item> Lifecycle: over every sequence of an embedder's calls that do not panic, on a thread on which no other instance runs and with the runtime's own signal
    handlers, whatever guests and kill switches do between, the instance, its kill state and the
    host's signal state are consistent; results and states fit on every branch, a failed lookup of a faulting address (state \<open>Transitioning\<close>) and the panics
    included. A call on a thread on which another instance runs is shown to corrupt a suspended one. Async runs keep the invariant over any number of polls, deliver
    what the guest waits for, and end exactly when it is there; one that was given up at its bound is continued in place of the next run.
  \<^item> Concurrency: a kill switch that succeeded is effective and alone; alarms stop guest code only; a guest that
    waits for its alarm gets it; the only panics are two races, both shown to happen.
  \<^item> Signals: handlers and panic hook refine a counted resource that restores the host exactly.
  \<^item> Data: values, version headers and embedder contexts survive their round trips; trap lookup finds exactly the recorded
    sites; modules loaded with version checks are compatible; a signed module verifies, and one that is signed twice holds its new signature and does not.
  \<^item> C interface: a run from C reports exactly its outcome, value by value (\<open>outcome_told\<close>); values, yielded pointers and names keep their contents; reference counts are
    kept except on one error path, and handlers written in C are shown never to return.
  \<^item> Compiler: bindings merge to their union and survive JSON; the validator accepts exactly what the documents, type by type, and the WASI mode allow;
    the module information stays well-formed over every translation; types are merged exactly when equal; the page data is the
    image of the data segments, of which only those on the first page past the heap are dropped without an error; an indirect call reaches the function at its index or traps; instructions are counted exactly; the metadata is complete and its lookups are those of the module; and a heap that the
    runtime resets holds exactly the data segments of the source (\<open>compiled_heap_image\<close>). Input is verified before it is compiled when that is asked for;
    in the linked module exported names reach the code of their bodies and the runtime finds exactly the recorded traps; generated code uses only
    CPU features that are checked when the module is loaded. Two imports bound to one symbol are shown to lead an export to the wrong code.

  \<^bold>\<open>Not modelled.\<close> Of the userfaultfd region, spawning the worker, its clean-up after an error and the drop of the region; the
  translation of function bodies (\<open>lucetc\<close> drives Cranelift; of the code it emits the counting of instructions and the indirect calls are modelled), the
  command line and key files of \<open>lucetc\<close>, WASI
  (\<open>lucet-wasi\<close> wraps external crates), serialization by \<open>bincode\<close>, dynamic linking (a parameter of module
  loading), the C function that creates a lazy region, printing, tools, tests and benchmarks. Calls from a hostcall back
  into guest functions are not among the guest's events.
\<close>

section \<open>Data segments in memory\<close>

lemma dl_memory:
  assumes "md_linear_memory (dl_module_data d) = Some \<lparr>heap = hs, initializer = \<lparr>pages = ps\<rparr>\<rparr>"
    and "list_all page_ok ps" and "length ps = unat (initial_size hs) div 4096" and "unat (initial_size hs) mod 4096 = 0"
  shows "heap_initial_size (dl_module_ops dladdr d) = initial_size hs"
    and "module_pages_ok (dl_module_ops dladdr d)"
    and "page_aligned (heap_initial_size (dl_module_ops dladdr d))"
    and "initial_byte (dl_module_ops dladdr d) off = (if off < unat (initial_size hs) then sparse_byte ps off else 0)"
proof -
  show n: "heap_initial_size (dl_module_ops dladdr d) = initial_size hs"
    using assms(1) by (simp add: heap_initial_size_def dl_module_ops_def md_heap_spec_def)
  have page: "mo_sparse_page (dl_module_ops dladdr d) i = (if i < length ps then ps ! i else None)" for i
    using assms(1) by (simp add: dl_module_ops_def md_get_sparse_page_data_def md_sparse_data_def get_page_def)
  show "module_pages_ok (dl_module_ops dladdr d)"
    using assms(2) by (auto simp: module_pages_ok_def page list_all_length split: if_splits)
  show "page_aligned (heap_initial_size (dl_module_ops dladdr d))"
    using assms(4) by (simp add: n page_aligned_unat)
  have "off div 4096 < length ps \<longleftrightarrow> off < unat (initial_size hs)" for off
    using assms(3,4) by (metis div_mult_mod_eq add_0_right div_less_iff_less_mult zero_less_numeral)
  then show "initial_byte (dl_module_ops dladdr d) off = (if off < unat (initial_size hs) then sparse_byte ps off else 0)"
    using assms(3) by (auto simp: initial_byte_def page n sparse_byte_def split: option.split)
qed

text \<open>C8: From source to memory: when the compiler accepts a module with one memory and the runtime loads its metadata, resetting
  the heap of an instance makes exactly the declared number of WebAssembly pages accessible, and every byte of
  the heap's address space is the byte that the module's data segments, written in order over zeros, leave there. The only other
  outcome is the system's error, which changes nothing of the allocation.\<close>

theorem compiled_heap_image:
  assumes "clif_ok cops" and "info_wf info" and "globals_valid info"
    and "module_decls_new cops add_vmctx info b runtime settings cm = Ok (decls, cm')"
    and "length (dc_function_names decls) < 2 ^ 32" and "length (signatures (dc_info decls)) < 2 ^ 32"
    and "get_module_data features decls = Ok (dl_module_data d)"
    and "memories info = [mm]" and "map_of (data_initializers info) 0 = Some dis"
    and "os_memory sys" and "alloc_inv al" and "alloc_slot_opt al = Some s" and "live_mem m al s"
    and "unat (wm_minimum (entity mm)) * 65536 \<le> unat (heap_memory_size_limit al)"
    and "mmap_reset_heap sys al (dl_module_ops dladdr d) m = (r, al', m')"
  shows "(r = Ok () \<and> unat (heap_accessible_size al') = unat (wm_minimum (entity mm)) * 65536 \<and>
      (\<forall>off < unat (heap_address_space_size (slot_limits s)).
         mem_byte m' (slot_heap s + of_nat off) =
           (if off < unat (wm_minimum (entity mm)) * 65536 then data_image dis off else 0))) \<or>
    (r = Err nix_error \<and> al' = al)"
proof -
  obtain hs ps where md: "md_linear_memory (dl_module_data d) = Some \<lparr>heap = hs, initializer = \<lparr>pages = ps\<rparr>\<rparr>"
    "list_all page_ok ps" "length ps = unat (initial_size hs) div 4096" "unat (initial_size hs) mod 4096 = 0"
    and size: "unat (initial_size hs) = unat (wm_minimum (entity mm)) * 65536"
    and img: "\<And>a. a < unat (initial_size hs) \<Longrightarrow> sparse_byte ps a = data_image dis a"
    using metadata_memory [OF assms(1-9)] by metis
  note mo = dl_memory [OF md, of dladdr]
  have n: "heap_initial_size (dl_module_ops dladdr d) \<le> heap_memory_size_limit al"
    using assms(14) by (simp add: mo(1) word_le_nat_alt size)
  show ?thesis
  proof (cases rule: mmap_reset_heap_cases [OF assms(10-13) mo(2) n mo(3), case_names ok failed])
    case (ok m1)
    with reset_image(2) [OF assms(11-13) n mo(3) ok(1) refl] assms(15) show ?thesis
      by (auto simp: mo(1,4) img simp flip: size)
  qed (use assms(15) in simp)
qed

text \<open>A module without functions and with one page of memory that the demonstration segments fill.\<close>

definition demo_memory_info :: "nat list module_info" where
  "demo_memory_info = module_info_new\<lparr>memories := [\<lparr>entity = \<lparr>wm_minimum = 1, wm_maximum = None\<rparr>, ex_names = []\<rparr>],
     data_initializers := [(0, demo_segments)]\<rparr>"

lemma demo_memory_compiles:
  "\<exists>decls cm md. module_decls_new demo_ops (Cons 0) demo_memory_info demo_bindings [] heap_settings_default 0 = Ok (decls, cm) \<and>
     dc_function_names decls = [] \<and> signatures (dc_info decls) = [] \<and> get_module_data features_none decls = Ok md"
proof -
  let ?hs = "\<lparr>reserved_size = 0x400000, guard_size = 0x400000, initial_size = 0x10000, max_size = None\<rparr> :: heap_spec"
  have "in_pages ?hs di" "di_base di = None" if "di \<in> set demo_segments" for di
    using that by (auto simp: demo_segments_def in_pages_def last_page_def)
  then obtain d where d: "owned_sparse_data_from_initializers demo_segments ?hs = Ok d" "list_all page_ok (owned_pages d)"
    using sparse_data_image [of ?hs demo_segments] by (auto split: rresult.splits)
  then have "owned_sparse_data_to_ref d = Ok \<lparr>pages = owned_pages d\<rparr>"
    by (intro owned_sparse_data_to_ref_Ok) (simp add: owned_sparse_data_new_def)
  moreover have "build_linear_memory_spec demo_memory_info heap_settings_default = Ok (Some \<lparr>olm_heap = ?hs, olm_initializer = d\<rparr>)"
    using d(1) by (simp add: build_linear_memory_spec_def build_heap_spec_def demo_memory_info_def module_info_new_def heap_settings_default_def max_def)
  ultimately show ?thesis
    by (simp add: module_decls_new_def declare_tables_def build_globals_spec_def demo_ops_def name_new_data_def get_module_data_def owned_linear_memory_to_ref_def)
      (simp add: demo_memory_info_def module_info_new_def owned_linear_memory_to_ref_def)
qed

theorem compiled_heap_image_witness:
  "\<exists>d al' m'. mmap_reset_heap demo_sys demo_alloc (dl_module_ops (\<lambda>_. None) d) demo_mem = (Ok (), al', m') \<and>
     heap_accessible_size al' = 0x10000 \<and> mem_byte m' (0x10001000 + 4095) = 1 \<and> mem_byte m' (0x10001000 + 4096) = 9"
proof -
  obtain decls cm md where c: "module_decls_new demo_ops (Cons 0) demo_memory_info demo_bindings [] heap_settings_default 0 = Ok (decls, cm)"
    "dc_function_names decls = []" "signatures (dc_info decls) = []" "get_module_data features_none decls = Ok md"
    using demo_memory_compiles by blast
  let ?d = "\<lparr>dl_fbase = 0, dl_version = \<lparr>major = 0, minor = 0, patch = 0, reserved = 0, version_hash = []\<rparr>, dl_module_data = md, dl_tables = [], dl_function_manifest = []\<rparr>"
  obtain r al' m' where run: "mmap_reset_heap demo_sys demo_alloc (dl_module_ops (\<lambda>_. None) ?d) demo_mem = (r, al', m')"
    using prod_cases3 by blast
  have wf: "clif_ok demo_ops" "info_wf demo_memory_info" "globals_valid demo_memory_info"
    by (auto simp: clif_ok_def demo_ops_def demo_memory_info_def module_info_new_def wf_defs globals_valid_def)
  let ?mm = "\<lparr>entity = \<lparr>wm_minimum = 1, wm_maximum = None\<rparr>, ex_names = []\<rparr>"
  have info: "memories demo_memory_info = [?mm]" "map_of (data_initializers demo_memory_info) 0 = Some demo_segments"
    by (simp_all add: demo_memory_info_def module_info_new_def)
  have lens: "length (dc_function_names decls) < 2 ^ 32" "length (signatures (dc_info decls)) < 2 ^ 32"
    and md: "get_module_data features_none decls = Ok (dl_module_data ?d)" using c by simp_all
  have size: "unat (wm_minimum (entity ?mm)) * 65536 \<le> unat (heap_memory_size_limit demo_alloc)" by (simp add: demo_alloc_def)
  have ok: "r = Ok ()" "unat (heap_accessible_size al') = 65536"
    and img: "\<forall>off < unat (heap_address_space_size (slot_limits demo_slot)).
      mem_byte m' (slot_heap demo_slot + of_nat off) = (if off < 65536 then data_image demo_segments off else 0)"
    using compiled_heap_image [OF wf c(1) lens md info demo_os demo_inv demo_live size run] run demo_reset_not_err by auto
  have "mem_byte m' (slot_heap demo_slot + of_nat 4095) = data_image demo_segments 4095"
    "mem_byte m' (slot_heap demo_slot + of_nat 4096) = data_image demo_segments 4096"
    using img [rule_format, of 4095] img [rule_format, of 4096] by (simp_all add: demo_slot_def limits_default_def)
  then have "mem_byte m' (0x10001000 + 4095) = 1" "mem_byte m' (0x10001000 + 4096) = 9"
    by (simp_all add: demo_slot_def data_image_def demo_segments_def seg_write_def)
  moreover have "heap_accessible_size al' = 0x10000" using ok(2) by (simp add: word_unat_eq_iff)
  ultimately show ?thesis using run ok(1) by blast
qed

end
